(* ===== verification/Prelude.thy ===== *)
theory Prelude
  imports Main "HOL-Library.Sublist" "HOL-Library.AList"
begin

text \<open>
  Shared vocabulary of the development: the results of fallible Go functions, the part of the
  Go standard library the modelled packages use (\<^verbatim>\<open>strings\<close>, slices, maps with a
  fixed iteration order), and the lemmas about them that the component theories share.

  A Go string is a sequence of bytes and is modelled by \<^typ>\<open>string\<close>. A Go map is an
  association list with distinct keys: the list order stands for the order in which one run of
  the program happens to iterate over the map, so a theorem about every list holds for every
  iteration order. A function that returns \<^verbatim>\<open>(T, error)\<close> returns
  \<^typ>\<open>'e + 'a\<close>.
\<close>

section \<open>Results\<close>

named_theorems result_iff \<open>inversion of successful results\<close>

type_synonym ('e, 'a) result = "'e + 'a"

definition bind_result :: "('e, 'a) result \<Rightarrow> ('a \<Rightarrow> ('e, 'b) result) \<Rightarrow> ('e, 'b) result" where
  "bind_result m f = (case m of Inl e \<Rightarrow> Inl e | Inr x \<Rightarrow> f x)"

lemma bind_result_simps [simp]:
  "bind_result (Inl e) f = Inl e"
  "bind_result (Inr x) f = f x"
  by (simp_all add: bind_result_def)

lemma bind_result_Inr_iff [result_iff]:
  "bind_result m f = Inr y \<longleftrightarrow> (\<exists>x. m = Inr x \<and> f x = Inr y)"
  by (cases m) auto

lemma bind_result_Inl_iff:
  "bind_result m f = Inl e \<longleftrightarrow> m = Inl e \<or> (\<exists>x. m = Inr x \<and> f x = Inl e)"
  by (cases m) auto

text \<open>
  The errors of the Kubernetes API machinery the code tells apart with \<^verbatim>\<open>IsNotFound\<close>,
  \<^verbatim>\<open>IsAlreadyExists\<close> and \<^verbatim>\<open>IsConflict\<close>; every other error is opaque.
\<close>

datatype api_error = NotFound | AlreadyExists | Conflict | OtherError string

fun error_message :: "api_error \<Rightarrow> string" where
  "error_message NotFound = ''not found''"
| "error_message AlreadyExists = ''already exists''"
| "error_message Conflict = ''conflict''"
| "error_message (OtherError m) = m"

section \<open>Strings\<close>

text \<open>Package \<^verbatim>\<open>strings\<close>, with the argument order of Go.\<close>

definition HasPrefix :: "string \<Rightarrow> string \<Rightarrow> bool" where
  "HasPrefix s p = prefix p s"

definition HasSuffix :: "string \<Rightarrow> string \<Rightarrow> bool" where
  "HasSuffix s p = suffix p s"

definition TrimPrefix :: "string \<Rightarrow> string \<Rightarrow> string" where
  "TrimPrefix s p = (if HasPrefix s p then drop (length p) s else s)"

definition TrimLeftChar :: "char \<Rightarrow> string \<Rightarrow> string" where
  "TrimLeftChar c s = dropWhile ((=) c) s"

definition TrimRightChar :: "char \<Rightarrow> string \<Rightarrow> string" where
  "TrimRightChar c s = rev (dropWhile ((=) c) (rev s))"

definition TrimChar :: "char \<Rightarrow> string \<Rightarrow> string" where
  "TrimChar c s = TrimRightChar c (TrimLeftChar c s)"

fun Contains :: "string \<Rightarrow> string \<Rightarrow> bool" where
  "Contains [] p = (p = [])"
| "Contains (c # s) p = (HasPrefix (c # s) p \<or> Contains s p)"

fun SplitChar :: "char \<Rightarrow> string \<Rightarrow> string list" where
  "SplitChar c [] = [[]]"
| "SplitChar c (x # s) =
     (if x = c then [] # SplitChar c s
      else (case SplitChar c s of [] \<Rightarrow> [[x]] | w # ws \<Rightarrow> (x # w) # ws))"

fun Join :: "string list \<Rightarrow> string \<Rightarrow> string" where
  "Join [] sep = []"
| "Join [w] sep = w"
| "Join (w # v # ws) sep = w @ sep @ Join (v # ws) sep"

text \<open>
  \<^verbatim>\<open>strings.ToLower\<close> on ASCII text: the upper-case letters 65 to 90 move up by 32.
\<close>

definition lower_char :: "char \<Rightarrow> char" where
  "lower_char c =
     (let n = of_char c :: nat in if 65 \<le> n \<and> n \<le> 90 then char_of (n + 32) else c)"

definition ToLower :: "string \<Rightarrow> string" where
  "ToLower s = map lower_char s"

definition is_white :: "char \<Rightarrow> bool" where
  "is_white c = ((of_char c :: nat) \<in> set [9, 10, 11, 12, 13, 32])"

text \<open>\<^verbatim>\<open>strings.TrimSpace\<close> on ASCII text.\<close>

definition TrimSpace :: "string \<Rightarrow> string" where
  "TrimSpace s = rev (dropWhile is_white (rev (dropWhile is_white s)))"

text \<open>Decimal numbers, as \<^verbatim>\<open>fmt\<close> prints them.\<close>

fun show_nat :: "nat \<Rightarrow> string" where
  "show_nat n = (if n < 10 then [char_of (48 + n)] else show_nat (n div 10) @ [char_of (48 + n mod 10)])"

declare show_nat.simps [simp del]

definition show_int :: "int \<Rightarrow> string" where
  "show_int i = (if i < 0 then ''-'' @ show_nat (nat (- i)) else show_nat (nat i))"

subsection \<open>Laws of the string functions\<close>

named_theorems go_strings \<open>definitions of the string library, to unfold\<close>

lemmas go_strings_defs [go_strings] =
  HasPrefix_def HasSuffix_def TrimPrefix_def TrimLeftChar_def TrimRightChar_def TrimChar_def

lemma SplitChar_not_Nil [simp]: "SplitChar c s \<noteq> []"
  by (induction s) (auto split: list.splits)

lemma Join_SplitChar [simp]: "Join (SplitChar c s) [c] = s"
proof (induction s)
  case (Cons x s)
  then show ?case
    by (cases "SplitChar c s"; cases "tl (SplitChar c s)") (auto simp: neq_Nil_conv)
qed simp

lemma SplitChar_no_sep: "c \<notin> set s \<Longrightarrow> SplitChar c s = [s]"
  by (induction s) auto

lemma SplitChar_append_sep: "c \<notin> set w \<Longrightarrow> SplitChar c (w @ c # s) = w # SplitChar c s"
  by (induction w) auto

lemma SplitChar_Join:
  "ws \<noteq> [] \<Longrightarrow> \<forall>w \<in> set ws. c \<notin> set w \<Longrightarrow> SplitChar c (Join ws [c]) = ws"
proof (induction ws)
  case (Cons w ws)
  then show ?case
    by (cases ws) (auto simp: SplitChar_no_sep SplitChar_append_sep)
qed simp

lemma SplitChar_parts_no_sep: "w \<in> set (SplitChar c s) \<Longrightarrow> c \<notin> set w"
  by (induction s arbitrary: w) (auto split: if_splits list.splits)

lemma length_SplitChar: "length (SplitChar c s) = Suc (count_list s c)"
  by (induction s) (auto split: list.splits)

lemma Contains_iff_sublist: "Contains s p \<longleftrightarrow> sublist p s"
  by (induction s p rule: Contains.induct)
     (auto simp: HasPrefix_def sublist_Cons_right)

lemma SplitChar_append: "SplitChar c (s @ c # s') = SplitChar c s @ SplitChar c s'"
  by (induction s) (auto split: list.splits)

lemma HasPrefix_append [simp]: "HasPrefix (p @ s) p"
  by (simp add: HasPrefix_def)

lemma TrimPrefix_append [simp]: "TrimPrefix (p @ s) p = s"
  by (simp add: TrimPrefix_def)

lemma TrimChar_no_ends:
  assumes "s \<noteq> []" "hd s \<noteq> c" "last s \<noteq> c"
  shows "TrimChar c s = s"
proof -
  have "dropWhile ((=) c) s = s" and "dropWhile ((=) c) (rev s) = rev s"
    using assms by (auto simp: dropWhile_eq_self_iff hd_rev)
  then show ?thesis by (simp add: TrimChar_def TrimLeftChar_def TrimRightChar_def)
qed

section \<open>Slices and maps\<close>

text \<open>A slice expression \<^verbatim>\<open>s[i:j]\<close>: it panics unless \<open>0 \<le> i \<le> j \<le> len(s)\<close>.\<close>

definition slice :: "'a list \<Rightarrow> int \<Rightarrow> int \<Rightarrow> 'a list option" where
  "slice s i j =
     (if 0 \<le> i \<and> i \<le> j \<and> j \<le> int (length s)
      then Some (take (nat j - nat i) (drop (nat i) s)) else None)"

lemma slice_SomeI:
  "0 \<le> i \<Longrightarrow> i \<le> j \<Longrightarrow> j \<le> int (length s) \<Longrightarrow>
   slice s i j = Some (take (nat j - nat i) (drop (nat i) s))"
  by (simp add: slice_def)

lemma slice_all [simp]: "slice s 0 (int (length s)) = Some s"
  by (simp add: slice_def)

type_synonym ('k, 'v) gomap = "('k \<times> 'v) list"

definition wf_map :: "('k, 'v) gomap \<Rightarrow> bool" where
  "wf_map m = distinct (map fst m)"

text \<open>Reading a missing key of a map gives the zero value of its element type.\<close>

definition map_get :: "'v \<Rightarrow> ('k, 'v) gomap \<Rightarrow> 'k \<Rightarrow> 'v" where
  "map_get z m k = (case map_of m k of None \<Rightarrow> z | Some v \<Rightarrow> v)"

lemma wf_map_Nil [simp]: "wf_map []"
  by (simp add: wf_map_def)

lemma wf_map_update [simp]: "wf_map m \<Longrightarrow> wf_map (AList.update k v m)"
  by (simp add: wf_map_def distinct_update)

lemma wf_map_delete [simp]: "wf_map m \<Longrightarrow> wf_map (AList.delete k m)"
  by (simp add: wf_map_def distinct_delete)

lemma map_of_update [simp]: "map_of (AList.update k v m) = (map_of m)(k \<mapsto> v)"
  by (rule update_conv')

lemma map_of_delete [simp]: "map_of (AList.delete k m) = (map_of m)(k := None)"
  by (rule delete_conv')

lemma map_get_update: "map_get z (AList.update k v m) k' = (if k' = k then v else map_get z m k')"
  by (simp add: map_get_def)

lemma wf_map_map_of: "wf_map m \<Longrightarrow> (k, v) \<in> set m \<longleftrightarrow> map_of m k = Some v"
  by (auto simp: wf_map_def)

lemma AList_update_not_Nil [simp]: "AList.update k v m \<noteq> []"
  by (induction m) auto

end
