(* ===== verification/Request_Info.thy ===== *)
theory Request_Info
  imports Prelude
begin

text \<open>
  The first stage of the API server's handler chain: \<^verbatim>\<open>pkg/apiserver/request/requestinfo.go\<close>
  turns the method, path and query of an HTTP request into a \<^verbatim>\<open>RequestInfo\<close>, and
  \<^verbatim>\<open>pkg/utils/iputil\<close> finds the client address. Everything after this stage
  (authorization, dispatching, auditing) reads only the record computed here.

  \<^verbatim>\<open>metainternalversion.ListOptions\<close> decoding belongs to the Kubernetes libraries: it is
  the argument \<open>decode\<close> of the definitions, which maps the query parameters to the watch flag and
  the name required by the field selector, or to \<^const>\<open>None\<close> when decoding fails. An index out of
  range is the outcome \<open>Panic\<close>.
\<close>

section \<open>Requests and request infos\<close>

type_synonym url_query = "(string, string list) gomap"

text \<open>
  \<open>Header\<close> is keyed by the spelling the code looks up: \<^verbatim>\<open>http.Header.Get\<close> canonicalises the
  name on both sides.
\<close>

record http_request =
  Method :: string
  URL_Path :: string
  URL_Query :: url_query
  RemoteAddr :: string
  Header :: "(string, string) gomap"
  User_Agent :: string

record request_info =
  ri_IsResourceRequest :: bool
  ri_Path :: string
  ri_Verb :: string
  ri_APIPrefix :: string
  ri_APIGroup :: string
  ri_APIVersion :: string
  ri_Namespace :: string
  ri_Resource :: string
  ri_Subresource :: string
  ri_Name :: string
  ri_Parts :: "string list"
  ri_IsKubernetesRequest :: bool
  ri_Workspace :: string
  ri_Cluster :: string
  ri_DevOps :: string
  ri_ResourceScope :: string
  ri_SourceIP :: string
  ri_UserAgent :: string

record request_info_factory =
  APIPrefixes :: "string list"
  GrouplessAPIPrefixes :: "string list"
  GlobalResources :: "(string \<times> string) list"

datatype info_outcome = Info request_info | InfoError request_info | Panic

abbreviation GlobalScope :: string where "GlobalScope \<equiv> ''Global''"
abbreviation ClusterScope :: string where "ClusterScope \<equiv> ''Cluster''"
abbreviation WorkspaceScope :: string where "WorkspaceScope \<equiv> ''Workspace''"
abbreviation NamespaceScope :: string where "NamespaceScope \<equiv> ''Namespace''"
abbreviation DevOpsScope :: string where "DevOpsScope \<equiv> ''DevOps''"
abbreviation workspaceSelectorPrefix :: string where
  "workspaceSelectorPrefix \<equiv> ''kubesphere.io/workspace=''"

definition specialVerbs :: "string list" where
  "specialVerbs = [''proxy'', ''watch'']"

definition specialVerbsNoSubresources :: "string list" where
  "specialVerbsNoSubresources = [''proxy'']"

definition namespaceSubresources :: "string list" where
  "namespaceSubresources = [''status'', ''finalize'']"

definition kubernetesAPIPrefixes :: "string list" where
  "kubernetesAPIPrefixes = [''api'', ''apis'']"

lemmas verb_tables =
  specialVerbs_def specialVerbsNoSubresources_def namespaceSubresources_def kubernetesAPIPrefixes_def

section \<open>The client address\<close>

text \<open>
  \<^verbatim>\<open>net.SplitHostPort\<close> of the Go library, keeping only the host: the part before the last
  colon, with brackets around an IPv6 host removed. An error leaves the host empty.
\<close>

fun index_of :: "char \<Rightarrow> string \<Rightarrow> nat option" where
  "index_of c [] = None"
| "index_of c (x # s) = (if x = c then Some 0 else map_option Suc (index_of c s))"

definition last_index_of :: "char \<Rightarrow> string \<Rightarrow> nat option" where
  "last_index_of c s = map_option (\<lambda>i. length s - 1 - i) (index_of c (rev s))"

definition SplitHostPort_host :: "string \<Rightarrow> string" where
  "SplitHostPort_host s =
     (case last_index_of CHR '':'' s of
        None \<Rightarrow> []
      | Some i \<Rightarrow>
          (if take 1 s = ''['' then
             (case index_of CHR '']'' s of
                None \<Rightarrow> []
              | Some e \<Rightarrow>
                  (if e + 1 \<noteq> i then []
                   else if CHR ''['' \<in> set (drop 1 s) \<or> CHR '']'' \<in> set (drop (e + 1) s) then []
                   else take (e - 1) (drop 1 s)))
           else
             (let host = take i s in
              if CHR '':'' \<in> set host then []
              else if CHR ''['' \<in> set s \<or> CHR '']'' \<in> set s then []
              else host)))"

definition RemoteIp :: "http_request \<Rightarrow> string" where
  "RemoteIp req =
     (let get = map_get [] (Header req);
          remoteAddr =
            (if get ''x-client-ip'' \<noteq> [] then get ''x-client-ip''
             else if get ''X-Real-IP'' \<noteq> [] then get ''X-Real-IP''
             else if get ''X-Forwarded-For'' \<noteq> [] then get ''X-Forwarded-For''
             else SplitHostPort_host (RemoteAddr req))
      in if remoteAddr = ''::1'' then ''127.0.0.1'' else remoteAddr)"

section \<open>Resolving the request\<close>

definition splitPath :: "string \<Rightarrow> string list" where
  "splitPath path =
     (let p = TrimChar CHR ''/'' path in if p = [] then [] else SplitChar CHR ''/'' p)"

definition isGlobalScopeResource :: "request_info_factory \<Rightarrow> string \<Rightarrow> string \<Rightarrow> bool" where
  "isGlobalScopeResource r apiGroup resource =
     list_ex (\<lambda>(g, n). g = apiGroup \<and> n = resource) (GlobalResources r)"

definition resolveResourceScope :: "request_info_factory \<Rightarrow> request_info \<Rightarrow> string" where
  "resolveResourceScope r request =
     (if isGlobalScopeResource r (ri_APIGroup request) (ri_Resource request) then GlobalScope
      else if ri_Namespace request \<noteq> [] then NamespaceScope
      else if ri_DevOps request \<noteq> [] then DevOpsScope
      else if ri_Workspace request \<noteq> [] then WorkspaceScope
      else ClusterScope)"

definition initial_info :: "http_request \<Rightarrow> request_info" where
  "initial_info req =
     \<lparr>ri_IsResourceRequest = False, ri_Path = URL_Path req, ri_Verb = Method req,
      ri_APIPrefix = [], ri_APIGroup = [], ri_APIVersion = [], ri_Namespace = [], ri_Resource = [],
      ri_Subresource = [], ri_Name = [], ri_Parts = [], ri_IsKubernetesRequest = False,
      ri_Workspace = [], ri_Cluster = [], ri_DevOps = [], ri_ResourceScope = [],
      ri_SourceIP = RemoteIp req, ri_UserAgent = User_Agent req\<rparr>"

text \<open>The deferred function: it runs on every return and sets \<^verbatim>\<open>IsKubernetesRequest\<close>.\<close>

definition mark_kubernetes :: "request_info \<Rightarrow> request_info" where
  "mark_kubernetes info =
     (let currentParts = splitPath (ri_Path info);
          prefix =
            (if ri_APIPrefix info = [] then
               (if 0 < length currentParts \<and> length currentParts < 3 then hd currentParts else [])
             else ri_APIPrefix info)
      in if prefix \<in> set kubernetesAPIPrefixes then info\<lparr>ri_IsKubernetesRequest := True\<rparr> else info)"

text \<open>URL forms \<^verbatim>\<open>/clusters/{cluster}/*\<close> and \<^verbatim>\<open>/workspaces/{workspace}/*\<close>.\<close>

definition strip_cluster :: "request_info \<times> string list \<Rightarrow> request_info \<times> string list" where
  "strip_cluster = (\<lambda>(info, parts).
     if hd parts = ''clusters'' then
       (if length parts > 1 then info\<lparr>ri_Cluster := parts ! 1\<rparr> else info,
        if length parts > 2 then drop 2 parts else parts)
     else (info, parts))"

definition strip_workspace :: "request_info \<times> string list \<Rightarrow> request_info \<times> string list" where
  "strip_workspace = (\<lambda>(info, parts).
     if hd parts = ''workspaces'' then
       (if length parts > 1 then info\<lparr>ri_Workspace := parts ! 1\<rparr> else info,
        if length parts > 2 then drop 2 parts else parts)
     else (info, parts))"

definition strip_namespace :: "request_info \<times> string list \<Rightarrow> request_info \<times> string list" where
  "strip_namespace = (\<lambda>(info, parts).
     if hd parts = ''namespaces'' then
       (if length parts > 1 then
          (info\<lparr>ri_Namespace := parts ! 1\<rparr>,
           if length parts > 2 \<and> parts ! 2 \<notin> set namespaceSubresources then drop 2 parts else parts)
        else (info, parts))
     else if hd parts = ''devops'' then
       (if length parts > 1 then
          (info\<lparr>ri_DevOps := parts ! 1\<rparr>, if length parts > 2 then drop 2 parts else parts)
        else (info, parts))
     else (info\<lparr>ri_Namespace := [], ri_DevOps := []\<rparr>, parts))"

definition verb_of_method :: "string \<Rightarrow> string" where
  "verb_of_method m =
     (if m = ''POST'' then ''create''
      else if m = ''GET'' \<or> m = ''HEAD'' then ''get''
      else if m = ''PUT'' then ''update''
      else if m = ''PATCH'' then ''patch''
      else if m = ''DELETE'' then ''delete''
      else [])"

definition set_resource_fields :: "request_info \<Rightarrow> request_info" where
  "set_resource_fields info =
     (let parts = ri_Parts info in
      if length parts \<ge> 3 \<and> ri_Verb info \<notin> set specialVerbsNoSubresources then
        info\<lparr>ri_Subresource := parts ! 2, ri_Name := parts ! 1, ri_Resource := parts ! 0\<rparr>
      else if length parts \<ge> 2 then info\<lparr>ri_Name := parts ! 1, ri_Resource := parts ! 0\<rparr>
      else if length parts \<ge> 1 then info\<lparr>ri_Resource := parts ! 0\<rparr>
      else info)"

record list_options =
  lo_Watch :: bool
  lo_ExactName :: "string option"

type_synonym list_options_decoder = "url_query \<Rightarrow> list_options option"

text \<open>\<^verbatim>\<open>path.IsValidPathSegmentName\<close> returns no message.\<close>

definition valid_path_segment_name :: "string \<Rightarrow> bool" where
  "valid_path_segment_name name =
     (name \<noteq> ''.'' \<and> name \<noteq> ''..'' \<and> \<not> Contains name ''/'' \<and> \<not> Contains name ''%'')"

text \<open>When the options do not decode, only the presence of a \<^verbatim>\<open>watch\<close> parameter counts.\<close>

definition decoded_options :: "list_options_decoder \<Rightarrow> url_query \<Rightarrow> list_options" where
  "decoded_options decode q =
     (case decode q of
        Some opts \<Rightarrow> opts
      | None \<Rightarrow>
          \<lparr>lo_Watch = (case map_get [] q ''watch'' of
                         [] \<Rightarrow> False
                       | v # _ \<Rightarrow> ToLower v \<noteq> ''false'' \<and> ToLower v \<noteq> ''0''),
           lo_ExactName = None\<rparr>)"

definition resolve_list_verb ::
  "list_options_decoder \<Rightarrow> url_query \<Rightarrow> request_info \<Rightarrow> request_info" where
  "resolve_list_verb decode q info =
     (if ri_Name info = [] \<and> ri_Verb info = ''get'' then
        (let opts = decoded_options decode q;
             info1 = info\<lparr>ri_Verb := (if lo_Watch opts then ''watch'' else ''list'')\<rparr>
         in case lo_ExactName opts of
              Some name \<Rightarrow>
                if valid_path_segment_name name then info1\<lparr>ri_Name := name\<rparr> else info1
            | None \<Rightarrow> info1)
      else info)"

definition resolve_watch_scope :: "url_query \<Rightarrow> request_info \<Rightarrow> request_info" where
  "resolve_watch_scope q info =
     (if ri_Verb info = ''watch'' then
        (let selector = (case map_get [] q ''labelSelector'' of [] \<Rightarrow> [] | v # _ \<Rightarrow> v) in
         if HasPrefix selector workspaceSelectorPrefix
         then info\<lparr>ri_Workspace := TrimPrefix selector workspaceSelectorPrefix,
                   ri_ResourceScope := WorkspaceScope\<rparr>
         else info)
      else info)"

definition resolve_deletecollection :: "request_info \<Rightarrow> request_info" where
  "resolve_deletecollection info =
     (if ri_Name info = [] \<and> ri_Verb info = ''delete''
      then info\<lparr>ri_Verb := ''deletecollection''\<rparr> else info)"

text \<open>
  The part of \<^verbatim>\<open>NewRequestInfo\<close> after the verb is known: it reads
  \<^verbatim>\<open>currentParts[0]\<close>, which panics on an empty slice.
\<close>

definition resolve_parts ::
  "request_info_factory \<Rightarrow> list_options_decoder \<Rightarrow> http_request \<Rightarrow> request_info \<Rightarrow> string list \<Rightarrow>
   info_outcome" where
  "resolve_parts r decode req info parts =
     (if parts = [] then Panic
      else
        (let (info1, parts1) = strip_namespace (strip_workspace (info, parts));
             info2 = info1\<lparr>ri_Parts := parts1\<rparr>;
             info3 = info2\<lparr>ri_ResourceScope := resolveResourceScope r info2\<rparr>;
             info4 = set_resource_fields info3;
             info5 = resolve_list_verb decode (URL_Query req) info4;
             info6 = resolve_watch_scope (URL_Query req) info5;
             info7 = resolve_deletecollection info6
         in Info (mark_kubernetes info7)))"

text \<open>The API version and the verb, special or from the method.\<close>

definition resolve_version ::
  "request_info_factory \<Rightarrow> list_options_decoder \<Rightarrow> http_request \<Rightarrow> request_info \<Rightarrow> string list \<Rightarrow>
   info_outcome" where
  "resolve_version r decode req info parts =
     (let info1 = info\<lparr>ri_IsResourceRequest := True, ri_APIVersion := hd parts\<rparr>;
          parts1 = tl parts
      in if length parts1 > 0 \<and> hd parts1 \<in> set specialVerbs then
           (if length parts1 < 2 then InfoError (mark_kubernetes info1)
            else resolve_parts r decode req (info1\<lparr>ri_Verb := hd parts1\<rparr>) (tl parts1))
         else resolve_parts r decode req (info1\<lparr>ri_Verb := verb_of_method (Method req)\<rparr>) parts1)"

definition NewRequestInfo ::
  "request_info_factory \<Rightarrow> list_options_decoder \<Rightarrow> http_request \<Rightarrow> info_outcome" where
  "NewRequestInfo r decode req =
     (let info = initial_info req; parts = splitPath (URL_Path req) in
      if length parts < 3 then Info (mark_kubernetes info)
      else if hd parts \<notin> set (APIPrefixes r) then Info (mark_kubernetes info)
      else
        (let (info1, parts1) = strip_cluster (info\<lparr>ri_APIPrefix := hd parts\<rparr>, tl parts) in
         if ri_APIPrefix info1 \<notin> set (GrouplessAPIPrefixes r) then
           (if length parts1 < 3 then Info (mark_kubernetes info1)
            else resolve_version r decode req (info1\<lparr>ri_APIGroup := hd parts1\<rparr>) (tl parts1))
         else resolve_version r decode req info1 parts1))"

section \<open>Splitting and rebuilding paths\<close>

definition path_segment :: "string \<Rightarrow> bool" where
  "path_segment s \<longleftrightarrow> s \<noteq> [] \<and> CHR ''/'' \<notin> set s"

lemma path_segment_ends:
  "path_segment w \<Longrightarrow> hd w \<noteq> CHR ''/'' \<and> last w \<noteq> CHR ''/''"
  by (metis hd_in_set last_in_set path_segment_def)

lemma Join_ends:
  "ws \<noteq> [] \<Longrightarrow> \<forall>w \<in> set ws. w \<noteq> [] \<Longrightarrow>
   Join ws sep \<noteq> [] \<and> hd (Join ws sep) = hd (hd ws) \<and> last (Join ws sep) = last (last ws)"
  by (induction ws sep rule: Join.induct) auto

lemma splitPath_Join:
  assumes ne: "ws \<noteq> []" and seg: "\<forall>w \<in> set ws. path_segment w"
  shows "splitPath (''/'' @ Join ws ''/'') = ws"
proof -
  let ?p = "Join ws ''/''"
  have nn: "\<forall>w \<in> set ws. w \<noteq> []" using seg by (auto simp: path_segment_def)
  have J: "?p \<noteq> []" "hd ?p = hd (hd ws)" "last ?p = last (last ws)"
    using Join_ends [OF ne nn, of "''/''"] by auto
  then have ends: "hd ?p \<noteq> CHR ''/''" "last ?p \<noteq> CHR ''/''"
    using path_segment_ends [of "hd ws"] path_segment_ends [of "last ws"] seg ne by auto
  have "TrimChar CHR ''/'' (''/'' @ ?p) = TrimChar CHR ''/'' ?p"
    by (simp add: TrimChar_def TrimLeftChar_def)
  also have "\<dots> = ?p" using TrimChar_no_ends [OF J(1) ends] .
  finally have "splitPath (''/'' @ ?p) = SplitChar CHR ''/'' ?p"
    using J(1) by (simp add: splitPath_def)
  also have "\<dots> = ws" using ne seg by (intro SplitChar_Join) (auto simp: path_segment_def)
  finally show ?thesis .
qed

lemma TrimChar_hd: "TrimChar c s \<noteq> [] \<Longrightarrow> hd (TrimChar c s) \<noteq> c"
proof -
  assume ne: "TrimChar c s \<noteq> []"
  let ?l = "dropWhile ((=) c) s"
  obtain t where t: "?l = TrimChar c s @ t"
    by (metis TrimChar_def TrimLeftChar_def TrimRightChar_def rev_append rev_rev_ident
        takeWhile_dropWhile_id)
  have "?l \<noteq> []" using ne t by auto
  then have "hd ?l \<noteq> c" using hd_dropWhile [of "(=) c" s] by auto
  then show ?thesis using t ne by (metis hd_append2)
qed

lemma splitPath_hd: "splitPath p \<noteq> [] \<Longrightarrow> hd (splitPath p) \<noteq> []"
proof -
  assume ne: "splitPath p \<noteq> []"
  let ?t = "TrimChar CHR ''/'' p"
  have t: "?t \<noteq> []" using ne by (auto simp: splitPath_def Let_def)
  then obtain x u where xu: "?t = x # u" by (cases ?t) auto
  with TrimChar_hd [of "CHR ''/''" p] have "x \<noteq> CHR ''/''" by simp
  with xu have "hd (SplitChar CHR ''/'' ?t) \<noteq> []" by (auto split: list.splits)
  with t show ?thesis by (simp add: splitPath_def Let_def)
qed

section \<open>Frame lemmas of the stages\<close>

named_theorems ri_stage \<open>definitions of the resolution stages, to unfold\<close>

lemmas ri_stage_defs [ri_stage] =
  strip_cluster_def strip_workspace_def strip_namespace_def set_resource_fields_def
  resolve_list_verb_def resolve_watch_scope_def resolve_deletecollection_def Let_def

lemma mark_kubernetes_frame [simp]:
  "ri_ResourceScope (mark_kubernetes i) = ri_ResourceScope i"
  "ri_Verb (mark_kubernetes i) = ri_Verb i"
  "ri_IsResourceRequest (mark_kubernetes i) = ri_IsResourceRequest i"
  "ri_Namespace (mark_kubernetes i) = ri_Namespace i"
  "ri_Workspace (mark_kubernetes i) = ri_Workspace i"
  "ri_Cluster (mark_kubernetes i) = ri_Cluster i"
  "ri_DevOps (mark_kubernetes i) = ri_DevOps i"
  "ri_Resource (mark_kubernetes i) = ri_Resource i"
  "ri_Subresource (mark_kubernetes i) = ri_Subresource i"
  "ri_Name (mark_kubernetes i) = ri_Name i"
  "ri_APIGroup (mark_kubernetes i) = ri_APIGroup i"
  "ri_APIVersion (mark_kubernetes i) = ri_APIVersion i"
  "ri_Path (mark_kubernetes i) = ri_Path i"
  "ri_APIPrefix (mark_kubernetes i) = ri_APIPrefix i"
  by (simp_all add: mark_kubernetes_def Let_def)

lemma mark_kubernetes_flag:
  "\<not> ri_IsKubernetesRequest i \<Longrightarrow>
   ri_IsKubernetesRequest (mark_kubernetes i) \<longleftrightarrow>
     (if ri_APIPrefix i = []
      then (splitPath (ri_Path i) \<noteq> [] \<and> length (splitPath (ri_Path i)) < 3 \<and>
            hd (splitPath (ri_Path i)) \<in> {''api'', ''apis''})
      else ri_APIPrefix i \<in> {''api'', ''apis''})"
  by (auto simp: mark_kubernetes_def Let_def kubernetesAPIPrefixes_def)

lemma strip_cluster_frame:
  "strip_cluster (i, parts) = (i', parts') \<Longrightarrow>
   ri_Path i' = ri_Path i \<and>
   ri_APIPrefix i' = ri_APIPrefix i \<and>
   ri_APIGroup i' = ri_APIGroup i \<and>
   ri_APIVersion i' = ri_APIVersion i \<and>
   ri_Verb i' = ri_Verb i \<and>
   ri_Resource i' = ri_Resource i \<and>
   ri_Subresource i' = ri_Subresource i \<and>
   ri_Name i' = ri_Name i \<and>
   ri_IsKubernetesRequest i' = ri_IsKubernetesRequest i \<and>
   ri_IsResourceRequest i' = ri_IsResourceRequest i \<and>
   ri_Workspace i' = ri_Workspace i \<and>
   ri_Namespace i' = ri_Namespace i \<and>
   ri_DevOps i' = ri_DevOps i \<and>
   ri_ResourceScope i' = ri_ResourceScope i \<and>
   (parts \<noteq> [] \<longrightarrow> parts' \<noteq> [])"
  by (auto simp: strip_cluster_def split: if_splits)

lemma strip_workspace_frame:
  "strip_workspace (i, parts) = (i', parts') \<Longrightarrow>
   ri_Path i' = ri_Path i \<and>
   ri_APIPrefix i' = ri_APIPrefix i \<and>
   ri_APIGroup i' = ri_APIGroup i \<and>
   ri_APIVersion i' = ri_APIVersion i \<and>
   ri_Verb i' = ri_Verb i \<and>
   ri_Resource i' = ri_Resource i \<and>
   ri_Subresource i' = ri_Subresource i \<and>
   ri_Name i' = ri_Name i \<and>
   ri_IsKubernetesRequest i' = ri_IsKubernetesRequest i \<and>
   ri_IsResourceRequest i' = ri_IsResourceRequest i \<and>
   ri_Cluster i' = ri_Cluster i \<and>
   ri_Namespace i' = ri_Namespace i \<and>
   ri_DevOps i' = ri_DevOps i \<and>
   (parts \<noteq> [] \<longrightarrow> parts' \<noteq> [])"
  by (auto simp: strip_workspace_def split: if_splits)

lemma strip_namespace_frame:
  "strip_namespace (i, parts) = (i', parts') \<Longrightarrow>
   ri_Path i' = ri_Path i \<and>
   ri_APIPrefix i' = ri_APIPrefix i \<and>
   ri_APIGroup i' = ri_APIGroup i \<and>
   ri_APIVersion i' = ri_APIVersion i \<and>
   ri_Verb i' = ri_Verb i \<and>
   ri_Resource i' = ri_Resource i \<and>
   ri_Subresource i' = ri_Subresource i \<and>
   ri_Name i' = ri_Name i \<and>
   ri_IsKubernetesRequest i' = ri_IsKubernetesRequest i \<and>
   ri_IsResourceRequest i' = ri_IsResourceRequest i \<and>
   ri_Cluster i' = ri_Cluster i \<and>
   ri_Workspace i' = ri_Workspace i \<and>
   (parts \<noteq> [] \<longrightarrow> parts' \<noteq> [])"
  by (auto simp: strip_namespace_def split: if_splits)

lemma late_stages_frame:
  "ri_Path (set_resource_fields i) = ri_Path i"
  "ri_APIPrefix (set_resource_fields i) = ri_APIPrefix i"
  "ri_IsKubernetesRequest (set_resource_fields i) = ri_IsKubernetesRequest i"
  "ri_Verb (set_resource_fields i) = ri_Verb i"
  "ri_ResourceScope (set_resource_fields i) = ri_ResourceScope i"
  "ri_Path (resolve_list_verb d q i) = ri_Path i"
  "ri_APIPrefix (resolve_list_verb d q i) = ri_APIPrefix i"
  "ri_IsKubernetesRequest (resolve_list_verb d q i) = ri_IsKubernetesRequest i"
  "ri_ResourceScope (resolve_list_verb d q i) = ri_ResourceScope i"
  "ri_Path (resolve_watch_scope q i) = ri_Path i"
  "ri_APIPrefix (resolve_watch_scope q i) = ri_APIPrefix i"
  "ri_IsKubernetesRequest (resolve_watch_scope q i) = ri_IsKubernetesRequest i"
  "ri_Verb (resolve_watch_scope q i) = ri_Verb i"
  "ri_Path (resolve_deletecollection i) = ri_Path i"
  "ri_APIPrefix (resolve_deletecollection i) = ri_APIPrefix i"
  "ri_IsKubernetesRequest (resolve_deletecollection i) = ri_IsKubernetesRequest i"
  "ri_ResourceScope (resolve_deletecollection i) = ri_ResourceScope i"
  by (simp_all add: ri_stage split: option.splits)

text \<open>What a successful \<^const>\<open>resolve_parts\<close> says about its result.\<close>

lemma resolve_parts_Info:
  assumes "resolve_parts r d req i parts = Info info"
  shows "ri_Path info = ri_Path i \<and> ri_APIPrefix info = ri_APIPrefix i"
    and "\<exists>j. ri_Resource j = ri_Resource i \<and> ri_APIGroup j = ri_APIGroup i \<and>
             ri_ResourceScope info \<in> {resolveResourceScope r j, WorkspaceScope}"
    and "ri_Verb info \<in> {ri_Verb i, ''list'', ''watch'', ''deletecollection''} \<and>
         (ri_Verb info \<in> {''list'', ''watch''} \<longrightarrow> ri_Verb i \<in> {''get'', ri_Verb info})"
    and "\<not> ri_IsKubernetesRequest i \<Longrightarrow>
         \<exists>j. info = mark_kubernetes j \<and> \<not> ri_IsKubernetesRequest j"
proof -
  obtain i1 p1 where w: "strip_workspace (i, parts) = (i1, p1)" by fastforce
  obtain i2 p2 where n: "strip_namespace (i1, p1) = (i2, p2)" by fastforce
  note eq = assms [unfolded resolve_parts_def w n Let_def prod.case]
  note fr = strip_workspace_frame [OF w] strip_namespace_frame [OF n]
  have f: "ri_Path i2 = ri_Path i" "ri_APIPrefix i2 = ri_APIPrefix i" "ri_Verb i2 = ri_Verb i"
    "ri_Resource i2 = ri_Resource i" "ri_APIGroup i2 = ri_APIGroup i"
    "ri_IsKubernetesRequest i2 = ri_IsKubernetesRequest i"
    using fr by simp_all
  show "ri_Path info = ri_Path i \<and> ri_APIPrefix info = ri_APIPrefix i"
    using eq f by (auto simp: late_stages_frame split: if_splits)
  show "\<exists>j. ri_Resource j = ri_Resource i \<and> ri_APIGroup j = ri_APIGroup i \<and>
          ri_ResourceScope info \<in> {resolveResourceScope r j, WorkspaceScope}"
    using eq f
    by (intro exI [of _ "i2\<lparr>ri_Parts := p2\<rparr>"])
       (auto simp: late_stages_frame resolve_watch_scope_def Let_def split: if_splits)
  show "ri_Verb info \<in> {ri_Verb i, ''list'', ''watch'', ''deletecollection''} \<and>
        (ri_Verb info \<in> {''list'', ''watch''} \<longrightarrow> ri_Verb i \<in> {''get'', ri_Verb info})"
    using eq f
    by (auto simp: late_stages_frame resolve_deletecollection_def resolve_list_verb_def Let_def
        split: if_splits option.splits)
  show "\<not> ri_IsKubernetesRequest i \<Longrightarrow> \<exists>j. info = mark_kubernetes j \<and> \<not> ri_IsKubernetesRequest j"
    using eq f by (auto simp: late_stages_frame split: if_splits intro!: exI)
qed

section \<open>Properties\<close>

lemma resolve_parts_Panic [simp]: "resolve_parts r d req i parts = Panic \<longleftrightarrow> parts = []"
  by (simp add: resolve_parts_def Let_def split: prod.splits)

lemma resolve_parts_Nil: "resolve_parts r d req i [] = Panic"
  by simp

lemma resolve_parts_not_InfoError [simp]: "resolve_parts r d req i parts \<noteq> InfoError j"
  by (simp add: resolve_parts_def Let_def split: prod.splits)

lemma length_less_3_cases: "length xs < 3 \<longleftrightarrow> xs = [] \<or> (\<exists>a. xs = [a]) \<or> (\<exists>a b. xs = [a, b])"
  by (cases xs; cases "tl xs"; cases "tl (tl xs)") auto

lemma strip_cluster_parts:
  assumes "strip_cluster (i, b # c # ps) = (i', qs)"
  obtains (alone) x where "qs = [x]" "b = ''clusters''" "ps = [x]"
  | (more) x y zs where "qs = x # y # zs" "\<not> (b = ''clusters'' \<and> (\<exists>v. ps = [v]))"
  using assms
  by (cases ps; cases "tl ps") (auto simp: strip_cluster_def split: if_splits)

text \<open>
  The three ways \<^const>\<open>NewRequestInfo\<close> can go: an early return of a non-resource request, the
  error for a lone special verb, or the resolution of the remaining path parts.
\<close>

inductive info_shape ::
  "request_info_factory \<Rightarrow> list_options_decoder \<Rightarrow> http_request \<Rightarrow> info_outcome \<Rightarrow> bool" for r d req where
  short: "length (splitPath (URL_Path req)) < 3 \<or> hd (splitPath (URL_Path req)) \<notin> set (APIPrefixes r) \<Longrightarrow>
     info_shape r d req (Info (mark_kubernetes (initial_info req)))"
| early: "3 \<le> length (splitPath (URL_Path req)) \<Longrightarrow>
     hd (splitPath (URL_Path req)) \<in> set (APIPrefixes r) \<Longrightarrow>
     ri_Path i = URL_Path req \<Longrightarrow> ri_APIPrefix i = hd (splitPath (URL_Path req)) \<Longrightarrow>
     \<not> ri_IsKubernetesRequest i \<Longrightarrow> \<not> ri_IsResourceRequest i \<Longrightarrow> ri_ResourceScope i = [] \<Longrightarrow>
     info_shape r d req (Info (mark_kubernetes i))"
| verb: "info_shape r d req (InfoError i)"
| parts: "3 \<le> length (splitPath (URL_Path req)) \<Longrightarrow>
     hd (splitPath (URL_Path req)) \<in> set (APIPrefixes r) \<Longrightarrow>
     ri_Path i = URL_Path req \<Longrightarrow> ri_APIPrefix i = hd (splitPath (URL_Path req)) \<Longrightarrow>
     \<not> ri_IsKubernetesRequest i \<Longrightarrow> ri_Resource i = [] \<Longrightarrow>
     ri_Verb i = verb_of_method (Method req) \<or>
       ri_Verb i \<in> set specialVerbs \<and> ri_Verb i \<in> set (splitPath (URL_Path req)) \<Longrightarrow>
     (ps = [] \<longleftrightarrow> hd (splitPath (URL_Path req)) \<in> set (GrouplessAPIPrefixes r) \<and>
        (\<exists>p c x. splitPath (URL_Path req) = [p, ''clusters'', c, x])) \<Longrightarrow>
     info_shape r d req (resolve_parts r d req i ps)"

lemma strip_cluster_set: "strip_cluster (i, parts) = (i', qs) \<Longrightarrow> set qs \<subseteq> set parts"
  by (auto simp: strip_cluster_def dest: in_set_dropD split: if_splits)

lemma resolve_version_shape:
  assumes P: "3 \<le> length (splitPath (URL_Path req))"
      "hd (splitPath (URL_Path req)) \<in> set (APIPrefixes r)"
    and i: "ri_Path i = URL_Path req" "ri_APIPrefix i = hd (splitPath (URL_Path req))"
      "\<not> ri_IsKubernetesRequest i" "ri_Resource i = []"
    and qs: "set qs \<subseteq> set (splitPath (URL_Path req))"
    and tl: "tl qs = [] \<longleftrightarrow> hd (splitPath (URL_Path req)) \<in> set (GrouplessAPIPrefixes r) \<and>
       (\<exists>p c x. splitPath (URL_Path req) = [p, ''clusters'', c, x])"
  shows "info_shape r d req (resolve_version r d req i qs)"
proof (cases "length (tl qs) > 0 \<and> hd (tl qs) \<in> set specialVerbs")
  case False
  then show ?thesis
    using P i tl by (auto simp: resolve_version_def Let_def intro!: info_shape.parts info_shape.verb)
next
  case True
  show ?thesis
  proof (cases "length (tl qs) < 2")
    case lt: True
    with True show ?thesis
      by (cases qs) (auto simp: resolve_version_def Let_def intro: info_shape.verb)
  next
    case ge: False
    then obtain x y z zs where q: "qs = x # y # z # zs"
      by (cases qs; cases "tl qs"; cases "tl (tl qs)") auto
    with True P i tl qs show ?thesis
      by (auto simp: resolve_version_def Let_def intro!: info_shape.parts)
  qed
qed

lemma NewRequestInfo_shape: "info_shape r d req (NewRequestInfo r d req)"
proof (cases "length (splitPath (URL_Path req)) < 3 \<or>
              hd (splitPath (URL_Path req)) \<notin> set (APIPrefixes r)")
  case True
  then show ?thesis by (auto simp: NewRequestInfo_def Let_def intro: info_shape.short)
next
  case False
  then obtain p b c ps where P: "splitPath (URL_Path req) = p # b # c # ps"
    by (metis length_less_3_cases list.exhaust)
  obtain i q where sc: "strip_cluster ((initial_info req)\<lparr>ri_APIPrefix := p\<rparr>, b # c # ps) = (i, q)"
    by fastforce
  have i: "ri_Path i = URL_Path req" "ri_APIPrefix i = p" "\<not> ri_IsKubernetesRequest i"
    "\<not> ri_IsResourceRequest i" "ri_ResourceScope i = []" "ri_Resource i = []"
    using strip_cluster_frame [OF sc] by (simp_all add: initial_info_def)
  have qs: "set q \<subseteq> set (p # b # c # ps)" using strip_cluster_set [OF sc] by auto
  have tlq: "tl q = [] \<longleftrightarrow> b = ''clusters'' \<and> (\<exists>v. ps = [v])"
    using sc by (cases rule: strip_cluster_parts) auto
  have eq: "NewRequestInfo r d req =
      (if p \<notin> set (GrouplessAPIPrefixes r) then
         (if length q < 3 then Info (mark_kubernetes i)
          else resolve_version r d req (i\<lparr>ri_APIGroup := hd q\<rparr>) (tl q))
       else resolve_version r d req i q)"
    using False by (simp add: NewRequestInfo_def Let_def P sc i)
  show ?thesis
  proof (cases "p \<in> set (GrouplessAPIPrefixes r)")
    case True
    with False i qs tlq show ?thesis
      unfolding eq by (auto simp: P intro!: resolve_version_shape)
  next
    case grouped: False
    have "info_shape r d req (Info (mark_kubernetes i))"
      using False i by (auto simp: P intro!: info_shape.early)
    moreover have "info_shape r d req (resolve_version r d req (i\<lparr>ri_APIGroup := hd q\<rparr>) (tl q))"
      if "\<not> length q < 3"
    proof -
      have "tl (tl q) \<noteq> []" "set (tl q) \<subseteq> set q" using that by (cases q; cases "tl q"; auto)+
      with grouped False i qs show ?thesis
        by (intro resolve_version_shape) (auto simp: P)
    qed
    ultimately show ?thesis using grouped unfolding eq by simp
  qed
qed

text \<open>
  Resolving a request panics (index out of range) exactly for paths of the form
  \<^verbatim>\<open>/{prefix}/clusters/{cluster}/{x}\<close> whose prefix is a groupless API prefix: the code strips the
  cluster, takes \<^verbatim>\<open>{x}\<close> as the API version and then reads the first element of an empty slice.
\<close>

theorem NewRequestInfo_panics_iff:
  "NewRequestInfo r decode req = Panic \<longleftrightarrow>
     (\<exists>p c x. splitPath (URL_Path req) = [p, ''clusters'', c, x] \<and>
        p \<in> set (APIPrefixes r) \<and> p \<in> set (GrouplessAPIPrefixes r))"
  using NewRequestInfo_shape [of r decode req]
proof (cases rule: info_shape.cases)
  case (verb i)
  then show ?thesis
    by (auto simp: NewRequestInfo_def strip_cluster_def resolve_version_def Let_def resolve_parts_Nil)
next
  case (early i)
  then show ?thesis
    by (auto simp: NewRequestInfo_def strip_cluster_def resolve_version_def Let_def resolve_parts_Nil)
qed auto

text \<open>
  The scope of a request is resolved before its resource is known, so it is never
  \<^verbatim>\<open>Global\<close> when every configured global resource has a non-empty resource name.
\<close>

theorem NewRequestInfo_scope_never_global:
  assumes named: "\<forall>(g, n) \<in> set (GlobalResources r). n \<noteq> []"
    and info: "NewRequestInfo r decode req = Info info"
  shows "ri_ResourceScope info \<noteq> GlobalScope"
  using NewRequestInfo_shape [of r decode req]
proof (cases rule: info_shape.cases)
  case (parts i ps)
  obtain j where j: "ri_Resource j = []" "ri_ResourceScope info \<in> {resolveResourceScope r j, WorkspaceScope}"
    using resolve_parts_Info(2) [of r decode req i ps info] parts info by auto
  have "\<not> isGlobalScopeResource r (ri_APIGroup j) []"
    using named by (auto simp: isGlobalScopeResource_def list_ex_iff)
  with j show ?thesis by (auto simp: resolveResourceScope_def split: if_splits)
qed (use info in \<open>auto simp: initial_info_def\<close>)

text \<open>
  A resource request resolved from a method that is neither GET nor HEAD is given a read-only
  verb (get, list or watch) only when its URL names the special verb \<^verbatim>\<open>watch\<close> explicitly.
\<close>

theorem NewRequestInfo_readonly_verb:
  assumes info: "NewRequestInfo r decode req = Info info"
    and res: "ri_IsResourceRequest info"
    and ro: "ri_Verb info \<in> {''get'', ''list'', ''watch''}"
    and meth: "Method req \<notin> {''GET'', ''HEAD''}"
  shows "''watch'' \<in> set (splitPath (URL_Path req))"
  using NewRequestInfo_shape [of r decode req]
proof (cases rule: info_shape.cases)
  case (parts i ps)
  have "verb_of_method (Method req) \<notin> {''get'', ''list'', ''watch''}"
    using meth by (simp add: verb_of_method_def)
  moreover have "ri_Verb i \<in> {''get'', ri_Verb info}"
    using resolve_parts_Info(3) [of r decode req i ps info] parts info ro by auto
  ultimately show ?thesis
    using parts ro by (auto simp: specialVerbs_def)
qed (use info res in \<open>auto simp: initial_info_def\<close>)

text \<open>
  A request is marked as a Kubernetes request exactly when its first path segment is
  \<^verbatim>\<open>api\<close> or \<^verbatim>\<open>apis\<close> and either the path is a discovery path of one or two segments or that
  prefix is a configured API prefix.
\<close>

theorem NewRequestInfo_kubernetes_iff:
  assumes info: "NewRequestInfo r decode req = Info info"
  shows "ri_IsKubernetesRequest info \<longleftrightarrow>
    (let parts = splitPath (URL_Path req) in
     parts \<noteq> [] \<and> hd parts \<in> {''api'', ''apis''} \<and>
     (length parts < 3 \<or> hd parts \<in> set (APIPrefixes r)))"
  using NewRequestInfo_shape [of r decode req]
proof (cases rule: info_shape.cases)
  case short
  with info show ?thesis
    by (auto simp: initial_info_def mark_kubernetes_flag Let_def)
next
  case (early i)
  then show ?thesis
    using info splitPath_hd [of "URL_Path req"]
    by (cases "splitPath (URL_Path req)") (auto simp: mark_kubernetes_flag Let_def)
next
  case (parts i ps)
  have rp: "resolve_parts r decode req i ps = Info info" using parts(1) info by simp
  obtain j where j: "info = mark_kubernetes j" "\<not> ri_IsKubernetesRequest j"
    using resolve_parts_Info(4) [OF rp] parts by blast
  have "ri_APIPrefix j = hd (splitPath (URL_Path req))"
    using resolve_parts_Info(1) [OF rp] j parts by simp
  then show ?thesis
    using j parts splitPath_hd [of "URL_Path req"]
    by (cases "splitPath (URL_Path req)") (auto simp: mark_kubernetes_flag Let_def)
qed (use info in simp)

subsection \<open>Documented URL forms\<close>

text \<open>
  The path of a named resource in the documented form
  \<^verbatim>\<open>/kapis[/clusters/{c}]/{group}/{version}[/workspaces/{w}][/namespaces/{n}]/{resource}/{name}[/{sub}]\<close>.
\<close>

definition resource_url ::
  "string \<Rightarrow> string option \<Rightarrow> string \<Rightarrow> string \<Rightarrow> string option \<Rightarrow> string option \<Rightarrow>
   string \<Rightarrow> string \<Rightarrow> string option \<Rightarrow> string list" where
  "resource_url pre cluster grp version ws ns resource name sub =
     [pre] @ (case cluster of None \<Rightarrow> [] | Some c \<Rightarrow> [''clusters'', c]) @ [grp, version] @
     (case ws of None \<Rightarrow> [] | Some w \<Rightarrow> [''workspaces'', w]) @
     (case ns of None \<Rightarrow> [] | Some n \<Rightarrow> [''namespaces'', n]) @
     [resource, name] @ (case sub of None \<Rightarrow> [] | Some s \<Rightarrow> [s])"

definition plain_resource :: "string \<Rightarrow> bool" where
  "plain_resource s \<longleftrightarrow>
     s \<notin> {''workspaces'', ''namespaces'', ''devops'', ''proxy'', ''watch'', ''status'', ''finalize''}"

definition opt_string :: "string option \<Rightarrow> string" where
  "opt_string x = (case x of None \<Rightarrow> [] | Some s \<Rightarrow> s)"

lemma strip_cluster_url:
  "grp \<noteq> ''clusters'' \<Longrightarrow>
   strip_cluster (i, (case c of None \<Rightarrow> [] | Some c \<Rightarrow> [''clusters'', c]) @ grp # ps) =
     (if c = None then i else i\<lparr>ri_Cluster := the c\<rparr>, grp # ps)"
  by (cases c) (simp_all add: strip_cluster_def)

lemma strip_workspace_url:
  "x \<noteq> ''workspaces'' \<or> ws \<noteq> None \<Longrightarrow>
   strip_workspace (i, (case ws of None \<Rightarrow> [] | Some w \<Rightarrow> [''workspaces'', w]) @ x # ps) =
     (if ws = None then i else i\<lparr>ri_Workspace := the ws\<rparr>, x # ps)"
  by (cases ws) (simp_all add: strip_workspace_def)

lemma strip_namespace_url:
  "plain_resource x \<Longrightarrow> ri_DevOps i = [] \<Longrightarrow> ri_Namespace i = [] \<Longrightarrow>
   strip_namespace (i, (case ns of None \<Rightarrow> [] | Some n \<Rightarrow> [''namespaces'', n]) @ x # ps) =
     (i\<lparr>ri_Namespace := opt_string ns\<rparr>, x # ps)"
  by (cases ns)
     (auto simp: strip_namespace_def namespaceSubresources_def plain_resource_def opt_string_def)

lemma verb_of_method_not_special: "verb_of_method m \<noteq> ''watch''" "verb_of_method m \<noteq> ''proxy''"
  by (simp_all add: verb_of_method_def)

lemma resolve_parts_url:
  assumes res: "plain_resource resource" and name: "name \<noteq> []"
    and opt: "ns \<noteq> Some []" "ws \<noteq> Some []"
    and i: "ri_DevOps i = []" "ri_Namespace i = []" "ri_Workspace i = []" "ri_Subresource i = []"
      "ri_Verb i \<noteq> ''watch''" "ri_Verb i \<noteq> ''proxy''" "ri_IsResourceRequest i"
    and g: "\<not> isGlobalScopeResource r (ri_APIGroup i) (ri_Resource i)"
  shows "\<exists>info. resolve_parts r d req i
      ((case ws of None \<Rightarrow> [] | Some w \<Rightarrow> [''workspaces'', w]) @
       (case ns of None \<Rightarrow> [] | Some n \<Rightarrow> [''namespaces'', n]) @
       resource # name # (case sub of None \<Rightarrow> [] | Some s \<Rightarrow> [s])) = Info info \<and>
    ri_IsResourceRequest info \<and> ri_Cluster info = ri_Cluster i \<and>
    ri_APIGroup info = ri_APIGroup i \<and> ri_APIVersion info = ri_APIVersion i \<and>
    ri_Workspace info = opt_string ws \<and> ri_Namespace info = opt_string ns \<and>
    ri_Resource info = resource \<and> ri_Name info = name \<and> ri_Subresource info = opt_string sub \<and>
    ri_Verb info = ri_Verb i \<and>
    ri_ResourceScope info =
      (if ns \<noteq> None then NamespaceScope else if ws \<noteq> None then WorkspaceScope else ClusterScope)"
proof -
  let ?rest = "resource # name # (case sub of None \<Rightarrow> [] | Some s \<Rightarrow> [s])"
  let ?nsp = "(case ns of None \<Rightarrow> [] | Some n \<Rightarrow> [''namespaces'', n]) @ ?rest"
  let ?i1 = "if ws = None then i else i\<lparr>ri_Workspace := the ws\<rparr>"
  let ?i2 = "?i1\<lparr>ri_Namespace := opt_string ns\<rparr>"
  obtain x ps where nsp: "?nsp = x # ps" "x \<noteq> ''workspaces''"
    using res by (cases ns) (auto simp: plain_resource_def)
  have w: "strip_workspace (i, (case ws of None \<Rightarrow> [] | Some w \<Rightarrow> [''workspaces'', w]) @ ?nsp) = (?i1, ?nsp)"
    unfolding nsp(1) by (rule strip_workspace_url) (simp add: nsp(2))
  have n: "strip_namespace (?i1, ?nsp) = (?i2, ?rest)"
    by (rule strip_namespace_url [OF res]) (simp_all add: i)
  have ne: "(case ws of None \<Rightarrow> [] | Some w \<Rightarrow> [''workspaces'', w]) @ ?nsp \<noteq> []" by simp
  show ?thesis
    unfolding resolve_parts_def w n Let_def prod.case if_not_P [OF ne]
    using i g name opt
    by (cases ws; cases ns; cases sub)
       (simp_all add: ri_stage specialVerbsNoSubresources_def resolveResourceScope_def opt_string_def)
qed

text \<open>
  C34: A request for a documented URL of a named resource is resolved to exactly the components the
  URL was built from, its verb is the one of its method, and its scope is Namespace, Workspace or
  Cluster according to the components present.
\<close>

theorem NewRequestInfo_resource_url:
  assumes path: "URL_Path req = ''/'' @ Join (resource_url pre c grp version ws ns resource name sub) ''/''"
    and segs: "\<forall>s \<in> set (resource_url pre c grp version ws ns resource name sub). path_segment s"
    and pre: "pre \<in> set (APIPrefixes r)" "pre \<notin> set (GrouplessAPIPrefixes r)"
    and glob: "\<forall>(g, n) \<in> set (GlobalResources r). n \<noteq> []"
    and grp: "grp \<noteq> ''clusters''" and res: "plain_resource resource"
  shows "\<exists>info. NewRequestInfo r decode req = Info info \<and> ri_IsResourceRequest info \<and>
    ri_Cluster info = opt_string c \<and> ri_APIGroup info = grp \<and> ri_APIVersion info = version \<and>
    ri_Workspace info = opt_string ws \<and> ri_Namespace info = opt_string ns \<and>
    ri_Resource info = resource \<and> ri_Name info = name \<and> ri_Subresource info = opt_string sub \<and>
    ri_Verb info = verb_of_method (Method req) \<and>
    ri_ResourceScope info =
      (if ns \<noteq> None then NamespaceScope else if ws \<noteq> None then WorkspaceScope else ClusterScope)"
proof -
  let ?ws = "case ws of None \<Rightarrow> [] | Some w \<Rightarrow> [''workspaces'', w]"
  let ?ns = "case ns of None \<Rightarrow> [] | Some n \<Rightarrow> [''namespaces'', n]"
  let ?sub = "case sub of None \<Rightarrow> [] | Some s \<Rightarrow> [s]"
  let ?rest = "?ws @ ?ns @ resource # name # ?sub"
  let ?i = "(initial_info req)\<lparr>ri_APIPrefix := pre\<rparr>"
  let ?i1 = "if c = None then ?i else ?i\<lparr>ri_Cluster := the c\<rparr>"
  let ?i2 = "?i1\<lparr>ri_APIGroup := grp, ri_IsResourceRequest := True, ri_APIVersion := version,
                 ri_Verb := verb_of_method (Method req)\<rparr>"
  have parts: "splitPath (URL_Path req) = resource_url pre c grp version ws ns resource name sub"
    unfolding path by (rule splitPath_Join [OF _ segs]) (simp add: resource_url_def)
  have hdr: "hd ?rest \<notin> set specialVerbs"
    using res by (cases ws; cases ns) (simp_all add: specialVerbs_def plain_resource_def)
  have "NewRequestInfo r decode req = resolve_version r decode req (?i1\<lparr>ri_APIGroup := grp\<rparr>) (version # ?rest)"
    using pre strip_cluster_url [OF grp, of ?i c "version # ?rest"]
    by (cases c) (simp_all add: NewRequestInfo_def Let_def parts resource_url_def)
  also have "\<dots> = resolve_parts r decode req ?i2 ?rest"
    using hdr by (simp add: resolve_version_def Let_def del: append_is_Nil_conv)
  finally have eq: "NewRequestInfo r decode req = resolve_parts r decode req ?i2 ?rest" .
  have "name \<noteq> []" "ns \<noteq> Some []" "ws \<noteq> Some []"
    using segs by (auto simp: resource_url_def path_segment_def)
  moreover have "\<not> isGlobalScopeResource r grp []"
    using glob by (auto simp: isGlobalScopeResource_def list_ex_iff)
  ultimately show ?thesis
    using resolve_parts_url [OF res, of name ns ws ?i2 r decode req sub] verb_of_method_not_special
    unfolding eq by (cases c) (simp_all add: initial_info_def opt_string_def)
qed

subsection \<open>Witnesses\<close>

definition ks_resolver :: request_info_factory where
  "ks_resolver =
     \<lparr>APIPrefixes = [''api'', ''apis'', ''kapis'', ''kapi''], GrouplessAPIPrefixes = [''api'', ''kapi''],
      GlobalResources = [(''iam.kubesphere.io'', ''users''), (''iam.kubesphere.io'', ''globalroles''),
        (''iam.kubesphere.io'', ''globalrolebindings''), (''tenant.kubesphere.io'', ''workspaces''),
        (''tenant.kubesphere.io'', ''clusters''), (''cluster.kubesphere.io'', ''clusters''),
        (''resources.kubesphere.io'', ''clusters''), (''notification.kubesphere.io'', ''configs''),
        (''notification.kubesphere.io'', ''receivers''),
        (''notification.kubesphere.io'', ''notificationmanagers''),
        (''notification.kubesphere.io'', ''routers''), (''notification.kubesphere.io'', ''silences'')]\<rparr>"

definition demo_request :: "string \<Rightarrow> string \<Rightarrow> http_request" where
  "demo_request m p =
     \<lparr>Method = m, URL_Path = p, URL_Query = [], RemoteAddr = ''[::1]:80'', Header = [],
      User_Agent = []\<rparr>"

lemma ks_resolver_named: "\<forall>(g, n) \<in> set (GlobalResources ks_resolver). n \<noteq> []"
  by (simp add: ks_resolver_def)

definition info_of :: "info_outcome \<Rightarrow> request_info option" where
  "info_of x = (case x of Info i \<Rightarrow> Some i | _ \<Rightarrow> None)"

definition demo_info :: "string \<Rightarrow> string \<Rightarrow> request_info" where
  "demo_info m p = the (info_of (NewRequestInfo ks_resolver Map.empty (demo_request m p)))"

lemma demo_info_eq:
  "info_of (NewRequestInfo ks_resolver Map.empty (demo_request m p)) \<noteq> None \<Longrightarrow>
   NewRequestInfo ks_resolver Map.empty (demo_request m p) = Info (demo_info m p)"
  by (auto simp: demo_info_def info_of_def split: info_outcome.splits)

theorem NewRequestInfo_scope_never_global_witness:
  "ri_Resource (demo_info ''GET'' ''/kapis/iam.kubesphere.io/v1alpha2/users'') = ''users'' \<and>
   ri_ResourceScope (demo_info ''GET'' ''/kapis/iam.kubesphere.io/v1alpha2/users'') \<noteq> GlobalScope"
proof -
  have "info_of (NewRequestInfo ks_resolver Map.empty
      (demo_request ''GET'' ''/kapis/iam.kubesphere.io/v1alpha2/users'')) \<noteq> None"
    by code_simp
  from NewRequestInfo_scope_never_global [OF ks_resolver_named demo_info_eq [OF this]]
  show ?thesis by simp code_simp
qed

theorem NewRequestInfo_readonly_verb_witness:
  "ri_Verb (demo_info ''POST'' ''/api/v1/watch/pods'') = ''watch'' \<and>
   ''watch'' \<in> set (splitPath ''/api/v1/watch/pods'')"
proof -
  have ok: "info_of (NewRequestInfo ks_resolver Map.empty
      (demo_request ''POST'' ''/api/v1/watch/pods'')) \<noteq> None"
    by code_simp
  have v: "ri_Verb (demo_info ''POST'' ''/api/v1/watch/pods'') = ''watch''"
    "ri_IsResourceRequest (demo_info ''POST'' ''/api/v1/watch/pods'')" by code_simp+
  with NewRequestInfo_readonly_verb [OF demo_info_eq [OF ok]] show ?thesis
    by (simp add: demo_request_def)
qed

theorem NewRequestInfo_kubernetes_iff_witness:
  "ri_IsKubernetesRequest (demo_info ''GET'' ''/apis/apps/v1/deployments'')"
proof -
  have ok: "info_of (NewRequestInfo ks_resolver Map.empty
      (demo_request ''GET'' ''/apis/apps/v1/deployments'')) \<noteq> None"
    by code_simp
  show ?thesis
    using NewRequestInfo_kubernetes_iff [OF demo_info_eq [OF ok]] by (simp; code_simp)
qed

theorem NewRequestInfo_resource_url_witness:
  "\<exists>info. NewRequestInfo ks_resolver Map.empty
      (demo_request ''DELETE'' ''/kapis/clusters/host/apps/v1/workspaces/w/namespaces/n/pods/p/log'')
        = Info info \<and>
     ri_Namespace info = ''n'' \<and> ri_Name info = ''p'' \<and> ri_Verb info = ''delete''"
  using NewRequestInfo_resource_url
    [of "demo_request ''DELETE'' ''/kapis/clusters/host/apps/v1/workspaces/w/namespaces/n/pods/p/log''"
        "''kapis''" "Some ''host''" "''apps''" "''v1''" "Some ''w''" "Some ''n''" "''pods''" "''p''"
        "Some ''log''" ks_resolver Map.empty] ks_resolver_named
  by (auto simp: demo_request_def resource_url_def path_segment_def plain_resource_def ks_resolver_def
      opt_string_def verb_of_method_def)

end
