(* ===== verification/Authorizer.thy ===== *)
theory Authorizer
  imports Request_Info
begin

text \<open>
  The authorizer interface of \<^verbatim>\<open>pkg/apiserver/authorization/authorizer\<close> and the
  authorizers built from it without access management data: the union of a chain
  (\<^verbatim>\<open>union/union.go\<close>), the path authorizer (\<^verbatim>\<open>path/path.go\<close>) and the two constant
  ones (\<^verbatim>\<open>authorizerfactory/builtin.go\<close>), with the filter that turns a decision into an HTTP
  outcome (\<^verbatim>\<open>filters/authorization.go\<close>). Errors are modelled by their message.
\<close>

section \<open>Attributes and decisions\<close>

record user_info =
  u_Name :: string
  u_Groups :: "string list"

record attributes =
  a_User :: user_info
  a_Verb :: string
  a_Cluster :: string
  a_Workspace :: string
  a_Namespace :: string
  a_DevOps :: string
  a_APIGroup :: string
  a_APIVersion :: string
  a_Resource :: string
  a_Subresource :: string
  a_Name :: string
  a_KubernetesRequest :: bool
  a_ResourceRequest :: bool
  a_Path :: string
  a_ResourceScope :: string

definition IsReadOnly :: "attributes \<Rightarrow> bool" where
  "IsReadOnly a = (a_Verb a = ''get'' \<or> a_Verb a = ''list'' \<or> a_Verb a = ''watch'')"

datatype decision = DecisionDeny | DecisionAllow | DecisionNoOpinion

type_synonym authz_result = "decision \<times> string \<times> string option"
type_synonym authorizer = "attributes \<Rightarrow> authz_result"

text \<open>\<^verbatim>\<open>filters.getAuthorizerAttributes\<close>: the attributes of a request with a resolved info.\<close>

definition getAuthorizerAttributes :: "user_info \<Rightarrow> request_info \<Rightarrow> attributes" where
  "getAuthorizerAttributes user info =
     \<lparr>a_User = user, a_Verb = ri_Verb info, a_Cluster = ri_Cluster info,
      a_Workspace = ri_Workspace info, a_Namespace = ri_Namespace info, a_DevOps = ri_DevOps info,
      a_APIGroup = ri_APIGroup info, a_APIVersion = ri_APIVersion info,
      a_Resource = ri_Resource info, a_Subresource = ri_Subresource info, a_Name = ri_Name info,
      a_KubernetesRequest = ri_IsKubernetesRequest info,
      a_ResourceRequest = ri_IsResourceRequest info, a_Path = ri_Path info,
      a_ResourceScope = ri_ResourceScope info\<rparr>"

datatype http_outcome = Served | InternalError string | Forbidden string

definition WithAuthorization :: "authorizer \<Rightarrow> attributes \<Rightarrow> http_outcome" where
  "WithAuthorization authorizers a =
     (case authorizers a of (authorized, reason, err) \<Rightarrow>
        if authorized = DecisionAllow then Served
        else (case err of Some e \<Rightarrow> InternalError e | None \<Rightarrow> Forbidden reason))"

section \<open>Aggregated errors\<close>

text \<open>
  \<^verbatim>\<open>utilerrors.NewAggregate\<close> and the message of an aggregate: duplicates are dropped, and more
  than one distinct message is bracketed.
\<close>

fun dedup_from :: "string list \<Rightarrow> string list \<Rightarrow> string list" where
  "dedup_from seen [] = []"
| "dedup_from seen (x # xs) =
     (if x \<in> set seen then dedup_from seen xs else x # dedup_from (x # seen) xs)"

definition NewAggregate :: "string list \<Rightarrow> string option" where
  "NewAggregate errs =
     (case errs of
        [] \<Rightarrow> None
      | [e] \<Rightarrow> Some e
      | _ \<Rightarrow> (case dedup_from [] errs of
                [e] \<Rightarrow> Some e
              | es \<Rightarrow> Some (''['' @ Join es '', '' @ '']'')))"

lemma set_dedup_from: "set (dedup_from seen xs) = set xs - set seen"
  by (induction seen xs rule: dedup_from.induct) auto

lemma distinct_dedup_from: "distinct (dedup_from seen xs)"
  by (induction seen xs rule: dedup_from.induct) (auto simp: set_dedup_from)

lemma NewAggregate_None_iff [simp]: "NewAggregate errs = None \<longleftrightarrow> errs = []"
  by (simp add: NewAggregate_def split: list.splits)

section \<open>The union authorizer\<close>

fun union_loop :: "authorizer list \<Rightarrow> attributes \<Rightarrow> string list \<Rightarrow> string list \<Rightarrow> authz_result" where
  "union_loop [] a errlist reasonlist =
     (DecisionNoOpinion, Join reasonlist ''\<newline>'', NewAggregate errlist)"
| "union_loop (h # hs) a errlist reasonlist =
     (let (decision, reason, err) = h a;
          errlist' = (case err of None \<Rightarrow> errlist | Some e \<Rightarrow> errlist @ [e]);
          reasonlist' = (if reason \<noteq> [] then reasonlist @ [reason] else reasonlist)
      in case decision of
           DecisionAllow \<Rightarrow> (decision, reason, err)
         | DecisionDeny \<Rightarrow> (decision, reason, err)
         | DecisionNoOpinion \<Rightarrow> union_loop hs a errlist' reasonlist')"

definition union_Authorize :: "authorizer list \<Rightarrow> authorizer" where
  "union_Authorize hs a = union_loop hs a [] []"

definition alwaysAllow_Authorize :: authorizer where
  "alwaysAllow_Authorize a = (DecisionAllow, [], None)"

definition alwaysDeny_Authorize :: authorizer where
  "alwaysDeny_Authorize a = (DecisionNoOpinion, ''Everything is forbidden.'', None)"

section \<open>The path authorizer\<close>

fun path_tables :: "string list \<Rightarrow> string list \<Rightarrow> string list \<Rightarrow> (string, string list \<times> string list) result" where
  "path_tables [] paths pfxs = Inr (paths, pfxs)"
| "path_tables (p0 # ps) paths pfxs =
     (let p = TrimPrefix p0 ''/'' in
      if length p = 0 then path_tables ps (p # paths) pfxs
      else if CHR ''*'' \<in> set (butlast p) then Inl (''only trailing * allowed in '' @ p)
      else if HasSuffix p ''*'' then path_tables ps paths (pfxs @ [butlast p])
      else path_tables ps (p # paths) pfxs)"

definition path_NewAuthorizer :: "string list \<Rightarrow> (string, authorizer) result" where
  "path_NewAuthorizer alwaysAllowPaths =
     (case path_tables alwaysAllowPaths [] [] of
        Inl e \<Rightarrow> Inl e
      | Inr (paths, pfxs) \<Rightarrow>
          Inr (\<lambda>a. let pth = TrimPrefix (a_Path a) ''/'' in
                   if pth \<in> set paths then (DecisionAllow, [], None)
                   else if list_ex (\<lambda>prefix. HasPrefix pth prefix) pfxs
                   then (DecisionAllow, [], None)
                   else (DecisionNoOpinion, [], None)))"

section \<open>Properties\<close>

definition decisive :: "authz_result \<Rightarrow> bool" where
  "decisive x = (fst x \<noteq> DecisionNoOpinion)"

lemma union_loop_decision:
  "fst (union_loop hs a es rs) =
     (case find (\<lambda>h. decisive (h a)) hs of None \<Rightarrow> DecisionNoOpinion | Some h \<Rightarrow> fst (h a))"
  by (induction hs arbitrary: es rs)
     (auto simp: decisive_def Let_def split: prod.splits decision.splits option.splits)

lemma union_loop_decisive:
  "find (\<lambda>h. decisive (h a)) hs = Some h \<Longrightarrow> union_loop hs a es rs = h a"
  by (induction hs arbitrary: es rs)
     (auto simp: decisive_def Let_def split: prod.splits decision.splits if_splits)

lemma union_loop_indecisive:
  "find (\<lambda>h. decisive (h a)) hs = None \<Longrightarrow>
   union_loop hs a es rs =
     (DecisionNoOpinion, Join (rs @ filter (\<lambda>r. r \<noteq> []) (map (\<lambda>h. fst (snd (h a))) hs)) ''\<newline>'',
      NewAggregate (es @ List.map_filter (\<lambda>h. snd (snd (h a))) hs))"
  by (induction hs arbitrary: es rs)
     (auto simp: decisive_def Let_def List.map_filter_simps split: prod.splits decision.splits if_splits option.splits)

text \<open>
  The union of a chain of authorizers returns the whole result of the first authorizer that has
  an opinion; when none has one, it has no opinion and reports every reason and every error of the
  chain in order.
\<close>

theorem union_Authorize_first_decisive:
  "union_Authorize hs a =
     (case find (\<lambda>h. decisive (h a)) hs of
        Some h \<Rightarrow> h a
      | None \<Rightarrow> (DecisionNoOpinion, Join (filter (\<lambda>r. r \<noteq> []) (map (\<lambda>h. fst (snd (h a))) hs)) ''\<newline>'',
                 NewAggregate (List.map_filter (\<lambda>h. snd (snd (h a))) hs)))"
  by (auto simp: union_Authorize_def union_loop_decisive union_loop_indecisive split: option.splits)

text \<open>What one configured path pattern allows: everything below it, or exactly itself.\<close>

definition pattern_allows :: "string \<Rightarrow> string \<Rightarrow> bool" where
  "pattern_allows pat path =
     (let p = TrimPrefix pat ''/''; q = TrimPrefix path ''/'' in
      if p \<noteq> [] \<and> last p = CHR ''*'' then prefix (butlast p) q else q = p)"

definition pattern_ok :: "string \<Rightarrow> bool" where
  "pattern_ok pat = (CHR ''*'' \<notin> set (butlast (TrimPrefix pat ''/'')))"

lemma HasSuffix_char: "p \<noteq> [] \<Longrightarrow> HasSuffix p [c] \<longleftrightarrow> last p = c"
  by (cases p rule: rev_cases) (auto simp: HasSuffix_def suffix_def)

lemma path_tables_Inr:
  "path_tables ps paths pfxs = Inr (paths', pfxs') \<Longrightarrow>
   (q \<in> set paths' \<or> (\<exists>x \<in> set pfxs'. prefix x q)) \<longleftrightarrow>
   (q \<in> set paths \<or> (\<exists>x \<in> set pfxs. prefix x q) \<or>
    (\<exists>p \<in> set ps. let p = TrimPrefix p ''/'' in
       if p \<noteq> [] \<and> last p = CHR ''*'' then prefix (butlast p) q else q = p))"
proof (induction ps arbitrary: paths pfxs)
  case (Cons p ps)
  let ?p = "TrimPrefix p ''/''"
  consider "?p = []" | "?p \<noteq> []" "last ?p = CHR ''*''" | "?p \<noteq> []" "last ?p \<noteq> CHR ''*''" by blast
  then show ?case
  proof cases
    case 1
    with Cons.prems Cons.IH [of "[] # paths" pfxs] show ?thesis by (auto simp: Let_def)
  next
    case 2
    with Cons.prems Cons.IH [of paths "pfxs @ [butlast ?p]"] show ?thesis
      by (auto simp: Let_def HasSuffix_char split: if_splits)
  next
    case 3
    with Cons.prems Cons.IH [of "?p # paths" pfxs] show ?thesis
      by (auto simp: Let_def HasSuffix_char split: if_splits)
  qed
qed simp

lemma path_tables_Inl_iff:
  "(\<exists>e. path_tables ps paths pfxs = Inl e) \<longleftrightarrow> (\<exists>p \<in> set ps. \<not> pattern_ok p)"
  by (induction ps arbitrary: paths pfxs) (auto simp: Let_def pattern_ok_def)

text \<open>
  The path authorizer is built exactly when every pattern has its only wildcard at the end, and
  it then allows a request exactly when one of the patterns allows its path; it never denies.
\<close>

theorem path_NewAuthorizer_correct:
  "(case path_NewAuthorizer pats of
      Inl e \<Rightarrow> \<not> list_all pattern_ok pats
    | Inr authz \<Rightarrow> list_all pattern_ok pats \<and>
        (\<forall>a. authz a = (if list_ex (\<lambda>p. pattern_allows p (a_Path a)) pats
                        then DecisionAllow else DecisionNoOpinion, [], None)))"
proof (cases "path_tables pats [] []")
  case (Inl e)
  then have "\<not> list_all pattern_ok pats"
    using path_tables_Inl_iff [of pats "[]" "[]"] by (auto simp: list_all_iff)
  with Inl show ?thesis by (simp add: path_NewAuthorizer_def)
next
  case (Inr t)
  obtain paths pfxs where t: "t = (paths, pfxs)" by fastforce
  have ok: "list_all pattern_ok pats"
    using path_tables_Inl_iff [of pats "[]" "[]"] Inr by (auto simp: list_all_iff)
  have "(TrimPrefix q ''/'' \<in> set paths \<or> list_ex (HasPrefix (TrimPrefix q ''/'')) pfxs) \<longleftrightarrow>
      list_ex (\<lambda>p. pattern_allows p q) pats" for q
    using path_tables_Inr [OF Inr [unfolded t], of "TrimPrefix q ''/''"]
    by (simp add: list_ex_iff HasPrefix_def pattern_allows_def Let_def)
  then show ?thesis
    using Inr t ok by (auto simp: path_NewAuthorizer_def Let_def)
qed

end
