(* ===== verification/Token_Operator.thy ===== *)
theory Token_Operator
  imports Authorizer "HOL-Library.Word"
begin

text \<open>
  Tokens: the issuer that signs and verifies them (\<^verbatim>\<open>pkg/apiserver/authentication/token/issuer.go\<close>), the
  operator that keeps the tokens in use in a cache so that they can be revoked
  (\<^verbatim>\<open>pkg/models/auth/token.go\<close>), and the in-memory cache (\<^verbatim>\<open>pkg/simple/client/cache/simple_cache.go\<close>) that is
  used when no Redis server is configured.
  The clock, the cache client and the audit log are operations on an abstract state, the record
  \<open>token_env\<close>. The JWT library's encoding and signatures are parameters; its parser and its checks of
  time claims are modelled from the vendored source. Durations are in nanoseconds and points in time in
  Unix seconds, as integers.
\<close>

section \<open>Errors and computations\<close>

text \<open>
  \<open>ApiNotFound\<close> and \<open>ApiUnauthorized\<close> are the errors the code tests with \<^verbatim>\<open>errors.IsNotFound\<close> and
  \<^verbatim>\<open>errors.IsUnauthorized\<close>, \<open>LibError\<close> is any other error of a library.
\<close>

datatype auth_error =
    RateLimitExceededError
  | IncorrectPasswordError
  | AccountIsNotActiveError
  | ErrorClientNotFound
  | ErrorProviderNotFound
  | ErrorRedirectURLNotAllowed
  | IdentityProviderNotFound
  | TokenExpired int
  | TokenUsedBeforeIssued int int
  | TokenNotInCache
  | UnexpectAlgorithm string
  | ApiNotFound string
  | ApiUnauthorized string
  | ApiAlreadyExists string
  | LdapUserNotExists
  | LibError string

type_synonym ('e, 'a) auth = "'e \<Rightarrow> (auth_error, 'a) result \<times> 'e"

definition auth_return :: "'a \<Rightarrow> ('e, 'a) auth" where
  "auth_return a s = (Inr a, s)"

definition auth_fail :: "auth_error \<Rightarrow> ('e, 'a) auth" where
  "auth_fail e s = (Inl e, s)"

text \<open>The result of a call, an error included, decides what comes next.\<close>

definition auth_case :: "('e, 'a) auth \<Rightarrow> (auth_error \<Rightarrow> ('e, 'b) auth) \<Rightarrow> ('a \<Rightarrow> ('e, 'b) auth) \<Rightarrow> ('e, 'b) auth" where
  "auth_case m err ok s = (case m s of (Inl e, s') \<Rightarrow> err e s' | (Inr a, s') \<Rightarrow> ok a s')"

definition auth_bind :: "('e, 'a) auth \<Rightarrow> ('a \<Rightarrow> ('e, 'b) auth) \<Rightarrow> ('e, 'b) auth" where
  "auth_bind m f = auth_case m auth_fail f"

named_theorems auth_simps \<open>evaluation of computations\<close>

lemmas auth_simps_defs [auth_simps] = auth_return_def auth_fail_def

lemma auth_bind_Inr_iff [result_iff]:
  "auth_bind m f s = (Inr b, s'') \<longleftrightarrow> (\<exists>a s'. m s = (Inr a, s') \<and> f a s' = (Inr b, s''))"
  by (auto simp: auth_bind_def auth_case_def auth_fail_def split: sum.splits prod.splits)

lemma auth_bind_simps [auth_simps]:
  "m s = (Inr a, s') \<Longrightarrow> auth_bind m f s = f a s'"
  "m s = (Inl e, s') \<Longrightarrow> auth_bind m f s = (Inl e, s')"
  by (simp_all add: auth_bind_def auth_case_def auth_fail_def)

lemma auth_case_simps [auth_simps]:
  "m s = (Inr a, s') \<Longrightarrow> auth_case m err ok s = ok a s'"
  "m s = (Inl e, s') \<Longrightarrow> auth_case m err ok s = err e s'"
  by (simp_all add: auth_case_def)

lemma auth_return_iff [simp]:
  "auth_return a s = (r, s') \<longleftrightarrow> r = Inr a \<and> s' = s"
  "auth_fail e s = (r, s') \<longleftrightarrow> r = Inl e \<and> s' = s"
  by (auto simp: auth_return_def auth_fail_def)

section \<open>Claims and keys\<close>

type_synonym duration = int

text \<open>\<^verbatim>\<open>int64(d.Seconds())\<close>, exact where the floating point number is.\<close>

definition Seconds :: "duration \<Rightarrow> int" where
  "Seconds d = (if d < 0 then - ((- d) div 1000000000) else d div 1000000000)"

record auth_user = user_info +
  u_Extra :: "(string, string list) gomap"

text \<open>The claims the code sets; \<^verbatim>\<open>jti\<close> and \<^verbatim>\<open>nbf\<close> are never written nor read.\<close>

record claims =
  cl_Audience :: "string list"
  cl_ExpiresAt :: int
  cl_IssuedAt :: int
  cl_Issuer :: string
  cl_Subject :: string
  cl_TokenType :: string
  cl_Username :: string
  cl_Extra :: "(string, string list) gomap"
  cl_Scopes :: "string list"
  cl_Name :: string
  cl_Nonce :: string
  cl_Email :: string
  cl_Locale :: string
  cl_PreferredUsername :: string

definition no_claims :: claims where
  "no_claims = \<lparr>cl_Audience = [], cl_ExpiresAt = 0, cl_IssuedAt = 0, cl_Issuer = [], cl_Subject = [],
     cl_TokenType = [], cl_Username = [], cl_Extra = [], cl_Scopes = [], cl_Name = [], cl_Nonce = [],
     cl_Email = [], cl_Locale = [], cl_PreferredUsername = []\<rparr>"

definition AccessToken :: string where "AccessToken = ''access_token''"
definition RefreshToken :: string where "RefreshToken = ''refresh_token''"
definition StaticToken :: string where "StaticToken = ''static_token''"
definition AuthorizationCode :: string where "AuthorizationCode = ''code''"
definition IDToken :: string where "IDToken = ''id_token''"

lemmas token_types = AccessToken_def RefreshToken_def StaticToken_def AuthorizationCode_def IDToken_def

record issue_request =
  ir_User :: auth_user
  ir_ExpiresIn :: duration
  ir_Claims :: claims

record verified_response =
  vr_User :: auth_user
  vr_Claims :: claims

datatype jwt_key = HmacSecret string | RsaPrivateKey string | RsaPublicKey string

record issuer =
  is_name :: string
  is_secret :: jwt_key
  is_SigningKey :: jwt_key
  is_KeyID :: string
  is_maximumClockSkew :: duration

text \<open>
  The JWT library: signing claims under an algorithm, with a key id in the header where there is one;
  decoding a token without checking it, into its algorithm and claims; checking a signature. A
  signature check gives an error or \<^const>\<open>None\<close>.
\<close>

record jwt_lib =
  jwt_SignedString :: "string \<Rightarrow> string option \<Rightarrow> claims \<Rightarrow> jwt_key \<Rightarrow> (string, string) result"
  jwt_ParseUnverified :: "string \<Rightarrow> (string, string \<times> claims) result"
  jwt_HmacVerify :: "string \<Rightarrow> string \<Rightarrow> string option"
  jwt_RsaVerify :: "string \<Rightarrow> string \<Rightarrow> string option"

section \<open>The issuer\<close>

unbundle bit_operations_syntax

definition fnv32a :: "string \<Rightarrow> 32 word" where
  "fnv32a data = fold (\<lambda>c hash. (hash XOR of_nat (of_char c)) * 16777619) data 2166136261"

text \<open>Reading files, decoding keys and generating them is left to the libraries; a generated key is PEM text.\<close>

record key_lib =
  kl_ReadFile :: "string \<Rightarrow> (string, string) result"
  kl_DecodeString :: "string \<Rightarrow> (string, string) result"
  kl_generatePrivateKeyData :: "(string, string) result"
  kl_pemDecode :: "string \<Rightarrow> string option"
  kl_ParsePKCS1PrivateKey :: "string \<Rightarrow> (string, string) result"

record issuer_options =
  io_Issuer :: string
  io_SignKey :: string
  io_SignKeyData :: string
  io_JwtSecret :: string
  io_MaximumClockSkew :: duration

definition lib_result :: "(string, 'a) result \<Rightarrow> (auth_error, 'a) result" where
  "lib_result r = (case r of Inl e \<Rightarrow> Inl (LibError e) | Inr a \<Rightarrow> Inr a)"

definition loadPrivateKey :: "key_lib \<Rightarrow> string \<Rightarrow> (auth_error, string) result" where
  "loadPrivateKey kl data =
     (case kl_pemDecode kl data of
        None \<Rightarrow> Inl (LibError ''private key not in pem format'')
      | Some block \<Rightarrow>
          (case kl_ParsePKCS1PrivateKey kl block of
             Inl e \<Rightarrow> Inl (LibError (''failed to key file: '' @ e))
           | Inr key \<Rightarrow> Inr key))"

text \<open>A key that cannot be loaded is only logged: the result is then a nil key.\<close>

definition loadSignKey :: "key_lib \<Rightarrow> issuer_options \<Rightarrow> (auth_error, string option \<times> string) result" where
  "loadSignKey kl options =
     bind_result
       (if io_SignKey options \<noteq> [] then lib_result (kl_ReadFile kl (io_SignKey options))
        else if io_SignKeyData options \<noteq> [] then lib_result (kl_DecodeString kl (io_SignKeyData options))
        else Inr [])
       (\<lambda>configured.
          bind_result (if length configured = 0 then lib_result (kl_generatePrivateKeyData kl) else Inr configured)
            (\<lambda>signKeyData.
               let signKey = (if length signKeyData > 0
                              then (case loadPrivateKey kl signKeyData of Inl e \<Rightarrow> None | Inr key \<Rightarrow> Some key)
                              else None)
               in Inr (signKey, show_nat (unat (fnv32a signKeyData)))))"

text \<open>The public half of a nil key is asked for: \<^const>\<open>None\<close> is the panic.\<close>

definition NewIssuer :: "key_lib \<Rightarrow> issuer_options \<Rightarrow> (auth_error, issuer) result option" where
  "NewIssuer kl options =
     (case loadSignKey kl options of
        Inl e \<Rightarrow> Some (Inl e)
      | Inr (None, keyID) \<Rightarrow> None
      | Inr (Some key, keyID) \<Rightarrow>
          Some (Inr \<lparr>is_name = io_Issuer options, is_secret = HmacSecret (io_JwtSecret options),
                     is_SigningKey = RsaPrivateKey key, is_KeyID = keyID,
                     is_maximumClockSkew = io_MaximumClockSkew options\<rparr>))"

definition issue_claims :: "issuer \<Rightarrow> int \<Rightarrow> issue_request \<Rightarrow> claims" where
  "issue_claims s issueAt request =
     (let user = ir_User request; rc = ir_Claims request in
      no_claims\<lparr>cl_Username := u_Name user, cl_Extra := u_Extra user, cl_TokenType := cl_TokenType rc,
        cl_IssuedAt := issueAt, cl_Subject := u_Name user, cl_Issuer := is_name s,
        cl_Audience := (if length (cl_Audience rc) > 0 then cl_Audience rc else []),
        cl_Name := (if cl_Name rc \<noteq> [] then cl_Name rc else []),
        cl_Nonce := (if cl_Nonce rc \<noteq> [] then cl_Nonce rc else []),
        cl_Email := (if cl_Email rc \<noteq> [] then cl_Email rc else []),
        cl_PreferredUsername := (if cl_PreferredUsername rc \<noteq> [] then cl_PreferredUsername rc else []),
        cl_Locale := (if cl_Locale rc \<noteq> [] then cl_Locale rc else []),
        cl_Scopes := (if length (cl_Scopes rc) > 0 then cl_Scopes rc else []),
        cl_ExpiresAt := (if ir_ExpiresIn request > 0 then issueAt + Seconds (ir_ExpiresIn request) else 0)\<rparr>)"

definition issuer_IssueTo :: "jwt_lib \<Rightarrow> issuer \<Rightarrow> issue_request \<Rightarrow> int \<Rightarrow> (auth_error, string) result" where
  "issuer_IssueTo lib s request now =
     (let claims = issue_claims s now request;
          token = (if cl_TokenType (ir_Claims request) = IDToken
                   then jwt_SignedString lib ''RS256'' (Some (is_KeyID s)) claims (is_SigningKey s)
                   else jwt_SignedString lib ''HS256'' None claims (is_secret s))
      in case token of Inl e \<Rightarrow> Inl (LibError e) | Inr t \<Rightarrow> Inr t)"

definition keyFunc :: "issuer \<Rightarrow> string \<Rightarrow> (auth_error, jwt_key) result" where
  "keyFunc s alg =
     (if alg = ''HS256'' then Inr (is_secret s)
      else if alg = ''RS256'' then Inr (is_SigningKey s)
      else Inl (UnexpectAlgorithm alg))"

text \<open>The signing methods check the type of the key they are given.\<close>

definition method_Verify :: "jwt_lib \<Rightarrow> string \<Rightarrow> string \<Rightarrow> jwt_key \<Rightarrow> string option" where
  "method_Verify lib alg token key =
     (if alg = ''HS256'' then (case key of HmacSecret k \<Rightarrow> jwt_HmacVerify lib token k | _ \<Rightarrow> Some ''key is of invalid type'')
      else if alg = ''RS256'' then (case key of RsaPublicKey k \<Rightarrow> jwt_RsaVerify lib token k | _ \<Rightarrow> Some ''key is of invalid type'')
      else Some ''signing method (alg) is unavailable.'')"

definition ParseWithClaims :: "jwt_lib \<Rightarrow> string list \<Rightarrow> (string \<Rightarrow> (auth_error, jwt_key) result) \<Rightarrow> string \<Rightarrow> (auth_error, claims) result" where
  "ParseWithClaims lib validMethods keyfn token =
     (case jwt_ParseUnverified lib token of
        Inl e \<Rightarrow> Inl (LibError e)
      | Inr (alg, claims) \<Rightarrow>
          if alg \<notin> set validMethods then Inl (LibError (''signing method '' @ alg @ '' is invalid''))
          else bind_result (keyfn alg) (\<lambda>key.
            case method_Verify lib alg token key of Some e \<Rightarrow> Inl (LibError e) | None \<Rightarrow> Inr claims))"

definition verifyExp :: "int \<Rightarrow> int \<Rightarrow> bool \<Rightarrow> bool" where
  "verifyExp expiry now required = (if expiry = 0 then \<not> required else now \<le> expiry)"

definition verifyIat :: "int \<Rightarrow> int \<Rightarrow> bool \<Rightarrow> bool" where
  "verifyIat iat now required = (if iat = 0 then \<not> required else now \<ge> iat)"

text \<open>The error of an expired token is also reported to the audit log, by the caller below.\<close>

definition issuer_Verify :: "jwt_lib \<Rightarrow> issuer \<Rightarrow> string \<Rightarrow> int \<Rightarrow> (auth_error, verified_response) result" where
  "issuer_Verify lib s token now =
     bind_result (ParseWithClaims lib [''HS256'', ''RS256''] (keyFunc s) token) (\<lambda>claims.
       if \<not> verifyExp (cl_ExpiresAt claims) now False then Inl (TokenExpired (now - cl_ExpiresAt claims))
       else if \<not> verifyIat (cl_IssuedAt claims) (now + Seconds (is_maximumClockSkew s)) False
       then Inl (TokenUsedBeforeIssued (cl_IssuedAt claims) now)
       else Inr \<lparr>vr_User = \<lparr>u_Name = cl_Username claims, u_Groups = [], u_Extra = cl_Extra claims\<rparr>,
                 vr_Claims = claims\<rparr>)"

section \<open>The token operator\<close>

record 'e token_env =
  env_Now :: "'e \<Rightarrow> int \<times> 'e"
  env_SendLogout :: "'e \<Rightarrow> 'e"
  cache_Keys :: "string \<Rightarrow> ('e, string list) auth"
  cache_Set :: "string \<Rightarrow> string \<Rightarrow> duration \<Rightarrow> ('e, unit) auth"
  cache_Del :: "string list \<Rightarrow> ('e, unit) auth"
  cache_Exists :: "string list \<Rightarrow> ('e, bool) auth"

record token_operator =
  to_lib :: jwt_lib
  to_issuer :: issuer
  to_AccessTokenMaxAge :: duration

definition token_key :: "string \<Rightarrow> string \<Rightarrow> string" where
  "token_key username token = ''kubesphere:user:'' @ username @ '':token:'' @ token"

definition issue :: "'e token_env \<Rightarrow> token_operator \<Rightarrow> issue_request \<Rightarrow> ('e, string) auth" where
  "issue env t request s = (case env_Now env s of (now, s') \<Rightarrow> (issuer_IssueTo (to_lib t) (to_issuer t) request now, s'))"

definition check_token :: "'e token_env \<Rightarrow> token_operator \<Rightarrow> string \<Rightarrow> ('e, verified_response) auth" where
  "check_token env t token s =
     (case env_Now env s of (now, s') \<Rightarrow>
        let r = issuer_Verify (to_lib t) (to_issuer t) token now
        in (r, case r of Inl (TokenExpired _) \<Rightarrow> env_SendLogout env s' | _ \<Rightarrow> s'))"

definition tokenCacheValidate :: "'e token_env \<Rightarrow> string \<Rightarrow> string \<Rightarrow> ('e, unit) auth" where
  "tokenCacheValidate env username token =
     auth_bind (cache_Exists env [token_key username token]) (\<lambda>exist.
       if \<not> exist then auth_fail TokenNotInCache else auth_return ())"

definition cacheToken :: "'e token_env \<Rightarrow> string \<Rightarrow> string \<Rightarrow> duration \<Rightarrow> ('e, unit) auth" where
  "cacheToken env username token d = cache_Set env (token_key username token) token d"

definition Verify :: "'e token_env \<Rightarrow> token_operator \<Rightarrow> string \<Rightarrow> ('e, verified_response) auth" where
  "Verify env t token =
     auth_bind (check_token env t token) (\<lambda>response.
       if to_AccessTokenMaxAge t = 0 \<or> cl_TokenType (vr_Claims response) = StaticToken
       then auth_return response
       else auth_bind (tokenCacheValidate env (u_Name (vr_User response)) token) (\<lambda>_. auth_return response))"

definition IssueTo :: "'e token_env \<Rightarrow> token_operator \<Rightarrow> issue_request \<Rightarrow> ('e, string) auth" where
  "IssueTo env t request =
     auth_bind (issue env t request) (\<lambda>token.
       if ir_ExpiresIn request > 0
       then auth_bind (cacheToken env (u_Name (ir_User request)) token (ir_ExpiresIn request)) (\<lambda>_. auth_return token)
       else auth_return token)"

definition delete_matching :: "'e token_env \<Rightarrow> string \<Rightarrow> ('e, unit) auth" where
  "delete_matching env pattern =
     auth_bind (cache_Keys env pattern) (\<lambda>keys.
       if length keys > 0 then cache_Del env keys else auth_return ())"

definition Revoke :: "'e token_env \<Rightarrow> string \<Rightarrow> ('e, unit) auth" where
  "Revoke env token = delete_matching env (''kubesphere:user:*:token:'' @ token)"

definition RevokeAllUserTokens :: "'e token_env \<Rightarrow> string \<Rightarrow> ('e, unit) auth" where
  "RevokeAllUserTokens env username = delete_matching env (''kubesphere:user:'' @ username @ '':token:*'')"

section \<open>The in-memory cache\<close>

text \<open>
  A regular expression without metacharacters other than the dot, which matches any character but a
  newline, is searched anywhere in the text. Other expressions are left to the parameter \<open>other\<close>.
  The metacharacters are \<^verbatim>\<open>$ ( ) * + ? [ \ ] ^ { | }\<close>.
\<close>

definition metachar :: "char \<Rightarrow> bool" where
  "metachar c = ((of_char c :: nat) \<in> set [36, 40, 41, 42, 43, 63, 91, 92, 93, 94, 123, 124, 125])"

fun dots_at :: "string \<Rightarrow> string \<Rightarrow> bool" where
  "dots_at [] s = True"
| "dots_at (p # ps) [] = False"
| "dots_at (p # ps) (c # s) =
     ((if p = CHR ''.'' then c \<noteq> CHR 10 else p = c) \<and> dots_at ps s)"

fun dots_search :: "string \<Rightarrow> string \<Rightarrow> bool" where
  "dots_search p [] = dots_at p []"
| "dots_search p (c # s) = (dots_at p (c # s) \<or> dots_search p s)"

type_synonym regexp_lib = "string \<Rightarrow> (string, string \<Rightarrow> bool) result"

definition regexp_Compile :: "regexp_lib \<Rightarrow> regexp_lib" where
  "regexp_Compile other p = (if list_ex metachar p then other p else Inr (dots_search p))"

record simple_object =
  so_value :: string
  so_neverExpire :: bool
  so_expiredAt :: int

text \<open>The state of a server with the in-memory cache: the store, the clock (in seconds) and the audit log's logouts.\<close>

record server_memory =
  sm_store :: "(string, simple_object) gomap"
  sm_clock :: int
  sm_logouts :: nat

definition simple_Keys :: "regexp_lib \<Rightarrow> string \<Rightarrow> (server_memory, string list) auth" where
  "simple_Keys other pattern s =
     (let pattern' = map (\<lambda>c. if c = CHR ''*'' then CHR ''.'' else c) pattern in
      (case regexp_Compile other pattern' of
         Inl e \<Rightarrow> Inl (LibError e)
       | Inr re \<Rightarrow> Inr (filter re (map fst (sm_store s))), s))"

definition simple_Set :: "string \<Rightarrow> string \<Rightarrow> duration \<Rightarrow> (server_memory, unit) auth" where
  "simple_Set key val d s =
     (Inr (), s\<lparr>sm_store := AList.update key
                 \<lparr>so_value = val, so_neverExpire = (d = 0), so_expiredAt = sm_clock s * 1000000000 + d\<rparr>
                 (sm_store s)\<rparr>)"

definition simple_Del :: "string list \<Rightarrow> (server_memory, unit) auth" where
  "simple_Del keys s = (Inr (), s\<lparr>sm_store := fold AList.delete keys (sm_store s)\<rparr>)"

definition simple_Get :: "string \<Rightarrow> (server_memory, string) auth" where
  "simple_Get key s =
     (case map_of (sm_store s) key of
        Some sobject \<Rightarrow>
          (if so_neverExpire sobject \<or> sm_clock s * 1000000000 < so_expiredAt sobject
           then Inr (so_value sobject) else Inl (LibError ''no such key''), s)
      | None \<Rightarrow> (Inl (LibError ''no such key''), s))"

definition simple_Exists :: "string list \<Rightarrow> (server_memory, bool) auth" where
  "simple_Exists keys s = (Inr (list_all (\<lambda>key. map_of (sm_store s) key \<noteq> None) keys), s)"

definition simple_Expire :: "string \<Rightarrow> duration \<Rightarrow> (server_memory, unit) auth" where
  "simple_Expire key d = auth_bind (simple_Get key) (\<lambda>val. simple_Set key val d)"

definition simple_env :: "regexp_lib \<Rightarrow> server_memory token_env" where
  "simple_env other =
     \<lparr>env_Now = (\<lambda>s. (sm_clock s, s)), env_SendLogout = (\<lambda>s. s\<lparr>sm_logouts := Suc (sm_logouts s)\<rparr>),
      cache_Keys = simple_Keys other, cache_Set = simple_Set, cache_Del = simple_Del, cache_Exists = simple_Exists\<rparr>"

section \<open>A Redis cache\<close>

text \<open>
  The documented behaviour of the Redis commands the client (\<^verbatim>\<open>pkg/simple/client/cache/redis.go\<close>) sends:
  \<^verbatim>\<open>KEYS\<close> with a pattern in which only the star is special returns the keys it matches, from the first
  to the last character; keys disappear when they expire.
\<close>

fun glob_match :: "string \<Rightarrow> string \<Rightarrow> bool" where
  "glob_match [] s = (s = [])"
| "glob_match (p # ps) [] = (p = CHR ''*'' \<and> glob_match ps [])"
| "glob_match (p # ps) (c # s) =
     (if p = CHR ''*'' then glob_match ps (c # s) \<or> glob_match (p # ps) s
      else p = c \<and> glob_match ps s)"

definition redis_alive :: "server_memory \<Rightarrow> string \<Rightarrow> bool" where
  "redis_alive s key =
     (case map_of (sm_store s) key of
        None \<Rightarrow> False
      | Some sobject \<Rightarrow> so_neverExpire sobject \<or> sm_clock s * 1000000000 < so_expiredAt sobject)"

definition redis_env :: "server_memory token_env" where
  "redis_env =
     \<lparr>env_Now = (\<lambda>s. (sm_clock s, s)), env_SendLogout = (\<lambda>s. s\<lparr>sm_logouts := Suc (sm_logouts s)\<rparr>),
      cache_Keys = (\<lambda>pattern s. (Inr (filter (\<lambda>k. glob_match pattern k \<and> redis_alive s k) (map fst (sm_store s))), s)),
      cache_Set = simple_Set, cache_Del = simple_Del,
      cache_Exists = (\<lambda>keys s. (Inr (list_all (redis_alive s) keys), s))\<rparr>"

section \<open>Sessions\<close>

text \<open>
  What a server does with tokens over time, with the events it leaves: tokens are issued, checked and
  revoked, users log out, and the state changes by itself (\<open>idle\<close>: time passes).
\<close>

datatype session_event =
    Issued string string
  | IssueRefused
  | Checked string
  | Revoked string
  | LoggedOut string
  | Idle

inductive session :: "'e token_env \<Rightarrow> token_operator \<Rightarrow> ('e \<Rightarrow> 'e \<Rightarrow> bool) \<Rightarrow> 'e \<Rightarrow> session_event list \<Rightarrow> 'e \<Rightarrow> bool"
  for env t idle s0 where
  start: "session env t idle s0 [] s0"
| issues: "session env t idle s0 evs s \<Longrightarrow> fst (issue env t req s) = Inr tok \<Longrightarrow>
    session env t idle s0 (Issued (u_Name (ir_User req)) tok # evs) (snd (IssueTo env t req s))"
| refuses: "session env t idle s0 evs s \<Longrightarrow> fst (issue env t req s) = Inl e \<Longrightarrow>
    session env t idle s0 (IssueRefused # evs) (snd (IssueTo env t req s))"
| checks: "session env t idle s0 evs s \<Longrightarrow> session env t idle s0 (Checked tok # evs) (snd (Verify env t tok s))"
| revokes: "session env t idle s0 evs s \<Longrightarrow> session env t idle s0 (Revoked tok # evs) (snd (Revoke env tok s))"
| logs_out: "session env t idle s0 evs s \<Longrightarrow> session env t idle s0 (LoggedOut u # evs) (snd (RevokeAllUserTokens env u s))"
| idles: "session env t idle s0 evs s \<Longrightarrow> idle s s' \<Longrightarrow> session env t idle s0 (Idle # evs) s'"

section \<open>What sessions rely on\<close>

text \<open>Text that no pattern language of the caches treats specially, but for the dot.\<close>

definition plain :: "string \<Rightarrow> bool" where
  "plain s \<longleftrightarrow> list_all (\<lambda>c. \<not> metachar c \<and> c \<noteq> CHR 10) s"

text \<open>
  The contract of the clock, the audit log and the cache. A key may disappear at any call, when it
  expires, but none appears that was not set; the keys of a user are found by the pattern of
  \<open>RevokeAllUserTokens\<close>.
\<close>

locale session_cache =
  fixes env :: "'e token_env" and idle :: "'e \<Rightarrow> 'e \<Rightarrow> bool" and live :: "'e \<Rightarrow> string \<Rightarrow> bool"
  assumes idle_live: "idle s s' \<Longrightarrow> live s' k \<Longrightarrow> live s k"
    and Now_live: "live (snd (env_Now env s)) k \<Longrightarrow> live s k"
    and SendLogout_live: "live (env_SendLogout env s) k \<Longrightarrow> live s k"
    and Keys_live: "live (snd (cache_Keys env p s)) k \<Longrightarrow> live s k"
    and Exists_live: "live (snd (cache_Exists env ks s)) k \<Longrightarrow> live s k"
    and Set_live: "live (snd (cache_Set env k' v d s)) k \<Longrightarrow> k = k' \<or> live s k"
    and Del_live: "live (snd (cache_Del env ks s)) k \<Longrightarrow> live s k"
    and Del_removes: "cache_Del env ks s = (Inr (), s') \<Longrightarrow> k \<in> set ks \<Longrightarrow> \<not> live s' k"
    and Exists_sound: "cache_Exists env [k] s = (Inr True, s') \<Longrightarrow> live s k"
    and Keys_user: "cache_Keys env (''kubesphere:user:'' @ u @ '':token:*'') s = (Inr ks, s') \<Longrightarrow>
        plain u \<Longrightarrow> plain t \<Longrightarrow> t \<noteq> [] \<Longrightarrow> live s' (token_key u t) \<Longrightarrow> token_key u t \<in> set ks"

text \<open>The stronger contract, which a Redis server keeps: the tokens of one name are found across users.\<close>

locale code_cache = session_cache +
  assumes Keys_token: "cache_Keys env (''kubesphere:user:*:token:'' @ t) s = (Inr ks, s') \<Longrightarrow>
        plain u \<Longrightarrow> plain t \<Longrightarrow> live s' (token_key u t) \<Longrightarrow> token_key u t \<in> set ks"

context session_cache
begin

definition fades :: "('e, 'a) auth \<Rightarrow> bool" where
  "fades m \<longleftrightarrow> (\<forall>s k. live (snd (m s)) k \<longrightarrow> live s k)"

lemma fades_live: "fades m \<Longrightarrow> live (snd (m s)) k \<Longrightarrow> live s k"
  by (simp add: fades_def)

lemma fades_return: "fades (auth_return a)" "fades (auth_fail e)"
  by (simp_all add: fades_def auth_simps)

lemma fades_case:
  assumes "fades m" and "\<And>e. fades (err e)" and "\<And>a. fades (ok a)"
  shows "fades (auth_case m err ok)"
  unfolding fades_def
proof (intro allI impI)
  fix s k
  assume live: "live (snd (auth_case m err ok s)) k"
  obtain r s' where m: "m s = (r, s')" by (cases "m s")
  have "live s' k"
    using live assms(2,3) m by (cases r) (auto simp: auth_case_def dest: fades_live)
  then show "live s k"
    using fades_live [OF assms(1), of s k] m by simp
qed

lemma fades_bind: "fades m \<Longrightarrow> (\<And>a. fades (f a)) \<Longrightarrow> fades (auth_bind m f)"
  unfolding auth_bind_def by (rule fades_case) (simp_all add: fades_return)

lemma fadesI: "(\<And>s k. live (snd (m s)) k \<Longrightarrow> live s k) \<Longrightarrow> fades m"
  by (simp add: fades_def)

lemma fades_cache:
  "fades (cache_Keys env p)" "fades (cache_Exists env ks)" "fades (cache_Del env ks)"
  by (rule fadesI, erule Keys_live Exists_live Del_live)+

lemma fades_issue: "fades (issue env t req)"
proof (rule fadesI)
  fix s k
  assume "live (snd (issue env t req s)) k"
  then have "live (snd (env_Now env s)) k" by (simp add: issue_def split: prod.splits)
  then show "live s k" by (rule Now_live)
qed

lemma fades_check_token: "fades (check_token env t tok)"
proof (rule fadesI)
  fix s k
  assume *: "live (snd (check_token env t tok s)) k"
  obtain now s' where now: "env_Now env s = (now, s')" by (cases "env_Now env s")
  have "snd (check_token env t tok s) = s' \<or> snd (check_token env t tok s) = env_SendLogout env s'"
    by (simp add: check_token_def now Let_def split: sum.splits auth_error.splits)
  then have "live s' k" using * SendLogout_live [of s' k] by auto
  then show "live s k" using Now_live [of s k] now by simp
qed

lemma fades_Verify: "fades (Verify env t tok)"
  unfolding Verify_def tokenCacheValidate_def
  by (intro fades_bind fades_check_token) (simp add: fades_bind fades_cache fades_return)

lemma fades_delete_matching: "fades (delete_matching env p)"
  unfolding delete_matching_def by (rule fades_bind) (simp_all add: fades_cache fades_return)

lemma IssueTo_live:
  assumes "live (snd (IssueTo env t req s)) k"
  shows "live s k \<or> (\<exists>tok. fst (issue env t req s) = Inr tok \<and> k = token_key (u_Name (ir_User req)) tok)"
proof -
  obtain r s' where i: "issue env t req s = (r, s')" by (cases "issue env t req s")
  have before: "live s' k \<Longrightarrow> live s k" using fades_live [OF fades_issue, of t req s k] i by simp
  show ?thesis
  proof (cases r)
    case (Inl e)
    then show ?thesis using assms before i by (simp add: IssueTo_def auth_simps)
  next
    case (Inr tok)
    let ?key = "token_key (u_Name (ir_User req)) tok"
    have "live s' k \<or> k = ?key"
    proof (cases "ir_ExpiresIn req > 0")
      case True
      obtain r' s'' where c: "cache_Set env ?key tok (ir_ExpiresIn req) s' = (r', s'')"
        by (cases "cache_Set env ?key tok (ir_ExpiresIn req) s'")
      then have "snd (IssueTo env t req s) = s''"
        using i Inr True by (cases r') (simp_all add: IssueTo_def cacheToken_def auth_simps)
      then show ?thesis using assms Set_live [of ?key tok "ir_ExpiresIn req" s' k] c by auto
    next
      case False
      then show ?thesis using assms i Inr by (simp add: IssueTo_def auth_simps)
    qed
    then show ?thesis using before i Inr by auto
  qed
qed

text \<open>A token that is not in the cache stays out of it until it is issued again.\<close>

lemma session_dead:
  "session env t idle s0 evs s \<Longrightarrow> \<forall>v w. Issued v w \<in> set evs \<longrightarrow> token_key v w \<noteq> k \<Longrightarrow> live s k \<Longrightarrow> live s0 k"
proof (induction rule: session.induct)
  case (issues evs s req tok)
  then show ?case using IssueTo_live [of t req s k] by auto
next
  case (refuses evs s req e)
  then show ?case using IssueTo_live [of t req s k] by auto
next
  case (checks evs s tok)
  then show ?case using fades_live [OF fades_Verify] by auto
next
  case (revokes evs s tok)
  then show ?case using fades_live [OF fades_delete_matching] by (auto simp: Revoke_def)
next
  case (logs_out evs s u)
  then show ?case using fades_live [OF fades_delete_matching] by (auto simp: RevokeAllUserTokens_def)
next
  case (idles evs s s')
  then show ?case using idle_live [of s s' k] by auto
qed

lemma delete_matching_removes:
  assumes "delete_matching env p s = (Inr (), s2)"
    and "\<And>ks s1. cache_Keys env p s = (Inr ks, s1) \<Longrightarrow> live s1 k \<Longrightarrow> k \<in> set ks"
  shows "\<not> live s2 k"
proof -
  obtain ks s1 where keys: "cache_Keys env p s = (Inr ks, s1)"
    and del: "(if length ks > 0 then cache_Del env ks else auth_return ()) s1 = (Inr (), s2)"
    using assms(1) unfolding delete_matching_def auth_bind_Inr_iff by blast
  show ?thesis
  proof (cases "k \<in> set ks")
    case True
    then have "cache_Del env ks s1 = (Inr (), s2)" using del by (auto split: if_splits)
    then show ?thesis using Del_removes True by blast
  next
    case False
    then have dead: "\<not> live s1 k" using assms(2) keys by blast
    have "live s2 k \<Longrightarrow> live s1 k"
      using del Del_live [of ks s1 k] by (cases "ks = []") auto
    then show ?thesis using dead by blast
  qed
qed

lemma RevokeAllUserTokens_removes:
  "RevokeAllUserTokens env u s = (Inr (), s2) \<Longrightarrow> plain u \<Longrightarrow> plain tok \<Longrightarrow> tok \<noteq> [] \<Longrightarrow> \<not> live s2 (token_key u tok)"
  unfolding RevokeAllUserTokens_def by (erule delete_matching_removes) (rule Keys_user)

text \<open>A verified token of a type other than static is in the cache.\<close>

lemma Verify_live:
  assumes "Verify env t tok s = (Inr r, s2)" "to_AccessTokenMaxAge t \<noteq> 0"
    and "cl_TokenType (vr_Claims r) \<noteq> StaticToken"
  shows "live s (token_key (u_Name (vr_User r)) tok)"
proof -
  obtain s1 s3 where check: "check_token env t tok s = (Inr r, s1)"
    and ex: "cache_Exists env [token_key (u_Name (vr_User r)) tok] s1 = (Inr True, s3)"
    using assms by (auto simp: Verify_def tokenCacheValidate_def result_iff split: if_splits)
  have "live s1 (token_key (u_Name (vr_User r)) tok)" using Exists_sound ex .
  then show ?thesis using fades_live [OF fades_check_token, of t tok s] check by simp
qed

end

text \<open>With the stronger contract also a single token can be revoked.\<close>

context code_cache
begin

lemma Revoke_removes:
  "Revoke env tok s = (Inr (), s2) \<Longrightarrow> plain u \<Longrightarrow> plain tok \<Longrightarrow> \<not> live s2 (token_key u tok)"
  unfolding Revoke_def by (erule delete_matching_removes) (rule Keys_token)

end

section \<open>The two caches keep the contracts\<close>

definition time_passes :: "server_memory \<Rightarrow> server_memory \<Rightarrow> bool" where
  "time_passes s s' \<longleftrightarrow> (\<exists>d\<ge>0. s' = s\<lparr>sm_clock := sm_clock s + d\<rparr>)"

definition stored :: "server_memory \<Rightarrow> string \<Rightarrow> bool" where
  "stored s k \<longleftrightarrow> map_of (sm_store s) k \<noteq> None"

lemma stored_iff: "stored s k \<longleftrightarrow> k \<in> set (map fst (sm_store s))"
  by (auto simp: stored_def map_of_eq_None_iff image_iff)

lemma map_of_fold_delete:
  "map_of (fold AList.delete ks m) k = (if k \<in> set ks then None else map_of m k)"
  by (induction ks arbitrary: m) auto

lemma plain_Cons [simp]: "plain (c # s) \<longleftrightarrow> \<not> metachar c \<and> c \<noteq> CHR 10 \<and> plain s"
  by (simp add: plain_def)

lemma plain_append [simp]: "plain (s @ s') \<longleftrightarrow> plain s \<and> plain s'"
  by (simp add: plain_def)

lemma metachar_star [simp]: "metachar CHR ''*''"
  by (simp add: metachar_def)

lemma plain_no_star: "plain s \<Longrightarrow> CHR ''*'' \<notin> set s"
  using metachar_star unfolding plain_def list_all_iff by blast

lemma plain_star_id: "plain s \<Longrightarrow> map (\<lambda>c. if c = CHR ''*'' then CHR ''.'' else c) s = s"
  by (rule map_idI) (auto dest: plain_no_star)

lemma dots_at_self: "plain p \<Longrightarrow> dots_at (p @ q) (p @ s) = dots_at q s"
  by (induction p) auto

lemma dots_search_at: "dots_at p s \<Longrightarrow> dots_search p s"
  by (cases s) auto

lemma plain_key_texts: "plain ''kubesphere:user:''" "plain '':token:''"
  by (simp_all add: plain_def metachar_def)

lemma metachar_dot [simp]: "\<not> metachar CHR ''.''"
  by (simp add: metachar_def)

lemma plain_metachar: "plain s \<Longrightarrow> \<not> list_ex metachar s"
  by (auto simp: plain_def list_all_iff list_ex_iff)

lemma simple_Keys_complete:
  assumes "simple_Keys other p s = (Inr ks, s')"
    and "map (\<lambda>c. if c = CHR ''*'' then CHR ''.'' else c) p = p'"
    and "regexp_Compile other p' = Inr re" "re k" "stored s' k"
  shows "k \<in> set ks"
  using assms unfolding simple_Keys_def Let_def stored_iff by (simp only: assms(2)) force

lemma simple_Keys_user:
  assumes "simple_Keys other (''kubesphere:user:'' @ u @ '':token:*'') s = (Inr ks, s')"
    and "plain u" "plain t" "t \<noteq> []" "stored s' (token_key u t)"
  shows "token_key u t \<in> set ks"
proof -
  let ?p = "''kubesphere:user:'' @ u @ '':token:''"
  have plain: "plain ?p" using assms(2) plain_key_texts by simp
  obtain c t' where t: "t = c # t'" using assms(4) by (cases t) auto
  have pat: "map (\<lambda>c. if c = CHR ''*'' then CHR ''.'' else c) (''kubesphere:user:'' @ u @ '':token:*'') = ?p @ ''.''"
    using plain_star_id [OF plain] by simp
  have "regexp_Compile other (?p @ ''.'') = Inr (dots_search (?p @ ''.''))"
    using plain_metachar [OF plain] by (simp add: regexp_Compile_def)
  moreover have "dots_search (?p @ ''.'') (token_key u t)"
    using dots_at_self [OF plain, of "''.''" t] assms(3) t by (intro dots_search_at) (simp add: token_key_def)
  ultimately show ?thesis by (rule simple_Keys_complete [OF assms(1) pat _ _ assms(5)])
qed

interpretation simple_cache: session_cache "simple_env other" time_passes stored
proof unfold_locales
  show "token_key u t \<in> set ks"
    if "cache_Keys (simple_env other) (''kubesphere:user:'' @ u @ '':token:*'') s = (Inr ks, s')"
      and "plain u" "plain t" "t \<noteq> []" "stored s' (token_key u t)" for u s ks s' t
    using simple_Keys_user that by (simp add: simple_env_def)
qed (auto simp: simple_env_def stored_def time_passes_def simple_Keys_def simple_Set_def simple_Del_def
      simple_Exists_def Let_def map_of_fold_delete split: if_splits)

lemma glob_match_self: "CHR ''*'' \<notin> set p \<Longrightarrow> glob_match (p @ q) (p @ s) = glob_match q s"
  by (induction p) auto

lemma glob_match_star: "glob_match q s \<Longrightarrow> glob_match (CHR ''*'' # q) (m @ s)"
proof (induction m)
  case Nil
  then show ?case by (cases s) auto
qed simp

lemma glob_key_user: "plain u \<Longrightarrow> glob_match (''kubesphere:user:'' @ u @ '':token:*'') (token_key u t)"
  using glob_match_self [of "''kubesphere:user:'' @ u @ '':token:''" "''*''" t] glob_match_star [of "[]" "[]" t]
  by (simp add: token_key_def plain_no_star)

lemma glob_key_token: "plain t \<Longrightarrow> glob_match (''kubesphere:user:*:token:'' @ t) (token_key u t)"
  using glob_match_self [of "''kubesphere:user:''" "''*'' @ '':token:'' @ t" "u @ '':token:'' @ t"]
    glob_match_star [of "'':token:'' @ t" "'':token:'' @ t" u] glob_match_self [of "'':token:'' @ t" "[]" "[]"]
  by (simp add: token_key_def plain_no_star)

lemma redis_alive_stored: "redis_alive s k \<Longrightarrow> stored s k"
  by (auto simp: redis_alive_def stored_def split: option.splits)

lemma redis_Keys_complete:
  "cache_Keys redis_env p s = (Inr ks, s') \<Longrightarrow> glob_match p k \<Longrightarrow> redis_alive s' k \<Longrightarrow> k \<in> set ks"
  using redis_alive_stored [of s' k] unfolding stored_iff by (simp add: redis_env_def) force

interpretation redis_cache: code_cache redis_env time_passes redis_alive
proof unfold_locales
  show "token_key u t \<in> set ks"
    if "cache_Keys redis_env (''kubesphere:user:'' @ u @ '':token:*'') s = (Inr ks, s')"
      and "plain u" "plain t" "t \<noteq> []" "redis_alive s' (token_key u t)" for u s ks s' t
    using redis_Keys_complete [OF that(1) glob_key_user that(5)] that(2) .
  show "token_key u t \<in> set ks"
    if "cache_Keys redis_env (''kubesphere:user:*:token:'' @ t) s = (Inr ks, s')"
      and "plain u" "plain t" "redis_alive s' (token_key u t)" for u s ks s' t
    using redis_Keys_complete [OF that(1) glob_key_token that(4)] that(3) .
qed (auto simp: redis_env_def redis_alive_def time_passes_def simple_Set_def simple_Del_def
      map_of_fold_delete split: if_splits option.splits)

section \<open>Properties of tokens\<close>

lemma issuer_Verify_parsed:
  assumes "ParseWithClaims lib [''HS256'', ''RS256''] (keyFunc iss) tok = Inr c"
  shows "issuer_Verify lib iss tok now = Inr r \<longleftrightarrow>
     verifyExp (cl_ExpiresAt c) now False \<and> verifyIat (cl_IssuedAt c) (now + Seconds (is_maximumClockSkew iss)) False \<and>
     r = \<lparr>vr_User = \<lparr>u_Name = cl_Username c, u_Groups = [], u_Extra = cl_Extra c\<rparr>, vr_Claims = c\<rparr>"
  by (auto simp: issuer_Verify_def assms)

lemma ParseWithClaims_HS256:
  "jwt_ParseUnverified lib tok = Inr (''HS256'', c) \<Longrightarrow> is_secret iss = HmacSecret k \<Longrightarrow> jwt_HmacVerify lib tok k = None \<Longrightarrow>
   ParseWithClaims lib [''HS256'', ''RS256''] (keyFunc iss) tok = Inr c"
  by (simp add: ParseWithClaims_def keyFunc_def method_Verify_def)

lemma issue_claims_simps:
  "cl_Username (issue_claims iss now req) = u_Name (ir_User req)"
  "cl_Extra (issue_claims iss now req) = u_Extra (ir_User req)"
  "cl_TokenType (issue_claims iss now req) = cl_TokenType (ir_Claims req)"
  "cl_IssuedAt (issue_claims iss now req) = now"
  "cl_ExpiresAt (issue_claims iss now req) =
     (if ir_ExpiresIn req > 0 then now + Seconds (ir_ExpiresIn req) else 0)"
  by (simp_all add: issue_claims_def Let_def)

lemma Seconds_nonneg: "0 \<le> d \<Longrightarrow> 0 \<le> Seconds d"
  by (simp add: Seconds_def)

text \<open>
  C25: a token other than an identity token that the issuer has signed with its secret, read back by the JWT library
  as it was written and with its signature accepted, is verified from the moment of its issue (less the tolerated clock skew) up to and including
  the second it expires, forever if it has no lifetime, and at no other time; it then speaks for the user,
  with the type and the extra information, it was issued to. Identity tokens, which are signed with the private key,
  never verify (\<open>id_token_never_verifies\<close> below).
\<close>
theorem issued_token_verifies:
  assumes issued: "issuer_IssueTo lib iss req now = Inr tok" and "0 < now"
    and secret: "is_secret iss = HmacSecret k" and type: "cl_TokenType (ir_Claims req) \<noteq> IDToken"
    and decodes: "jwt_ParseUnverified lib tok = Inr (''HS256'', (issue_claims iss now req)\<lparr>cl_Extra := extra\<rparr>)"
    and extra: "map_of extra = map_of (u_Extra (ir_User req))"
    and signature: "jwt_HmacVerify lib tok k = None"
  shows "((\<exists>r. issuer_Verify lib iss tok later = Inr r) \<longleftrightarrow>
            now \<le> later + Seconds (is_maximumClockSkew iss) \<and>
            (ir_ExpiresIn req > 0 \<longrightarrow> later \<le> now + Seconds (ir_ExpiresIn req))) \<and>
         (\<forall>r. issuer_Verify lib iss tok later = Inr r \<longrightarrow>
            u_Name (vr_User r) = u_Name (ir_User req) \<and> map_of (u_Extra (vr_User r)) = map_of (u_Extra (ir_User req)) \<and>
            cl_TokenType (vr_Claims r) = cl_TokenType (ir_Claims req))"
proof -
  note parsed = issuer_Verify_parsed [OF ParseWithClaims_HS256 [OF decodes secret signature]]
  show ?thesis
    using \<open>0 < now\<close> Seconds_nonneg [of "ir_ExpiresIn req"]
    by (auto simp: parsed issue_claims_simps verifyExp_def verifyIat_def extra)
qed

text \<open>A library that knows a single token.\<close>

definition one_token_lib :: "string \<Rightarrow> claims \<Rightarrow> jwt_lib" where
  "one_token_lib tok c =
     \<lparr>jwt_SignedString = (\<lambda>alg kid c' key. Inr tok),
      jwt_ParseUnverified = (\<lambda>tok'. if tok' = tok then Inr (''HS256'', c) else Inl ''malformed''),
      jwt_HmacVerify = (\<lambda>tok' k. None), jwt_RsaVerify = (\<lambda>tok' k. None)\<rparr>"

definition sample_issuer :: issuer where
  "sample_issuer = \<lparr>is_name = ''kubesphere'', is_secret = HmacSecret ''s'', is_SigningKey = RsaPrivateKey ''k'',
     is_KeyID = ''1'', is_maximumClockSkew = 10000000000\<rparr>"

definition sample_request :: "string \<Rightarrow> issue_request" where
  "sample_request type = \<lparr>ir_User = \<lparr>u_Name = ''bob'', u_Groups = [], u_Extra = []\<rparr>, ir_ExpiresIn = 7200000000000,
     ir_Claims = no_claims\<lparr>cl_TokenType := type\<rparr>\<rparr>"

theorem issued_token_verifies_witness:
  "(\<exists>r. issuer_Verify (one_token_lib ''a.b.c'' (issue_claims sample_issuer 1000 (sample_request AccessToken)))
          sample_issuer ''a.b.c'' 8200 = Inr r) \<longleftrightarrow>
     (1000::int) \<le> 8200 + 10 \<and> (8200::int) \<le> 1000 + 7200"
proof -
  let ?req = "sample_request AccessToken"
  let ?c = "issue_claims sample_issuer 1000 ?req"
  let ?lib = "one_token_lib ''a.b.c'' ?c"
  have "?c\<lparr>cl_Extra := []\<rparr> = ?c"
    by (simp add: issue_claims_def sample_request_def sample_issuer_def no_claims_def Let_def)
  then have decodes: "jwt_ParseUnverified ?lib ''a.b.c'' = Inr (''HS256'', ?c\<lparr>cl_Extra := []\<rparr>)"
    by (simp add: one_token_lib_def)
  have issued: "issuer_IssueTo ?lib sample_issuer ?req 1000 = Inr ''a.b.c''"
    by (simp add: issuer_IssueTo_def one_token_lib_def Let_def)
  show ?thesis
    using issued_token_verifies [OF issued _ _ _ decodes, of "''s''" 8200]
    by (simp add: sample_issuer_def sample_request_def one_token_lib_def token_types Seconds_def)
qed

text \<open>
  an identity token never verifies: it is signed with the private key, and the issuer gives the private
  key to the check of its signature as well, which wants a public one.
\<close>
theorem id_token_never_verifies:
  assumes "NewIssuer kl options = Some (Inr iss)"
    and "cl_TokenType (ir_Claims req) = IDToken" and "issuer_IssueTo lib iss req now = Inr tok"
    and decodes: "jwt_ParseUnverified lib tok = Inr (''RS256'', issue_claims iss now req)"
  shows "issuer_Verify lib iss tok later = Inl (LibError ''key is of invalid type'')"
proof -
  obtain key where "is_SigningKey iss = RsaPrivateKey key"
    using assms(1) by (auto simp: NewIssuer_def split: sum.splits option.splits)
  then show ?thesis
    by (simp add: issuer_Verify_def ParseWithClaims_def decodes keyFunc_def method_Verify_def)
qed

definition sample_key_lib :: key_lib where
  "sample_key_lib = \<lparr>kl_ReadFile = (\<lambda>f. Inl f), kl_DecodeString = Inr, kl_generatePrivateKeyData = Inr ''pem'',
     kl_pemDecode = Some, kl_ParsePKCS1PrivateKey = Inr\<rparr>"

definition sample_options :: issuer_options where
  "sample_options = \<lparr>io_Issuer = ''kubesphere'', io_SignKey = [], io_SignKeyData = [], io_JwtSecret = ''s'',
     io_MaximumClockSkew = 10000000000\<rparr>"

theorem id_token_never_verifies_witness:
  "\<exists>iss lib. NewIssuer sample_key_lib sample_options = Some (Inr iss) \<and>
     issuer_IssueTo lib iss (sample_request IDToken) 1000 = Inr ''a.b.c'' \<and>
     issuer_Verify lib iss ''a.b.c'' 1000 = Inl (LibError ''key is of invalid type'')"
proof -
  obtain iss where iss: "NewIssuer sample_key_lib sample_options = Some (Inr iss)"
    by (simp add: NewIssuer_def loadSignKey_def loadPrivateKey_def lib_result_def sample_key_lib_def sample_options_def Let_def)
  let ?req = "sample_request IDToken"
  let ?lib = "(one_token_lib ''a.b.c'' no_claims)\<lparr>jwt_ParseUnverified := \<lambda>_. Inr (''RS256'', issue_claims iss 1000 ?req)\<rparr>"
  have issued: "issuer_IssueTo ?lib iss ?req 1000 = Inr ''a.b.c''"
    by (simp add: issuer_IssueTo_def one_token_lib_def Let_def)
  have "issuer_Verify ?lib iss ''a.b.c'' 1000 = Inl (LibError ''key is of invalid type'')"
    by (rule id_token_never_verifies [OF iss _ issued]) (simp_all add: sample_request_def)
  then show ?thesis using iss issued by blast
qed

text \<open>
  C9: where the configuration gives access tokens a maximal age other than 0, after a user's logout that succeeded
  no token of the user verifies any more, whatever the server does next, unless that very token is issued again; only
  static tokens, which are not kept in the cache, survive. This holds with every cache that keeps the contract, for
  names and tokens without characters that are special in patterns of keys. With the age 0, which the
  configuration that is shipped has, tokens are not looked up in the cache and a logout has no effect on them
  (\<open>logout_without_max_age\<close> below).
\<close>
theorem logout_ends_sessions:
  assumes cache: "session_cache env idle live"
    and "RevokeAllUserTokens env u s = (Inr (), s1)" and "session env t idle s1 evs s2"
    and "\<forall>v w. Issued v w \<in> set evs \<longrightarrow> token_key v w \<noteq> token_key u tok"
    and "to_AccessTokenMaxAge t \<noteq> 0" and "plain u" "plain tok" "tok \<noteq> []"
    and "Verify env t tok s2 = (Inr r, s3)" and "u_Name (vr_User r) = u"
  shows "cl_TokenType (vr_Claims r) = StaticToken"
proof (rule ccontr)
  assume "cl_TokenType (vr_Claims r) \<noteq> StaticToken"
  then have "live s2 (token_key u tok)"
    using session_cache.Verify_live [OF cache] assms by blast
  then have "live s1 (token_key u tok)"
    using session_cache.session_dead [OF cache] assms by blast
  then show False
    using session_cache.RevokeAllUserTokens_removes [OF cache] assms by blast
qed

text \<open>Without a maximal age the verdict on a token depends on the time alone: no logout changes it.\<close>

lemma logout_without_max_age:
  assumes "to_AccessTokenMaxAge t = 0"
  shows "fst (Verify env t tok s) = issuer_Verify (to_lib t) (to_issuer t) tok (fst (env_Now env s))"
  using assms
  by (cases "env_Now env s") (simp add: Verify_def check_token_def auth_bind_def auth_case_def auth_return_def auth_fail_def Let_def split: sum.splits)

definition sample_operator :: "string \<Rightarrow> token_operator" where
  "sample_operator type = \<lparr>to_lib = one_token_lib ''a.b.c'' (issue_claims sample_issuer 1000 (sample_request type)),
     to_issuer = sample_issuer, to_AccessTokenMaxAge = 7200000000000\<rparr>"

definition sample_memory :: server_memory where
  "sample_memory = \<lparr>sm_store = [(token_key ''bob'' ''a.b.c'', \<lparr>so_value = ''a.b.c'', so_neverExpire = True, so_expiredAt = 0\<rparr>)],
     sm_clock = 1000, sm_logouts = 0\<rparr>"

definition no_regexp :: regexp_lib where
  "no_regexp p = Inl p"

lemma sample_logout:
  "RevokeAllUserTokens (simple_env no_regexp) ''bob'' sample_memory = (Inr (), sample_memory\<lparr>sm_store := []\<rparr>)"
  by code_simp

lemma sample_Verify:
  "Verify (simple_env no_regexp) (sample_operator StaticToken) ''a.b.c'' (sample_memory\<lparr>sm_store := []\<rparr>) =
     (Inr \<lparr>vr_User = \<lparr>u_Name = ''bob'', u_Groups = [], u_Extra = []\<rparr>,
           vr_Claims = issue_claims sample_issuer 1000 (sample_request StaticToken)\<rparr>, sample_memory\<lparr>sm_store := []\<rparr>)"
  by code_simp

theorem logout_ends_sessions_witness:
  "cl_TokenType (issue_claims sample_issuer 1000 (sample_request StaticToken)) = StaticToken"
  using logout_ends_sessions [OF simple_cache.session_cache_axioms sample_logout session.start _ _ _ _ _ sample_Verify]
  by (simp add: sample_operator_def plain_def metachar_def)

section \<open>Revoking a single token\<close>

text \<open>Keys of colon-free names and tokens take apart in one way, and the fixed text occurs only at their start.\<close>

lemma SplitChar_token_key:
  assumes "CHR '':'' \<notin> set u" "CHR '':'' \<notin> set tok"
  shows "SplitChar CHR '':'' (token_key u tok) = [''kubesphere'', ''user'', u, ''token'', tok]"
proof -
  have "token_key u tok = Join [''kubesphere'', ''user'', u, ''token'', tok] '':''"
    by (simp add: token_key_def)
  moreover have "\<forall>w\<in>set [''kubesphere'', ''user'', u, ''token'', tok]. CHR '':'' \<notin> set w"
    using assms by simp
  ultimately show ?thesis by (metis SplitChar_Join list.distinct(1))
qed

lemma key_text_only_at_start:
  assumes "CHR '':'' \<notin> set u" "CHR '':'' \<notin> set tok" and key: "token_key u tok = a @ ''kubesphere:user:'' @ b"
  shows "a = []"
proof -
  let ?A = "SplitChar CHR '':'' (a @ ''kubesphere'')" and ?B = "SplitChar CHR '':'' b"
  have "SplitChar CHR '':'' (token_key u tok) = ?A @ SplitChar CHR '':'' (''user'' @ CHR '':'' # b)"
    using SplitChar_append [of "CHR '':''" "a @ ''kubesphere''" "''user'' @ CHR '':'' # b"] by (simp add: key)
  then have split: "[''kubesphere'', ''user'', u, ''token'', tok] = ?A @ ''user'' # ?B"
    using SplitChar_token_key [OF assms(1,2)] SplitChar_append [of "CHR '':''" "''user''" b]
    by (simp add: SplitChar_no_sep del: append.simps)
  have join: "Join ?A '':'' = a @ ''kubesphere''" by simp
  have ne: "?A \<noteq> []" "?B \<noteq> []" by simp_all
  have "?A = [''kubesphere''] \<or> ?A = [''kubesphere'', ''user'']"
    using split ne by (auto simp: Cons_eq_append_conv)
  then have "a @ ''kubesphere'' = ''kubesphere'' \<or> a @ ''kubesphere'' = ''kubesphere'' @ '':'' @ ''user''"
  proof
    assume "?A = [''kubesphere'']"
    then have "Join ?A '':'' = ''kubesphere''" by (simp only: Join.simps)
    then show ?thesis unfolding join by (rule disjI1)
  next
    assume "?A = [''kubesphere'', ''user'']"
    then have "Join ?A '':'' = ''kubesphere'' @ '':'' @ ''user''" by (simp only: Join.simps)
    then show ?thesis unfolding join by (rule disjI2)
  qed
  then show ?thesis
    using arg_cong [of "a @ ''kubesphere''" "''kubesphere:user''" last] by auto
qed

lemma dots_at_prefix:
  "plain p \<Longrightarrow> CHR ''.'' \<notin> set p \<Longrightarrow> dots_at (p @ q) s \<Longrightarrow> \<exists>s'. s = p @ s' \<and> dots_at q s'"
proof (induction p arbitrary: s)
  case (Cons c p)
  then show ?case by (cases s) (auto split: if_splits)
qed simp

lemma dots_search_split: "dots_search p s \<Longrightarrow> \<exists>a b. s = a @ b \<and> dots_at p b"
proof (induction p s rule: dots_search.induct)
  case (2 p c s)
  then show ?case
    by (metis append.left_neutral append_Cons dots_search.simps(2))
qed auto

lemma simple_pattern_one_letter:
  assumes "CHR '':'' \<notin> set u" "CHR '':'' \<notin> set tok"
    and "dots_search (''kubesphere:user:'' @ CHR ''.'' # '':token:'' @ tok') (token_key u tok)"
  shows "length u = 1"
proof -
  obtain a b where ab: "token_key u tok = a @ b" "dots_at (''kubesphere:user:'' @ CHR ''.'' # '':token:'' @ tok') b"
    using dots_search_split [OF assms(3)] by blast
  then obtain b' where b: "b = ''kubesphere:user:'' @ b'" "dots_at (CHR ''.'' # '':token:'' @ tok') b'"
    using dots_at_prefix [OF plain_key_texts(1)] by fastforce
  have "a = []" using key_text_only_at_start [OF assms(1,2)] ab(1) b(1) by simp
  then have b': "b' = u @ '':token:'' @ tok" using ab(1) b(1) by (simp add: token_key_def)
  show ?thesis
  proof (cases u)
    case Nil
    then show ?thesis using b(2) b' by simp
  next
    case (Cons c u')
    then have "dots_at ('':token:'' @ tok') (u' @ '':token:'' @ tok)" using b(2) b' by simp
    then have "\<exists>s'. u' @ '':token:'' @ tok = '':token:'' @ s'"
      using dots_at_prefix [OF plain_key_texts(2)] by fastforce
    then have "u' = []" using assms(1) Cons by (cases u') auto
    then show ?thesis using Cons by simp
  qed
qed

lemma stored_delete: "stored (snd (simple_Del ks s)) k \<longleftrightarrow> stored s k \<and> k \<notin> set ks"
  by (simp add: stored_def simple_Del_def map_of_fold_delete)

lemma simple_Keys_plain:
  assumes "map (\<lambda>c. if c = CHR ''*'' then CHR ''.'' else c) p = p'" "\<not> list_ex metachar p'"
  shows "simple_Keys other p s = (Inr (filter (dots_search p') (map fst (sm_store s))), s)"
  unfolding simple_Keys_def Let_def assms(1) by (simp add: regexp_Compile_def assms(2))

text \<open>
  With the in-memory cache, revoking one token has no effect on the tokens of a user whose name is not a
  single letter: the star of the pattern is replaced by a dot, which matches one character. The call
  succeeds all the same.
\<close>
theorem simple_Revoke_ineffective:
  assumes "plain tok" "CHR '':'' \<notin> set tok" "CHR '':'' \<notin> set u" "length u \<noteq> 1"
  shows "\<exists>s'. Revoke (simple_env other) tok s = (Inr (), s') \<and>
              (stored s' (token_key u tok) \<longleftrightarrow> stored s (token_key u tok))"
proof -
  let ?p = "''kubesphere:user:*:token:'' @ tok" and ?p' = "''kubesphere:user:'' @ CHR ''.'' # '':token:'' @ tok"
  let ?ks = "filter (dots_search ?p') (map fst (sm_store s))"
  have "map (\<lambda>c. if c = CHR ''*'' then CHR ''.'' else c) ?p = ?p'"
    using plain_star_id [OF assms(1)] by simp
  moreover have "\<not> list_ex metachar ?p'"
    using plain_metachar [OF assms(1)] plain_metachar [OF plain_key_texts(1)] plain_metachar [OF plain_key_texts(2)]
    by simp
  ultimately have *: "simple_Keys other ?p s = (Inr ?ks, s)" by (rule simple_Keys_plain)
  define ks where "ks = ?ks"
  have keys: "cache_Keys (simple_env other) ?p s = (Inr ks, s)"
    using * by (simp add: simple_env_def ks_def del: append.simps)
  have "token_key u tok \<notin> set ks"
    using simple_pattern_one_letter [OF assms(3,2)] assms(4) by (auto simp: ks_def)
  moreover have "Revoke (simple_env other) tok s = (if ks = [] then (Inr (), s) else simple_Del ks s)"
    unfolding Revoke_def delete_matching_def
    by (subst auth_bind_simps(1) [where m = "cache_Keys (simple_env other) ?p", OF keys])
      (simp add: simple_env_def auth_simps)
  moreover have "fst (simple_Del ks s) = Inr ()" by (simp add: simple_Del_def)
  ultimately show ?thesis
    using stored_delete [of ks s "token_key u tok"] by (cases "simple_Del ks s") auto
qed

theorem simple_Revoke_ineffective_witness:
  "\<exists>s'. Revoke (simple_env no_regexp) ''a.b.c'' sample_memory = (Inr (), s') \<and>
        (stored s' (token_key ''bob'' ''a.b.c'') \<longleftrightarrow> stored sample_memory (token_key ''bob'' ''a.b.c''))"
  by (rule simple_Revoke_ineffective) (simp_all add: plain_def metachar_def)

end
