(* ===== verification/Authentication.thy ===== *)
theory Authentication
  imports Token_Operator
begin

text \<open>
  Who is behind a request: the password and OAuth authenticators and the login recorder
  (\<^verbatim>\<open>pkg/models/auth\<close>), the registry of identity providers
  (\<^verbatim>\<open>pkg/apiserver/authentication/identityprovider\<close>), the request authenticators
  (\<^verbatim>\<open>authenticators/jwt\<close>, \<^verbatim>\<open>authenticators/basic\<close>, \<^verbatim>\<open>request/*\<close>) and the filter that puts the user into
  the request (\<^verbatim>\<open>pkg/apiserver/filters/authentication.go\<close>).
  Users are read through a lister (a function of the state) and written through the API; identity
  providers, bcrypt, the parsers of mail addresses and of basic credentials are parameters.
\<close>

section \<open>Users, providers and the environment\<close>

record user_status =
  us_State :: string
  us_Reason :: string
  us_LastTransitionTime :: "int option"
  us_LastLoginTime :: "int option"

record ks_user =
  ku_Name :: string
  ku_Labels :: "(string, string) gomap"
  ku_Annotations :: "(string, string) gomap"
  ku_Finalizers :: "string list"
  ku_Deleting :: bool
  ku_Email :: string
  ku_Lang :: string
  ku_Description :: string
  ku_DisplayName :: string
  ku_Groups :: "string list"
  ku_EncryptedPassword :: string
  ku_Status :: user_status

abbreviation ku_State :: "ks_user \<Rightarrow> string" where
  "ku_State u \<equiv> us_State (ku_Status u)"

definition UserActive :: string where "UserActive = ''Active''"
definition UserDisabled :: string where "UserDisabled = ''Disabled''"
definition UserAuthLimitExceeded :: string where "UserAuthLimitExceeded = ''AuthLimitExceeded''"

lemmas user_states = UserActive_def UserDisabled_def UserAuthLimitExceeded_def

lemma user_states_distinct [simp]:
  "UserActive \<noteq> UserDisabled" "UserActive \<noteq> UserAuthLimitExceeded" "UserDisabled \<noteq> UserAuthLimitExceeded"
  "UserDisabled \<noteq> UserActive" "UserAuthLimitExceeded \<noteq> UserActive" "UserAuthLimitExceeded \<noteq> UserDisabled"
  by (simp_all add: user_states)

definition PreRegistrationUser :: string where "PreRegistrationUser = ''system:pre-registration''"
definition UserReferenceLabel :: string where "UserReferenceLabel = ''iam.kubesphere.io/user-ref''"
definition IdentifyProviderLabel :: string where "IdentifyProviderLabel = ''iam.kubesphere.io/identify-provider''"
definition OriginUIDLabel :: string where "OriginUIDLabel = ''iam.kubesphere.io/origin-uid''"
definition UninitializedAnnotation :: string where "UninitializedAnnotation = ''iam.kubesphere.io/uninitialized''"

record identity =
  id_UserID :: string
  id_Username :: string
  id_Email :: string

record identity_provider_options =
  ip_Name :: string
  ip_MappingMethod :: string
  ip_DisableLoginConfirmation :: bool
  ip_Type :: string

text \<open>A record of a login attempt; the API server sets the time of its creation.\<close>

record login_record =
  lr_Name :: string
  lr_GenerateName :: string
  lr_Labels :: "(string, string) gomap"
  lr_CreationTimestamp :: int
  lr_Deleting :: bool
  lr_Type :: string
  lr_Provider :: string
  lr_SourceIP :: string
  lr_UserAgent :: string
  lr_Success :: bool
  lr_Reason :: string

record 'e login_env =
  le_tokens :: "'e token_env"
  users_Get :: "string \<Rightarrow> 'e \<Rightarrow> (auth_error, ks_user) result"
  users_List :: "(string, string) gomap \<Rightarrow> 'e \<Rightarrow> (auth_error, ks_user list) result"
  users_Create :: "ks_user \<Rightarrow> ('e, ks_user) auth"
  records_Create :: "login_record \<Rightarrow> ('e, unit) auth"
  le_SetLoginUserName :: "string \<Rightarrow> bool \<Rightarrow> 'e \<Rightarrow> 'e"
  mail_ParseAddress :: "string \<Rightarrow> bool"
  bcrypt_Compare :: "string \<Rightarrow> string \<Rightarrow> bool"
  http_BasicAuth :: "string \<Rightarrow> (string \<times> string) option"

fun IsNotFound :: "auth_error \<Rightarrow> bool" where
  "IsNotFound (ApiNotFound _) = True"
| "IsNotFound _ = False"

fun IsUnauthorized :: "auth_error \<Rightarrow> bool" where
  "IsUnauthorized (ApiUnauthorized _) = True"
| "IsUnauthorized _ = False"

section \<open>Identity providers\<close>

type_synonym 'e generic_provider = "string \<Rightarrow> string \<Rightarrow> ('e, identity) auth"
type_synonym 'e oauth_provider = "http_request \<Rightarrow> ('e, identity) auth"

record 'e providers =
  pr_oauth :: "(string, 'e oauth_provider) gomap"
  pr_generic :: "(string, 'e generic_provider) gomap"

text \<open>A factory makes a provider of its type from the options of a provider, or fails.\<close>

record 'e factories =
  fa_oauth :: "(string, identity_provider_options \<Rightarrow> (string, 'e oauth_provider) result) gomap"
  fa_generic :: "(string, identity_provider_options \<Rightarrow> (string, 'e generic_provider) result) gomap"

definition create_oauth :: "'e factories \<Rightarrow> identity_provider_options \<Rightarrow> 'e providers \<Rightarrow> 'e providers" where
  "create_oauth fa opt pr =
     (case map_of (fa_oauth fa) (ip_Type opt) of
        None \<Rightarrow> pr
      | Some create \<Rightarrow>
          (case create opt of
             Inl e \<Rightarrow> pr
           | Inr provider \<Rightarrow> pr\<lparr>pr_oauth := AList.update (ip_Name opt) provider (pr_oauth pr)\<rparr>))"

definition create_generic :: "'e factories \<Rightarrow> identity_provider_options \<Rightarrow> 'e providers \<Rightarrow> 'e providers" where
  "create_generic fa opt pr =
     (case map_of (fa_generic fa) (ip_Type opt) of
        None \<Rightarrow> pr
      | Some create \<Rightarrow>
          (case create opt of
             Inl e \<Rightarrow> pr
           | Inr provider \<Rightarrow> pr\<lparr>pr_generic := AList.update (ip_Name opt) provider (pr_generic pr)\<rparr>))"

fun SetupWithOptions :: "'e factories \<Rightarrow> identity_provider_options list \<Rightarrow> 'e providers \<Rightarrow> string option \<times> 'e providers" where
  "SetupWithOptions fa [] pr = (None, pr)"
| "SetupWithOptions fa (opt # opts) pr =
     (if map_of (pr_oauth pr) (ip_Name opt) \<noteq> None \<or> map_of (pr_generic pr) (ip_Name opt) \<noteq> None
      then (Some (''duplicate identity provider found: '' @ ip_Name opt @ '', name must be unique''), pr)
      else if map_of (fa_generic fa) (ip_Type opt) = None \<and> map_of (fa_oauth fa) (ip_Type opt) = None
      then (Some (''identity provider '' @ ip_Name opt @ '' with type '' @ ip_Type opt @ '' is not supported''), pr)
      else SetupWithOptions fa opts (create_generic fa opt (create_oauth fa opt pr)))"

definition GetGenericProvider :: "'e providers \<Rightarrow> string \<Rightarrow> (auth_error, 'e generic_provider) result" where
  "GetGenericProvider pr name =
     (case map_of (pr_generic pr) name of Some provider \<Rightarrow> Inr provider | None \<Rightarrow> Inl IdentityProviderNotFound)"

definition GetOAuthProvider :: "'e providers \<Rightarrow> string \<Rightarrow> (auth_error, 'e oauth_provider) result" where
  "GetOAuthProvider pr name =
     (case map_of (pr_oauth pr) name of Some provider \<Rightarrow> Inr provider | None \<Rightarrow> Inl IdentityProviderNotFound)"

fun IdentityProviderOptions :: "identity_provider_options list \<Rightarrow> string \<Rightarrow> (auth_error, identity_provider_options) result" where
  "IdentityProviderOptions [] name = Inl ErrorProviderNotFound"
| "IdentityProviderOptions (found # rest) name =
     (if ip_Name found = name then Inr found else IdentityProviderOptions rest name)"

section \<open>Finding and mapping users\<close>

definition preRegistrationUser :: "string \<Rightarrow> identity \<Rightarrow> auth_user" where
  "preRegistrationUser idp ident =
     \<lparr>u_Name = PreRegistrationUser, u_Groups = [],
      u_Extra = [(''idp'', [idp]), (''uid'', [id_UserID ident]), (''username'', [id_Username ident]),
                 (''email'', [id_Email ident])]\<rparr>"

definition no_status :: user_status where
  "no_status = \<lparr>us_State = [], us_Reason = [], us_LastTransitionTime = None, us_LastLoginTime = None\<rparr>"

definition mappedUser :: "string \<Rightarrow> identity \<Rightarrow> ks_user" where
  "mappedUser idp ident =
     \<lparr>ku_Name = ToLower (id_Username ident),
      ku_Labels = [(IdentifyProviderLabel, idp), (OriginUIDLabel, id_UserID ident)], ku_Annotations = [],
      ku_Finalizers = [], ku_Deleting = False, ku_Email = id_Email ident, ku_Lang = [], ku_Description = [], ku_DisplayName = [], ku_Groups = [],
      ku_EncryptedPassword = [], ku_Status = no_status\<rparr>"

definition findUser :: "'e login_env \<Rightarrow> string \<Rightarrow> 'e \<Rightarrow> (auth_error, ks_user) result" where
  "findUser env username s =
     (if \<not> mail_ParseAddress env username then users_Get env username s
      else bind_result (users_List env [] s) (\<lambda>users.
        case find (\<lambda>user. ku_Email user = username) users of
          Some user \<Rightarrow> Inr user
        | None \<Rightarrow> Inl (ApiNotFound username)))"

definition findMappedUser :: "'e login_env \<Rightarrow> string \<Rightarrow> string \<Rightarrow> 'e \<Rightarrow> (auth_error, ks_user) result" where
  "findMappedUser env idp uid s =
     bind_result (users_List env [(IdentifyProviderLabel, idp), (OriginUIDLabel, uid)] s) (\<lambda>users.
       case users of [user] \<Rightarrow> Inr user | _ \<Rightarrow> Inl (ApiNotFound uid))"

section \<open>Passwords\<close>

text \<open>A login gives a user or an error, and in both cases the name of the provider that decided.\<close>

type_synonym 'e login = "'e \<Rightarrow> ((auth_error, auth_user) result \<times> string) \<times> 'e"

definition named_user :: "string \<Rightarrow> auth_user" where
  "named_user name = \<lparr>u_Name = name, u_Groups = [], u_Extra = []\<rparr>"

definition PasswordVerify :: "'e login_env \<Rightarrow> string \<Rightarrow> string \<Rightarrow> auth_error option" where
  "PasswordVerify env encryptedPassword password =
     (if bcrypt_Compare env encryptedPassword password then None else Some IncorrectPasswordError)"

definition local_account :: "'e login_env \<Rightarrow> string \<Rightarrow> string \<Rightarrow> 'e login" where
  "local_account env username password s =
     (case findUser env username s of
        Inl e \<Rightarrow> (if \<not> IsNotFound e then ((Inl e, []), s) else ((Inl IncorrectPasswordError, []), s))
      | Inr user \<Rightarrow>
          if ku_State user \<noteq> UserActive
          then (if ku_State user = UserAuthLimitExceeded then ((Inl RateLimitExceededError, []), s)
                else ((Inl AccountIsNotActiveError, []), s))
          else if ku_EncryptedPassword user \<noteq> []
          then (case PasswordVerify env (ku_EncryptedPassword user) password of
                  Some e \<Rightarrow> ((Inl e, []), s)
                | None \<Rightarrow>
                    (let uninitialized = map_get [] (ku_Annotations user) UninitializedAnnotation
                     in ((Inr \<lparr>u_Name = ku_Name user, u_Groups = ku_Groups user,
                               u_Extra = (if uninitialized \<noteq> [] then [(''uninitialized'', [uninitialized])] else [])\<rparr>, []), s)))
          else ((Inl IncorrectPasswordError, []), s))"

fun provider_loop :: "'e login_env \<Rightarrow> 'e providers \<Rightarrow> string \<Rightarrow> string \<Rightarrow> identity_provider_options list \<Rightarrow> 'e login" where
  "provider_loop env pr username password [] s = local_account env username password s"
| "provider_loop env pr username password (opt # opts) s =
     (if username = ''admin'' then local_account env username password s
      else case GetGenericProvider pr (ip_Name opt) of
        Inl _ \<Rightarrow> provider_loop env pr username password opts s
      | Inr authenticate \<Rightarrow>
          (case authenticate username password s of
             (Inl e, s1) \<Rightarrow>
               if IsUnauthorized e then provider_loop env pr username password opts s1
               else ((Inl e, ip_Name opt), s1)
           | (Inr authenticated, s1) \<Rightarrow>
               (case findMappedUser env (ip_Name opt) (id_UserID authenticated) s1 of
                  Inr linkedAccount \<Rightarrow> ((Inr (named_user (ku_Name linkedAccount)), ip_Name opt), s1)
                | Inl e \<Rightarrow>
                    if \<not> IsNotFound e then ((Inl e, ip_Name opt), s1)
                    else if ip_MappingMethod opt = ''lookup'' then provider_loop env pr username password opts s1
                    else if ip_MappingMethod opt = ''auto''
                    then (if \<not> ip_DisableLoginConfirmation opt
                          then ((Inr (preRegistrationUser (ip_Name opt) authenticated), ip_Name opt), s1)
                          else (case users_Create env (mappedUser (ip_Name opt) authenticated) s1 of
                                  (Inl e', s2) \<Rightarrow> ((Inl e', ip_Name opt), s2)
                                | (Inr created, s2) \<Rightarrow> ((Inr (named_user (ku_Name created)), ip_Name opt), s2)))
                    else provider_loop env pr username password opts s1)))"

definition password_Authenticate :: "'e login_env \<Rightarrow> 'e providers \<Rightarrow> identity_provider_options list \<Rightarrow> string \<Rightarrow> string \<Rightarrow> 'e login" where
  "password_Authenticate env pr opts username password s =
     (if username = [] \<or> password = [] then ((Inl IncorrectPasswordError, []), s)
      else provider_loop env pr username password opts s)"

section \<open>OAuth providers and login records\<close>

definition oauth_user :: "string \<Rightarrow> ks_user \<Rightarrow> 'e login" where
  "oauth_user provider user s =
     (if ku_State user = UserDisabled then ((Inl AccountIsNotActiveError, []), s)
      else ((Inr (named_user (ku_Name user)), provider), s))"

definition oauth_mapped :: "'e login_env \<Rightarrow> identity_provider_options \<Rightarrow> identity \<Rightarrow> 'e login" where
  "oauth_mapped env opt authenticated s =
     (case findMappedUser env (ip_Name opt) (id_UserID authenticated) s of
        Inr user \<Rightarrow> oauth_user (ip_Name opt) user s
      | Inl e \<Rightarrow>
          if ip_MappingMethod opt = ''lookup'' then ((Inl e, []), s)
          else if ip_MappingMethod opt = ''auto''
          then (if \<not> ip_DisableLoginConfirmation opt
                then ((Inr (preRegistrationUser (ip_Name opt) authenticated), ip_Name opt), s)
                else (case users_Create env (mappedUser (ip_Name opt) authenticated) s of
                        (Inl e', s') \<Rightarrow> ((Inl e', ip_Name opt), s')
                      | (Inr user, s') \<Rightarrow> oauth_user (ip_Name opt) user s'))
          else ((Inl (ApiNotFound (id_Username authenticated)), []), s))"

definition oauth_Authenticate :: "'e login_env \<Rightarrow> 'e providers \<Rightarrow> identity_provider_options list \<Rightarrow> string \<Rightarrow> http_request \<Rightarrow> 'e login" where
  "oauth_Authenticate env pr opts provider req s =
     (case IdentityProviderOptions opts provider of
        Inl e \<Rightarrow> ((Inl e, []), s)
      | Inr opt \<Rightarrow>
          (case GetOAuthProvider pr (ip_Name opt) of
             Inl e \<Rightarrow> ((Inl e, []), s)
           | Inr exchange \<Rightarrow>
               (case exchange req s of
                  (Inl e, s') \<Rightarrow> ((Inl e, []), s')
                | (Inr authenticated, s') \<Rightarrow> oauth_mapped env opt authenticated s')))"

text \<open>\<open>authErr\<close> is the message of the error of a failed attempt.\<close>

definition RecordLogin :: "'e login_env \<Rightarrow> string \<Rightarrow> string \<Rightarrow> string \<Rightarrow> string \<Rightarrow> string \<Rightarrow> string option \<Rightarrow> ('e, unit) auth" where
  "RecordLogin env username loginType provider sourceIP userAgent authErr s =
     (case findUser env username s of
        Inl e \<Rightarrow> if IsNotFound e then (Inr (), s) else (Inl e, s)
      | Inr user \<Rightarrow>
          records_Create env
            \<lparr>lr_Name = [], lr_GenerateName = ku_Name user @ ''-'', lr_Labels = [(UserReferenceLabel, ku_Name user)],
             lr_CreationTimestamp = 0, lr_Deleting = False, lr_Type = loginType, lr_Provider = provider, lr_SourceIP = sourceIP,
             lr_UserAgent = userAgent, lr_Success = (authErr = None),
             lr_Reason = (case authErr of None \<Rightarrow> ''authenticated successfully'' | Some e \<Rightarrow> e)\<rparr> s)"

section \<open>Authenticating requests\<close>

text \<open>
  An authenticator of requests fails, or has no opinion (\<^const>\<open>None\<close>), or finds the user. It may change the
  state: a failed password attempt is recorded.
\<close>

type_synonym 'e request_authenticator = "http_request \<Rightarrow> ('e, auth_user option) auth"

record 'e auth_server =
  as_env :: "'e login_env"
  as_operator :: token_operator
  as_providers :: "'e providers"
  as_IdentityProviders :: "identity_provider_options list"

definition AllAuthenticated :: string where "AllAuthenticated = ''system:authenticated''"
definition AllUnauthenticated :: string where "AllUnauthenticated = ''system:unauthenticated''"
definition Anonymous :: string where "Anonymous = ''system:anonymous''"

definition authorization_header :: "http_request \<Rightarrow> string" where
  "authorization_header req = map_get [] (Header req) ''Authorization''"

definition AuthenticateToken :: "'e auth_server \<Rightarrow> string \<Rightarrow> ('e, auth_user) auth" where
  "AuthenticateToken srv token =
     auth_bind (Verify (le_tokens (as_env srv)) (as_operator srv) token) (\<lambda>verified s.
       if u_Name (vr_User verified) = PreRegistrationUser then (Inr (vr_User verified), s)
       else (case users_Get (as_env srv) (u_Name (vr_User verified)) s of
               Inl e \<Rightarrow> (Inl e, s)
             | Inr userInfo \<Rightarrow>
                 if ku_State userInfo = UserDisabled then (Inl AccountIsNotActiveError, s)
                 else (Inr \<lparr>u_Name = ku_Name userInfo, u_Groups = ku_Groups userInfo @ [AllAuthenticated], u_Extra = []\<rparr>, s)))"

definition AuthenticatePassword :: "'e auth_server \<Rightarrow> request_info \<Rightarrow> string \<Rightarrow> string \<Rightarrow> ('e, auth_user) auth" where
  "AuthenticatePassword srv info username password s =
     (case password_Authenticate (as_env srv) (as_providers srv) (as_IdentityProviders srv) username password s of
        ((Inl e, provider), s') \<Rightarrow>
          (Inl e, if e = IncorrectPasswordError
                  then snd (RecordLogin (as_env srv) username ''Basic'' provider (ri_SourceIP info) (ri_UserAgent info)
                              (Some ''incorrect password'') s')
                  else s')
      | ((Inr authenticated, provider), s') \<Rightarrow>
          (Inr \<lparr>u_Name = u_Name authenticated, u_Groups = u_Groups authenticated @ [AllAuthenticated], u_Extra = []\<rparr>, s'))"

definition anonymous_AuthenticateRequest :: "'e request_authenticator" where
  "anonymous_AuthenticateRequest req s =
     (if TrimSpace (authorization_header req) = []
      then (Inr (Some \<lparr>u_Name = Anonymous, u_Groups = [AllUnauthenticated], u_Extra = []\<rparr>), s)
      else (Inr None, s))"

definition basic_AuthenticateRequest :: "'e auth_server \<Rightarrow> request_info \<Rightarrow> 'e request_authenticator" where
  "basic_AuthenticateRequest srv info req =
     (case http_BasicAuth (as_env srv) (authorization_header req) of
        None \<Rightarrow> auth_return None
      | Some (username, password) \<Rightarrow>
          auth_bind (AuthenticatePassword srv info username password) (\<lambda>user. auth_return (Some user)))"

definition bearer_AuthenticateRequest :: "'e auth_server \<Rightarrow> 'e request_authenticator" where
  "bearer_AuthenticateRequest srv req =
     (let auth = TrimSpace (authorization_header req); parts = SplitChar CHR '' '' auth in
      if auth = [] then auth_return None
      else if length parts < 2 \<or> ToLower (parts ! 0) \<noteq> ''bearer'' then auth_return None
      else if length (parts ! 1) = 0 then auth_return None
      else auth_bind (AuthenticateToken srv (parts ! 1)) (\<lambda>user. auth_return (Some user)))"

text \<open>The union tries all authenticators until one succeeds, and collects the errors.\<close>

fun union_AuthenticateRequest :: "'e request_authenticator list \<Rightarrow> http_request \<Rightarrow> auth_error list \<Rightarrow> 'e \<Rightarrow> (auth_error list, auth_user option) result \<times> 'e" where
  "union_AuthenticateRequest [] req errlist s = (if errlist = [] then Inr None else Inl errlist, s)"
| "union_AuthenticateRequest (h # hs) req errlist s =
     (case h req s of
        (Inl e, s') \<Rightarrow> union_AuthenticateRequest hs req (errlist @ [e]) s'
      | (Inr (Some user), s') \<Rightarrow> (Inr (Some user), s')
      | (Inr None, s') \<Rightarrow> union_AuthenticateRequest hs req errlist s')"

definition authenticators :: "'e auth_server \<Rightarrow> request_info \<Rightarrow> 'e request_authenticator list" where
  "authenticators srv info =
     [anonymous_AuthenticateRequest, basic_AuthenticateRequest srv info, bearer_AuthenticateRequest srv]"

datatype authn_outcome = ServeAs auth_user | UnauthorizedResponse

definition WithAuthentication :: "'e auth_server \<Rightarrow> request_info \<Rightarrow> http_request \<Rightarrow> 'e \<Rightarrow> authn_outcome \<times> 'e" where
  "WithAuthentication srv info req s =
     (case union_AuthenticateRequest (authenticators srv info) req [] s of
        (Inr (Some user), s') \<Rightarrow> (ServeAs user, s')
      | (_, s') \<Rightarrow> (UnauthorizedResponse, s'))"

section \<open>Who can log in\<close>

definition account_user :: "ks_user \<Rightarrow> auth_user" where
  "account_user acc =
     (let uninitialized = map_get [] (ku_Annotations acc) UninitializedAnnotation in
      \<lparr>u_Name = ku_Name acc, u_Groups = ku_Groups acc,
       u_Extra = (if uninitialized \<noteq> [] then [(''uninitialized'', [uninitialized])] else [])\<rparr>)"

text \<open>An active account with a password that matches.\<close>

definition password_matches :: "'e login_env \<Rightarrow> string \<Rightarrow> string \<Rightarrow> 'e \<Rightarrow> ks_user \<Rightarrow> bool" where
  "password_matches env username password s acc \<longleftrightarrow>
     findUser env username s = Inr acc \<and> ku_State acc = UserActive \<and> ku_EncryptedPassword acc \<noteq> [] \<and>
     bcrypt_Compare env (ku_EncryptedPassword acc) password"

lemma local_account_iff:
  "local_account env username password s = ((Inr a, provider), s') \<longleftrightarrow>
     (\<exists>acc. password_matches env username password s acc \<and> a = account_user acc \<and> provider = [] \<and> s' = s)"
  by (auto simp: local_account_def PasswordVerify_def password_matches_def account_user_def Let_def
      split: sum.splits if_splits)

text \<open>The user a provider's identity is mapped to.\<close>

definition provider_user :: "'e login_env \<Rightarrow> identity_provider_options \<Rightarrow> identity \<Rightarrow> auth_user \<Rightarrow> 'e \<Rightarrow> 'e \<Rightarrow> bool" where
  "provider_user env opt ident a s s' \<longleftrightarrow>
     (\<exists>acc. findMappedUser env (ip_Name opt) (id_UserID ident) s = Inr acc \<and> a = named_user (ku_Name acc) \<and> s' = s) \<or>
     ip_MappingMethod opt = ''auto'' \<and>
     (a = preRegistrationUser (ip_Name opt) ident \<and> \<not> ip_DisableLoginConfirmation opt \<and> s' = s \<or>
      (\<exists>acc. ip_DisableLoginConfirmation opt \<and> a = named_user (ku_Name acc) \<and>
             users_Create env (mappedUser (ip_Name opt) ident) s = (Inr acc, s')))"

lemma provider_loop_sound:
  "provider_loop env pr username password opts s = ((Inr a, provider), s') \<Longrightarrow>
     (\<exists>acc. password_matches env username password s' acc \<and> a = account_user acc \<and> provider = []) \<or>
     username \<noteq> ''admin'' \<and>
     (\<exists>opt \<in> set opts. \<exists>authenticate ident s1 s2.
        GetGenericProvider pr (ip_Name opt) = Inr authenticate \<and> provider = ip_Name opt \<and>
        authenticate username password s1 = (Inr ident, s2) \<and> provider_user env opt ident a s2 s')"
proof (induction env pr username password opts s rule: provider_loop.induct)
  case (1 env pr username password s)
  then show ?case by (auto simp: local_account_iff)
next
  case (2 env pr username password opt opts s)
  show ?case
  proof (cases "username = ''admin''")
    case True
    then show ?thesis using "2.prems" by (auto simp: local_account_iff)
  next
    case admin: False
    show ?thesis
    proof (cases "GetGenericProvider pr (ip_Name opt)")
      case (Inl e)
      then show ?thesis using "2.IH"(1) [OF admin Inl] "2.prems" admin by auto
    next
      case (Inr authenticate)
      obtain r s1 where call: "authenticate username password s = (r, s1)"
        by (cases "authenticate username password s")
      note IH = "2.IH"(2-4) [OF admin Inr call [symmetric]]
      show ?thesis
      proof (cases r)
        case err: (Inl e)
        then show ?thesis using IH(1) [OF err] "2.prems" admin Inr call by (auto split: if_splits)
      next
        case ok: (Inr ident)
        have here: "?thesis" if "provider = ip_Name opt" "provider_user env opt ident a s1 s'"
          using that admin Inr call ok by auto
        show ?thesis
          using IH(2-3) [OF ok] "2.prems" admin Inr call ok here
          by (auto simp: provider_user_def split: sum.splits if_splits prod.splits)
      qed
    qed
  qed
qed


text \<open>
  C4: a password login succeeds only for one of two reasons: the name belongs to an active account whose
  stored password matches, or, for every name but \<^verbatim>\<open>admin\<close>, a configured identity provider has itself
  accepted the name and the password and the login is as the user its identity is mapped to.
\<close>
theorem password_login_sound:
  assumes "password_Authenticate env pr opts username password s = ((Inr a, provider), s')"
  shows "username \<noteq> [] \<and> password \<noteq> [] \<and>
     ((\<exists>acc. password_matches env username password s' acc \<and> a = account_user acc \<and> provider = []) \<or>
      username \<noteq> ''admin'' \<and>
      (\<exists>opt \<in> set opts. \<exists>authenticate ident s1 s2.
         GetGenericProvider pr (ip_Name opt) = Inr authenticate \<and> provider = ip_Name opt \<and>
         authenticate username password s1 = (Inr ident, s2) \<and> provider_user env opt ident a s2 s'))"
proof -
  have ne: "username \<noteq> []" "password \<noteq> []"
    and login: "provider_loop env pr username password opts s = ((Inr a, provider), s')"
    using assms by (auto simp: password_Authenticate_def split: if_splits)
  show ?thesis by (intro conjI ne provider_loop_sound [OF login])
qed

text \<open>A small server state: the users, and the login records made.\<close>

record login_memory =
  lm_users :: "ks_user list"
  lm_records :: "login_record list"

definition memory_tokens :: "login_memory token_env" where
  "memory_tokens = \<lparr>env_Now = (\<lambda>s. (1000, s)), env_SendLogout = (\<lambda>s. s), cache_Keys = (\<lambda>p. auth_return []),
     cache_Set = (\<lambda>k v d. auth_return ()), cache_Del = (\<lambda>ks. auth_return ()), cache_Exists = (\<lambda>ks. auth_return True)\<rparr>"

definition has_labels :: "(string, string) gomap \<Rightarrow> ks_user \<Rightarrow> bool" where
  "has_labels sel user = list_all (\<lambda>(k, v). map_of (ku_Labels user) k = Some v) sel"

definition memory_login :: "login_memory login_env" where
  "memory_login =
     \<lparr>le_tokens = memory_tokens,
      users_Get = (\<lambda>name s. case find (\<lambda>u. ku_Name u = name) (lm_users s) of Some u \<Rightarrow> Inr u | None \<Rightarrow> Inl (ApiNotFound name)),
      users_List = (\<lambda>sel s. Inr (filter (has_labels sel) (lm_users s))),
      users_Create = (\<lambda>u s. (Inr u, s\<lparr>lm_users := lm_users s @ [u]\<rparr>)),
      records_Create = (\<lambda>r s. (Inr (), s\<lparr>lm_records := r # lm_records s\<rparr>)),
      le_SetLoginUserName = (\<lambda>n b s. s), mail_ParseAddress = (\<lambda>n. CHR ''@'' \<in> set n),
      bcrypt_Compare = (\<lambda>hash password. hash = ''$2a$'' @ password),
      http_BasicAuth = (\<lambda>h. if h = ''Basic bob:pw'' then Some (''bob'', ''pw'') else None)\<rparr>"

definition sample_account :: "string \<Rightarrow> ks_user" where
  "sample_account state =
     \<lparr>ku_Name = ''bob'', ku_Labels = [(IdentifyProviderLabel, ''ldap''), (OriginUIDLabel, ''7'')], ku_Annotations = [],
      ku_Finalizers = [], ku_Deleting = False, ku_Email = ''bob@x'', ku_Lang = [], ku_Description = [], ku_DisplayName = [], ku_Groups = [''dev''],
      ku_EncryptedPassword = ''$2a$pw'', ku_Status = no_status\<lparr>us_State := state\<rparr>\<rparr>"

definition login_sample :: "string \<Rightarrow> login_memory" where
  "login_sample state = \<lparr>lm_users = [sample_account state], lm_records = []\<rparr>"

definition no_providers :: "'e providers" where
  "no_providers = \<lparr>pr_oauth = [], pr_generic = []\<rparr>"

lemma sample_login:
  "password_Authenticate memory_login no_providers [] ''bob@x'' ''pw'' (login_sample UserActive) =
     ((Inr (account_user (sample_account UserActive)), []), login_sample UserActive)"
  by (simp add: password_Authenticate_def local_account_def findUser_def memory_login_def login_sample_def has_labels_def
      PasswordVerify_def account_user_def sample_account_def no_status_def Let_def)

theorem password_login_sound_witness:
  "\<exists>acc. password_matches memory_login ''bob@x'' ''pw'' (login_sample UserActive) acc \<and>
         account_user (sample_account UserActive) = account_user acc"
  using password_login_sound [OF sample_login] by simp

text \<open>Accounts that are not active do not get in with their password.\<close>

lemma password_matches_active: "password_matches env username password s acc \<Longrightarrow> ku_State acc = UserActive"
  by (simp add: password_matches_def)












definition sample_server :: "login_memory providers \<Rightarrow> identity_provider_options list \<Rightarrow> login_memory auth_server" where
  "sample_server pr opts = \<lparr>as_env = memory_login, as_operator = sample_operator AccessToken, as_providers = pr,
     as_IdentityProviders = opts\<rparr>"

definition basic_request :: http_request where
  "basic_request = \<lparr>Method = ''GET'', URL_Path = ''/apis'', URL_Query = [], RemoteAddr = [],
     Header = [(''Authorization'', ''Basic bob:pw'')], User_Agent = []\<rparr>"

lemma basic_request_header: "TrimSpace (authorization_header basic_request) = ''Basic bob:pw''"
  by code_simp

lemma basic_request_credentials:
  "http_BasicAuth memory_login (authorization_header basic_request) = Some (''bob'', ''pw'')"
  by code_simp


text \<open>With credentials of the basic kind the chain is decided by the password authenticator.\<close>

lemma WithAuthentication_basic:
  assumes "TrimSpace (authorization_header req) \<noteq> []"
    and "http_BasicAuth (as_env srv) (authorization_header req) = Some (username, password)"
    and "password_Authenticate (as_env srv) (as_providers srv) (as_IdentityProviders srv) username password s = ((Inr b, provider), s')"
  shows "WithAuthentication srv info req s =
           (ServeAs \<lparr>u_Name = u_Name b, u_Groups = u_Groups b @ [AllAuthenticated], u_Extra = []\<rparr>, s')"
proof -
  have "basic_AuthenticateRequest srv info req s =
      (Inr (Some \<lparr>u_Name = u_Name b, u_Groups = u_Groups b @ [AllAuthenticated], u_Extra = []\<rparr>), s')"
    using assms(2,3) by (simp add: basic_AuthenticateRequest_def auth_bind_def auth_case_def AuthenticatePassword_def auth_simps)
  moreover have "anonymous_AuthenticateRequest req s = (Inr None, s)"
    using assms(1) by (simp add: anonymous_AuthenticateRequest_def)
  ultimately show ?thesis by (simp add: WithAuthentication_def authenticators_def)
qed


text \<open>
  the account behind an identity of a password provider is not asked for its state: a disabled account
  that is linked to the provider is still served with basic credentials the provider accepts.
\<close>
theorem disabled_linked_account_served:
  assumes "TrimSpace (authorization_header req) \<noteq> []"
    and "http_BasicAuth (as_env srv) (authorization_header req) = Some (username, password)"
    and "username \<noteq> []" "password \<noteq> []" "username \<noteq> ''admin''"
    and "as_IdentityProviders srv = opt # opts"
    and "GetGenericProvider (as_providers srv) (ip_Name opt) = Inr authenticate"
    and "authenticate username password s = (Inr ident, s')"
    and "findMappedUser (as_env srv) (ip_Name opt) (id_UserID ident) s' = Inr acc" and "ku_State acc = UserDisabled"
  shows "WithAuthentication srv info req s =
           (ServeAs \<lparr>u_Name = ku_Name acc, u_Groups = [AllAuthenticated], u_Extra = []\<rparr>, s')"
  using WithAuthentication_basic [OF assms(1,2), of s "named_user (ku_Name acc)" "ip_Name opt" s' info] assms(3-9)
  by (simp add: password_Authenticate_def named_user_def)

definition ldap_options :: identity_provider_options where
  "ldap_options = \<lparr>ip_Name = ''ldap'', ip_MappingMethod = ''lookup'', ip_DisableLoginConfirmation = False, ip_Type = ''LDAPIdentityProvider''\<rparr>"

definition ldap_authenticate :: "'e generic_provider" where
  "ldap_authenticate username password = auth_return \<lparr>id_UserID = ''7'', id_Username = username, id_Email = []\<rparr>"

definition ldap_providers :: "'e providers" where
  "ldap_providers = \<lparr>pr_oauth = [], pr_generic = [(''ldap'', ldap_authenticate)]\<rparr>"

lemma sample_linked:
  "findMappedUser memory_login ''ldap'' ''7'' (login_sample UserDisabled) = Inr (sample_account UserDisabled)"
  by (simp add: findMappedUser_def memory_login_def login_sample_def has_labels_def sample_account_def
      IdentifyProviderLabel_def OriginUIDLabel_def)

theorem disabled_linked_account_served_witness:
  "\<forall>info. WithAuthentication (sample_server ldap_providers [ldap_options]) info basic_request (login_sample UserDisabled) =
     (ServeAs \<lparr>u_Name = ''bob'', u_Groups = [AllAuthenticated], u_Extra = []\<rparr>, login_sample UserDisabled)"
  using disabled_linked_account_served [of basic_request "sample_server ldap_providers [ldap_options]" "''bob''" "''pw''"
      ldap_options "[]" ldap_authenticate "login_sample UserDisabled"
      "\<lparr>id_UserID = ''7'', id_Username = ''bob'', id_Email = []\<rparr>" "login_sample UserDisabled" "sample_account UserDisabled"]
    basic_request_header basic_request_credentials sample_linked
  by (simp add: sample_server_def ldap_providers_def ldap_options_def ldap_authenticate_def GetGenericProvider_def
      sample_account_def no_status_def auth_simps)

end
