(* ===== verification/Rbac.thy ===== *)
theory Rbac
  imports Authorizer
begin

text \<open>
  The role-based authorizer of \<^verbatim>\<open>pkg/apiserver/authorization/rbac\<close>: matching one policy rule
  against the attributes of a request (\<^verbatim>\<open>evaluation_helpers.go\<close>), the visitor that walks the role
  bindings applying to the request's scope, and the decision (\<^verbatim>\<open>rbac.go\<close>).

  The access management interface the authorizer calls is an argument, a record \<open>am\<close> of its
  operations (theory \<open>Access_Management\<close> provides the implementation); the Rego engine is a
  parameter: given a policy and the attributes it returns, unless preparing or evaluating fails,
  for every result whether its first expression is \<^const>\<open>True\<close>.
\<close>

section \<open>Rules, subjects and bindings\<close>

record policy_rule =
  Verbs :: "string list"
  APIGroups :: "string list"
  Resources :: "string list"
  ResourceNames :: "string list"
  NonResourceURLs :: "string list"

record subject =
  s_Kind :: string
  s_Name :: string
  s_Namespace :: string

record role_ref =
  rr_Kind :: string
  rr_Name :: string

record role_binding =
  b_Name :: string
  b_GenerateName :: string
  b_Namespace :: string
  b_Labels :: "(string, string) gomap"
  b_Subjects :: "subject list"
  b_RoleRef :: role_ref

abbreviation UserKind :: string where "UserKind \<equiv> ''User''"
abbreviation GroupKind :: string where "GroupKind \<equiv> ''Group''"
abbreviation ServiceAccountKind :: string where "ServiceAccountKind \<equiv> ''ServiceAccount''"

record am_interface =
  ListGlobalRoleBindings :: "string \<Rightarrow> (string, role_binding list) result"
  ListWorkspaceRoleBindings :: "string \<Rightarrow> string list \<Rightarrow> string \<Rightarrow> (string, role_binding list) result"
  ListRoleBindings :: "string \<Rightarrow> string list \<Rightarrow> string \<Rightarrow> (string, role_binding list) result"
  ListClusterRoleBindings :: "string \<Rightarrow> (string, role_binding list) result"
  GetRoleReferenceRules :: "role_ref \<Rightarrow> string \<Rightarrow> (string, string \<times> policy_rule list) result"
  GetNamespaceControlledWorkspace :: "string \<Rightarrow> (string, string) result"
  GetDevOpsControlledWorkspace :: "string \<Rightarrow> (string, string) result"
  GetDevOpsRelatedNamespace :: "string \<Rightarrow> (string, string) result"

type_synonym rego_engine = "string \<Rightarrow> attributes \<Rightarrow> (string, bool list) result"

section \<open>Matching a rule\<close>

fun VerbMatches_loop :: "string list \<Rightarrow> string \<Rightarrow> bool" where
  "VerbMatches_loop [] v = False"
| "VerbMatches_loop (r # rs) v = (if r = ''*'' then True else if r = v then True else VerbMatches_loop rs v)"

definition VerbMatches :: "policy_rule \<Rightarrow> string \<Rightarrow> bool" where
  "VerbMatches rule v = VerbMatches_loop (Verbs rule) v"

definition APIGroupMatches :: "policy_rule \<Rightarrow> string \<Rightarrow> bool" where
  "APIGroupMatches rule g = VerbMatches_loop (APIGroups rule) g"

fun ResourceMatches_loop :: "string list \<Rightarrow> string \<Rightarrow> string \<Rightarrow> bool" where
  "ResourceMatches_loop [] comb sub = False"
| "ResourceMatches_loop (r # rs) comb sub =
     (if r = ''*'' then True
      else if r = comb then True
      else if length sub = 0 then ResourceMatches_loop rs comb sub
      else if length r = length sub + 2 \<and> HasPrefix r ''*/'' \<and> HasSuffix r sub then True
      else ResourceMatches_loop rs comb sub)"

definition ResourceMatches :: "policy_rule \<Rightarrow> string \<Rightarrow> string \<Rightarrow> bool" where
  "ResourceMatches rule comb sub = ResourceMatches_loop (Resources rule) comb sub"

definition HasString :: "string list \<Rightarrow> string \<Rightarrow> bool" where
  "HasString xs str = list_ex (\<lambda>s. s = str) xs"

definition ResourceNameMatches :: "policy_rule \<Rightarrow> string \<Rightarrow> bool" where
  "ResourceNameMatches rule name =
     (if length (ResourceNames rule) = 0 then True else HasString (ResourceNames rule) name)"

definition NonResourceURLMatches :: "policy_rule \<Rightarrow> string \<Rightarrow> bool" where
  "NonResourceURLMatches rule url =
     list_ex (\<lambda>r. r = ''*'' \<or> r = url \<or>
                  (HasSuffix r ''*'' \<and> HasPrefix url (TrimRightChar CHR ''*'' r)))
       (NonResourceURLs rule)"

definition ruleAllows :: "attributes \<Rightarrow> policy_rule \<Rightarrow> bool" where
  "ruleAllows a rule =
     (if a_ResourceRequest a then
        (let comb = (if length (a_Subresource a) > 0
                     then a_Resource a @ ''/'' @ a_Subresource a else a_Resource a)
         in VerbMatches rule (a_Verb a) \<and> APIGroupMatches rule (a_APIGroup a) \<and>
            ResourceMatches rule comb (a_Subresource a) \<and> ResourceNameMatches rule (a_Name a))
      else VerbMatches rule (a_Verb a) \<and> NonResourceURLMatches rule (a_Path a))"

definition regoPolicyAllows :: "rego_engine \<Rightarrow> attributes \<Rightarrow> string \<Rightarrow> bool" where
  "regoPolicyAllows rego a policy =
     (case rego policy a of Inl e \<Rightarrow> False | Inr [] \<Rightarrow> False | Inr (v # _) \<Rightarrow> v)"

section \<open>Subjects\<close>

text \<open>\<^verbatim>\<open>serviceaccount.MatchesUsername\<close> of the vendored Kubernetes API server library.\<close>

definition ServiceAccountUsernamePrefix :: string where
  "ServiceAccountUsernamePrefix = ''system:serviceaccount:''"

definition ServiceAccountUsernameSeparator :: string where
  "ServiceAccountUsernameSeparator = '':''"

definition MakeUsername :: "string \<Rightarrow> string \<Rightarrow> string" where
  "MakeUsername ns name =
     ServiceAccountUsernamePrefix @ ns @ ServiceAccountUsernameSeparator @ name"

definition MatchesUsername :: "string \<Rightarrow> string \<Rightarrow> string \<Rightarrow> bool" where
  "MatchesUsername ns name username =
     (if \<not> HasPrefix username ServiceAccountUsernamePrefix then False
      else
        (let u1 = drop (length ServiceAccountUsernamePrefix) username in
         if \<not> HasPrefix u1 ns then False
         else
           (let u2 = drop (length ns) u1 in
            if \<not> HasPrefix u2 ServiceAccountUsernameSeparator then False
            else drop (length ServiceAccountUsernameSeparator) u2 = name)))"

definition appliesToUser :: "user_info \<Rightarrow> subject \<Rightarrow> string \<Rightarrow> bool" where
  "appliesToUser user subj namespace =
     (if s_Kind subj = UserKind then u_Name user = s_Name subj
      else if s_Kind subj = GroupKind then HasString (u_Groups user) (s_Name subj)
      else if s_Kind subj = ServiceAccountKind then
        (let saNamespace = (if length (s_Namespace subj) > 0 then s_Namespace subj else namespace)
         in if length saNamespace = 0 then False
            else MatchesUsername saNamespace (s_Name subj) (u_Name user))
      else False)"

fun appliesTo :: "user_info \<Rightarrow> subject list \<Rightarrow> string \<Rightarrow> subject option" where
  "appliesTo user [] namespace = None"
| "appliesTo user (s # ss) namespace =
     (if appliesToUser user s namespace then Some s else appliesTo user ss namespace)"

section \<open>Visiting the rules\<close>

text \<open>
  The sources handed to a visitor describe the binding and the subject that applied. The text of
  \<^verbatim>\<open>%q\<close> is the string in double quotes, with quotes and backslashes escaped.
\<close>

datatype binding_kind = GlobalRB | WorkspaceRB | NamespaceRB | ClusterRB

record source =
  src_kind :: binding_kind
  src_binding :: role_binding
  src_subject :: subject

definition quoted :: "string \<Rightarrow> string" where
  "quoted s =
     [CHR 0x22] @ concat (map (\<lambda>c. if c = CHR 0x22 \<or> c = CHR 0x5C then [CHR 0x5C, c] else [c]) s) @ [CHR 0x22]"

definition describeSubject :: "subject \<Rightarrow> string \<Rightarrow> string" where
  "describeSubject s bindingNamespace =
     (if s_Kind s = ServiceAccountKind then
        (if length (s_Namespace s) > 0
         then s_Kind s @ '' '' @ quoted (s_Name s @ ''/'' @ s_Namespace s)
         else s_Kind s @ '' '' @ quoted (s_Name s @ ''/'' @ bindingNamespace))
      else s_Kind s @ '' '' @ quoted (s_Name s))"

definition source_String :: "source \<Rightarrow> string" where
  "source_String src =
     (let b = src_binding src;
          tail = '' of '' @ rr_Kind (b_RoleRef b) @ '' '' @ quoted (rr_Name (b_RoleRef b)) @ '' to ''
      in case src_kind src of
           GlobalRB \<Rightarrow> ''GlobalRoleBinding '' @ quoted (b_Name b) @ tail @ describeSubject (src_subject src) []
         | WorkspaceRB \<Rightarrow> ''GlobalRoleBinding '' @ quoted (b_Name b) @ tail @ describeSubject (src_subject src) []
         | ClusterRB \<Rightarrow> ''ClusterRoleBinding '' @ quoted (b_Name b) @ tail @ describeSubject (src_subject src) []
         | NamespaceRB \<Rightarrow> ''RoleBinding '' @ quoted (b_Name b @ ''/'' @ b_Namespace b) @ tail
             @ describeSubject (src_subject src) (b_Namespace b))"

text \<open>
  A visitor is called with a source, a Rego policy, a rule and an error, any of which may be
  absent; it updates its own state and says whether to go on.
\<close>

type_synonym 's visitor =
  "source option \<Rightarrow> string \<Rightarrow> policy_rule option \<Rightarrow> string option \<Rightarrow> 's \<Rightarrow> 's \<times> bool"

definition and_then :: "'s \<times> bool \<Rightarrow> ('s \<Rightarrow> 's \<times> bool) \<Rightarrow> 's \<times> bool" where
  "and_then x f = (if snd x then f (fst x) else x)"

fun visit_rules :: "'s visitor \<Rightarrow> source \<Rightarrow> policy_rule list \<Rightarrow> 's \<Rightarrow> 's \<times> bool" where
  "visit_rules visitor src [] s = (s, True)"
| "visit_rules visitor src (r # rs) s =
     and_then (visitor (Some src) [] (Some r) None s) (visit_rules visitor src rs)"

fun visit_bindings ::
  "am_interface \<Rightarrow> user_info \<Rightarrow> 's visitor \<Rightarrow> binding_kind \<Rightarrow> string \<Rightarrow> role_binding list \<Rightarrow> 's \<Rightarrow>
   's \<times> bool" where
  "visit_bindings am user visitor kind namespace [] s = (s, True)"
| "visit_bindings am user visitor kind namespace (b # bs) s =
     (case appliesTo user (b_Subjects b) namespace of
        None \<Rightarrow> visit_bindings am user visitor kind namespace bs s
      | Some subj \<Rightarrow>
          (case GetRoleReferenceRules am (b_RoleRef b) namespace of
             Inl err \<Rightarrow>
               visit_bindings am user visitor kind namespace bs (fst (visitor None [] None (Some err) s))
           | Inr (policy, rules) \<Rightarrow>
               (let src = \<lparr>src_kind = kind, src_binding = b, src_subject = subj\<rparr> in
                and_then (and_then (visitor (Some src) policy None None s)
                            (visit_rules visitor src rules))
                  (visit_bindings am user visitor kind namespace bs))))"

text \<open>Listing the bindings of one kind and visiting them, or visiting the listing error.\<close>

definition visit_listed ::
  "am_interface \<Rightarrow> user_info \<Rightarrow> 's visitor \<Rightarrow> binding_kind \<Rightarrow> string \<Rightarrow>
   (string, role_binding list) result \<Rightarrow> 's \<Rightarrow> 's \<times> bool" where
  "visit_listed am user visitor kind namespace listed s =
     (case listed of
        Inl err \<Rightarrow> visitor None [] None (Some err) s
      | Inr bs \<Rightarrow> visit_bindings am user visitor kind namespace bs s)"

text \<open>
  The workspace whose bindings apply: the one controlling the namespace or DevOps project, and the
  one named in the request when there is none.
\<close>

definition visit_workspace ::
  "am_interface \<Rightarrow> attributes \<Rightarrow> 's visitor \<Rightarrow> 's \<Rightarrow> ('s \<times> bool) \<times> string" where
  "visit_workspace am a visitor s =
     (let (x, workspace) =
        (if a_ResourceScope a = NamespaceScope then
           (case GetNamespaceControlledWorkspace am (a_Namespace a) of
              Inl err \<Rightarrow> (visitor None [] None (Some err) s, [])
            | Inr w \<Rightarrow> ((s, True), w))
         else if a_ResourceScope a = DevOpsScope then
           (case GetDevOpsControlledWorkspace am (a_DevOps a) of
              Inl err \<Rightarrow> (visitor None [] None (Some err) s, [])
            | Inr w \<Rightarrow> ((s, True), w))
         else ((s, True), []))
      in (x, if workspace = [] then a_Workspace a else workspace))"

definition visit_namespace ::
  "am_interface \<Rightarrow> attributes \<Rightarrow> 's visitor \<Rightarrow> 's \<Rightarrow> ('s \<times> bool) \<times> string" where
  "visit_namespace am a visitor s =
     (if a_ResourceScope a = DevOpsScope then
        (case GetDevOpsRelatedNamespace am (a_DevOps a) of
           Inl err \<Rightarrow> (visitor None [] None (Some err) s, a_Namespace a)
         | Inr n \<Rightarrow> ((s, True), n))
      else ((s, True), a_Namespace a))"

definition visitRulesFor :: "am_interface \<Rightarrow> attributes \<Rightarrow> 's visitor \<Rightarrow> 's \<Rightarrow> 's \<times> bool" where
  "visitRulesFor am a visitor s0 =
     (let user = a_User a; scope = a_ResourceScope a;
          globals = ListGlobalRoleBindings am []
      in and_then (visit_listed am user visitor GlobalRB [] globals s0) (\<lambda>s1.
           if isl globals = False \<and> scope = GlobalScope then (s1, False)
           else
             and_then
               (if scope = WorkspaceScope \<or> scope = NamespaceScope \<or> scope = DevOpsScope then
                  (let (x, workspace) = visit_workspace am a visitor s1 in
                   and_then x (visit_listed am user visitor WorkspaceRB []
                                 (ListWorkspaceRoleBindings am [] [] workspace)))
                else (s1, True)) (\<lambda>s2.
             and_then
               (if scope = NamespaceScope \<or> scope = DevOpsScope then
                  (let (x, namespace) = visit_namespace am a visitor s2 in
                   and_then x (visit_listed am user visitor NamespaceRB namespace
                                 (ListRoleBindings am [] [] namespace)))
                else (s2, True))
               (visit_listed am user visitor ClusterRB [] (ListClusterRoleBindings am [])))))"

section \<open>The two visitors and the authorizer\<close>

record authz_state =
  v_allowed :: bool
  v_reason :: string
  v_errors :: "string list"

definition authorizing_visit :: "rego_engine \<Rightarrow> attributes \<Rightarrow> authz_state visitor" where
  "authorizing_visit rego a source policy rule err v =
     (let allow = (v\<lparr>v_allowed := True,
             v_reason := ''RBAC: allowed by '' @ (case source of None \<Rightarrow> [] | Some s \<Rightarrow> source_String s)\<rparr>,
             False)
      in if policy \<noteq> [] \<and> regoPolicyAllows rego a policy then allow
         else if (case rule of None \<Rightarrow> False | Some r \<Rightarrow> ruleAllows a r) then allow
         else (case err of None \<Rightarrow> (v, True) | Some e \<Rightarrow> (v\<lparr>v_errors := v_errors v @ [e]\<rparr>, True)))"

record rule_accumulator =
  ra_rules :: "policy_rule list"
  ra_errors :: "string list"

definition accumulating_visit :: "rule_accumulator visitor" where
  "accumulating_visit source policy rule err r =
     (let r1 = (case rule of None \<Rightarrow> r | Some x \<Rightarrow> r\<lparr>ra_rules := ra_rules r @ [x]\<rparr>);
          r2 = (case err of None \<Rightarrow> r1 | Some e \<Rightarrow> r1\<lparr>ra_errors := ra_errors r1 @ [e]\<rparr>)
      in (r2, True))"

definition Authorize :: "rego_engine \<Rightarrow> am_interface \<Rightarrow> authorizer" where
  "Authorize rego am a =
     (let v = fst (visitRulesFor am a (authorizing_visit rego a)
                     \<lparr>v_allowed = False, v_reason = [], v_errors = []\<rparr>)
      in if v_allowed v then (DecisionAllow, v_reason v, None)
         else (DecisionNoOpinion,
               (case NewAggregate (v_errors v) of None \<Rightarrow> [] | Some m \<Rightarrow> ''RBAC: '' @ m), None))"

definition rulesFor :: "am_interface \<Rightarrow> attributes \<Rightarrow> policy_rule list \<times> string option" where
  "rulesFor am a =
     (let r = fst (visitRulesFor am a accumulating_visit \<lparr>ra_rules = [], ra_errors = []\<rparr>)
      in (ra_rules r, NewAggregate (ra_errors r)))"

section \<open>What a rule and a subject mean\<close>

lemma VerbMatches_loop_iff: "VerbMatches_loop rs v \<longleftrightarrow> ''*'' \<in> set rs \<or> v \<in> set rs"
  by (induction rs) auto

lemma star_slash_iff:
  "length r = Suc (Suc (length sub)) \<and> HasPrefix r ''*/'' \<and> HasSuffix r sub \<longleftrightarrow>
   r = CHR ''*'' # CHR ''/'' # sub"
proof
  assume l: "length r = Suc (Suc (length sub)) \<and> HasPrefix r ''*/'' \<and> HasSuffix r sub"
  then obtain zs where z: "r = ''*/'' @ zs" by (auto simp: HasPrefix_def prefix_def)
  obtain ys where y: "r = ys @ sub" using l by (auto simp: HasSuffix_def suffix_def)
  moreover have "length zs = length sub" using l z by simp
  ultimately show "r = CHR ''*'' # CHR ''/'' # sub"
    using z append_eq_append_conv [of "''*/''" ys zs sub] by auto
qed (auto simp: HasPrefix_def HasSuffix_def suffix_def)

lemma ResourceMatches_loop_iff:
  "ResourceMatches_loop rs comb sub \<longleftrightarrow>
     ''*'' \<in> set rs \<or> comb \<in> set rs \<or> (sub \<noteq> [] \<and> ''*/'' @ sub \<in> set rs)"
proof (induction rs)
  case (Cons r rs)
  then show ?case using star_slash_iff [of r sub] by auto
qed simp

lemma HasString_iff [simp]: "HasString xs x \<longleftrightarrow> x \<in> set xs"
  by (auto simp: HasString_def list_ex_iff)

lemmas rule_match_iff =
  VerbMatches_def APIGroupMatches_def ResourceMatches_def ResourceNameMatches_def
  VerbMatches_loop_iff ResourceMatches_loop_iff

text \<open>
  A rule allows a resource request exactly when its verbs, its API groups and its resource names
  admit the request (by wildcard, by name, or, for names, by an empty list) and its resources contain
  the wildcard, the combined \<^verbatim>\<open>resource/subresource\<close>, or the pattern \<^verbatim>\<open>*/subresource\<close>; the
  length, prefix and suffix tests of the code decide that last form exactly.
\<close>

theorem ruleAllows_resource_iff:
  "ruleAllows (a\<lparr>a_ResourceRequest := True\<rparr>) rule \<longleftrightarrow>
     (''*'' \<in> set (Verbs rule) \<or> a_Verb a \<in> set (Verbs rule)) \<and>
     (''*'' \<in> set (APIGroups rule) \<or> a_APIGroup a \<in> set (APIGroups rule)) \<and>
     (ResourceNames rule = [] \<or> a_Name a \<in> set (ResourceNames rule)) \<and>
     (''*'' \<in> set (Resources rule) \<or>
      (if a_Subresource a = [] then a_Resource a \<in> set (Resources rule)
       else a_Resource a @ ''/'' @ a_Subresource a \<in> set (Resources rule) \<or>
            ''*/'' @ a_Subresource a \<in> set (Resources rule)))"
  by (auto simp: ruleAllows_def rule_match_iff Let_def)

text \<open>
  The allocation-free comparison of a user name with a service account agrees with comparing
  against the constructed name \<^verbatim>\<open>system:serviceaccount:<namespace>:<name>\<close>.
\<close>

theorem MatchesUsername_iff: "MatchesUsername ns name username \<longleftrightarrow> username = MakeUsername ns name"
  by (auto simp: MatchesUsername_def MakeUsername_def Let_def HasPrefix_def elim!: prefixE
      split: if_splits)

lemma appliesTo_None_iff:
  "appliesTo user ss ns = None \<longleftrightarrow> (\<forall>s \<in> set ss. \<not> appliesToUser user s ns)"
  by (induction ss) auto

section \<open>The visited roles\<close>

text \<open>
  The roles a request is checked against, in the order of the walk: the policy and the rules of the
  role of every binding that applies to the user and whose role could be resolved.
\<close>

fun roles_of ::
  "am_interface \<Rightarrow> user_info \<Rightarrow> string \<Rightarrow> role_binding list \<Rightarrow> (string \<times> policy_rule list) list" where
  "roles_of am user ns [] = []"
| "roles_of am user ns (b # bs) =
     (case (appliesTo user (b_Subjects b) ns, GetRoleReferenceRules am (b_RoleRef b) ns) of
        (Some s, Inr role) \<Rightarrow> role # roles_of am user ns bs
      | _ \<Rightarrow> roles_of am user ns bs)"

definition listed_roles ::
  "am_interface \<Rightarrow> user_info \<Rightarrow> string \<Rightarrow> (string, role_binding list) result \<Rightarrow>
   (string \<times> policy_rule list) list" where
  "listed_roles am user ns listed = (case listed of Inl e \<Rightarrow> [] | Inr bs \<Rightarrow> roles_of am user ns bs)"

definition effective_workspace :: "am_interface \<Rightarrow> attributes \<Rightarrow> string" where
  "effective_workspace am a =
     (let w = (if a_ResourceScope a = NamespaceScope
               then (case GetNamespaceControlledWorkspace am (a_Namespace a) of Inl _ \<Rightarrow> [] | Inr w \<Rightarrow> w)
               else if a_ResourceScope a = DevOpsScope
               then (case GetDevOpsControlledWorkspace am (a_DevOps a) of Inl _ \<Rightarrow> [] | Inr w \<Rightarrow> w)
               else [])
      in if w = [] then a_Workspace a else w)"

definition effective_namespace :: "am_interface \<Rightarrow> attributes \<Rightarrow> string" where
  "effective_namespace am a =
     (if a_ResourceScope a = DevOpsScope
      then (case GetDevOpsRelatedNamespace am (a_DevOps a) of Inl _ \<Rightarrow> a_Namespace a | Inr n \<Rightarrow> n)
      else a_Namespace a)"

definition applicable_roles :: "am_interface \<Rightarrow> attributes \<Rightarrow> (string \<times> policy_rule list) list" where
  "applicable_roles am a =
     (let user = a_User a; scope = a_ResourceScope a; globals = ListGlobalRoleBindings am [] in
      listed_roles am user [] globals @
      (if \<not> isl globals \<and> scope = GlobalScope then []
       else
         (if scope = WorkspaceScope \<or> scope = NamespaceScope \<or> scope = DevOpsScope
          then listed_roles am user [] (ListWorkspaceRoleBindings am [] [] (effective_workspace am a))
          else []) @
         (if scope = NamespaceScope \<or> scope = DevOpsScope
          then listed_roles am user (effective_namespace am a)
                 (ListRoleBindings am [] [] (effective_namespace am a))
          else []) @
         listed_roles am user [] (ListClusterRoleBindings am [])))"

subsection \<open>The contract of a visitor\<close>

text \<open>
  A visitor stops the walk at the first policy or rule it fires on and never on an error; the walk
  therefore stops exactly when it fires on one of the applicable roles.
\<close>

locale rule_visitor =
  fixes visitor :: "'s visitor"
    and stopped :: "'s \<Rightarrow> bool"
    and fires :: "string \<Rightarrow> policy_rule option \<Rightarrow> bool"
  assumes visit_stops: "\<not> stopped s \<Longrightarrow>
      stopped (fst (visitor src policy rule err s)) = fires policy rule \<and>
      snd (visitor src policy rule err s) = (\<not> fires policy rule)"
    and quiet: "\<not> fires [] None"
begin

definition fires_on :: "(string \<times> policy_rule list) list \<Rightarrow> bool" where
  "fires_on roles \<longleftrightarrow> (\<exists>(p, rs) \<in> set roles. fires p None \<or> (\<exists>r \<in> set rs. fires [] (Some r)))"

definition decides :: "'s \<times> bool \<Rightarrow> bool \<Rightarrow> bool" where
  "decides x g \<longleftrightarrow> stopped (fst x) = g \<and> snd x = (\<not> g)"

lemma decides_and_then:
  assumes "decides x g" and "\<And>s. \<not> stopped s \<Longrightarrow> decides (f s) h"
  shows "decides (and_then x f) (g \<or> h)"
  using assms by (auto simp: decides_def and_then_def)

lemma decides_visit: "\<not> stopped s \<Longrightarrow> decides (visitor src policy rule err s) (fires policy rule)"
  using visit_stops by (simp add: decides_def)

lemma decides_skip: "\<not> stopped s \<Longrightarrow> decides (s, True) False"
  by (simp add: decides_def)

lemma decides_error: "\<not> stopped s \<Longrightarrow> decides (visitor None [] None (Some e) s) False"
  using decides_visit [of s None "[]" None "Some e"] quiet by (simp add: decides_def)

lemma error_not_stopped: "\<not> stopped s \<Longrightarrow> \<not> stopped (fst (visitor None [] None (Some e) s))"
  using decides_error [of s e] by (simp add: decides_def)

lemma decides_rules: "\<not> stopped s \<Longrightarrow> decides (visit_rules visitor src rs s) (\<exists>r \<in> set rs. fires [] (Some r))"
proof (induction rs arbitrary: s)
  case (Cons r rs)
  from decides_and_then [OF decides_visit Cons.IH, OF Cons.prems]
  show ?case by simp
qed (simp add: decides_skip)

lemma decides_bindings:
  "\<not> stopped s \<Longrightarrow> decides (visit_bindings am user visitor k ns bs s) (fires_on (roles_of am user ns bs))"
proof (induction bs arbitrary: s)
  case Nil
  then show ?case by (simp add: fires_on_def decides_skip)
next
  case (Cons b bs)
  show ?case
  proof (cases "appliesTo user (b_Subjects b) ns")
    case None
    with Cons show ?thesis by simp
  next
    case (Some subj)
    show ?thesis
    proof (cases "GetRoleReferenceRules am (b_RoleRef b) ns")
      case (Inl e)
      with Some Cons.IH [OF error_not_stopped [OF Cons.prems]] show ?thesis by simp
    next
      case (Inr role)
      let ?src = "\<lparr>src_kind = k, src_binding = b, src_subject = subj\<rparr>"
      have "decides (and_then (and_then (visitor (Some ?src) (fst role) None None s)
                (visit_rules visitor ?src (snd role))) (visit_bindings am user visitor k ns bs))
              ((fires (fst role) None \<or> (\<exists>r \<in> set (snd role). fires [] (Some r))) \<or>
               fires_on (roles_of am user ns bs))"
        by (intro decides_and_then decides_visit decides_rules Cons)
      with Some Inr show ?thesis
        by (cases role) (simp add: Let_def fires_on_def)
    qed
  qed
qed

lemma decides_listed:
  "\<not> stopped s \<Longrightarrow> decides (visit_listed am user visitor k ns l s) (fires_on (listed_roles am user ns l))"
  by (cases l) (auto simp: visit_listed_def listed_roles_def fires_on_def decides_error decides_bindings
      [unfolded fires_on_def])

lemma visit_workspace_eq:
  "\<not> stopped s \<Longrightarrow> decides (fst (visit_workspace am a visitor s)) False \<and>
     snd (visit_workspace am a visitor s) = effective_workspace am a"
  by (auto simp: visit_workspace_def effective_workspace_def Let_def decides_skip decides_error
      split: sum.splits)

lemma visit_namespace_eq:
  "\<not> stopped s \<Longrightarrow> decides (fst (visit_namespace am a visitor s)) False \<and>
     snd (visit_namespace am a visitor s) = effective_namespace am a"
  by (auto simp: visit_namespace_def effective_namespace_def Let_def decides_skip decides_error
      split: sum.splits)

lemma fires_on_append [simp]: "fires_on (xs @ ys) \<longleftrightarrow> fires_on xs \<or> fires_on ys"
  by (auto simp: fires_on_def)

lemma fires_on_Nil [simp]: "\<not> fires_on []"
  by (simp add: fires_on_def)

lemma decides_workspace_part:
  assumes "\<not> stopped s"
  shows "decides (case visit_workspace am a visitor s of (x, w) \<Rightarrow>
            and_then x (visit_listed am user visitor WorkspaceRB [] (ListWorkspaceRoleBindings am [] [] w)))
          (fires_on (listed_roles am user [] (ListWorkspaceRoleBindings am [] [] (effective_workspace am a))))"
  using decides_and_then [OF _ decides_listed, of "fst (visit_workspace am a visitor s)" False]
    visit_workspace_eq [OF assms, of am a]
  by (simp add: case_prod_beta)

lemma decides_namespace_part:
  assumes "\<not> stopped s"
  shows "decides (case visit_namespace am a visitor s of (x, n) \<Rightarrow>
            and_then x (visit_listed am user visitor NamespaceRB n (ListRoleBindings am [] [] n)))
          (fires_on (listed_roles am user (effective_namespace am a)
             (ListRoleBindings am [] [] (effective_namespace am a))))"
  using decides_and_then [OF _ decides_listed, of "fst (visit_namespace am a visitor s)" False]
    visit_namespace_eq [OF assms, of am a]
  by (simp add: case_prod_beta)

lemma stopped_and_then:
  "decides x g \<Longrightarrow> (\<And>s. \<not> stopped s \<Longrightarrow> stopped (fst (f s)) = h) \<Longrightarrow>
   stopped (fst (and_then x f)) = (g \<or> h)"
  by (auto simp: decides_def and_then_def)

lemma stopped_visitRulesFor:
  assumes s: "\<not> stopped s"
  shows "stopped (fst (visitRulesFor am a visitor s)) = fires_on (applicable_roles am a)"
proof -
  let ?ws = "a_ResourceScope a = WorkspaceScope \<or> a_ResourceScope a = NamespaceScope \<or>
             a_ResourceScope a = DevOpsScope"
  let ?ns = "a_ResourceScope a = NamespaceScope \<or> a_ResourceScope a = DevOpsScope"
  let ?stop = "\<not> isl (ListGlobalRoleBindings am []) \<and> a_ResourceScope a = GlobalScope"
  have cluster: "stopped (fst (visit_listed am (a_User a) visitor ClusterRB [] (ListClusterRoleBindings am []) s)) =
      fires_on (listed_roles am (a_User a) [] (ListClusterRoleBindings am []))" if "\<not> stopped s" for s
    using decides_listed [OF that] by (simp add: decides_def)
  have nsd: "decides (if ?ns then (case visit_namespace am a visitor s of (x, n) \<Rightarrow>
            and_then x (visit_listed am (a_User a) visitor NamespaceRB n (ListRoleBindings am [] [] n)))
          else (s, True))
        (?ns \<and> fires_on (listed_roles am (a_User a) (effective_namespace am a)
             (ListRoleBindings am [] [] (effective_namespace am a))))" if "\<not> stopped s" for s
    using decides_namespace_part [OF that] decides_skip [OF that] by simp
  have wsd: "decides (if ?ws then (case visit_workspace am a visitor s of (x, w) \<Rightarrow>
            and_then x (visit_listed am (a_User a) visitor WorkspaceRB [] (ListWorkspaceRoleBindings am [] [] w)))
          else (s, True))
        (?ws \<and> fires_on (listed_roles am (a_User a) []
             (ListWorkspaceRoleBindings am [] [] (effective_workspace am a))))" if "\<not> stopped s" for s
    using decides_workspace_part [OF that] decides_skip [OF that] by simp
  note step = stopped_and_then [OF wsd stopped_and_then [OF nsd cluster]]
  show ?thesis
    unfolding visitRulesFor_def applicable_roles_def Let_def
    by (subst stopped_and_then [OF decides_listed [OF s]])
       (use step in \<open>auto simp: eq_commute [of "isl _"]\<close>)
qed

end

interpretation authorizing: rule_visitor "authorizing_visit rego a" v_allowed
  "\<lambda>policy rule. (policy \<noteq> [] \<and> regoPolicyAllows rego a policy) \<or>
     (case rule of None \<Rightarrow> False | Some r \<Rightarrow> ruleAllows a r)" for rego a
  by unfold_locales (auto simp: authorizing_visit_def Let_def split: option.splits)

interpretation accumulating: rule_visitor accumulating_visit "\<lambda>_. False" "\<lambda>_ _. False"
  by unfold_locales (simp_all add: accumulating_visit_def Let_def)

text \<open>A visitor that never fires and collects the rules it is shown.\<close>

locale collecting_visitor = rule_visitor visitor "\<lambda>_. False" "\<lambda>_ _. False"
  for visitor :: "'s visitor" +
  fixes collect :: "'s \<Rightarrow> policy_rule list"
  assumes visit_collects: "collect (fst (visitor src policy rule err s)) =
      collect s @ (case rule of None \<Rightarrow> [] | Some r \<Rightarrow> [r])"
begin

lemma visit_goes_on [simp]: "snd (visitor src policy rule err s)"
  using visit_stops by simp

lemma collect_rules:
  "snd (visit_rules visitor src rs s) \<and> collect (fst (visit_rules visitor src rs s)) = collect s @ rs"
  by (induction rs arbitrary: s) (auto simp: and_then_def visit_collects)

lemma collect_bindings:
  "snd (visit_bindings am user visitor k ns bs s) \<and>
   collect (fst (visit_bindings am user visitor k ns bs s)) =
     collect s @ concat (map snd (roles_of am user ns bs))"
proof (induction bs arbitrary: s)
  case (Cons b bs)
  then show ?case
    by (auto simp: and_then_def visit_collects collect_rules Let_def split: option.splits sum.splits)
qed simp

lemma collect_listed:
  "snd (visit_listed am user visitor k ns l s) \<and>
   collect (fst (visit_listed am user visitor k ns l s)) =
     collect s @ concat (map snd (listed_roles am user ns l))"
  by (cases l) (auto simp: visit_listed_def listed_roles_def visit_collects collect_bindings)

lemma collect_workspace:
  "snd (fst (visit_workspace am a visitor s)) \<and> collect (fst (fst (visit_workspace am a visitor s))) = collect s"
  by (auto simp: visit_workspace_def Let_def visit_collects split: sum.splits)

lemma collect_namespace:
  "snd (fst (visit_namespace am a visitor s)) \<and> collect (fst (fst (visit_namespace am a visitor s))) = collect s"
  by (auto simp: visit_namespace_def Let_def visit_collects split: sum.splits)

lemma collect_visitRulesFor:
  "collect (fst (visitRulesFor am a visitor s)) = collect s @ concat (map snd (applicable_roles am a))"
  using visit_workspace_eq visit_namespace_eq
  by (auto simp: visitRulesFor_def applicable_roles_def Let_def and_then_def case_prod_beta
      collect_listed collect_workspace collect_namespace)

end

interpretation collecting: collecting_visitor accumulating_visit ra_rules
  by unfold_locales (auto simp: accumulating_visit_def Let_def split: option.splits)

lemma Authorize_decision:
  "fst (Authorize rego am a) =
     (if \<exists>(policy, rules) \<in> set (applicable_roles am a).
           (policy \<noteq> [] \<and> regoPolicyAllows rego a policy) \<or> (\<exists>r \<in> set rules. ruleAllows a r)
      then DecisionAllow else DecisionNoOpinion)"
  using authorizing.stopped_visitRulesFor
    [where s = "\<lparr>v_allowed = False, v_reason = [], v_errors = []\<rparr>" and am = am and a = a]
  by (simp add: Authorize_def Let_def authorizing.fires_on_def)

lemma set_roles_of:
  "set (roles_of am user ns bs) =
     {role. \<exists>b \<in> set bs. appliesTo user (b_Subjects b) ns \<noteq> None \<and>
        GetRoleReferenceRules am (b_RoleRef b) ns = Inr role}"
  by (induction bs) (auto split: option.splits sum.splits)

text \<open>
  C1: The authorizer allows a request exactly when some role applicable to the request's scope has a
  Rego policy that accepts it or a rule that allows it; otherwise it has no opinion. It never denies
  and never reports an error of its own, whatever lookups fail.
\<close>

theorem Authorize_allows_iff:
  "fst (Authorize rego am a) =
     (if \<exists>(policy, rules) \<in> set (applicable_roles am a).
           (policy \<noteq> [] \<and> regoPolicyAllows rego a policy) \<or> (\<exists>r \<in> set rules. ruleAllows a r)
      then DecisionAllow else DecisionNoOpinion) \<and>
   snd (snd (Authorize rego am a)) = None"
  unfolding Authorize_decision by (simp add: Authorize_def Let_def)

text \<open>
  The rules reported for a request are exactly the rules of the roles the authorizer checks it
  against, in the order of the walk; so without Rego policies a request is allowed exactly when one
  of the reported rules allows it.
\<close>

theorem rulesFor_agrees_with_Authorize:
  "fst (rulesFor am a) = concat (map snd (applicable_roles am a)) \<and>
   ((\<exists>r \<in> set (fst (rulesFor am a)). ruleAllows a r) \<or>
    (\<exists>(policy, _) \<in> set (applicable_roles am a). policy \<noteq> [] \<and> regoPolicyAllows rego a policy)
      \<longleftrightarrow> fst (Authorize rego am a) = DecisionAllow)"
proof -
  have rules: "fst (rulesFor am a) = concat (map snd (applicable_roles am a))"
    using collecting.collect_visitRulesFor [of am a "\<lparr>ra_rules = [], ra_errors = []\<rparr>"]
    by (simp add: rulesFor_def Let_def)
  have allow: "fst (Authorize rego am a) = DecisionAllow \<longleftrightarrow>
      (\<exists>(policy, rules) \<in> set (applicable_roles am a).
        (policy \<noteq> [] \<and> regoPolicyAllows rego a policy) \<or> (\<exists>r \<in> set rules. ruleAllows a r))"
    by (simp add: Authorize_decision)
  show ?thesis unfolding allow rules by fastforce
qed

text \<open>
  A request whose scope is not a workspace, namespace or DevOps scope is decided by the global
  and cluster role bindings alone: changing how workspace or namespace bindings and their owners are
  looked up does not change the decision.
\<close>

theorem Authorize_cluster_scope_isolated:
  assumes scope: "a_ResourceScope a \<notin> {WorkspaceScope, NamespaceScope, DevOpsScope}"
    and same: "ListGlobalRoleBindings am' = ListGlobalRoleBindings am"
      "ListClusterRoleBindings am' = ListClusterRoleBindings am"
      "GetRoleReferenceRules am' = GetRoleReferenceRules am"
  shows "Authorize rego am' a = Authorize rego am a"
proof -
  have b: "visit_bindings am' user v k ns bs s = visit_bindings am user v k ns bs s"
    for user v k ns bs and s :: authz_state
    by (induction bs arbitrary: s) (auto simp: same and_then_def Let_def split: option.splits sum.splits)
  then have "visit_listed am' user v k ns l = (visit_listed am user v k ns l :: authz_state \<Rightarrow> _)"
    for user v k ns l
    by (auto simp: visit_listed_def split: sum.splits)
  then show ?thesis
    using scope by (simp add: Authorize_def visitRulesFor_def Let_def same cong: if_cong)
qed

text \<open>An interface without any binding, and a request of a plain user, for concrete runs.\<close>

definition no_bindings :: am_interface where
  "no_bindings =
     \<lparr>ListGlobalRoleBindings = (\<lambda>u. Inr []), ListWorkspaceRoleBindings = (\<lambda>u g w. Inr []),
      ListRoleBindings = (\<lambda>u g n. Inr []), ListClusterRoleBindings = (\<lambda>u. Inr []),
      GetRoleReferenceRules = (\<lambda>r n. Inr ([], [])), GetNamespaceControlledWorkspace = (\<lambda>n. Inr []),
      GetDevOpsControlledWorkspace = (\<lambda>d. Inr []), GetDevOpsRelatedNamespace = (\<lambda>d. Inr [])\<rparr>"

definition sample_attributes :: attributes where
  "sample_attributes =
     \<lparr>a_User = \<lparr>u_Name = ''alice'', u_Groups = []\<rparr>, a_Verb = ''list'', a_Cluster = [], a_Workspace = [],
      a_Namespace = [], a_DevOps = [], a_APIGroup = ''versatel.kubesphere.io'', a_APIVersion = ''v1alpha1'',
      a_Resource = ''linstor'', a_Subresource = [], a_Name = [], a_KubernetesRequest = False,
      a_ResourceRequest = True, a_Path = [], a_ResourceScope = ClusterScope\<rparr>"

theorem Authorize_cluster_scope_isolated_witness:
  "a_ResourceScope sample_attributes \<notin> {WorkspaceScope, NamespaceScope, DevOpsScope} \<and>
   Authorize (\<lambda>p a. Inr []) (no_bindings\<lparr>ListWorkspaceRoleBindings := \<lambda>u g w. Inl ''down''\<rparr>) sample_attributes
     = Authorize (\<lambda>p a. Inr []) no_bindings sample_attributes"
proof -
  have "a_ResourceScope sample_attributes \<notin> {WorkspaceScope, NamespaceScope, DevOpsScope}"
    by (simp add: sample_attributes_def)
  with Authorize_cluster_scope_isolated [of sample_attributes
      "no_bindings\<lparr>ListWorkspaceRoleBindings := \<lambda>u g w. Inl ''down''\<rparr>" no_bindings]
  show ?thesis by simp
qed

end
