(* ===== verification/Handler_Chain.thy ===== *)
theory Handler_Chain
  imports Authentication Rbac
begin

text \<open>
  The chain of filters in front of the API handlers (\<^verbatim>\<open>buildHandlerChain\<close> of \<^verbatim>\<open>pkg/apiserver/apiserver.go\<close>): resolving the
  request (\<^verbatim>\<open>filters/requestinfo.go\<close>), authentication, dispatching to the cluster the path names
  (\<^verbatim>\<open>filters/dispatch.go\<close>, \<^verbatim>\<open>dispatch/dispatch.go\<close>, \<^verbatim>\<open>pkg/utils/clusterclient\<close>) and authorization.
  Parsing of endpoint URLs and kubeconfigs belongs to libraries and is an argument; a transport is the text of the
  kubeconfig it was made from.
\<close>

section \<open>Queries and headers\<close>

text \<open>\<^verbatim>\<open>strings.Replace\<close> with the count 1.\<close>

fun ReplaceFirst :: "string \<Rightarrow> string \<Rightarrow> string \<Rightarrow> string" where
  "ReplaceFirst [] old new = (if old = [] then new else [])"
| "ReplaceFirst (c # s) old new = (if HasPrefix (c # s) old then new @ drop (length old) (c # s) else c # ReplaceFirst s old new)"

text \<open>\<^verbatim>\<open>url.ParseQuery\<close>: pieces that cannot be decoded or contain a semicolon are left out.\<close>

definition hex_digit :: "char \<Rightarrow> nat option" where
  "hex_digit c =
     (let n = of_char c :: nat in
      if 48 \<le> n \<and> n \<le> 57 then Some (n - 48)
      else if 97 \<le> n \<and> n \<le> 102 then Some (n - 87)
      else if 65 \<le> n \<and> n \<le> 70 then Some (n - 55)
      else None)"

fun QueryUnescape :: "string \<Rightarrow> string option" where
  "QueryUnescape [] = Some []"
| "QueryUnescape (c # s) =
     (if c = CHR ''%''
      then (case s of
              a # b # t \<Rightarrow>
                (case (hex_digit a, hex_digit b) of
                   (Some x, Some y) \<Rightarrow> map_option ((#) (char_of (16 * x + y))) (QueryUnescape t)
                 | _ \<Rightarrow> None)
            | _ \<Rightarrow> None)
      else map_option ((#) (if c = CHR ''+'' then CHR '' '' else c)) (QueryUnescape s))"

fun cut_equals :: "string \<Rightarrow> string \<times> string" where
  "cut_equals [] = ([], [])"
| "cut_equals (c # s) = (if c = CHR ''='' then ([], s) else (case cut_equals s of (k, v) \<Rightarrow> (c # k, v)))"

definition add_piece :: "string \<Rightarrow> url_query \<Rightarrow> url_query" where
  "add_piece piece q =
     (if piece = [] \<or> CHR '';'' \<in> set piece then q
      else (case cut_equals piece of (k, v) \<Rightarrow>
              (case (QueryUnescape k, QueryUnescape v) of
                 (Some key, Some value) \<Rightarrow> AList.update key (map_get [] q key @ [value]) q
               | _ \<Rightarrow> q)))"

definition ParseQuery :: "string \<Rightarrow> url_query" where
  "ParseQuery raw = fold add_piece (SplitChar CHR ''&'' raw) []"

text \<open>A request with the query as it was sent; the parsed query of the request follows it.\<close>

record chain_request =
  cr_http :: http_request
  cr_RawQuery :: string

definition set_RawQuery :: "string \<Rightarrow> chain_request \<Rightarrow> chain_request" where
  "set_RawQuery raw r = r\<lparr>cr_RawQuery := raw, cr_http := (cr_http r)\<lparr>URL_Query := ParseQuery raw\<rparr>\<rparr>"

definition header :: "chain_request \<Rightarrow> string \<Rightarrow> string" where
  "header r name = map_get [] (Header (cr_http r)) name"

definition Header_Set :: "string \<Rightarrow> string \<Rightarrow> chain_request \<Rightarrow> chain_request" where
  "Header_Set name v r = r\<lparr>cr_http := (cr_http r)\<lparr>Header := AList.update name v (Header (cr_http r))\<rparr>\<rparr>"

definition Header_Del :: "string \<Rightarrow> chain_request \<Rightarrow> chain_request" where
  "Header_Del name r = r\<lparr>cr_http := (cr_http r)\<lparr>Header := AList.delete name (Header (cr_http r))\<rparr>\<rparr>"

definition set_Path :: "string \<Rightarrow> chain_request \<Rightarrow> chain_request" where
  "set_Path p r = r\<lparr>cr_http := (cr_http r)\<lparr>URL_Path := p\<rparr>\<rparr>"

section \<open>Resolving the request\<close>

text \<open>What a proxy in front may have moved into other headers is moved back.\<close>

definition restore_authorization :: "chain_request \<Rightarrow> chain_request" where
  "restore_authorization r =
     (if length (header r ''Authorization'') = 0
      then (let x = header r ''X-KubeSphere-Authorization'' in
            if length x \<noteq> 0 then Header_Del ''X-KubeSphere-Authorization'' (Header_Set ''Authorization'' x r) else r)
      else r)"

definition restore_dryRun :: "chain_request \<Rightarrow> chain_request" where
  "restore_dryRun r =
     (if length (map_get [] (ParseQuery (cr_RawQuery r)) ''dryrun'') \<noteq> 0
      then set_RawQuery (ReplaceFirst (cr_RawQuery r) ''dryrun'' ''dryRun'') r else r)"

definition restore_query :: "chain_request \<Rightarrow> chain_request" where
  "restore_query r =
     (let rawQuery = header r ''X-KubeSphere-Rawquery'' in
      if length rawQuery \<noteq> 0 \<and> length (cr_RawQuery r) = 0
      then Header_Del ''X-KubeSphere-Rawquery'' (set_RawQuery rawQuery r) else r)"

definition restored :: "chain_request \<Rightarrow> chain_request" where
  "restored r = restore_query (restore_dryRun (restore_authorization r))"

datatype resolve_outcome = Resolved request_info chain_request | ResolveError | ResolvePanic

definition WithRequestInfo :: "request_info_factory \<Rightarrow> list_options_decoder \<Rightarrow> chain_request \<Rightarrow> resolve_outcome" where
  "WithRequestInfo factory decode r =
     (let r' = restored r in
      case NewRequestInfo factory decode (cr_http r') of
        Info info \<Rightarrow> Resolved info r'
      | InfoError info \<Rightarrow> ResolveError
      | Panic \<Rightarrow> ResolvePanic)"

section \<open>Clusters\<close>

text \<open>The fields of the spec that the dispatcher does not read are one text.\<close>

record cluster =
  cl_Name :: string
  cl_Labels :: "(string, string) gomap"
  cl_ConnectionType :: string
  cl_KubeSphereAPIEndpoint :: string
  cl_KubernetesAPIEndpoint :: string
  cl_KubeConfig :: string
  cl_SpecRest :: string
  cl_Conditions :: "(string \<times> string) list"

text \<open>Scheme and host of a URL.\<close>

type_synonym endpoint = "string \<times> string"

record inner_cluster =
  ic_KubernetesURL :: endpoint
  ic_KubesphereURL :: endpoint
  ic_Transport :: string

record cluster_libraries =
  url_Parse :: "string \<Rightarrow> endpoint option"
  TransportFor :: "string \<Rightarrow> string option"

text \<open>The clusters of the lister, and the cache, where a cluster that could not be set up is kept as nil.\<close>

record cluster_clients =
  cc_clusters :: "(string, cluster) gomap"
  cc_innerClusters :: "(string, inner_cluster option) gomap"

definition newInnerCluster :: "cluster_libraries \<Rightarrow> cluster \<Rightarrow> inner_cluster option" where
  "newInnerCluster lib c =
     (case url_Parse lib (cl_KubernetesAPIEndpoint c) of
        None \<Rightarrow> None
      | Some kubernetes \<Rightarrow>
          (case url_Parse lib (cl_KubeSphereAPIEndpoint c) of
             None \<Rightarrow> None
           | Some kubesphere \<Rightarrow>
               (case TransportFor lib (cl_KubeConfig c) of
                  None \<Rightarrow> None
                | Some transport \<Rightarrow>
                    Some \<lparr>ic_KubernetesURL = kubernetes, ic_KubesphereURL = kubesphere, ic_Transport = transport\<rparr>)))"

text \<open>
  The lock of the cache: a writer waits until no reader is left. The result \<^const>\<open>None\<close> is a call that never returns because
  the caller itself is one of the readers.
\<close>

definition addCluster :: "cluster_libraries \<Rightarrow> bool \<Rightarrow> cluster \<Rightarrow> cluster_clients \<Rightarrow> (inner_cluster option \<times> cluster_clients) option" where
  "addCluster lib reading c cc =
     (if url_Parse lib (cl_KubernetesAPIEndpoint c) = None then Some (None, cc)
      else (let inner = newInnerCluster lib c in
            if reading then None
            else Some (inner, cc\<lparr>cc_innerClusters := AList.update (cl_Name c) inner (cc_innerClusters cc)\<rparr>)))"

definition removeCluster :: "cluster \<Rightarrow> cluster_clients \<Rightarrow> cluster_clients" where
  "removeCluster c cc = cc\<lparr>cc_innerClusters := AList.delete (cl_Name c) (cc_innerClusters cc)\<rparr>"

definition GetInnerCluster :: "cluster_libraries \<Rightarrow> string \<Rightarrow> cluster_clients \<Rightarrow> (inner_cluster option \<times> cluster_clients) option" where
  "GetInnerCluster lib name cc =
     (case map_of (cc_innerClusters cc) name of
        Some inner \<Rightarrow> Some (inner, cc)
      | None \<Rightarrow>
          (case map_of (cc_clusters cc) name of
             Some c \<Rightarrow> addCluster lib True c cc
           | None \<Rightarrow> Some (None, cc)))"

definition IsClusterReady :: "cluster \<Rightarrow> bool" where
  "IsClusterReady c = list_ex (\<lambda>(ty, status). ty = ''Ready'' \<and> status = ''True'') (cl_Conditions c)"

definition HostCluster :: string where
  "HostCluster = ''cluster-role.kubesphere.io/host''"

definition IsHostCluster :: "cluster \<Rightarrow> bool" where
  "IsHostCluster c = (map_of (cl_Labels c) HostCluster \<noteq> None)"

text \<open>The events of the informer: the spec of a cluster is compared, its status is not.\<close>

definition same_spec :: "cluster \<Rightarrow> cluster \<Rightarrow> bool" where
  "same_spec a b \<longleftrightarrow> cl_ConnectionType a = cl_ConnectionType b \<and> cl_KubeSphereAPIEndpoint a = cl_KubeSphereAPIEndpoint b
     \<and> cl_KubernetesAPIEndpoint a = cl_KubernetesAPIEndpoint b \<and> cl_KubeConfig a = cl_KubeConfig b \<and> cl_SpecRest a = cl_SpecRest b"

definition on_add :: "cluster_libraries \<Rightarrow> cluster \<Rightarrow> cluster_clients \<Rightarrow> cluster_clients" where
  "on_add lib c cc = (case addCluster lib False c cc of None \<Rightarrow> cc | Some (_, cc') \<Rightarrow> cc')"

definition on_update :: "cluster_libraries \<Rightarrow> cluster \<Rightarrow> cluster \<Rightarrow> cluster_clients \<Rightarrow> cluster_clients" where
  "on_update lib oldCluster newCluster cc = (if \<not> same_spec oldCluster newCluster then on_add lib newCluster cc else cc)"

text \<open>
  A change of a cluster as the informer carries it out: the lister sees it first, then the handler runs. The state between the
  two is the one in which a cluster is listed and not cached.
\<close>

datatype cluster_change = ClusterPut cluster | ClusterDeleted string

definition listed_change :: "cluster_change \<Rightarrow> cluster_clients \<Rightarrow> cluster_clients" where
  "listed_change ch cc =
     cc\<lparr>cc_clusters := (case ch of ClusterPut c \<Rightarrow> AList.update (cl_Name c) c (cc_clusters cc)
                                 | ClusterDeleted name \<Rightarrow> AList.delete name (cc_clusters cc))\<rparr>"

definition handled_change :: "cluster_libraries \<Rightarrow> cluster_change \<Rightarrow> cluster_clients \<Rightarrow> cluster_clients" where
  "handled_change lib ch cc =
     (let cc' = listed_change ch cc in
      case ch of
        ClusterPut c \<Rightarrow>
          (case map_of (cc_clusters cc) (cl_Name c) of None \<Rightarrow> on_add lib c cc' | Some old \<Rightarrow> on_update lib old c cc')
      | ClusterDeleted name \<Rightarrow>
          (case map_of (cc_clusters cc) name of None \<Rightarrow> cc' | Some old \<Rightarrow> removeCluster old cc'))"

definition NewClusterClient :: "cluster_libraries \<Rightarrow> cluster_change list \<Rightarrow> cluster_clients" where
  "NewClusterClient lib changes = fold (handled_change lib) changes \<lparr>cc_clusters = [], cc_innerClusters = []\<rparr>"

definition GetClusterKubeconfig :: "cluster_clients \<Rightarrow> string \<Rightarrow> string option" where
  "GetClusterKubeconfig cc name = map_option cl_KubeConfig (map_of (cc_clusters cc) name)"

section \<open>Dispatching\<close>

datatype dispatch_outcome =
    DispatchError int string
  | ServeLocally chain_request
  | Forward endpoint string string chain_request
  | Blocked

text \<open>The location a request is forwarded to: endpoint, path and transport; the query is the one of the request.\<close>

definition IsUpgradeRequest :: "chain_request \<Rightarrow> bool" where
  "IsUpgradeRequest r = Contains (ToLower (header r ''Connection'')) ''upgrade''"

definition proxy_path :: "string \<Rightarrow> string" where
  "proxy_path p = ''/api/v1/namespaces/kubesphere-system/services/:ks-apiserver:/proxy'' @ p"

text \<open>The changes that carry a request through the proxy of the Kubernetes API server.\<close>

definition for_kube_proxy :: "chain_request \<Rightarrow> chain_request" where
  "for_kube_proxy r =
     (let r1 = Header_Del ''Authorization'' (Header_Set ''X-KubeSphere-Authorization'' (header r ''Authorization'') r);
          r2 = (if length (map_get [] (ParseQuery (cr_RawQuery r)) ''dryRun'') \<noteq> 0
                then set_RawQuery (ReplaceFirst (cr_RawQuery r) ''dryRun'' ''dryrun'') r1 else r1)
      in if IsUpgradeRequest r2 \<and> length (cr_RawQuery r2) \<noteq> 0
         then Header_Set ''X-KubeSphere-Rawquery'' (cr_RawQuery r2) r2 else r2)"

definition without_cluster :: "string \<Rightarrow> string \<Rightarrow> string" where
  "without_cluster cluster p = ReplaceFirst p (''/clusters/'' @ cluster) []"

definition DefaultTransport :: string where
  "DefaultTransport = []"

definition Dispatch :: "cluster_libraries \<Rightarrow> request_info \<Rightarrow> chain_request \<Rightarrow> cluster_clients \<Rightarrow> dispatch_outcome \<times> cluster_clients" where
  "Dispatch lib info r cc =
     (let name = ri_Cluster info; path = URL_Path (cr_http r) in
      if length name = 0 then (DispatchError 400 ''Bad request, empty cluster'', cc)
      else
        (case map_of (cc_clusters cc) name of
           None \<Rightarrow> (DispatchError 404 (''cluster '' @ name @ '' not found''), cc)
         | Some c \<Rightarrow>
             (if IsHostCluster c then (ServeLocally (set_Path (without_cluster name path) r), cc)
              else if \<not> IsClusterReady c then (DispatchError 400 (''cluster '' @ cl_Name c @ '' is not ready''), cc)
              else
                (case GetInnerCluster lib (cl_Name c) cc of
                   None \<Rightarrow> (Blocked, cc)
                 | Some (None, cc') \<Rightarrow> (DispatchError 400 (''cluster '' @ cl_Name c @ '' is not ready''), cc')
                 | Some (Some inner, cc') \<Rightarrow>
                     (let p = without_cluster name path in
                      if cl_ConnectionType c = ''direct'' \<and> length (cl_KubeSphereAPIEndpoint c) = 0
                      then (Forward (ic_KubernetesURL inner) (proxy_path p) (ic_Transport inner) (for_kube_proxy r), cc')
                      else (Forward (ic_KubesphereURL inner) p DefaultTransport r, cc'))))))"

definition WithMultipleClusterDispatcher ::
  "cluster_libraries option \<Rightarrow> request_info \<Rightarrow> chain_request \<Rightarrow> cluster_clients \<Rightarrow> dispatch_outcome \<times> cluster_clients" where
  "WithMultipleClusterDispatcher dispatcher info r cc =
     (case dispatcher of
        None \<Rightarrow> (ServeLocally r, cc)
      | Some lib \<Rightarrow> if ri_Cluster info = [] then (ServeLocally r, cc) else Dispatch lib info r cc)"

section \<open>The chain\<close>

datatype authorization_mode = AlwaysAllow | AlwaysDeny | RBAC

record 'e chain_config =
  ch_resolver :: request_info_factory
  ch_decode :: list_options_decoder
  ch_server :: "'e auth_server"
  ch_dispatcher :: "cluster_libraries option"
  ch_Mode :: authorization_mode
  ch_rego :: rego_engine
  ch_am :: am_interface
  ch_kubeTransport :: bool

definition excludedPaths :: "string list" where
  "excludedPaths = [''/oauth/*'', ''/kapis/config.kubesphere.io/*'', ''/kapis/version'', ''/kapis/metrics'']"

text \<open>An error of \<^verbatim>\<open>path.NewAuthorizer\<close> is ignored; the patterns are constants for which there is none.\<close>

definition authorizers :: "'e chain_config \<Rightarrow> authorizer" where
  "authorizers cfg =
     (case ch_Mode cfg of
        AlwaysAllow \<Rightarrow> alwaysAllow_Authorize
      | AlwaysDeny \<Rightarrow> alwaysDeny_Authorize
      | RBAC \<Rightarrow>
          union_Authorize
            ((case path_NewAuthorizer excludedPaths of Inr pathAuthorizer \<Rightarrow> [pathAuthorizer] | Inl _ \<Rightarrow> []) @
             [Authorize (ch_rego cfg) (ch_am cfg)]))"

datatype chain_outcome =
    ResolutionFailed
  | ConnectionAborted
  | NotAuthenticated
  | Dispatched dispatch_outcome
  | Refused http_outcome
  | ProxiedToKubernetes auth_user request_info chain_request
  | HandledHere auth_user request_info chain_request

text \<open>Without a transport to the Kubernetes API server, which is an error of the configuration, nothing is proxied.\<close>

definition WithKubeAPIServer :: "bool \<Rightarrow> auth_user \<Rightarrow> request_info \<Rightarrow> chain_request \<Rightarrow> chain_outcome" where
  "WithKubeAPIServer kubeTransport user info r =
     (if kubeTransport \<and> ri_IsKubernetesRequest info then ProxiedToKubernetes user info (Header_Del ''Authorization'' r)
      else HandledHere user info r)"

definition plain_user :: "auth_user \<Rightarrow> user_info" where
  "plain_user user = \<lparr>u_Name = u_Name user, u_Groups = u_Groups user\<rparr>"

definition authorized_handler :: "'e chain_config \<Rightarrow> auth_user \<Rightarrow> request_info \<Rightarrow> chain_request \<Rightarrow> chain_outcome" where
  "authorized_handler cfg user info r =
     (case WithAuthorization (authorizers cfg) (getAuthorizerAttributes (plain_user user) info) of
        Served \<Rightarrow> WithKubeAPIServer (ch_kubeTransport cfg) user info r
      | refusal \<Rightarrow> Refused refusal)"

definition buildHandlerChain :: "'e chain_config \<Rightarrow> chain_request \<Rightarrow> 'e \<Rightarrow> cluster_clients \<Rightarrow> chain_outcome \<times> 'e \<times> cluster_clients" where
  "buildHandlerChain cfg r s cc =
     (case WithRequestInfo (ch_resolver cfg) (ch_decode cfg) r of
        ResolveError \<Rightarrow> (ResolutionFailed, s, cc)
      | ResolvePanic \<Rightarrow> (ConnectionAborted, s, cc)
      | Resolved info r1 \<Rightarrow>
          (case WithAuthentication (ch_server cfg) info (cr_http r1) s of
             (UnauthorizedResponse, s') \<Rightarrow> (NotAuthenticated, s', cc)
           | (ServeAs user, s') \<Rightarrow>
               (case WithMultipleClusterDispatcher (ch_dispatcher cfg) info r1 cc of
                  (ServeLocally r3, cc') \<Rightarrow> (authorized_handler cfg user info r3, s', cc')
                | (d, cc') \<Rightarrow> (Dispatched d, s', cc'))))"

section \<open>Replacing a word\<close>








section \<open>Through the proxy and back\<close>

lemma header_simps [simp]:
  "header (Header_Set n v r) m = (if n = m then v else header r m)"
  "header (Header_Del n r) m = (if n = m then [] else header r m)"
  "header (set_RawQuery q r) m = header r m"
  "cr_RawQuery (Header_Set n v r) = cr_RawQuery r"
  "cr_RawQuery (Header_Del n r) = cr_RawQuery r"
  "cr_RawQuery (set_RawQuery q r) = q"
  "URL_Path (cr_http (Header_Set n v r)) = URL_Path (cr_http r)"
  "URL_Path (cr_http (Header_Del n r)) = URL_Path (cr_http r)"
  "URL_Path (cr_http (set_RawQuery q r)) = URL_Path (cr_http r)"
  by (simp_all add: header_def Header_Set_def Header_Del_def set_RawQuery_def map_get_def AList.update_conv' AList.delete_conv')

abbreviation has_param :: "string \<Rightarrow> string \<Rightarrow> bool" where
  "has_param raw name \<equiv> map_get [] (ParseQuery raw) name \<noteq> []"

lemma ParseQuery_Nil [simp]: "ParseQuery [] = []"
  by code_simp


lemma restored_path [simp]: "URL_Path (cr_http (restored r)) = URL_Path (cr_http r)"
  by (simp add: restored_def restore_query_def restore_dryRun_def restore_authorization_def Let_def)

lemma restored_query:
  "cr_RawQuery (restored r) =
     (if cr_RawQuery r = [] then header r ''X-KubeSphere-Rawquery''
      else if has_param (cr_RawQuery r) ''dryrun'' then ReplaceFirst (cr_RawQuery r) ''dryrun'' ''dryRun'' else cr_RawQuery r)"
proof -
  have "ReplaceFirst (c # s) ''dryrun'' ''dryRun'' \<noteq> []" for c s by simp
  then show ?thesis
    by (cases "cr_RawQuery r")
       (simp_all add: restored_def restore_query_def restore_dryRun_def restore_authorization_def Let_def map_get_def)
qed


text \<open>
  What the proxy of the Kubernetes API server makes of a request: it takes the credentials away, keeps the other headers and
  the path below its own, and may lose the query of a request to upgrade the connection.
\<close>

definition proxied_by_kube :: "chain_request \<Rightarrow> string \<Rightarrow> chain_request \<Rightarrow> bool" where
  "proxied_by_kube sent path received \<longleftrightarrow>
     header received ''Authorization'' = [] \<and>
     (\<forall>name. name \<noteq> ''Authorization'' \<longrightarrow> header received name = header sent name) \<and>
     path = proxy_path (URL_Path (cr_http received)) \<and>
     (cr_RawQuery received = cr_RawQuery sent \<or> IsUpgradeRequest sent \<and> cr_RawQuery received = [])"


lemma for_kube_proxy_simps:
  "header (for_kube_proxy r) ''X-KubeSphere-Authorization'' = header r ''Authorization''"
  "cr_RawQuery (for_kube_proxy r) =
     (if has_param (cr_RawQuery r) ''dryRun'' then ReplaceFirst (cr_RawQuery r) ''dryRun'' ''dryrun'' else cr_RawQuery r)"
  "IsUpgradeRequest (for_kube_proxy r) = IsUpgradeRequest r"
  "header (for_kube_proxy r) ''X-KubeSphere-Rawquery'' =
     (if IsUpgradeRequest r \<and> cr_RawQuery (for_kube_proxy r) \<noteq> [] then cr_RawQuery (for_kube_proxy r)
      else header r ''X-KubeSphere-Rawquery'')"
  by (simp_all add: for_kube_proxy_def Let_def IsUpgradeRequest_def del: not_None_eq) auto



text \<open>
  The filter restores \<^verbatim>\<open>dryRun\<close> before it takes the query out of the header: on a request to upgrade the connection whose query
  the proxy lost, the parameter keeps the name the dispatcher gave it.
\<close>

theorem upgrade_dryRun_not_restored:
  assumes "proxied_by_kube (for_kube_proxy r) path received" and "cr_RawQuery received = []"
    and "IsUpgradeRequest r" and "has_param (cr_RawQuery r) ''dryRun''"
  shows "cr_RawQuery (restored received) = ReplaceFirst (cr_RawQuery r) ''dryRun'' ''dryrun''"
proof -
  have "ReplaceFirst (cr_RawQuery r) ''dryRun'' ''dryrun'' \<noteq> []"
    using assms(4) by (cases "cr_RawQuery r") (simp_all add: map_get_def)
  then have "header (for_kube_proxy r) ''X-KubeSphere-Rawquery'' = ReplaceFirst (cr_RawQuery r) ''dryRun'' ''dryrun''"
    using assms(3,4) by (simp add: for_kube_proxy_simps)
  then show ?thesis using assms(1,2) by (simp add: restored_query proxied_by_kube_def)
qed

section \<open>The lock of the cluster cache\<close>

text \<open>
  \<^verbatim>\<open>GetInnerCluster\<close> holds the read lock while it adds a cluster that is listed but not yet cached, and adding takes the
  write lock: dispatching a request to such a cluster, when it is ready and its API endpoint parses, waits for itself. From
  then on no other request to a member cluster gets the lock either, which this model of a single call does not show.
\<close>

lemma dispatch_blocks_iff:
  "fst (Dispatch lib info r cc) = Blocked \<longleftrightarrow>
     ri_Cluster info \<noteq> [] \<and>
     (\<exists>c. map_of (cc_clusters cc) (ri_Cluster info) = Some c \<and> \<not> IsHostCluster c \<and> IsClusterReady c \<and>
          map_of (cc_innerClusters cc) (cl_Name c) = None \<and>
          (\<exists>listed. map_of (cc_clusters cc) (cl_Name c) = Some listed \<and>
                    url_Parse lib (cl_KubernetesAPIEndpoint listed) \<noteq> None))"
  by (auto simp: Dispatch_def GetInnerCluster_def addCluster_def Let_def split: option.splits)

text \<open>
  The cache agrees with the lister: a listed cluster is cached as its current spec says, when its API endpoint parses, and a
  cluster that is not listed is not cached. A cluster whose endpoint was changed to one that does not parse is left out: the
  cache keeps what it had.
\<close>

definition cache_settled :: "cluster_libraries \<Rightarrow> cluster_clients \<Rightarrow> bool" where
  "cache_settled lib cc \<longleftrightarrow>
     (\<forall>name c. map_of (cc_clusters cc) name = Some c \<longrightarrow>
        cl_Name c = name \<and>
        (url_Parse lib (cl_KubernetesAPIEndpoint c) \<noteq> None \<longrightarrow>
         map_of (cc_innerClusters cc) name = Some (newInnerCluster lib c))) \<and>
     (\<forall>name. map_of (cc_clusters cc) name = None \<longrightarrow> map_of (cc_innerClusters cc) name = None)"

lemma newInnerCluster_same_spec: "same_spec a b \<Longrightarrow> newInnerCluster lib a = newInnerCluster lib b"
  unfolding same_spec_def newInnerCluster_def by presburger

lemma on_add_simps:
  "cc_clusters (on_add lib c cc) = cc_clusters cc"
  "map_of (cc_innerClusters (on_add lib c cc)) name =
     (if url_Parse lib (cl_KubernetesAPIEndpoint c) \<noteq> None \<and> name = cl_Name c then Some (newInnerCluster lib c)
      else map_of (cc_innerClusters cc) name)"
  by (auto simp: on_add_def addCluster_def Let_def AList.update_conv')

lemma handled_change_settled:
  assumes "cache_settled lib cc"
  shows "cache_settled lib (handled_change lib ch cc)"
proof (cases ch)
  case (ClusterPut c)
  have put: "cc_clusters (handled_change lib ch cc) = AList.update (cl_Name c) c (cc_clusters cc)"
    by (simp add: ClusterPut handled_change_def listed_change_def on_update_def on_add_simps Let_def split: option.splits)
  have other: "map_of (cc_innerClusters (handled_change lib ch cc)) name = map_of (cc_innerClusters cc) name"
    if "name \<noteq> cl_Name c" for name
    using that by (simp add: ClusterPut handled_change_def listed_change_def on_update_def on_add_simps Let_def split: option.splits)
  have current: "map_of (cc_innerClusters (handled_change lib ch cc)) (cl_Name c) = Some (newInnerCluster lib c)"
    if parses: "url_Parse lib (cl_KubernetesAPIEndpoint c) \<noteq> None"
  proof (cases "\<exists>old. map_of (cc_clusters cc) (cl_Name c) = Some old \<and> same_spec old c")
    case True
    then obtain old where old: "map_of (cc_clusters cc) (cl_Name c) = Some old" "same_spec old c" by blast
    then have "url_Parse lib (cl_KubernetesAPIEndpoint old) \<noteq> None" using parses by (simp add: same_spec_def)
    then have "map_of (cc_innerClusters cc) (cl_Name c) = Some (newInnerCluster lib c)"
      using assms old newInnerCluster_same_spec [OF old(2)] unfolding cache_settled_def by simp
    then show ?thesis using old by (simp add: ClusterPut handled_change_def listed_change_def on_update_def)
  next
    case False
    then show ?thesis using parses
      by (auto simp: ClusterPut handled_change_def listed_change_def on_update_def on_add_simps Let_def split: option.splits)
  qed
  show ?thesis
    unfolding cache_settled_def put
  proof (intro conjI allI impI)
    fix name
    assume "map_of (AList.update (cl_Name c) c (cc_clusters cc)) name = None"
    then show "map_of (cc_innerClusters (handled_change lib ch cc)) name = None"
      using other [of name] assms unfolding cache_settled_def by (auto simp: AList.update_conv' split: if_splits)
  next
    fix name d
    assume d: "map_of (AList.update (cl_Name c) c (cc_clusters cc)) name = Some d"
    show "cl_Name d = name"
      using d assms unfolding cache_settled_def by (auto simp: AList.update_conv' split: if_splits)
    assume "url_Parse lib (cl_KubernetesAPIEndpoint d) \<noteq> None"
    then show "map_of (cc_innerClusters (handled_change lib ch cc)) name = Some (newInnerCluster lib d)"
      using d current other [of name] assms unfolding cache_settled_def
      by (cases "name = cl_Name c") (simp_all add: AList.update_conv')
  qed
next
  case (ClusterDeleted name)
  have removed: "map_of (cc_innerClusters (handled_change lib ch cc)) n = map_of (cc_innerClusters cc) n" if "n \<noteq> name" for n
  proof (cases "map_of (cc_clusters cc) name")
    case (Some old)
    then have "cl_Name old = name" using assms unfolding cache_settled_def by blast
    then show ?thesis using that Some
      by (simp add: ClusterDeleted handled_change_def listed_change_def removeCluster_def Let_def AList.delete_conv')
  qed (simp add: ClusterDeleted handled_change_def listed_change_def Let_def)
  have gone: "map_of (cc_innerClusters (handled_change lib ch cc)) name = None"
  proof (cases "map_of (cc_clusters cc) name")
    case (Some old)
    then have "cl_Name old = name" using assms unfolding cache_settled_def by blast
    then show ?thesis using Some
      by (simp add: ClusterDeleted handled_change_def listed_change_def removeCluster_def Let_def AList.delete_conv')
  next
    case None
    then show ?thesis using assms unfolding cache_settled_def
      by (simp add: ClusterDeleted handled_change_def listed_change_def Let_def)
  qed
  have listed: "cc_clusters (handled_change lib ch cc) = AList.delete name (cc_clusters cc)"
    by (simp add: ClusterDeleted handled_change_def listed_change_def removeCluster_def Let_def split: option.splits)
  have "map_of (cc_clusters (handled_change lib ch cc)) n = (if n = name then None else map_of (cc_clusters cc) n)" for n
    by (simp add: listed AList.delete_conv')
  moreover have "map_of (cc_innerClusters (handled_change lib ch cc)) n =
      (if n = name then None else map_of (cc_innerClusters cc) n)" for n
    using gone removed by simp
  ultimately show ?thesis using assms unfolding cache_settled_def by (simp split: if_splits)
qed

lemma settled_not_blocked:
  assumes "cache_settled lib cc"
  shows "fst (Dispatch lib info r cc) \<noteq> Blocked"
proof
  assume "fst (Dispatch lib info r cc) = Blocked"
  then obtain c listed where "map_of (cc_clusters cc) (ri_Cluster info) = Some c" "map_of (cc_innerClusters cc) (cl_Name c) = None"
    "map_of (cc_clusters cc) (cl_Name c) = Some listed" "url_Parse lib (cl_KubernetesAPIEndpoint listed) \<noteq> None"
    unfolding dispatch_blocks_iff by blast
  then show False using assms unfolding cache_settled_def by auto
qed

lemma fold_settled: "cache_settled lib cc \<Longrightarrow> cache_settled lib (fold (handled_change lib) changes cc)"
proof (induction changes arbitrary: cc)
  case (Cons ch changes)
  show ?case using Cons.IH [OF handled_change_settled [OF Cons.prems]] by simp
qed simp

lemma NewClusterClient_settled: "cache_settled lib (NewClusterClient lib changes)"
  unfolding NewClusterClient_def by (rule fold_settled) (simp add: cache_settled_def)

text \<open>
  C19: once the events of all changes of clusters have been handled, whatever the changes were, every listed cluster whose API
  endpoint parses is cached as its current spec says, no cluster is cached that is not listed, and no request to any cluster
  blocks.
\<close>
theorem cluster_cache_settles:
  "cache_settled lib (NewClusterClient lib changes) \<and>
   fst (Dispatch lib info r (NewClusterClient lib changes)) \<noteq> Blocked"
  using NewClusterClient_settled settled_not_blocked by blast

section \<open>Who reaches a handler\<close>

definition reaches_handler :: "chain_outcome \<Rightarrow> auth_user \<Rightarrow> request_info \<Rightarrow> chain_request \<Rightarrow> bool" where
  "reaches_handler out user info r \<longleftrightarrow> out = ProxiedToKubernetes user info r \<or> out = HandledHere user info r"

definition permitted :: "'e chain_config \<Rightarrow> auth_user \<Rightarrow> request_info \<Rightarrow> bool" where
  "permitted cfg user info \<longleftrightarrow>
     (case ch_Mode cfg of
        AlwaysAllow \<Rightarrow> True
      | AlwaysDeny \<Rightarrow> False
      | RBAC \<Rightarrow>
          list_ex (\<lambda>pat. pattern_allows pat (ri_Path info)) excludedPaths \<or>
          (\<exists>(policy, rules) \<in> set (applicable_roles (ch_am cfg) (getAuthorizerAttributes (plain_user user) info)).
             (policy \<noteq> [] \<and> regoPolicyAllows (ch_rego cfg) (getAuthorizerAttributes (plain_user user) info) policy) \<or>
             (\<exists>rule \<in> set rules. ruleAllows (getAuthorizerAttributes (plain_user user) info) rule)))"

lemma excludedPaths_ok: "list_all pattern_ok excludedPaths"
  by code_simp

lemma authorizers_RBAC:
  assumes "ch_Mode cfg = RBAC"
  shows "fst (authorizers cfg a) = DecisionAllow \<longleftrightarrow>
     list_ex (\<lambda>pat. pattern_allows pat (a_Path a)) excludedPaths \<or> fst (Authorize (ch_rego cfg) (ch_am cfg) a) = DecisionAllow"
proof -
  obtain pathAuthorizer where p: "path_NewAuthorizer excludedPaths = Inr pathAuthorizer"
    "\<forall>a. pathAuthorizer a = (if list_ex (\<lambda>p. pattern_allows p (a_Path a)) excludedPaths
                             then DecisionAllow else DecisionNoOpinion, [], None)"
    using path_NewAuthorizer_correct [of excludedPaths] excludedPaths_ok by (auto split: sum.splits)
  then show ?thesis
    using assms by (auto simp: authorizers_def union_Authorize_first_decisive decisive_def split: prod.splits)
qed

lemma authorizers_permitted:
  "fst (authorizers cfg (getAuthorizerAttributes (plain_user user) info)) = DecisionAllow \<longleftrightarrow> permitted cfg user info"
proof (cases "ch_Mode cfg")
  case RBAC
  have "a_Path (getAuthorizerAttributes u info) = ri_Path info" for u by (simp add: getAuthorizerAttributes_def)
  then show ?thesis unfolding authorizers_RBAC [OF RBAC] Authorize_decision permitted_def RBAC by simp
qed (simp_all add: authorizers_def permitted_def alwaysAllow_Authorize_def alwaysDeny_Authorize_def)

lemma authorized_handler_reached:
  "(\<exists>r'. reaches_handler (authorized_handler cfg user' info' r) user info r') \<longleftrightarrow>
     user' = user \<and> info' = info \<and> permitted cfg user info"
proof -
  have "WithAuthorization (authorizers cfg) a = Served \<longleftrightarrow> fst (authorizers cfg a) = DecisionAllow" for a
    by (auto simp: WithAuthorization_def split: prod.splits option.splits)
  then have "WithAuthorization (authorizers cfg) (getAuthorizerAttributes (plain_user user') info') = Served \<longleftrightarrow>
      permitted cfg user' info'" using authorizers_permitted by metis
  then show ?thesis
    by (auto simp: authorized_handler_def WithKubeAPIServer_def reaches_handler_def split: http_outcome.splits)
qed

lemma served_locally_iff:
  "(\<exists>r'. fst (WithMultipleClusterDispatcher dispatcher info r cc) = ServeLocally r') \<longleftrightarrow>
     dispatcher = None \<or> ri_Cluster info = [] \<or>
     (\<exists>c. map_of (cc_clusters cc) (ri_Cluster info) = Some c \<and> IsHostCluster c)"
  by (auto simp: WithMultipleClusterDispatcher_def Dispatch_def Let_def split: option.splits)

text \<open>
  C2: a request reaches the handlers of this cluster, or the Kubernetes API server behind them, as a user and with an info
  exactly when it is resolved to this info, the authenticators serve it as this user, it names no other cluster than the host
  (or dispatching is off), and the mode of authorization permits it: always, never, or by a path excluded from authorization
  or a role applicable to its scope.
\<close>
theorem handler_reached_iff:
  "(\<exists>r'. reaches_handler (fst (buildHandlerChain cfg r s cc)) user info r') \<longleftrightarrow>
     NewRequestInfo (ch_resolver cfg) (ch_decode cfg) (cr_http (restored r)) = Info info \<and>
     fst (WithAuthentication (ch_server cfg) info (cr_http (restored r)) s) = ServeAs user \<and>
     (ch_dispatcher cfg = None \<or> ri_Cluster info = [] \<or>
      (\<exists>c. map_of (cc_clusters cc) (ri_Cluster info) = Some c \<and> IsHostCluster c)) \<and>
     permitted cfg user info"
proof (cases "NewRequestInfo (ch_resolver cfg) (ch_decode cfg) (cr_http (restored r))")
  case (Info i)
  show ?thesis
  proof (cases "WithAuthentication (ch_server cfg) i (cr_http (restored r)) s")
    case (Pair a s')
    show ?thesis
    proof (cases a)
      case (ServeAs u)
      let ?d = "WithMultipleClusterDispatcher (ch_dispatcher cfg) i (restored r) cc"
      have chain: "fst (buildHandlerChain cfg r s cc) =
          (case ?d of (ServeLocally r3, cc') \<Rightarrow> authorized_handler cfg u i r3 | (d, cc') \<Rightarrow> Dispatched d)"
        using Info Pair ServeAs
        by (simp add: buildHandlerChain_def WithRequestInfo_def Let_def split: prod.splits dispatch_outcome.splits)
      show ?thesis
      proof (cases "\<exists>r'. fst ?d = ServeLocally r'")
        case True
        then obtain r3 cc' where d: "?d = (ServeLocally r3, cc')" by (metis prod.collapse)
        show ?thesis
          using True Info Pair ServeAs authorized_handler_reached [of cfg u i r3 user info] served_locally_iff [of "ch_dispatcher cfg" i "restored r" cc]
          unfolding chain d by auto
      next
        case False
        then have "\<not> reaches_handler (fst (buildHandlerChain cfg r s cc)) user info r'" for r'
          unfolding chain by (auto simp: reaches_handler_def split: prod.splits dispatch_outcome.splits)
        then show ?thesis
          using False Info served_locally_iff [of "ch_dispatcher cfg" i "restored r" cc] by auto
      qed
    next
      case UnauthorizedResponse
      then show ?thesis using Info Pair
        by (auto simp: buildHandlerChain_def WithRequestInfo_def Let_def reaches_handler_def)
    qed
  qed
qed (simp_all add: buildHandlerChain_def WithRequestInfo_def Let_def reaches_handler_def)

text \<open>The credentials of a user are not sent on to the Kubernetes API server.\<close>

lemma proxied_without_credentials:
  assumes "fst (buildHandlerChain cfg r s cc) = ProxiedToKubernetes user info r'"
  shows "header r' ''Authorization'' = []"
proof -
  have "header q ''Authorization'' = []" if "authorized_handler cfg u i q' = ProxiedToKubernetes user info q" for u i q' q
    using that by (auto simp: authorized_handler_def WithKubeAPIServer_def split: http_outcome.splits if_splits)
  then show ?thesis
    using assms by (auto simp: buildHandlerChain_def split: resolve_outcome.splits prod.splits authn_outcome.splits dispatch_outcome.splits)
qed

subsection \<open>Witness\<close>












end
