(* ===== verification/Auditing.thy ===== *)
theory Auditing
  imports Token_Operator "HOL-Library.Monad_Syntax" "HOL-Library.Sublist"
begin

text \<open>
  Auditing (\<^verbatim>\<open>pkg/apiserver/auditing/types.go\<close>, \<^verbatim>\<open>backend.go\<close>, \<^verbatim>\<open>pkg/apiserver/filters/auditing.go\<close>): the events of a
  request, the process-wide variables that remember the last login, and the backend that collects
  events into batches.
  Events hold pointers: to the object reference, the addresses and the status, which a copy of the event
  shares with it. The model keeps them in a store and an event holds indexes into it. Identifiers of events and users and time
  stamps of events are left out. The authentication filter runs before and puts a user into every request.
\<close>

section \<open>Events and the store\<close>

record object_ref =
  ref_Resource :: string
  ref_Namespace :: string
  ref_Name :: string
  ref_APIGroup :: string
  ref_APIVersion :: string
  ref_ResourceVersion :: string
  ref_Subresource :: string

record resp_status =
  rs_Code :: int
  rs_Status :: string
  rs_Reason :: string

text \<open>Levels are numbered: none, metadata, request, request and response.\<close>

record audit_event =
  ev_Devops :: string
  ev_Workspace :: string
  ev_Cluster :: string
  ev_RequestURI :: string
  ev_Verb :: string
  ev_Level :: nat
  ev_UserAgent :: string
  ev_Username :: string
  ev_Groups :: "string list"
  ev_Extra :: "(string, string list) gomap"
  ev_ref :: nat
  ev_ips :: "nat option"
  ev_status :: "nat option"
  ev_RequestObject :: "string option"
  ev_ResponseObject :: "string option"

text \<open>The store, the variables of the package (\<open>av_loginevent\<close> is the address of an event) and the channel of events.\<close>

record audit_state =
  av_refs :: "object_ref list"
  av_statuses :: "resp_status list"
  av_ips :: "string list"
  av_events :: "audit_event list"
  av_loginevent :: "nat option"
  av_loginUserName :: string
  av_loginerr :: bool
  av_islogin :: bool
  av_loginip :: string
  av_cache :: "audit_event list"

record devops_entry =
  dg_Name :: string
  dg_AdminNamespace :: string
  dg_Workspace :: string

text \<open>
  What a request is served with: the webhook's level and whether it audits Kubernetes requests, the list of
  DevOps projects, the address service, decoders of bodies, the capacity of the channel, and what the backend
  takes from the channel while an event waits for room.
\<close>

record audit_env =
  au_webhook :: "(nat \<times> bool) option"
  au_devops :: "(string, devops_entry list) result"
  au_loginip_service :: "(string, (string, string) result) result"
  au_decodeEnable :: "string \<Rightarrow> bool"
  au_decodeName :: "string \<Rightarrow> string option"
  au_capacity :: nat
  au_wait :: "audit_state \<Rightarrow> audit_state"

record audit_request =
  aq_http :: http_request
  aq_User :: auth_user
  aq_Body :: "string option"
  aq_ContentLength :: int

definition new_ref :: "object_ref \<Rightarrow> audit_state \<Rightarrow> nat \<times> audit_state" where
  "new_ref r s = (length (av_refs s), s\<lparr>av_refs := av_refs s @ [r]\<rparr>)"

definition new_status :: "resp_status \<Rightarrow> audit_state \<Rightarrow> nat \<times> audit_state" where
  "new_status r s = (length (av_statuses s), s\<lparr>av_statuses := av_statuses s @ [r]\<rparr>)"

definition new_ips :: "string \<Rightarrow> audit_state \<Rightarrow> nat \<times> audit_state" where
  "new_ips ip s = (length (av_ips s), s\<lparr>av_ips := av_ips s @ [ip]\<rparr>)"

definition new_event :: "audit_event \<Rightarrow> audit_state \<Rightarrow> nat \<times> audit_state" where
  "new_event e s = (length (av_events s), s\<lparr>av_events := av_events s @ [e]\<rparr>)"

section \<open>Levels and the channel\<close>

definition getAuditLevel :: "audit_env \<Rightarrow> nat" where
  "getAuditLevel env = (case au_webhook env of None \<Rightarrow> 0 | Some (level, k8s) \<Rightarrow> level)"

definition Enabled :: "audit_env \<Rightarrow> bool" where
  "Enabled env = (\<not> getAuditLevel env < 1)"

definition K8sAuditingEnabled :: "audit_env \<Rightarrow> bool" where
  "K8sAuditingEnabled env = (case au_webhook env of None \<Rightarrow> False | Some (level, k8s) \<Rightarrow> k8s)"

text \<open>An event is lost when the channel has no room until the time-out.\<close>

definition cacheEvent :: "audit_env \<Rightarrow> audit_event \<Rightarrow> audit_state \<Rightarrow> audit_state" where
  "cacheEvent env e s =
     (let s' = (if length (av_cache s) < au_capacity env then s else au_wait env s) in
      if length (av_cache s') < au_capacity env then s'\<lparr>av_cache := av_cache s' @ [e]\<rparr> else s')"

section \<open>The variables of the login\<close>

definition SetLoginUserName :: "string \<Rightarrow> bool \<Rightarrow> audit_state \<Rightarrow> audit_state" where
  "SetLoginUserName name err s = s\<lparr>av_loginerr := err, av_loginUserName := name\<rparr>"

definition set_ref_name :: "nat \<Rightarrow> string \<Rightarrow> audit_state \<Rightarrow> audit_state" where
  "set_ref_name r name s = s\<lparr>av_refs := (av_refs s)[r := (av_refs s ! r)\<lparr>ref_Name := name\<rparr>]\<rparr>"

text \<open>A write through a nil pointer or into an empty slice is a panic, which ends the process: \<^const>\<open>None\<close>.\<close>

definition set_reason :: "nat option \<Rightarrow> string \<Rightarrow> audit_state \<Rightarrow> audit_state option" where
  "set_reason p reason s =
     (case p of
        None \<Rightarrow> None
      | Some i \<Rightarrow> Some (s\<lparr>av_statuses := (av_statuses s)[i := (av_statuses s ! i)\<lparr>rs_Reason := reason\<rparr>]\<rparr>))"

definition set_ip :: "nat option \<Rightarrow> string \<Rightarrow> audit_state \<Rightarrow> audit_state option" where
  "set_ip p ip s = (case p of None \<Rightarrow> None | Some i \<Rightarrow> Some (s\<lparr>av_ips := (av_ips s)[i := ip]\<rparr>))"

definition SendLogout :: "audit_env \<Rightarrow> audit_state \<Rightarrow> audit_state option" where
  "SendLogout env s =
     (if \<not> av_islogin s then Some s
      else do {
        a \<leftarrow> av_loginevent s;
        let e = (av_events s ! a)\<lparr>ev_Username := av_loginUserName s\<rparr>;
        s1 \<leftarrow> set_ip (ev_ips e) (av_loginip s) (s\<lparr>av_islogin := False\<rparr>);
        let s2 = (set_ref_name (ev_ref e) (av_loginUserName s) s1)\<lparr>av_events := (av_events s1)[a := e]\<rparr>;
        s3 \<leftarrow> set_reason (ev_status e) ''Logout successfully'' s2;
        Some (cacheEvent env e s3)
      })"

section \<open>Logging a request\<close>

definition InstallerPath :: string where
  "InstallerPath = ''/apis/installer.kubesphere.io/v1alpha1/namespaces/kubesphere-system/clusterconfigurations/ks-installer''"

definition info_ref :: "request_info \<Rightarrow> string \<Rightarrow> string \<Rightarrow> object_ref" where
  "info_ref info resource name =
     \<lparr>ref_Resource = resource, ref_Namespace = ri_Namespace info, ref_Name = name, ref_APIGroup = ri_APIGroup info,
      ref_APIVersion = ri_APIVersion info, ref_ResourceVersion = ri_ResourceScope info, ref_Subresource = ri_Subresource info\<rparr>"

definition base_event :: "audit_env \<Rightarrow> audit_request \<Rightarrow> request_info \<Rightarrow> string \<Rightarrow> nat \<Rightarrow> nat option \<Rightarrow> nat option \<Rightarrow> audit_event" where
  "base_event env req info verb r ip st =
     \<lparr>ev_Devops = ri_DevOps info, ev_Workspace = ri_Workspace info, ev_Cluster = ri_Cluster info, ev_RequestURI = ri_Path info,
      ev_Verb = verb, ev_Level = getAuditLevel env, ev_UserAgent = User_Agent (aq_http req), ev_Username = [], ev_Groups = [],
      ev_Extra = [], ev_ref = r, ev_ips = ip, ev_status = st, ev_RequestObject = None, ev_ResponseObject = None\<rparr>"

definition with_user :: "auth_user \<Rightarrow> audit_event \<Rightarrow> audit_event" where
  "with_user user e = e\<lparr>ev_Username := u_Name user, ev_Groups := u_Groups user\<rparr>"

text \<open>The workspace of a DevOps project; listing projects may fail, and the nil list then panics.\<close>

fun devops_loop :: "devops_entry list \<Rightarrow> audit_event \<Rightarrow> audit_event" where
  "devops_loop [] e = e"
| "devops_loop (d # ds) e =
     devops_loop ds
       (if dg_Name d = ev_Devops e then e\<lparr>ev_Workspace := dg_Workspace d\<rparr>
        else if dg_AdminNamespace d = ev_Devops e then e\<lparr>ev_Workspace := dg_Workspace d, ev_Devops := dg_Name d\<rparr>
        else e)"

definition devops_workspace :: "audit_env \<Rightarrow> audit_event \<Rightarrow> audit_event option" where
  "devops_workspace env e =
     (if length (ev_Devops e) > 0 \<and> length (ev_Workspace e) = 0
      then (case au_devops env of Inl err \<Rightarrow> None | Inr ds \<Rightarrow> Some (devops_loop ds e))
      else Some e)"

text \<open>The event that auditing was switched, made when the installer's configuration is updated.\<close>

definition switch_event :: "audit_env \<Rightarrow> audit_request \<Rightarrow> request_info \<Rightarrow> string \<Rightarrow> bool \<Rightarrow> nat option \<Rightarrow> audit_state \<Rightarrow> audit_state" where
  "switch_event env req info reason enable ip s =
     (case new_ref (info_ref info ''SystemFunction'' ''audit'') s of (r, s1) \<Rightarrow>
      case new_status \<lparr>rs_Code = 0, rs_Status = ''INFO'', rs_Reason = reason\<rparr> s1 of (st, s2) \<Rightarrow>
        cacheEvent env (with_user (aq_User req) (base_event env req info (if enable then ''enable'' else []) r ip (Some st))) s2)"

definition getloginip :: "audit_env \<Rightarrow> string" where
  "getloginip env = (case au_loginip_service env of Inr (Inr body) \<Rightarrow> body | _ \<Rightarrow> [])"

definition login_event :: "audit_env \<Rightarrow> audit_request \<Rightarrow> request_info \<Rightarrow> nat \<Rightarrow> audit_state \<Rightarrow> nat \<times> audit_state" where
  "login_event env req info ip s =
     (case new_ref (info_ref info ''users'' []) s of (r, s1) \<Rightarrow>
      case new_status \<lparr>rs_Code = 0, rs_Status = ''INFO'', rs_Reason = ''Login successfully''\<rparr> s1 of (st, s2) \<Rightarrow>
      case new_event ((base_event env req info [] r (Some ip) (Some st))\<lparr>ev_Username := ''waitforchange'', ev_Groups := u_Groups (aq_User req)\<rparr>)
             (s2\<lparr>av_ips := (av_ips s2)[ip := getloginip env]\<rparr>) of (a, s3) \<Rightarrow>
        (a, s3\<lparr>av_loginevent := Some a\<rparr>))"

definition logout_event :: "audit_env \<Rightarrow> audit_request \<Rightarrow> request_info \<Rightarrow> nat \<Rightarrow> audit_state \<Rightarrow> audit_state" where
  "logout_event env req info ip s =
     (case new_ref (info_ref info ''users'' (u_Name (aq_User req))) s of (r, s1) \<Rightarrow>
      case new_status \<lparr>rs_Code = 0, rs_Status = ''INFO'', rs_Reason = ''Logout successfully''\<rparr> s1 of (st, s2) \<Rightarrow>
        cacheEvent env (with_user (aq_User req) (base_event env req info [] r (Some ip) (Some st)))
          (s2\<lparr>av_ips := (av_ips s2)[ip := av_loginip s2], av_islogin := False\<rparr>))"

definition log_body :: "audit_env \<Rightarrow> audit_request \<Rightarrow> request_info \<Rightarrow> audit_event \<Rightarrow> audit_state \<Rightarrow> audit_event \<times> audit_state" where
  "log_body env req info e s =
     (if (ev_Level e \<ge> 2 \<or> ev_Verb e = ''create'') \<and> aq_ContentLength req > 0
      then (case aq_Body req of
              None \<Rightarrow> (e, s)
            | Some body \<Rightarrow>
                (if ev_Level e \<ge> 2 then e\<lparr>ev_RequestObject := Some body\<rparr> else e,
                 if ri_Verb info = ''create''
                 then (case au_decodeName env body of None \<Rightarrow> s | Some name \<Rightarrow> set_ref_name (ev_ref e) name s)
                 else s))
      else (e, s))"

definition log_paths :: "audit_env \<Rightarrow> audit_request \<Rightarrow> request_info \<Rightarrow> nat \<Rightarrow> audit_event \<Rightarrow> audit_state \<Rightarrow> nat \<times> audit_state" where
  "log_paths env req info ip e s =
     (if ri_Path info = ''/oauth/token'' then login_event env req info ip s
      else
        (let s' = (if ri_Path info = ''/oauth/logout'' then logout_event env req info ip s else s)
         in case log_body env req info e s' of (e', s'') \<Rightarrow> new_event e' s''))"

definition log_installer :: "audit_env \<Rightarrow> audit_request \<Rightarrow> request_info \<Rightarrow> nat \<Rightarrow> audit_event \<Rightarrow> audit_state \<Rightarrow> nat \<times> audit_state" where
  "log_installer env req info ip e s =
     (if ri_Verb info = ''update'' \<and> ri_Path info = InstallerPath
      then (case aq_Body req of
              None \<Rightarrow> new_event e s
            | Some body \<Rightarrow>
                log_paths env req info ip e
                  (if Enabled env \<noteq> au_decodeEnable env body
                   then switch_event env req info ''Disable audit successfully'' (au_decodeEnable env body) (Some ip) s else s))
      else log_paths env req info ip e s)"

text \<open>The outer \<^const>\<open>None\<close> is a panic, the inner one a request that is not audited; otherwise the address of the event.\<close>

definition LogRequestObject :: "audit_env \<Rightarrow> audit_request \<Rightarrow> request_info \<Rightarrow> audit_state \<Rightarrow> (nat option \<times> audit_state) option" where
  "LogRequestObject env req info s =
     (if \<not> Enabled env \<and> ri_Path info \<noteq> InstallerPath then Some (None, s)
      else if ri_IsKubernetesRequest info \<and> map_get [] (URL_Query (aq_http req)) ''dryRun'' \<noteq> [] then Some (None, s)
      else
        (case new_ref (info_ref info (ri_Resource info) (ri_Name info)) s of (r, s1) \<Rightarrow>
         let e = base_event env req info (ri_Verb info) r None None in
         if ri_Path info \<in> set [''/oauth/token'', ''/oauth/logout''] \<and> aq_Body req = None
         then (case new_event e s1 of (a, s2) \<Rightarrow> Some (Some a, s2))
         else (case devops_workspace env e of
                 None \<Rightarrow> None
               | Some e1 \<Rightarrow>
                   (case new_ips (RemoteIp (aq_http req)) s1 of (ip, s2) \<Rightarrow>
                    case log_installer env req info ip
                           ((with_user (aq_User req) e1)\<lparr>ev_ips := Some ip, ev_Extra := u_Extra (aq_User req)\<rparr>) s2 of
                      (a, s3) \<Rightarrow> Some (Some a, s3)))))"

definition LogRequestObjectLinstor :: "audit_env \<Rightarrow> audit_request \<Rightarrow> request_info \<Rightarrow> audit_state \<Rightarrow> audit_state" where
  "LogRequestObjectLinstor env req info s =
     (if au_decodeEnable env (case aq_Body req of None \<Rightarrow> [] | Some body \<Rightarrow> body)
      then (case new_ips (RemoteIp (aq_http req)) s of (ip, s') \<Rightarrow>
              switch_event env req info ''Enable audit successfully'' False (Some ip) s')
      else s)"

section \<open>Logging a response\<close>

text \<open>What the filter captures of the answer while the handler writes it; the status stays 0 when nothing is written.\<close>

record response_capture =
  rc_wroteHeader :: bool
  rc_status :: int
  rc_body :: string

datatype answer_part = PartHeader int | PartData string

definition NewResponseCapture :: response_capture where
  "NewResponseCapture = \<lparr>rc_wroteHeader = False, rc_status = 0, rc_body = []\<rparr>"

definition WriteHeader :: "int \<Rightarrow> response_capture \<Rightarrow> response_capture" where
  "WriteHeader code c = (if \<not> rc_wroteHeader c then c\<lparr>rc_status := code, rc_wroteHeader := True\<rparr> else c)"

definition capture_Write :: "string \<Rightarrow> response_capture \<Rightarrow> response_capture" where
  "capture_Write data c = (let c' = WriteHeader 200 c in c'\<lparr>rc_body := rc_body c' @ data\<rparr>)"

fun capture_part :: "answer_part \<Rightarrow> response_capture \<Rightarrow> response_capture" where
  "capture_part (PartHeader code) c = WriteHeader code c"
| "capture_part (PartData data) c = capture_Write data c"

definition captured :: "answer_part list \<Rightarrow> response_capture" where
  "captured parts = fold capture_part parts NewResponseCapture"

definition log_login :: "audit_env \<Rightarrow> nat \<Rightarrow> audit_event \<Rightarrow> audit_state \<Rightarrow> audit_state option" where
  "log_login env a e s = do {
     s1 \<leftarrow> (if av_loginerr s then set_reason (ev_status e) ''Login failed'' s
           else do {
             ip \<leftarrow> ev_ips e;
             Some (s\<lparr>av_islogin := True, av_loginip := av_ips s ! ip\<rparr>)
           });
     let e' = e\<lparr>ev_Username := av_loginUserName s1\<rparr>;
     let s2 = (set_ref_name (ev_ref e) (av_loginUserName s1) s1)\<lparr>av_events := (av_events s1)[a := e']\<rparr>;
     Some (cacheEvent env e' s2)
   }"

definition LogResponseObject :: "audit_env \<Rightarrow> nat \<Rightarrow> response_capture \<Rightarrow> audit_state \<Rightarrow> audit_state option" where
  "LogResponseObject env a resp s =
     (let e = av_events s ! a in
      if ev_Username e = ''waitforchange''
      then (if \<not> av_islogin s then log_login env a e s else Some s)
      else
        (case new_status \<lparr>rs_Code = rc_status resp, rs_Status = [], rs_Reason = []\<rparr> s of (st, s1) \<Rightarrow>
           let e' = e\<lparr>ev_status := Some st, ev_ResponseObject := (if ev_Level e \<ge> 3 then Some (rc_body resp) else ev_ResponseObject e)\<rparr>
           in Some (cacheEvent env e' (s1\<lparr>av_events := (av_events s1)[a := e']\<rparr>))))"

text \<open>What the backend sends of an event: the texts its pointers lead to at that moment.\<close>

record sent_event =
  se_event :: audit_event
  se_ref :: object_ref
  se_ip :: "string option"
  se_status :: "resp_status option"

definition rendered :: "audit_state \<Rightarrow> audit_event \<Rightarrow> sent_event" where
  "rendered s e = \<lparr>se_event = e, se_ref = av_refs s ! ev_ref e, se_ip = map_option (\<lambda>i. av_ips s ! i) (ev_ips e),
     se_status = map_option (\<lambda>i. av_statuses s ! i) (ev_status e)\<rparr>"

section \<open>The filter\<close>

text \<open>The handler runs between the two halves; the second half runs in a goroutine of its own after it.\<close>

definition audits_request :: "audit_env \<Rightarrow> request_info \<Rightarrow> bool" where
  "audits_request env info \<longleftrightarrow> \<not> (ri_IsKubernetesRequest info \<and> K8sAuditingEnabled env)"

definition WithAuditing :: "audit_env \<Rightarrow> audit_request \<Rightarrow> request_info \<Rightarrow> (audit_state \<Rightarrow> answer_part list \<times> audit_state) \<Rightarrow> audit_state \<Rightarrow> (answer_part list \<times> audit_state) option" where
  "WithAuditing env req info handler s =
     (if \<not> audits_request env info then Some (handler s)
      else (case LogRequestObject env req info s of
              None \<Rightarrow> None
            | Some (None, s1) \<Rightarrow> Some (handler s1)
            | Some (Some a, s1) \<Rightarrow>
                (case handler s1 of (parts, s2) \<Rightarrow> map_option (\<lambda>s3. (parts, s3)) (LogResponseObject env a (captured parts) s2))))"

definition WithAuditingForEnable :: "audit_env \<Rightarrow> audit_request \<Rightarrow> request_info \<Rightarrow> (audit_state \<Rightarrow> answer_part list \<times> audit_state) \<Rightarrow> audit_state \<Rightarrow> answer_part list \<times> audit_state" where
  "WithAuditingForEnable env req info handler s =
     (if ri_Verb info \<noteq> ''update'' \<or> ri_Path info \<noteq> InstallerPath then handler s
      else handler (LogRequestObjectLinstor env req info s))"

section \<open>The backend\<close>

record backend_options =
  bo_WebhookUrl :: string
  bo_EventBatchSize :: nat
  bo_EventBatchInterval :: nat
  bo_EventSendersNum :: nat

record backend =
  bk_url :: string
  bk_eventBatchSize :: nat
  bk_eventBatchInterval :: nat
  bk_senders :: nat

text \<open>Durations are in seconds.\<close>

definition NewBackend :: "backend_options \<Rightarrow> backend" where
  "NewBackend opts =
     \<lparr>bk_url = (if length (bo_WebhookUrl opts) = 0
               then ''https://kube-auditing-webhook-svc.kubesphere-logging-system.svc:6443/audit/webhook/event'' else bo_WebhookUrl opts),
      bk_eventBatchSize = (if bo_EventBatchSize opts = 0 then 100 else bo_EventBatchSize opts),
      bk_eventBatchInterval = (if bo_EventBatchInterval opts = 0 then 3 else bo_EventBatchInterval opts),
      bk_senders = (if bo_EventSendersNum opts = 0 then 100 else bo_EventSendersNum opts)\<rparr>"

text \<open>The bytes of a batch; when they cannot be made, once more without the response of the first event.\<close>

definition eventToBytes :: "(audit_event list \<Rightarrow> (string, string) result) \<Rightarrow> audit_event list \<Rightarrow> (string, string) result" where
  "eventToBytes marshal events =
     (case marshal events of
        Inr bs \<Rightarrow> Inr bs
      | Inl err \<Rightarrow>
          (if ev_ResponseObject (events ! 0) \<noteq> None
           then marshal (events[0 := (events ! 0)\<lparr>ev_ResponseObject := None\<rparr>]) else Inl err))"


text \<open>
  What the collecting loop receives, in order: an event from the channel, the end of the batch interval, or the
  stop signal. A batch is the result of one round; the stop signal gives up what was collected.
\<close>

datatype 'a signal = Event 'a | Tick | Stop

fun getEvents :: "nat \<Rightarrow> 'a list \<Rightarrow> 'a signal list \<Rightarrow> ('a list option \<times> 'a signal list) option" where
  "getEvents batchSize items [] = None"
| "getEvents batchSize items (Event e # sigs) =
     (let items' = items @ [e] in
      if length items' \<ge> batchSize then Some (Some items', sigs) else getEvents batchSize items' sigs)"
| "getEvents batchSize items (Tick # sigs) = Some (Some items, sigs)"
| "getEvents batchSize items (Stop # sigs) = Some (None, sigs)"

lemma getEvents_shorter: "getEvents n items sigs = Some (r, rest) \<Longrightarrow> length rest < length sigs"
  by (induction n items sigs rule: getEvents.induct) (auto simp: Let_def split: if_splits)

text \<open>The batches the worker hands to senders, empty ones left out.\<close>

function backend_worker :: "nat \<Rightarrow> 'a signal list \<Rightarrow> 'a list list" where
  "backend_worker batchSize sigs =
     (case getEvents batchSize [] sigs of
        None \<Rightarrow> []
      | Some (None, rest) \<Rightarrow> []
      | Some (Some items, rest) \<Rightarrow>
          if length items = 0 then backend_worker batchSize rest else items # backend_worker batchSize rest)"
  by pat_completeness auto
termination by (relation "measure (\<lambda>(n, sigs). length sigs)") (auto dest: getEvents_shorter)

declare backend_worker.simps [simp del]

section \<open>Auditing of requests\<close>

lemmas store_defs = new_ref_def new_status_def new_ips_def new_event_def

text \<open>The store grows and its entries stay.\<close>

definition keeps :: "audit_state \<Rightarrow> audit_state \<Rightarrow> bool" where
  "keeps s s' \<longleftrightarrow> prefix (av_refs s) (av_refs s') \<and> prefix (av_ips s) (av_ips s') \<and> prefix (av_events s) (av_events s')
     \<and> prefix (av_statuses s) (av_statuses s')"

text \<open>
  What one request needs of the others that run between \<open>s1\<close> and \<open>s2\<close>: they may write anywhere but into the events, references
  and addresses allocated since \<open>s\<close>, which only this request has pointers to.
\<close>

definition own_kept :: "audit_state \<Rightarrow> audit_state \<Rightarrow> audit_state \<Rightarrow> bool" where
  "own_kept s s1 s2 \<longleftrightarrow>
     (\<forall>i. length (av_events s) \<le> i \<and> i < length (av_events s1) \<longrightarrow> i < length (av_events s2) \<and> av_events s2 ! i = av_events s1 ! i) \<and>
     (\<forall>i. length (av_refs s) \<le> i \<and> i < length (av_refs s1) \<longrightarrow> i < length (av_refs s2) \<and> av_refs s2 ! i = av_refs s1 ! i) \<and>
     (\<forall>i. length (av_ips s) \<le> i \<and> i < length (av_ips s1) \<longrightarrow> i < length (av_ips s2) \<and> av_ips s2 ! i = av_ips s1 ! i)"

lemma cacheEvent_room:
  "length (av_cache s) < au_capacity env \<Longrightarrow> cacheEvent env e s = s\<lparr>av_cache := av_cache s @ [e]\<rparr>"
  by (simp add: cacheEvent_def)

text \<open>A request whose path is neither the installer's configuration nor an OAuth endpoint.\<close>

definition ordinary :: "request_info \<Rightarrow> bool" where
  "ordinary info \<longleftrightarrow> ri_Path info \<notin> set [InstallerPath, ''/oauth/token'', ''/oauth/logout'']"

text \<open>Looking up the workspace changes only the workspace and the project of an event.\<close>

definition same_request :: "audit_event \<Rightarrow> audit_event \<Rightarrow> bool" where
  "same_request e e' \<longleftrightarrow> e'\<lparr>ev_Workspace := [], ev_Devops := []\<rparr> = e\<lparr>ev_Workspace := [], ev_Devops := []\<rparr>"

lemma same_request_refl [simp]: "same_request e e" by (simp add: same_request_def)

lemma devops_loop_frame: "same_request e (devops_loop ds e)"
  by (induction ds e rule: devops_loop.induct) (simp_all add: same_request_def)

lemma devops_workspace_frame: "devops_workspace env e = Some e' \<Longrightarrow> same_request e e'"
  by (auto simp: devops_workspace_def devops_loop_frame split: if_splits sum.splits)

lemma same_requestD:
  assumes "same_request e e'"
  shows "ev_Username e' = ev_Username e" "ev_Verb e' = ev_Verb e" "ev_RequestURI e' = ev_RequestURI e"
    "ev_Level e' = ev_Level e" "ev_ref e' = ev_ref e" "ev_status e' = ev_status e"
  using arg_cong [OF assms [unfolded same_request_def], of ev_Username] arg_cong [OF assms [unfolded same_request_def], of ev_Verb]
    arg_cong [OF assms [unfolded same_request_def], of ev_RequestURI] arg_cong [OF assms [unfolded same_request_def], of ev_Level]
    arg_cong [OF assms [unfolded same_request_def], of ev_ref]
    arg_cong [OF assms [unfolded same_request_def], of ev_status]
  by simp_all

text \<open>What one ordinary request writes: one event at a new address, with its user, verb and path.\<close>

lemma LogRequestObject_ordinary:
  assumes on: "Enabled env" and ord: "ordinary info"
    and dry: "\<not> (ri_IsKubernetesRequest info \<and> map_get [] (URL_Query (aq_http req)) ''dryRun'' \<noteq> [])"
    and devops: "ri_DevOps info \<noteq> [] \<Longrightarrow> ri_Workspace info = [] \<Longrightarrow> \<exists>ds. au_devops env = Inr ds"
  obtains a s' where "LogRequestObject env req info s = Some (Some a, s')"
    and "a = length (av_events s)" and "a < length (av_events s')"
    and "ev_ref (av_events s' ! a) = length (av_refs s)" and "length (av_refs s) < length (av_refs s')"
    and "ev_ips (av_events s' ! a) = Some (length (av_ips s))" and "av_ips s' = av_ips s @ [RemoteIp (aq_http req)]"
    and "ev_Username (av_events s' ! a) = u_Name (aq_User req)" and "ev_Verb (av_events s' ! a) = ri_Verb info"
    and "ev_RequestURI (av_events s' ! a) = ri_Path info" and "av_cache s' = av_cache s" and "keeps s s'"
    and "ref_Resource (av_refs s' ! ev_ref (av_events s' ! a)) = ri_Resource info"
    and "ref_Namespace (av_refs s' ! ev_ref (av_events s' ! a)) = ri_Namespace info"
    and "ev_status (av_events s' ! a) = None" and "av_loginerr s' = av_loginerr s" and "av_islogin s' = av_islogin s"
proof -
  define r where "r = info_ref info (ri_Resource info) (ri_Name info)"
  define s2 where "s2 = s\<lparr>av_refs := av_refs s @ [r], av_ips := av_ips s @ [RemoteIp (aq_http req)]\<rparr>"
  define e where "e = base_event env req info (ri_Verb info) (length (av_refs s)) None None"
  have "ev_Devops e = ri_DevOps info" "ev_Workspace e = ri_Workspace info" by (simp_all add: e_def base_event_def)
  then have "\<exists>e1. devops_workspace env e = Some e1" using devops by (auto simp: devops_workspace_def)
  then obtain e1 where e1: "devops_workspace env e = Some e1" by blast
  define e2 where "e2 = (with_user (aq_User req) e1)\<lparr>ev_ips := Some (length (av_ips s)), ev_Extra := u_Extra (aq_User req)\<rparr>"
  obtain e3 s3 where e3: "log_body env req info e2 s2 = (e3, s3)" by fastforce
  note frame = same_requestD [OF devops_workspace_frame [OF e1]]
  have e3': "ev_Username e3 = ev_Username e2" "ev_Verb e3 = ev_Verb e2" "ev_RequestURI e3 = ev_RequestURI e2" "ev_ref e3 = ev_ref e2"
    "ev_ips e3 = ev_ips e2" "ev_status e3 = ev_status e2"
    using e3 by (auto simp: log_body_def split: if_splits option.splits)
  have s3': "av_cache s3 = av_cache s2" "av_events s3 = av_events s2" "av_ips s3 = av_ips s2" "av_statuses s3 = av_statuses s2"
    "av_loginerr s3 = av_loginerr s2" "av_islogin s3 = av_islogin s2"
    "\<exists>name. av_refs s3 = av_refs s @ [r\<lparr>ref_Name := name\<rparr>]"
    using e3 by (auto simp: log_body_def set_ref_name_def s2_def e2_def with_user_def frame e_def base_event_def r_def info_ref_def
        split: if_splits option.splits)
  then obtain name where refs: "av_refs s3 = av_refs s @ [r\<lparr>ref_Name := name\<rparr>]" by blast
  have "LogRequestObject env req info s = Some (Some (length (av_events s)), s3\<lparr>av_events := av_events s3 @ [e3]\<rparr>)"
    using on ord dry e1 e3 s3'
    by (simp add: LogRequestObject_def ordinary_def log_installer_def log_paths_def store_defs r_def s2_def e_def e2_def)
  then show ?thesis
    using that [of "length (av_events s)" "s3\<lparr>av_events := av_events s3 @ [e3]\<rparr>"] refs s3' e3' frame
    by (simp add: s2_def e2_def e_def base_event_def with_user_def r_def info_ref_def keeps_def)
qed

lemma LogResponseObject_ordinary:
  assumes "ev_Username (av_events s ! a) \<noteq> ''waitforchange''" and "length (av_cache s) < au_capacity env"
    and "a < length (av_events s)" and "e = av_events s ! a"
  obtains s' e' where "LogResponseObject env a resp s = Some s'" and "av_cache s' = av_cache s @ [e']"
    and "ev_Username e' = ev_Username e" and "ev_Verb e' = ev_Verb e" and "ev_RequestURI e' = ev_RequestURI e"
    and "ev_ref e' = ev_ref e" and "ev_ips e' = ev_ips e" and "av_refs s' = av_refs s" and "av_ips s' = av_ips s"
    and "map_option (\<lambda>i. av_statuses s' ! i) (ev_status e') = Some \<lparr>rs_Code = rc_status resp, rs_Status = [], rs_Reason = []\<rparr>"
proof
  show "LogResponseObject env a resp s = Some (the (LogResponseObject env a resp s))"
    using assms by (simp add: LogResponseObject_def Let_def store_defs)
  show "av_cache (the (LogResponseObject env a resp s)) = av_cache s @ [last (av_cache (the (LogResponseObject env a resp s)))]"
    using assms by (simp add: LogResponseObject_def Let_def store_defs cacheEvent_room)
qed (use assms in \<open>simp_all add: LogResponseObject_def Let_def store_defs cacheEvent_room nth_append\<close>)

text \<open>C27: An ordinary request (neither to the installer's configuration nor to an OAuth endpoint, nor a dry run of a Kubernetes
  request) that is audited puts exactly one event into the channel, with the user, verb, path, resource and address of the
  request and the status the handler wrote. Other requests may write anything into the store meanwhile except into what this
  one has allocated. It is assumed that there is room in the channel when the request ends, that a DevOps project can be looked
  up where it is needed, and that the user does not have the name that marks the event of a login.\<close>

theorem ordinary_request_audited:
  assumes "audits_request env info" and "Enabled env" and "ordinary info"
    and "\<not> (ri_IsKubernetesRequest info \<and> map_get [] (URL_Query (aq_http req)) ''dryRun'' \<noteq> [])"
    and "ri_DevOps info \<noteq> [] \<Longrightarrow> ri_Workspace info = [] \<Longrightarrow> \<exists>ds. au_devops env = Inr ds"
    and name: "u_Name (aq_User req) \<noteq> ''waitforchange''"
    and handler: "\<And>a s1. LogRequestObject env req info s = Some (a, s1) \<Longrightarrow>
      own_kept s s1 (snd (handler s1)) \<and> length (av_cache (snd (handler s1))) < au_capacity env"
  shows "\<exists>s1 s' e. WithAuditing env req info handler s = Some (fst (handler s1), s')
    \<and> keeps s s1 \<and> av_cache s1 = av_cache s \<and> av_cache s' = av_cache (snd (handler s1)) @ [e]
    \<and> ev_Username e = u_Name (aq_User req) \<and> ev_Verb e = ri_Verb info \<and> ev_RequestURI e = ri_Path info
    \<and> ref_Resource (se_ref (rendered s' e)) = ri_Resource info \<and> ref_Namespace (se_ref (rendered s' e)) = ri_Namespace info
    \<and> se_ip (rendered s' e) = Some (RemoteIp (aq_http req))
    \<and> se_status (rendered s' e) = Some \<lparr>rs_Code = rc_status (captured (fst (handler s1))), rs_Status = [], rs_Reason = []\<rparr>"
proof -
  obtain a s1 where log: "LogRequestObject env req info s = Some (Some a, s1)"
    and a: "a = length (av_events s)" "a < length (av_events s1)"
    and r: "ev_ref (av_events s1 ! a) = length (av_refs s)" "length (av_refs s) < length (av_refs s1)"
    and ip: "ev_ips (av_events s1 ! a) = Some (length (av_ips s))" "av_ips s1 = av_ips s @ [RemoteIp (aq_http req)]"
    and ev: "ev_Username (av_events s1 ! a) = u_Name (aq_User req)" "ev_Verb (av_events s1 ! a) = ri_Verb info"
      "ev_RequestURI (av_events s1 ! a) = ri_Path info"
    and s1: "av_cache s1 = av_cache s" "keeps s s1"
    and ref: "ref_Resource (av_refs s1 ! ev_ref (av_events s1 ! a)) = ri_Resource info"
      "ref_Namespace (av_refs s1 ! ev_ref (av_events s1 ! a)) = ri_Namespace info"
    by (rule LogRequestObject_ordinary [OF assms(2-5)])
  define s2 where "s2 = snd (handler s1)"
  have k: "own_kept s s1 s2" using handler [OF log] by (simp add: s2_def)
  have same: "av_events s2 ! a = av_events s1 ! a" "av_refs s2 ! ev_ref (av_events s1 ! a) = av_refs s1 ! ev_ref (av_events s1 ! a)"
    "av_ips s2 ! length (av_ips s) = av_ips s1 ! length (av_ips s)"
    using k a r ip(2) by (simp_all add: own_kept_def)
  have "a < length (av_events s2)" using k a by (simp add: own_kept_def)
  moreover have "ev_Username (av_events s2 ! a) \<noteq> ''waitforchange''" using name same ev by simp
  moreover have "length (av_cache s2) < au_capacity env" using handler [OF log] by (simp add: s2_def)
  ultimately obtain s' e' where *: "LogResponseObject env a (captured (fst (handler s1))) s2 = Some s'" "av_cache s' = av_cache s2 @ [e']"
    "ev_Username e' = ev_Username (av_events s1 ! a)" "ev_Verb e' = ev_Verb (av_events s1 ! a)"
    "ev_RequestURI e' = ev_RequestURI (av_events s1 ! a)" "ev_ref e' = ev_ref (av_events s1 ! a)"
    "ev_ips e' = ev_ips (av_events s1 ! a)" "av_refs s' = av_refs s2" "av_ips s' = av_ips s2"
    "map_option (\<lambda>i. av_statuses s' ! i) (ev_status e')
       = Some \<lparr>rs_Code = rc_status (captured (fst (handler s1))), rs_Status = [], rs_Reason = []\<rparr>"
    using LogResponseObject_ordinary [of s2 a env "av_events s1 ! a"] same by metis
  have "WithAuditing env req info handler s = Some (fst (handler s1), s')"
    using assms(1) log *(1) by (simp add: WithAuditing_def s2_def case_prod_beta)
  moreover have "se_ip (rendered s' e') = Some (RemoteIp (aq_http req))" using * ip same by (simp add: rendered_def)
  ultimately show ?thesis using * s1 ev ref same
    by (intro exI [of _ s1] exI [of _ s'] exI [of _ e']) (simp add: s2_def rendered_def)
qed

definition sample_env :: "nat \<Rightarrow> audit_env" where
  "sample_env level = \<lparr>au_webhook = Some (level, False), au_devops = Inr [], au_loginip_service = Inr (Inr ''10.0.0.9''),
     au_decodeEnable = (\<lambda>b. False), au_decodeName = (\<lambda>b. None), au_capacity = 1000, au_wait = id\<rparr>"

definition sample_state :: audit_state where
  "sample_state = \<lparr>av_refs = [], av_statuses = [], av_ips = [], av_events = [], av_loginevent = None, av_loginUserName = [],
     av_loginerr = True, av_islogin = False, av_loginip = [], av_cache = []\<rparr>"

definition sample_areq :: "string \<Rightarrow> string \<Rightarrow> audit_request" where
  "sample_areq name path = \<lparr>aq_http = \<lparr>Method = ''POST'', URL_Path = path, URL_Query = [], RemoteAddr = [], Header = [], User_Agent = []\<rparr>,
     aq_User = \<lparr>u_Name = name, u_Groups = [], u_Extra = []\<rparr>, aq_Body = Some [], aq_ContentLength = 0\<rparr>"

text \<open>The information of a sample request is any one with this path and no project.\<close>

definition info_at :: "string \<Rightarrow> request_info \<Rightarrow> request_info" where
  "info_at path info = info\<lparr>ri_Path := path, ri_DevOps := [], ri_Verb := ''create'', ri_IsKubernetesRequest := False\<rparr>"

lemmas sample_defs = sample_env_def sample_state_def sample_areq_def info_at_def audits_request_def K8sAuditingEnabled_def Enabled_def
  getAuditLevel_def ordinary_def InstallerPath_def

theorem ordinary_request_audited_witness:
  "\<forall>info. \<exists>s1 s' e. WithAuditing (sample_env 1) (sample_areq ''alice'' ''/kapis'') (info_at ''/kapis'' info) (\<lambda>s. ([PartHeader 201], s\<lparr>av_cache := []\<rparr>)) sample_state
      = Some ([PartHeader 201], s')
    \<and> keeps sample_state s1 \<and> av_cache s1 = [] \<and> av_cache s' = [e] \<and> ev_Username e = ''alice'' \<and> ev_Verb e = ''create''"
proof
  fix info
  show "\<exists>s1 s' e. WithAuditing (sample_env 1) (sample_areq ''alice'' ''/kapis'') (info_at ''/kapis'' info) (\<lambda>s. ([PartHeader 201], s\<lparr>av_cache := []\<rparr>)) sample_state
      = Some ([PartHeader 201], s')
    \<and> keeps sample_state s1 \<and> av_cache s1 = [] \<and> av_cache s' = [e] \<and> ev_Username e = ''alice'' \<and> ev_Verb e = ''create''"
    using ordinary_request_audited [of "sample_env 1" "info_at ''/kapis'' info" "sample_areq ''alice'' ''/kapis''"
        sample_state "\<lambda>s. ([PartHeader 201], s\<lparr>av_cache := []\<rparr>)"]
    by (simp add: sample_defs own_kept_def) metis
qed

section \<open>Auditing of logins\<close>

text \<open>A login: a request for a token that is audited and whose handler reports the name and whether the login failed.\<close>

definition login_request :: "audit_env \<Rightarrow> audit_request \<Rightarrow> request_info \<Rightarrow> bool" where
  "login_request env req info \<longleftrightarrow> audits_request env info \<and> Enabled env \<and> ri_Path info = ''/oauth/token'' \<and> aq_Body req \<noteq> None
     \<and> ri_DevOps info = [] \<and> ri_Verb info \<noteq> ''update'' \<and> \<not> ri_IsKubernetesRequest info"

definition login_attempt :: "audit_env \<Rightarrow> audit_request \<Rightarrow> request_info \<Rightarrow> string \<times> bool \<Rightarrow> audit_state \<Rightarrow> audit_state option" where
  "login_attempt env req info attempt s =
     map_option snd (WithAuditing env req info (\<lambda>s. ([], SetLoginUserName (fst attempt) (snd attempt) s)) s)"

fun login_attempts :: "audit_env \<Rightarrow> audit_request \<Rightarrow> request_info \<Rightarrow> (string \<times> bool) list \<Rightarrow> audit_state \<Rightarrow> audit_state option" where
  "login_attempts env req info [] s = Some s"
| "login_attempts env req info (x # xs) s = Option.bind (login_attempt env req info x s) (login_attempts env req info xs)"

text \<open>The event of the last login has its pointers.\<close>

definition login_remembered :: "audit_state \<Rightarrow> bool" where
  "login_remembered s \<longleftrightarrow>
     (\<exists>a ip st. av_loginevent s = Some a \<and> a < length (av_events s) \<and> ev_ref (av_events s ! a) < length (av_refs s)
        \<and> ev_ips (av_events s ! a) = Some ip \<and> ip < length (av_ips s)
        \<and> ev_status (av_events s ! a) = Some st \<and> st < length (av_statuses s))"

lemma LogRequestObject_login:
  assumes "login_request env req info"
  shows "\<exists>e r. LogRequestObject env req info s = Some (Some (length (av_events s)),
      s\<lparr>av_refs := av_refs s @ [r, info_ref info ''users'' []],
        av_statuses := av_statuses s @ [\<lparr>rs_Code = 0, rs_Status = ''INFO'', rs_Reason = ''Login successfully''\<rparr>],
        av_ips := av_ips s @ [getloginip env],
        av_events := av_events s @ [e], av_loginevent := Some (length (av_events s))\<rparr>)
    \<and> ev_Username e = ''waitforchange'' \<and> ev_ref e = Suc (length (av_refs s)) \<and> ev_ips e = Some (length (av_ips s))
    \<and> ev_status e = Some (length (av_statuses s))"
proof -
  define e where "e = (base_event env req info [] (Suc (length (av_refs s))) (Some (length (av_ips s))) (Some (length (av_statuses s))))
    \<lparr>ev_Username := ''waitforchange'', ev_Groups := u_Groups (aq_User req)\<rparr>"
  have "devops_workspace env (base_event env req info v r ip st) = Some (base_event env req info v r ip st)" for v r ip st
    using assms by (simp add: devops_workspace_def base_event_def login_request_def)
  moreover obtain body where "aq_Body req = Some body" using assms by (auto simp: login_request_def)
  ultimately show ?thesis using assms
    by (intro exI [of _ e] exI [of _ "info_ref info (ri_Resource info) (ri_Name info)"])
       (simp add: login_request_def LogRequestObject_def log_installer_def log_paths_def login_event_def store_defs Let_def e_def, simp add: base_event_def)
qed

lemma login_attempt_first:
  assumes "login_request env req info" and "\<not> av_islogin s" and "length (av_cache s) < au_capacity env"
  shows "\<exists>e s'. login_attempt env req info (name, err) s = Some s' \<and> av_cache s' = av_cache s @ [e]
    \<and> ev_Username e = name \<and> ref_Name (se_ref (rendered s' e)) = name \<and> av_islogin s' = (\<not> err) \<and> av_loginUserName s' = name
    \<and> se_status (rendered s' e) = Some \<lparr>rs_Code = 0, rs_Status = ''INFO'',
         rs_Reason = (if err then ''Login failed'' else ''Login successfully'')\<rparr>
    \<and> login_remembered s' \<and> av_events s' ! the (av_loginevent s') = e \<and> se_ip (rendered s' e) = Some (getloginip env)
    \<and> (\<not> err \<longrightarrow> av_loginip s' = getloginip env)"
  using assms LogRequestObject_login [OF assms(1), of s]
  by (cases err) (auto simp: login_request_def login_attempt_def WithAuditing_def SetLoginUserName_def LogResponseObject_def log_login_def Let_def
      set_reason_def set_ref_name_def cacheEvent_room rendered_def nth_append login_remembered_def list_update_append)

lemma login_attempt_again:
  assumes "login_request env req info" and "av_islogin s"
  shows "\<exists>s'. login_attempt env req info (name, err) s = Some s' \<and> av_cache s' = av_cache s \<and> av_islogin s'
    \<and> av_loginUserName s' = name \<and> av_loginip s' = av_loginip s \<and> login_remembered s'"
  using assms LogRequestObject_login [OF assms(1), of s]
  by (auto simp: login_request_def login_attempt_def WithAuditing_def SetLoginUserName_def LogResponseObject_def login_remembered_def nth_append)

lemma login_attempts_again:
  assumes "login_request env req info" and "av_islogin s" and "login_remembered s"
  shows "\<exists>s'. login_attempts env req info xs s = Some s' \<and> av_cache s' = av_cache s \<and> av_islogin s' \<and> login_remembered s'
    \<and> av_loginUserName s' = (if xs = [] then av_loginUserName s else fst (last xs)) \<and> av_loginip s' = av_loginip s"
  using assms(2,3)
proof (induction xs arbitrary: s)
  case (Cons x xs)
  obtain s1 where s1: "login_attempt env req info x s = Some s1" "av_cache s1 = av_cache s" "av_islogin s1" "av_loginUserName s1 = fst x"
      "av_loginip s1 = av_loginip s" "login_remembered s1"
    using login_attempt_again [OF assms(1) Cons.prems(1), of "fst x" "snd x"] by auto
  then show ?case using Cons.IH [of s1] by auto
qed simp

lemma SendLogout_event:
  assumes "login_remembered s" and "av_islogin s" and "length (av_cache s) < au_capacity env"
  shows "\<exists>e s'. SendLogout env s = Some s' \<and> av_cache s' = av_cache s @ [e] \<and> \<not> av_islogin s'
    \<and> ev_Username e = av_loginUserName s \<and> ref_Name (se_ref (rendered s' e)) = av_loginUserName s
    \<and> se_ip (rendered s' e) = Some (av_loginip s) \<and> map_option rs_Reason (se_status (rendered s' e)) = Some ''Logout successfully''
    \<and> (let e0 = av_events s ! the (av_loginevent s) in
         e = e0\<lparr>ev_Username := av_loginUserName s\<rparr> \<and>
         map_option rs_Reason (se_status (rendered s' e0)) = Some ''Logout successfully'')"
  using assms
  by (auto simp: login_remembered_def SendLogout_def set_ip_def set_reason_def set_ref_name_def cacheEvent_room rendered_def Let_def)

text \<open>A login while no login is on puts one event into the channel, with the name, the address and the result of the login.\<close>

theorem login_audited:
  assumes "login_request env req info" and "\<not> av_islogin s" and "length (av_cache s) < au_capacity env"
  shows "\<exists>e s'. login_attempt env req info (name, err) s = Some s' \<and> av_cache s' = av_cache s @ [e]
    \<and> ev_Username e = name \<and> ref_Name (se_ref (rendered s' e)) = name \<and> se_ip (rendered s' e) = Some (getloginip env)
    \<and> se_status (rendered s' e) = Some \<lparr>rs_Code = 0, rs_Status = ''INFO'',
         rs_Reason = (if err then ''Login failed'' else ''Login successfully'')\<rparr>"
  using login_attempt_first [OF assms] by blast

theorem login_audited_witness:
  "\<forall>info. \<exists>e s'. login_attempt (sample_env 1) (sample_areq ''system:anonymous'' ''/oauth/token'') (info_at ''/oauth/token'' info) (''alice'', True) sample_state = Some s'
    \<and> av_cache s' = [e] \<and> ev_Username e = ''alice'' \<and> se_ip (rendered s' e) = Some ''10.0.0.9''"
  using login_audited [of "sample_env 1" "sample_areq ''system:anonymous'' ''/oauth/token''" "info_at ''/oauth/token'' _" sample_state "''alice''" True]
  by (simp add: sample_defs login_request_def getloginip_def) metis

text \<open>After one successful login no login is audited any more, whoever tries and whether it fails or not, until a logout
  or an expired token; and that logout is then booked on the name tried last.\<close>

theorem logins_unaudited_after_login:
  assumes "login_request env req info" and "\<not> av_islogin s" and "Suc (length (av_cache s)) < au_capacity env"
    and "attempts \<noteq> []"
  shows "\<exists>s1 s2 s3 e. login_attempt env req info (name, False) s = Some s1 \<and> length (av_cache s1) = Suc (length (av_cache s))
    \<and> login_attempts env req info attempts s1 = Some s2 \<and> av_cache s2 = av_cache s1
    \<and> SendLogout env s2 = Some s3 \<and> av_cache s3 = av_cache s2 @ [e]
    \<and> ev_Username e = fst (last attempts) \<and> map_option rs_Reason (se_status (rendered s3 e)) = Some ''Logout successfully''"
proof -
  obtain e s1 where s1: "login_attempt env req info (name, False) s = Some s1" "av_cache s1 = av_cache s @ [e]"
    "av_islogin s1" "login_remembered s1"
    using login_attempt_first [OF assms(1,2), where name = name and err = False] assms(3) by auto
  obtain s2 where s2: "login_attempts env req info attempts s1 = Some s2" "av_cache s2 = av_cache s1" "av_islogin s2" "login_remembered s2"
    "av_loginUserName s2 = fst (last attempts)"
    using login_attempts_again [OF assms(1) s1(3,4), of attempts] assms(4) by auto
  have "length (av_cache s2) < au_capacity env" using s1(2) s2(2) assms(3) by simp
  then obtain e' s3 where "SendLogout env s2 = Some s3" "av_cache s3 = av_cache s2 @ [e']" "ev_Username e' = fst (last attempts)"
    "map_option rs_Reason (se_status (rendered s3 e')) = Some ''Logout successfully''"
    using SendLogout_event [OF s2(4,3)] s2(5) by metis
  with s1 s2 show ?thesis by (intro exI [of _ s1] exI [of _ s2] exI [of _ s3] exI [of _ e']) simp
qed

theorem logins_unaudited_after_login_witness:
  "\<forall>info. \<exists>s1 s2 s3 e. login_attempt (sample_env 1) (sample_areq ''system:anonymous'' ''/oauth/token'') (info_at ''/oauth/token'' info) (''alice'', False) sample_state = Some s1
    \<and> login_attempts (sample_env 1) (sample_areq ''system:anonymous'' ''/oauth/token'') (info_at ''/oauth/token'' info) [(''bob'', True), (''mallory'', True)] s1 = Some s2
    \<and> av_cache s2 = av_cache s1 \<and> SendLogout (sample_env 1) s2 = Some s3 \<and> av_cache s3 = av_cache s2 @ [e] \<and> ev_Username e = ''mallory''"
proof
  fix info
  show "\<exists>s1 s2 s3 e. login_attempt (sample_env 1) (sample_areq ''system:anonymous'' ''/oauth/token'') (info_at ''/oauth/token'' info) (''alice'', False) sample_state = Some s1
    \<and> login_attempts (sample_env 1) (sample_areq ''system:anonymous'' ''/oauth/token'') (info_at ''/oauth/token'' info) [(''bob'', True), (''mallory'', True)] s1 = Some s2
    \<and> av_cache s2 = av_cache s1 \<and> SendLogout (sample_env 1) s2 = Some s3 \<and> av_cache s3 = av_cache s2 @ [e] \<and> ev_Username e = ''mallory''"
    using logins_unaudited_after_login [of "sample_env 1" "sample_areq ''system:anonymous'' ''/oauth/token''" "info_at ''/oauth/token'' info"
        sample_state "[(''bob'', True), (''mallory'', True)]" "''alice''"]
    by (simp add: sample_defs login_request_def) metis
qed

text \<open>When a token expires while the login event is still in the channel, both events are sent as a logout: the copy in
  the channel shares the status with the event that \<^const>\<open>SendLogout\<close> changes, and the login leaves no trace.\<close>

theorem queued_login_becomes_logout:
  assumes "login_request env req info" and "\<not> av_islogin s" and "Suc (length (av_cache s)) < au_capacity env"
  shows "\<exists>s1 s2 e e'. login_attempt env req info (name, False) s = Some s1 \<and> SendLogout env s1 = Some s2
    \<and> av_cache s2 = av_cache s @ [e, e']
    \<and> map_option rs_Reason (se_status (rendered s1 e)) = Some ''Login successfully''
    \<and> map_option rs_Reason (se_status (rendered s2 e)) = Some ''Logout successfully''
    \<and> map_option rs_Reason (se_status (rendered s2 e')) = Some ''Logout successfully''"
proof -
  obtain e s1 where s1: "login_attempt env req info (name, False) s = Some s1" "av_cache s1 = av_cache s @ [e]"
    "av_islogin s1" "login_remembered s1" "av_events s1 ! the (av_loginevent s1) = e"
    "map_option rs_Reason (se_status (rendered s1 e)) = Some ''Login successfully''"
    using login_attempt_first [OF assms(1,2), where name = name and err = False] assms(3) by auto
  have "length (av_cache s1) < au_capacity env" using s1(2) assms(3) by simp
  from SendLogout_event [OF s1(4,3) this] show ?thesis
    using s1 by (auto simp: Let_def)
qed

theorem queued_login_becomes_logout_witness:
  "\<forall>info. \<exists>s1 s2 e e'. login_attempt (sample_env 1) (sample_areq ''system:anonymous'' ''/oauth/token'') (info_at ''/oauth/token'' info) (''alice'', False) sample_state = Some s1
    \<and> SendLogout (sample_env 1) s1 = Some s2 \<and> av_cache s2 = [e, e']
    \<and> map_option rs_Reason (se_status (rendered s2 e)) = Some ''Logout successfully''"
proof
  fix info
  show "\<exists>s1 s2 e e'. login_attempt (sample_env 1) (sample_areq ''system:anonymous'' ''/oauth/token'') (info_at ''/oauth/token'' info) (''alice'', False) sample_state = Some s1
    \<and> SendLogout (sample_env 1) s1 = Some s2 \<and> av_cache s2 = [e, e']
    \<and> map_option rs_Reason (se_status (rendered s2 e)) = Some ''Logout successfully''"
    using queued_login_becomes_logout [of "sample_env 1" "sample_areq ''system:anonymous'' ''/oauth/token''" "info_at ''/oauth/token'' info"
        sample_state "''alice''"]
    by (simp add: sample_defs login_request_def) metis
qed

text \<open>A request of a user named \<^verbatim>\<open>waitforchange\<close> ends the process when the last login failed: its event is taken for a login
  and the reason is written through a pointer that is still nil.\<close>

theorem reserved_name_panics:
  assumes "audits_request env info" and "Enabled env" and "ordinary info"
    and "\<not> (ri_IsKubernetesRequest info \<and> map_get [] (URL_Query (aq_http req)) ''dryRun'' \<noteq> [])"
    and "ri_DevOps info \<noteq> [] \<Longrightarrow> ri_Workspace info = [] \<Longrightarrow> \<exists>ds. au_devops env = Inr ds"
    and "u_Name (aq_User req) = ''waitforchange''" and "av_loginerr s" and "\<not> av_islogin s"
  shows "WithAuditing env req info (\<lambda>s. (parts, s)) s = None"
proof -
  obtain a s1 where "LogRequestObject env req info s = Some (Some a, s1)" "ev_Username (av_events s1 ! a) = ''waitforchange''"
    "ev_status (av_events s1 ! a) = None" "av_loginerr s1" "\<not> av_islogin s1"
    using LogRequestObject_ordinary [OF assms(2-5), of s] assms(6-8) by metis
  then show ?thesis
    using assms(1) by (simp add: WithAuditing_def LogResponseObject_def log_login_def set_reason_def Let_def)
qed

theorem reserved_name_panics_witness:
  "\<forall>info. WithAuditing (sample_env 1) (sample_areq ''waitforchange'' ''/kapis'') (info_at ''/kapis'' info) (\<lambda>s. ([PartHeader 200], s)) sample_state = None"
proof
  fix info
  show "WithAuditing (sample_env 1) (sample_areq ''waitforchange'' ''/kapis'') (info_at ''/kapis'' info) (\<lambda>s. ([PartHeader 200], s)) sample_state = None"
    by (rule reserved_name_panics) (simp_all add: sample_defs)
qed

section \<open>Batches of events\<close>

fun received :: "'a signal list \<Rightarrow> 'a list" where
  "received [] = []"
| "received (Event e # sigs) = e # received sigs"
| "received (Tick # sigs) = received sigs"
| "received (Stop # sigs) = received sigs"

lemma getEvents_received:
  assumes "getEvents n items sigs = Some (Some batch, rest)"
  shows "batch @ received rest = items @ received sigs"
  using assms by (induction n items sigs rule: getEvents.induct) (auto simp: Let_def split: if_splits)

lemma getEvents_size:
  "getEvents n items sigs = Some (Some batch, rest) \<Longrightarrow> length items < n \<Longrightarrow> length batch \<le> n"
  by (induction n items sigs rule: getEvents.induct) (auto simp: Let_def split: if_splits)

lemma getEvents_suffix: "getEvents n items sigs = Some (r, rest) \<Longrightarrow> suffix rest sigs"
  by (induction n items sigs rule: getEvents.induct) (auto simp: Let_def suffix_Cons split: if_splits)

lemma getEvents_returns:
  "Tick \<in> set sigs \<or> Stop \<in> set sigs \<Longrightarrow> \<exists>r rest. getEvents n items sigs = Some (r, rest)"
  by (induction n items sigs rule: getEvents.induct) (auto simp: Let_def)

lemma getEvents_not_stopped: "getEvents n items sigs = Some (r, rest) \<Longrightarrow> Stop \<notin> set sigs \<Longrightarrow> r \<noteq> None"
  by (induction n items sigs rule: getEvents.induct) (auto simp: Let_def split: if_splits)

lemma backend_worker_batch:
  assumes "getEvents n [] sigs = Some (Some items, rest)"
  shows "concat (backend_worker n sigs) = items @ concat (backend_worker n rest)"
  using assms by (simp add: backend_worker.simps [of n sigs])

text \<open>The batches of the backend hold the events of the channel in their order, each once, none lost, when the interval
  ends once more after the last event and the server is not stopped.\<close>

theorem batches_complete:
  assumes "Stop \<notin> set sigs" and "sigs = [] \<or> last sigs = Tick"
  shows "concat (backend_worker n sigs) = received sigs"
  using assms
proof (induction sigs rule: length_induct)
  case (1 sigs)
  show ?case
  proof (cases "sigs = []")
    case True
    then show ?thesis by (simp add: backend_worker.simps)
  next
    case False
    then have "Tick \<in> set sigs" using 1(3) by (metis last_in_set)
    then obtain r rest where "getEvents n [] sigs = Some (r, rest)" using getEvents_returns by blast
    then obtain items where get: "getEvents n [] sigs = Some (Some items, rest)" using getEvents_not_stopped 1(2) by fastforce
    obtain pre where pre: "sigs = pre @ rest" using getEvents_suffix [OF get] by (auto simp: suffix_def)
    then have "rest = [] \<or> last rest = Tick" "Stop \<notin> set rest" using 1(2,3) False by (auto simp: last_append split: if_splits)
    then have "concat (backend_worker n rest) = received rest"
      using 1(1) [rule_format, OF getEvents_shorter [OF get]] by blast
    then show ?thesis using backend_worker_batch [OF get] getEvents_received [OF get] by simp
  qed
qed

theorem batches_complete_witness:
  "concat (backend_worker 2 [Event ''a'', Event ''b'', Event ''c'', Tick]) = [''a'', ''b'', ''c'']"
  using batches_complete [of "[Event ''a'', Event ''b'', Event ''c'', Tick]" 2] by simp

lemma backend_worker_size:
  assumes "0 < n" and "batch \<in> set (backend_worker n sigs)"
  shows "batch \<noteq> [] \<and> length batch \<le> n"
  using assms(2)
proof (induction sigs rule: length_induct)
  case (1 sigs)
  have "\<exists>items rest. getEvents n [] sigs = Some (Some items, rest)"
    using 1(2) by (cases "getEvents n [] sigs") (auto simp: backend_worker.simps [of n sigs] split: option.splits)
  then obtain items rest where get: "getEvents n [] sigs = Some (Some items, rest)" by blast
  then have "batch = items \<and> items \<noteq> [] \<or> batch \<in> set (backend_worker n rest)"
    using 1(2) by (subst (asm) backend_worker.simps) (auto split: if_splits)
  then show ?case
    using getEvents_size [OF get] assms(1) 1(1) getEvents_shorter [OF get] by auto
qed

text \<open>Every batch has at least one event and at most as many as the batch size, which the backend sets to 100 when it is not given.\<close>

theorem batches_bounded:
  assumes "batch \<in> set (backend_worker (bk_eventBatchSize (NewBackend opts)) sigs)"
  shows "batch \<noteq> [] \<and> length batch \<le> bk_eventBatchSize (NewBackend opts)"
  by (rule backend_worker_size [OF _ assms]) (simp add: NewBackend_def)

theorem batches_bounded_witness:
  "length [''a'', ''b''] \<le> bk_eventBatchSize (NewBackend \<lparr>bo_WebhookUrl = [], bo_EventBatchSize = 2, bo_EventBatchInterval = 0, bo_EventSendersNum = 0\<rparr>)"
  using batches_bounded [of "[''a'', ''b'']" "\<lparr>bo_WebhookUrl = [], bo_EventBatchSize = 2, bo_EventBatchInterval = 0, bo_EventSendersNum = 0\<rparr>"
      "[Event ''a'', Event ''b'', Tick]"]
  by (simp add: NewBackend_def backend_worker.simps)

end
