(* ===== verification/Access_Management.thy ===== *)
theory Access_Management
  imports Rbac
begin

text \<open>
  The access management operator of \<^verbatim>\<open>pkg/models/iam/am/am.go\<close>, the implementation behind the
  interface the authorizer of \<open>Rbac\<close> calls and behind the IAM API handlers.

  The operator reads roles and bindings through resource getters (informer caches) and writes
  through API clients. The getters are the fields of the record \<open>am_operator\<close>, each a function that
  may fail. The API server is a parameter \<open>resp\<close>: its answer to a request may depend on all requests
  sent before, so a run of an operation is described by its result and the history of its requests.
  \<^verbatim>\<open>json.Unmarshal\<close> of the aggregation annotation is the parameter \<open>decode\<close> (\<^const>\<open>None\<close> where
  the decoded slice is nil).
\<close>

section \<open>Roles, getters and API calls\<close>

type_synonym labels = "(string, string) gomap"

record role =
  r_Name :: string
  r_Namespace :: string
  r_Labels :: labels
  r_Annotations :: labels
  r_ResourceVersion :: string
  r_Rules :: "policy_rule list"

record devops_project =
  dp_Labels :: labels
  dp_AdminNamespace :: string

record am_operator =
  globalRoleBindingGetter :: "string \<Rightarrow> (api_error, role_binding list) result"
  workspaceRoleBindingGetter :: "string \<Rightarrow> (api_error, role_binding list) result"
  clusterRoleBindingGetter :: "string \<Rightarrow> (api_error, role_binding list) result"
  roleBindingGetter :: "string \<Rightarrow> (api_error, role_binding list) result"
  globalRoleGetter :: "string \<Rightarrow> string \<Rightarrow> (api_error, role) result"
  workspaceRoleGetter :: "string \<Rightarrow> string \<Rightarrow> (api_error, role) result"
  clusterRoleGetter :: "string \<Rightarrow> string \<Rightarrow> (api_error, role) result"
  roleGetter :: "string \<Rightarrow> string \<Rightarrow> (api_error, role) result"
  namespaceLister :: "string \<Rightarrow> (api_error, labels) result"
  devopsProjectLister :: "string \<Rightarrow> (api_error, devops_project) result"

abbreviation WorkspaceLabel :: string where "WorkspaceLabel \<equiv> ''kubesphere.io/workspace''"
abbreviation RegoOverrideAnnotation :: string where
  "RegoOverrideAnnotation \<equiv> ''iam.kubesphere.io/rego-override''"
abbreviation AggregationRolesAnnotation :: string where
  "AggregationRolesAnnotation \<equiv> ''iam.kubesphere.io/aggregation-roles''"
abbreviation UserReferenceLabel :: string where "UserReferenceLabel \<equiv> ''iam.kubesphere.io/user-ref''"
abbreviation GroupReferenceLabel :: string where
  "GroupReferenceLabel \<equiv> ''iam.kubesphere.io/group-ref''"

text \<open>Requests carry the kind of the object and its namespace (empty for cluster-scoped kinds).\<close>

datatype iam_request =
    CreateBinding binding_kind string role_binding
  | DeleteBinding binding_kind string string
  | CreateRole binding_kind string role
  | UpdateRole binding_kind string role
  | PatchRole binding_kind string role
  | DeleteRole binding_kind string string

type_synonym history = "iam_request list"
type_synonym server = "history \<Rightarrow> iam_request \<Rightarrow> api_error option"

definition call :: "server \<Rightarrow> iam_request \<Rightarrow> history \<Rightarrow> api_error option \<times> history" where
  "call resp req h = (resp h req, h @ [req])"

section \<open>Reading\<close>

definition contains_subject :: "subject list \<Rightarrow> string \<Rightarrow> string list \<Rightarrow> bool" where
  "contains_subject subjects username groups =
     (if username = [] then True
      else list_ex (\<lambda>s. (s_Kind s = UserKind \<and> s_Name s = username) \<or>
                        (s_Kind s = GroupKind \<and> HasString groups (s_Name s))) subjects)"

definition am_ListWorkspaceRoleBindings ::
  "am_operator \<Rightarrow> string \<Rightarrow> string list \<Rightarrow> string \<Rightarrow> (api_error, role_binding list) result" where
  "am_ListWorkspaceRoleBindings am username groups workspace =
     (case workspaceRoleBindingGetter am [] of
        Inl e \<Rightarrow> Inl e
      | Inr bs \<Rightarrow>
          Inr (filter (\<lambda>b. contains_subject (b_Subjects b) username groups \<and>
                 (workspace = [] \<or> map_get [] (b_Labels b) WorkspaceLabel = workspace)) bs))"

definition am_ListClusterRoleBindings ::
  "am_operator \<Rightarrow> string \<Rightarrow> (api_error, role_binding list) result" where
  "am_ListClusterRoleBindings am username =
     (case clusterRoleBindingGetter am [] of
        Inl e \<Rightarrow> Inl e
      | Inr bs \<Rightarrow> Inr (filter (\<lambda>b. contains_subject (b_Subjects b) username []) bs))"

definition am_ListGlobalRoleBindings ::
  "am_operator \<Rightarrow> string \<Rightarrow> (api_error, role_binding list) result" where
  "am_ListGlobalRoleBindings am username =
     (case globalRoleBindingGetter am [] of
        Inl e \<Rightarrow> Inl e
      | Inr bs \<Rightarrow> Inr (filter (\<lambda>b. contains_subject (b_Subjects b) username []) bs))"

definition am_ListRoleBindings ::
  "am_operator \<Rightarrow> string \<Rightarrow> string list \<Rightarrow> string \<Rightarrow> (api_error, role_binding list) result" where
  "am_ListRoleBindings am username groups namespace =
     (case roleBindingGetter am namespace of
        Inl e \<Rightarrow> Inl e
      | Inr bs \<Rightarrow> Inr (filter (\<lambda>b. contains_subject (b_Subjects b) username groups) bs))"

definition GetGlobalRole :: "am_operator \<Rightarrow> string \<Rightarrow> (api_error, role) result" where
  "GetGlobalRole am name = globalRoleGetter am [] name"

definition GetWorkspaceRole :: "am_operator \<Rightarrow> string \<Rightarrow> string \<Rightarrow> (api_error, role) result" where
  "GetWorkspaceRole am workspace name =
     (case workspaceRoleGetter am [] name of
        Inl e \<Rightarrow> Inl e
      | Inr r \<Rightarrow>
          (if workspace \<noteq> [] \<and> map_get [] (r_Labels r) WorkspaceLabel \<noteq> workspace
           then Inl NotFound else Inr r))"

definition GetNamespaceRole :: "am_operator \<Rightarrow> string \<Rightarrow> string \<Rightarrow> (api_error, role) result" where
  "GetNamespaceRole am namespace name = roleGetter am namespace name"

definition GetClusterRole :: "am_operator \<Rightarrow> string \<Rightarrow> (api_error, role) result" where
  "GetClusterRole am name = clusterRoleGetter am [] name"

text \<open>The policy and the rules of a referenced role; a missing role grants nothing.\<close>

definition reference_result ::
  "(api_error, role) result \<Rightarrow> (api_error, string \<times> policy_rule list) result" where
  "reference_result x =
     (case x of
        Inl NotFound \<Rightarrow> Inr ([], [])
      | Inl e \<Rightarrow> Inl e
      | Inr r \<Rightarrow> Inr (map_get [] (r_Annotations r) RegoOverrideAnnotation, r_Rules r))"

definition am_GetRoleReferenceRules ::
  "am_operator \<Rightarrow> role_ref \<Rightarrow> string \<Rightarrow> (api_error, string \<times> policy_rule list) result" where
  "am_GetRoleReferenceRules am ref namespace =
     (if rr_Kind ref = ''Role'' then reference_result (GetNamespaceRole am namespace (rr_Name ref))
      else if rr_Kind ref = ''ClusterRole'' then reference_result (GetClusterRole am (rr_Name ref))
      else if rr_Kind ref = ''GlobalRole'' then reference_result (GetGlobalRole am (rr_Name ref))
      else if rr_Kind ref = ''WorkspaceRole'' then reference_result (GetWorkspaceRole am [] (rr_Name ref))
      else Inl (OtherError (''unsupported role reference kind: '' @ quoted (rr_Kind ref))))"

definition am_GetDevOpsRelatedNamespace :: "am_operator \<Rightarrow> string \<Rightarrow> (api_error, string) result" where
  "am_GetDevOpsRelatedNamespace am devops =
     (case devopsProjectLister am devops of Inl e \<Rightarrow> Inl e | Inr p \<Rightarrow> Inr (dp_AdminNamespace p))"

definition am_GetDevOpsControlledWorkspace :: "am_operator \<Rightarrow> string \<Rightarrow> (api_error, string) result" where
  "am_GetDevOpsControlledWorkspace am devops =
     (case devopsProjectLister am devops of
        Inl e \<Rightarrow> Inl e | Inr p \<Rightarrow> Inr (map_get [] (dp_Labels p) WorkspaceLabel))"

definition am_GetNamespaceControlledWorkspace :: "am_operator \<Rightarrow> string \<Rightarrow> (api_error, string) result" where
  "am_GetNamespaceControlledWorkspace am namespace =
     (case namespaceLister am namespace of
        Inl NotFound \<Rightarrow> Inr []
      | Inl e \<Rightarrow> Inl e
      | Inr labels \<Rightarrow> Inr (map_get [] labels WorkspaceLabel))"

text \<open>The operator as the interface the authorizer uses.\<close>

definition as_message :: "(api_error, 'a) result \<Rightarrow> (string, 'a) result" where
  "as_message x = map_sum error_message id x"

definition am_of :: "am_operator \<Rightarrow> am_interface" where
  "am_of am =
     \<lparr>ListGlobalRoleBindings = (\<lambda>u. as_message (am_ListGlobalRoleBindings am u)),
      ListWorkspaceRoleBindings = (\<lambda>u g w. as_message (am_ListWorkspaceRoleBindings am u g w)),
      ListRoleBindings = (\<lambda>u g n. as_message (am_ListRoleBindings am u g n)),
      ListClusterRoleBindings = (\<lambda>u. as_message (am_ListClusterRoleBindings am u)),
      GetRoleReferenceRules = (\<lambda>r n. as_message (am_GetRoleReferenceRules am r n)),
      GetNamespaceControlledWorkspace = (\<lambda>n. as_message (am_GetNamespaceControlledWorkspace am n)),
      GetDevOpsControlledWorkspace = (\<lambda>d. as_message (am_GetDevOpsControlledWorkspace am d)),
      GetDevOpsRelatedNamespace = (\<lambda>d. as_message (am_GetDevOpsRelatedNamespace am d))\<rparr>"

text \<open>The role of a user in each scope.\<close>

definition GetGlobalRoleOfUser :: "am_operator \<Rightarrow> string \<Rightarrow> (api_error, role) result" where
  "GetGlobalRoleOfUser am username =
     (case am_ListGlobalRoleBindings am username of
        Inl e \<Rightarrow> Inl e
      | Inr [] \<Rightarrow> Inl NotFound
      | Inr (b # _) \<Rightarrow> GetGlobalRole am (rr_Name (b_RoleRef b)))"

definition annotate :: "string \<Rightarrow> role \<Rightarrow> role" where
  "annotate key r = r\<lparr>r_Annotations := AList.update key (r_Name r) (r_Annotations r)\<rparr>"

fun roles_of_bindings ::
  "(string \<Rightarrow> (api_error, role) result) \<Rightarrow> string \<Rightarrow> role_binding list \<Rightarrow> (api_error, role list) result" where
  "roles_of_bindings get key [] = Inr []"
| "roles_of_bindings get key (b # bs) =
     (case get (rr_Name (b_RoleRef b)) of
        Inl e \<Rightarrow> Inl e
      | Inr r \<Rightarrow>
          (case roles_of_bindings get key bs of Inl e \<Rightarrow> Inl e | Inr rs \<Rightarrow> Inr (annotate key r # rs)))"

definition GetWorkspaceRoleOfUser ::
  "am_operator \<Rightarrow> string \<Rightarrow> string list \<Rightarrow> string \<Rightarrow> (api_error, role list) result" where
  "GetWorkspaceRoleOfUser am username groups workspace =
     (case am_ListWorkspaceRoleBindings am username groups workspace of
        Inl e \<Rightarrow> Inl e
      | Inr bs \<Rightarrow>
          (if length bs > 0
           then roles_of_bindings (GetWorkspaceRole am workspace) ''iam.kubesphere.io/workspacerole'' bs
           else Inl NotFound))"

definition GetNamespaceRoleOfUser ::
  "am_operator \<Rightarrow> string \<Rightarrow> string list \<Rightarrow> string \<Rightarrow> (api_error, role list) result" where
  "GetNamespaceRoleOfUser am username groups namespace =
     (case am_ListRoleBindings am username groups namespace of
        Inl e \<Rightarrow> Inl e
      | Inr bs \<Rightarrow>
          (if length bs > 0
           then roles_of_bindings (GetNamespaceRole am namespace) ''iam.kubesphere.io/role'' bs
           else Inl NotFound))"

definition GetClusterRoleOfUser :: "am_operator \<Rightarrow> string \<Rightarrow> (api_error, role) result" where
  "GetClusterRoleOfUser am username =
     (case am_ListClusterRoleBindings am username of
        Inl e \<Rightarrow> Inl e
      | Inr [] \<Rightarrow> Inl NotFound
      | Inr (b # _) \<Rightarrow>
          (case GetClusterRole am (rr_Name (b_RoleRef b)) of
             Inl e \<Rightarrow> Inl e | Inr r \<Rightarrow> Inr (annotate ''iam.kubesphere.io/clusterrole'' r)))"

section \<open>Writing role bindings\<close>

text \<open>
  The loop shared by the four operations that give a user a role: walk the user's bindings, stop
  when one already refers to the role, delete the others (a missing one is fine), and create the
  new binding at the end.
\<close>

fun replace_bindings ::
  "server \<Rightarrow> binding_kind \<Rightarrow> string \<Rightarrow> string \<Rightarrow> role_binding \<Rightarrow> role_binding list \<Rightarrow> history \<Rightarrow>
   api_error option \<times> history" where
  "replace_bindings resp kind ns role new [] h = call resp (CreateBinding kind ns new) h"
| "replace_bindings resp kind ns role new (b # bs) h =
     (if role = rr_Name (b_RoleRef b) then (None, h)
      else
        (case call resp (DeleteBinding kind ns (b_Name b)) h of
           (None, h') \<Rightarrow> replace_bindings resp kind ns role new bs h'
         | (Some NotFound, h') \<Rightarrow> replace_bindings resp kind ns role new bs h'
         | (Some e, h') \<Rightarrow> (Some e, h')))"

definition user_subject :: "string \<Rightarrow> subject" where
  "user_subject username = \<lparr>s_Kind = UserKind, s_Name = username, s_Namespace = []\<rparr>"

definition new_binding :: "string \<Rightarrow> string \<Rightarrow> string \<Rightarrow> labels \<Rightarrow> role_binding" where
  "new_binding username roleKind role labels =
     \<lparr>b_Name = username @ ''-'' @ role, b_GenerateName = [], b_Namespace = [], b_Labels = labels,
      b_Subjects = [user_subject username], b_RoleRef = \<lparr>rr_Kind = roleKind, rr_Name = role\<rparr>\<rparr>"

definition CreateGlobalRoleBinding ::
  "server \<Rightarrow> am_operator \<Rightarrow> string \<Rightarrow> string \<Rightarrow> history \<Rightarrow> api_error option \<times> history" where
  "CreateGlobalRoleBinding resp am username role h =
     (case GetGlobalRole am role of
        Inl e \<Rightarrow> (Some e, h)
      | Inr _ \<Rightarrow>
          (case am_ListGlobalRoleBindings am username of
             Inl e \<Rightarrow> (Some e, h)
           | Inr bs \<Rightarrow>
               replace_bindings resp GlobalRB [] role
                 (new_binding username ''GlobalRole'' role [(UserReferenceLabel, username)]) bs h))"

definition CreateUserWorkspaceRoleBinding ::
  "server \<Rightarrow> am_operator \<Rightarrow> string \<Rightarrow> string \<Rightarrow> string \<Rightarrow> history \<Rightarrow> api_error option \<times> history" where
  "CreateUserWorkspaceRoleBinding resp am username workspace role h =
     (case GetWorkspaceRole am workspace role of
        Inl e \<Rightarrow> (Some e, h)
      | Inr _ \<Rightarrow>
          (case am_ListWorkspaceRoleBindings am username [] workspace of
             Inl e \<Rightarrow> (Some e, h)
           | Inr bs \<Rightarrow>
               replace_bindings resp WorkspaceRB [] role
                 (new_binding username ''WorkspaceRole'' role
                    [(UserReferenceLabel, username), (WorkspaceLabel, workspace)]) bs h))"

definition CreateClusterRoleBinding ::
  "server \<Rightarrow> am_operator \<Rightarrow> string \<Rightarrow> string \<Rightarrow> history \<Rightarrow> api_error option \<times> history" where
  "CreateClusterRoleBinding resp am username role h =
     (case GetClusterRole am role of
        Inl e \<Rightarrow> (Some e, h)
      | Inr _ \<Rightarrow>
          (case am_ListClusterRoleBindings am username of
             Inl e \<Rightarrow> (Some e, h)
           | Inr bs \<Rightarrow>
               replace_bindings resp ClusterRB [] role
                 (new_binding username ''ClusterRole'' role [(UserReferenceLabel, username)]) bs h))"

definition CreateNamespaceRoleBinding ::
  "server \<Rightarrow> am_operator \<Rightarrow> string \<Rightarrow> string \<Rightarrow> string \<Rightarrow> history \<Rightarrow> api_error option \<times> history" where
  "CreateNamespaceRoleBinding resp am username namespace role h =
     (case GetNamespaceRole am namespace role of
        Inl e \<Rightarrow> (Some e, h)
      | Inr _ \<Rightarrow>
          (case am_ListRoleBindings am username [] namespace of
             Inl e \<Rightarrow> (Some e, h)
           | Inr bs \<Rightarrow>
               replace_bindings resp NamespaceRB namespace role
                 (new_binding username ''Role'' role [(UserReferenceLabel, username)]) bs h))"

fun delete_bindings ::
  "server \<Rightarrow> binding_kind \<Rightarrow> string \<Rightarrow> role_binding list \<Rightarrow> history \<Rightarrow> api_error option \<times> history" where
  "delete_bindings resp kind ns [] h = (None, h)"
| "delete_bindings resp kind ns (b # bs) h =
     (case call resp (DeleteBinding kind ns (b_Name b)) h of
        (None, h') \<Rightarrow> delete_bindings resp kind ns bs h'
      | (Some NotFound, h') \<Rightarrow> delete_bindings resp kind ns bs h'
      | (Some e, h') \<Rightarrow> (Some e, h'))"

definition RemoveUserFromWorkspace ::
  "server \<Rightarrow> am_operator \<Rightarrow> string \<Rightarrow> string \<Rightarrow> history \<Rightarrow> api_error option \<times> history" where
  "RemoveUserFromWorkspace resp am username workspace h =
     (case am_ListWorkspaceRoleBindings am username [] workspace of
        Inl e \<Rightarrow> (Some e, h) | Inr bs \<Rightarrow> delete_bindings resp WorkspaceRB [] bs h)"

definition RemoveUserFromNamespace ::
  "server \<Rightarrow> am_operator \<Rightarrow> string \<Rightarrow> string \<Rightarrow> history \<Rightarrow> api_error option \<times> history" where
  "RemoveUserFromNamespace resp am username namespace h =
     (case am_ListRoleBindings am username [] namespace of
        Inl e \<Rightarrow> (Some e, h) | Inr bs \<Rightarrow> delete_bindings resp NamespaceRB namespace bs h)"

definition RemoveUserFromCluster ::
  "server \<Rightarrow> am_operator \<Rightarrow> string \<Rightarrow> history \<Rightarrow> api_error option \<times> history" where
  "RemoveUserFromCluster resp am username h =
     (case am_ListClusterRoleBindings am username of
        Inl e \<Rightarrow> (Some e, h) | Inr bs \<Rightarrow> delete_bindings resp ClusterRB [] bs h)"

text \<open>
  A role binding supplied by the caller is labelled after its first subject; its name is generated
  by the API server from the prefix set here.
\<close>

definition label_binding :: "role_binding \<Rightarrow> labels" where
  "label_binding b =
     (let s = hd (b_Subjects b) in
      if s_Kind s = GroupKind then AList.update GroupReferenceLabel (s_Name s) (b_Labels b)
      else if s_Kind s = UserKind then AList.update UserReferenceLabel (s_Name s) (b_Labels b)
      else b_Labels b)"

definition generate_name :: "role_binding \<Rightarrow> string" where
  "generate_name b = s_Name (hd (b_Subjects b)) @ ''-'' @ rr_Name (b_RoleRef b) @ ''-''"

definition CreateWorkspaceRoleBinding ::
  "server \<Rightarrow> am_operator \<Rightarrow> string \<Rightarrow> role_binding \<Rightarrow> history \<Rightarrow> api_error option \<times> history" where
  "CreateWorkspaceRoleBinding resp am workspace b h =
     (case GetWorkspaceRole am workspace (rr_Name (b_RoleRef b)) of
        Inl e \<Rightarrow> (Some e, h)
      | Inr _ \<Rightarrow>
          (if length (b_Subjects b) = 0 then (Some NotFound, h)
           else call resp (CreateBinding WorkspaceRB []
                  (b\<lparr>b_GenerateName := generate_name b,
                     b_Labels := AList.update WorkspaceLabel workspace (label_binding b)\<rparr>)) h))"

definition CreateRoleBinding ::
  "server \<Rightarrow> am_operator \<Rightarrow> string \<Rightarrow> role_binding \<Rightarrow> history \<Rightarrow> api_error option \<times> history" where
  "CreateRoleBinding resp am namespace b h =
     (case GetNamespaceRole am namespace (rr_Name (b_RoleRef b)) of
        Inl e \<Rightarrow> (Some e, h)
      | Inr _ \<Rightarrow>
          (if length (b_Subjects b) = 0 then (Some NotFound, h)
           else call resp (CreateBinding NamespaceRB namespace
                  (b\<lparr>b_GenerateName := generate_name b, b_Labels := label_binding b\<rparr>)) h))"

definition DeleteWorkspaceRoleBinding ::
  "server \<Rightarrow> string \<Rightarrow> string \<Rightarrow> history \<Rightarrow> api_error option \<times> history" where
  "DeleteWorkspaceRoleBinding resp workspace name h = call resp (DeleteBinding WorkspaceRB [] name) h"

definition DeleteRoleBinding ::
  "server \<Rightarrow> string \<Rightarrow> string \<Rightarrow> history \<Rightarrow> api_error option \<times> history" where
  "DeleteRoleBinding resp namespace name h = call resp (DeleteBinding NamespaceRB namespace name) h"

section \<open>Writing roles\<close>

type_synonym roles_decoder = "string \<Rightarrow> string list option"

definition getAggregateRoles :: "roles_decoder \<Rightarrow> labels \<Rightarrow> string list option" where
  "getAggregateRoles decode annotations =
     (let a = map_get [] annotations AggregationRolesAnnotation in if a \<noteq> [] then decode a else None)"

fun aggregate_rules ::
  "(string \<Rightarrow> (api_error, role) result) \<Rightarrow> string list \<Rightarrow> policy_rule list \<Rightarrow>
   (api_error, policy_rule list) result" where
  "aggregate_rules get [] acc = Inr acc"
| "aggregate_rules get (n # ns) acc =
     (case get n of Inl e \<Rightarrow> Inl e | Inr r \<Rightarrow> aggregate_rules get ns (acc @ r_Rules r))"

text \<open>The rules of a role being written: a base and the rules of the roles it aggregates.\<close>

definition rules_to_write ::
  "roles_decoder \<Rightarrow> (string \<Rightarrow> (api_error, role) result) \<Rightarrow> labels \<Rightarrow> policy_rule list \<Rightarrow>
   (api_error, policy_rule list) result" where
  "rules_to_write decode get annotations base =
     (case getAggregateRoles decode annotations of
        None \<Rightarrow> Inr base
      | Some names \<Rightarrow> aggregate_rules get names base)"

text \<open>A role with a resource version is updated, one without is created.\<close>

definition write_role ::
  "server \<Rightarrow> binding_kind \<Rightarrow> string \<Rightarrow> role \<Rightarrow> history \<Rightarrow> api_error option \<times> history" where
  "write_role resp kind ns r h =
     (if r_ResourceVersion r \<noteq> [] then call resp (UpdateRole kind ns r) h
      else call resp (CreateRole kind ns r) h)"

definition linstorrule :: policy_rule where
  "linstorrule =
     \<lparr>Verbs = [''*''], APIGroups = [''versatel.kubesphere.io''], Resources = [''*''],
      ResourceNames = [], NonResourceURLs = []\<rparr>"

definition CreateOrUpdateGlobalRole ::
  "server \<Rightarrow> roles_decoder \<Rightarrow> am_operator \<Rightarrow> role \<Rightarrow> history \<Rightarrow> api_error option \<times> history" where
  "CreateOrUpdateGlobalRole resp decode am r h =
     (case rules_to_write decode (GetGlobalRole am) (r_Annotations r) [linstorrule] of
        Inl e \<Rightarrow> (Some e, h)
      | Inr rules \<Rightarrow> write_role resp GlobalRB [] (r\<lparr>r_Rules := rules\<rparr>) h)"

definition CreateOrUpdateWorkspaceRole ::
  "server \<Rightarrow> roles_decoder \<Rightarrow> am_operator \<Rightarrow> string \<Rightarrow> role \<Rightarrow> history \<Rightarrow> api_error option \<times> history" where
  "CreateOrUpdateWorkspaceRole resp decode am workspace r h =
     (let r1 = r\<lparr>r_Labels := AList.update WorkspaceLabel workspace (r_Labels r)\<rparr> in
      case rules_to_write decode (GetWorkspaceRole am []) (r_Annotations r1) [] of
        Inl e \<Rightarrow> (Some e, h)
      | Inr rules \<Rightarrow> write_role resp WorkspaceRB [] (r1\<lparr>r_Rules := rules\<rparr>) h)"

definition CreateOrUpdateClusterRole ::
  "server \<Rightarrow> roles_decoder \<Rightarrow> am_operator \<Rightarrow> role \<Rightarrow> history \<Rightarrow> api_error option \<times> history" where
  "CreateOrUpdateClusterRole resp decode am r h =
     (case rules_to_write decode (GetClusterRole am) (r_Annotations r) [] of
        Inl e \<Rightarrow> (Some e, h)
      | Inr rules \<Rightarrow> write_role resp ClusterRB [] (r\<lparr>r_Rules := rules\<rparr>) h)"

definition CreateOrUpdateNamespaceRole ::
  "server \<Rightarrow> roles_decoder \<Rightarrow> am_operator \<Rightarrow> string \<Rightarrow> role \<Rightarrow> history \<Rightarrow> api_error option \<times> history" where
  "CreateOrUpdateNamespaceRole resp decode am namespace r h =
     (let r1 = r\<lparr>r_Namespace := namespace\<rparr> in
      case rules_to_write decode (GetNamespaceRole am namespace) (r_Annotations r1) [] of
        Inl e \<Rightarrow> (Some e, h)
      | Inr rules \<Rightarrow> write_role resp NamespaceRB namespace (r1\<lparr>r_Rules := rules\<rparr>) h)"

text \<open>Patching keeps the old rules unless the aggregation annotation is present.\<close>

definition patched_rules ::
  "roles_decoder \<Rightarrow> (string \<Rightarrow> (api_error, role) result) \<Rightarrow> labels \<Rightarrow> role \<Rightarrow>
   (api_error, policy_rule list) result" where
  "patched_rules decode get annotations old =
     (case getAggregateRoles decode annotations of
        None \<Rightarrow> Inr (r_Rules old)
      | Some names \<Rightarrow> aggregate_rules get names [])"

definition PatchGlobalRole ::
  "server \<Rightarrow> roles_decoder \<Rightarrow> am_operator \<Rightarrow> role \<Rightarrow> history \<Rightarrow> api_error option \<times> history" where
  "PatchGlobalRole resp decode am r h =
     (case GetGlobalRole am (r_Name r) of
        Inl e \<Rightarrow> (Some e, h)
      | Inr old \<Rightarrow>
          (case patched_rules decode (GetGlobalRole am) (r_Annotations r) old of
             Inl e \<Rightarrow> (Some e, h)
           | Inr rules \<Rightarrow> call resp (PatchRole GlobalRB [] (r\<lparr>r_Rules := rules\<rparr>)) h))"

definition PatchWorkspaceRole ::
  "server \<Rightarrow> roles_decoder \<Rightarrow> am_operator \<Rightarrow> string \<Rightarrow> role \<Rightarrow> history \<Rightarrow> api_error option \<times> history" where
  "PatchWorkspaceRole resp decode am workspace r h =
     (case GetWorkspaceRole am workspace (r_Name r) of
        Inl e \<Rightarrow> (Some e, h)
      | Inr old \<Rightarrow>
          (let r1 = (if map_get [] (r_Labels r) WorkspaceLabel \<noteq> []
                     then r\<lparr>r_Labels := AList.update WorkspaceLabel workspace (r_Labels r)\<rparr> else r)
           in case patched_rules decode (GetWorkspaceRole am []) (r_Annotations r1) old of
                Inl e \<Rightarrow> (Some e, h)
              | Inr rules \<Rightarrow> call resp (PatchRole WorkspaceRB [] (r1\<lparr>r_Rules := rules\<rparr>)) h))"

definition PatchNamespaceRole ::
  "server \<Rightarrow> roles_decoder \<Rightarrow> am_operator \<Rightarrow> string \<Rightarrow> role \<Rightarrow> history \<Rightarrow> api_error option \<times> history" where
  "PatchNamespaceRole resp decode am namespace r h =
     (case GetNamespaceRole am namespace (r_Name r) of
        Inl e \<Rightarrow> (Some e, h)
      | Inr old \<Rightarrow>
          (case patched_rules decode (GetNamespaceRole am namespace) (r_Annotations r) old of
             Inl e \<Rightarrow> (Some e, h)
           | Inr rules \<Rightarrow> call resp (PatchRole NamespaceRB namespace (r\<lparr>r_Rules := rules\<rparr>)) h))"

definition PatchClusterRole ::
  "server \<Rightarrow> roles_decoder \<Rightarrow> am_operator \<Rightarrow> role \<Rightarrow> history \<Rightarrow> api_error option \<times> history" where
  "PatchClusterRole resp decode am r h =
     (case GetClusterRole am (r_Name r) of
        Inl e \<Rightarrow> (Some e, h)
      | Inr old \<Rightarrow>
          (case patched_rules decode (GetClusterRole am) (r_Annotations r) old of
             Inl e \<Rightarrow> (Some e, h)
           | Inr rules \<Rightarrow> call resp (PatchRole ClusterRB [] (r\<lparr>r_Rules := rules\<rparr>)) h))"

definition DeleteWorkspaceRole ::
  "server \<Rightarrow> am_operator \<Rightarrow> string \<Rightarrow> string \<Rightarrow> history \<Rightarrow> api_error option \<times> history" where
  "DeleteWorkspaceRole resp am workspace name h =
     (case GetWorkspaceRole am workspace name of
        Inl e \<Rightarrow> (Some e, h) | Inr r \<Rightarrow> call resp (DeleteRole WorkspaceRB [] (r_Name r)) h)"

definition DeleteGlobalRole :: "server \<Rightarrow> string \<Rightarrow> history \<Rightarrow> api_error option \<times> history" where
  "DeleteGlobalRole resp name h = call resp (DeleteRole GlobalRB [] name) h"

definition DeleteClusterRole :: "server \<Rightarrow> string \<Rightarrow> history \<Rightarrow> api_error option \<times> history" where
  "DeleteClusterRole resp name h = call resp (DeleteRole ClusterRB [] name) h"

definition DeleteNamespaceRole :: "server \<Rightarrow> string \<Rightarrow> string \<Rightarrow> history \<Rightarrow> api_error option \<times> history" where
  "DeleteNamespaceRole resp namespace name h = call resp (DeleteRole NamespaceRB namespace name) h"

section \<open>Deleting and replacing bindings\<close>

abbreviation deletes :: "binding_kind \<Rightarrow> string \<Rightarrow> role_binding list \<Rightarrow> history" where
  "deletes kind ns bs \<equiv> map (\<lambda>b. DeleteBinding kind ns (b_Name b)) bs"

text \<open>The server accepted every deletion of a sequence, or reported the binding missing.\<close>

fun deletes_accepted ::
  "server \<Rightarrow> binding_kind \<Rightarrow> string \<Rightarrow> role_binding list \<Rightarrow> history \<Rightarrow> bool" where
  "deletes_accepted resp kind ns [] h = True"
| "deletes_accepted resp kind ns (b # bs) h =
     (resp h (DeleteBinding kind ns (b_Name b)) \<in> {None, Some NotFound} \<and>
      deletes_accepted resp kind ns bs (h @ [DeleteBinding kind ns (b_Name b)]))"

lemma delete_bindings_None_iff:
  "delete_bindings resp kind ns bs h = (None, h') \<longleftrightarrow>
     deletes_accepted resp kind ns bs h \<and> h' = h @ deletes kind ns bs"
  by (induction bs arbitrary: h) (auto simp: call_def split: option.splits api_error.splits)

lemma replace_bindings_None_iff:
  "replace_bindings resp kind ns role new bs h = (None, h') \<longleftrightarrow>
     (let ds = takeWhile (\<lambda>b. rr_Name (b_RoleRef b) \<noteq> role) bs in
      deletes_accepted resp kind ns ds h \<and>
      (if ds = bs
       then resp (h @ deletes kind ns bs) (CreateBinding kind ns new) = None \<and>
            h' = h @ deletes kind ns bs @ [CreateBinding kind ns new]
       else h' = h @ deletes kind ns ds))"
  by (induction bs arbitrary: h)
     (auto simp: call_def Let_def simp del: takeWhile_eq_all_conv
       split: option.splits api_error.splits)

lemmas listed_defs =
  am_ListWorkspaceRoleBindings_def am_ListClusterRoleBindings_def am_ListGlobalRoleBindings_def
  am_ListRoleBindings_def

text \<open>
  Removing a user from a workspace succeeds exactly when the bindings can be listed and the
  server accepts (or reports as already gone) the deletion of every binding of the workspace that
  names the user; the requests sent are then exactly those deletions, in order.
\<close>

theorem RemoveUserFromWorkspace_success_iff:
  "RemoveUserFromWorkspace resp am username workspace h = (None, h') \<longleftrightarrow>
     (\<exists>all. workspaceRoleBindingGetter am [] = Inr all \<and>
       (let bs = filter (\<lambda>b. contains_subject (b_Subjects b) username [] \<and>
                   (workspace = [] \<or> map_get [] (b_Labels b) WorkspaceLabel = workspace)) all
        in deletes_accepted resp WorkspaceRB [] bs h \<and> h' = h @ deletes WorkspaceRB [] bs))"
  by (simp add: RemoveUserFromWorkspace_def listed_defs delete_bindings_None_iff Let_def split: sum.splits)

text \<open>
  Giving a user a workspace role succeeds only for a role that carries the workspace's label; on
  success either no binding of the user in the workspace refers to the role, every one of them has
  been deleted and the new binding created last, or some binding already refers to it, only the
  bindings listed before it have been deleted and nothing is created.
\<close>

theorem CreateUserWorkspaceRoleBinding_success:
  assumes "CreateUserWorkspaceRoleBinding resp am username workspace role h = (None, h')"
    and "workspace \<noteq> []"
  shows "\<exists>r all. workspaceRoleGetter am [] role = Inr r \<and>
     map_get [] (r_Labels r) WorkspaceLabel = workspace \<and>
     workspaceRoleBindingGetter am [] = Inr all \<and>
     (let bs = filter (\<lambda>b. contains_subject (b_Subjects b) username [] \<and>
                 map_get [] (b_Labels b) WorkspaceLabel = workspace) all;
          ds = takeWhile (\<lambda>b. rr_Name (b_RoleRef b) \<noteq> role) bs
      in h' = h @ deletes WorkspaceRB [] ds @
           (if ds = bs then [CreateBinding WorkspaceRB [] (new_binding username ''WorkspaceRole'' role
                                [(UserReferenceLabel, username), (WorkspaceLabel, workspace)])]
            else []))"
proof -
  obtain r where r: "workspaceRoleGetter am [] role = Inr r" "map_get [] (r_Labels r) WorkspaceLabel = workspace"
    using assms
    by (auto simp: CreateUserWorkspaceRoleBinding_def GetWorkspaceRole_def split: sum.splits if_splits)
  obtain all where "workspaceRoleBindingGetter am [] = Inr all"
    using assms r
    by (auto simp: CreateUserWorkspaceRoleBinding_def GetWorkspaceRole_def listed_defs split: sum.splits)
  with r assms show ?thesis
    by (simp add: CreateUserWorkspaceRoleBinding_def GetWorkspaceRole_def listed_defs
        replace_bindings_None_iff Let_def del: takeWhile_eq_all_conv split: if_splits)
qed


text \<open>A server that accepts everything, and an operator with one workspace role and one binding.\<close>

definition sample_role :: role where
  "sample_role =
     \<lparr>r_Name = ''dev-viewer'', r_Namespace = [], r_Labels = [(WorkspaceLabel, ''dev'')], r_Annotations = [],
      r_ResourceVersion = [], r_Rules = []\<rparr>"

definition sample_operator :: am_operator where
  "sample_operator =
     \<lparr>globalRoleBindingGetter = (\<lambda>n. Inr []),
      workspaceRoleBindingGetter = (\<lambda>n. Inr [new_binding ''alice'' ''WorkspaceRole'' ''dev-admin''
          [(UserReferenceLabel, ''alice''), (WorkspaceLabel, ''dev'')]]),
      clusterRoleBindingGetter = (\<lambda>n. Inr []), roleBindingGetter = (\<lambda>n. Inr []),
      globalRoleGetter = (\<lambda>n r. Inl NotFound), workspaceRoleGetter = (\<lambda>n r. Inr sample_role),
      clusterRoleGetter = (\<lambda>n r. Inl NotFound), roleGetter = (\<lambda>n r. Inl NotFound),
      namespaceLister = (\<lambda>n. Inl NotFound), devopsProjectLister = (\<lambda>n. Inl NotFound)\<rparr>"

lemma CreateUserWorkspaceRoleBinding_sample:
  "CreateUserWorkspaceRoleBinding (\<lambda>h r. None) sample_operator ''alice'' ''dev'' ''dev-viewer'' [] =
     (None, [DeleteBinding WorkspaceRB [] ''alice-dev-admin'',
             CreateBinding WorkspaceRB [] (new_binding ''alice'' ''WorkspaceRole'' ''dev-viewer''
               [(UserReferenceLabel, ''alice''), (WorkspaceLabel, ''dev'')])])"
  by (simp add: CreateUserWorkspaceRoleBinding_def GetWorkspaceRole_def listed_defs sample_operator_def
      sample_role_def new_binding_def user_subject_def contains_subject_def map_get_def call_def)

theorem CreateUserWorkspaceRoleBinding_success_witness:
  "(''dev'' :: string) \<noteq> [] \<and>
   (\<exists>r all. workspaceRoleGetter sample_operator [] ''dev-viewer'' = Inr r \<and>
      map_get [] (r_Labels r) WorkspaceLabel = ''dev'' \<and>
      workspaceRoleBindingGetter sample_operator [] = Inr all)"
  using CreateUserWorkspaceRoleBinding_success [OF CreateUserWorkspaceRoleBinding_sample] by auto

section \<open>What a written or referenced role grants\<close>

text \<open>
  A reference to a role of a known kind that does not exist grants nothing and is not an error;
  a reference of any other kind is an error that names the kind.
\<close>

theorem GetRoleReferenceRules_dangling:
  assumes "roleGetter am namespace (rr_Name ref) = Inl NotFound"
    and "clusterRoleGetter am [] (rr_Name ref) = Inl NotFound"
    and "globalRoleGetter am [] (rr_Name ref) = Inl NotFound"
    and "workspaceRoleGetter am [] (rr_Name ref) = Inl NotFound"
  shows "am_GetRoleReferenceRules am ref namespace =
     (if rr_Kind ref \<in> {''Role'', ''ClusterRole'', ''GlobalRole'', ''WorkspaceRole''} then Inr ([], [])
      else Inl (OtherError (''unsupported role reference kind: '' @ quoted (rr_Kind ref))))"
  using assms
  by (simp add: am_GetRoleReferenceRules_def reference_result_def GetNamespaceRole_def GetClusterRole_def
      GetGlobalRole_def GetWorkspaceRole_def)

theorem GetRoleReferenceRules_dangling_witness:
  "am_GetRoleReferenceRules (sample_operator\<lparr>workspaceRoleGetter := \<lambda>n r. Inl NotFound\<rparr>)
     \<lparr>rr_Kind = ''GlobalRole'', rr_Name = ''gone''\<rparr> [] = Inr ([], [])"
  using GetRoleReferenceRules_dangling [of "sample_operator\<lparr>workspaceRoleGetter := \<lambda>n r. Inl NotFound\<rparr>"
      "[]" "\<lparr>rr_Kind = ''GlobalRole'', rr_Name = ''gone''\<rparr>"]
  by (simp add: sample_operator_def)

lemma aggregate_rules_keeps: "aggregate_rules get ns acc = Inr rules \<Longrightarrow> set acc \<subseteq> set rules"
  by (induction ns arbitrary: acc) (force split: sum.splits)+

lemma linstorrule_allows:
  "a_ResourceRequest a \<Longrightarrow> a_APIGroup a = ''versatel.kubesphere.io'' \<Longrightarrow> ruleAllows a linstorrule"
  by (simp add: ruleAllows_def rule_match_iff linstorrule_def Let_def)

lemma rules_to_write_keeps:
  "rules_to_write decode get ann base = Inr rules \<Longrightarrow> set base \<subseteq> set rules"
  by (auto simp: rules_to_write_def dest: aggregate_rules_keeps split: option.splits)

text \<open>
  Every global role the operator creates or updates allows every resource request of the API group
  \<^verbatim>\<open>versatel.kubesphere.io\<close>, whatever its verb, resource and name: the write request, when one is sent,
  carries the rule for that group, whichever roles the written role aggregates.
\<close>

theorem CreateOrUpdateGlobalRole_grants_versatel:
  "\<exists>ws. snd (CreateOrUpdateGlobalRole resp decode am r h) = h @ ws \<and>
     ((\<exists>e. ws = [] \<and> fst (CreateOrUpdateGlobalRole resp decode am r h) = Some e) \<or>
      (\<exists>rules. ws = [(if r_ResourceVersion r = [] then CreateRole else UpdateRole) GlobalRB []
                       (r\<lparr>r_Rules := rules\<rparr>)] \<and>
        (\<forall>a. list_ex (ruleAllows (a\<lparr>a_ResourceRequest := True,
                                    a_APIGroup := ''versatel.kubesphere.io''\<rparr>)) rules)))"
proof (cases "rules_to_write decode (GetGlobalRole am) (r_Annotations r) [linstorrule]")
  case (Inl e)
  then show ?thesis by (simp add: CreateOrUpdateGlobalRole_def)
next
  case (Inr rules)
  then have "linstorrule \<in> set rules" using rules_to_write_keeps by fastforce
  then have "list_ex (ruleAllows (a\<lparr>a_ResourceRequest := True,
        a_APIGroup := ''versatel.kubesphere.io''\<rparr>)) rules" for a :: attributes
    unfolding list_ex_iff by (rule_tac x = linstorrule in bexI) (auto intro: linstorrule_allows)
  with Inr show ?thesis
    by (auto simp: CreateOrUpdateGlobalRole_def write_role_def call_def)
qed

section \<open>Where a permission comes from\<close>

text \<open>
  The contract the authorizer needs of the interface to keep workspaces apart: the bindings listed
  for a workspace belong to that workspace.
\<close>

locale workspace_scoped_am =
  fixes am :: am_interface
    and workspace_of :: "role_binding \<Rightarrow> string"
  assumes listed_in_workspace:
    "ListWorkspaceRoleBindings am u g w = Inr bs \<Longrightarrow> w \<noteq> [] \<Longrightarrow> b \<in> set bs \<Longrightarrow> workspace_of b = w"
begin

lemma workspace_allow_origin:
  assumes allow: "fst (Authorize rego am a) = DecisionAllow"
    and scope: "a_ResourceScope a = WorkspaceScope" "a_Workspace a \<noteq> []"
  shows "\<exists>b policy rules.
     ((\<exists>bs. ListGlobalRoleBindings am [] = Inr bs \<and> b \<in> set bs) \<or>
      (\<exists>bs. ListClusterRoleBindings am [] = Inr bs \<and> b \<in> set bs) \<or>
      (\<exists>bs. ListWorkspaceRoleBindings am [] [] (a_Workspace a) = Inr bs \<and> b \<in> set bs \<and>
            workspace_of b = a_Workspace a)) \<and>
     appliesTo (a_User a) (b_Subjects b) [] \<noteq> None \<and>
     GetRoleReferenceRules am (b_RoleRef b) [] = Inr (policy, rules) \<and>
     ((policy \<noteq> [] \<and> regoPolicyAllows rego a policy) \<or> list_ex (ruleAllows a) rules)"
proof -
  obtain policy rules where role: "(policy, rules) \<in> set (applicable_roles am a)"
    and ok: "(policy \<noteq> [] \<and> regoPolicyAllows rego a policy) \<or> list_ex (ruleAllows a) rules"
    using allow by (auto simp: Authorize_decision list_ex_iff split: if_splits)
  have "effective_workspace am a = a_Workspace a" using scope by (simp add: effective_workspace_def)
  then have "(policy, rules) \<in> set (listed_roles am (a_User a) [] (ListGlobalRoleBindings am [])) \<or>
      (policy, rules) \<in> set (listed_roles am (a_User a) []
          (ListWorkspaceRoleBindings am [] [] (a_Workspace a))) \<or>
      (policy, rules) \<in> set (listed_roles am (a_User a) [] (ListClusterRoleBindings am []))"
    using role scope by (auto simp: applicable_roles_def Let_def split: if_splits)
  then obtain b bs where "b \<in> set bs" "appliesTo (a_User a) (b_Subjects b) [] \<noteq> None"
      "GetRoleReferenceRules am (b_RoleRef b) [] = Inr (policy, rules)"
      "Inr bs \<in> {ListGlobalRoleBindings am [], ListWorkspaceRoleBindings am [] [] (a_Workspace a),
                  ListClusterRoleBindings am []}"
    by (auto simp: listed_roles_def set_roles_of split: sum.splits)
  moreover from this have "workspace_of b = a_Workspace a"
    if "ListWorkspaceRoleBindings am [] [] (a_Workspace a) = Inr bs"
    using listed_in_workspace that scope by blast
  ultimately show ?thesis using ok by (metis (no_types, lifting) insertE singletonD)
qed

end

interpretation operator: workspace_scoped_am "am_of am" "\<lambda>b. map_get [] (b_Labels b) WorkspaceLabel" for am
  by unfold_locales
     (auto simp: am_of_def as_message_def am_ListWorkspaceRoleBindings_def split: sum.splits)

lemma as_message_Inr_iff [simp]: "as_message x = Inr y \<longleftrightarrow> x = Inr y"
  by (cases x) (auto simp: as_message_def)

text \<open>
  C28: When the authorizer, on top of the access management operator, allows a request to a named
  workspace, some binding that applies to the user allows it, and that binding is a global or a
  cluster role binding or carries the label of that very workspace.
\<close>

theorem Authorize_workspace_allow_origin:
  assumes "fst (Authorize rego (am_of am) a) = DecisionAllow"
    and "a_ResourceScope a = WorkspaceScope" "a_Workspace a \<noteq> []"
  shows "\<exists>b policy rules.
     ((\<exists>bs. globalRoleBindingGetter am [] = Inr bs \<and> b \<in> set bs) \<or>
      (\<exists>bs. clusterRoleBindingGetter am [] = Inr bs \<and> b \<in> set bs) \<or>
      (\<exists>bs. workspaceRoleBindingGetter am [] = Inr bs \<and> b \<in> set bs \<and>
            map_get [] (b_Labels b) WorkspaceLabel = a_Workspace a)) \<and>
     appliesTo (a_User a) (b_Subjects b) [] \<noteq> None \<and>
     am_GetRoleReferenceRules am (b_RoleRef b) [] = Inr (policy, rules) \<and>
     ((policy \<noteq> [] \<and> regoPolicyAllows rego a policy) \<or> list_ex (ruleAllows a) rules)"
proof -
  have "am_ListWorkspaceRoleBindings am u g w = Inr bs \<Longrightarrow>
      \<exists>all. workspaceRoleBindingGetter am [] = Inr all \<and> set bs \<subseteq> set all" for u g w bs
    by (auto simp: listed_defs split: sum.splits)
  moreover have "am_ListGlobalRoleBindings am u = Inr bs \<Longrightarrow>
      \<exists>all. globalRoleBindingGetter am [] = Inr all \<and> set bs \<subseteq> set all" for u bs
    by (auto simp: listed_defs split: sum.splits)
  moreover have "am_ListClusterRoleBindings am u = Inr bs \<Longrightarrow>
      \<exists>all. clusterRoleBindingGetter am [] = Inr all \<and> set bs \<subseteq> set all" for u bs
    by (auto simp: listed_defs split: sum.splits)
  ultimately show ?thesis
    using operator.workspace_allow_origin [OF assms] by (simp add: am_of_def) (meson subsetD)
qed

text \<open>
  A user bound to a global role whose stored rules contain the VersaTEL rule is allowed every
  resource request of the VersaTEL group, in every scope, without any other binding.
\<close>

theorem versatel_granted_by_global_role:
  assumes "globalRoleBindingGetter am [] = Inr bs" and "b \<in> set bs"
    and "appliesTo (a_User a) (b_Subjects b) [] \<noteq> None"
    and "rr_Kind (b_RoleRef b) = ''GlobalRole''"
    and "globalRoleGetter am [] (rr_Name (b_RoleRef b)) = Inr r" and "linstorrule \<in> set (r_Rules r)"
    and "a_ResourceRequest a" "a_APIGroup a = ''versatel.kubesphere.io''"
  shows "fst (Authorize rego (am_of am) a) = DecisionAllow"
proof -
  let ?role = "(map_get [] (r_Annotations r) RegoOverrideAnnotation, r_Rules r)"
  have "ListGlobalRoleBindings (am_of am) [] = Inr bs"
    using assms by (simp add: am_of_def am_ListGlobalRoleBindings_def contains_subject_def)
  moreover have "GetRoleReferenceRules (am_of am) (b_RoleRef b) [] = Inr ?role"
    using assms by (simp add: am_of_def am_GetRoleReferenceRules_def GetGlobalRole_def reference_result_def)
  ultimately have "?role \<in> set (applicable_roles (am_of am) a)"
    using assms(2,3) by (auto simp: applicable_roles_def Let_def listed_roles_def set_roles_of)
  then show ?thesis
    using assms linstorrule_allows [of a] by (auto simp: Authorize_decision)
qed

definition granting_operator :: am_operator where
  "granting_operator =
     sample_operator
       \<lparr>globalRoleBindingGetter := \<lambda>n. Inr [new_binding ''alice'' ''GlobalRole'' ''regular'' []],
        globalRoleGetter := \<lambda>n r. Inr (sample_role\<lparr>r_Rules := [linstorrule]\<rparr>)\<rparr>"

lemmas granting_defs =
  granting_operator_def sample_operator_def sample_role_def sample_attributes_def new_binding_def
  user_subject_def appliesToUser_def

theorem versatel_granted_by_global_role_witness:
  "fst (Authorize (\<lambda>p a. Inl ''no engine'') (am_of granting_operator) sample_attributes) = DecisionAllow"
  using versatel_granted_by_global_role [of granting_operator
      "[new_binding ''alice'' ''GlobalRole'' ''regular'' []]" "new_binding ''alice'' ''GlobalRole'' ''regular'' []"
      sample_attributes "sample_role\<lparr>r_Rules := [linstorrule]\<rparr>" "\<lambda>p a. Inl ''no engine''"]
  by (simp add: granting_defs)

theorem Authorize_workspace_allow_origin_witness:
  "\<exists>(b :: role_binding) policy rules.
     am_GetRoleReferenceRules granting_operator (b_RoleRef b) [] = Inr (policy, rules) \<and>
     appliesTo (a_User sample_attributes) (b_Subjects b) [] \<noteq> None"
proof -
  let ?a = "sample_attributes\<lparr>a_ResourceScope := WorkspaceScope, a_Workspace := ''dev''\<rparr>"
  have "([], [linstorrule]) \<in> set (applicable_roles (am_of granting_operator) ?a)"
    by (simp add: applicable_roles_def Let_def listed_roles_def am_of_def as_message_def
        am_ListGlobalRoleBindings_def contains_subject_def am_GetRoleReferenceRules_def GetGlobalRole_def
        reference_result_def map_get_def granting_defs)
  moreover have "ruleAllows ?a linstorrule"
    by (rule linstorrule_allows) (simp_all add: sample_attributes_def)
  ultimately have "fst (Authorize (\<lambda>p a. Inl ''no engine'') (am_of granting_operator) ?a) = DecisionAllow"
    unfolding Authorize_decision by (intro if_P bexI) (auto simp only: list.set insert_iff prod.case)
  from Authorize_workspace_allow_origin [OF this] show ?thesis
    by (simp del: not_None_eq) blast
qed

end
