(* ===== verification/Net_Address.thy ===== *)
theory Net_Address
  imports Prelude
begin

text \<open>
  IP addresses and CIDRs as the IPAM packages see them: the part of Go's \<^verbatim>\<open>net\<close> and of the vendored
  \<^verbatim>\<open>libcalico-go/lib/net\<close> they call.

  A \<^verbatim>\<open>net.IP\<close> is a byte slice: 4 bytes, 16 bytes, or a slice of another length, which every
  function of the package treats as invalid. The first two are \<open>V4\<close> and \<open>V6\<close> with the big-endian value of
  the bytes; an IPv4-mapped address is always \<open>V4\<close>, as \<^verbatim>\<open>cnet.ParseIP\<close> and \<^verbatim>\<open>cnet.ParseCIDR\<close>
  return it. A CIDR is kept in its parsed form: the address as written and the prefix length.
\<close>

datatype ip = V4 nat | V6 nat | Malformed nat

fun ip_bits :: "ip \<Rightarrow> nat" where
  "ip_bits (V4 n) = 32"
| "ip_bits (V6 n) = 128"
| "ip_bits (Malformed n) = 0"

fun IPToBigInt :: "ip \<Rightarrow> nat" where
  "IPToBigInt (V4 n) = n"
| "IPToBigInt (V6 n) = n"
| "IPToBigInt (Malformed n) = 0"

text \<open>
  \<^verbatim>\<open>big.Int.Bytes\<close> has no leading zero bytes, so only a number of exactly 4 or 16 significant bytes
  gives a well-formed address.
\<close>

definition BigIntToIP :: "nat \<Rightarrow> ip" where
  "BigIntToIP n =
     (if 2 ^ 24 \<le> n \<and> n < 2 ^ 32 then V4 n
      else if 2 ^ 120 \<le> n \<and> n < 2 ^ 128 then V6 n
      else Malformed n)"

definition IncrementIP :: "ip \<Rightarrow> nat \<Rightarrow> ip" where
  "IncrementIP ip k = BigIntToIP (IPToBigInt ip + k)"

record cidr =
  c_IP :: ip
  c_Ones :: nat

definition mask_value :: "nat \<Rightarrow> nat \<Rightarrow> nat" where
  "mask_value host n = n div 2 ^ host * 2 ^ host"

definition host_bits :: "cidr \<Rightarrow> nat" where
  "host_bits c = ip_bits (c_IP c) - c_Ones c"

fun mask_ip :: "nat \<Rightarrow> ip \<Rightarrow> ip" where
  "mask_ip host (V4 n) = V4 (mask_value host n)"
| "mask_ip host (V6 n) = V6 (mask_value host n)"
| "mask_ip host (Malformed n) = Malformed n"

definition ParseCIDR :: "cidr \<Rightarrow> ip \<times> cidr" where
  "ParseCIDR c = (c_IP c, c\<lparr>c_IP := mask_ip (host_bits c) (c_IP c)\<rparr>)"

fun Contains_ip :: "cidr \<Rightarrow> ip \<Rightarrow> bool" where
  "Contains_ip c (V4 n) =
     (case c_IP c of V4 m \<Rightarrow> m div 2 ^ host_bits c = n div 2 ^ host_bits c | _ \<Rightarrow> False)"
| "Contains_ip c (V6 n) =
     (case c_IP c of V6 m \<Rightarrow> m div 2 ^ host_bits c = n div 2 ^ host_bits c | _ \<Rightarrow> False)"
| "Contains_ip c (Malformed n) = False"

definition IsNetOverlap :: "cidr \<Rightarrow> cidr \<Rightarrow> bool" where
  "IsNetOverlap c d = (Contains_ip d (c_IP c) \<or> Contains_ip c (c_IP d))"

text \<open>
  A usable CIDR: a well-formed address whose first byte is not zero, so that its big-endian value has
  the full number of significant bytes, and a prefix length within the address.
\<close>

fun wf_ip :: "ip \<Rightarrow> bool" where
  "wf_ip (V4 n) = (2 ^ 24 \<le> n \<and> n < 2 ^ 32)"
| "wf_ip (V6 n) = (2 ^ 120 \<le> n \<and> n < 2 ^ 128)"
| "wf_ip (Malformed n) = False"

definition wf_cidr :: "cidr \<Rightarrow> bool" where
  "wf_cidr c = (wf_ip (c_IP c) \<and> c_Ones c \<le> ip_bits (c_IP c))"

text \<open>The addresses a CIDR covers, as numbers, and whether its address is the base of the range.\<close>

definition aligned :: "cidr \<Rightarrow> bool" where
  "aligned c = (2 ^ host_bits c dvd IPToBigInt (c_IP c))"

section \<open>Laws\<close>

lemma BigIntToIP_IPToBigInt [simp]: "wf_ip x \<Longrightarrow> BigIntToIP (IPToBigInt x) = x"
  by (cases x) (auto simp: BigIntToIP_def)

lemma IncrementIP_0 [simp]: "wf_ip x \<Longrightarrow> IncrementIP x 0 = x"
  by (simp add: IncrementIP_def)

lemma mask_value_dvd [simp]: "2 ^ h dvd mask_value h n"
  by (simp add: mask_value_def)

lemma mask_value_id: "2 ^ h dvd n \<Longrightarrow> mask_value h n = n"
  by (simp add: mask_value_def)

lemma mask_ip_id: "2 ^ h dvd IPToBigInt x \<Longrightarrow> mask_ip h x = x"
  by (cases x) (auto simp: mask_value_id)

lemma ParseCIDR_aligned: "aligned c \<Longrightarrow> ParseCIDR c = (c_IP c, c)"
  by (simp add: ParseCIDR_def aligned_def mask_ip_id)

lemma div_pow_add: "2 ^ h dvd (n :: nat) \<Longrightarrow> k < 2 ^ h \<Longrightarrow> (n + k) div 2 ^ h = n div 2 ^ h"
  by (auto elim!: dvdE)

text \<open>An aligned range never crosses the end of its address family, so its addresses stay well formed.\<close>

lemma IncrementIP_in_range:
  assumes "wf_cidr c" "aligned c" "k < 2 ^ host_bits c"
  shows "wf_ip (IncrementIP (c_IP c) k) \<and> IPToBigInt (IncrementIP (c_IP c) k) = IPToBigInt (c_IP c) + k \<and>
    Contains_ip c (IncrementIP (c_IP c) k)"
proof -
  have upper: "n + k < 2 ^ b" if "n < 2 ^ b" "2 ^ h dvd n" "k < 2 ^ h" "h \<le> b" for n b h :: nat
  proof -
    from that obtain q r where "n = 2 ^ h * q" "b = h + r" by (auto elim!: dvdE simp: le_iff_add)
    with that have "q < 2 ^ r" by (simp add: power_add)
    then have "2 ^ h * Suc q \<le> 2 ^ h * 2 ^ r" by (intro mult_left_mono) simp_all
    with \<open>n = _\<close> \<open>b = _\<close> that show ?thesis by (simp add: power_add)
  qed
  show ?thesis
  proof (cases "c_IP c")
    case (V4 n)
    then have "n + k < 2 ^ 32"
      using assms upper [of n 32 "host_bits c"] by (auto simp: wf_cidr_def aligned_def host_bits_def)
    with V4 assms show ?thesis
      by (auto simp: IncrementIP_def BigIntToIP_def wf_cidr_def aligned_def div_pow_add)
  next
    case (V6 n)
    then have "n + k < 2 ^ 128"
      using assms upper [of n 128 "host_bits c"] by (auto simp: wf_cidr_def aligned_def host_bits_def)
    with V6 assms show ?thesis
      by (auto simp: IncrementIP_def BigIntToIP_def wf_cidr_def aligned_def div_pow_add)
  qed (use assms in \<open>auto simp: wf_cidr_def\<close>)
qed

lemma Contains_ip_iff_range:
  assumes "wf_ip x" "wf_cidr c" "aligned c" "ip_bits x = ip_bits (c_IP c)"
  shows "Contains_ip c x \<longleftrightarrow>
    IPToBigInt (c_IP c) \<le> IPToBigInt x \<and> IPToBigInt x < IPToBigInt (c_IP c) + 2 ^ host_bits c"
proof -
  have rng: "m div 2 ^ h = n div 2 ^ h \<longleftrightarrow> m \<le> n \<and> n < m + 2 ^ h" if "2 ^ h dvd m" for m n h :: nat
    using that by (auto elim!: dvdE simp: div_nat_eqI)
      (metis mult.commute mult_Suc_right nat_mult_le_cancel1 not_less add.commute dividend_less_times_div
        div_mult_mod_eq le_add1 zero_less_numeral zero_less_power)+
  show ?thesis
    using assms rng by (cases x; cases "c_IP c") (auto simp: wf_cidr_def aligned_def)
qed

end
