(* ===== verification/Ip_Pool.thy ===== *)
theory Ip_Pool
  imports Net_Address "HOL-Library.Word"
begin

text \<open>
  IP pools (\<^verbatim>\<open>kubesphere.io/api/network/v1alpha1/ippool_types.go\<close>): the specification of a pool, its
  identifier, its size and the addresses its range reserves. Sizes and ordinals are Go
  \<^verbatim>\<open>int\<close> values of 64 bits: a shift by 63 or more and a difference of addresses that does not fit are
  computed with the wrap-around of the machine.
\<close>

unbundle bit_operations_syntax

record dns_config =
  dns_Nameservers :: "string list"
  dns_Domain :: string
  dns_Search :: "string list"
  dns_Options :: "string list"

text \<open>An empty range bound is \<^const>\<open>None\<close>; routes are pairs of a destination and a gateway.\<close>

record ippool =
  pool_Name :: string
  pool_Type :: string
  pool_CIDR :: cidr
  pool_RangeStart :: "ip option"
  pool_RangeEnd :: "ip option"
  pool_Disabled :: bool
  pool_BlockSize :: nat
  pool_VlanId :: "32 word"
  pool_Gateway :: string
  pool_Routes :: "(cidr \<times> string) list"
  pool_DNS :: dns_config

abbreviation VLAN :: string where "VLAN \<equiv> ''vlan''"
abbreviation Calico :: string where "Calico \<equiv> ''calico''"
abbreviation Porter :: string where "Porter \<equiv> ''porter''"
abbreviation Pod :: string where "Pod \<equiv> ''pod''"

definition num_addresses :: "cidr \<Rightarrow> int" where
  "num_addresses c =
     (let (_, net) = ParseCIDR c in sint (push_bit (host_bits net) (1 :: 64 word)))"

definition ordinal_from :: "ip \<Rightarrow> ip \<Rightarrow> int \<Rightarrow> int option" where
  "ordinal_from base ip numAddresses =
     (let ord = sint (word_of_int (int (IPToBigInt ip) - int (IPToBigInt base)) :: 64 word)
      in if ord < 0 \<or> ord \<ge> numAddresses then None else Some ord)"

definition pool_NumAddresses :: "ippool \<Rightarrow> int" where
  "pool_NumAddresses p = num_addresses (pool_CIDR p)"

definition pool_IPToOrdinal :: "ippool \<Rightarrow> ip \<Rightarrow> int option" where
  "pool_IPToOrdinal p ip = ordinal_from (c_IP (snd (ParseCIDR (pool_CIDR p)))) ip (pool_NumAddresses p)"

definition zero_on_error :: "int option \<Rightarrow> int" where
  "zero_on_error r = (case r of None \<Rightarrow> 0 | Some i \<Rightarrow> i)"

definition StartReservedAddressed :: "ippool \<Rightarrow> int" where
  "StartReservedAddressed p =
     (case pool_RangeStart p of
        None \<Rightarrow> 0
      | Some ip \<Rightarrow> zero_on_error (pool_IPToOrdinal p ip))"

definition EndReservedAddressed :: "ippool \<Rightarrow> int" where
  "EndReservedAddressed p =
     (case pool_RangeEnd p of
        None \<Rightarrow> 0
      | Some ip \<Rightarrow> pool_NumAddresses p - zero_on_error (pool_IPToOrdinal p ip) - 1)"

definition pool_NumReservedAddresses :: "ippool \<Rightarrow> int" where
  "pool_NumReservedAddresses p = StartReservedAddressed p + EndReservedAddressed p"

definition pool_ID :: "ippool \<Rightarrow> 32 word" where
  "pool_ID p =
     (if pool_Type p = VLAN then pool_VlanId p + 1
      else if pool_Type p = Porter then 4098
      else if pool_Type p = Calico then 4099
      else 0)"

definition IPPoolTypeLocal :: string where
  "IPPoolTypeLocal = ''local''"

definition pool_Type_of :: "ippool \<Rightarrow> string" where
  "pool_Type_of p = (if pool_Type p = VLAN then IPPoolTypeLocal else pool_Type p)"

definition TypeInvalid :: "ippool \<Rightarrow> bool" where
  "TypeInvalid p =
     (if pool_Type p = VLAN \<or> pool_Type p = Porter \<or> pool_Type p = Pod then False else True)"

definition Overlapped :: "ippool \<Rightarrow> ippool \<Rightarrow> bool" where
  "Overlapped p q =
     (if pool_ID p \<noteq> pool_ID q then False
      else IsNetOverlap (snd (ParseCIDR (pool_CIDR p))) (snd (ParseCIDR (pool_CIDR q))))"

text \<open>Some address lies in both pools.\<close>

definition shares_address :: "ippool \<Rightarrow> ippool \<Rightarrow> bool" where
  "shares_address p q \<longleftrightarrow> (\<exists>x. Contains_ip (pool_CIDR p) x \<and> Contains_ip (pool_CIDR q) x)"

definition pool_V4 :: "ippool \<Rightarrow> bool" where
  "pool_V4 p = (case c_IP (pool_CIDR p) of V4 n \<Rightarrow> True | _ \<Rightarrow> False)"

section \<open>Sizes and ordinals\<close>

lemma host_bits_ParseCIDR [simp]: "host_bits (snd (ParseCIDR c)) = host_bits c"
proof -
  have "ip_bits (mask_ip h x) = ip_bits x" for h x by (cases x) auto
  then show ?thesis by (simp add: ParseCIDR_def host_bits_def)
qed

text \<open>Two pools with the same id and a common address overlap, whichever of the two is the larger.\<close>

lemma mask_value_div:
  assumes "m div 2 ^ h = x div (2 :: nat) ^ h" and "h \<le> k"
  shows "mask_value h m div 2 ^ k = x div 2 ^ k"
proof -
  obtain r where k: "k = h + r" using assms(2) le_iff_add by blast
  have "mask_value h m div 2 ^ k = x div 2 ^ h * 2 ^ h div 2 ^ h div 2 ^ r"
    using assms(1) by (simp add: mask_value_def k power_add div_mult2_eq)
  then show ?thesis by (simp add: k power_add div_mult2_eq)
qed

lemma mask_value_same [simp]: "mask_value h m div 2 ^ h = m div 2 ^ h"
  by (simp add: mask_value_def)

lemma Contains_ip_overlap:
  assumes "Contains_ip c x" and "Contains_ip d x" and "host_bits c \<le> host_bits d"
  shows "Contains_ip (snd (ParseCIDR d)) (c_IP (snd (ParseCIDR c)))"
proof -
  have hb: "c_IP d = V4 m \<Longrightarrow> host_bits (d\<lparr>c_IP := V4 n\<rparr>) = host_bits d"
    "c_IP d = V6 m \<Longrightarrow> host_bits (d\<lparr>c_IP := V6 n\<rparr>) = host_bits d" for m n
    by (simp_all add: host_bits_def)
  show ?thesis
    using assms mask_value_div [OF _ assms(3)]
    by (cases x; cases "c_IP c"; cases "c_IP d") (auto simp: ParseCIDR_def hb)
qed

lemma shares_address_Overlapped:
  assumes "pool_ID p = pool_ID q" and "shares_address p q"
  shows "Overlapped p q"
proof -
  obtain x where x: "Contains_ip (pool_CIDR p) x" "Contains_ip (pool_CIDR q) x" using assms(2) unfolding shares_address_def by blast
  have "host_bits (pool_CIDR p) \<le> host_bits (pool_CIDR q) \<or> host_bits (pool_CIDR q) \<le> host_bits (pool_CIDR p)" by linarith
  then show ?thesis using Contains_ip_overlap [OF x] Contains_ip_overlap [OF x(2,1)] assms(1) by (auto simp: Overlapped_def IsNetOverlap_def)
qed

lemma sint_int64: "- (2 ^ 63) \<le> k \<Longrightarrow> k < 2 ^ 63 \<Longrightarrow> sint (word_of_int k :: 64 word) = k"
  by (subst signed_of_int) (simp add: signed_take_bit_int_eq_self)

lemma num_addresses_small: "host_bits c < 63 \<Longrightarrow> num_addresses c = 2 ^ host_bits c"
proof -
  assume "host_bits c < 63"
  then have "(2 :: int) ^ host_bits c < 2 ^ 63" by (intro power_strict_increasing) simp_all
  moreover have "push_bit (host_bits c) (1 :: 64 word) = word_of_int (2 ^ host_bits c)"
    by (simp add: push_bit_eq_mult)
  moreover have "- (2 ^ 63) \<le> (2 :: int) ^ host_bits c"
    by (rule order_trans [of _ 0]) simp_all
  ultimately show ?thesis
    using sint_int64 [of "2 ^ host_bits c"]
    by (simp add: num_addresses_def case_prod_beta del: of_int_power)
qed

lemma ordinal_from_near:
  assumes "\<bar>int (IPToBigInt ip) - int (IPToBigInt base)\<bar> < 2 ^ 63"
  shows "ordinal_from base ip numAddresses =
    (let d = int (IPToBigInt ip) - int (IPToBigInt base)
     in if d < 0 \<or> d \<ge> numAddresses then None else Some d)"
  using assms unfolding ordinal_from_def by (subst sint_int64) simp_all

end
