(* ===== verification/Ipam_Block.thy ===== *)
theory Ipam_Block
  imports Ip_Pool
begin

text \<open>
  IPAM blocks (\<^verbatim>\<open>kubesphere.io/api/network/v1alpha1/ipamblock_types.go\<close>): the allocation table of one
  block of addresses.

  An ordinal is the offset of an address in its block. \<open>bk_Allocations\<close> gives for each ordinal the
  index of the attribute that owns it (the nil pointer is \<^const>\<open>None\<close>), \<open>bk_Unallocated\<close> queues the free
  ordinals. Ordinals and indexes are natural numbers, as the code writes no others; an index
  out of the range of its slice panics, which is the result \<^const>\<open>None\<close> of an operation. A nil map of
  secondary attributes differs from an empty one in \<^verbatim>\<open>reflect.DeepEqual\<close> and is \<^const>\<open>None\<close>. Block names
  and keys, texts built from the identifier and the CIDR, are kept as that pair.
\<close>

section \<open>Data\<close>

type_synonym secondary = "(string, string) gomap option"

record allocation_attribute =
  AttrPrimary :: string
  AttrSecondary :: secondary

type_synonym block_key = "32 word \<times> cidr"

record ipam_block =
  bk_Name :: block_key
  bk_PoolLabel :: string
  bk_ResourceVersion :: nat
  bk_ID :: "32 word"
  bk_CIDR :: cidr
  bk_Allocations :: "nat option list"
  bk_Unallocated :: "nat list"
  bk_Attributes :: "allocation_attribute list"
  bk_Deleted :: bool

record reserved_attr =
  StartOfBlock :: int
  EndOfBlock :: int
  rsvd_Handle :: string
  rsvd_Note :: string

definition ReservedHandle :: string where
  "ReservedHandle = ''kubesphere-reserved-handle''"

definition ReservedNote :: string where
  "ReservedNote = ''kubesphere reserved''"

section \<open>Operations\<close>

definition block_String :: "ipam_block \<Rightarrow> block_key" where
  "block_String b = (bk_ID b, bk_CIDR b)"

definition BlockName :: "ipam_block \<Rightarrow> block_key" where
  "BlockName b = (bk_ID b, snd (ParseCIDR (bk_CIDR b)))"

definition block_NumAddresses :: "ipam_block \<Rightarrow> int" where
  "block_NumAddresses b = num_addresses (bk_CIDR b)"

definition block_IPToOrdinal :: "ipam_block \<Rightarrow> ip \<Rightarrow> int option" where
  "block_IPToOrdinal b ip = ordinal_from (fst (ParseCIDR (bk_CIDR b))) ip (block_NumAddresses b)"

definition NumFreeAddresses :: "ipam_block \<Rightarrow> nat" where
  "NumFreeAddresses b = length (bk_Unallocated b)"

definition block_MarkDeleted :: "ipam_block \<Rightarrow> ipam_block" where
  "block_MarkDeleted b = b\<lparr>bk_Deleted := True\<rparr>"

definition same_map :: "('k, 'v) gomap \<Rightarrow> ('k, 'v) gomap \<Rightarrow> bool" where
  "same_map m n = (length m = length n \<and> list_all (\<lambda>(k, v). map_of n k = Some v) m)"

definition DeepEqual :: "allocation_attribute \<Rightarrow> allocation_attribute \<Rightarrow> bool" where
  "DeepEqual a b =
     (AttrPrimary a = AttrPrimary b \<and>
      (case (AttrSecondary a, AttrSecondary b) of
         (None, None) \<Rightarrow> True
       | (Some m, Some n) \<Rightarrow> same_map m n
       | _ \<Rightarrow> False))"

fun find_index :: "('a \<Rightarrow> bool) \<Rightarrow> nat \<Rightarrow> 'a list \<Rightarrow> nat option" where
  "find_index P i [] = None"
| "find_index P i (x # xs) = (if P x then Some i else find_index P (Suc i) xs)"

definition findOrAddAttribute ::
  "string \<Rightarrow> secondary \<Rightarrow> ipam_block \<Rightarrow> ipam_block \<times> nat" where
  "findOrAddAttribute handleID attrs b =
     (let attr = \<lparr>AttrPrimary = handleID, AttrSecondary = attrs\<rparr> in
      case find_index (DeepEqual attr) 0 (bk_Attributes b) of
        Some idx \<Rightarrow> (b, idx)
      | None \<Rightarrow> (b\<lparr>bk_Attributes := bk_Attributes b @ [attr]\<rparr>, length (bk_Attributes b)))"

text \<open>The first loop of \<^verbatim>\<open>AutoAssign\<close> pops free ordinals, the second allocates them.\<close>

fun pop_ordinals :: "int \<Rightarrow> nat list \<Rightarrow> nat list \<Rightarrow> nat list \<times> nat list" where
  "pop_ordinals num ordinals [] = (ordinals, [])"
| "pop_ordinals num ordinals (u # us) =
     (if int (length ordinals) < num then pop_ordinals num (ordinals @ [u]) us else (ordinals, u # us))"

fun assign_ordinals ::
  "string \<Rightarrow> secondary \<Rightarrow> nat list \<Rightarrow> cidr list \<Rightarrow> ipam_block \<Rightarrow> (ipam_block \<times> cidr list) option" where
  "assign_ordinals handleID attrs [] ips b = Some (b, ips)"
| "assign_ordinals handleID attrs (u # us) ips b =
     (let (b1, attrIndex) = findOrAddAttribute handleID attrs b;
          (ip, mask) = ParseCIDR (bk_CIDR b)
      in if u < length (bk_Allocations b1)
         then assign_ordinals handleID attrs us (ips @ [mask\<lparr>c_IP := IncrementIP ip u\<rparr>])
                (b1\<lparr>bk_Allocations := (bk_Allocations b1)[u := Some attrIndex]\<rparr>)
         else None)"

definition block_AutoAssign ::
  "int \<Rightarrow> string \<Rightarrow> secondary \<Rightarrow> ipam_block \<Rightarrow> (ipam_block \<times> cidr list) option" where
  "block_AutoAssign num handleID attrs b =
     (let (ordinals, rest) = pop_ordinals num [] (bk_Unallocated b)
      in assign_ordinals handleID attrs ordinals [] (b\<lparr>bk_Unallocated := rest\<rparr>))"

text \<open>Walking the allocations and looking up the attribute of each; an index out of range panics.\<close>

fun containsOnlyReservedIPs_loop :: "allocation_attribute list \<Rightarrow> nat option list \<Rightarrow> bool option" where
  "containsOnlyReservedIPs_loop ats [] = Some True"
| "containsOnlyReservedIPs_loop ats (None # as) = containsOnlyReservedIPs_loop ats as"
| "containsOnlyReservedIPs_loop ats (Some i # as) =
     (if i < length ats
      then (if ToLower (AttrPrimary (ats ! i)) \<noteq> ReservedHandle then Some False
            else containsOnlyReservedIPs_loop ats as)
      else None)"

definition block_Empty :: "ipam_block \<Rightarrow> bool option" where
  "block_Empty b = containsOnlyReservedIPs_loop (bk_Attributes b) (bk_Allocations b)"

fun NumReservedAddresses_loop :: "allocation_attribute list \<Rightarrow> nat \<Rightarrow> nat option list \<Rightarrow> nat option" where
  "NumReservedAddresses_loop ats n [] = Some n"
| "NumReservedAddresses_loop ats n (None # as) = NumReservedAddresses_loop ats n as"
| "NumReservedAddresses_loop ats n (Some i # as) =
     (if i < length ats
      then NumReservedAddresses_loop ats
             (if ToLower (AttrPrimary (ats ! i)) = ReservedHandle then n + 1 else n) as
      else None)"

definition block_NumReservedAddresses :: "ipam_block \<Rightarrow> nat option" where
  "block_NumReservedAddresses b = NumReservedAddresses_loop (bk_Attributes b) 0 (bk_Allocations b)"

fun attributeIndexesByHandle_loop :: "string \<Rightarrow> nat \<Rightarrow> allocation_attribute list \<Rightarrow> nat list" where
  "attributeIndexesByHandle_loop handleID i [] = []"
| "attributeIndexesByHandle_loop handleID i (a # as) =
     (if AttrPrimary a = handleID then i # attributeIndexesByHandle_loop handleID (Suc i) as
      else attributeIndexesByHandle_loop handleID (Suc i) as)"

definition attributeIndexesByHandle :: "string \<Rightarrow> ipam_block \<Rightarrow> nat list" where
  "attributeIndexesByHandle handleID b = attributeIndexesByHandle_loop handleID 0 (bk_Attributes b)"

definition intInSlice :: "nat \<Rightarrow> nat list \<Rightarrow> bool" where
  "intInSlice x xs = list_ex (\<lambda>v. v = x) xs"

text \<open>
  \<^verbatim>\<open>deleteAttributes\<close>: the first loop maps old attribute indexes to new ones and keeps the surviving
  attributes, the second rewrites the first \<^verbatim>\<open>NumAddresses\<close> allocations.
\<close>

fun compact_attributes ::
  "nat list \<Rightarrow> nat \<Rightarrow> nat \<Rightarrow> allocation_attribute list \<Rightarrow> nat option list \<times> allocation_attribute list" where
  "compact_attributes delIndexes x y [] = ([], [])"
| "compact_attributes delIndexes x y (a # as) =
     (if \<not> intInSlice x delIndexes
      then (let (ns, ks) = compact_attributes delIndexes (Suc x) (Suc y) as in (Some y # ns, a # ks))
      else (let (ns, ks) = compact_attributes delIndexes (Suc x) y as in (None # ns, ks)))"

fun remap_allocations :: "nat option list \<Rightarrow> nat \<Rightarrow> nat option list \<Rightarrow> nat option list option" where
  "remap_allocations newIndexes 0 as = Some as"
| "remap_allocations newIndexes (Suc n) [] = None"
| "remap_allocations newIndexes (Suc n) (a # as) =
     (case a of
        None \<Rightarrow> map_option ((#) None) (remap_allocations newIndexes n as)
      | Some i \<Rightarrow>
          (if i < length newIndexes
           then map_option ((#) (newIndexes ! i)) (remap_allocations newIndexes n as)
           else None))"

definition deleteAttributes :: "nat list \<Rightarrow> ipam_block \<Rightarrow> ipam_block option" where
  "deleteAttributes delIndexes b =
     (let (newIndexes, newAttrs) = compact_attributes delIndexes 0 0 (bk_Attributes b) in
      case remap_allocations newIndexes (nat (block_NumAddresses b)) (bk_Allocations b) of
        None \<Rightarrow> None
      | Some as \<Rightarrow> Some (b\<lparr>bk_Attributes := newAttrs, bk_Allocations := as\<rparr>))"

fun owned_ordinals :: "nat list \<Rightarrow> nat \<Rightarrow> nat \<Rightarrow> nat option list \<Rightarrow> nat list option" where
  "owned_ordinals attrIndexes ord 0 as = Some []"
| "owned_ordinals attrIndexes ord (Suc n) [] = None"
| "owned_ordinals attrIndexes ord (Suc n) (a # as) =
     (case owned_ordinals attrIndexes (Suc ord) n as of
        None \<Rightarrow> None
      | Some os \<Rightarrow>
          Some (if (case a of None \<Rightarrow> False | Some i \<Rightarrow> intInSlice i attrIndexes) then ord # os else os))"

fun free_ordinals :: "nat list \<Rightarrow> ipam_block \<Rightarrow> ipam_block" where
  "free_ordinals [] b = b"
| "free_ordinals (u # us) b =
     free_ordinals us (b\<lparr>bk_Allocations := (bk_Allocations b)[u := None],
                        bk_Unallocated := bk_Unallocated b @ [u]\<rparr>)"

definition block_ReleaseByHandle :: "string \<Rightarrow> ipam_block \<Rightarrow> (ipam_block \<times> nat) option" where
  "block_ReleaseByHandle handleID b =
     (let attrIndexes = attributeIndexesByHandle handleID b in
      if length attrIndexes = 0 then Some (b, 0)
      else
        (case owned_ordinals attrIndexes 0 (nat (block_NumAddresses b)) (bk_Allocations b) of
           None \<Rightarrow> None
         | Some ordinals \<Rightarrow>
             (case deleteAttributes attrIndexes b of
                None \<Rightarrow> None
              | Some b1 \<Rightarrow> Some (free_ordinals ordinals b1, length ordinals))))"

text \<open>
  Reserving the addresses at both ends of a new block. The slice expression panics unless both counts
  fit in the block, so the loops after it stay in range.
\<close>

definition reserve_block :: "reserved_attr \<Rightarrow> ipam_block \<Rightarrow> ipam_block option" where
  "reserve_block rsvd b =
     (let numAddresses = block_NumAddresses b; attrIndex = length (bk_Attributes b) in
      case Prelude.slice (bk_Unallocated b) (StartOfBlock rsvd) (numAddresses - EndOfBlock rsvd) of
        None \<Rightarrow> None
      | Some free \<Rightarrow>
          (let as1 = fold (\<lambda>i as. as[i := Some attrIndex]) [0..<nat (StartOfBlock rsvd)] (bk_Allocations b);
               as2 = fold (\<lambda>i as. as[nat numAddresses - i := Some attrIndex])
                       [1..<Suc (nat (EndOfBlock rsvd))] as1
           in Some (b\<lparr>bk_Unallocated := free, bk_Allocations := as2,
                bk_Attributes := bk_Attributes b @
                  [\<lparr>AttrPrimary = rsvd_Handle rsvd,
                    AttrSecondary = Some [(''note'', rsvd_Note rsvd)]\<rparr>]\<rparr>)))"

definition NewBlock :: "ippool \<Rightarrow> cidr \<Rightarrow> reserved_attr option \<Rightarrow> ipam_block option" where
  "NewBlock pool c rsvd =
     (let n = num_addresses c in
      if n < 0 then None
      else
        (let b = \<lparr>bk_Name = (pool_ID pool, snd (ParseCIDR c)), bk_PoolLabel = pool_Name pool,
                  bk_ResourceVersion = 0, bk_ID = pool_ID pool, bk_CIDR = c,
                  bk_Allocations = replicate (nat n) None, bk_Unallocated = [0..<nat n],
                  bk_Attributes = [], bk_Deleted = False\<rparr>
         in case rsvd of None \<Rightarrow> Some b | Some r \<Rightarrow> reserve_block r b))"

section \<open>The invariant and the abstract table\<close>

text \<open>
  A well-formed block has one allocation slot per address, its queue lists exactly the free ordinals
  once each, and every allocation refers to an attribute.
\<close>

definition wf_block :: "ipam_block \<Rightarrow> bool" where
  "wf_block b =
     (host_bits (bk_CIDR b) < 63 \<and>
      length (bk_Allocations b) = 2 ^ host_bits (bk_CIDR b) \<and>
      distinct (bk_Unallocated b) \<and>
      set (bk_Unallocated b) \<subseteq> {0..<length (bk_Allocations b)} \<and>
      list_all (\<lambda>i. case bk_Allocations b ! i of
                      None \<Rightarrow> i \<in> set (bk_Unallocated b)
                    | Some j \<Rightarrow> i \<notin> set (bk_Unallocated b) \<and> j < length (bk_Attributes b))
        [0..<length (bk_Allocations b)])"

text \<open>What a block means: the attribute that owns an ordinal, and its handle.\<close>

definition owner :: "ipam_block \<Rightarrow> nat \<Rightarrow> allocation_attribute option" where
  "owner b i =
     (if i < length (bk_Allocations b) then map_option ((!) (bk_Attributes b)) (bk_Allocations b ! i)
      else None)"

definition handle_of :: "ipam_block \<Rightarrow> nat \<Rightarrow> string option" where
  "handle_of b i = map_option AttrPrimary (owner b i)"

definition address :: "ipam_block \<Rightarrow> nat \<Rightarrow> cidr" where
  "address b i = (snd (ParseCIDR (bk_CIDR b)))\<lparr>c_IP := IncrementIP (fst (ParseCIDR (bk_CIDR b))) i\<rparr>"

lemma wf_block_NumAddresses: "wf_block b \<Longrightarrow> block_NumAddresses b = int (length (bk_Allocations b))"
  by (simp add: wf_block_def block_NumAddresses_def num_addresses_small)

lemma wf_block_slot:
  assumes "wf_block b" "i < length (bk_Allocations b)"
  shows "i \<in> set (bk_Unallocated b) \<longleftrightarrow> bk_Allocations b ! i = None"
    and "bk_Allocations b ! i = Some j \<Longrightarrow> j < length (bk_Attributes b)"
proof -
  have "case bk_Allocations b ! i of None \<Rightarrow> i \<in> set (bk_Unallocated b)
      | Some j \<Rightarrow> i \<notin> set (bk_Unallocated b) \<and> j < length (bk_Attributes b)"
    using assms unfolding wf_block_def list_all_iff by (metis atLeastLessThan_iff set_upt zero_le)
  then show "i \<in> set (bk_Unallocated b) \<longleftrightarrow> bk_Allocations b ! i = None"
    and "bk_Allocations b ! i = Some j \<Longrightarrow> j < length (bk_Attributes b)"
    by (auto split: option.splits)
qed

lemma wf_blockI:
  assumes "host_bits (bk_CIDR b) < 63" "length (bk_Allocations b) = 2 ^ host_bits (bk_CIDR b)"
    and "distinct (bk_Unallocated b)" "set (bk_Unallocated b) \<subseteq> {0..<length (bk_Allocations b)}"
    and "\<And>i. i < length (bk_Allocations b) \<Longrightarrow>
           i \<in> set (bk_Unallocated b) \<longleftrightarrow> bk_Allocations b ! i = None"
    and "\<And>i j. i < length (bk_Allocations b) \<Longrightarrow> bk_Allocations b ! i = Some j \<Longrightarrow>
           j < length (bk_Attributes b)"
  shows "wf_block b"
  using assms by (auto simp: wf_block_def list_all_iff split: option.splits)

lemma wf_block_free_range: "wf_block b \<Longrightarrow> i \<in> set (bk_Unallocated b) \<Longrightarrow> i < length (bk_Allocations b)"
  by (auto simp: wf_block_def)

lemma wf_block_free_iff:
  "wf_block b \<Longrightarrow> i \<in> set (bk_Unallocated b) \<longleftrightarrow> i < length (bk_Allocations b) \<and> owner b i = None"
  using wf_block_slot wf_block_free_range by (auto simp: owner_def)

section \<open>Assigning\<close>

lemma find_index_Some:
  "find_index P i xs = Some k \<Longrightarrow> \<exists>j < length xs. k = i + j \<and> P (xs ! j)"
proof (induction xs arbitrary: i)
  case (Cons x xs)
  show ?case
  proof (cases "P x")
    case False
    with Cons.prems Cons.IH [of "Suc i"] obtain j where "j < length xs" "k = Suc i + j" "P (xs ! j)" by auto
    then show ?thesis by (intro exI [of _ "Suc j"]) simp
  qed (use Cons.prems in auto)
qed simp

lemma same_map_refl [simp]: "wf_map m \<Longrightarrow> same_map m m"
  by (auto simp: same_map_def list_all_iff wf_map_map_of)

definition wf_secondary :: "secondary \<Rightarrow> bool" where
  "wf_secondary x = (case x of None \<Rightarrow> True | Some m \<Rightarrow> wf_map m)"

lemma DeepEqual_refl [simp]: "wf_secondary (AttrSecondary a) \<Longrightarrow> DeepEqual a a"
  by (auto simp: DeepEqual_def wf_secondary_def split: option.splits)

lemma DeepEqual_handle: "DeepEqual a b \<Longrightarrow> AttrPrimary b = AttrPrimary a"
  by (simp add: DeepEqual_def)

lemma findOrAddAttribute_spec:
  assumes "findOrAddAttribute h at b = (b', k)" "wf_secondary at"
  obtains extra where "b' = b\<lparr>bk_Attributes := bk_Attributes b @ extra\<rparr>"
    and "k < length (bk_Attributes b')"
    and "DeepEqual \<lparr>AttrPrimary = h, AttrSecondary = at\<rparr> (bk_Attributes b' ! k)"
proof (cases "find_index (DeepEqual \<lparr>AttrPrimary = h, AttrSecondary = at\<rparr>) 0 (bk_Attributes b)")
  case None
  with assms that [of "[\<lparr>AttrPrimary = h, AttrSecondary = at\<rparr>]"] show ?thesis
    by (auto simp: findOrAddAttribute_def)
next
  case (Some i)
  with assms that [of "[]"] find_index_Some [OF Some] show ?thesis
    by (auto simp: findOrAddAttribute_def)
qed

lemma pop_ordinals_eq:
  "pop_ordinals num acc us =
     (acc @ take (nat (num - int (length acc))) us, drop (nat (num - int (length acc))) us)"
proof (induction us arbitrary: acc)
  case (Cons u us)
  show ?case
  proof (cases "int (length acc) < num")
    case True
    then have "nat (num - int (length acc)) = Suc (nat (num - (1 + int (length acc))))" by linarith
    with True Cons show ?thesis by (simp add: algebra_simps)
  qed simp
qed simp

definition indexes_valid :: "ipam_block \<Rightarrow> bool" where
  "indexes_valid b =
     (\<forall>i < length (bk_Allocations b). \<forall>j. bk_Allocations b ! i = Some j \<longrightarrow> j < length (bk_Attributes b))"

lemma wf_block_indexes: "wf_block b \<Longrightarrow> indexes_valid b"
  using wf_block_slot(2) by (auto simp: indexes_valid_def)

text \<open>What an assignment of the ordinals \<open>us\<close> to an attribute does to a block, whatever its queue.\<close>

definition assigned ::
  "allocation_attribute \<Rightarrow> nat list \<Rightarrow> ipam_block \<Rightarrow> ipam_block \<Rightarrow> bool" where
  "assigned attr us b b' \<longleftrightarrow>
     bk_CIDR b' = bk_CIDR b \<and> bk_Unallocated b' = bk_Unallocated b \<and> bk_Name b' = bk_Name b \<and>
     bk_ResourceVersion b' = bk_ResourceVersion b \<and> bk_ID b' = bk_ID b \<and>
     length (bk_Allocations b') = length (bk_Allocations b) \<and> indexes_valid b' \<and>
     (\<forall>i. if i \<in> set us then (\<exists>a. owner b' i = Some a \<and> DeepEqual attr a) else owner b' i = owner b i)"

lemma assigned_Nil: "indexes_valid b \<Longrightarrow> assigned attr [] b b"
  by (simp add: assigned_def)

lemma assigned_Cons:
  assumes one: "assigned attr [u] b b1" and more: "assigned attr us b1 b2"
  shows "assigned attr (u # us) b b2"
proof -
  have "if i \<in> set (u # us) then (\<exists>a. owner b2 i = Some a \<and> DeepEqual attr a) else owner b2 i = owner b i" for i
    using one more unfolding assigned_def
    by (cases "i \<in> set us"; cases "i = u") (force simp del: split_paired_Ex)+
  with one more show ?thesis by (simp add: assigned_def)
qed

lemma assigned_one:
  assumes f: "findOrAddAttribute h at b = (b1, k)" and at: "wf_secondary at"
    and valid: "indexes_valid b" and u: "u < length (bk_Allocations b)"
  shows "assigned \<lparr>AttrPrimary = h, AttrSecondary = at\<rparr> [u] b
           (b1\<lparr>bk_Allocations := (bk_Allocations b1)[u := Some k]\<rparr>)"
proof -
  from findOrAddAttribute_spec [OF f at] obtain extra where
    b1: "b1 = b\<lparr>bk_Attributes := bk_Attributes b @ extra\<rparr>" and k: "k < length (bk_Attributes b1)"
    and eq: "DeepEqual \<lparr>AttrPrimary = h, AttrSecondary = at\<rparr> (bk_Attributes b1 ! k)" by metis
  define b2 where "b2 = b1\<lparr>bk_Allocations := (bk_Allocations b1)[u := Some k]\<rparr>"
  have idx: "indexes_valid b2"
    unfolding indexes_valid_def
  proof (intro allI impI)
    fix i j assume i: "i < length (bk_Allocations b2)" and j: "bk_Allocations b2 ! i = Some j"
    show "j < length (bk_Attributes b2)"
      using i j k u valid by (cases "i = u") (force simp: b2_def b1 indexes_valid_def)+
  qed
  have own: "owner b2 i = (if i = u then Some (bk_Attributes b1 ! k) else owner b i)" for i
    using u valid
    by (cases "bk_Allocations b ! i")
       (auto simp: owner_def b2_def b1 nth_list_update nth_append indexes_valid_def)
  have "assigned \<lparr>AttrPrimary = h, AttrSecondary = at\<rparr> [u] b b2"
    unfolding assigned_def using idx own eq by (simp add: b2_def b1)
  then show ?thesis by (simp add: b2_def)
qed

lemma assign_ordinals_spec:
  assumes "wf_secondary at" "set us \<subseteq> {0..<length (bk_Allocations b)}" "indexes_valid b"
  shows "\<exists>b'. assign_ordinals h at us ips b = Some (b', ips @ map (address b) us) \<and>
     assigned \<lparr>AttrPrimary = h, AttrSecondary = at\<rparr> us b b'"
  using assms
proof (induction us arbitrary: b ips)
  case Nil
  then show ?case by (simp add: assigned_Nil)
next
  case (Cons u us)
  obtain b1 k where f: "findOrAddAttribute h at b = (b1, k)" by (metis surj_pair)
  define b2 where "b2 = b1\<lparr>bk_Allocations := (bk_Allocations b1)[u := Some k]\<rparr>"
  have u: "u < length (bk_Allocations b)" using Cons.prems by simp
  have one: "assigned \<lparr>AttrPrimary = h, AttrSecondary = at\<rparr> [u] b b2"
    unfolding b2_def by (rule assigned_one [OF f Cons.prems(1,3) u])
  then have adr: "address b2 = address b" and len: "length (bk_Allocations b1) = length (bk_Allocations b)"
    by (simp_all add: address_def assigned_def fun_eq_iff b2_def)
  have "set us \<subseteq> {0..<length (bk_Allocations b2)}" "indexes_valid b2"
    using Cons.prems(2) one by (simp_all add: assigned_def)
  from Cons.IH [where ips = "ips @ [address b u]", OF Cons.prems(1) this] obtain b' where
    b': "assign_ordinals h at us (ips @ [address b u]) b2 = Some (b', (ips @ [address b u]) @ map (address b2) us)"
      "assigned \<lparr>AttrPrimary = h, AttrSecondary = at\<rparr> us b2 b'" by blast
  have "assign_ordinals h at (u # us) ips b = assign_ordinals h at us (ips @ [address b u]) b2"
    using u by (simp add: f len b2_def address_def case_prod_beta Let_def)
  with b' assigned_Cons [OF one b'(2)] show ?case by (simp add: adr)
qed

lemma wf_block_assigned:
  assumes wf: "wf_block b"
    and b': "assigned attr (take n (bk_Unallocated b)) (b\<lparr>bk_Unallocated := drop n (bk_Unallocated b)\<rparr>) b'"
  shows "wf_block b'"
proof (rule wf_blockI)
  let ?us = "take n (bk_Unallocated b)"
  have dist: "distinct (bk_Unallocated b)" using wf by (simp add: wf_block_def)
  have queue: "bk_Unallocated b' = drop n (bk_Unallocated b)" using b' by (simp add: assigned_def)
  fix i assume i: "i < length (bk_Allocations b')"
  have len: "length (bk_Allocations b') = length (bk_Allocations b)" using b' by (simp add: assigned_def)
  have own: "if i \<in> set ?us then owner b' i \<noteq> None else owner b' i = owner b i"
    using b' by (auto simp: assigned_def owner_def split: if_splits)
  have split: "i \<in> set (bk_Unallocated b) \<longleftrightarrow> i \<in> set ?us \<or> i \<in> set (bk_Unallocated b')"
    unfolding queue by (metis append_take_drop_id set_append UnCI UnE)
  have disj: "\<not> (i \<in> set ?us \<and> i \<in> set (bk_Unallocated b'))"
    unfolding queue using dist by (metis append_take_drop_id disjoint_iff distinct_append)
  have "i \<in> set (bk_Unallocated b') \<longleftrightarrow> owner b' i = None"
    using wf_block_free_iff [OF wf, of i] own split disj i len by (auto split: if_splits)
  then show "i \<in> set (bk_Unallocated b') \<longleftrightarrow> bk_Allocations b' ! i = None"
    using i by (simp add: owner_def)
next
  fix i j assume "i < length (bk_Allocations b')" "bk_Allocations b' ! i = Some j"
  then show "j < length (bk_Attributes b')" using b' by (simp add: assigned_def indexes_valid_def)
qed (use wf b' in \<open>auto simp: assigned_def wf_block_def dest: in_set_dropD\<close>)

lemma block_AutoAssign_assigned:
  assumes wf: "wf_block b" and at: "wf_secondary attrs"
  shows "\<exists>b'. block_AutoAssign num handleID attrs b =
            Some (b', map (address b) (take (nat num) (bk_Unallocated b))) \<and> wf_block b' \<and>
     assigned \<lparr>AttrPrimary = handleID, AttrSecondary = attrs\<rparr> (take (nat num) (bk_Unallocated b))
       (b\<lparr>bk_Unallocated := drop (nat num) (bk_Unallocated b)\<rparr>) b'"
proof -
  let ?us = "take (nat num) (bk_Unallocated b)"
  let ?b = "b\<lparr>bk_Unallocated := drop (nat num) (bk_Unallocated b)\<rparr>"
  have adr: "address ?b = address b" by (simp add: address_def fun_eq_iff)
  have "i < length (bk_Allocations b)" if "i \<in> set ?us" for i
    using wf_block_free_range [OF wf in_set_takeD [OF that]] .
  then have "set ?us \<subseteq> {0..<length (bk_Allocations ?b)}" "indexes_valid ?b"
    using wf_block_indexes [OF wf] unfolding indexes_valid_def subset_iff by simp_all
  from assign_ordinals_spec [OF at this, of handleID "[]"] wf_block_assigned [OF wf] show ?thesis
    by (auto simp: block_AutoAssign_def pop_ordinals_eq adr)
qed

lemma owner_queue_irrelevant [simp]: "owner (b\<lparr>bk_Unallocated := q\<rparr>) = owner b"
  by (simp add: owner_def fun_eq_iff)

text \<open>
  C24: Assigning addresses from a well-formed block never panics and keeps it well formed: it takes the
  first free ordinals of the queue, as many as asked for or as there are, returns the addresses at
  these offsets, makes the handle with the given attributes their owner, and changes the owner of
  no other ordinal.
\<close>

theorem block_AutoAssign_correct:
  assumes wf: "wf_block b" and at: "wf_secondary attrs"
  shows "\<exists>b'. block_AutoAssign num handleID attrs b =
            Some (b', map (address b) (take (nat num) (bk_Unallocated b))) \<and>
     wf_block b' \<and> bk_Unallocated b' = drop (nat num) (bk_Unallocated b) \<and>
     (\<forall>i. i \<in> set (take (nat num) (bk_Unallocated b)) \<longrightarrow>
        owner b i = None \<and>
        (\<exists>a. owner b' i = Some a \<and> DeepEqual \<lparr>AttrPrimary = handleID, AttrSecondary = attrs\<rparr> a)) \<and>
     (\<forall>i. i \<notin> set (take (nat num) (bk_Unallocated b)) \<longrightarrow> owner b' i = owner b i)"
proof -
  have free: "owner b i = None" if "i \<in> set (take (nat num) (bk_Unallocated b))" for i
    using wf_block_free_iff [OF wf, of i] in_set_takeD [OF that] by simp
  from block_AutoAssign_assigned [OF wf at, of num handleID] obtain b' where
    run: "block_AutoAssign num handleID attrs b =
        Some (b', map (address b) (take (nat num) (bk_Unallocated b)))" "wf_block b'"
    and own: "bk_Unallocated b' = drop (nat num) (bk_Unallocated b)"
      "\<And>i. if i \<in> set (take (nat num) (bk_Unallocated b))
        then (\<exists>a. owner b' i = Some a \<and> DeepEqual \<lparr>AttrPrimary = handleID, AttrSecondary = attrs\<rparr> a)
        else owner b' i = owner b i"
    unfolding assigned_def owner_queue_irrelevant by auto
  have "\<exists>a. owner b' i = Some a \<and> DeepEqual \<lparr>AttrPrimary = handleID, AttrSecondary = attrs\<rparr> a"
    if "i \<in> set (take (nat num) (bk_Unallocated b))" for i
    using own(2) [of i] that by simp
  moreover have "owner b' i = owner b i" if "i \<notin> set (take (nat num) (bk_Unallocated b))" for i
    using own(2) [of i] that by simp
  ultimately show ?thesis using run own(1) free by blast
qed

section \<open>Releasing\<close>

lemma intInSlice_iff [simp]: "intInSlice x xs \<longleftrightarrow> x \<in> set xs"
  by (auto simp: intInSlice_def list_ex_iff)

lemma attributeIndexes_iff:
  "k \<in> set (attributeIndexesByHandle_loop h i as) \<longleftrightarrow>
     (\<exists>j < length as. k = i + j \<and> AttrPrimary (as ! j) = h)"
proof (induction as arbitrary: i)
  case (Cons a as)
  show ?case by (auto simp: Cons less_Suc_eq_0_disj)
qed simp

lemma compact_attributes_spec:
  assumes "compact_attributes del x y as = (ns, ks)"
  shows "length ns = length as \<and>
     (\<forall>i < length as. case ns ! i of
        None \<Rightarrow> x + i \<in> set del
      | Some j \<Rightarrow> x + i \<notin> set del \<and> y \<le> j \<and> j < y + length ks \<and> ks ! (j - y) = as ! i)"
  using assms
proof (induction as arbitrary: x y ns ks)
  case (Cons a as)
  let ?y = "if x \<in> set del then y else Suc y"
  obtain ns' ks' where r: "compact_attributes del (Suc x) ?y as = (ns', ks')" by (metis surj_pair)
  have ns: "ns = (if x \<in> set del then None else Some y) # ns'"
    and ks: "ks = (if x \<in> set del then ks' else a # ks')"
    using Cons.prems r by (auto split: if_splits)
  note IH = Cons.IH [OF r]
  have "case ns ! i of None \<Rightarrow> x + i \<in> set del
      | Some j \<Rightarrow> x + i \<notin> set del \<and> y \<le> j \<and> j < y + length ks \<and> ks ! (j - y) = (a # as) ! i"
    if i: "i < Suc (length as)" for i
  proof (cases i)
    case 0
    then show ?thesis by (simp add: ns ks)
  next
    case (Suc k)
    with i IH have "case ns' ! k of None \<Rightarrow> Suc x + k \<in> set del
      | Some j \<Rightarrow> Suc x + k \<notin> set del \<and> ?y \<le> j \<and> j < ?y + length ks' \<and> ks' ! (j - ?y) = as ! k" by auto
    with Suc show ?thesis
      by (auto simp: ns ks Suc_diff_Suc nth_Cons' split: option.splits if_splits)
  qed
  with IH ns show ?case by simp
qed simp

lemma remap_allocations_spec:
  assumes "n \<le> length as" "\<And>i. i < n \<Longrightarrow> (\<forall>j. as ! i = Some j \<longrightarrow> j < length ns)"
  shows "\<exists>as'. remap_allocations ns n as = Some as' \<and> length as' = length as \<and>
     (\<forall>i < length as. as' ! i = (if i < n then Option.bind (as ! i) ((!) ns) else as ! i))"
  using assms
proof (induction ns n as rule: remap_allocations.induct)
  case (3 ns n a as)
  have rest: "(\<forall>j. as ! i = Some j \<longrightarrow> j < length ns)" if "i < n" for i
    using 3(4) [of "Suc i"] that by simp
  have "\<exists>as'. remap_allocations ns n as = Some as' \<and> length as' = length as \<and>
      (\<forall>i < length as. as' ! i = (if i < n then Option.bind (as ! i) ((!) ns) else as ! i))"
  proof (cases a)
    case None
    from 3(1) [OF None _ rest] 3(3) show ?thesis by simp
  next
    case (Some j)
    with 3(4) [of 0] have "j < length ns" by simp
    from 3(2) [OF Some this _ rest] 3(3) show ?thesis by simp
  qed
  then obtain as' where as': "remap_allocations ns n as = Some as'" "length as' = length as"
    "\<And>i. i < length as \<Longrightarrow> as' ! i = (if i < n then Option.bind (as ! i) ((!) ns) else as ! i)" by blast
  have "remap_allocations ns (Suc n) (a # as) = Some (Option.bind a ((!) ns) # as')"
    using 3(4) [of 0] as'(1) by (auto split: option.splits)
  moreover have "(Option.bind a ((!) ns) # as') ! i =
      (if i < Suc n then Option.bind ((a # as) ! i) ((!) ns) else (a # as) ! i)"
    if "i < length (a # as)" for i
    using that as'(3) by (cases i) auto
  ultimately show ?case using as'(2) by auto
qed simp_all

lemma owned_ordinals_spec:
  "n \<le> length as \<Longrightarrow> owned_ordinals ks ord n as =
     Some (map ((+) ord) (filter (\<lambda>i. \<exists>j. as ! i = Some j \<and> j \<in> set ks) [0..<n]))"
proof (induction ks ord n as rule: owned_ordinals.induct)
  case (3 ks ord n a as)
  have "[0..<Suc n] = 0 # map Suc [0..<n]" by (simp add: map_Suc_upt upt_conv_Cons del: upt_Suc)
  with 3 show ?case
    by (auto simp: filter_map o_def simp del: upt_Suc split: option.splits)
qed simp_all

lemma free_ordinals_fields:
  "bk_CIDR (free_ordinals us b) = bk_CIDR b \<and> bk_Name (free_ordinals us b) = bk_Name b \<and>
   bk_ResourceVersion (free_ordinals us b) = bk_ResourceVersion b \<and> bk_Attributes (free_ordinals us b) = bk_Attributes b \<and>
   bk_Unallocated (free_ordinals us b) = bk_Unallocated b @ us \<and>
   length (bk_Allocations (free_ordinals us b)) = length (bk_Allocations b) \<and>
   (\<forall>i < length (bk_Allocations b). bk_Allocations (free_ordinals us b) ! i =
      (if i \<in> set us then None else bk_Allocations b ! i))"
proof (induction us arbitrary: b)
  case (Cons u us)
  show ?case using Cons [of "b\<lparr>bk_Allocations := (bk_Allocations b)[u := None],
                        bk_Unallocated := bk_Unallocated b @ [u]\<rparr>"]
    by (auto simp: nth_list_update)
qed simp

lemma deleteAttributes_spec:
  assumes wf: "wf_block b"
  obtains as newAttrs where "deleteAttributes ks b = Some (b\<lparr>bk_Attributes := newAttrs, bk_Allocations := as\<rparr>)"
    and "length as = length (bk_Allocations b)"
    and "\<And>i. i < length as \<Longrightarrow> (case bk_Allocations b ! i of
           None \<Rightarrow> as ! i = None
         | Some j \<Rightarrow> (if j \<in> set ks then as ! i = None
             else (\<exists>j'. as ! i = Some j' \<and> j' < length newAttrs \<and> newAttrs ! j' = bk_Attributes b ! j)))"
proof -
  obtain ns newAttrs where c: "compact_attributes ks 0 0 (bk_Attributes b) = (ns, newAttrs)"
    by (metis surj_pair)
  have ns: "length ns = length (bk_Attributes b)" using compact_attributes_spec [OF c] by simp
  have map: "case ns ! j of
        None \<Rightarrow> j \<in> set ks
      | Some j' \<Rightarrow> j \<notin> set ks \<and> j' < length newAttrs \<and> newAttrs ! j' = bk_Attributes b ! j"
    if "j < length (bk_Attributes b)" for j
    using compact_attributes_spec [OF c, THEN conjunct2, rule_format, OF that] by (simp split: option.splits)
  have n: "nat (block_NumAddresses b) = length (bk_Allocations b)"
    using wf_block_NumAddresses [OF wf] by simp
  from remap_allocations_spec [of "length (bk_Allocations b)" "bk_Allocations b" ns]
  obtain as where as: "remap_allocations ns (length (bk_Allocations b)) (bk_Allocations b) = Some as"
    "length as = length (bk_Allocations b)"
    "\<And>i. i < length (bk_Allocations b) \<Longrightarrow> as ! i = Option.bind (bk_Allocations b ! i) ((!) ns)"
    using wf_block_slot(2) [OF wf] ns by auto
  show ?thesis
  proof (rule that)
    show "deleteAttributes ks b = Some (b\<lparr>bk_Attributes := newAttrs, bk_Allocations := as\<rparr>)"
      using as(1) by (simp add: deleteAttributes_def c n)
    fix i assume i: "i < length as"
    show "case bk_Allocations b ! i of None \<Rightarrow> as ! i = None
         | Some j \<Rightarrow> (if j \<in> set ks then as ! i = None
             else (\<exists>j'. as ! i = Some j' \<and> j' < length newAttrs \<and> newAttrs ! j' = bk_Attributes b ! j))"
    proof (cases "bk_Allocations b ! i")
      case None
      with i as show ?thesis by simp
    next
      case (Some j)
      then have "j < length (bk_Attributes b)" using wf_block_slot(2) [OF wf] i as(2) by simp
      from map [OF this] Some i as show ?thesis by (auto split: option.splits)
    qed
  qed (rule as(2))
qed

text \<open>The ordinals a handle owns, in order.\<close>

definition ordinals_of :: "string \<Rightarrow> ipam_block \<Rightarrow> nat list" where
  "ordinals_of h b = filter (\<lambda>i. handle_of b i = Some h) [0..<length (bk_Allocations b)]"

lemma owned_ordinals_handle:
  assumes "wf_block b"
  shows "owned_ordinals (attributeIndexesByHandle h b) 0 (length (bk_Allocations b)) (bk_Allocations b) =
    Some (ordinals_of h b)"
proof -
  have "(\<exists>j. bk_Allocations b ! i = Some j \<and> j \<in> set (attributeIndexesByHandle h b)) \<longleftrightarrow>
      handle_of b i = Some h" if "i < length (bk_Allocations b)" for i
    using that wf_block_slot(2) [OF assms that]
    by (auto simp: attributeIndexesByHandle_def attributeIndexes_iff handle_of_def owner_def)
  then have "filter (\<lambda>i. \<exists>j. bk_Allocations b ! i = Some j \<and> j \<in> set (attributeIndexesByHandle h b))
      [0..<length (bk_Allocations b)] = ordinals_of h b"
    unfolding ordinals_of_def by (intro filter_cong) auto
  then show ?thesis by (simp add: owned_ordinals_spec map_idI)
qed

lemma ordinals_of_none:
  assumes "wf_block b" "attributeIndexesByHandle h b = []"
  shows "ordinals_of h b = []"
proof -
  have "owned_ordinals [] k n as = Some []" if "n \<le> length as" for k n as
    using that by (induction "[] :: nat list" k n as rule: owned_ordinals.induct) (auto split: option.splits)
  then show ?thesis using owned_ordinals_handle [OF assms(1), of h] assms(2) by simp
qed

text \<open>What freeing the ordinals of a handle does to a block.\<close>

definition released :: "string \<Rightarrow> ipam_block \<Rightarrow> ipam_block \<Rightarrow> bool" where
  "released h b b' \<longleftrightarrow>
     bk_CIDR b' = bk_CIDR b \<and> bk_Name b' = bk_Name b \<and> bk_ResourceVersion b' = bk_ResourceVersion b \<and>
     length (bk_Allocations b') = length (bk_Allocations b) \<and>
     bk_Unallocated b' = bk_Unallocated b @ ordinals_of h b \<and> indexes_valid b' \<and>
     (\<forall>i. owner b' i = (if handle_of b i = Some h then None else owner b i))"

lemma handle_of_range: "handle_of b i = Some h \<Longrightarrow> i < length (bk_Allocations b)"
  by (auto simp: handle_of_def owner_def split: if_splits)

lemma set_ordinals_of [simp]: "i \<in> set (ordinals_of h b) \<longleftrightarrow> handle_of b i = Some h"
  using handle_of_range by (fastforce simp: ordinals_of_def)

lemma released_none: "wf_block b \<Longrightarrow> ordinals_of h b = [] \<Longrightarrow> released h b b"
  using set_ordinals_of [of _ h b] by (simp add: released_def wf_block_indexes)

lemma wf_block_released:
  assumes wf: "wf_block b" and rel: "released h b b'"
  shows "wf_block b'"
proof (rule wf_blockI)
  have len: "length (bk_Allocations b') = length (bk_Allocations b)"
    and queue: "bk_Unallocated b' = bk_Unallocated b @ ordinals_of h b"
    using rel by (simp_all add: released_def)
  show "distinct (bk_Unallocated b')"
    using wf wf_block_free_iff [OF wf]
    by (auto simp: queue wf_block_def handle_of_def) (simp add: ordinals_of_def)
  show "set (bk_Unallocated b') \<subseteq> {0..<length (bk_Allocations b')}"
    using wf_block_free_range [OF wf] handle_of_range [of b] by (auto simp: queue len)
  fix i assume i: "i < length (bk_Allocations b')"
  have "i \<in> set (bk_Unallocated b') \<longleftrightarrow> owner b' i = None"
    using i len wf_block_free_iff [OF wf, of i] rel
    by (auto simp: queue released_def handle_of_def)
  then show "i \<in> set (bk_Unallocated b') \<longleftrightarrow> bk_Allocations b' ! i = None"
    using i by (simp add: owner_def)
next
  fix i j assume "i < length (bk_Allocations b')" "bk_Allocations b' ! i = Some j"
  then show "j < length (bk_Attributes b')" using rel by (simp add: released_def indexes_valid_def)
qed (use wf rel in \<open>auto simp: wf_block_def released_def\<close>)

lemma block_ReleaseByHandle_released:
  assumes wf: "wf_block b"
  shows "\<exists>b'. block_ReleaseByHandle h b = Some (b', length (ordinals_of h b)) \<and> released h b b'"
proof (cases "attributeIndexesByHandle h b = []")
  case True
  with ordinals_of_none [OF wf True] released_none [OF wf] show ?thesis
    by (auto simp: block_ReleaseByHandle_def)
next
  case False
  let ?ks = "attributeIndexesByHandle h b"
  obtain as newAttrs where
    del: "deleteAttributes ?ks b = Some (b\<lparr>bk_Attributes := newAttrs, bk_Allocations := as\<rparr>)"
    and len: "length as = length (bk_Allocations b)"
    and as: "\<And>i. i < length as \<Longrightarrow> (case bk_Allocations b ! i of
           None \<Rightarrow> as ! i = None
         | Some j \<Rightarrow> (if j \<in> set ?ks then as ! i = None
             else (\<exists>j'. as ! i = Some j' \<and> j' < length newAttrs \<and> newAttrs ! j' = bk_Attributes b ! j)))"
    by (rule deleteAttributes_spec [OF wf, of ?ks]) (rule that)
  define b1 where "b1 = b\<lparr>bk_Attributes := newAttrs, bk_Allocations := as\<rparr>"
  define b' where "b' = free_ordinals (ordinals_of h b) b1"
  have fields: "bk_CIDR b' = bk_CIDR b" "bk_Unallocated b' = bk_Unallocated b @ ordinals_of h b"
    "bk_Attributes b' = newAttrs" "bk_Name b' = bk_Name b" "bk_ResourceVersion b' = bk_ResourceVersion b"
    "length (bk_Allocations b') = length (bk_Allocations b)"
    "\<And>i. i < length as \<Longrightarrow> bk_Allocations b' ! i = (if i \<in> set (ordinals_of h b) then None else as ! i)"
    using free_ordinals_fields [of "ordinals_of h b" b1] len by (auto simp: b'_def b1_def)
  have own: "owner b' i = (if handle_of b i = Some h then None else owner b i) \<and>
      (\<forall>j. bk_Allocations b' ! i = Some j \<longrightarrow> j < length newAttrs)" if "i < length as" for i
  proof (cases "bk_Allocations b ! i")
    case None
    with that as [OF that] fields len show ?thesis by (simp add: owner_def handle_of_def)
  next
    case (Some j)
    then have "j < length (bk_Attributes b)" using wf_block_slot(2) [OF wf] that len by simp
    then have "j \<in> set ?ks \<longleftrightarrow> handle_of b i = Some h"
      using Some that len
      by (auto simp: attributeIndexesByHandle_def attributeIndexes_iff handle_of_def owner_def)
    with Some that as [OF that] fields len show ?thesis
      by (auto simp: owner_def split: if_splits)
  qed
  have "owner b' i = (if handle_of b i = Some h then None else owner b i)" for i
    using own [of i] fields(6) len by (cases "i < length as") (simp_all add: owner_def handle_of_def)
  then have "released h b b'"
    using fields own len by (simp add: released_def indexes_valid_def)
  moreover have "block_ReleaseByHandle h b = Some (b', length (ordinals_of h b))"
    using False del owned_ordinals_handle [OF wf, of h]
    by (simp add: block_ReleaseByHandle_def wf_block_NumAddresses [OF wf] b'_def b1_def)
  ultimately show ?thesis by blast
qed

text \<open>
  Releasing a handle from a well-formed block never panics and keeps it well formed: exactly the
  ordinals the handle owned become free, they join the end of the queue in increasing order and their
  number is returned, and every other ordinal keeps the very attribute it had, although the attribute
  list has been compacted and all indexes rewritten.
\<close>

theorem block_ReleaseByHandle_correct:
  assumes "wf_block b"
  shows "\<exists>b'. block_ReleaseByHandle handleID b = Some (b', length (ordinals_of handleID b)) \<and>
     wf_block b' \<and> bk_Unallocated b' = bk_Unallocated b @ ordinals_of handleID b \<and>
     (\<forall>i. owner b' i = (if handle_of b i = Some handleID then None else owner b i))"
  using block_ReleaseByHandle_released [OF assms, of handleID] wf_block_released [OF assms]
  unfolding released_def by blast

section \<open>New blocks\<close>

lemma length_fold_update: "length (fold (\<lambda>i as. as[f i := v]) xs as) = length as"
  by (induction xs arbitrary: as) auto

lemma nth_fold_update:
  "k < length as \<Longrightarrow> fold (\<lambda>i as. as[f i := v]) xs as ! k = (if k \<in> f ` set xs then v else as ! k)"
proof (induction xs arbitrary: as)
  case (Cons x xs)
  then show ?case by (auto simp: nth_list_update)
qed simp

text \<open>The number of addresses reserved at the two ends of a new block.\<close>

definition reserved_ends :: "reserved_attr option \<Rightarrow> int \<times> int" where
  "reserved_ends rsvd = (case rsvd of None \<Rightarrow> (0, 0) | Some r \<Rightarrow> (StartOfBlock r, EndOfBlock r))"

lemma reserve_block_spec:
  assumes n: "block_NumAddresses b = int n" and b: "bk_Allocations b = replicate n None"
    "bk_Unallocated b = [0..<n]" "bk_Attributes b = []"
    and fits: "0 \<le> StartOfBlock r" "0 \<le> EndOfBlock r" "StartOfBlock r + EndOfBlock r \<le> int n"
  shows "\<exists>b'. reserve_block r b = Some b' \<and> bk_CIDR b' = bk_CIDR b \<and> bk_Name b' = bk_Name b \<and>
    bk_ID b' = bk_ID b \<and> length (bk_Allocations b') = n \<and>
    bk_Unallocated b' = [nat (StartOfBlock r)..<n - nat (EndOfBlock r)] \<and>
    map AttrPrimary (bk_Attributes b') = [rsvd_Handle r] \<and>
    (\<forall>i < n. bk_Allocations b' ! i =
       (if i < nat (StartOfBlock r) \<or> n - nat (EndOfBlock r) \<le> i then Some 0 else None))"
proof -
  have len: "length (bk_Unallocated b) = n" by (simp add: b)
  have "nat (int n - EndOfBlock r) = n - nat (EndOfBlock r)" using fits by linarith
  then have sl: "Prelude.slice (bk_Unallocated b) (StartOfBlock r) (int n - EndOfBlock r) =
      Some [nat (StartOfBlock r)..<n - nat (EndOfBlock r)]"
    using fits by (simp add: Prelude.slice_def b drop_upt take_upt)
  have ends: "i \<in> (\<lambda>k. n - k) ` {1..<Suc (nat (EndOfBlock r))} \<longleftrightarrow> n - nat (EndOfBlock r) \<le> i"
    if "i < n" for i
  proof
    assume "n - nat (EndOfBlock r) \<le> i"
    with that show "i \<in> (\<lambda>k. n - k) ` {1..<Suc (nat (EndOfBlock r))}"
      by (intro image_eqI [of _ _ "n - i"]) auto
  qed (use that in auto)
  define as1 where "as1 = fold (\<lambda>i as. as[i := Some 0]) [0..<nat (StartOfBlock r)] (bk_Allocations b)"
  define as2 where "as2 = fold (\<lambda>i as. as[n - i := Some 0]) [1..<Suc (nat (EndOfBlock r))] as1"
  have len: "length as1 = n" "length as2 = n" by (simp_all add: as1_def as2_def length_fold_update b)
  have as2: "as2 ! i = (if i < nat (StartOfBlock r) \<or> n - nat (EndOfBlock r) \<le> i then Some 0 else None)"
    if i: "i < n" for i
  proof -
    have "as2 ! i = (if i \<in> (\<lambda>k. n - k) ` {1..<Suc (nat (EndOfBlock r))} then Some 0 else as1 ! i)"
      unfolding as2_def using i len by (subst nth_fold_update) (simp_all del: upt_Suc)
    moreover have "as1 ! i = (if i < nat (StartOfBlock r) then Some 0 else None)"
      unfolding as1_def using i nth_fold_update [of i "bk_Allocations b" "\<lambda>i. i" "Some 0"] by (simp add: b)
    ultimately show ?thesis using ends [OF i] by simp
  qed
  show ?thesis
    using sl as2 len unfolding as1_def as2_def by (simp add: reserve_block_def n Let_def b)
qed

lemma reserve_block_None:
  assumes "block_NumAddresses b = int n" "bk_Unallocated b = [0..<n]"
    "\<not> (0 \<le> StartOfBlock r \<and> 0 \<le> EndOfBlock r \<and> StartOfBlock r + EndOfBlock r \<le> int n)"
  shows "reserve_block r b = None"
proof -
  have "Prelude.slice (bk_Unallocated b) (StartOfBlock r) (int n - EndOfBlock r) = None"
    using assms by (auto simp: Prelude.slice_def)
  then show ?thesis by (simp add: reserve_block_def assms)
qed

text \<open>
  Building a block of fewer than 2 ^ 63 addresses panics exactly when the reserved counts are
  negative or do not fit in the block. Otherwise the new block is well formed and named after its
  pool and CIDR, the reserved addresses at its ends belong to the reserved handle, and the queue lists all
  others in increasing order.
\<close>

theorem NewBlock_correct:
  assumes h: "host_bits c < 63"
  shows "case reserved_ends rsvd of (s, e) \<Rightarrow>
    (NewBlock pool c rsvd = None \<longleftrightarrow> \<not> (0 \<le> s \<and> 0 \<le> e \<and> s + e \<le> 2 ^ host_bits c)) \<and>
    (\<forall>b. NewBlock pool c rsvd = Some b \<longrightarrow>
       wf_block b \<and> bk_Name b = BlockName b \<and> bk_ID b = pool_ID pool \<and> bk_CIDR b = c \<and>
       bk_Unallocated b = [nat s..<2 ^ host_bits c - nat e] \<and>
       (\<forall>i. handle_of b i =
          (if i < 2 ^ host_bits c \<and> (i < nat s \<or> 2 ^ host_bits c - nat e \<le> i)
           then map_option rsvd_Handle rsvd else None)))"
proof -
  define n :: nat where "n = 2 ^ host_bits c"
  define s where "s = fst (reserved_ends rsvd)"
  define e where "e = snd (reserved_ends rsvd)"
  have bound: "(2 :: int) ^ host_bits c = int n" by (simp add: n_def)
  define b where "b = \<lparr>bk_Name = (pool_ID pool, snd (ParseCIDR c)), bk_PoolLabel = pool_Name pool,
                  bk_ResourceVersion = 0, bk_ID = pool_ID pool, bk_CIDR = c,
                  bk_Allocations = replicate n None, bk_Unallocated = [0..<n],
                  bk_Attributes = [], bk_Deleted = False\<rparr>"
  have num: "num_addresses c = int n" using num_addresses_small [OF h] by (simp add: bound)
  have new: "NewBlock pool c rsvd = (case rsvd of None \<Rightarrow> Some b | Some r \<Rightarrow> reserve_block r b)"
    by (cases rsvd) (simp_all add: NewBlock_def num b_def Let_def)
  have "(NewBlock pool c rsvd = None \<longleftrightarrow> \<not> (0 \<le> s \<and> 0 \<le> e \<and> s + e \<le> int n)) \<and>
    (\<forall>b. NewBlock pool c rsvd = Some b \<longrightarrow>
       wf_block b \<and> bk_Name b = BlockName b \<and> bk_ID b = pool_ID pool \<and> bk_CIDR b = c \<and>
       bk_Unallocated b = [nat s..<n - nat e] \<and>
       (\<forall>i. handle_of b i =
          (if i < n \<and> (i < nat s \<or> n - nat e \<le> i) then map_option rsvd_Handle rsvd else None)))"
  proof (cases rsvd)
    case None
    have "wf_block b" by (rule wf_blockI) (use h in \<open>auto simp: b_def n_def\<close>)
    moreover have "handle_of b i = None" for i by (simp add: handle_of_def owner_def b_def)
    ultimately show ?thesis
      by (simp add: new [unfolded None] None s_def e_def reserved_ends_def) (simp add: b_def BlockName_def)
  next
    case (Some r)
    have se: "s = StartOfBlock r" "e = EndOfBlock r" by (simp_all add: s_def e_def reserved_ends_def Some)
    have nb: "block_NumAddresses b = int n" by (simp add: block_NumAddresses_def b_def num)
    show ?thesis
    proof (cases "0 \<le> s \<and> 0 \<le> e \<and> s + e \<le> int n")
      case False
      then have "reserve_block r b = None"
        using reserve_block_None [OF nb, of r] by (simp add: se b_def)
      with False show ?thesis by (simp add: new [unfolded Some] Some)
    next
      case True
      obtain b' where b': "reserve_block r b = Some b'" "bk_CIDR b' = c" "bk_Name b' = bk_Name b"
        "bk_ID b' = pool_ID pool" "length (bk_Allocations b') = n" "bk_Unallocated b' = [nat s..<n - nat e]"
        "map AttrPrimary (bk_Attributes b') = [rsvd_Handle r]"
        "\<And>i. i < n \<Longrightarrow> bk_Allocations b' ! i = (if i < nat s \<or> n - nat e \<le> i then Some 0 else None)"
        using reserve_block_spec [OF nb, of r] True by (auto simp: se b_def)
      have "wf_block b'"
      proof (rule wf_blockI)
        fix i j assume "i < length (bk_Allocations b')" "bk_Allocations b' ! i = Some j"
        then show "j < length (bk_Attributes b')" using b'(5,7,8) by (auto split: if_splits)
      qed (use h b' in \<open>auto simp: n_def\<close>)
      moreover have "handle_of b' i =
          (if i < n \<and> (i < nat s \<or> n - nat e \<le> i) then Some (rsvd_Handle r) else None)" for i
        using b'(5,7,8) by (auto simp: handle_of_def owner_def)
      ultimately show ?thesis
        using b' True by (simp add: new [unfolded Some] Some) (simp add: b_def BlockName_def)
    qed
  qed
  then show ?thesis unfolding bound case_prod_beta unfolding s_def e_def n_def .
qed

section \<open>Sequences of operations\<close>

text \<open>
  The contract of an address table: assignments take free ordinals, releases free exactly what the
  handle holds, and neither fails on a table that satisfies its invariant.
\<close>

datatype table_op = Assign int string secondary | Release string

fun run_table ::
  "(int \<Rightarrow> string \<Rightarrow> secondary \<Rightarrow> 'b \<Rightarrow> ('b \<times> 'a list) option) \<Rightarrow> (string \<Rightarrow> 'b \<Rightarrow> ('b \<times> nat) option) \<Rightarrow>
   table_op list \<Rightarrow> 'b \<Rightarrow> 'b option" where
  "run_table assign release [] b = Some b"
| "run_table assign release (Assign n h at # ops) b =
     (case assign n h at b of None \<Rightarrow> None | Some (b', _) \<Rightarrow> run_table assign release ops b')"
| "run_table assign release (Release h # ops) b =
     (case release h b of None \<Rightarrow> None | Some (b', _) \<Rightarrow> run_table assign release ops b')"

fun wf_op :: "table_op \<Rightarrow> bool" where
  "wf_op (Assign n h at) = wf_secondary at"
| "wf_op (Release h) = True"

locale address_table =
  fixes inv :: "'b \<Rightarrow> bool"
    and holder :: "'b \<Rightarrow> nat \<Rightarrow> string option"
    and free :: "'b \<Rightarrow> nat list"
    and addr :: "'b \<Rightarrow> nat \<Rightarrow> 'a"
    and assign :: "int \<Rightarrow> string \<Rightarrow> secondary \<Rightarrow> 'b \<Rightarrow> ('b \<times> 'a list) option"
    and release :: "string \<Rightarrow> 'b \<Rightarrow> ('b \<times> nat) option"
  assumes assign_law: "inv b \<Longrightarrow> wf_secondary at \<Longrightarrow>
      \<exists>b'. assign n h at b = Some (b', map (addr b) (take (nat n) (free b))) \<and> inv b' \<and>
        holder b' = (\<lambda>i. if i \<in> set (take (nat n) (free b)) then Some h else holder b i)"
    and free_law: "inv b \<Longrightarrow> i \<in> set (free b) \<Longrightarrow> holder b i = None"
    and release_law: "inv b \<Longrightarrow>
      \<exists>b' n. release h b = Some (b', n) \<and> inv b' \<and>
        holder b' = (\<lambda>i. if holder b i = Some h then None else holder b i)"
begin

lemma run_total:
  "inv b \<Longrightarrow> list_all wf_op ops \<Longrightarrow> \<exists>b'. run_table assign release ops b = Some b' \<and> inv b'"
proof (induction ops arbitrary: b)
  case (Cons p ops)
  show ?case
  proof (cases p)
    case (Assign n h at)
    with assign_law [OF Cons.prems(1), of at n h] Cons.IH Cons.prems(2) show ?thesis by auto
  next
    case (Release h)
    with release_law [OF Cons.prems(1), of h] Cons.IH Cons.prems(2) show ?thesis by auto
  qed
qed simp

lemma held_until_released:
  "inv b \<Longrightarrow> list_all wf_op ops \<Longrightarrow> holder b i = Some h \<Longrightarrow> Release h \<notin> set ops \<Longrightarrow>
   run_table assign release ops b = Some b' \<Longrightarrow> holder b' i = Some h"
proof (induction ops arbitrary: b)
  case (Cons p ops)
  show ?case
  proof (cases p)
    case (Assign n g at)
    from assign_law [OF Cons.prems(1), of at n g] Assign Cons.prems(2) obtain b1 where
      b1: "assign n g at b = Some (b1, map (addr b) (take (nat n) (free b)))" "inv b1"
        "holder b1 i = (if i \<in> set (take (nat n) (free b)) then Some g else holder b i)" by auto
    have "i \<notin> set (take (nat n) (free b))"
      using free_law [OF Cons.prems(1)] Cons.prems(3) by (auto dest: in_set_takeD)
    with Cons.IH [OF b1(2)] b1 Cons.prems Assign show ?thesis by simp
  next
    case (Release g)
    from release_law [OF Cons.prems(1), of g] obtain b1 n where
      b1: "release g b = Some (b1, n)" "inv b1"
        "holder b1 i = (if holder b i = Some g then None else holder b i)" by auto
    with Cons.IH [OF b1(2)] Cons.prems Release show ?thesis by auto
  qed
qed simp

lemma release_undoes_assign:
  assumes "inv b" "wf_secondary at" "\<And>i. holder b i \<noteq> Some h"
  shows "\<exists>b' ips b'' n. assign k h at b = Some (b', ips) \<and> release h b' = Some (b'', n) \<and>
    holder b'' = holder b"
proof -
  from assign_law [OF assms(1,2), of k h] obtain b' where
    b': "assign k h at b = Some (b', map (addr b) (take (nat k) (free b)))" "inv b'"
      "holder b' = (\<lambda>i. if i \<in> set (take (nat k) (free b)) then Some h else holder b i)" by blast
  from release_law [OF b'(2), of h] obtain b'' n where
    b'': "release h b' = Some (b'', n)" "holder b'' = (\<lambda>i. if holder b' i = Some h then None else holder b' i)"
    by blast
  have "holder b'' = holder b"
    using b'(3) b''(2) assms(3) free_law [OF assms(1)] by (auto simp: fun_eq_iff dest: in_set_takeD)
  with b' b'' show ?thesis by blast
qed

end

interpretation blocks: address_table wf_block handle_of bk_Unallocated address
  block_AutoAssign block_ReleaseByHandle
proof
  fix b at n h assume wf: "wf_block b" and at: "wf_secondary at"
  let ?us = "take (nat n) (bk_Unallocated b)"
  from block_AutoAssign_assigned [OF wf at, of n h] obtain b' where
    run: "block_AutoAssign n h at b = Some (b', map (address b) ?us)" "wf_block b'"
    and own: "\<And>i. if i \<in> set ?us then (\<exists>a. owner b' i = Some a \<and> DeepEqual \<lparr>AttrPrimary = h, AttrSecondary = at\<rparr> a)
        else owner b' i = owner b i"
    unfolding assigned_def owner_queue_irrelevant by auto
  have "handle_of b' i = (if i \<in> set ?us then Some h else handle_of b i)" for i
    using own [of i] by (auto simp: handle_of_def DeepEqual_def split: if_splits)
  with run show "\<exists>b'. block_AutoAssign n h at b = Some (b', map (address b) ?us) \<and> wf_block b' \<and>
      handle_of b' = (\<lambda>i. if i \<in> set ?us then Some h else handle_of b i)" by blast
next
  fix b i assume "wf_block b" "i \<in> set (bk_Unallocated b)"
  then show "handle_of b i = None" by (simp add: wf_block_free_iff handle_of_def)
next
  fix b h assume wf: "wf_block b"
  from block_ReleaseByHandle_released [OF wf, of h] obtain b' where
    b': "block_ReleaseByHandle h b = Some (b', length (ordinals_of h b))" "released h b b'" by blast
  then have "handle_of b' = (\<lambda>i. if handle_of b i = Some h then None else handle_of b i)"
    by (auto simp: released_def handle_of_def fun_eq_iff)
  with b' wf_block_released [OF wf b'(2)]
  show "\<exists>b' n. block_ReleaseByHandle h b = Some (b', n) \<and> wf_block b' \<and>
      handle_of b' = (\<lambda>i. if handle_of b i = Some h then None else handle_of b i)" by blast
qed

abbreviation run_block :: "table_op list \<Rightarrow> ipam_block \<Rightarrow> ipam_block option" where
  "run_block \<equiv> run_table block_AutoAssign block_ReleaseByHandle"

text \<open>
  C23: Any sequence of assignments and releases runs on a well-formed block without a panic and leaves
  it well formed, and an address once held by a handle stays with that handle, and is given to no one
  else, until the handle is released.
\<close>

theorem block_held_until_released:
  assumes "wf_block b" "list_all wf_op ops"
  shows "\<exists>b'. run_block ops b = Some b' \<and> wf_block b' \<and>
    (\<forall>i h. handle_of b i = Some h \<and> Release h \<notin> set ops \<longrightarrow> handle_of b' i = Some h)"
  using blocks.run_total [OF assms] blocks.held_until_released [OF assms] by blast

text \<open>
  Releasing a handle right after it was given addresses restores the owners of the block, whatever
  the number of addresses, provided the handle held none before.
\<close>

theorem block_assign_release_roundtrip:
  assumes "wf_block b" "wf_secondary attrs" "\<forall>i. handle_of b i \<noteq> Some handleID"
  shows "\<exists>b' ips b'' n. block_AutoAssign num handleID attrs b = Some (b', ips) \<and>
    block_ReleaseByHandle handleID b' = Some (b'', n) \<and> handle_of b'' = handle_of b"
  using blocks.release_undoes_assign [OF assms(1,2)] assms(3) by blast

section \<open>Concrete blocks\<close>

definition sample_cidr :: cidr where
  "sample_cidr = \<lparr>c_IP = V4 3232235520, c_Ones = 30\<rparr>"

definition sample_block :: ipam_block where
  "sample_block =
     \<lparr>bk_Name = (1, sample_cidr), bk_PoolLabel = ''pool'', bk_ResourceVersion = 1, bk_ID = 1,
      bk_CIDR = sample_cidr, bk_Allocations = [Some 0, None, None, Some 1], bk_Unallocated = [2, 1],
      bk_Attributes = [\<lparr>AttrPrimary = ''a'', AttrSecondary = None\<rparr>, \<lparr>AttrPrimary = ''b'', AttrSecondary = None\<rparr>],
      bk_Deleted = False\<rparr>"

lemma sample_host_bits: "host_bits sample_cidr = 2"
  by (simp add: host_bits_def sample_cidr_def)

lemma sample_block_wf: "wf_block sample_block"
  by (simp add: wf_block_def sample_block_def sample_host_bits)

lemma sample_handles: "handle_of sample_block i = (if i = 0 then Some ''a'' else if i = 3 then Some ''b'' else None)"
  by (auto simp: handle_of_def owner_def sample_block_def nth_Cons')

theorem block_AutoAssign_correct_witness:
  "wf_block sample_block \<and> wf_secondary None \<and>
   (\<exists>b'. block_AutoAssign 1 ''c'' None sample_block = Some (b', [address sample_block 2]) \<and>
         bk_Unallocated b' = [1])"
proof -
  have at: "wf_secondary None" by (simp add: wf_secondary_def)
  have q: "bk_Unallocated sample_block = [2, 1]" by (simp add: sample_block_def)
  from block_AutoAssign_correct [OF sample_block_wf at, of 1 "''c''"] obtain b' where
    "block_AutoAssign 1 ''c'' None sample_block = Some (b', [address sample_block 2])"
    "bk_Unallocated b' = [1]" unfolding q by auto
  with at sample_block_wf show ?thesis by blast
qed

theorem block_ReleaseByHandle_correct_witness:
  "wf_block sample_block \<and>
   (\<exists>b' n. block_ReleaseByHandle ''a'' sample_block = Some (b', n) \<and> bk_Unallocated b' = [2, 1, 0])"
proof -
  have "ordinals_of ''a'' sample_block = [0]"
    by (simp add: ordinals_of_def sample_handles) (simp add: sample_block_def)
  then show ?thesis
    using block_ReleaseByHandle_correct [OF sample_block_wf, of "''a''"] sample_block_wf
    by (auto simp: sample_block_def)
qed

theorem block_held_until_released_witness:
  "\<exists>b'. run_block [Assign 1 ''c'' None, Release ''b'', Assign 2 ''d'' None] sample_block = Some b' \<and>
     handle_of b' 0 = Some ''a''"
proof -
  have "list_all wf_op [Assign 1 ''c'' None, Release ''b'', Assign 2 ''d'' None]"
    by (simp add: wf_secondary_def)
  from block_held_until_released [OF sample_block_wf this] show ?thesis
    using sample_handles [of 0] by auto
qed

theorem block_assign_release_roundtrip_witness:
  "\<exists>b' ips b'' n. block_AutoAssign 2 ''c'' None sample_block = Some (b', ips) \<and>
    block_ReleaseByHandle ''c'' b' = Some (b'', n) \<and> handle_of b'' = handle_of sample_block"
  using block_assign_release_roundtrip [OF sample_block_wf, of None "''c''" 2]
  by (simp add: wf_secondary_def sample_handles)

definition sample_pool :: ippool where
  "sample_pool =
     \<lparr>pool_Name = ''pool'', pool_Type = VLAN, pool_CIDR = sample_cidr, pool_RangeStart = None,
      pool_RangeEnd = None, pool_Disabled = False, pool_BlockSize = 30, pool_VlanId = 0,
      pool_Gateway = [], pool_Routes = [],
      pool_DNS = \<lparr>dns_Nameservers = [], dns_Domain = [], dns_Search = [], dns_Options = []\<rparr>\<rparr>"

theorem NewBlock_correct_witness:
  "host_bits sample_cidr < 63 \<and>
   NewBlock sample_pool sample_cidr
     (Some \<lparr>StartOfBlock = 1, EndOfBlock = 1, rsvd_Handle = ReservedHandle, rsvd_Note = ReservedNote\<rparr>) \<noteq> None \<and>
   NewBlock sample_pool sample_cidr
     (Some \<lparr>StartOfBlock = 3, EndOfBlock = 2, rsvd_Handle = ReservedHandle, rsvd_Note = ReservedNote\<rparr>) = None"
proof -
  note h = sample_host_bits
  then have "host_bits sample_cidr < 63" by simp
  note new = NewBlock_correct [OF this, where pool = sample_pool, unfolded h]
  show ?thesis
    using h new [of "Some \<lparr>StartOfBlock = 1, EndOfBlock = 1, rsvd_Handle = ReservedHandle, rsvd_Note = ReservedNote\<rparr>"]
      new [of "Some \<lparr>StartOfBlock = 3, EndOfBlock = 2, rsvd_Handle = ReservedHandle, rsvd_Note = ReservedNote\<rparr>"]
    by (simp add: reserved_ends_def)
qed

end
