(* ===== verification/Ipam_Handle.thy ===== *)
theory Ipam_Handle
  imports Ipam_Block
begin

text \<open>
  IPAM handles (\<^verbatim>\<open>kubesphere.io/api/network/v1alpha1/ipamhandle_types.go\<close>): for each block the number of
  addresses a handle holds in it. The keys of the map are block strings, kept as pairs of identifier
  and CIDR as in \<open>Ipam_Block\<close>.
\<close>

record ipam_handle =
  hd_Name :: string
  hd_ResourceVersion :: nat
  hd_HandleID :: string
  hd_Block :: "(block_key, int) gomap"
  hd_Deleted :: bool

definition IncrementBlock :: "ipam_block \<Rightarrow> int \<Rightarrow> ipam_handle \<Rightarrow> ipam_handle \<times> int" where
  "IncrementBlock b num h =
     (let newNum = (case map_of (hd_Block h) (block_String b) of None \<Rightarrow> num | Some val \<Rightarrow> val + num)
      in (h\<lparr>hd_Block := AList.update (block_String b) newNum (hd_Block h)\<rparr>, newNum))"

definition handle_Empty :: "ipam_handle \<Rightarrow> bool" where
  "handle_Empty h = (length (hd_Block h) = 0)"

definition handle_MarkDeleted :: "ipam_handle \<Rightarrow> ipam_handle" where
  "handle_MarkDeleted h = h\<lparr>hd_Deleted := True\<rparr>"

datatype decrement_error = NotLinked block_key int string | TooFew block_key int int string

definition DecrementBlock ::
  "ipam_block \<Rightarrow> int \<Rightarrow> ipam_handle \<Rightarrow> (decrement_error, ipam_handle \<times> int) result" where
  "DecrementBlock b num h =
     (case map_of (hd_Block h) (block_String b) of
        None \<Rightarrow> Inl (NotLinked (BlockName b) num (hd_HandleID h))
      | Some current \<Rightarrow>
          (let newNum = current - num in
           if newNum < 0 then Inl (TooFew (BlockName b) num current (hd_HandleID h))
           else if newNum = 0
           then Inr (h\<lparr>hd_Block := AList.delete (block_String b) (hd_Block h)\<rparr>, newNum)
           else Inr (h\<lparr>hd_Block := AList.update (block_String b) newNum (hd_Block h)\<rparr>, newNum)))"

text \<open>The name of the block a key stands for: the CIDR is parsed and masked.\<close>

definition ConvertToBlockName :: "block_key \<Rightarrow> block_key" where
  "ConvertToBlockName k = (fst k, snd (ParseCIDR (snd k)))"

section \<open>Counters\<close>

text \<open>A well-formed handle lists each block once, with a positive count.\<close>

definition wf_handle :: "ipam_handle \<Rightarrow> bool" where
  "wf_handle h = (wf_map (hd_Block h) \<and> list_all (\<lambda>(k, n). n > 0) (hd_Block h))"

definition held :: "ipam_handle \<Rightarrow> block_key \<Rightarrow> int" where
  "held h k = map_get 0 (hd_Block h) k"

lemma wf_handle_iff:
  "wf_handle h \<longleftrightarrow> wf_map (hd_Block h) \<and> (\<forall>k n. map_of (hd_Block h) k = Some n \<longrightarrow> n > 0)"
  by (auto simp: wf_handle_def list_all_iff wf_map_map_of)

lemma wf_handle_pos: "wf_handle h \<Longrightarrow> map_of (hd_Block h) k = Some n \<Longrightarrow> 0 < n"
  unfolding wf_handle_iff by blast

lemma wf_handle_held: "wf_handle h \<Longrightarrow> held h k \<ge> 0 \<and> (map_of (hd_Block h) k = None \<longleftrightarrow> held h k = 0)"
  by (cases "map_of (hd_Block h) k")
     (auto simp: held_def map_get_def dest: wf_handle_pos)

lemma ConvertToBlockName_String: "ConvertToBlockName (block_String b) = BlockName b"
  by (simp add: ConvertToBlockName_def block_String_def BlockName_def)

text \<open>
  The contract of a table of counters: adding to one counter changes it alone, and subtracting
  succeeds exactly when the counter holds at least that much.
\<close>

locale counters =
  fixes inv :: "'h \<Rightarrow> bool"
    and count :: "'h \<Rightarrow> 'k \<Rightarrow> int"
    and key :: "'b \<Rightarrow> 'k"
    and inc :: "'b \<Rightarrow> int \<Rightarrow> 'h \<Rightarrow> 'h \<times> int"
    and dec :: "'b \<Rightarrow> int \<Rightarrow> 'h \<Rightarrow> ('e, 'h \<times> int) result"
  assumes inc_law: "inv h \<Longrightarrow> 0 < n \<Longrightarrow>
      inv (fst (inc b n h)) \<and> count (fst (inc b n h)) = (count h)(key b := count h (key b) + n)"
    and dec_law: "inv h \<Longrightarrow> 0 < n \<Longrightarrow> n \<le> count h (key b) \<Longrightarrow>
      \<exists>h'. dec b n h = Inr (h', count h (key b) - n) \<and> inv h' \<and>
        count h' = (count h)(key b := count h (key b) - n)"
    and dec_too_much: "inv h \<Longrightarrow> 0 < n \<Longrightarrow> count h (key b) < n \<Longrightarrow> isl (dec b n h)"
    and count_nonneg: "inv h \<Longrightarrow> 0 \<le> count h k"
begin

lemma dec_inc:
  assumes "inv h" "0 < n"
  shows "\<exists>h'. dec b n (fst (inc b n h)) = Inr (h', count h (key b)) \<and> inv h' \<and> count h' = count h"
proof -
  let ?h = "fst (inc b n h)"
  have "count ?h (key b) = count h (key b) + n" using inc_law [OF assms] by simp
  moreover have "n \<le> count ?h (key b)" using calculation count_nonneg [OF assms(1), of "key b"] by simp
  ultimately show ?thesis
    using dec_law [of ?h n b] inc_law [OF assms, of b] assms(2) by auto
qed

end

interpretation handles: counters wf_handle held block_String IncrementBlock DecrementBlock
proof
  fix h n b assume wf: "wf_handle h" and n: "0 < (n :: int)"
  have "held (fst (IncrementBlock b n h)) = (held h)(block_String b := held h (block_String b) + n)"
    by (auto simp: IncrementBlock_def held_def map_get_def Let_def fun_eq_iff split: option.splits)
  moreover have "wf_handle (fst (IncrementBlock b n h))"
    using wf n wf_handle_pos [OF wf, of "block_String b"]
    by (cases "map_of (hd_Block h) (block_String b)")
       (auto simp: wf_handle_iff IncrementBlock_def Let_def add_pos_pos simp del: split_paired_All)
  ultimately show "wf_handle (fst (IncrementBlock b n h)) \<and>
      held (fst (IncrementBlock b n h)) = (held h)(block_String b := held h (block_String b) + n)" by simp
next
  fix h n b assume wf: "wf_handle h" and n: "0 < (n :: int)" "n \<le> held h (block_String b)"
  then obtain c where c: "map_of (hd_Block h) (block_String b) = Some c" "c = held h (block_String b)"
    by (auto simp: held_def map_get_def split: option.splits)
  define h' where "h' = h\<lparr>hd_Block := (if c = n then AList.delete (block_String b) (hd_Block h)
      else AList.update (block_String b) (c - n) (hd_Block h))\<rparr>"
  have "DecrementBlock b n h = Inr (h', c - n)"
    using c n by (simp add: DecrementBlock_def Let_def h'_def)
  moreover have "held h' = (held h)(block_String b := c - n)"
    by (simp add: h'_def held_def map_get_def fun_eq_iff del: split_paired_All)
  moreover have "wf_handle h'"
    using wf n c unfolding wf_handle_iff by (simp add: h'_def del: split_paired_All)
  ultimately show "\<exists>h'. DecrementBlock b n h = Inr (h', held h (block_String b) - n) \<and> wf_handle h' \<and>
      held h' = (held h)(block_String b := held h (block_String b) - n)" using c by blast
next
  fix h n b assume "wf_handle h" "0 < (n :: int)" "held h (block_String b) < n"
  then show "isl (DecrementBlock b n h)"
    by (auto simp: DecrementBlock_def held_def map_get_def Let_def split: option.splits)
next
  fix h k assume "wf_handle h"
  then show "0 \<le> held h k" using wf_handle_held by blast
qed

text \<open>
  Counting addresses of a block on a handle and taking the same number off again succeeds and
  restores every count of the handle; the entry disappears exactly when it was absent before.
\<close>

theorem handle_increment_decrement_roundtrip:
  assumes "wf_handle h" "0 < num"
  shows "\<exists>h'. DecrementBlock b num (fst (IncrementBlock b num h)) = Inr (h', held h (block_String b)) \<and>
    wf_handle h' \<and> held h' = held h \<and>
    (map_of (hd_Block h') (block_String b) = None \<longleftrightarrow> map_of (hd_Block h) (block_String b) = None)"
  using handles.dec_inc [OF assms, of b] wf_handle_held assms(1) by metis

definition sample_handle :: ipam_handle where
  "sample_handle =
     \<lparr>hd_Name = ''c'', hd_ResourceVersion = 1, hd_HandleID = ''c'',
      hd_Block = [((2, sample_cidr), 3)], hd_Deleted = False\<rparr>"

theorem handle_increment_decrement_roundtrip_witness:
  "\<exists>h'. DecrementBlock sample_block 2 (fst (IncrementBlock sample_block 2 sample_handle)) =
     Inr (h', held sample_handle (block_String sample_block)) \<and> held h' = held sample_handle"
proof -
  have "wf_handle sample_handle" by (simp add: wf_handle_def sample_handle_def wf_map_def)
  from handle_increment_decrement_roundtrip [OF this, of 2 sample_block] show ?thesis by auto
qed

end
