(* ===== verification/Ipam_Client.thy ===== *)
theory Ipam_Client
  imports Ipam_Handle
begin

text \<open>
  The IPAM client (\<^verbatim>\<open>pkg/simple/client/network/ippool/ipam/ipam.go\<close>): assigning an address from a pool,
  releasing the addresses of a handle, and the utilization of pools.

  The API server is a parameter, a record \<open>api\<close> of the calls the client makes, each a function of an
  abstract server state that it may change in any way; in particular other clients may have acted
  between two calls. An operation of the client returns a value, fails with an error, or panics.
  The retry loops of the code are bounded by \<^verbatim>\<open>datastoreRetries\<close>, which is the fuel of their models.
\<close>

section \<open>Outcomes and API calls\<close>

datatype ipam_error =
    Api api_error
  | ErrNoQualifiedPool
  | ErrNoFreeBlocks
  | ErrMaxRetry
  | ErrUnknowIPPoolType
  | DecrementFailed decrement_error
  | NoAvailableIP block_key
  | TooFewFree block_key nat nat
  | NoPoolFound

datatype 'a outcome = Returned 'a | Failed ipam_error | Panicked

type_synonym ('s, 'a) action = "'s \<Rightarrow> 'a outcome \<times> 's"

definition ret :: "'a \<Rightarrow> ('s, 'a) action" where
  "ret a s = (Returned a, s)"

definition fail :: "ipam_error \<Rightarrow> ('s, 'a) action" where
  "fail e s = (Failed e, s)"

text \<open>\<open>attempt\<close> hands the error of an action to its continuation, \<open>seq\<close> returns it.\<close>

definition attempt :: "('s, 'a) action \<Rightarrow> ((ipam_error, 'a) result \<Rightarrow> ('s, 'b) action) \<Rightarrow> ('s, 'b) action" where
  "attempt m f s =
     (case m s of
        (Returned a, s') \<Rightarrow> f (Inr a) s'
      | (Failed e, s') \<Rightarrow> f (Inl e) s'
      | (Panicked, s') \<Rightarrow> (Panicked, s'))"

definition seq :: "('s, 'a) action \<Rightarrow> ('a \<Rightarrow> ('s, 'b) action) \<Rightarrow> ('s, 'b) action" where
  "seq m f = attempt m (\<lambda>r. case r of Inl e \<Rightarrow> fail e | Inr a \<Rightarrow> f a)"

definition or_panic :: "'a option \<Rightarrow> ('s, 'a) action" where
  "or_panic x s = (case x of None \<Rightarrow> (Panicked, s) | Some a \<Rightarrow> (Returned a, s))"

definition call_api :: "('s \<Rightarrow> (api_error, 'a) result \<times> 's) \<Rightarrow> ('s, 'a) action" where
  "call_api f s = (case f s of (Inl e, s') \<Rightarrow> (Failed (Api e), s') | (Inr a, s') \<Rightarrow> (Returned a, s'))"

record 's ipam_api =
  api_getPool :: "string \<Rightarrow> 's \<Rightarrow> (api_error, ippool) result \<times> 's"
  api_listPools :: "string \<Rightarrow> 's \<Rightarrow> (api_error, ippool list) result \<times> 's"
  api_listBlocks :: "string \<Rightarrow> 's \<Rightarrow> (api_error, ipam_block list) result \<times> 's"
  api_getBlock :: "block_key \<Rightarrow> 's \<Rightarrow> (api_error, ipam_block) result \<times> 's"
  api_createBlock :: "ipam_block \<Rightarrow> 's \<Rightarrow> (api_error, ipam_block) result \<times> 's"
  api_updateBlock :: "ipam_block \<Rightarrow> 's \<Rightarrow> (api_error, unit) result \<times> 's"
  api_deleteBlock :: "block_key \<Rightarrow> 's \<Rightarrow> (api_error, unit) result \<times> 's"
  api_getHandle :: "string \<Rightarrow> 's \<Rightarrow> (api_error, ipam_handle) result \<times> 's"
  api_createHandle :: "ipam_handle \<Rightarrow> 's \<Rightarrow> (api_error, unit) result \<times> 's"
  api_updateHandle :: "ipam_handle \<Rightarrow> 's \<Rightarrow> (api_error, unit) result \<times> 's"
  api_deleteHandle :: "string \<Rightarrow> 's \<Rightarrow> (api_error, unit) result \<times> 's"

definition datastoreRetries :: nat where
  "datastoreRetries = 10"

section \<open>Blocks and handles at the server\<close>

definition ListBlocks :: "'s ipam_api \<Rightarrow> string \<Rightarrow> ('s, ipam_block list) action" where
  "ListBlocks api pool = call_api (api_listBlocks api pool)"

definition DeleteBlock :: "'s ipam_api \<Rightarrow> ipam_block \<Rightarrow> ('s, unit) action" where
  "DeleteBlock api b =
     (if \<not> bk_Deleted b
      then seq (call_api (api_updateBlock api (block_MarkDeleted b)))
             (\<lambda>_. call_api (api_deleteBlock api (bk_Name b)))
      else call_api (api_deleteBlock api (bk_Name b)))"

definition queryBlock :: "'s ipam_api \<Rightarrow> block_key \<Rightarrow> ('s, ipam_block) action" where
  "queryBlock api name =
     seq (call_api (api_getBlock api name)) (\<lambda>b.
       if bk_Deleted b then seq (DeleteBlock api b) (\<lambda>_. fail (Api NotFound)) else ret b)"

definition deleteHandle :: "'s ipam_api \<Rightarrow> ipam_handle \<Rightarrow> ('s, unit) action" where
  "deleteHandle api h =
     (if \<not> hd_Deleted h
      then seq (call_api (api_updateHandle api (handle_MarkDeleted h)))
             (\<lambda>_. call_api (api_deleteHandle api (hd_Name h)))
      else call_api (api_deleteHandle api (hd_Name h)))"

definition queryHandle :: "'s ipam_api \<Rightarrow> string \<Rightarrow> ('s, ipam_handle) action" where
  "queryHandle api handleID =
     seq (call_api (api_getHandle api handleID)) (\<lambda>h.
       if hd_Deleted h then seq (deleteHandle api h) (\<lambda>_. fail (Api NotFound)) else ret h)"

definition new_handle :: "string \<Rightarrow> ipam_handle" where
  "new_handle handleID =
     \<lparr>hd_Name = handleID, hd_ResourceVersion = 0, hd_HandleID = handleID, hd_Block = [], hd_Deleted = False\<rparr>"

definition put_handle :: "'s ipam_api \<Rightarrow> bool \<Rightarrow> ipam_handle \<Rightarrow> ('s, unit) action" where
  "put_handle api create h =
     (if create then call_api (api_createHandle api h) else call_api (api_updateHandle api h))"

fun incrementHandle_loop ::
  "'s ipam_api \<Rightarrow> nat \<Rightarrow> string \<Rightarrow> ipam_block \<Rightarrow> int \<Rightarrow> ('s, unit) action" where
  "incrementHandle_loop api 0 handleID b num = fail ErrMaxRetry"
| "incrementHandle_loop api (Suc i) handleID b num =
     attempt (queryHandle api handleID) (\<lambda>r.
       case (case r of
               Inr h \<Rightarrow> Inr (False, h)
             | Inl (Api NotFound) \<Rightarrow> Inr (True, new_handle handleID)
             | Inl e \<Rightarrow> Inl e) of
         Inl e \<Rightarrow> fail e
       | Inr (create, h) \<Rightarrow>
           attempt (put_handle api create (fst (IncrementBlock b num h))) (\<lambda>r2.
             case r2 of
               Inr _ \<Rightarrow> ret ()
             | Inl (Api AlreadyExists) \<Rightarrow> incrementHandle_loop api i handleID b num
             | Inl (Api Conflict) \<Rightarrow> incrementHandle_loop api i handleID b num
             | Inl e \<Rightarrow> fail e))"

definition incrementHandle :: "'s ipam_api \<Rightarrow> string \<Rightarrow> ipam_block \<Rightarrow> int \<Rightarrow> ('s, unit) action" where
  "incrementHandle api = incrementHandle_loop api datastoreRetries"

fun decrementHandle_loop ::
  "'s ipam_api \<Rightarrow> nat \<Rightarrow> string \<Rightarrow> ipam_block \<Rightarrow> int \<Rightarrow> ('s, unit) action" where
  "decrementHandle_loop api 0 handleID b num = fail ErrMaxRetry"
| "decrementHandle_loop api (Suc i) handleID b num =
     seq (queryHandle api handleID) (\<lambda>h.
       case DecrementBlock b num h of
         Inl e \<Rightarrow> fail (DecrementFailed e)
       | Inr (h1, _) \<Rightarrow>
           (if handle_Empty h1
            then attempt (deleteHandle api h1) (\<lambda>r.
                   case r of
                     Inr _ \<Rightarrow> ret ()
                   | Inl (Api Conflict) \<Rightarrow> decrementHandle_loop api i handleID b num
                   | Inl (Api NotFound) \<Rightarrow> ret ()
                   | Inl e \<Rightarrow> fail e)
            else attempt (call_api (api_updateHandle api h1)) (\<lambda>r.
                   case r of
                     Inr _ \<Rightarrow> ret ()
                   | Inl (Api Conflict) \<Rightarrow> decrementHandle_loop api i handleID b num
                   | Inl e \<Rightarrow> fail e)))"

definition decrementHandle :: "'s ipam_api \<Rightarrow> string \<Rightarrow> ipam_block \<Rightarrow> int \<Rightarrow> ('s, unit) action" where
  "decrementHandle api = decrementHandle_loop api datastoreRetries"

section \<open>Unclaimed blocks\<close>

text \<open>
  The generator walks from the address of the pool's CIDR in steps of the block size as long as the
  address lies in the pool. The measure of the search: addresses grow, and a malformed address ends it.
\<close>

definition walk_measure :: "ip \<Rightarrow> nat" where
  "walk_measure x = (case x of Malformed n \<Rightarrow> 0 | _ \<Rightarrow> Suc (2 ^ 129 - IPToBigInt x))"

lemma walk_measure_BigIntToIP: "walk_measure (BigIntToIP n) = 0 \<or>
    walk_measure (BigIntToIP n) = Suc (2 ^ 129 - n) \<and> n < 2 ^ 129"
  by (auto simp: BigIntToIP_def walk_measure_def)

lemma walk_measure_decreases:
  assumes "Contains_ip net x"
  shows "walk_measure (IncrementIP x (2 ^ k)) < walk_measure x"
proof -
  have x: "walk_measure x = Suc (2 ^ 129 - IPToBigInt x)"
    using assms by (cases x) (auto simp: walk_measure_def)
  have "IPToBigInt x < IPToBigInt x + 2 ^ k" by simp
  with walk_measure_BigIntToIP [of "IPToBigInt x + 2 ^ k"] show ?thesis
    unfolding x IncrementIP_def by linarith
qed

function first_unclaimed :: "cidr \<Rightarrow> nat \<Rightarrow> nat \<Rightarrow> cidr list \<Rightarrow> ip \<Rightarrow> cidr option" where
  "first_unclaimed net ones k exists x =
     (if Contains_ip net x
      then (let subnet = \<lparr>c_IP = x, c_Ones = ones\<rparr> in
            if subnet \<notin> set exists then Some subnet
            else first_unclaimed net ones k exists (IncrementIP x (2 ^ k)))
      else None)"
  by pat_completeness auto
termination
  by (relation "measure (\<lambda>(net, ones, k, exists, x). walk_measure x)") (auto simp: walk_measure_decreases)

declare first_unclaimed.simps [simp del]

text \<open>
  The claim of a block in a VLAN pool covers the whole pool; other pools are cut into blocks. A block
  size that is no prefix length of the address family gives a nil mask, whose text is no CIDR, so that
  building the block panics.
\<close>

definition vlan_reservation :: "ippool \<Rightarrow> reserved_attr option" where
  "vlan_reservation p =
     (if pool_RangeStart p \<noteq> None \<and> pool_RangeEnd p \<noteq> None
      then Some \<lparr>StartOfBlock = StartReservedAddressed p, EndOfBlock = EndReservedAddressed p,
                 rsvd_Handle = ReservedHandle, rsvd_Note = ReservedNote\<rparr>
      else None)"

definition unclaimed_block :: "ippool \<Rightarrow> cidr list \<Rightarrow> ipam_block option outcome" where
  "unclaimed_block p exists =
     (let (ip, net) = ParseCIDR (pool_CIDR p) in
      if pool_Type p = VLAN
      then (if net \<notin> set exists
            then (case NewBlock p net (vlan_reservation p) of
                    None \<Rightarrow> Panicked | Some b \<Rightarrow> Returned (Some b))
            else Returned None)
      else if ip_bits ip < pool_BlockSize p
      then (if Contains_ip net ip then Panicked else Returned None)
      else (case first_unclaimed net (pool_BlockSize p) (ip_bits ip - pool_BlockSize p) exists ip of
              None \<Rightarrow> Returned None
            | Some subnet \<Rightarrow>
                (case NewBlock p subnet None of None \<Rightarrow> Panicked | Some b \<Rightarrow> Returned (Some b))))"

definition findUnclaimedBlock :: "'s ipam_api \<Rightarrow> ippool \<Rightarrow> ('s, ipam_block) action" where
  "findUnclaimedBlock api p =
     seq (ListBlocks api (pool_Name p)) (\<lambda>existing.
       case unclaimed_block p (map bk_CIDR existing) of
         Returned (Some b) \<Rightarrow> ret b
       | Returned None \<Rightarrow> fail ErrNoFreeBlocks
       | Failed e \<Rightarrow> fail e
       | Panicked \<Rightarrow> (\<lambda>s. (Panicked, s)))"

section \<open>Assigning\<close>

fun block_with_room :: "nat \<Rightarrow> ipam_block list \<Rightarrow> ipam_block option" where
  "block_with_room minFreeIps [] = None"
| "block_with_room minFreeIps (b # bs) =
     (if NumFreeAddresses b \<ge> minFreeIps then Some b else block_with_room minFreeIps bs)"

text \<open>
  When the server reports that the block to create exists, the code asks for the name of the block the
  failed call returned. The generated client returns an empty object together with an error, whose CIDR
  is the empty text, and \<^verbatim>\<open>BlockName\<close> dereferences the nil result of parsing it: the branch panics.
\<close>

definition findOrClaimBlock :: "'s ipam_api \<Rightarrow> ippool \<Rightarrow> nat \<Rightarrow> ('s, ipam_block) action" where
  "findOrClaimBlock api p minFreeIps =
     seq (ListBlocks api (pool_Name p)) (\<lambda>remaining.
       case block_with_room minFreeIps remaining of
         Some b \<Rightarrow> ret b
       | None \<Rightarrow>
           seq (findUnclaimedBlock api p) (\<lambda>b0.
             seq (attempt (call_api (api_createBlock api b0)) (\<lambda>r.
                    case r of
                      Inr b \<Rightarrow> ret b
                    | Inl (Api AlreadyExists) \<Rightarrow> (\<lambda>s. (Panicked, s))
                    | Inl e \<Rightarrow> fail e)) (\<lambda>b.
               if NumFreeAddresses b \<ge> minFreeIps then ret b
               else fail (TooFewFree (BlockName b) (NumFreeAddresses b) minFreeIps))))"

definition assignFromExistingBlock ::
  "'s ipam_api \<Rightarrow> ipam_block \<Rightarrow> string \<Rightarrow> secondary \<Rightarrow> ('s, cidr) action" where
  "assignFromExistingBlock api b handleID attrs =
     seq (or_panic (block_AutoAssign 1 handleID attrs b)) (\<lambda>(b1, ips).
       if length ips = 0 then fail (NoAvailableIP (BlockName b1))
       else
         seq (incrementHandle api handleID b1 1) (\<lambda>_.
           attempt (call_api (api_updateBlock api b1)) (\<lambda>r.
             case r of
               Inr _ \<Rightarrow> ret (hd ips)
             | Inl e \<Rightarrow> attempt (decrementHandle api handleID b1 1) (\<lambda>_. fail e))))"

fun autoAssign_loop ::
  "'s ipam_api \<Rightarrow> nat \<Rightarrow> string \<Rightarrow> secondary \<Rightarrow> ipam_block \<Rightarrow> ('s, cidr) action" where
  "autoAssign_loop api 0 handleID attrs b = fail ErrMaxRetry"
| "autoAssign_loop api (Suc i) handleID attrs b =
     attempt (assignFromExistingBlock api b handleID attrs) (\<lambda>r.
       case r of
         Inr ip \<Rightarrow> ret ip
       | Inl (Api Conflict) \<Rightarrow>
           seq (queryBlock api (bk_Name b)) (autoAssign_loop api i handleID attrs)
       | Inl e \<Rightarrow> fail e)"

definition autoAssign :: "'s ipam_api \<Rightarrow> string \<Rightarrow> secondary \<Rightarrow> ippool \<Rightarrow> ('s, cidr) action" where
  "autoAssign api handleID attrs p =
     seq (findOrClaimBlock api p 1) (autoAssign_loop api datastoreRetries handleID attrs)"

record auto_assign_args =
  arg_HandleID :: string
  arg_Attrs :: secondary
  arg_Pool :: string

text \<open>
  The CNI result. The MAC address of a VLAN interface is derived from the address and two random
  bytes; only the address it is for is kept.
\<close>

record ipam_result =
  res_Version :: nat
  res_Address :: cidr
  res_Gateway :: string
  res_Routes :: "(cidr \<times> string) list"
  res_DNS :: dns_config
  res_MacFor :: "ip list"

definition assign_result :: "ippool \<Rightarrow> cidr \<Rightarrow> ipam_result" where
  "assign_result p ip =
     \<lparr>res_Version = (case c_IP ip of V4 n \<Rightarrow> 4 | _ \<Rightarrow> 6), res_Address = ip, res_Gateway = pool_Gateway p,
      res_Routes = map (\<lambda>(dst, gw). (snd (ParseCIDR dst), gw)) (pool_Routes p), res_DNS = pool_DNS p,
      res_MacFor = (if pool_Type p = VLAN then [c_IP ip] else [])\<rparr>"

fun AutoAssign_loop :: "'s ipam_api \<Rightarrow> nat \<Rightarrow> auto_assign_args \<Rightarrow> ('s, ipam_result) action" where
  "AutoAssign_loop api 0 args = fail ErrMaxRetry"
| "AutoAssign_loop api (Suc i) args =
     attempt (call_api (api_getPool api (arg_Pool args))) (\<lambda>r.
       case r of
         Inl e \<Rightarrow> fail ErrNoQualifiedPool
       | Inr p \<Rightarrow>
           (if pool_Disabled p then fail ErrNoQualifiedPool
            else if TypeInvalid p then fail ErrUnknowIPPoolType
            else
              attempt (autoAssign api (arg_HandleID args) (arg_Attrs args) p) (\<lambda>r2.
                case r2 of
                  Inr ip \<Rightarrow> ret (assign_result p ip)
                | Inl e \<Rightarrow> (if e = ErrNoFreeBlocks then fail e else AutoAssign_loop api i args))))"

definition AutoAssign :: "'s ipam_api \<Rightarrow> auto_assign_args \<Rightarrow> ('s, ipam_result) action" where
  "AutoAssign api = AutoAssign_loop api datastoreRetries"

section \<open>Releasing\<close>

fun releaseByHandle_loop :: "'s ipam_api \<Rightarrow> nat \<Rightarrow> string \<Rightarrow> block_key \<Rightarrow> ('s, unit) action" where
  "releaseByHandle_loop api 0 handleID name = fail ErrMaxRetry"
| "releaseByHandle_loop api (Suc i) handleID name =
     attempt (queryBlock api name) (\<lambda>r.
       case r of
         Inl (Api NotFound) \<Rightarrow> ret ()
       | Inl e \<Rightarrow> fail e
       | Inr b \<Rightarrow>
           seq (or_panic (block_ReleaseByHandle handleID b)) (\<lambda>(b1, num).
             if num = 0 then ret ()
             else
               seq (or_panic (block_Empty b1)) (\<lambda>empty.
                 attempt (if empty then DeleteBlock api b1 else call_api (api_updateBlock api b1)) (\<lambda>r2.
                   let finish = attempt (decrementHandle api handleID b1 (int num)) (\<lambda>_. ret ()) in
                   case r2 of
                     Inr _ \<Rightarrow> finish
                   | Inl (Api Conflict) \<Rightarrow> releaseByHandle_loop api i handleID name
                   | Inl (Api NotFound) \<Rightarrow> (if empty then finish else fail (Api NotFound))
                   | Inl e \<Rightarrow> fail e))))"

definition releaseByHandle :: "'s ipam_api \<Rightarrow> string \<Rightarrow> block_key \<Rightarrow> ('s, unit) action" where
  "releaseByHandle api = releaseByHandle_loop api datastoreRetries"

fun release_blocks :: "'s ipam_api \<Rightarrow> string \<Rightarrow> block_key list \<Rightarrow> ('s, unit) action" where
  "release_blocks api handleID [] = ret ()"
| "release_blocks api handleID (k # ks) =
     seq (releaseByHandle api handleID (ConvertToBlockName k)) (\<lambda>_. release_blocks api handleID ks)"

definition client_ReleaseByHandle :: "'s ipam_api \<Rightarrow> string \<Rightarrow> ('s, unit) action" where
  "client_ReleaseByHandle api handleID =
     attempt (queryHandle api handleID) (\<lambda>r.
       case r of
         Inl (Api NotFound) \<Rightarrow> ret ()
       | Inl e \<Rightarrow> fail e
       | Inr h \<Rightarrow> release_blocks api handleID (map fst (hd_Block h)))"

section \<open>Utilization\<close>

record pool_utilization =
  pu_Name :: string
  pu_Capacity :: int
  pu_Unallocated :: int
  pu_Allocate :: int
  pu_Reserved :: int

definition initial_utilization :: "ippool \<Rightarrow> pool_utilization" where
  "initial_utilization p =
     (let cap = pool_NumAddresses p; reserved = pool_NumReservedAddresses p in
      \<lparr>pu_Name = pool_Name p, pu_Capacity = cap, pu_Unallocated = cap - reserved, pu_Allocate = 0,
       pu_Reserved = reserved\<rparr>)"

fun sum_blocks :: "ipam_block list \<Rightarrow> pool_utilization \<Rightarrow> pool_utilization option" where
  "sum_blocks [] u = Some u"
| "sum_blocks (b # bs) u =
     (case block_NumReservedAddresses b of
        None \<Rightarrow> None
      | Some r \<Rightarrow>
          sum_blocks bs
            (u\<lparr>pu_Allocate := pu_Allocate u + (block_NumAddresses b - int (NumFreeAddresses b) - int r),
               pu_Reserved := pu_Reserved u + int r\<rparr>))"

definition block_utilization :: "ipam_block list \<Rightarrow> pool_utilization \<Rightarrow> pool_utilization option" where
  "block_utilization bs u =
     (if length bs \<le> 0 then Some u
      else
        (case sum_blocks bs (u\<lparr>pu_Reserved := 0, pu_Allocate := 0\<rparr>) of
           None \<Rightarrow> None
         | Some u1 \<Rightarrow> Some (u1\<lparr>pu_Unallocated := pu_Capacity u1 - pu_Allocate u1 - pu_Reserved u1\<rparr>)))"

fun utilization_loop ::
  "'s ipam_api \<Rightarrow> pool_utilization list \<Rightarrow> ('s, pool_utilization list) action" where
  "utilization_loop api [] = ret []"
| "utilization_loop api (u # us) =
     seq (ListBlocks api (pu_Name u)) (\<lambda>bs.
       seq (or_panic (block_utilization bs u)) (\<lambda>u1.
         seq (utilization_loop api us) (\<lambda>us1. ret (u1 # us1))))"

definition GetUtilization ::
  "'s ipam_api \<Rightarrow> string \<Rightarrow> string list \<Rightarrow> ('s, pool_utilization list) action" where
  "GetUtilization api typeStr pools =
     seq (call_api (api_listPools api typeStr)) (\<lambda>allPools.
       if length allPools \<le> 0 then fail NoPoolFound
       else
         utilization_loop api
           (map initial_utilization
              (filter (\<lambda>p. length pools = 0 \<or> pool_Name p \<in> set pools) allPools)))"

section \<open>Cutting a pool into blocks\<close>

text \<open>The blocks of a pool: as many ranges of the block size as fit, in increasing order.\<close>

definition subnets :: "cidr \<Rightarrow> nat \<Rightarrow> cidr list" where
  "subnets c ones =
     map (\<lambda>j. \<lparr>c_IP = IncrementIP (c_IP c) (j * 2 ^ (ip_bits (c_IP c) - ones)), c_Ones = ones\<rparr>)
       [0..<2 ^ (ones - c_Ones c)]"

lemma not_Contains_end:
  assumes "aligned c"
  shows "\<not> Contains_ip c (BigIntToIP (IPToBigInt (c_IP c) + 2 ^ host_bits c))"
proof -
  have "n div 2 ^ h \<noteq> (n + 2 ^ h) div 2 ^ h" for n h :: nat
    using div_add_self2 [of "2 ^ h" n] by simp
  with assms show ?thesis
    by (cases "c_IP c") (auto simp: BigIntToIP_def)
qed

lemma first_unclaimed_walk:
  assumes c: "wf_cidr c" "aligned c" and ones: "c_Ones c \<le> ones" "ones \<le> ip_bits (c_IP c)"
    and j: "j \<le> 2 ^ (ones - c_Ones c)"
  defines "k \<equiv> ip_bits (c_IP c) - ones"
  shows "first_unclaimed c ones k ex (IncrementIP (c_IP c) (j * 2 ^ k)) =
    List.find (\<lambda>sub. sub \<notin> set ex)
      (map (\<lambda>j. \<lparr>c_IP = IncrementIP (c_IP c) (j * 2 ^ k), c_Ones = ones\<rparr>) [j..<2 ^ (ones - c_Ones c)])"
  using j
proof (induction "2 ^ (ones - c_Ones c) - j" arbitrary: j)
  case 0
  have H: "host_bits c = (ones - c_Ones c) + k" using ones by (simp add: host_bits_def k_def)
  from 0 have "j * 2 ^ k = 2 ^ host_bits c" by (simp add: H power_add)
  with not_Contains_end [OF c(2)] 0 show ?case
    by (subst first_unclaimed.simps) (simp add: IncrementIP_def)
next
  case (Suc m)
  have H: "host_bits c = (ones - c_Ones c) + k" using ones by (simp add: host_bits_def k_def)
  from Suc have j: "j < 2 ^ (ones - c_Ones c)" by linarith
  then have "j * 2 ^ k < 2 ^ host_bits c" by (simp add: H power_add)
  note in_range = IncrementIP_in_range [OF c this]
  then have step: "IncrementIP (IncrementIP (c_IP c) (j * 2 ^ k)) (2 ^ k) =
      IncrementIP (c_IP c) (Suc j * 2 ^ k)"
    unfolding IncrementIP_def [of "IncrementIP (c_IP c) (j * 2 ^ k)"] IncrementIP_def [of _ "Suc j * 2 ^ k"]
    by (simp add: algebra_simps)
  have "[j..<2 ^ (ones - c_Ones c)] = j # [Suc j..<2 ^ (ones - c_Ones c)]" using j by (rule upt_conv_Cons)
  moreover have "m = 2 ^ (ones - c_Ones c) - Suc j" "Suc j \<le> 2 ^ (ones - c_Ones c)" using Suc j by linarith+
  ultimately show ?case
    using in_range Suc.hyps(1) [of "Suc j"]
    by (subst first_unclaimed.simps) (simp add: step Let_def)
qed

lemma first_unclaimed_find:
  assumes "wf_cidr c" "aligned c" "c_Ones c \<le> ones" "ones \<le> ip_bits (c_IP c)"
  shows "first_unclaimed c ones (ip_bits (c_IP c) - ones) ex (c_IP c) =
    List.find (\<lambda>sub. sub \<notin> set ex) (subnets c ones)"
proof -
  have "wf_ip (c_IP c)" using assms(1) by (simp add: wf_cidr_def)
  then show ?thesis
    using first_unclaimed_walk [OF assms, of 0 ex] by (simp add: subnets_def)
qed

lemma subnets_range:
  assumes c: "wf_cidr c" "aligned c" "c_Ones c \<le> ones" "ones \<le> ip_bits (c_IP c)" and sub: "sub \<in> set (subnets c ones)"
  shows "wf_cidr sub \<and> aligned sub \<and> host_bits sub = ip_bits (c_IP c) - ones \<and>
    IPToBigInt (c_IP c) \<le> IPToBigInt (c_IP sub) \<and>
    IPToBigInt (c_IP sub) + 2 ^ host_bits sub \<le> IPToBigInt (c_IP c) + 2 ^ host_bits c"
proof -
  define k where "k = ip_bits (c_IP c) - ones"
  have H: "host_bits c = (ones - c_Ones c) + k" using c(3,4) by (simp add: host_bits_def k_def)
  from sub obtain j where j: "j < 2 ^ (ones - c_Ones c)"
    and s: "sub = \<lparr>c_IP = IncrementIP (c_IP c) (j * 2 ^ k), c_Ones = ones\<rparr>"
    by (auto simp: subnets_def k_def)
  have "Suc j * 2 ^ k \<le> 2 ^ (ones - c_Ones c) * 2 ^ k" using j by (intro mult_right_mono) simp_all
  then have top: "j * 2 ^ k + 2 ^ k \<le> 2 ^ host_bits c" by (simp add: H power_add)
  then have "j * 2 ^ k < 2 ^ host_bits c" by (rule less_le_trans [rotated]) simp
  note r = IncrementIP_in_range [OF c(1,2) this]
  then have bits: "ip_bits (c_IP sub) = ip_bits (c_IP c)"
    using c(1) by (cases "c_IP c"; cases "IncrementIP (c_IP c) (j * 2 ^ k)") (auto simp: s wf_cidr_def)
  then have h: "host_bits sub = k" by (simp add: host_bits_def s k_def)
  have "2 ^ k dvd IPToBigInt (c_IP c)"
    using c(2) H by (simp add: aligned_def power_add) (metis dvd_mult_right)
  then have "aligned sub" using r by (simp add: aligned_def h) (simp add: s)
  with r h top bits c(4) show ?thesis by (simp add: wf_cidr_def s k_def)
qed

lemma NewBlock_plain:
  assumes "host_bits c < 63"
  shows "\<exists>b. NewBlock p c None = Some b \<and> wf_block b \<and> bk_CIDR b = c \<and> (\<forall>i. handle_of b i = None)"
proof -
  obtain b where b: "NewBlock p c None = Some b" "bk_CIDR b = c"
    "bk_Allocations b = replicate (2 ^ host_bits c) None" "bk_Unallocated b = [0..<2 ^ host_bits c]"
    by (auto simp: NewBlock_def num_addresses_small [OF assms] Let_def nat_power_eq)
  have "wf_block b" by (rule wf_blockI) (use assms b in auto)
  with b show ?thesis by (auto simp: handle_of_def owner_def)
qed

lemma subnets_disjoint:
  assumes c: "wf_cidr c" "aligned c" "c_Ones c \<le> ones" "ones \<le> ip_bits (c_IP c)"
    and sub: "x \<in> set (subnets c ones)" "y \<in> set (subnets c ones)" "x \<noteq> y"
  shows "\<not> IsNetOverlap x y"
proof -
  note xs = subnets_range [OF c sub(1)] and ys = subnets_range [OF c sub(2)]
  have ones: "c_Ones x = c_Ones y" using sub by (auto simp: subnets_def)
  have "c_IP x = c_IP y" if "Contains_ip x (c_IP y)" and x: "aligned x" and y: "aligned y"
    and h: "host_bits x = host_bits y" for x y
    using that by (cases "c_IP x"; cases "c_IP y") (auto simp: aligned_def elim!: dvdE)
  from this [of x y] this [of y x] xs ys have "c_IP x = c_IP y" if "IsNetOverlap x y"
    using that by (auto simp: IsNetOverlap_def)
  with ones sub(3) show ?thesis by (auto intro: cidr.equality)
qed

lemma subnet_addresses_in_pool:
  assumes c: "wf_cidr c" "aligned c" "c_Ones c \<le> ones" "ones \<le> ip_bits (c_IP c)"
    and sub: "sub \<in> set (subnets c ones)" and i: "i < 2 ^ host_bits sub"
  shows "Contains_ip c (IncrementIP (c_IP sub) i)"
proof -
  note r = subnets_range [OF c sub]
  then have inc: "wf_ip (IncrementIP (c_IP sub) i)"
      "IPToBigInt (IncrementIP (c_IP sub) i) = IPToBigInt (c_IP sub) + i"
    using IncrementIP_in_range [of sub i] i by auto
  have "c_Ones sub = ones" using sub by (auto simp: subnets_def)
  then have "ip_bits (c_IP sub) = ip_bits (c_IP c)"
    using r c(4) unfolding wf_cidr_def host_bits_def by linarith
  then have "ip_bits (IncrementIP (c_IP sub) i) = ip_bits (c_IP c)"
    using inc r c(1) i IncrementIP_in_range [of sub i]
    by (cases "c_IP sub"; cases "IncrementIP (c_IP sub) i") auto
  moreover have "IPToBigInt (c_IP sub) + i < IPToBigInt (c_IP c) + 2 ^ host_bits c"
    using r i by linarith
  ultimately show ?thesis using inc r c by (simp add: Contains_ip_iff_range)
qed

lemma unclaimed_block_find:
  assumes "pool_Type p \<noteq> VLAN" and c: "wf_cidr (pool_CIDR p)" "aligned (pool_CIDR p)"
    and size: "c_Ones (pool_CIDR p) \<le> pool_BlockSize p" "pool_BlockSize p \<le> ip_bits (c_IP (pool_CIDR p))"
  shows "unclaimed_block p ex =
     (case List.find (\<lambda>sub. sub \<notin> set ex) (subnets (pool_CIDR p) (pool_BlockSize p)) of
        None \<Rightarrow> Returned None
      | Some subnet \<Rightarrow> (case NewBlock p subnet None of None \<Rightarrow> Panicked | Some b \<Rightarrow> Returned (Some b)))"
  using assms first_unclaimed_find [OF c size, of ex]
  by (simp add: unclaimed_block_def ParseCIDR_aligned [OF c(2)])

text \<open>
  In a pool that is cut into blocks, the search for an unclaimed block never panics, finds nothing
  exactly when every block of the pool is claimed, and otherwise returns a well-formed block with all
  addresses free and inside the pool, whose range is not claimed and overlaps no other block of the pool.
\<close>

theorem unclaimed_block_correct:
  assumes type: "pool_Type p \<noteq> VLAN" and c: "wf_cidr (pool_CIDR p)" "aligned (pool_CIDR p)"
    and size: "c_Ones (pool_CIDR p) \<le> pool_BlockSize p" "pool_BlockSize p \<le> ip_bits (c_IP (pool_CIDR p))"
      "ip_bits (c_IP (pool_CIDR p)) - pool_BlockSize p < 63"
  shows "unclaimed_block p ex \<noteq> Panicked \<and>
    (unclaimed_block p ex = Returned None \<longleftrightarrow> set (subnets (pool_CIDR p) (pool_BlockSize p)) \<subseteq> set ex) \<and>
    (\<forall>b. unclaimed_block p ex = Returned (Some b) \<longrightarrow>
       wf_block b \<and> (\<forall>i. handle_of b i = None) \<and> bk_CIDR b \<in> set (subnets (pool_CIDR p) (pool_BlockSize p)) \<and> bk_CIDR b \<notin> set ex \<and>
       (\<forall>i < 2 ^ host_bits (bk_CIDR b). Contains_ip (pool_CIDR p) (c_IP (address b i))) \<and>
       (\<forall>d \<in> set (subnets (pool_CIDR p) (pool_BlockSize p)). d \<noteq> bk_CIDR b \<longrightarrow> \<not> IsNetOverlap d (bk_CIDR b)))"
proof (cases "List.find (\<lambda>sub. sub \<notin> set ex) (subnets (pool_CIDR p) (pool_BlockSize p))")
  case None
  then have "unclaimed_block p ex = Returned None" "set (subnets (pool_CIDR p) (pool_BlockSize p)) \<subseteq> set ex"
    using unclaimed_block_find [OF type c size(1,2), of ex] by (simp, auto simp: find_None_iff)
  then show ?thesis by simp
next
  case (Some sub)
  then have sub: "sub \<in> set (subnets (pool_CIDR p) (pool_BlockSize p))" "sub \<notin> set ex"
    by (auto simp: find_Some_iff)
  note r = subnets_range [OF c size(1,2) sub(1)]
  with size(3) have "host_bits sub < 63" by simp
  from NewBlock_plain [OF this, of p] obtain b where
    b: "NewBlock p sub None = Some b" "wf_block b" "bk_CIDR b = sub" "\<forall>i. handle_of b i = None" by blast
  have "c_IP (address b i) = IncrementIP (c_IP sub) i" for i
    using r by (simp add: address_def b(3) ParseCIDR_aligned)
  moreover have "unclaimed_block p ex = Returned (Some b)"
    using Some b(1) unclaimed_block_find [OF type c size(1,2), of ex] by simp
  ultimately show ?thesis
    using sub b subnets_disjoint [OF c size(1,2) _ sub(1)] subnet_addresses_in_pool [OF c size(1,2) sub(1)]
    by auto
qed

end
