(* ===== verification/Ipam_Safety.thy ===== *)
theory Ipam_Safety
  imports Ipam_Client
begin

text \<open>
  Safety of the IPAM client under concurrency. The server state may change between any two calls in
  every way the server allows; what the client relies on is stated by the locale \<open>versioned_store\<close>:
  an update is accepted only against the version of the block the client has seen.
\<close>

section \<open>Runs of the client\<close>

inductive api_step :: "'s ipam_api \<Rightarrow> 's \<Rightarrow> 's \<Rightarrow> bool" for api where
  step_getPool: "api_step api s (snd (api_getPool api n s))"
| step_listPools: "api_step api s (snd (api_listPools api n s))"
| step_listBlocks: "api_step api s (snd (api_listBlocks api n s))"
| step_getBlock: "api_step api s (snd (api_getBlock api k s))"
| step_createBlock: "api_step api s (snd (api_createBlock api b s))"
| step_updateBlock: "api_step api s (snd (api_updateBlock api b s))"
| step_deleteBlock: "api_step api s (snd (api_deleteBlock api k s))"
| step_getHandle: "api_step api s (snd (api_getHandle api n s))"
| step_createHandle: "api_step api s (snd (api_createHandle api h s))"
| step_updateHandle: "api_step api s (snd (api_updateHandle api h s))"
| step_deleteHandle: "api_step api s (snd (api_deleteHandle api n s))"

text \<open>An action touches the server only through its calls.\<close>

definition follows :: "'s ipam_api \<Rightarrow> ('s, 'a) action \<Rightarrow> bool" where
  "follows api m \<longleftrightarrow> (\<forall>s. (api_step api)\<^sup>*\<^sup>* s (snd (m s)))"

named_theorems follows_intro \<open>actions that touch the server only through its calls\<close>

lemma follows_pure [follows_intro]:
  "follows api (ret a)" "follows api (fail e)" "follows api (or_panic x)" "follows api (\<lambda>s. (Panicked, s))"
  by (auto simp: follows_def ret_def fail_def or_panic_def split: option.splits)

lemma follows_attempt [follows_intro]:
  assumes "follows api m" "\<And>r. follows api (f r)"
  shows "follows api (attempt m f)"
  unfolding follows_def
proof
  fix s
  obtain x t where m: "m s = (x, t)" by (metis surj_pair)
  then have 1: "(api_step api)\<^sup>*\<^sup>* s t" using assms(1) by (auto simp: follows_def dest: spec [of _ s])
  have 2: "(api_step api)\<^sup>*\<^sup>* t (snd (f r t))" for r using assms(2) by (simp add: follows_def)
  show "(api_step api)\<^sup>*\<^sup>* s (snd (attempt m f s))"
    using 1 rtranclp_trans [OF 1 2] by (cases x) (simp_all add: attempt_def m)
qed

lemma follows_seq [follows_intro]:
  "follows api m \<Longrightarrow> (\<And>a. follows api (f a)) \<Longrightarrow> follows api (seq m f)"
  unfolding seq_def by (intro follows_intro) (auto intro: follows_intro split: sum.splits)

lemma snd_call_api [simp]: "snd (call_api f s) = snd (f s)"
  by (cases "f s") (auto simp: call_api_def split: sum.splits)

lemma follows_call [follows_intro]:
  "follows api (call_api (api_getPool api n))" "follows api (call_api (api_listPools api n))"
  "follows api (call_api (api_listBlocks api n))" "follows api (call_api (api_getBlock api k))"
  "follows api (call_api (api_createBlock api b))" "follows api (call_api (api_updateBlock api b))"
  "follows api (call_api (api_deleteBlock api k))" "follows api (call_api (api_getHandle api n))"
  "follows api (call_api (api_createHandle api h))" "follows api (call_api (api_updateHandle api h))"
  "follows api (call_api (api_deleteHandle api n))"
  unfolding follows_def by (auto intro!: r_into_rtranclp api_step.intros)

lemma follows_store [follows_intro]:
  "follows api (ListBlocks api p)" "follows api (DeleteBlock api b)" "follows api (queryBlock api k)"
  "follows api (deleteHandle api h)" "follows api (queryHandle api n)" "follows api (put_handle api c h)"
  by (auto simp: ListBlocks_def DeleteBlock_def queryBlock_def deleteHandle_def queryHandle_def put_handle_def
      intro!: follows_intro)

lemma follows_incrementHandle [follows_intro]: "follows api (incrementHandle api n b num)"
proof -
  have "follows api (incrementHandle_loop api i n b num)" for i
    by (induction i) (auto intro!: follows_intro split: sum.splits ipam_error.splits api_error.splits prod.splits)
  then show ?thesis by (simp add: incrementHandle_def)
qed

lemma follows_decrementHandle [follows_intro]: "follows api (decrementHandle api n b num)"
proof -
  have "follows api (decrementHandle_loop api i n b num)" for i
    by (induction i) (auto intro!: follows_intro split: sum.splits ipam_error.splits api_error.splits prod.splits)
  then show ?thesis by (simp add: decrementHandle_def)
qed

lemma follows_assign [follows_intro]:
  "follows api (findUnclaimedBlock api p)" "follows api (assignFromExistingBlock api b h at)"
  by (auto simp: findUnclaimedBlock_def assignFromExistingBlock_def
      intro!: follows_intro split: outcome.splits option.splits sum.splits prod.splits)

lemma follows_findOrClaimBlock [follows_intro]: "follows api (findOrClaimBlock api p n)"
  by (auto simp: findOrClaimBlock_def intro!: follows_intro
      split: option.splits sum.splits ipam_error.splits api_error.splits)

lemma follows_autoAssign_loop [follows_intro]: "follows api (autoAssign_loop api i h at b)"
  by (induction i arbitrary: b)
     (auto intro!: follows_intro split: sum.splits ipam_error.splits api_error.splits)

lemma follows_autoAssign [follows_intro]: "follows api (autoAssign api h at p)"
  unfolding autoAssign_def by (intro follows_intro)

lemma follows_AutoAssign_loop [follows_intro]: "follows api (AutoAssign_loop api i args)"
  by (induction i) (auto intro!: follows_intro split: sum.splits)

section \<open>Inversion of successful runs\<close>

lemma attempt_Returned [result_iff]:
  "attempt m f s = (Returned x, s') \<longleftrightarrow>
     (\<exists>a t. m s = (Returned a, t) \<and> f (Inr a) t = (Returned x, s')) \<or>
     (\<exists>e t. m s = (Failed e, t) \<and> f (Inl e) t = (Returned x, s'))"
  by (auto simp: attempt_def split: prod.splits outcome.splits)

lemma seq_Returned [result_iff]:
  "seq m f s = (Returned x, s') \<longleftrightarrow> (\<exists>a t. m s = (Returned a, t) \<and> f a t = (Returned x, s'))"
  by (auto simp: seq_def attempt_Returned fail_def)

lemma ret_Returned [result_iff]: "ret a s = (Returned x, s') \<longleftrightarrow> x = a \<and> s' = s"
  by (auto simp: ret_def)

lemma fail_Returned [simp]: "fail e s \<noteq> (Returned x, s')"
  by (simp add: fail_def)

lemma or_panic_Returned [result_iff]: "or_panic y s = (Returned x, s') \<longleftrightarrow> y = Some x \<and> s' = s"
  by (auto simp: or_panic_def split: option.splits)

lemma call_api_Returned [result_iff]: "call_api f s = (Returned x, s') \<longleftrightarrow> f s = (Inr x, s')"
  by (auto simp: call_api_def split: prod.splits sum.splits)

section \<open>Optimistic concurrency\<close>

text \<open>
  What the client relies on. \<open>seen s\<close> are the versions of blocks the server has handed out up to
  state \<open>s\<close>, \<open>writes s\<close> the replacements it has accepted, each with the block that was stored before. The
  server forgets neither, records the blocks it returns, and accepts an update only for the
  version that is stored, which is the one seen under that version.
\<close>

locale versioned_store =
  fixes api :: "'s ipam_api"
    and inv :: "'s \<Rightarrow> bool"
    and seen :: "'s \<Rightarrow> ipam_block set"
    and writes :: "'s \<Rightarrow> (ipam_block \<times> ipam_block) set"
  assumes step: "inv s \<Longrightarrow> api_step api s s' \<Longrightarrow> inv s' \<and> seen s \<subseteq> seen s' \<and> writes s \<subseteq> writes s'"
    and listed: "inv s \<Longrightarrow> api_listBlocks api p s = (Inr bs, s') \<Longrightarrow> set bs \<subseteq> seen s'"
    and got: "inv s \<Longrightarrow> api_getBlock api k s = (Inr b, s') \<Longrightarrow> b \<in> seen s'"
    and created: "inv s \<Longrightarrow> api_createBlock api b0 s = (Inr b, s') \<Longrightarrow> b \<in> seen s'"
    and updated: "inv s \<Longrightarrow> api_updateBlock api b s = (Inr u, s') \<Longrightarrow> b0 \<in> seen s \<Longrightarrow>
      bk_Name b0 = bk_Name b \<Longrightarrow> bk_ResourceVersion b0 = bk_ResourceVersion b \<Longrightarrow> (b0, b) \<in> writes s'"

text \<open>
  An address granted to a handle: some accepted write replaced a block in which the address was free
  by one in which the handle owns it and every other address has the same holder as before.
\<close>

definition granted :: "(ipam_block \<times> ipam_block) set \<Rightarrow> string \<Rightarrow> cidr \<Rightarrow> bool" where
  "granted ws h ip \<longleftrightarrow>
     (\<exists>b b1 i. (b, b1) \<in> ws \<and> wf_block b1 \<and> i < length (bk_Allocations b) \<and> ip = address b i \<and>
        handle_of b i = None \<and> handle_of b1 i = Some h \<and> (\<forall>j. j \<noteq> i \<longrightarrow> handle_of b1 j = handle_of b j))"

lemma granted_mono: "granted ws h ip \<Longrightarrow> ws \<subseteq> ws' \<Longrightarrow> granted ws' h ip"
  unfolding granted_def by blast

context versioned_store
begin

lemma steps: "(api_step api)\<^sup>*\<^sup>* s s' \<Longrightarrow> inv s \<Longrightarrow> inv s' \<and> seen s \<subseteq> seen s' \<and> writes s \<subseteq> writes s'"
  by (induction rule: rtranclp_induct) (use step in blast)+

lemma run:
  assumes "follows api m" "m s = (x, s')" "inv s"
  shows "inv s'" "seen s \<subseteq> seen s'" "writes s \<subseteq> writes s'"
proof -
  have "(api_step api)\<^sup>*\<^sup>* s s'" using assms(1,2) by (auto simp: follows_def dest: spec [of _ s])
  from steps [OF this assms(3)] show "inv s'" "seen s \<subseteq> seen s'" "writes s \<subseteq> writes s'" by auto
qed

lemma assignFromExistingBlock_granted:
  assumes "inv s" "b \<in> seen s" "wf_block b" "wf_secondary at"
    and run0: "assignFromExistingBlock api b h at s = (Returned ip, s')"
  shows "granted (writes s') h ip"
proof -
  from block_AutoAssign_assigned [OF assms(3,4), of 1 h] obtain b1 where
    aa: "block_AutoAssign 1 h at b = Some (b1, map (address b) (take 1 (bk_Unallocated b)))" "wf_block b1"
    and asg: "assigned \<lparr>AttrPrimary = h, AttrSecondary = at\<rparr> (take 1 (bk_Unallocated b))
        (b\<lparr>bk_Unallocated := drop 1 (bk_Unallocated b)\<rparr>) b1" by auto
  from run0 aa obtain t u where
    inc: "incrementHandle api h b1 1 s = (Returned (), t)"
    and upd: "api_updateBlock api b1 t = (Inr u, s')"
    and ip: "ip = hd (map (address b) (take 1 (bk_Unallocated b)))" "bk_Unallocated b \<noteq> []"
    by (auto simp: assignFromExistingBlock_def result_iff split: if_splits)
  obtain i us where q: "bk_Unallocated b = i # us" using ip(2) by (cases "bk_Unallocated b") auto
  note t = run [OF follows_incrementHandle inc assms(1)]
  have "(b, b1) \<in> writes s'"
    using updated [OF t(1) upd] t(2) assms(2) asg by (auto simp: assigned_def)
  moreover have own: "if j = i then (\<exists>a. owner b1 j = Some a \<and> DeepEqual \<lparr>AttrPrimary = h, AttrSecondary = at\<rparr> a)
      else owner b1 j = owner b j" for j
    using asg unfolding assigned_def owner_queue_irrelevant by (simp add: q)
  have "handle_of b1 i = Some h" using own [of i] by (auto simp: handle_of_def DeepEqual_def)
  moreover have "handle_of b1 j = handle_of b j" if "j \<noteq> i" for j using own [of j] that by (simp add: handle_of_def)
  moreover have "i < length (bk_Allocations b)" "handle_of b i = None"
    using wf_block_free_iff [OF assms(3), of i] q by (simp_all add: handle_of_def)
  moreover have "ip = address b i" using ip(1) q by simp
  ultimately show ?thesis using aa(2) unfolding granted_def by blast
qed

lemma queryBlock_seen:
  assumes "inv s" "queryBlock api k s = (Returned b, s')"
  shows "b \<in> seen s'"
  using assms(2) got [OF assms(1), of k b s'] by (auto simp: queryBlock_def result_iff split: if_splits)

lemma autoAssign_loop_granted:
  "inv s \<Longrightarrow> b \<in> seen s \<Longrightarrow> wf_secondary at \<Longrightarrow> \<forall>b \<in> seen s'. wf_block b \<Longrightarrow>
   autoAssign_loop api i h at b s = (Returned ip, s') \<Longrightarrow> granted (writes s') h ip"
proof (induction i arbitrary: b s)
  case (Suc i)
  have "wf_block b"
    using run(2) [OF follows_autoAssign_loop Suc.prems(5,1)] Suc.prems(2,4) by blast
  note one = assignFromExistingBlock_granted [OF Suc.prems(1,2) this Suc.prems(3)]
  from Suc.prems(5) consider
    "assignFromExistingBlock api b h at s = (Returned ip, s')"
  | t t2 b2 where "assignFromExistingBlock api b h at s = (Failed (Api Conflict), t)"
      "queryBlock api (bk_Name b) t = (Returned b2, t2)" "autoAssign_loop api i h at b2 t2 = (Returned ip, s')"
    unfolding autoAssign_loop.simps attempt_Returned
    by (elim disjE exE conjE) (auto simp: result_iff split: ipam_error.split_asm api_error.split_asm)
  then show ?case
  proof cases
    case 1
    then show ?thesis by (rule one)
  next
    case 2
    have "inv t" by (rule run(1) [OF follows_assign(2) 2(1) Suc.prems(1)])
    then have "inv t2" "b2 \<in> seen t2"
      using run(1) [OF follows_store(3) 2(2)] queryBlock_seen [OF _ 2(2)] by blast+
    then show ?thesis using Suc.IH 2(3) Suc.prems(3,4) by blast
  qed
qed simp

lemma block_with_room_in: "block_with_room n bs = Some b \<Longrightarrow> b \<in> set bs"
  by (induction bs) (auto split: if_splits)

lemma findOrClaimBlock_seen:
  assumes "inv s" "findOrClaimBlock api p n s = (Returned b, s')"
  shows "b \<in> seen s'"
proof -
  from assms(2) obtain bs t where l: "ListBlocks api (pool_Name p) s = (Returned bs, t)"
    and c: "(case block_with_room n bs of
         Some b \<Rightarrow> ret b
       | None \<Rightarrow> seq (findUnclaimedBlock api p) (\<lambda>b0.
             seq (attempt (call_api (api_createBlock api b0)) (\<lambda>r.
                    case r of
                      Inr b \<Rightarrow> ret b
                    | Inl (Api AlreadyExists) \<Rightarrow> (\<lambda>s. (Panicked, s))
                    | Inl e \<Rightarrow> fail e)) (\<lambda>b.
               if NumFreeAddresses b \<ge> n then ret b
               else fail (TooFewFree (BlockName b) (NumFreeAddresses b) n)))) t = (Returned b, s')"
    by (auto simp: findOrClaimBlock_def seq_Returned)
  have t: "inv t" "set bs \<subseteq> seen t"
    using run(1) [OF follows_store(1) l assms(1)] l listed [OF assms(1)]
    by (auto simp: ListBlocks_def result_iff)
  show ?thesis
  proof (cases "block_with_room n bs")
    case None
    with c obtain b0 t2 where u: "findUnclaimedBlock api p t = (Returned b0, t2)"
      and cr: "api_createBlock api b0 t2 = (Inr b, s')"
      unfolding None option.case seq_Returned attempt_Returned
      by (elim exE conjE disjE)
         (auto simp: result_iff split: if_splits ipam_error.split_asm api_error.split_asm)
    show ?thesis using created [OF run(1) [OF follows_assign(1) u t(1)] cr] .
  next
    case (Some b2)
    with c t block_with_room_in show ?thesis by (auto simp: result_iff)
  qed
qed

lemma AutoAssign_loop_granted:
  "inv s \<Longrightarrow> wf_secondary (arg_Attrs args) \<Longrightarrow> \<forall>b \<in> seen s'. wf_block b \<Longrightarrow>
   AutoAssign_loop api i args s = (Returned res, s') \<Longrightarrow>
   granted (writes s') (arg_HandleID args) (res_Address res)"
proof (induction i arbitrary: s)
  case (Suc i)
  from Suc.prems(4) obtain p t where p: "api_getPool api (arg_Pool args) s = (Inr p, t)"
    and rest: "attempt (autoAssign api (arg_HandleID args) (arg_Attrs args) p) (\<lambda>r2.
         case r2 of Inr ip \<Rightarrow> ret (assign_result p ip)
         | Inl e \<Rightarrow> (if e = ErrNoFreeBlocks then fail e else AutoAssign_loop api i args)) t = (Returned res, s')"
    by (auto simp: attempt_Returned [of "call_api _"] call_api_Returned split: if_splits)
  have t: "inv t" using step [OF Suc.prems(1) step_getPool] p by (metis snd_conv)
  from rest consider
    ip where "autoAssign api (arg_HandleID args) (arg_Attrs args) p t = (Returned ip, s')" "res = assign_result p ip"
  | e t2 where "autoAssign api (arg_HandleID args) (arg_Attrs args) p t = (Failed e, t2)"
      "AutoAssign_loop api i args t2 = (Returned res, s')"
    by (auto simp: result_iff split: if_splits)
  then show ?case
  proof cases
    case 1
    then obtain b t2 where b: "findOrClaimBlock api p 1 t = (Returned b, t2)"
      "autoAssign_loop api datastoreRetries (arg_HandleID args) (arg_Attrs args) b t2 = (Returned ip, s')"
      by (auto simp: autoAssign_def seq_Returned)
    have "inv t2" "b \<in> seen t2"
      using run(1) [OF follows_findOrClaimBlock b(1) t] findOrClaimBlock_seen [OF t b(1)] by blast+
    from autoAssign_loop_granted [OF this Suc.prems(2,3) b(2)] 1(2) show ?thesis
      by (simp add: assign_result_def)
  next
    case 2
    have "inv t2" by (rule run(1) [OF follows_autoAssign 2(1) t])
    then show ?thesis using Suc.IH 2(2) Suc.prems(2,3) by blast
  qed
qed simp

end

text \<open>
  C10: An address is never handed out twice, whatever other clients do between the calls: when the client
  returns an address for a handle, the server has accepted a write that found the address free in the
  stored block, recorded the handle as its owner, and changed the holder of no other address.
\<close>

theorem AutoAssign_no_double_allocation:
  assumes "versioned_store api ok seen writes"
    and "ok s" and "wf_secondary (arg_Attrs args)"
    and "AutoAssign api args s = (Returned res, s')" and "\<forall>b \<in> seen s'. wf_block b"
  shows "granted (writes s') (arg_HandleID args) (res_Address res)"
  using versioned_store.AutoAssign_loop_granted [OF assms(1-3,5)] assms(4) by (simp add: AutoAssign_def)

text \<open>
  Losing the race to create a block is fatal: when no block of the pool has room, the pool still
  has an unclaimed block, and the server answers that this block already exists, the client panics
  instead of using the block another client has just created.
\<close>

theorem findOrClaimBlock_race_panics:
  assumes "api_listBlocks api (pool_Name p) s = (Inr bs, s1)" "block_with_room n bs = None"
    and "api_listBlocks api (pool_Name p) s1 = (Inr bs', s2)"
    and "unclaimed_block p (map bk_CIDR bs') = Returned (Some b)"
    and "api_createBlock api b s2 = (Inl AlreadyExists, s3)"
  shows "findOrClaimBlock api p n s = (Panicked, s3)"
  using assms
  by (simp add: findOrClaimBlock_def findUnclaimedBlock_def ListBlocks_def seq_def attempt_def call_api_def ret_def)

section \<open>Utilization\<close>

lemma sum_blocks_frame:
  "sum_blocks bs u = Some u' \<Longrightarrow> pu_Capacity u' = pu_Capacity u \<and> pu_Name u' = pu_Name u"
  by (induction bs arbitrary: u) (auto split: option.splits)

lemma utilization_loop_balanced:
  "list_all (\<lambda>u. pu_Capacity u = pu_Unallocated u + pu_Allocate u + pu_Reserved u) us \<Longrightarrow>
   utilization_loop api us s = (Returned us', s') \<Longrightarrow>
   map pu_Name us' = map pu_Name us \<and>
   list_all (\<lambda>u. pu_Capacity u = pu_Unallocated u + pu_Allocate u + pu_Reserved u) us'"
proof (induction us arbitrary: s us' s')
  case (Cons u us)
  from Cons.prems(2) obtain bs t u1 us1 where r: "block_utilization bs u = Some u1"
    "utilization_loop api us t = (Returned us1, s')" "us' = u1 # us1"
    by (auto simp: result_iff)
  have "pu_Capacity u1 = pu_Unallocated u1 + pu_Allocate u1 + pu_Reserved u1 \<and> pu_Name u1 = pu_Name u"
    using r(1) Cons.prems(1)
    by (auto simp: block_utilization_def split: if_splits option.splits dest: sum_blocks_frame)
  with Cons.IH [OF _ r(2)] Cons.prems(1) r(3) show ?case by simp
qed (simp add: ret_def)

text \<open>
  The utilization report names exactly the requested pools, in the order listed, and in every entry
  allocated, reserved and unallocated addresses add up to the capacity.
\<close>

theorem GetUtilization_balanced:
  assumes "GetUtilization api typeStr pools s = (Returned us, s')"
  shows "\<exists>all s1. api_listPools api typeStr s = (Inr all, s1) \<and> all \<noteq> [] \<and>
    map pu_Name us = map pool_Name (filter (\<lambda>p. pools = [] \<or> pool_Name p \<in> set pools) all) \<and>
    list_all (\<lambda>u. pu_Capacity u = pu_Unallocated u + pu_Allocate u + pu_Reserved u) us"
proof -
  from assms obtain all s1 where all: "api_listPools api typeStr s = (Inr all, s1)" "all \<noteq> []"
    and loop: "utilization_loop api (map initial_utilization
        (filter (\<lambda>p. length pools = 0 \<or> pool_Name p \<in> set pools) all)) s1 = (Returned us, s')"
    by (auto simp: GetUtilization_def result_iff split: if_splits)
  have "list_all (\<lambda>u. pu_Capacity u = pu_Unallocated u + pu_Allocate u + pu_Reserved u)
      (map initial_utilization (filter (\<lambda>p. length pools = 0 \<or> pool_Name p \<in> set pools) all))"
    by (simp add: list_all_iff initial_utilization_def Let_def)
  from utilization_loop_balanced [OF this loop] all show ?thesis
    by (auto simp: initial_utilization_def Let_def o_def)
qed

end
