(* ===== verification/Memory_Server.thy ===== *)
theory Memory_Server
  imports Ipam_Safety
begin

text \<open>
  A reference API server for IPAM objects, kept in memory: it gives every stored object a fresh
  version, refuses to create a name twice, and accepts an update only for the stored version. It
  satisfies the contract \<open>versioned_store\<close> the client relies on, and the theorems of the client
  apply to concrete runs on it.
\<close>

record mem_store =
  ms_next :: nat
  ms_pools :: "ippool list"
  ms_blocks :: "ipam_block list"
  ms_handles :: "ipam_handle list"
  ms_seen :: "ipam_block list"
  ms_writes :: "(ipam_block \<times> ipam_block) list"

definition mem_find :: "('a \<Rightarrow> 'k) \<Rightarrow> 'k \<Rightarrow> 'a list \<Rightarrow> 'a option" where
  "mem_find name k xs = List.find (\<lambda>x. name x = k) xs"

definition found :: "'a option \<Rightarrow> (api_error, 'a) result" where
  "found x = (case x of None \<Rightarrow> Inl NotFound | Some a \<Rightarrow> Inr a)"

definition replace_named :: "('a \<Rightarrow> 'k) \<Rightarrow> 'a \<Rightarrow> 'a list \<Rightarrow> 'a list" where
  "replace_named name x xs = map (\<lambda>y. if name y = name x then x else y) xs"

definition mem_createBlock :: "ipam_block \<Rightarrow> mem_store \<Rightarrow> (api_error, ipam_block) result \<times> mem_store" where
  "mem_createBlock b s =
     (case mem_find bk_Name (bk_Name b) (ms_blocks s) of
        Some _ \<Rightarrow> (Inl AlreadyExists, s)
      | None \<Rightarrow>
          (let b1 = b\<lparr>bk_ResourceVersion := ms_next s\<rparr> in
           (Inr b1, s\<lparr>ms_next := Suc (ms_next s), ms_blocks := ms_blocks s @ [b1],
                      ms_seen := b1 # ms_seen s\<rparr>)))"

definition mem_updateBlock :: "ipam_block \<Rightarrow> mem_store \<Rightarrow> (api_error, unit) result \<times> mem_store" where
  "mem_updateBlock b s =
     (case mem_find bk_Name (bk_Name b) (ms_blocks s) of
        None \<Rightarrow> (Inl NotFound, s)
      | Some b0 \<Rightarrow>
          (if bk_ResourceVersion b0 \<noteq> bk_ResourceVersion b then (Inl Conflict, s)
           else
             (let b1 = b\<lparr>bk_ResourceVersion := ms_next s\<rparr> in
              (Inr (), s\<lparr>ms_next := Suc (ms_next s), ms_blocks := replace_named bk_Name b1 (ms_blocks s),
                         ms_seen := b1 # ms_seen s, ms_writes := (b0, b) # ms_writes s\<rparr>))))"

definition mem_deleteBlock :: "block_key \<Rightarrow> mem_store \<Rightarrow> (api_error, unit) result \<times> mem_store" where
  "mem_deleteBlock k s =
     (case mem_find bk_Name k (ms_blocks s) of
        None \<Rightarrow> (Inl NotFound, s)
      | Some _ \<Rightarrow> (Inr (), s\<lparr>ms_blocks := filter (\<lambda>b. bk_Name b \<noteq> k) (ms_blocks s)\<rparr>))"

definition mem_createHandle :: "ipam_handle \<Rightarrow> mem_store \<Rightarrow> (api_error, unit) result \<times> mem_store" where
  "mem_createHandle h s =
     (case mem_find hd_Name (hd_Name h) (ms_handles s) of
        Some _ \<Rightarrow> (Inl AlreadyExists, s)
      | None \<Rightarrow> (Inr (), s\<lparr>ms_next := Suc (ms_next s),
                           ms_handles := ms_handles s @ [h\<lparr>hd_ResourceVersion := ms_next s\<rparr>]\<rparr>))"

definition mem_updateHandle :: "ipam_handle \<Rightarrow> mem_store \<Rightarrow> (api_error, unit) result \<times> mem_store" where
  "mem_updateHandle h s =
     (case mem_find hd_Name (hd_Name h) (ms_handles s) of
        None \<Rightarrow> (Inl NotFound, s)
      | Some h0 \<Rightarrow>
          (if hd_ResourceVersion h0 \<noteq> hd_ResourceVersion h then (Inl Conflict, s)
           else (Inr (), s\<lparr>ms_next := Suc (ms_next s),
                  ms_handles := replace_named hd_Name (h\<lparr>hd_ResourceVersion := ms_next s\<rparr>) (ms_handles s)\<rparr>)))"

definition mem_deleteHandle :: "string \<Rightarrow> mem_store \<Rightarrow> (api_error, unit) result \<times> mem_store" where
  "mem_deleteHandle n s =
     (case mem_find hd_Name n (ms_handles s) of
        None \<Rightarrow> (Inl NotFound, s)
      | Some _ \<Rightarrow> (Inr (), s\<lparr>ms_handles := filter (\<lambda>h. hd_Name h \<noteq> n) (ms_handles s)\<rparr>))"

definition mem_api :: "mem_store ipam_api" where
  "mem_api =
     \<lparr>api_getPool = (\<lambda>n s. (found (mem_find pool_Name n (ms_pools s)), s)),
      api_listPools = (\<lambda>t s. (Inr (filter (\<lambda>p. pool_Type p = t) (ms_pools s)), s)),
      api_listBlocks = (\<lambda>p s. (Inr (filter (\<lambda>b. bk_PoolLabel b = p) (ms_blocks s)), s)),
      api_getBlock = (\<lambda>k s. (found (mem_find bk_Name k (ms_blocks s)), s)),
      api_createBlock = mem_createBlock,
      api_updateBlock = mem_updateBlock,
      api_deleteBlock = mem_deleteBlock,
      api_getHandle = (\<lambda>n s. (found (mem_find hd_Name n (ms_handles s)), s)),
      api_createHandle = mem_createHandle,
      api_updateHandle = mem_updateHandle,
      api_deleteHandle = mem_deleteHandle\<rparr>"

section \<open>The contract\<close>

text \<open>
  Every stored block has been recorded, versions are below the next one, and a name and a version
  determine the block.
\<close>

definition mem_ok :: "mem_store \<Rightarrow> bool" where
  "mem_ok s =
     (set (ms_blocks s) \<subseteq> set (ms_seen s) \<and>
      list_all (\<lambda>b. bk_ResourceVersion b < ms_next s) (ms_seen s) \<and>
      list_all (\<lambda>b. list_all (\<lambda>b'. bk_Name b = bk_Name b' \<and> bk_ResourceVersion b = bk_ResourceVersion b' \<longrightarrow>
          b = b') (ms_seen s)) (ms_seen s))"

lemma mem_okD:
  assumes "mem_ok s"
  shows "b \<in> set (ms_blocks s) \<Longrightarrow> b \<in> set (ms_seen s)"
    and "b \<in> set (ms_seen s) \<Longrightarrow> bk_ResourceVersion b < ms_next s"
    and "b \<in> set (ms_seen s) \<Longrightarrow> b' \<in> set (ms_seen s) \<Longrightarrow> bk_Name b = bk_Name b' \<Longrightarrow>
      bk_ResourceVersion b = bk_ResourceVersion b' \<Longrightarrow> b = b'"
  using assms by (auto simp: mem_ok_def list_all_iff)

lemma mem_find_Some: "mem_find name k xs = Some x \<Longrightarrow> x \<in> set xs \<and> name x = k"
  by (auto simp: mem_find_def find_Some_iff)

text \<open>Recording a block under the next version keeps the invariant.\<close>

lemma mem_ok_record:
  assumes ok: "mem_ok s" and b: "bk_ResourceVersion b = ms_next s"
    and bs: "set bs \<subseteq> insert b (set (ms_blocks s))"
  shows "mem_ok (s\<lparr>ms_next := Suc (ms_next s), ms_blocks := bs, ms_seen := b # ms_seen s, ms_writes := ws\<rparr>)"
proof -
  have "bk_ResourceVersion b' \<noteq> bk_ResourceVersion b" if "b' \<in> set (ms_seen s)" for b'
    using mem_okD(2) [OF ok that] b by simp
  with ok b bs show ?thesis
    unfolding mem_ok_def list_all_iff by (auto simp: less_Suc_eq subset_iff)
qed

lemma mem_createBlock_ok:
  assumes ok: "mem_ok s" and run: "mem_createBlock b s = (r, s')"
  shows "mem_ok s' \<and> set (ms_seen s) \<subseteq> set (ms_seen s') \<and> ms_writes s' = ms_writes s \<and>
    (\<forall>b1. r = Inr b1 \<longrightarrow> b1 \<in> set (ms_seen s'))"
proof (cases "mem_find bk_Name (bk_Name b) (ms_blocks s)")
  case None
  let ?b1 = "b\<lparr>bk_ResourceVersion := ms_next s\<rparr>"
  have "mem_ok (s\<lparr>ms_next := Suc (ms_next s), ms_blocks := ms_blocks s @ [?b1], ms_seen := ?b1 # ms_seen s,
      ms_writes := ms_writes s\<rparr>)"
    by (rule mem_ok_record [OF ok]) auto
  with run None show ?thesis by (auto simp: mem_createBlock_def Let_def)
next
  case (Some b0)
  with ok run show ?thesis by (auto simp: mem_createBlock_def)
qed

lemma mem_updateBlock_ok:
  assumes ok: "mem_ok s" and run: "mem_updateBlock b s = (r, s')"
  shows "mem_ok s' \<and> set (ms_seen s) \<subseteq> set (ms_seen s') \<and> set (ms_writes s) \<subseteq> set (ms_writes s') \<and>
    (\<forall>b0. r = Inr () \<and> b0 \<in> set (ms_seen s) \<and> bk_Name b0 = bk_Name b \<and>
       bk_ResourceVersion b0 = bk_ResourceVersion b \<longrightarrow> (b0, b) \<in> set (ms_writes s'))"
proof (cases "mem_find bk_Name (bk_Name b) (ms_blocks s)")
  case None
  with ok run show ?thesis by (auto simp: mem_updateBlock_def)
next
  case (Some b0)
  note b0 = mem_find_Some [OF Some]
  let ?b1 = "b\<lparr>bk_ResourceVersion := ms_next s\<rparr>"
  have "mem_ok (s\<lparr>ms_next := Suc (ms_next s), ms_blocks := replace_named bk_Name ?b1 (ms_blocks s),
      ms_seen := ?b1 # ms_seen s, ms_writes := (b0, b) # ms_writes s\<rparr>)"
    by (rule mem_ok_record [OF ok]) (auto simp: replace_named_def)
  moreover have "b2 = b0" if "b2 \<in> set (ms_seen s)" "bk_Name b2 = bk_Name b"
      "bk_ResourceVersion b2 = bk_ResourceVersion b0" for b2
    by (rule mem_okD(3) [OF ok that(1) mem_okD(1) [OF ok]]) (use b0 that in auto)
  ultimately show ?thesis
    using ok run Some by (auto simp: mem_updateBlock_def Let_def split: if_splits)
qed

lemma mem_other_ok:
  assumes "mem_ok s"
  shows "mem_ok (snd (mem_deleteBlock k s))" "mem_ok (snd (mem_createHandle h s))"
    "mem_ok (snd (mem_updateHandle h s))" "mem_ok (snd (mem_deleteHandle n s))"
  using assms
  by (auto simp: mem_ok_def list_all_iff mem_deleteBlock_def mem_createHandle_def mem_updateHandle_def
      mem_deleteHandle_def less_SucI split: option.splits)

lemma mem_other_frame:
  "ms_seen (snd (mem_deleteBlock k s)) = ms_seen s" "ms_writes (snd (mem_deleteBlock k s)) = ms_writes s"
  "ms_seen (snd (mem_createHandle h s)) = ms_seen s" "ms_writes (snd (mem_createHandle h s)) = ms_writes s"
  "ms_seen (snd (mem_updateHandle h s)) = ms_seen s" "ms_writes (snd (mem_updateHandle h s)) = ms_writes s"
  "ms_seen (snd (mem_deleteHandle n s)) = ms_seen s" "ms_writes (snd (mem_deleteHandle n s)) = ms_writes s"
  by (auto simp: mem_deleteBlock_def mem_createHandle_def mem_updateHandle_def mem_deleteHandle_def
      split: option.splits)

interpretation memory: versioned_store mem_api mem_ok "\<lambda>s. set (ms_seen s)" "\<lambda>s. set (ms_writes s)"
proof
  fix s s' assume ok: "mem_ok s" and st: "api_step mem_api s s'"
  from st show "mem_ok s' \<and> set (ms_seen s) \<subseteq> set (ms_seen s') \<and> set (ms_writes s) \<subseteq> set (ms_writes s')"
  proof cases
    case (step_createBlock b)
    then show ?thesis using mem_createBlock_ok [OF ok, of b "fst (mem_createBlock b s)" s']
      by (simp add: mem_api_def)
  next
    case (step_updateBlock b)
    then show ?thesis using mem_updateBlock_ok [OF ok, of b "fst (mem_updateBlock b s)" s']
      by (simp add: mem_api_def)
  qed (use ok mem_other_ok [OF ok] mem_other_frame in \<open>simp_all add: mem_api_def\<close>)
next
  fix s p bs s' assume "mem_ok s" "api_listBlocks mem_api p s = (Inr bs, s')"
  then show "set bs \<subseteq> set (ms_seen s')" by (auto simp: mem_api_def mem_okD(1))
next
  fix s k b s' assume "mem_ok s" "api_getBlock mem_api k s = (Inr b, s')"
  then show "b \<in> set (ms_seen s')"
    by (auto simp: mem_api_def found_def mem_okD(1) dest: mem_find_Some split: option.splits)
next
  fix s b0 b s' assume "mem_ok s" "api_createBlock mem_api b0 s = (Inr b, s')"
  then show "b \<in> set (ms_seen s')" using mem_createBlock_ok by (auto simp: mem_api_def)
next
  fix s b u s' b0 assume "mem_ok s" "api_updateBlock mem_api b s = (Inr u, s')" "b0 \<in> set (ms_seen s)"
    "bk_Name b0 = bk_Name b" "bk_ResourceVersion b0 = bk_ResourceVersion b"
  then show "(b0, b) \<in> set (ms_writes s')" using mem_updateBlock_ok [of s b "Inr u" s'] by (simp add: mem_api_def)
qed

section \<open>A concrete run\<close>

definition sample_store :: mem_store where
  "sample_store =
     \<lparr>ms_next = 2, ms_pools = [sample_pool], ms_blocks = [sample_block], ms_handles = [],
      ms_seen = [sample_block], ms_writes = []\<rparr>"

definition sample_args :: auto_assign_args where
  "sample_args = \<lparr>arg_HandleID = ''c'', arg_Attrs = None, arg_Pool = ''pool''\<rparr>"

lemma sample_store_ok: "mem_ok sample_store"
  by (simp add: mem_ok_def sample_store_def sample_block_def)

definition assigned_block :: ipam_block where
  "assigned_block = sample_block
     \<lparr>bk_Allocations := [Some 0, None, Some 2, Some 1], bk_Unallocated := [1],
      bk_Attributes := bk_Attributes sample_block @ [\<lparr>AttrPrimary = ''c'', AttrSecondary = None\<rparr>]\<rparr>"

definition counted_handle :: ipam_handle where
  "counted_handle = (new_handle ''c'')\<lparr>hd_Block := [(block_String assigned_block, 1)]\<rparr>"

lemma retries_Suc: obtains k where "datastoreRetries = Suc k"
  by (cases datastoreRetries) (simp_all add: datastoreRetries_def)

lemma sample_lookups:
  "api_getPool mem_api ''pool'' sample_store = (Inr sample_pool, sample_store)"
  "api_listBlocks mem_api ''pool'' sample_store = (Inr [sample_block], sample_store)"
  "api_getHandle mem_api ''c'' sample_store = (Inl NotFound, sample_store)"
  by (simp_all add: mem_api_def found_def mem_find_def sample_store_def sample_pool_def sample_block_def)

lemma sample_AutoAssign:
  "block_AutoAssign 1 ''c'' None sample_block = Some (assigned_block, [address sample_block 2])"
  by (simp add: block_AutoAssign_def findOrAddAttribute_def DeepEqual_def address_def case_prod_beta
      assigned_block_def sample_block_def)

lemma sample_increment:
  "incrementHandle mem_api ''c'' assigned_block 1 sample_store =
     (Returned (), snd (mem_createHandle counted_handle sample_store))"
proof -
  obtain k where k: "datastoreRetries = Suc k" by (rule retries_Suc)
  show ?thesis
    by (simp add: incrementHandle_def k queryHandle_def seq_def attempt_def call_api_def sample_lookups
        fail_def put_handle_def ret_def IncrementBlock_def new_handle_def counted_handle_def)
       (simp add: mem_api_def mem_createHandle_def sample_store_def mem_find_def ret_def)
qed

lemma sample_update:
  "api_updateBlock mem_api assigned_block (snd (mem_createHandle counted_handle sample_store)) =
     (Inr (), snd (mem_updateBlock assigned_block (snd (mem_createHandle counted_handle sample_store))))"
  by (simp add: mem_api_def mem_updateBlock_def mem_createHandle_def sample_store_def mem_find_def
      assigned_block_def sample_block_def Let_def)

lemma sample_assignFrom:
  "assignFromExistingBlock mem_api sample_block ''c'' None sample_store =
     (Returned (address sample_block 2),
      snd (mem_updateBlock assigned_block (snd (mem_createHandle counted_handle sample_store))))"
  by (simp add: assignFromExistingBlock_def seq_def attempt_def or_panic_def sample_AutoAssign sample_increment
      call_api_def sample_update ret_def)

lemma sample_find: "findOrClaimBlock mem_api sample_pool (Suc 0) sample_store = (Returned sample_block, sample_store)"
proof -
  have "pool_Name sample_pool = ''pool''" "NumFreeAddresses sample_block = 2"
    by (simp_all add: sample_pool_def NumFreeAddresses_def sample_block_def)
  then show ?thesis
    by (simp add: findOrClaimBlock_def ListBlocks_def seq_def attempt_def call_api_def sample_lookups ret_def)
qed

lemma sample_run:
  "AutoAssign mem_api sample_args sample_store =
     (Returned (assign_result sample_pool (address sample_block 2)),
      snd (mem_updateBlock assigned_block (snd (mem_createHandle counted_handle sample_store))))"
proof -
  have "\<not> pool_Disabled sample_pool" "\<not> TypeInvalid sample_pool"
    by (simp_all add: sample_pool_def TypeInvalid_def)
  moreover obtain k where k: "datastoreRetries = Suc k" by (rule retries_Suc)
  ultimately show ?thesis
    by (simp add: AutoAssign_def k autoAssign_def sample_args_def attempt_def seq_def call_api_def
        sample_lookups sample_find sample_assignFrom ret_def)
qed

theorem AutoAssign_no_double_allocation_witness:
  "\<exists>res s'. AutoAssign mem_api sample_args sample_store = (Returned res, s') \<and>
     granted (set (ms_writes s')) ''c'' (res_Address res)"
proof -
  let ?s = "snd (mem_updateBlock assigned_block (snd (mem_createHandle counted_handle sample_store)))"
  have at: "wf_secondary (arg_Attrs sample_args)" by (simp add: sample_args_def wf_secondary_def)
  have "set (ms_seen ?s) \<subseteq> {sample_block, assigned_block\<lparr>bk_ResourceVersion := 3\<rparr>}"
    by (simp add: mem_updateBlock_def mem_createHandle_def sample_store_def mem_find_def assigned_block_def
        sample_block_def Let_def)
  moreover have "wf_block (assigned_block\<lparr>bk_ResourceVersion := 3\<rparr>)"
    by (simp add: wf_block_def assigned_block_def sample_block_def sample_host_bits)
  ultimately have "\<forall>b \<in> set (ms_seen ?s). wf_block b" using sample_block_wf by auto
  from AutoAssign_no_double_allocation [OF memory.versioned_store_axioms sample_store_ok at sample_run this]
  show ?thesis using sample_run by (auto simp: sample_args_def)
qed

text \<open>A store without blocks, and a server on which another client always creates the block first.\<close>

definition empty_store :: mem_store where
  "empty_store = sample_store\<lparr>ms_blocks := [], ms_seen := []\<rparr>"

definition racing_api :: "mem_store ipam_api" where
  "racing_api = mem_api\<lparr>api_createBlock := \<lambda>b s. (Inl AlreadyExists, s)\<rparr>"

lemma empty_listBlocks:
  "api_listBlocks mem_api n empty_store = (Inr [], empty_store)"
  "api_listBlocks racing_api n empty_store = (Inr [], empty_store)"
  by (simp_all add: racing_api_def mem_api_def empty_store_def)

lemma sample_cidr_ok: "wf_cidr sample_cidr" "aligned sample_cidr"
  by (simp_all add: wf_cidr_def aligned_def sample_host_bits) (simp_all add: sample_cidr_def)

theorem findOrClaimBlock_race_panics_witness:
  "findOrClaimBlock racing_api sample_pool 1 empty_store = (Panicked, empty_store)"
proof -
  have "host_bits sample_cidr < 63" by (simp add: sample_host_bits)
  from NewBlock_plain [OF this, of sample_pool] obtain b where
    b: "NewBlock sample_pool sample_cidr None = Some b" by blast
  have p: "pool_CIDR sample_pool = sample_cidr" "pool_Type sample_pool = VLAN" "vlan_reservation sample_pool = None"
    by (simp_all add: sample_pool_def vlan_reservation_def)
  have "unclaimed_block sample_pool (map bk_CIDR []) = Returned (Some b)"
    by (simp add: unclaimed_block_def p ParseCIDR_aligned [OF sample_cidr_ok(2)] b)
  moreover have "api_createBlock racing_api b empty_store = (Inl AlreadyExists, empty_store)"
    by (simp add: racing_api_def)
  ultimately show ?thesis
    by (intro findOrClaimBlock_race_panics [OF empty_listBlocks(2) _ empty_listBlocks(2)]) simp_all
qed

theorem unclaimed_block_correct_witness:
  "unclaimed_block (sample_pool\<lparr>pool_Type := Pod\<rparr>) [] \<noteq> Panicked \<and>
   unclaimed_block (sample_pool\<lparr>pool_Type := Pod\<rparr>) [] \<noteq> Returned None"
proof -
  let ?p = "sample_pool\<lparr>pool_Type := Pod\<rparr>"
  have p: "pool_CIDR ?p = sample_cidr" "pool_Type ?p \<noteq> VLAN" "pool_BlockSize ?p = 30"
    by (simp_all add: sample_pool_def)
  have c: "c_Ones sample_cidr = 30" "ip_bits (c_IP sample_cidr) = 32" by (simp_all add: sample_cidr_def)
  have "subnets sample_cidr 30 \<noteq> []" by (simp add: subnets_def c)
  with unclaimed_block_correct [of ?p "[]"] p c sample_cidr_ok show ?thesis by simp
qed

theorem GetUtilization_balanced_witness:
  "\<exists>us. GetUtilization mem_api ''vlan'' [] empty_store = (Returned us, empty_store) \<and>
     map pu_Name us = [''pool''] \<and>
     list_all (\<lambda>u. pu_Capacity u = pu_Unallocated u + pu_Allocate u + pu_Reserved u) us"
proof -
  have l: "api_listPools mem_api ''vlan'' empty_store = (Inr [sample_pool], empty_store)"
    by (simp add: mem_api_def empty_store_def sample_store_def pool_Type_of_def IPPoolTypeLocal_def sample_pool_def)
  then have run: "GetUtilization mem_api ''vlan'' [] empty_store =
      (Returned [initial_utilization sample_pool], empty_store)"
    by (simp add: GetUtilization_def ListBlocks_def seq_def attempt_def call_api_def or_panic_def ret_def
        empty_listBlocks block_utilization_def)
  have "pool_Name sample_pool = ''pool''" by (simp add: sample_pool_def)
  with GetUtilization_balanced [OF run] run l show ?thesis by auto
qed

end
