(* ===== verification/Ippool_Controller.thy ===== *)
theory Ippool_Controller
  imports Memory_Server
begin

text \<open>
  The controller of address pools (\<^verbatim>\<open>pkg/controller/network/ippool/ippool_controller.go\<close>) with the provider for local pools
  (\<^verbatim>\<open>pkg/simple/client/network/ippool/provider.go\<close>) and the webhook that validates pools
  (\<^verbatim>\<open>pkg/controller/network/webhooks/validator.go\<close>).

  The API server is a record of calls on an abstract state, as for the IPAM client. Texts are parsed by a library: an
  unparsable CIDR or address is a value of its own, and texts are compared by what they mean. Errors keep their cause, without the text
  that the code puts in front of it.
\<close>

section \<open>Pools as objects\<close>

record pool_status =
  st_Unallocated :: int
  st_Allocations :: int
  st_Capacity :: int
  st_Reserved :: int
  st_Synced :: bool
  st_Workspaces :: "(string, int) gomap"

text \<open>A pool with its metadata; a deletion timestamp is only asked whether it is set.\<close>

record pool_object = ippool +
  po_ResourceVersion :: nat
  po_Labels :: "(string, string) gomap"
  po_Finalizers :: "string list"
  po_Deleting :: bool
  po_Status :: pool_status

abbreviation pool_spec :: "pool_object \<Rightarrow> ippool" where
  "pool_spec p \<equiv> ippool.truncate p"

definition IPPoolTypeLabel :: string where "IPPoolTypeLabel = ''ippool.network.kubesphere.io/type''"
definition IPPoolNameLabel :: string where "IPPoolNameLabel = ''ippool.network.kubesphere.io/name''"
definition IPPoolIDLabel :: string where "IPPoolIDLabel = ''ippool.network.kubesphere.io/id''"
definition IPPoolDefaultLabel :: string where "IPPoolDefaultLabel = ''ippool.network.kubesphere.io/default''"
definition IPPoolFinalizer :: string where "IPPoolFinalizer = ''finalizers.network.kubesphere.io/ippool''"
definition pool_WorkspaceLabel :: string where "pool_WorkspaceLabel = ''kubesphere.io/workspace''"

lemmas pool_labels = IPPoolTypeLabel_def IPPoolNameLabel_def IPPoolIDLabel_def IPPoolDefaultLabel_def

record ns_object =
  nso_Name :: string
  nso_Labels :: "(string, string) gomap"
  nso_Annotations :: "(string, string) gomap"

record 's pool_api =
  pa_getPool :: "string \<Rightarrow> 's \<Rightarrow> (api_error, pool_object) result \<times> 's"
  pa_listPools :: "string \<times> string \<Rightarrow> 's \<Rightarrow> (api_error, pool_object list) result \<times> 's"
  pa_cachedPools :: "string \<times> string \<Rightarrow> 's \<Rightarrow> (api_error, pool_object list) result \<times> 's"
  pa_updatePool :: "pool_object \<Rightarrow> 's \<Rightarrow> (api_error, unit) result \<times> 's"
  pa_updateStatus :: "pool_object \<Rightarrow> 's \<Rightarrow> (api_error, unit) result \<times> 's"
  pa_getNamespace :: "string \<Rightarrow> 's \<Rightarrow> (api_error, ns_object) result \<times> 's"
  pa_updateNamespace :: "ns_object \<Rightarrow> 's \<Rightarrow> (api_error, unit) result \<times> 's"

definition errorf :: "string \<Rightarrow> ('s, 'a) action" where
  "errorf msg = fail (Api (OtherError msg))"

section \<open>Helpers of the network controllers\<close>

fun ContainsString :: "string list \<Rightarrow> string \<Rightarrow> bool" where
  "ContainsString [] s = False"
| "ContainsString (item # items) s = (if item = s then True else ContainsString items s)"

definition IsDeletionCandidate :: "pool_object \<Rightarrow> string \<Rightarrow> bool" where
  "IsDeletionCandidate p finalizer = (po_Deleting p \<and> ContainsString (po_Finalizers p) finalizer)"

definition NeedToAddFinalizer :: "pool_object \<Rightarrow> string \<Rightarrow> bool" where
  "NeedToAddFinalizer p finalizer = (\<not> po_Deleting p \<and> \<not> ContainsString (po_Finalizers p) finalizer)"

lemma ContainsString_iff [simp]: "ContainsString xs s \<longleftrightarrow> s \<in> set xs"
  by (induction xs s rule: ContainsString.induct) auto

section \<open>Providers\<close>

record 's pool_provider =
  pp_Type :: string
  pp_DeleteIPPool :: "pool_object \<Rightarrow> ('s, bool) action"
  pp_CreateIPPool :: "pool_object \<Rightarrow> ('s, unit) action"
  pp_UpdateIPPool :: "pool_object \<Rightarrow> ('s, unit) action"
  pp_GetIPPoolStats :: "pool_object \<Rightarrow> ('s, pool_object) action"
  pp_UpdateNamespace :: "ns_object \<Rightarrow> string list \<Rightarrow> ('s, ns_object) action"

fun delete_blocks :: "'s ipam_api \<Rightarrow> ipam_block list \<Rightarrow> ('s, bool) action" where
  "delete_blocks api [] = ret True"
| "delete_blocks api (block # blocks) =
     seq (or_panic (block_Empty block)) (\<lambda>empty.
       if empty then seq (DeleteBlock api block) (\<lambda>_. delete_blocks api blocks) else ret False)"

definition local_DeleteIPPool :: "'s ipam_api \<Rightarrow> pool_object \<Rightarrow> ('s, bool) action" where
  "local_DeleteIPPool api p = seq (ListBlocks api (pool_Name p)) (delete_blocks api)"

definition status_of :: "pool_utilization \<Rightarrow> pool_status" where
  "status_of stat =
     \<lparr>st_Unallocated = pu_Unallocated stat, st_Allocations = pu_Allocate stat, st_Capacity = pu_Capacity stat,
      st_Reserved = pu_Reserved stat, st_Synced = True, st_Workspaces = []\<rparr>"

text \<open>The code takes the first element of the statistics without asking whether there is one.\<close>

definition local_GetIPPoolStats :: "'s ipam_api \<Rightarrow> pool_object \<Rightarrow> ('s, pool_object) action" where
  "local_GetIPPoolStats api p =
     seq (GetUtilization api VLAN [pool_Name p]) (\<lambda>stats.
       seq (or_panic (case stats of [] \<Rightarrow> None | stat # _ \<Rightarrow> Some stat)) (\<lambda>stat.
         ret (p\<lparr>po_Status := status_of stat\<rparr>)))"

definition local_provider :: "'s ipam_api \<Rightarrow> 's pool_provider" where
  "local_provider api =
     \<lparr>pp_Type = IPPoolTypeLocal,
      pp_DeleteIPPool = local_DeleteIPPool api,
      pp_CreateIPPool = (\<lambda>p. ret ()),
      pp_UpdateIPPool = (\<lambda>p. ret ()),
      pp_GetIPPoolStats = local_GetIPPoolStats api,
      pp_UpdateNamespace = (\<lambda>ns pools. ret ns)\<rparr>"

section \<open>Validation\<close>

text \<open>The text of an optional address, and a pool as it is submitted.\<close>

datatype address_text = NoAddress | BadAddress | Address ip

fun ParseIP_text :: "address_text \<Rightarrow> ip option" where
  "ParseIP_text (Address ip) = Some ip"
| "ParseIP_text _ = None"

record create_request =
  cq_Object :: pool_object
  cq_CIDR :: "cidr option"
  cq_RangeStart :: address_text
  cq_RangeEnd :: address_text

definition requested_pool :: "create_request \<Rightarrow> cidr \<Rightarrow> pool_object" where
  "requested_pool q c =
     (cq_Object q)\<lparr>pool_CIDR := c, pool_RangeStart := ParseIP_text (cq_RangeStart q), pool_RangeEnd := ParseIP_text (cq_RangeEnd q)\<rparr>"

fun is_V4 :: "ip \<Rightarrow> bool" where
  "is_V4 (V4 n) = True"
| "is_V4 _ = False"

definition id_text :: "pool_object \<Rightarrow> string" where
  "id_text p = show_nat (unat (pool_ID (pool_spec p)))"

definition check_range :: "create_request \<Rightarrow> pool_object \<Rightarrow> string option" where
  "check_range q b =
     (if cq_RangeStart q \<noteq> NoAddress \<or> cq_RangeEnd q \<noteq> NoAddress
      then (case (ParseIP_text (cq_RangeStart q), ParseIP_text (cq_RangeEnd q)) of
              (Some iStart, Some iEnd) \<Rightarrow>
                (case (pool_IPToOrdinal (pool_spec b) iStart, pool_IPToOrdinal (pool_spec b) iEnd) of
                   (None, _) \<Rightarrow> Some ''IP not in pool''
                 | (_, None) \<Rightarrow> Some ''IP not in pool''
                 | (Some offsetStart, Some offsetEnd) \<Rightarrow>
                     if offsetEnd < offsetStart then Some ''rangeStart should not big than rangeEnd'' else None)
            | _ \<Rightarrow> Some ''invalid rangeStart or rangeEnd'')
      else None)"

fun check_overlap :: "pool_object \<Rightarrow> pool_object list \<Rightarrow> string option" where
  "check_overlap b [] = None"
| "check_overlap b (p # ps) =
     (if Overlapped (pool_spec b) (pool_spec p) then Some (''ippool cidr is overlapped with '' @ pool_Name p)
      else check_overlap b ps)"

definition ValidateCreate :: "'s pool_api \<Rightarrow> create_request \<Rightarrow> ('s, unit) action" where
  "ValidateCreate api q =
     (case cq_CIDR q of
        None \<Rightarrow> errorf ''invalid cidr''
      | Some c \<Rightarrow>
          (let b = requested_pool q c; (ip, cidr) = ParseCIDR c; size = c_Ones cidr in
           if is_V4 ip \<and> size = 32 then errorf ''the cidr mask must be less than 32''
           else if pool_BlockSize b > 0 \<and> pool_BlockSize b < size then errorf ''the blocksize should be larger than the cidr mask''
           else (case check_range q b of
                   Some e \<Rightarrow> errorf e
                 | None \<Rightarrow>
                     seq (call_api (pa_listPools api (IPPoolIDLabel, id_text b))) (\<lambda>pools.
                       case check_overlap b pools of Some e \<Rightarrow> errorf e | None \<Rightarrow> ret ()))))"

definition validateDefaultIPPool :: "'s pool_api \<Rightarrow> pool_object \<Rightarrow> ('s, unit) action" where
  "validateDefaultIPPool api p =
     seq (call_api (pa_listPools api (IPPoolDefaultLabel, []))) (\<lambda>pools.
       if length pools \<noteq> 1 \<or> pool_Name (pools ! 0) \<noteq> pool_Name p then ret ()
       else errorf ''Must ensure that there is at least one default ippool'')"

definition has_label :: "pool_object \<Rightarrow> string \<Rightarrow> bool" where
  "has_label p l = (map_of (po_Labels p) l \<noteq> None)"

definition ValidateUpdate :: "'s pool_api \<Rightarrow> pool_object \<Rightarrow> pool_object \<Rightarrow> ('s, unit) action" where
  "ValidateUpdate api oldP newP =
     (if pool_CIDR newP \<noteq> pool_CIDR oldP then errorf ''cidr cannot be modified''
      else if pool_Type newP \<noteq> pool_Type oldP then errorf ''ippool type cannot be modified''
      else if pool_BlockSize newP \<noteq> pool_BlockSize oldP then errorf ''ippool blockSize cannot be modified''
      else if pool_RangeEnd newP \<noteq> pool_RangeEnd oldP \<or> pool_RangeStart newP \<noteq> pool_RangeStart oldP
      then errorf ''ippool rangeEnd/rangeStart cannot be modified''
      else (let defaultOld = has_label oldP IPPoolDefaultLabel; defaultNew = has_label newP IPPoolDefaultLabel in
            if \<not> defaultNew \<and> defaultOld \<noteq> defaultNew then validateDefaultIPPool api newP else ret ()))"

definition ValidateDelete :: "'s pool_api \<Rightarrow> pool_object \<Rightarrow> ('s, unit) action" where
  "ValidateDelete api p =
     (if st_Allocations (po_Status p) > 0 then errorf ''ippool is in use, please remove the workload before deleting''
      else validateDefaultIPPool api p)"

section \<open>Processing a pool\<close>

definition AddFinalizer :: "string \<Rightarrow> string list \<Rightarrow> string list" where
  "AddFinalizer finalizer f = (if finalizer \<in> set f then f else f @ [finalizer])"

definition RemoveFinalizer :: "string \<Rightarrow> string list \<Rightarrow> string list" where
  "RemoveFinalizer finalizer f = removeAll finalizer f"

definition labelled :: "pool_object \<Rightarrow> pool_object" where
  "labelled p =
     p\<lparr>po_Finalizers := AddFinalizer IPPoolFinalizer (po_Finalizers p),
       po_Labels := AList.update IPPoolIDLabel (id_text p)
         (AList.update IPPoolTypeLabel (pool_Type p) (AList.update IPPoolNameLabel (pool_Name p) (po_Labels p)))\<rparr>"

definition addFinalizer :: "'s pool_api \<Rightarrow> pool_object \<Rightarrow> ('s, unit) action" where
  "addFinalizer api p = call_api (pa_updatePool api (labelled p))"

definition removeFinalizer :: "'s pool_api \<Rightarrow> pool_object \<Rightarrow> ('s, unit) action" where
  "removeFinalizer api p = call_api (pa_updatePool api (p\<lparr>po_Finalizers := RemoveFinalizer IPPoolFinalizer (po_Finalizers p)\<rparr>))"

definition disableIPPool :: "'s pool_api \<Rightarrow> pool_object \<Rightarrow> ('s, unit) action" where
  "disableIPPool api old =
     (if pool_Disabled old then ret () else call_api (pa_updatePool api (old\<lparr>pool_Disabled := True\<rparr>)))"

definition updateIPPoolStatus :: "'s pool_api \<Rightarrow> 's pool_provider \<Rightarrow> pool_object \<Rightarrow> ('s, unit) action" where
  "updateIPPoolStatus api provider old =
     seq (pp_GetIPPoolStats provider old) (\<lambda>new.
       if po_Status old = po_Status new then ret () else call_api (pa_updateStatus api new))"

text \<open>The result of processing: a delay in seconds, and an error; the code can return both.\<close>

type_synonym process_result = "nat option \<times> ipam_error option"

definition report :: "nat option \<Rightarrow> ('s, unit) action \<Rightarrow> ('s, process_result) action" where
  "report delay act = attempt act (\<lambda>r. ret (delay, case r of Inl e \<Rightarrow> Some e | Inr _ \<Rightarrow> None))"

definition or_report :: "('s, 'a) action \<Rightarrow> ('a \<Rightarrow> ('s, process_result) action) \<Rightarrow> ('s, process_result) action" where
  "or_report act k = attempt act (\<lambda>r. case r of Inl e \<Rightarrow> ret (None, Some e) | Inr a \<Rightarrow> k a)"

definition process_deleting :: "'s pool_api \<Rightarrow> 's pool_provider \<Rightarrow> pool_object \<Rightarrow> ('s, process_result) action" where
  "process_deleting api provider p =
     or_report (disableIPPool api p) (\<lambda>_.
       or_report (pp_DeleteIPPool provider p) (\<lambda>canDelete.
         if canDelete then report None (removeFinalizer api p)
         else report (Some 3) (updateIPPoolStatus api provider p)))"

definition processIPPool :: "'s pool_api \<Rightarrow> 's pool_provider \<Rightarrow> string \<Rightarrow> ('s, process_result) action" where
  "processIPPool api provider name =
     attempt (call_api (pa_getPool api name)) (\<lambda>r.
       case r of
         Inl e \<Rightarrow> ret (None, if e = Api NotFound then None else Some e)
       | Inr p \<Rightarrow>
           (if pool_Type_of (pool_spec p) \<noteq> pp_Type provider then ret (None, None)
            else if IsDeletionCandidate p IPPoolFinalizer then process_deleting api provider p
            else if NeedToAddFinalizer p IPPoolFinalizer
            then or_report (addFinalizer api p) (\<lambda>_.
                   or_report (pp_CreateIPPool provider p) (\<lambda>_. report None (updateIPPoolStatus api provider p)))
            else or_report (pp_UpdateIPPool provider p) (\<lambda>_. report None (updateIPPoolStatus api provider p))))"

datatype queue_action = Forget | AddAfter nat | AddRateLimited

definition processIPPoolItem :: "'s pool_api \<Rightarrow> 's pool_provider \<Rightarrow> string \<Rightarrow> ('s, queue_action) action" where
  "processIPPoolItem api provider key =
     seq (processIPPool api provider key) (\<lambda>(delay, err).
       ret (case err of
              None \<Rightarrow> Forget
            | Some e \<Rightarrow> (case delay of Some d \<Rightarrow> AddAfter d | None \<Rightarrow> AddRateLimited)))"

section \<open>Namespaces and events\<close>

definition ns_pools :: "'s pool_api \<Rightarrow> ns_object \<Rightarrow> ('s, string list) action" where
  "ns_pools api ns =
     (if map_get [] (nso_Labels ns) pool_WorkspaceLabel \<noteq> []
      then seq (call_api (pa_cachedPools api (IPPoolDefaultLabel, []))) (\<lambda>pools.
             ret (map pool_Name (filter (\<lambda>p. st_Synced (po_Status p)) pools)))
      else ret [])"

text \<open>Another error than not found leaves no namespace to go on with.\<close>

definition processNS :: "'s pool_api \<Rightarrow> 's pool_provider \<Rightarrow> string \<Rightarrow> ('s, unit) action" where
  "processNS api provider name =
     attempt (call_api (pa_getNamespace api name)) (\<lambda>r.
       case r of
         Inl e \<Rightarrow> if e = Api NotFound then ret () else or_panic None
       | Inr ns \<Rightarrow>
           seq (ns_pools api ns) (\<lambda>poolsName.
             seq (pp_UpdateNamespace provider ns poolsName) (\<lambda>clone.
               if clone = ns then ret () else call_api (pa_updateNamespace api clone))))"

definition processNSItem :: "'s pool_api \<Rightarrow> 's pool_provider \<Rightarrow> string \<Rightarrow> ('s, queue_action) action" where
  "processNSItem api provider key =
     attempt (processNS api provider key) (\<lambda>r. ret (case r of Inl e \<Rightarrow> AddRateLimited | Inr _ \<Rightarrow> Forget))"

text \<open>What an event puts into the queue of namespaces and into the queue of pools.\<close>

definition enqueueNamespace :: "ns_object option \<Rightarrow> ns_object \<Rightarrow> string list" where
  "enqueueNamespace old new =
     (let workspaceOld = (case old of None \<Rightarrow> [] | Some nsOld \<Rightarrow> map_get [] (nso_Labels nsOld) pool_WorkspaceLabel);
          workspaceNew = map_get [] (nso_Labels new) pool_WorkspaceLabel
      in if workspaceOld \<noteq> workspaceNew then [nso_Name new] else [])"

definition enqueueIPAMBlocks :: "ipam_block \<Rightarrow> string list" where
  "enqueueIPAMBlocks block = [bk_PoolLabel block]"

definition enqueueWorkspace :: "string \<Rightarrow> pool_object list \<Rightarrow> string list" where
  "enqueueWorkspace ws pools = map pool_Name (filter (\<lambda>p. map_of (po_Labels p) pool_WorkspaceLabel = Some ws) pools)"

definition on_pool_update :: "ns_object list \<Rightarrow> pool_object \<Rightarrow> pool_object \<Rightarrow> string list \<times> string list" where
  "on_pool_update nss old new =
     (if has_label old IPPoolDefaultLabel \<noteq> has_label new IPPoolDefaultLabel then concat (map (enqueueNamespace None) nss) else [],
      [pool_Name new])"

definition on_pool_delete :: "ns_object list \<Rightarrow> pool_object \<Rightarrow> string list" where
  "on_pool_delete nss p = (if has_label p IPPoolDefaultLabel then concat (map (enqueueNamespace None) nss) else [])"

section \<open>The webhook\<close>

datatype operation = CreateOp | UpdateOp | DeleteOp | ConnectOp

text \<open>An admission request for a pool: objects that do not decode are \<^const>\<open>None\<close>.\<close>

record pool_review =
  rv_Operation :: operation
  rv_Create :: "create_request option"
  rv_Object :: "pool_object option"
  rv_OldObject :: "pool_object option"

datatype admission_response = Allowed | Denied ipam_error | Errored | NotRegistered

definition denied_on_error :: "('s, unit) action \<Rightarrow> ('s, admission_response) action" where
  "denied_on_error act = attempt act (\<lambda>r. ret (case r of Inl e \<Rightarrow> Denied e | Inr _ \<Rightarrow> Allowed))"

definition webhook_Handle :: "'s pool_api option \<Rightarrow> pool_review \<Rightarrow> ('s, admission_response) action" where
  "webhook_Handle validator req =
     (case validator of
        None \<Rightarrow> ret NotRegistered
      | Some api \<Rightarrow>
          (case rv_Operation req of
             CreateOp \<Rightarrow>
               (case rv_Create req of None \<Rightarrow> ret Errored | Some q \<Rightarrow> denied_on_error (ValidateCreate api q))
           | UpdateOp \<Rightarrow>
               (case (rv_Object req, rv_OldObject req) of
                  (Some obj, Some oldObj) \<Rightarrow> denied_on_error (ValidateUpdate api oldObj obj)
                | _ \<Rightarrow> ret Errored)
           | DeleteOp \<Rightarrow>
               (case rv_OldObject req of None \<Rightarrow> ret Errored | Some obj \<Rightarrow> denied_on_error (ValidateDelete api obj))
           | ConnectOp \<Rightarrow> ret Allowed))"

section \<open>Which pools are accepted\<close>

lemma check_overlap_None: "check_overlap b ps = None \<longleftrightarrow> list_all (\<lambda>p. \<not> Overlapped (pool_spec b) (pool_spec p)) ps"
  by (induction b ps rule: check_overlap.induct) auto

text \<open>A range is given by both ends or not at all; both lie in the pool, in order.\<close>

definition range_ok :: "create_request \<Rightarrow> pool_object \<Rightarrow> bool" where
  "range_ok q b \<longleftrightarrow>
     cq_RangeStart q = NoAddress \<and> cq_RangeEnd q = NoAddress \<or>
     (\<exists>iStart iEnd i j. cq_RangeStart q = Address iStart \<and> cq_RangeEnd q = Address iEnd \<and>
        pool_IPToOrdinal (pool_spec b) iStart = Some i \<and> pool_IPToOrdinal (pool_spec b) iEnd = Some j \<and> i \<le> j)"

lemma ParseIP_text_Some [simp]: "ParseIP_text t = Some ip \<longleftrightarrow> t = Address ip"
  by (cases t) auto

lemma check_range_None: "check_range q b = None \<longleftrightarrow> range_ok q b"
  by (cases "cq_RangeStart q"; cases "cq_RangeEnd q") (auto simp: check_range_def range_ok_def split: option.splits)

lemma errorf_Returned [simp]: "fst (errorf e s) \<noteq> Returned x" "errorf e s \<noteq> (Returned x, s')"
  by (simp_all add: errorf_def fail_def)

lemma fst_seq_call:
  "fst (seq (call_api f) k s) = Returned x \<longleftrightarrow> (\<exists>a. fst (f s) = Inr a \<and> fst (k a (snd (f s))) = Returned x)"
  by (cases "f s") (auto simp: seq_def attempt_def call_api_def fail_def split: sum.splits)

lemma ValidateCreate_accepted:
  "fst (ValidateCreate api q s) = Returned () \<longleftrightarrow>
     (\<exists>c pools. cq_CIDR q = Some c \<and> \<not> (is_V4 (c_IP c) \<and> c_Ones c = 32) \<and>
        (pool_BlockSize (cq_Object q) = 0 \<or> c_Ones c \<le> pool_BlockSize (cq_Object q)) \<and>
        range_ok q (requested_pool q c) \<and>
        fst (pa_listPools api (IPPoolIDLabel, id_text (requested_pool q c)) s) = Inr pools \<and>
        list_all (\<lambda>p. \<not> Overlapped (pool_spec (requested_pool q c)) (pool_spec p)) pools)"
proof (cases "cq_CIDR q")
  case None
  then show ?thesis by (simp add: ValidateCreate_def)
next
  case (Some c)
  have checked: "fst ((case check_overlap b pools of Some e \<Rightarrow> errorf e | None \<Rightarrow> ret ()) t) = Returned () \<longleftrightarrow>
      list_all (\<lambda>p. \<not> Overlapped (pool_spec b) (pool_spec p)) pools" for b pools t
    by (simp add: check_overlap_None [symmetric] ret_def split: option.splits)
  have size: "pool_BlockSize (requested_pool q c) = pool_BlockSize (cq_Object q)" by (simp add: requested_pool_def)
  show ?thesis
  proof (cases "check_range q (requested_pool q c)")
    case None
    then have "range_ok q (requested_pool q c)" by (simp add: check_range_None)
    then show ?thesis by (auto simp: ValidateCreate_def Some None Let_def ParseCIDR_def size fst_seq_call checked)
  next
    case (Some e)
    then have "\<not> range_ok q (requested_pool q c)" using check_range_None [of q "requested_pool q c"] by simp
    then show ?thesis by (simp add: ValidateCreate_def \<open>cq_CIDR q = Some c\<close> Some Let_def ParseCIDR_def)
  qed
qed

text \<open>
  a new pool is accepted exactly when its CIDR parses and leaves room for more than one IPv4 address, its block size is not
  larger than the pool, its range is given by both ends, in order and inside the pool, and none of the pools that carry the label of its
  id overlaps it.
\<close>
theorem ValidateCreate_accepts_iff:
  "fst (ValidateCreate api q s) = Returned () \<longleftrightarrow>
     (\<exists>c pools. cq_CIDR q = Some c \<and> \<not> (is_V4 (c_IP c) \<and> c_Ones c = 32) \<and>
        (pool_BlockSize (cq_Object q) = 0 \<or> c_Ones c \<le> pool_BlockSize (cq_Object q)) \<and>
        range_ok q (requested_pool q c) \<and>
        fst (pa_listPools api (IPPoolIDLabel, id_text (requested_pool q c)) s) = Inr pools \<and>
        list_all (\<lambda>p. \<not> Overlapped (pool_spec (requested_pool q c)) (pool_spec p)) pools)"
  by (rule ValidateCreate_accepted)

section \<open>Deleting a pool\<close>

lemma follows_delete_blocks [follows_intro]: "follows api (delete_blocks api bs)"
  by (induction bs) (auto intro!: follows_intro)

context versioned_store
begin

lemma DeleteBlock_guarded:
  assumes "inv s" and "b \<in> seen s" and "DeleteBlock api b s = (Returned u, s')"
  shows "bk_Deleted b \<or> (b, block_MarkDeleted b) \<in> writes s'"
proof (cases "bk_Deleted b")
  case False
  then obtain v t where upd: "api_updateBlock api (block_MarkDeleted b) s = (Inr v, t)"
    and del: "api_deleteBlock api (bk_Name b) t = (Inr u, s')"
    using assms(3) by (auto simp: DeleteBlock_def result_iff)
  have "(b, block_MarkDeleted b) \<in> writes t"
    using updated [OF assms(1) upd assms(2)] by (simp add: block_MarkDeleted_def)
  moreover have "api_step api s t" using step_updateBlock [of api s "block_MarkDeleted b"] upd by simp
  then have "inv t" using step [OF assms(1)] by blast
  then have "writes t \<subseteq> writes s'" using step [of t s'] step_deleteBlock [of api t "bk_Name b"] del by simp
  ultimately show ?thesis by blast
qed simp

lemma delete_blocks_guarded:
  "inv s \<Longrightarrow> set bs \<subseteq> seen s \<Longrightarrow> delete_blocks api bs s = (Returned True, s') \<Longrightarrow>
   \<forall>b \<in> set bs. block_Empty b = Some True \<and> (bk_Deleted b \<or> (b, block_MarkDeleted b) \<in> writes s')"
proof (induction bs arbitrary: s)
  case (Cons b bs)
  from Cons.prems(3) obtain u t where empty: "block_Empty b = Some True" and del: "DeleteBlock api b s = (Returned u, t)"
    and rest: "delete_blocks api bs t = (Returned True, s')"
    by (auto simp: result_iff split: if_splits)
  note t = run [OF follows_store(2) del Cons.prems(1)]
  have "bk_Deleted b \<or> (b, block_MarkDeleted b) \<in> writes t"
    using DeleteBlock_guarded [OF Cons.prems(1) _ del] Cons.prems(2) by simp
  then have "bk_Deleted b \<or> (b, block_MarkDeleted b) \<in> writes s'"
    using run(3) [OF follows_delete_blocks rest t(1)] by blast
  then show ?case using Cons.IH [OF t(1) _ rest] Cons.prems(2) t(2) empty by auto
qed simp

end

text \<open>
  What the controller promises of a stretch of a run: every pool it has had accepted keeps the finalizer, and every block it has had
  removed was seen to be empty and was either marked as deleted before or marked by an accepted write of exactly that version.
\<close>

definition seen_empty :: "(ipam_block \<times> ipam_block) set \<Rightarrow> ipam_block \<Rightarrow> bool" where
  "seen_empty ws b \<longleftrightarrow> block_Empty b = Some True \<and> (bk_Deleted b \<or> (b, block_MarkDeleted b) \<in> ws)"

definition tidy ::
  "('s \<Rightarrow> bool) \<Rightarrow> ('s \<Rightarrow> ipam_block set) \<Rightarrow> ('s \<Rightarrow> (ipam_block \<times> ipam_block) set) \<Rightarrow> ('s \<Rightarrow> pool_object set) \<Rightarrow> ('s \<Rightarrow> block_key set) \<Rightarrow>
   's \<Rightarrow> 's \<Rightarrow> bool" where
  "tidy ok seen writes accepted removed s s' \<longleftrightarrow>
     (ok s \<longrightarrow> ok s' \<and> seen s \<subseteq> seen s' \<and> writes s \<subseteq> writes s' \<and> removed s \<subseteq> removed s' \<and>
        (\<forall>p \<in> accepted s' - accepted s. IPPoolFinalizer \<in> set (po_Finalizers p)) \<and>
        (\<forall>k \<in> removed s' - removed s. \<exists>b \<in> seen s'. bk_Name b = k \<and> seen_empty (writes s') b))"

lemma seen_empty_mono: "seen_empty ws b \<Longrightarrow> ws \<subseteq> ws' \<Longrightarrow> seen_empty ws' b"
  by (auto simp: seen_empty_def)

lemma tidy_refl: "tidy ok seen writes accepted removed s s"
  by (simp add: tidy_def)

lemma tidy_trans:
  assumes "tidy ok seen writes accepted removed s t" and "tidy ok seen writes accepted removed t u"
  shows "tidy ok seen writes accepted removed s u"
proof (cases "ok s")
  case True
  have t: "ok t" "seen t \<subseteq> seen u" "writes t \<subseteq> writes u" using assms True unfolding tidy_def by blast+
  have "\<exists>b \<in> seen u. bk_Name b = k \<and> seen_empty (writes u) b" if k: "k \<in> removed u - removed s" for k
  proof (cases "k \<in> removed t")
    case True
    then obtain b where "b \<in> seen t" "bk_Name b = k" "seen_empty (writes t) b" using assms(1) k \<open>ok s\<close> unfolding tidy_def by blast
    then show ?thesis using t seen_empty_mono [of "writes t" b "writes u"] by blast
  next
    case False
    then show ?thesis using assms(2) k \<open>ok t\<close> unfolding tidy_def by blast
  qed
  moreover have "IPPoolFinalizer \<in> set (po_Finalizers p)" if "p \<in> accepted u - accepted s" for p
    using that assms True \<open>ok t\<close> unfolding tidy_def by blast
  ultimately show ?thesis using assms True unfolding tidy_def by blast
qed (simp add: tidy_def)

lemma snd_attempt: "snd (attempt m f s) = (case m s of (Panicked, t) \<Rightarrow> t | (Returned a, t) \<Rightarrow> snd (f (Inr a) t) | (Failed e, t) \<Rightarrow> snd (f (Inl e) t))"
  by (simp add: attempt_def split: prod.splits outcome.splits)

lemma tidy_attempt:
  assumes "tidy ok seen writes accepted removed s (snd (m s))"
    and "\<And>r. tidy ok seen writes accepted removed (snd (m s)) (snd (f r (snd (m s))))"
  shows "tidy ok seen writes accepted removed s (snd (attempt m f s))"
proof (cases "m s")
  case (Pair x t)
  then show ?thesis
    using assms tidy_trans [of ok seen writes accepted removed s t] by (cases x) (auto simp: snd_attempt)
qed

lemma tidy_seq:
  assumes "tidy ok seen writes accepted removed s (snd (m s))"
    and "\<And>a t. m s = (Returned a, t) \<Longrightarrow> tidy ok seen writes accepted removed t (snd (f a t))"
  shows "tidy ok seen writes accepted removed s (snd (seq m f s))"
proof (cases "m s")
  case (Pair x t)
  then show ?thesis
    using assms tidy_trans [of ok seen writes accepted removed s t]
    by (cases x) (auto simp: seq_def snd_attempt fail_def)
qed

text \<open>
  A server of pools and blocks that records the pools and the removals of blocks it has accepted. What it answers is up to it.
\<close>

locale pool_server = versioned_store ipam inv seen writes
  for ipam :: "'s ipam_api" and inv :: "'s \<Rightarrow> bool" and seen :: "'s \<Rightarrow> ipam_block set"
    and writes :: "'s \<Rightarrow> (ipam_block \<times> ipam_block) set" +
  fixes pools :: "'s pool_api"
    and accepted :: "'s \<Rightarrow> pool_object set"
    and removed :: "'s \<Rightarrow> block_key set"
  assumes pool_calls: "inv s \<Longrightarrow>
      s' \<in> {snd (pa_getPool pools n s), snd (pa_updateStatus pools p s), snd (pa_updatePool pools p s)} \<Longrightarrow>
      inv s' \<and> seen s \<subseteq> seen s' \<and> writes s \<subseteq> writes s' \<and> removed s' = removed s"
    and only_updates: "inv s \<Longrightarrow>
      accepted (snd (pa_getPool pools n s)) = accepted s \<and> accepted (snd (pa_updateStatus pools p s)) = accepted s \<and>
      accepted (snd (pa_updatePool pools p s)) \<subseteq> insert p (accepted s)"
    and recorded: "inv s \<Longrightarrow> pa_updatePool pools p s = (Inr u, s') \<Longrightarrow> p \<in> accepted s'"
    and block_calls: "inv s \<Longrightarrow>
      s' \<in> {snd (api_listPools ipam n s), snd (api_listBlocks ipam n s), snd (api_updateBlock ipam b s)} \<Longrightarrow>
      accepted s' = accepted s \<and> removed s' = removed s"
    and only_deletes: "inv s \<Longrightarrow> s' = snd (api_deleteBlock ipam k s) \<Longrightarrow>
      accepted s' = accepted s \<and> removed s \<subseteq> removed s' \<and> removed s' \<subseteq> insert k (removed s)"
    and deleted: "inv s \<Longrightarrow> api_deleteBlock ipam k s = (Inr u, s') \<Longrightarrow> k \<in> removed s'"
begin

abbreviation orderly :: "'s \<Rightarrow> 's \<Rightarrow> bool" where
  "orderly \<equiv> tidy inv seen writes accepted removed"

lemma orderly_calls:
  "orderly s (snd (pa_getPool pools n s))" "orderly s (snd (pa_updateStatus pools p s))"
  "IPPoolFinalizer \<in> set (po_Finalizers p) \<Longrightarrow> orderly s (snd (pa_updatePool pools p s))"
  using pool_calls [of s _ n p] only_updates [of s n p] unfolding tidy_def by blast+

lemma orderly_reads:
  "orderly s (snd (api_listPools ipam n s))" "orderly s (snd (api_listBlocks ipam n s))" "orderly s (snd (api_updateBlock ipam b s))"
  using block_calls [of s _ n b] step [OF _ step_listPools, of s n] step [OF _ step_listBlocks, of s n] step [OF _ step_updateBlock, of s b]
  unfolding tidy_def by blast+

lemma orderly_delete:
  assumes "bk_Name b = k" and "b \<in> seen s" and "seen_empty (writes s) b"
  shows "orderly s (snd (api_deleteBlock ipam k s))"
  unfolding tidy_def
proof
  assume inv: "inv s"
  note st = step [OF inv step_deleteBlock, of k]
  have "b \<in> seen (snd (api_deleteBlock ipam k s))" "seen_empty (writes (snd (api_deleteBlock ipam k s))) b"
    using st assms seen_empty_mono by blast+
  then show "inv (snd (api_deleteBlock ipam k s)) \<and> seen s \<subseteq> seen (snd (api_deleteBlock ipam k s)) \<and>
      writes s \<subseteq> writes (snd (api_deleteBlock ipam k s)) \<and> removed s \<subseteq> removed (snd (api_deleteBlock ipam k s)) \<and>
      (\<forall>p \<in> accepted (snd (api_deleteBlock ipam k s)) - accepted s. IPPoolFinalizer \<in> set (po_Finalizers p)) \<and>
      (\<forall>j \<in> removed (snd (api_deleteBlock ipam k s)) - removed s. \<exists>b \<in> seen (snd (api_deleteBlock ipam k s)).
         bk_Name b = j \<and> seen_empty (writes (snd (api_deleteBlock ipam k s))) b)"
    using st only_deletes [OF inv refl, of k] assms(1) by blast
qed

lemma DeleteBlock_orderly:
  assumes "inv s" and "b \<in> seen s" and "block_Empty b = Some True"
  shows "orderly s (snd (DeleteBlock ipam b s))"
proof (cases "bk_Deleted b")
  case True
  then show ?thesis using orderly_delete [of b "bk_Name b" s] assms by (simp add: DeleteBlock_def seen_empty_def)
next
  case False
  have "orderly t (snd (call_api (api_deleteBlock ipam (bk_Name b)) t))"
    if upd: "call_api (api_updateBlock ipam (block_MarkDeleted b)) s = (Returned u, t)" for u t
  proof -
    have r: "api_updateBlock ipam (block_MarkDeleted b) s = (Inr u, t)" using upd by (auto simp: result_iff)
    then have "(b, block_MarkDeleted b) \<in> writes t"
      using updated [OF assms(1) r assms(2)] by (simp add: block_MarkDeleted_def)
    moreover have "b \<in> seen t" using step [OF assms(1) step_updateBlock, of "block_MarkDeleted b"] r assms(2) by auto
    ultimately show ?thesis using orderly_delete [of b "bk_Name b" t] assms(3) by (simp add: seen_empty_def)
  qed
  then have "orderly s (snd (seq (call_api (api_updateBlock ipam (block_MarkDeleted b))) (\<lambda>_. call_api (api_deleteBlock ipam (bk_Name b))) s))"
    using orderly_reads(3) [of s "block_MarkDeleted b"] by (intro tidy_seq) simp_all
  then show ?thesis using False by (simp add: DeleteBlock_def)
qed

lemma delete_blocks_orderly:
  "inv s \<Longrightarrow> set bs \<subseteq> seen s \<Longrightarrow> orderly s (snd (delete_blocks ipam bs s))"
proof (induction bs arbitrary: s)
  case Nil
  then show ?case by (simp add: tidy_refl ret_def)
next
  case (Cons b bs)
  show ?case
  proof (cases "block_Empty b = Some True")
    case True
    have "orderly t (snd (delete_blocks ipam bs t))" if "DeleteBlock ipam b s = (Returned u, t)" for u t
      using Cons.IH [of t] run [OF follows_store(2) that Cons.prems(1)] Cons.prems(2) by auto
    then have "orderly s (snd (seq (DeleteBlock ipam b) (\<lambda>_. delete_blocks ipam bs) s))"
      using DeleteBlock_orderly [OF Cons.prems(1) _ True] Cons.prems(2) by (intro tidy_seq) auto
    then show ?thesis using True by (simp add: seq_def attempt_def or_panic_def ret_def)
  next
    case False
    then show ?thesis by (cases "block_Empty b") (auto simp: seq_def attempt_def or_panic_def ret_def tidy_refl)
  qed
qed

lemma local_DeleteIPPool_orderly: "orderly s (snd (local_DeleteIPPool ipam p s))"
proof (cases "inv s")
  case True
  have "orderly t (snd (delete_blocks ipam bs t))" if "ListBlocks ipam (pool_Name p) s = (Returned bs, t)" for bs t
  proof -
    have l: "api_listBlocks ipam (pool_Name p) s = (Inr bs, t)" using that by (auto simp: ListBlocks_def result_iff)
    then have "inv t" using step [OF True step_listBlocks, of "pool_Name p"] by simp
    then show ?thesis using delete_blocks_orderly listed [OF True l] by blast
  qed
  then show ?thesis
    unfolding local_DeleteIPPool_def by (intro tidy_seq) (simp_all add: ListBlocks_def orderly_reads)
qed (simp add: tidy_def)

lemma delete_blocks_removed:
  "inv s \<Longrightarrow> delete_blocks ipam bs s = (Returned True, s') \<Longrightarrow> set bs \<subseteq> seen s \<Longrightarrow> bk_Name ` set bs \<subseteq> removed s'"
proof (induction bs arbitrary: s)
  case (Cons b bs)
  from Cons.prems(2) obtain u t where empty: "block_Empty b = Some True" and del: "DeleteBlock ipam b s = (Returned u, t)"
    and rest: "delete_blocks ipam bs t = (Returned True, s')"
    by (auto simp: result_iff split: if_splits)
  note t = run [OF follows_store(2) del Cons.prems(1)]
  obtain s1 where "inv s1" "api_deleteBlock ipam (bk_Name b) s1 = (Inr u, t)"
    using del Cons.prems(1) step [OF Cons.prems(1) step_updateBlock, of "block_MarkDeleted b"]
    by (auto simp: DeleteBlock_def result_iff split: if_splits)
  then have "bk_Name b \<in> removed t" using deleted by blast
  moreover have "removed t \<subseteq> removed s'"
    using delete_blocks_orderly [OF t(1), of bs] Cons.prems(3) t(1,2) rest unfolding tidy_def by auto
  moreover have "bk_Name ` set bs \<subseteq> removed s'" using Cons.IH [OF t(1) rest] Cons.prems(3) t(2) by auto
  ultimately show ?case by auto
qed simp

lemma local_DeleteIPPool_emptied:
  assumes "inv s" and "local_DeleteIPPool ipam p s = (Returned True, s')"
  shows "\<exists>bs t. api_listBlocks ipam (pool_Name p) s = (Inr bs, t) \<and> (\<forall>b \<in> set bs. seen_empty (writes s') b \<and> bk_Name b \<in> removed s')"
proof -
  obtain bs t where bs: "api_listBlocks ipam (pool_Name p) s = (Inr bs, t)" and del: "delete_blocks ipam bs t = (Returned True, s')"
    using assms(2) by (auto simp: local_DeleteIPPool_def ListBlocks_def result_iff)
  have t: "inv t" "set bs \<subseteq> seen t"
    using step [OF assms(1) step_listBlocks [of ipam s "pool_Name p"]] listed [OF assms(1) bs] bs by simp_all
  from delete_blocks_guarded [OF t del] delete_blocks_removed [OF t(1) del t(2)] bs show ?thesis
    unfolding seen_empty_def by blast
qed

lemma updateIPPoolStatus_orderly: "orderly s (snd (updateIPPoolStatus pools (local_provider ipam) p s))"
proof -
  have loop: "orderly t (snd (utilization_loop ipam us t))" for us t
    by (induction us arbitrary: t) (auto intro!: tidy_seq simp: tidy_refl ret_def ListBlocks_def orderly_reads or_panic_def split: option.splits)
  have "orderly t (snd (GetUtilization ipam VLAN ps t))" for ps t
    unfolding GetUtilization_def by (intro tidy_seq) (auto simp: orderly_reads loop tidy_refl fail_def)
  then have "orderly t (snd (local_GetIPPoolStats ipam p t))" for t
    unfolding local_GetIPPoolStats_def by (intro tidy_seq) (auto simp: tidy_refl ret_def or_panic_def split: option.splits)
  then show ?thesis
    unfolding updateIPPoolStatus_def local_provider_def by (intro tidy_seq) (auto simp: tidy_refl ret_def orderly_calls)
qed

lemma report_orderly: "orderly s (snd (act s)) \<Longrightarrow> orderly s (snd (report d act s))"
  unfolding report_def by (rule tidy_attempt) (simp_all add: ret_def tidy_refl)

lemma or_report_orderly:
  assumes "orderly s (snd (act s))" and "\<And>a. orderly (snd (act s)) (snd (k a (snd (act s))))"
  shows "orderly s (snd (or_report act k s))"
  unfolding or_report_def by (rule tidy_attempt) (simp_all add: ret_def tidy_refl assms split: sum.splits)

lemma disableIPPool_orderly:
  "IPPoolFinalizer \<in> set (po_Finalizers p) \<Longrightarrow> orderly s (snd (disableIPPool pools p s))"
  using orderly_calls(3) [of "p\<lparr>pool_Disabled := True\<rparr>"] by (simp add: disableIPPool_def ret_def tidy_refl)

text \<open>Only giving up the finalizer at the end of a deletion is not covered by the promise.\<close>

lemma removeFinalizer_after:
  assumes "orderly s t" and "inv s" and "snd (removeFinalizer pools p t) = s'"
  shows "seen t \<subseteq> seen s' \<and> writes t \<subseteq> writes s' \<and> removed s' = removed t \<and>
     (\<forall>q \<in> accepted s' - accepted s. IPPoolFinalizer \<in> set (po_Finalizers q) \<or>
        q = p\<lparr>po_Finalizers := RemoveFinalizer IPPoolFinalizer (po_Finalizers p)\<rparr>)"
proof -
  let ?q = "p\<lparr>po_Finalizers := RemoveFinalizer IPPoolFinalizer (po_Finalizers p)\<rparr>"
  have s': "s' = snd (pa_updatePool pools ?q t)" using assms(3) by (simp add: removeFinalizer_def)
  have t: "inv t" "\<forall>q \<in> accepted t - accepted s. IPPoolFinalizer \<in> set (po_Finalizers q)"
    using assms(1,2) unfolding tidy_def by blast+
  have "accepted s' \<subseteq> insert ?q (accepted t)" using only_updates [OF t(1), of _ ?q] s' by blast
  then show ?thesis using pool_calls [OF t(1), of s' _ ?q] s' t(2) by blast
qed

lemma process_deleting_cases:
  assumes "IPPoolFinalizer \<in> set (po_Finalizers p)" and "process_deleting pools (local_provider ipam) p s = (r, s')"
  shows "orderly s s' \<or>
     (\<exists>t u. disableIPPool pools p s = (Returned (), t) \<and> local_DeleteIPPool ipam p t = (Returned True, u) \<and>
        snd (removeFinalizer pools p u) = s')"
proof -
  obtain x t where dis: "disableIPPool pools p s = (x, t)" by (metis surj_pair)
  have t: "orderly s t" using disableIPPool_orderly [OF assms(1), of s] dis by simp
  obtain y u where del: "local_DeleteIPPool ipam p t = (y, u)" by (metis surj_pair)
  have u: "orderly s u" using tidy_trans [OF t] local_DeleteIPPool_orderly [of t p] del by simp
  have del': "pp_DeleteIPPool (local_provider ipam) p t = (y, u)" using del by (simp add: local_provider_def)
  have "orderly s s'" if "\<not> (x = Returned () \<and> y = Returned True)"
  proof (cases "x = Returned () \<and> y = Returned False")
    case True
    then have "s' = snd (report (Some 3) (updateIPPoolStatus pools (local_provider ipam) p) u)"
      using assms(2) by (simp add: process_deleting_def or_report_def attempt_def dis del')
    then show ?thesis using tidy_trans [OF u] report_orderly [of u "updateIPPoolStatus pools (local_provider ipam) p"]
        updateIPPoolStatus_orderly [of u p] by simp
  next
    case False
    then have "s' = t \<or> s' = u" using assms(2) that
      by (cases x; cases y) (auto simp: process_deleting_def or_report_def attempt_def dis del' ret_def)
    then show ?thesis using t u by blast
  qed
  moreover have "s' = snd (removeFinalizer pools p u)" if "x = Returned ()" "y = Returned True"
    using that assms(2)
    by (cases "removeFinalizer pools p u"; cases "fst (removeFinalizer pools p u)")
       (auto simp: process_deleting_def or_report_def report_def attempt_def dis del' ret_def)
  ultimately show ?thesis using dis del by blast
qed

lemma processIPPool_cases:
  assumes "processIPPool pools (local_provider ipam) name s = (r, s')"
  shows "orderly s s' \<or>
     (\<exists>p t u v. pa_getPool pools name s = (Inr p, t) \<and> IsDeletionCandidate p IPPoolFinalizer \<and>
        disableIPPool pools p t = (Returned (), u) \<and> local_DeleteIPPool ipam p u = (Returned True, v) \<and>
        snd (removeFinalizer pools p v) = s')"
proof -
  obtain g t where get: "pa_getPool pools name s = (g, t)" by (metis surj_pair)
  have t: "orderly s t" using orderly_calls(1) [of s name] get by simp
  have "orderly t (snd (ret x t))" for x :: process_result by (simp add: ret_def tidy_refl)
  note from_t = tidy_trans [OF t]
  show ?thesis
  proof (cases "\<exists>p. g = Inr p \<and> pool_Type_of (pool_spec p) = pp_Type (local_provider ipam) \<and> IsDeletionCandidate p IPPoolFinalizer")
    case True
    then obtain p where p: "g = Inr p" "IsDeletionCandidate p IPPoolFinalizer" and "process_deleting pools (local_provider ipam) p t = (r, s')"
      using assms by (auto simp: processIPPool_def attempt_def call_api_def get)
    then show ?thesis using process_deleting_cases [of p t r s'] from_t get by (auto simp: IsDeletionCandidate_def)
  next
    case False
    have added: "IPPoolFinalizer \<in> set (po_Finalizers (labelled p))" for p by (simp add: labelled_def AddFinalizer_def)
    have "orderly t (snd (or_report (addFinalizer pools p) (\<lambda>_. or_report (pp_CreateIPPool (local_provider ipam) p)
        (\<lambda>_. report None (updateIPPoolStatus pools (local_provider ipam) p))) t))" for p
      by (intro or_report_orderly report_orderly updateIPPoolStatus_orderly)
         (simp_all add: addFinalizer_def orderly_calls(3) [OF added] local_provider_def ret_def tidy_refl)
    moreover have "orderly t (snd (or_report (pp_UpdateIPPool (local_provider ipam) p)
        (\<lambda>_. report None (updateIPPoolStatus pools (local_provider ipam) p)) t))" for p
      by (intro or_report_orderly report_orderly updateIPPoolStatus_orderly) (simp_all add: local_provider_def ret_def tidy_refl)
    ultimately have "orderly t (snd (r, s'))"
      unfolding assms [symmetric] using False tidy_refl [of inv seen writes accepted removed t]
      by (cases g) (auto simp: processIPPool_def attempt_def call_api_def get ret_def)
    then show ?thesis using from_t by simp
  qed
qed

lemma processIPPool_finalizer:
  assumes "inv s" and "processIPPool pools (local_provider ipam) name s = (r, s')"
  shows "(\<forall>k \<in> removed s' - removed s. \<exists>b \<in> seen s'. bk_Name b = k \<and> seen_empty (writes s') b) \<and>
     (\<forall>q \<in> accepted s' - accepted s. IPPoolFinalizer \<in> set (po_Finalizers q) \<or>
        (\<exists>p t u bs v. pa_getPool pools name s = (Inr p, t) \<and> po_Deleting p \<and> disableIPPool pools p t = (Returned (), u) \<and>
           api_listBlocks ipam (pool_Name p) u = (Inr bs, v) \<and>
           q = p\<lparr>po_Finalizers := RemoveFinalizer IPPoolFinalizer (po_Finalizers p)\<rparr> \<and>
           (\<forall>b \<in> set bs. seen_empty (writes s') b \<and> bk_Name b \<in> removed s')))"
  using processIPPool_cases [OF assms(2)]
proof (elim disjE exE conjE)
  assume "orderly s s'"
  then show ?thesis using assms(1) unfolding tidy_def by blast
next
  fix p t u v
  assume get: "pa_getPool pools name s = (Inr p, t)" and cand: "IsDeletionCandidate p IPPoolFinalizer"
    and dis: "disableIPPool pools p t = (Returned (), u)" and del: "local_DeleteIPPool ipam p u = (Returned True, v)"
    and rem: "snd (removeFinalizer pools p v) = s'"
  have "orderly s u" using tidy_trans orderly_calls(1) [of s name] disableIPPool_orderly [of p t] cand get dis
    by (metis IsDeletionCandidate_def ContainsString_iff snd_conv)
  then have "inv u" and v: "orderly s v" using assms(1) tidy_trans [of inv seen writes accepted removed s u v] local_DeleteIPPool_orderly [of u p] del
    by (auto simp: tidy_def [of inv seen writes accepted removed s u])
  note last = removeFinalizer_after [OF v assms(1) rem]
  obtain bs w where bs: "api_listBlocks ipam (pool_Name p) u = (Inr bs, w)" "\<forall>b \<in> set bs. seen_empty (writes v) b \<and> bk_Name b \<in> removed v"
    using local_DeleteIPPool_emptied [OF \<open>inv u\<close> del] by blast
  then have emptied: "\<forall>b \<in> set bs. seen_empty (writes s') b \<and> bk_Name b \<in> removed s'" using last seen_empty_mono by blast
  have "\<forall>k \<in> removed s' - removed s. \<exists>b \<in> seen s'. bk_Name b = k \<and> seen_empty (writes s') b"
    using v assms(1) last seen_empty_mono unfolding tidy_def by blast
  then show ?thesis using last get cand dis bs(1) emptied unfolding IsDeletionCandidate_def by blast
qed

end

text \<open>
  C12: whatever comes of it, processing a local pool only ever has the server remove blocks that were seen to hold no address and
  were marked as deleted, before or by an accepted write of exactly the version that was seen, so that an address assigned in
  between keeps the block; and the finalizer of the pool is only given up, on a pool under deletion, when every block listed for it after it was disabled was
  such a block and has been removed.
\<close>
theorem pool_deleted_with_empty_blocks:
  assumes "pool_server ipam ok seen writes pools accepted removed" and "ok s"
    and "processIPPool pools (local_provider ipam) name s = (r, s')"
  shows "(\<forall>k \<in> removed s' - removed s. \<exists>b \<in> seen s'. bk_Name b = k \<and> seen_empty (writes s') b) \<and>
     (\<forall>q \<in> accepted s' - accepted s. IPPoolFinalizer \<in> set (po_Finalizers q) \<or>
        (\<exists>p t u bs v. pa_getPool pools name s = (Inr p, t) \<and> po_Deleting p \<and> disableIPPool pools p t = (Returned (), u) \<and>
           api_listBlocks ipam (pool_Name p) u = (Inr bs, v) \<and>
           q = p\<lparr>po_Finalizers := RemoveFinalizer IPPoolFinalizer (po_Finalizers p)\<rparr> \<and>
           (\<forall>b \<in> set bs. seen_empty (writes s') b \<and> bk_Name b \<in> removed s')))"
  using pool_server.processIPPool_finalizer [OF assms(1)] assms(2,3) by blast

text \<open>
  a pool that is still in use when it is to be deleted asks to be tried again after three seconds, but the delay is only
  looked at when there was an error as well: after its status was updated the key is forgotten.
\<close>
theorem pool_in_use_not_retried:
  assumes "pa_getPool api name s = (Inr p, s1)" and "pool_Type_of (pool_spec p) = pp_Type provider"
    and "IsDeletionCandidate p IPPoolFinalizer"
    and "disableIPPool api p s1 = (Returned (), s2)" and "pp_DeleteIPPool provider p s2 = (Returned False, s3)"
    and "updateIPPoolStatus api provider p s3 = (Returned (), s4)"
  shows "processIPPool api provider name s = (Returned (Some 3, None), s4) \<and>
     processIPPoolItem api provider name s = (Returned Forget, s4)"
proof -
  have "process_deleting api provider p s1 = (Returned (Some 3, None), s4)"
    using assms(4-6) by (simp add: process_deleting_def or_report_def report_def attempt_def ret_def)
  then have "processIPPool api provider name s = (Returned (Some 3, None), s4)"
    using assms(1-3) by (simp add: processIPPool_def attempt_def call_api_def)
  then show ?thesis by (simp add: processIPPoolItem_def seq_def attempt_def ret_def)
qed

end
