(* ===== verification/Ippool_Server.thy ===== *)
theory Ippool_Server
  imports Ippool_Controller
begin

text \<open>
  A server for pools, kept in memory on top of the one for IPAM objects: it accepts an update only for the stored version, keeps status and
  deletion out of ordinary updates, and removes a pool under deletion with its last finalizer. Users submit, change and delete pools
  through the webhook, the controller processes them.
\<close>

section \<open>The server\<close>

record pool_store =
  pst_next :: nat
  pst_pools :: "pool_object list"
  pst_namespaces :: "ns_object list"
  pst_ipam :: mem_store
  pst_accepted :: "pool_object list"

definition put_pool :: "pool_object \<Rightarrow> pool_store \<Rightarrow> pool_store" where
  "put_pool p s =
     s\<lparr>pst_next := Suc (pst_next s),
       pst_pools := (if po_Deleting p \<and> po_Finalizers p = [] then filter (\<lambda>q. pool_Name q \<noteq> pool_Name p) (pst_pools s)
                     else replace_named pool_Name (p\<lparr>po_ResourceVersion := pst_next s\<rparr>) (pst_pools s))\<rparr>"

definition find_pool :: "string \<Rightarrow> pool_store \<Rightarrow> pool_object option" where
  "find_pool name s = mem_find pool_Name name (pst_pools s)"

definition accept_pool :: "pool_object \<Rightarrow> pool_store \<Rightarrow> pool_store" where
  "accept_pool p s = s\<lparr>pst_accepted := p # pst_accepted s\<rparr>"

definition change_pool ::
  "(pool_object \<Rightarrow> pool_store \<Rightarrow> pool_store) \<Rightarrow> (pool_object \<Rightarrow> pool_object \<Rightarrow> pool_object) \<Rightarrow> pool_object \<Rightarrow> pool_store \<Rightarrow>
   (api_error, unit) result \<times> pool_store" where
  "change_pool record merge p s =
     (case find_pool (pool_Name p) s of
        None \<Rightarrow> (Inl NotFound, s)
      | Some p0 \<Rightarrow>
          (if po_ResourceVersion p0 \<noteq> po_ResourceVersion p then (Inl Conflict, s)
           else (Inr (), put_pool (merge p0 p) (record p s))))"

definition mem_updatePool :: "pool_object \<Rightarrow> pool_store \<Rightarrow> (api_error, unit) result \<times> pool_store" where
  "mem_updatePool = change_pool accept_pool (\<lambda>p0 p. p\<lparr>po_Status := po_Status p0, po_Deleting := po_Deleting p0\<rparr>)"

definition mem_updateStatus :: "pool_object \<Rightarrow> pool_store \<Rightarrow> (api_error, unit) result \<times> pool_store" where
  "mem_updateStatus = change_pool (\<lambda>p s. s) (\<lambda>p0 p. p0\<lparr>po_Status := po_Status p\<rparr>)"

definition selected_pools :: "string \<times> string \<Rightarrow> pool_store \<Rightarrow> pool_object list" where
  "selected_pools sel s = filter (\<lambda>p. map_of (po_Labels p) (fst sel) = Some (snd sel)) (pst_pools s)"

definition pools_api :: "pool_store pool_api" where
  "pools_api =
     \<lparr>pa_getPool = (\<lambda>n s. (found (find_pool n s), s)),
      pa_listPools = (\<lambda>sel s. (Inr (selected_pools sel s), s)),
      pa_cachedPools = (\<lambda>sel s. (Inr (selected_pools sel s), s)),
      pa_updatePool = mem_updatePool,
      pa_updateStatus = mem_updateStatus,
      pa_getNamespace = (\<lambda>n s. (found (mem_find nso_Name n (pst_namespaces s)), s)),
      pa_updateNamespace = (\<lambda>ns s. (Inr (), s\<lparr>pst_namespaces := replace_named nso_Name ns (pst_namespaces s)\<rparr>))\<rparr>"

definition on_ipam :: "(mem_store \<Rightarrow> 'a \<times> mem_store) \<Rightarrow> pool_store \<Rightarrow> 'a \<times> pool_store" where
  "on_ipam f s = (case f (pst_ipam s) of (r, m) \<Rightarrow> (r, s\<lparr>pst_ipam := m\<rparr>))"

definition pool_ipam :: "pool_store ipam_api" where
  "pool_ipam =
     \<lparr>api_getPool = (\<lambda>n s. (found (map_option pool_spec (find_pool n s)), s)),
      api_listPools = (\<lambda>t s. (Inr (map pool_spec (selected_pools (IPPoolTypeLabel, t) s)), s)),
      api_listBlocks = (\<lambda>p. on_ipam (api_listBlocks mem_api p)),
      api_getBlock = (\<lambda>k. on_ipam (api_getBlock mem_api k)),
      api_createBlock = (\<lambda>b. on_ipam (api_createBlock mem_api b)),
      api_updateBlock = (\<lambda>b. on_ipam (api_updateBlock mem_api b)),
      api_deleteBlock = (\<lambda>k. on_ipam (api_deleteBlock mem_api k)),
      api_getHandle = (\<lambda>n. on_ipam (api_getHandle mem_api n)),
      api_createHandle = (\<lambda>h. on_ipam (api_createHandle mem_api h)),
      api_updateHandle = (\<lambda>h. on_ipam (api_updateHandle mem_api h)),
      api_deleteHandle = (\<lambda>n. on_ipam (api_deleteHandle mem_api n))\<rparr>"

lemma accept_pool_simps [simp]:
  "pst_pools (accept_pool p s) = pst_pools s" "pst_ipam (accept_pool p s) = pst_ipam s" "pst_next (accept_pool p s) = pst_next s"
  "find_pool n (accept_pool p s) = find_pool n s" "pst_accepted (accept_pool p s) = p # pst_accepted s"
  by (simp_all add: accept_pool_def find_pool_def)

lemma put_pool_other [simp]: "pst_ipam (put_pool p s) = pst_ipam s" "pst_accepted (put_pool p s) = pst_accepted s"
  by (simp_all add: put_pool_def)

lemma snd_on_ipam: "snd (on_ipam f s) = s\<lparr>pst_ipam := snd (f (pst_ipam s))\<rparr>"
  by (simp add: on_ipam_def split: prod.splits)

text \<open>A call of the IPAM client changes only IPAM objects, as the server for these does.\<close>

lemma pool_ipam_step:
  assumes "api_step pool_ipam s s'"
  shows "s' = s \<or> (\<exists>m. s' = s\<lparr>pst_ipam := m\<rparr> \<and> api_step mem_api (pst_ipam s) m)"
  using assms
  by (cases rule: api_step.cases) (simp_all add: pool_ipam_def snd_on_ipam, (blast intro: api_step.intros)+)

lemma on_ipam_Inr: "on_ipam f s = (r, s') \<longleftrightarrow> (\<exists>m. f (pst_ipam s) = (r, m) \<and> s' = s\<lparr>pst_ipam := m\<rparr>)"
  by (auto simp: on_ipam_def split: prod.splits)

interpretation pool_blocks: versioned_store pool_ipam "\<lambda>s. mem_ok (pst_ipam s)"
  "\<lambda>s. set (ms_seen (pst_ipam s))" "\<lambda>s. set (ms_writes (pst_ipam s))"
proof
  fix s s' assume "mem_ok (pst_ipam s)" and "api_step pool_ipam s s'"
  then show "mem_ok (pst_ipam s') \<and> set (ms_seen (pst_ipam s)) \<subseteq> set (ms_seen (pst_ipam s')) \<and>
      set (ms_writes (pst_ipam s)) \<subseteq> set (ms_writes (pst_ipam s'))"
  proof -
    have "pst_ipam s' = pst_ipam s \<or> api_step mem_api (pst_ipam s) (pst_ipam s')"
      using pool_ipam_step [OF \<open>api_step pool_ipam s s'\<close>] by auto
    then show ?thesis using memory.step [OF \<open>mem_ok (pst_ipam s)\<close>, of "pst_ipam s'"] \<open>mem_ok (pst_ipam s)\<close> by fastforce
  qed
next
  fix s p bs s' assume "mem_ok (pst_ipam s)" and "api_listBlocks pool_ipam p s = (Inr bs, s')"
  then show "set bs \<subseteq> set (ms_seen (pst_ipam s'))"
    using memory.listed [of "pst_ipam s" p bs] by (auto simp: pool_ipam_def on_ipam_Inr)
next
  fix s k b s' assume "mem_ok (pst_ipam s)" and "api_getBlock pool_ipam k s = (Inr b, s')"
  then show "b \<in> set (ms_seen (pst_ipam s'))"
    using memory.got [of "pst_ipam s" k b] by (auto simp: pool_ipam_def on_ipam_Inr)
next
  fix s b0 b s' assume "mem_ok (pst_ipam s)" and "api_createBlock pool_ipam b0 s = (Inr b, s')"
  then show "b \<in> set (ms_seen (pst_ipam s'))"
    using memory.created [of "pst_ipam s" b0 b] by (auto simp: pool_ipam_def on_ipam_Inr)
next
  fix s b u s' b0
  assume "mem_ok (pst_ipam s)" and "api_updateBlock pool_ipam b s = (Inr u, s')" and "b0 \<in> set (ms_seen (pst_ipam s))"
    and "bk_Name b0 = bk_Name b" and "bk_ResourceVersion b0 = bk_ResourceVersion b"
  then show "(b0, b) \<in> set (ms_writes (pst_ipam s'))"
    using memory.updated [of "pst_ipam s" b u _ b0] by (auto simp: pool_ipam_def on_ipam_Inr)
qed

text \<open>The blocks that were there once and are not any more.\<close>

definition gone_blocks :: "mem_store \<Rightarrow> block_key set" where
  "gone_blocks m = bk_Name ` set (ms_seen m) - bk_Name ` set (ms_blocks m)"

lemma gone_deleteBlock:
  assumes "mem_ok m"
  shows "gone_blocks m \<subseteq> gone_blocks (snd (mem_deleteBlock k m))" and "gone_blocks (snd (mem_deleteBlock k m)) \<subseteq> insert k (gone_blocks m)"
    and "fst (mem_deleteBlock k m) = Inr u \<Longrightarrow> k \<in> gone_blocks (snd (mem_deleteBlock k m))"
proof -
  have "k \<in> bk_Name ` set (ms_seen m)" if "mem_find bk_Name k (ms_blocks m) = Some b" for b
    using mem_find_Some [OF that] assms by (auto simp: mem_ok_def)
  then show "gone_blocks m \<subseteq> gone_blocks (snd (mem_deleteBlock k m))" "gone_blocks (snd (mem_deleteBlock k m)) \<subseteq> insert k (gone_blocks m)"
    "fst (mem_deleteBlock k m) = Inr u \<Longrightarrow> k \<in> gone_blocks (snd (mem_deleteBlock k m))"
    by (auto simp: mem_deleteBlock_def gone_blocks_def split: option.splits)
qed

lemma gone_updateBlock:
  assumes "mem_ok m"
  shows "gone_blocks (snd (mem_updateBlock b m)) = gone_blocks m"
proof -
  have names: "bk_Name ` set (replace_named bk_Name c bs) = bk_Name ` set bs" for c :: ipam_block and bs
    by (induction bs) (auto simp: replace_named_def)
  have "bk_Name b \<in> bk_Name ` set (ms_seen m)" if "mem_find bk_Name (bk_Name b) (ms_blocks m) = Some b0" for b0
    using mem_find_Some [OF that] assms by (metis imageI mem_okD(1))
  then show ?thesis
    by (auto simp: mem_updateBlock_def gone_blocks_def names Let_def insert_absorb split: option.splits)
qed

lemma change_pool_frame:
  "pst_ipam (snd (change_pool record merge p s)) = pst_ipam s" if "\<And>p s. pst_ipam (record p s) = pst_ipam s"
  using that by (simp add: change_pool_def split: option.splits)

interpretation pool_memory: pool_server pool_ipam "\<lambda>s. mem_ok (pst_ipam s)"
  "\<lambda>s. set (ms_seen (pst_ipam s))" "\<lambda>s. set (ms_writes (pst_ipam s))" pools_api "\<lambda>s. set (pst_accepted s)" "\<lambda>s. gone_blocks (pst_ipam s)"
proof unfold_locales
  fix s s' :: pool_store and n p
  assume "mem_ok (pst_ipam s)" and "s' \<in> {snd (pa_getPool pools_api n s), snd (pa_updateStatus pools_api p s), snd (pa_updatePool pools_api p s)}"
  then show "mem_ok (pst_ipam s') \<and> set (ms_seen (pst_ipam s)) \<subseteq> set (ms_seen (pst_ipam s')) \<and>
      set (ms_writes (pst_ipam s)) \<subseteq> set (ms_writes (pst_ipam s')) \<and> gone_blocks (pst_ipam s') = gone_blocks (pst_ipam s)"
    by (auto simp: pools_api_def mem_updatePool_def mem_updateStatus_def change_pool_frame)
next
  fix s :: pool_store and n p
  show "set (pst_accepted (snd (pa_getPool pools_api n s))) = set (pst_accepted s) \<and>
      set (pst_accepted (snd (pa_updateStatus pools_api p s))) = set (pst_accepted s) \<and>
      set (pst_accepted (snd (pa_updatePool pools_api p s))) \<subseteq> insert p (set (pst_accepted s))"
    by (simp add: pools_api_def mem_updatePool_def mem_updateStatus_def change_pool_def subset_insertI split: option.splits)
next
  fix s s' :: pool_store and p u
  assume "pa_updatePool pools_api p s = (Inr u, s')"
  then show "p \<in> set (pst_accepted s')"
    by (auto simp: pools_api_def mem_updatePool_def change_pool_def split: option.splits if_splits)
next
  fix s s' :: pool_store and n b
  assume "mem_ok (pst_ipam s)" and "s' \<in> {snd (api_listPools pool_ipam n s), snd (api_listBlocks pool_ipam n s), snd (api_updateBlock pool_ipam b s)}"
  then show "set (pst_accepted s') = set (pst_accepted s) \<and> gone_blocks (pst_ipam s') = gone_blocks (pst_ipam s)"
    using gone_updateBlock by (auto simp: pool_ipam_def snd_on_ipam mem_api_def)
next
  fix s s' :: pool_store and k
  assume "mem_ok (pst_ipam s)" and "s' = snd (api_deleteBlock pool_ipam k s)"
  then show "set (pst_accepted s') = set (pst_accepted s) \<and> gone_blocks (pst_ipam s) \<subseteq> gone_blocks (pst_ipam s') \<and>
      gone_blocks (pst_ipam s') \<subseteq> insert k (gone_blocks (pst_ipam s))"
    using gone_deleteBlock(1,2) by (simp add: pool_ipam_def snd_on_ipam mem_api_def)
next
  fix s s' :: pool_store and k u
  assume "mem_ok (pst_ipam s)" and "api_deleteBlock pool_ipam k s = (Inr u, s')"
  then show "k \<in> gone_blocks (pst_ipam s')"
    using gone_deleteBlock(3) [of "pst_ipam s" k u] by (auto simp: pool_ipam_def on_ipam_Inr mem_api_def)
qed

section \<open>What the controller keeps\<close>

text \<open>The part of a pool that decides which addresses it holds.\<close>

type_synonym footprint = "string \<times> 32 word \<times> cidr"

definition footprint_of :: "pool_object \<Rightarrow> footprint" where
  "footprint_of p = (pool_Name p, pool_ID (pool_spec p), pool_CIDR p)"

definition footprints :: "pool_store \<Rightarrow> footprint set" where
  "footprints s = footprint_of ` set (pst_pools s)"

definition named_once :: "pool_store \<Rightarrow> bool" where
  "named_once s = distinct (map pool_Name (pst_pools s))"

definition keeps :: "footprint set \<Rightarrow> (pool_store, 'a) action \<Rightarrow> bool" where
  "keeps F act \<longleftrightarrow> (\<forall>s. footprints s \<subseteq> F \<longrightarrow> named_once s \<longrightarrow> footprints (snd (act s)) \<subseteq> F \<and> named_once (snd (act s)))"

named_theorems keeps_intro \<open>actions that keep the footprints of pools\<close>

lemma keeps_pure [keeps_intro]: "keeps F (ret a)" "keeps F (fail e)" "keeps F (or_panic x)" "keeps F (errorf m)"
  by (auto simp: keeps_def ret_def fail_def or_panic_def errorf_def split: option.splits)

lemma keeps_attempt [keeps_intro]:
  assumes "keeps F m" and "\<And>r. keeps F (f r)"
  shows "keeps F (attempt m f)"
  unfolding keeps_def
proof (intro allI impI)
  fix s assume s: "footprints s \<subseteq> F" "named_once s"
  obtain x t where m: "m s = (x, t)" by (metis surj_pair)
  then have t: "footprints t \<subseteq> F" "named_once t" using assms(1) s unfolding keeps_def by (metis snd_conv)+
  then have "footprints (snd (f r t)) \<subseteq> F \<and> named_once (snd (f r t))" for r using assms(2) unfolding keeps_def by blast
  then show "footprints (snd (attempt m f s)) \<subseteq> F \<and> named_once (snd (attempt m f s))"
    using t by (cases x) (simp_all add: attempt_def m)
qed

lemma keeps_seq [keeps_intro]: "keeps F m \<Longrightarrow> (\<And>a. keeps F (f a)) \<Longrightarrow> keeps F (seq m f)"
  unfolding seq_def by (intro keeps_intro) (auto intro: keeps_intro split: sum.splits)

lemma keeps_ipam:
  assumes "follows pool_ipam act"
  shows "keeps F act"
proof -
  have "pst_pools s' = pst_pools s" if "(api_step pool_ipam)\<^sup>*\<^sup>* s s'" for s s'
    using that by (induction rule: rtranclp_induct) (auto dest: pool_ipam_step)
  then have "pst_pools (snd (act s)) = pst_pools s" for s using assms unfolding follows_def by blast
  then show ?thesis unfolding keeps_def footprints_def named_once_def by simp
qed

lemma footprint_simps [simp]:
  "footprint_of (p\<lparr>po_ResourceVersion := v\<rparr>) = footprint_of p" "footprint_of (p\<lparr>po_Labels := l\<rparr>) = footprint_of p"
  "footprint_of (p\<lparr>po_Finalizers := f\<rparr>) = footprint_of p" "footprint_of (p\<lparr>po_Deleting := d\<rparr>) = footprint_of p"
  "footprint_of (p\<lparr>po_Status := st\<rparr>) = footprint_of p" "footprint_of (p\<lparr>pool_Disabled := b\<rparr>) = footprint_of p"
  by (simp_all add: footprint_of_def pool_ID_def ippool.truncate_def)

lemma put_pool_keeps:
  assumes "footprints s \<subseteq> F" and "named_once s" and "footprint_of p \<in> F"
  shows "footprints (put_pool p s) \<subseteq> F \<and> named_once (put_pool p s)"
proof -
  have "map pool_Name (replace_named pool_Name q xs) = map pool_Name xs" for q :: pool_object and xs
    by (induction xs) (auto simp: replace_named_def)
  then have "named_once (put_pool p s)"
    using assms(2) by (simp add: named_once_def put_pool_def distinct_map_filter)
  moreover have "footprint_of q \<in> F" if "q \<in> set (pst_pools (put_pool p s))" for q
    using that assms(1,3) by (auto simp: put_pool_def replace_named_def footprints_def split: if_splits)
  ultimately show ?thesis by (auto simp: footprints_def)
qed

lemma accept_pool_kept [simp]:
  "footprints (accept_pool p s) = footprints s" "named_once (accept_pool p s) = named_once s"
  by (simp_all add: footprints_def named_once_def)

lemma keeps_updatePool [keeps_intro]: "footprint_of p \<in> F \<Longrightarrow> keeps F (call_api (mem_updatePool p))"
  unfolding keeps_def mem_updatePool_def change_pool_def
  using put_pool_keeps [of "accept_pool p _"] by (auto split: option.splits)

lemma keeps_updateStatus [keeps_intro]: "keeps F (call_api (mem_updateStatus p))"
proof -
  have "footprint_of p0 \<in> F" if "find_pool n s = Some p0" "footprints s \<subseteq> F" for p0 n s
    using that mem_find_Some unfolding find_pool_def footprints_def by fastforce
  then show ?thesis
    unfolding keeps_def mem_updateStatus_def change_pool_def using put_pool_keeps by (auto split: option.splits)
qed

lemma follows_GetUtilization [follows_intro]: "follows api (GetUtilization api t ps)"
proof -
  have "follows api (utilization_loop api us)" for us by (induction us) (auto intro!: follows_intro)
  then show ?thesis unfolding GetUtilization_def by (auto intro!: follows_intro)
qed

lemma follows_local_provider [follows_intro]:
  "follows api (pp_DeleteIPPool (local_provider api) p)" "follows api (pp_CreateIPPool (local_provider api) p)"
  "follows api (pp_UpdateIPPool (local_provider api) p)" "follows api (pp_GetIPPoolStats (local_provider api) p)"
  unfolding local_provider_def pool_provider.simps local_DeleteIPPool_def local_GetIPPoolStats_def
  by (intro follows_intro)+

lemmas keeps_local_provider [keeps_intro] = follows_local_provider [THEN keeps_ipam]

lemma keeps_updateIPPoolStatus [keeps_intro]: "keeps F (updateIPPoolStatus pools_api (local_provider pool_ipam) p)"
  unfolding updateIPPoolStatus_def by (auto simp: pools_api_def intro!: keeps_intro)

lemma keeps_report [keeps_intro]: "keeps F act \<Longrightarrow> keeps F (report d act)"
  unfolding report_def by (intro keeps_intro)

lemma keeps_or_report [keeps_intro]: "keeps F act \<Longrightarrow> (\<And>a. keeps F (k a)) \<Longrightarrow> keeps F (or_report act k)"
  unfolding or_report_def by (intro keeps_intro) (auto intro: keeps_intro split: sum.splits)

lemma keeps_finalizers [keeps_intro]:
  assumes "footprint_of p \<in> F"
  shows "keeps F (addFinalizer pools_api p)" and "keeps F (removeFinalizer pools_api p)" and "keeps F (disableIPPool pools_api p)"
  using assms by (auto simp: addFinalizer_def removeFinalizer_def disableIPPool_def labelled_def pools_api_def intro!: keeps_intro)

lemma processIPPool_keeps:
  assumes "footprints s \<subseteq> F" and "named_once s"
  shows "footprints (snd (processIPPool pools_api (local_provider pool_ipam) name s)) \<subseteq> F \<and>
     named_once (snd (processIPPool pools_api (local_provider pool_ipam) name s))"
proof (cases "find_pool name s")
  case None
  then show ?thesis using assms by (simp add: processIPPool_def attempt_def call_api_def pools_api_def found_def ret_def)
next
  case (Some p)
  then have p: "footprint_of p \<in> F" using assms(1) mem_find_Some unfolding find_pool_def footprints_def by fastforce
  have get: "call_api (pa_getPool pools_api name) s = (Returned p, s)"
    using Some by (simp add: call_api_def pools_api_def found_def)
  have "keeps F (process_deleting pools_api (local_provider pool_ipam) p)"
    unfolding process_deleting_def using p by (auto intro!: keeps_intro)
  moreover have "keeps F (or_report (addFinalizer pools_api p) (\<lambda>_.
      or_report (pp_CreateIPPool (local_provider pool_ipam) p) (\<lambda>_. report None (updateIPPoolStatus pools_api (local_provider pool_ipam) p))))"
    using p by (auto intro!: keeps_intro)
  moreover have "keeps F (or_report (pp_UpdateIPPool (local_provider pool_ipam) p) (\<lambda>_.
      report None (updateIPPoolStatus pools_api (local_provider pool_ipam) p)))"
    by (auto intro!: keeps_intro)
  moreover have "keeps F (ret x)" for x :: process_result by (intro keeps_intro)
  ultimately show ?thesis using assms unfolding processIPPool_def attempt_def get keeps_def by simp
qed

section \<open>Pools do not overlap\<close>

definition id_labelled :: "pool_object \<Rightarrow> bool" where
  "id_labelled p \<longleftrightarrow> map_of (po_Labels p) IPPoolIDLabel = Some (id_text p)"

definition add_pool :: "pool_object \<Rightarrow> pool_store \<Rightarrow> pool_store" where
  "add_pool p s =
     s\<lparr>pst_next := Suc (pst_next s),
       pst_pools := pst_pools s @ [p\<lparr>po_ResourceVersion := pst_next s, po_Deleting := False\<rparr>]\<rparr>"

text \<open>
  Steps of users and of the controller. A pool is submitted when the controller has labelled the pools that exist, and
  a change of a pool leaves its VLAN alone: neither is enforced by the code.
\<close>

inductive pool_step :: "pool_store \<Rightarrow> pool_store \<Rightarrow> bool" where
  submitted: "list_all id_labelled (pst_pools s) \<Longrightarrow> fst (ValidateCreate pools_api q s) = Returned () \<Longrightarrow> cq_CIDR q = Some c \<Longrightarrow>
     find_pool (pool_Name (cq_Object q)) s = None \<Longrightarrow> pool_step s (add_pool (requested_pool q c) s)"
| changed: "find_pool (pool_Name new) s = Some old \<Longrightarrow> fst (ValidateUpdate pools_api old new s) = Returned () \<Longrightarrow>
     pool_VlanId new = pool_VlanId old \<Longrightarrow> pool_step s (snd (mem_updatePool new s))"
| deletion: "find_pool name s = Some p \<Longrightarrow> fst (ValidateDelete pools_api p s) = Returned () \<Longrightarrow>
     pool_step s (put_pool (p\<lparr>po_Deleting := True\<rparr>) s)"
| processed: "pool_step s (snd (processIPPool pools_api (local_provider pool_ipam) name s))"
| addresses: "pool_step s (s\<lparr>pst_ipam := m\<rparr>)"

definition pools_apart :: "pool_store \<Rightarrow> bool" where
  "pools_apart s \<longleftrightarrow> named_once s \<and>
     (\<forall>p \<in> set (pst_pools s). \<forall>q \<in> set (pst_pools s). pool_Name p \<noteq> pool_Name q \<longrightarrow> \<not> Overlapped (pool_spec p) (pool_spec q))"

lemma Overlapped_footprint:
  assumes "footprint_of p = footprint_of p'" and "footprint_of q = footprint_of q'"
  shows "Overlapped (pool_spec p) (pool_spec q) \<longleftrightarrow> Overlapped (pool_spec p') (pool_spec q')"
proof -
  have "pool_CIDR (pool_spec x) = pool_CIDR x" for x by (simp add: ippool.truncate_def)
  then show ?thesis using assms by (simp add: footprint_of_def Overlapped_def)
qed

lemma pools_apart_mono:
  assumes "pools_apart s" and "named_once s'" and "footprints s' \<subseteq> footprints s"
  shows "pools_apart s'"
proof -
  have old: "\<exists>p0 \<in> set (pst_pools s). footprint_of p = footprint_of p0" if "p \<in> set (pst_pools s')" for p
    using assms(3) that unfolding footprints_def by blast
  have "\<not> Overlapped (pool_spec p) (pool_spec q)"
    if pq: "p \<in> set (pst_pools s')" "q \<in> set (pst_pools s')" "pool_Name p \<noteq> pool_Name q" for p q
  proof -
    obtain p0 q0 where "p0 \<in> set (pst_pools s)" "footprint_of p = footprint_of p0" "q0 \<in> set (pst_pools s)" "footprint_of q = footprint_of q0"
      using old [OF pq(1)] old [OF pq(2)] by blast
    moreover from this pq(3) have "pool_Name p0 \<noteq> pool_Name q0" by (simp add: footprint_of_def)
    ultimately show ?thesis using assms(1) Overlapped_footprint [of p p0 q q0] unfolding pools_apart_def by blast
  qed
  then show ?thesis using assms(2) unfolding pools_apart_def by blast
qed

lemma IsNetOverlap_commute: "IsNetOverlap c d = IsNetOverlap d c"
  by (auto simp: IsNetOverlap_def)

lemma Overlapped_commute: "Overlapped p q = Overlapped q p"
  by (simp add: Overlapped_def IsNetOverlap_commute)

lemma find_pool_Some: "find_pool n s = Some p \<Longrightarrow> p \<in> set (pst_pools s) \<and> pool_Name p = n"
  unfolding find_pool_def by (rule mem_find_Some)

lemma submitted_apart:
  assumes "list_all id_labelled (pst_pools s)" and "fst (ValidateCreate pools_api q s) = Returned ()" and "cq_CIDR q = Some c"
    and "p \<in> set (pst_pools s)"
  shows "\<not> Overlapped (pool_spec (requested_pool q c)) (pool_spec p)"
proof
  let ?b = "requested_pool q c"
  assume over: "Overlapped (pool_spec ?b) (pool_spec p)"
  then have "id_text ?b = id_text p" by (simp add: Overlapped_def id_text_def split: if_splits)
  then have "p \<in> set (selected_pools (IPPoolIDLabel, id_text ?b) s)"
    using assms(1,4) by (auto simp: selected_pools_def id_labelled_def list_all_iff)
  moreover have "list_all (\<lambda>p. \<not> Overlapped (pool_spec ?b) (pool_spec p)) (selected_pools (IPPoolIDLabel, id_text ?b) s)"
    using assms(2,3) ValidateCreate_accepted [of pools_api q s] by (auto simp: pools_api_def)
  ultimately show False using over by (simp add: list_all_iff)
qed

lemma changed_footprint:
  assumes "fst (ValidateUpdate pools_api old new s) = Returned ()" and "pool_VlanId new = pool_VlanId old" and "pool_Name new = pool_Name old"
  shows "footprint_of new = footprint_of old"
  using assms by (auto simp: ValidateUpdate_def footprint_of_def pool_ID_def ippool.truncate_def split: if_splits)

lemma pool_step_apart:
  assumes "pool_step s s'" and "pools_apart s"
  shows "pools_apart s'"
  using assms
proof (cases rule: pool_step.cases)
  case (submitted q c)
  let ?b = "requested_pool q c"
  have b: "pool_Name ?b = pool_Name (cq_Object q)" by (simp add: requested_pool_def)
  have "pool_Name p \<noteq> pool_Name ?b" if "p \<in> set (pst_pools s)" for p
    using submitted(5) that b unfolding find_pool_def mem_find_def find_None_iff by auto
  then have "pool_Name ?b \<notin> pool_Name ` set (pst_pools s)" by (metis imageE)
  then have "named_once s'"
    using assms(2) unfolding submitted(1) named_once_def pools_apart_def add_pool_def by simp
  moreover have "\<not> Overlapped (pool_spec x) (pool_spec y)"
    if "x \<in> set (pst_pools s')" "y \<in> set (pst_pools s')" "pool_Name x \<noteq> pool_Name y" for x y
  proof -
    have new: "footprint_of z = footprint_of ?b" if "z \<in> set (pst_pools s')" "z \<notin> set (pst_pools s)" for z
      using that unfolding submitted(1) by (auto simp: add_pool_def)
    have apart: "\<not> Overlapped (pool_spec z) (pool_spec p)" if "footprint_of z = footprint_of ?b" "p \<in> set (pst_pools s)" for z p
      using submitted_apart [OF submitted(2-4) that(2)] Overlapped_footprint [OF that(1) refl, of p] by blast
    consider "x \<in> set (pst_pools s)" "y \<in> set (pst_pools s)" | "footprint_of x = footprint_of ?b" "y \<in> set (pst_pools s)"
      | "x \<in> set (pst_pools s)" "footprint_of y = footprint_of ?b" | "footprint_of x = footprint_of ?b" "footprint_of y = footprint_of ?b"
      using new [OF \<open>x \<in> set (pst_pools s')\<close>] new [OF \<open>y \<in> set (pst_pools s')\<close>] by argo
    then show ?thesis
    proof cases
      case 1
      then show ?thesis using assms(2) \<open>pool_Name x \<noteq> pool_Name y\<close> unfolding pools_apart_def by blast
    next
      case 2
      then show ?thesis by (rule apart)
    next
      case 3
      then show ?thesis using apart Overlapped_commute by blast
    next
      case 4
      then show ?thesis using \<open>pool_Name x \<noteq> pool_Name y\<close> by (simp add: footprint_of_def)
    qed
  qed
  ultimately show ?thesis unfolding pools_apart_def by blast
next
  case (changed new old)
  have "footprint_of new \<in> footprints s"
    using changed_footprint [OF changed(3,4)] find_pool_Some [OF changed(2)] unfolding footprints_def by (metis imageI)
  then have "keeps (footprints s) (call_api (mem_updatePool new))" by (rule keeps_updatePool)
  then have "footprints s' \<subseteq> footprints s \<and> named_once s'"
    using assms(2) unfolding changed(1) keeps_def pools_apart_def by simp
  then show ?thesis using pools_apart_mono [OF assms(2)] by blast
next
  case (deletion name p)
  have "footprint_of (p\<lparr>po_Deleting := True\<rparr>) \<in> footprints s"
    using find_pool_Some [OF deletion(2)] unfolding footprints_def footprint_simps by (metis imageI)
  then have "footprints s' \<subseteq> footprints s \<and> named_once s'"
    using put_pool_keeps [of s "footprints s"] assms(2) unfolding deletion(1) pools_apart_def by blast
  then show ?thesis using pools_apart_mono [OF assms(2)] by blast
next
  case (processed name)
  have "footprints s' \<subseteq> footprints s \<and> named_once s'"
    using processIPPool_keeps [of s "footprints s" name] assms(2) unfolding processed pools_apart_def by blast
  then show ?thesis using pools_apart_mono [OF assms(2)] by blast
next
  case (addresses m)
  then show ?thesis using assms(2) by (simp add: pools_apart_def named_once_def)
qed

definition no_pools :: pool_store where
  "no_pools = \<lparr>pst_next = 1, pst_pools = [], pst_namespaces = [], 
     pst_ipam = \<lparr>ms_next = 1, ms_pools = [], ms_blocks = [], ms_handles = [], ms_seen = [], ms_writes = []\<rparr>, pst_accepted = []\<rparr>"

text \<open>
  On this server, as long as every pool is submitted after the earlier ones were labelled and no pool moves to another VLAN, no two pools of
  one VLAN or one kind overlap, whatever else users and the controller do.
\<close>
theorem processed_pools_apart:
  assumes "pool_step\<^sup>*\<^sup>* no_pools s" and "p \<in> set (pst_pools s)" and "q \<in> set (pst_pools s)" and "pool_Name p \<noteq> pool_Name q"
  shows "\<not> Overlapped (pool_spec p) (pool_spec q)"
proof -
  have "pools_apart s"
    using assms(1)
  proof (induction rule: rtranclp_induct)
    case base
    then show ?case by (simp add: pools_apart_def named_once_def no_pools_def)
  next
    case (step s s')
    then show ?case by (blast intro: pool_step_apart)
  qed
  then show ?thesis using assms(2-4) unfolding pools_apart_def by blast
qed

definition vlan_pool :: "string \<Rightarrow> nat \<Rightarrow> pool_object" where
  "vlan_pool name n =
     \<lparr>pool_Name = name, pool_Type = VLAN, pool_CIDR = \<lparr>c_IP = V4 n, c_Ones = 30\<rparr>, pool_RangeStart = None, pool_RangeEnd = None,
      pool_Disabled = False, pool_BlockSize = 30, pool_VlanId = 5, pool_Gateway = [], pool_Routes = [],
      pool_DNS = \<lparr>dns_Nameservers = [], dns_Domain = [], dns_Search = [], dns_Options = []\<rparr>,
      po_ResourceVersion = 0, po_Labels = [], po_Finalizers = [], po_Deleting = False,
      po_Status = \<lparr>st_Unallocated = 0, st_Allocations = 0, st_Capacity = 0, st_Reserved = 0, st_Synced = False, st_Workspaces = []\<rparr>\<rparr>"

definition vlan_request :: "string \<Rightarrow> nat \<Rightarrow> create_request" where
  "vlan_request name n =
     \<lparr>cq_Object = vlan_pool name n, cq_CIDR = Some \<lparr>c_IP = V4 n, c_Ones = 30\<rparr>, cq_RangeStart = NoAddress, cq_RangeEnd = NoAddress\<rparr>"

abbreviation net_a :: nat where "net_a \<equiv> 8"
abbreviation net_b :: nat where "net_b \<equiv> 16"

definition one_pool :: pool_store where
  "one_pool = add_pool (vlan_pool ''a'' net_a) no_pools"

definition one_labelled :: pool_store where
  "one_labelled = snd (processIPPool pools_api (local_provider pool_ipam) ''a'' one_pool)"

definition two_pools :: pool_store where
  "two_pools = add_pool (vlan_pool ''b'' net_b) one_labelled"

lemma requested_vlan: "requested_pool (vlan_request name n) \<lparr>c_IP = V4 n, c_Ones = 30\<rparr> = vlan_pool name n"
  by (simp add: requested_pool_def vlan_request_def vlan_pool_def)

lemma first_submission: "fst (ValidateCreate pools_api (vlan_request ''a'' net_a) no_pools) = Returned ()"
  by code_simp

lemma second_submission:
  "list_all id_labelled (pst_pools one_labelled)" "find_pool ''b'' one_labelled = None"
  "fst (ValidateCreate pools_api (vlan_request ''b'' net_b) one_labelled) = Returned ()"
  by code_simp+

lemma two_pools_reachable: "pool_step\<^sup>*\<^sup>* no_pools two_pools"
proof -
  have name: "pool_Name (cq_Object (vlan_request x n)) = x" "cq_CIDR (vlan_request x n) = Some \<lparr>c_IP = V4 n, c_Ones = 30\<rparr>" for x n
    by (simp_all add: vlan_request_def vlan_pool_def)
  have "pool_step no_pools one_pool"
    using submitted [of no_pools, OF _ first_submission name(2)] requested_vlan
    by (simp add: one_pool_def no_pools_def find_pool_def mem_find_def)
  moreover have "pool_step one_pool one_labelled" unfolding one_labelled_def by (rule processed)
  moreover have "pool_step one_labelled two_pools"
    using submitted [OF second_submission(1,3) name(2)] second_submission(2) requested_vlan by (simp add: two_pools_def name)
  ultimately show ?thesis by (meson rtranclp.rtrancl_refl rtranclp.rtrancl_into_rtrancl)
qed

lemma two_pools_named: "map pool_Name (pst_pools two_pools) = [''a'', ''b'']"
  by code_simp

theorem processed_pools_apart_witness:
  "\<not> Overlapped (pool_spec (pst_pools two_pools ! 0)) (pool_spec (pst_pools two_pools ! 1))"
proof -
  have len: "length (pst_pools two_pools) = 2" using arg_cong [OF two_pools_named, of length] by simp
  have "map pool_Name (pst_pools two_pools) ! 0 = ''a''" "map pool_Name (pst_pools two_pools) ! 1 = ''b''"
    unfolding two_pools_named by simp_all
  then have "pool_Name (pst_pools two_pools ! 0) \<noteq> pool_Name (pst_pools two_pools ! 1)" using len by simp
  then show ?thesis using processed_pools_apart [OF two_pools_reachable] len by simp
qed

text \<open>
  Both conditions are needed. Pools without the label of the id are not looked at, so that a pool that was submitted just before may
  overlap the next; and moving a pool to another VLAN is never checked against the pools there.
\<close>

theorem unlabelled_pools_ignored:
  assumes "list_all (\<lambda>p. \<not> has_label p IPPoolIDLabel) (pst_pools s)"
  shows "fst (ValidateCreate pools_api q s) = Returned () \<longleftrightarrow> fst (ValidateCreate pools_api q (s\<lparr>pst_pools := []\<rparr>)) = Returned ()"
proof -
  have "selected_pools (IPPoolIDLabel, t) s = []" for t
    using assms by (auto simp: selected_pools_def has_label_def list_all_iff filter_empty_conv)
  then show ?thesis unfolding ValidateCreate_accepted by (simp add: pools_api_def selected_pools_def)
qed

theorem vlan_change_unchecked: "ValidateUpdate api old (old\<lparr>pool_VlanId := v\<rparr>) s = (Returned (), s)"
  by (auto simp: ValidateUpdate_def has_label_def ret_def)

section \<open>No address belongs to two pools\<close>

text \<open>
  The writes of pools that a server accepts, whoever makes them, when it asks the webhook. The webhook answers from calls in a state of its
  own: a pool is reviewed before it is created, and others may be created in between. What is asked of the review of a new pool is that it
  was shown every pool of the same id that exists when the new one is created; the server fills in metadata. A pool does not move to
  another VLAN. Status and removal are not reviewed.
\<close>

definition shows_pools :: "'s pool_api \<Rightarrow> pool_object \<Rightarrow> 's \<Rightarrow> pool_object list \<Rightarrow> bool" where
  "shows_pools api b s ps \<longleftrightarrow>
     (case fst (pa_listPools api (IPPoolIDLabel, id_text b) s) of
        Inl _ \<Rightarrow> False
      | Inr listed \<Rightarrow>
          list_all (\<lambda>p. pool_ID (pool_spec p) = pool_ID (pool_spec b) \<longrightarrow> footprint_of p \<in> footprint_of ` set listed) ps)"

definition review_create :: "create_request \<Rightarrow> pool_review" where
  "review_create q = \<lparr>rv_Operation = CreateOp, rv_Create = Some q, rv_Object = None, rv_OldObject = None\<rparr>"

definition review_update :: "pool_object \<Rightarrow> pool_object \<Rightarrow> pool_review" where
  "review_update old new = \<lparr>rv_Operation = UpdateOp, rv_Create = None, rv_Object = Some new, rv_OldObject = Some old\<rparr>"

inductive admitted_write :: "'s pool_api \<Rightarrow> pool_object list \<Rightarrow> pool_object list \<Rightarrow> bool" for api where
  write_create: "fst (webhook_Handle (Some api) (review_create q) s) = Returned Allowed \<Longrightarrow> cq_CIDR q = Some c \<Longrightarrow>
     shows_pools api (requested_pool q c) s ps \<Longrightarrow> pool_Name (cq_Object q) \<notin> pool_Name ` set ps \<Longrightarrow>
     footprint_of p = footprint_of (requested_pool q c) \<Longrightarrow> admitted_write api ps (ps @ [p])"
| write_update: "old \<in> set ps \<Longrightarrow> fst (webhook_Handle (Some api) (review_update old new) s) = Returned Allowed \<Longrightarrow>
     pool_Name new = pool_Name old \<Longrightarrow> pool_VlanId new = pool_VlanId old \<Longrightarrow> footprint_of p = footprint_of new \<Longrightarrow>
     admitted_write api ps (replace_named pool_Name p ps)"
| write_status: "old \<in> set ps \<Longrightarrow> admitted_write api ps (replace_named pool_Name (old\<lparr>po_Status := st\<rparr>) ps)"
| write_remove: "admitted_write api ps (filter (\<lambda>p. pool_Name p \<noteq> name) ps)"

definition disjoint_footprints :: "footprint set \<Rightarrow> bool" where
  "disjoint_footprints F \<longleftrightarrow>
     (\<forall>p q. footprint_of p \<in> F \<longrightarrow> footprint_of q \<in> F \<longrightarrow> pool_Name p \<noteq> pool_Name q \<longrightarrow> \<not> Overlapped (pool_spec p) (pool_spec q))"

lemma denied_on_error_Allowed: "fst (denied_on_error act s) = Returned Allowed \<longleftrightarrow> fst (act s) = Returned ()"
  by (cases "act s"; cases "fst (act s)") (auto simp: denied_on_error_def attempt_def ret_def)

lemma ValidateUpdate_footprint:
  assumes "fst (ValidateUpdate api old new s) = Returned ()" and "pool_VlanId new = pool_VlanId old" and "pool_Name new = pool_Name old"
  shows "footprint_of new = footprint_of old"
  using assms by (auto simp: ValidateUpdate_def footprint_of_def pool_ID_def ippool.truncate_def split: if_splits)

lemma disjoint_mono: "disjoint_footprints F \<Longrightarrow> G \<subseteq> F \<Longrightarrow> disjoint_footprints G"
  unfolding disjoint_footprints_def by blast

lemma replaced_footprints:
  "footprint_of p \<in> footprint_of ` set ps \<Longrightarrow> footprint_of ` set (replace_named pool_Name p ps) \<subseteq> footprint_of ` set ps"
  by (auto simp: replace_named_def)

lemma shown_apart:
  assumes "fst (ValidateCreate api q s) = Returned ()" and "cq_CIDR q = Some c" and "shows_pools api (requested_pool q c) s ps"
    and "p \<in> set ps"
  shows "\<not> Overlapped (pool_spec (requested_pool q c)) (pool_spec p)"
proof
  let ?b = "requested_pool q c"
  assume over: "Overlapped (pool_spec ?b) (pool_spec p)"
  then have "pool_ID (pool_spec p) = pool_ID (pool_spec ?b)" by (simp add: Overlapped_def split: if_splits)
  then obtain listed r where listed: "fst (pa_listPools api (IPPoolIDLabel, id_text ?b) s) = Inr listed" "r \<in> set listed"
      "footprint_of p = footprint_of r"
    using assms(3,4) by (auto simp: shows_pools_def list_all_iff split: sum.splits)
  then have "\<not> Overlapped (pool_spec ?b) (pool_spec r)"
    using assms(1,2) ValidateCreate_accepted [of api q s] by (auto simp: list_all_iff)
  then show False using over Overlapped_footprint [OF refl listed(3), of ?b] by simp
qed

lemma created_disjoint:
  assumes "disjoint_footprints F" and "\<And>p. footprint_of p \<in> F \<Longrightarrow> \<not> Overlapped (pool_spec b) (pool_spec p)"
  shows "disjoint_footprints (insert (footprint_of b) F)"
  unfolding disjoint_footprints_def
proof (intro allI impI)
  fix p q
  assume pq: "footprint_of p \<in> insert (footprint_of b) F" "footprint_of q \<in> insert (footprint_of b) F" "pool_Name p \<noteq> pool_Name q"
  have new: "\<not> Overlapped (pool_spec x) (pool_spec y)" if "footprint_of x = footprint_of b" "footprint_of y \<in> F" for x y
    using assms(2) [OF that(2)] Overlapped_footprint [OF that(1) refl, of y] by simp
  consider "footprint_of p = footprint_of b" "footprint_of q = footprint_of b" | "footprint_of p = footprint_of b" "footprint_of q \<in> F"
    | "footprint_of q = footprint_of b" "footprint_of p \<in> F" | "footprint_of p \<in> F" "footprint_of q \<in> F"
    using pq(1,2) by blast
  then show "\<not> Overlapped (pool_spec p) (pool_spec q)"
  proof cases
    case 1
    then show ?thesis using pq(3) by (simp add: footprint_of_def)
  next
    case 2
    then show ?thesis by (rule new)
  next
    case 3
    then show ?thesis using new Overlapped_commute by blast
  next
    case 4
    then show ?thesis using assms(1) pq(3) unfolding disjoint_footprints_def by blast
  qed
qed

lemma admitted_write_disjoint:
  assumes "admitted_write api ps ps'" and "disjoint_footprints (footprint_of ` set ps)"
  shows "disjoint_footprints (footprint_of ` set ps')"
  using assms(1)
proof cases
  case (write_create q s c p)
  let ?b = "requested_pool q c"
  have "fst (ValidateCreate api q s) = Returned ()"
    using write_create(2) by (simp add: webhook_Handle_def review_create_def denied_on_error_Allowed)
  note apart = shown_apart [OF this write_create(3,4)]
  have "\<not> Overlapped (pool_spec ?b) (pool_spec x)" if "footprint_of x \<in> footprint_of ` set ps" for x
    using that apart Overlapped_footprint [OF refl, of x _ ?b] by blast
  then show ?thesis using created_disjoint [OF assms(2), of ?b] write_create(1,6) by simp
next
  case (write_update old new s p)
  have "footprint_of p = footprint_of old"
    using write_update(3,6) ValidateUpdate_footprint [OF _ write_update(5,4)]
    by (simp add: webhook_Handle_def review_update_def denied_on_error_Allowed)
  then show ?thesis
    using disjoint_mono [OF assms(2) replaced_footprints] write_update(1,2) by (metis imageI)
next
  case (write_status old st)
  then show ?thesis using disjoint_mono [OF assms(2) replaced_footprints] by (metis footprint_simps(5) imageI)
next
  case (write_remove name)
  then have "footprint_of ` set ps' \<subseteq> footprint_of ` set ps" by auto
  then show ?thesis by (rule disjoint_mono [OF assms(2)])
qed

text \<open>
  C11: no address belongs to two pools of the same id, that is of one VLAN or of one kind, whatever pools the webhook admits and the
  controller and users change and remove, for every server. The review of a new pool has to see the pools of its id that exist when
  it is created: all are labelled by then, and none is submitted in between; and no pool moves to another VLAN.
\<close>
theorem pools_never_overlap:
  assumes "(admitted_write api)\<^sup>*\<^sup>* [] ps" and "p \<in> set ps" and "q \<in> set ps" and "pool_Name p \<noteq> pool_Name q"
    and "pool_ID (pool_spec p) = pool_ID (pool_spec q)"
  shows "\<not> (\<exists>x. Contains_ip (pool_CIDR p) x \<and> Contains_ip (pool_CIDR q) x)"
proof -
  have "disjoint_footprints (footprint_of ` set ps)"
    using assms(1)
  proof (induction rule: rtranclp_induct)
    case base
    then show ?case by (simp add: disjoint_footprints_def)
  qed (rule admitted_write_disjoint)
  then have "\<not> Overlapped (pool_spec p) (pool_spec q)"
    using assms(2-4) unfolding disjoint_footprints_def by blast
  then show ?thesis
    using shares_address_Overlapped [OF assms(5)] by (auto simp: shares_address_def ippool.truncate_def)
qed

lemma two_pools_admitted: "(admitted_write pools_api)\<^sup>*\<^sup>* [] [vlan_pool ''a'' net_a, vlan_pool ''b'' net_b]"
proof -
  have q: "pool_Name (cq_Object (vlan_request x n)) = x" "cq_CIDR (vlan_request x n) = Some \<lparr>c_IP = V4 n, c_Ones = 30\<rparr>" for x n
    by (simp_all add: vlan_request_def vlan_pool_def)
  have allowed: "fst (webhook_Handle (Some pools_api) (review_create r) s) = Returned Allowed"
    if "fst (ValidateCreate pools_api r s) = Returned ()" for r s
    using that by (simp add: webhook_Handle_def review_create_def denied_on_error_Allowed)
  have "admitted_write pools_api [] ([] @ [vlan_pool ''a'' net_a])"
    by (rule write_create [OF allowed [OF first_submission] q(2)])
       (simp_all add: shows_pools_def pools_api_def requested_vlan)
  moreover have "shows_pools pools_api (vlan_pool ''b'' net_b) one_labelled [vlan_pool ''a'' net_a]"
    by code_simp
  then have "admitted_write pools_api [vlan_pool ''a'' net_a] ([vlan_pool ''a'' net_a] @ [vlan_pool ''b'' net_b])"
    by (intro write_create [OF allowed [OF second_submission(3)] q(2)]) (simp_all add: requested_vlan q, simp add: vlan_pool_def)
  ultimately show ?thesis by (simp add: converse_rtranclp_into_rtranclp)
qed

theorem pools_never_overlap_witness:
  "\<not> (\<exists>x. Contains_ip \<lparr>c_IP = V4 net_a, c_Ones = 30\<rparr> x \<and> Contains_ip \<lparr>c_IP = V4 net_b, c_Ones = 30\<rparr> x)"
proof -
  have "pool_ID (pool_spec (vlan_pool ''a'' net_a)) = pool_ID (pool_spec (vlan_pool ''b'' net_b))"
    by (simp add: pool_ID_def vlan_pool_def ippool.truncate_def)
  from pools_never_overlap [OF two_pools_admitted _ _ _ this] show ?thesis by (simp add: vlan_pool_def)
qed

section \<open>A pool is deleted in two passes\<close>

abbreviation pass :: "string \<Rightarrow> pool_store \<Rightarrow> queue_action outcome \<times> pool_store" where
  "pass \<equiv> processIPPoolItem pools_api (local_provider pool_ipam)"

definition unused_pool :: "string \<Rightarrow> pool_store \<Rightarrow> bool" where
  "unused_pool name s \<longleftrightarrow> filter (\<lambda>b. bk_PoolLabel b = name) (ms_blocks (pst_ipam s)) = []"

lemma unused_DeleteIPPool:
  assumes "unused_pool (pool_Name p) s"
  shows "pp_DeleteIPPool (local_provider pool_ipam) p s = (Returned True, s)"
  using assms
  by (simp add: local_provider_def local_DeleteIPPool_def ListBlocks_def seq_def attempt_def call_api_def pool_ipam_def on_ipam_def
      mem_api_def unused_pool_def ret_def)

lemma find_put_pool:
  assumes "find_pool name s = Some p0" and "pool_Name p = name" and "\<not> (po_Deleting p \<and> po_Finalizers p = [])"
  shows "find_pool name (put_pool p s) = Some (p\<lparr>po_ResourceVersion := pst_next s\<rparr>)"
proof -
  have "find (\<lambda>x. pool_Name x = name) (replace_named pool_Name q xs) = Some q"
    if "find (\<lambda>x. pool_Name x = name) xs = Some p0" "pool_Name q = name" for q xs
    using that by (induction xs) (auto simp: replace_named_def split: if_splits)
  then show ?thesis using assms by (auto simp: find_pool_def mem_find_def put_pool_def)
qed

text \<open>
  deleting an unused local pool takes two passes of the controller: the first disables the pool, and then gives up its finalizer
  with the version it has read before, which is refused; the second finds the pool disabled and finishes.
\<close>
theorem unused_pool_deleted:
  assumes p: "find_pool name s = Some p" and "pool_Type p = VLAN" and "po_Deleting p" and "po_Finalizers p = [IPPoolFinalizer]"
    and "\<not> pool_Disabled p" and "po_ResourceVersion p < pst_next s" and "unused_pool name s"
  shows "fst (pass name s) = Returned AddRateLimited \<and> find_pool name (snd (pass name s)) \<noteq> None \<and>
     fst (pass name (snd (pass name s))) = Returned Forget \<and> find_pool name (snd (pass name (snd (pass name s)))) = None"
proof -
  let ?d = "p\<lparr>pool_Disabled := True\<rparr>" and ?prov = "local_provider pool_ipam"
  let ?s1 = "put_pool ?d (accept_pool ?d s)"
  let ?p1 = "?d\<lparr>po_ResourceVersion := pst_next s\<rparr>"
  have name: "pool_Name p = name" using find_pool_Some [OF p] by simp
  have type: "pool_Type_of (pool_spec q) = pp_Type ?prov" if "pool_Type q = VLAN" for q
    using that by (simp add: pool_Type_of_def local_provider_def ippool.truncate_def)
  have p1: "find_pool name ?s1 = Some ?p1" using find_put_pool [of name "accept_pool ?d s" p ?d] p name assms(4) by simp
  have get: "call_api (pa_getPool pools_api name) t = (Returned q, t)" if "find_pool name t = Some q" for t q
    using that by (simp add: call_api_def pools_api_def found_def)
  have disable: "disableIPPool pools_api p s = (Returned (), ?s1)"
    using p assms(5) name by (simp add: disableIPPool_def call_api_def pools_api_def mem_updatePool_def change_pool_def)
  have refused: "removeFinalizer pools_api p ?s1 = (Failed (Api Conflict), ?s1)"
    using p1 name assms(6) by (simp add: removeFinalizer_def call_api_def pools_api_def mem_updatePool_def change_pool_def)
  let ?s2 = "put_pool (?p1\<lparr>po_Finalizers := []\<rparr>) (accept_pool (?p1\<lparr>po_Finalizers := []\<rparr>) ?s1)"
  have removed: "removeFinalizer pools_api ?p1 ?s1 = (Returned (), ?s2)"
    using p1 name assms(4)
    by (simp add: removeFinalizer_def RemoveFinalizer_def call_api_def pools_api_def mem_updatePool_def change_pool_def)
  have unused: "unused_pool (pool_Name q) t" if "pst_ipam t = pst_ipam s" "pool_Name q = name" for t and q :: pool_object
    using assms(7) that by (simp add: unused_pool_def)
  have first: "process_deleting pools_api ?prov p s = (Returned (None, Some (Api Conflict)), ?s1)"
    using disable refused unused_DeleteIPPool [OF unused, of ?s1 p] name
    by (simp add: process_deleting_def or_report_def report_def attempt_def ret_def)
  have second: "process_deleting pools_api ?prov ?p1 ?s1 = (Returned (None, None), ?s2)"
    using removed unused_DeleteIPPool [OF unused, of ?s1 ?p1] name
    by (simp add: process_deleting_def disableIPPool_def or_report_def report_def attempt_def ret_def)
  have cand: "IsDeletionCandidate p IPPoolFinalizer" "IsDeletionCandidate ?p1 IPPoolFinalizer"
    using assms(3,4) by (simp_all add: IsDeletionCandidate_def)
  have "pass name s = (Returned AddRateLimited, ?s1)"
    using first cand(1) type [OF assms(2)]
    by (simp add: processIPPoolItem_def processIPPool_def seq_def attempt_def get [OF p] ret_def)
  moreover have "pass name ?s1 = (Returned Forget, ?s2)"
    using second cand(2) type [of ?p1] assms(2)
    by (simp add: processIPPoolItem_def processIPPool_def seq_def attempt_def get [OF p1] ret_def)
  moreover have "find_pool name ?s2 = None"
    using assms(3) name by (simp add: put_pool_def find_pool_def mem_find_def find_None_iff)
  ultimately show ?thesis using p1 by simp
qed

definition dying_pool :: pool_store where
  "dying_pool = no_pools\<lparr>pst_next := 7, pst_pools := [(vlan_pool ''a'' net_a)\<lparr>po_Deleting := True, po_Finalizers := [IPPoolFinalizer]\<rparr>]\<rparr>"

theorem unused_pool_deleted_witness:
  "fst (pass ''a'' dying_pool) = Returned AddRateLimited \<and> find_pool ''a'' (snd (pass ''a'' (snd (pass ''a'' dying_pool)))) = None"
proof -
  let ?p = "(vlan_pool ''a'' net_a)\<lparr>po_Deleting := True, po_Finalizers := [IPPoolFinalizer]\<rparr>"
  have "find_pool ''a'' dying_pool = Some ?p" by (simp add: dying_pool_def find_pool_def mem_find_def vlan_pool_def)
  moreover have "unused_pool ''a'' dying_pool" by (simp add: unused_pool_def dying_pool_def no_pools_def)
  ultimately show ?thesis
    using unused_pool_deleted [of "''a''" dying_pool ?p] by (simp add: vlan_pool_def dying_pool_def)
qed

text \<open>A pool with one block, in which the first address is taken or not.\<close>

definition block_in :: "bool \<Rightarrow> ipam_block" where
  "block_in used =
     \<lparr>bk_Name = (6, \<lparr>c_IP = V4 net_a, c_Ones = 30\<rparr>), bk_PoolLabel = ''a'', bk_ResourceVersion = 1, bk_ID = 6,
      bk_CIDR = \<lparr>c_IP = V4 net_a, c_Ones = 30\<rparr>, bk_Allocations = [if used then Some 0 else None, None, None, None],
      bk_Unallocated = (if used then [] else [0]) @ [1, 2, 3],
      bk_Attributes = (if used then [\<lparr>AttrPrimary = ''h'', AttrSecondary = None\<rparr>] else []), bk_Deleted = False\<rparr>"

definition dying_pool_with :: "bool \<Rightarrow> pool_store" where
  "dying_pool_with used =
     dying_pool\<lparr>pst_pools := [(labelled (vlan_pool ''a'' net_a))\<lparr>po_Deleting := True, pool_Disabled := True\<rparr>],
       pst_ipam := \<lparr>ms_next = 2, ms_pools = [], ms_blocks = [block_in used], ms_handles = [], ms_seen = [block_in used], ms_writes = []\<rparr>\<rparr>"

text \<open>
  The pool with an empty block, already disabled, gives up its finalizer in one pass, in which the block is removed.
\<close>

definition given_up :: pool_object where
  "given_up = (hd (pst_pools (dying_pool_with False)))\<lparr>po_Finalizers := []\<rparr>"

theorem pool_deleted_with_empty_blocks_witness:
  "\<exists>p t u bs v. pa_getPool pools_api ''a'' (dying_pool_with False) = (Inr p, t) \<and> po_Deleting p \<and>
     disableIPPool pools_api p t = (Returned (), u) \<and> api_listBlocks pool_ipam (pool_Name p) u = (Inr bs, v) \<and>
     given_up = p\<lparr>po_Finalizers := RemoveFinalizer IPPoolFinalizer (po_Finalizers p)\<rparr> \<and>
     (\<forall>b \<in> set bs. seen_empty (set (ms_writes (pst_ipam (snd (processIPPool pools_api (local_provider pool_ipam) ''a'' (dying_pool_with False)))))) b \<and>
        bk_Name b \<in> gone_blocks (pst_ipam (snd (processIPPool pools_api (local_provider pool_ipam) ''a'' (dying_pool_with False)))))"
proof -
  let ?s = "dying_pool_with False" and ?run = "processIPPool pools_api (local_provider pool_ipam) ''a'' (dying_pool_with False)"
  have ok: "mem_ok (pst_ipam ?s)" by code_simp
  have new: "given_up \<in> set (pst_accepted (snd ?run)) - set (pst_accepted ?s)" "IPPoolFinalizer \<notin> set (po_Finalizers given_up)"
    by code_simp+
  from pool_deleted_with_empty_blocks [OF pool_memory.pool_server_axioms ok prod.collapse [symmetric]] new show ?thesis by meson
qed

theorem pool_in_use_not_retried_witness:
  "fst (processIPPool pools_api (local_provider pool_ipam) ''a'' (dying_pool_with True)) = Returned (Some 3, None) \<and>
   fst (pass ''a'' (dying_pool_with True)) = Returned Forget"
proof -
  let ?s = "dying_pool_with True" and ?prov = "local_provider pool_ipam"
  let ?p = "hd (pst_pools ?s)"
  have 1: "pa_getPool pools_api ''a'' ?s = (Inr ?p, ?s)" by code_simp
  have 2: "pool_Type_of (pool_spec ?p) = pp_Type ?prov" by code_simp
  have 3: "IsDeletionCandidate ?p IPPoolFinalizer" by code_simp
  have 4: "disableIPPool pools_api ?p ?s = (Returned (), ?s)" by code_simp
  have 5: "pp_DeleteIPPool ?prov ?p ?s = (Returned False, ?s)" by code_simp
  have 6: "fst (updateIPPoolStatus pools_api ?prov ?p ?s) = Returned ()" by code_simp
  show ?thesis using pool_in_use_not_retried [OF 1 2 3 4 5, of "snd (updateIPPoolStatus pools_api ?prov ?p ?s)"] 6
    by (metis fst_conv prod.collapse)
qed

end
