(* ===== verification/Quota_Resources.thy ===== *)
theory Quota_Resources
  imports Prelude "HOL-Library.List_Lexorder" "HOL-Library.Char_ord"
begin

text \<open>
  Arithmetic on resource lists (\<^verbatim>\<open>kube/pkg/quota/v1/resources.go\<close>). A resource list is a Go map from
  resource names to quantities; a quantity is an exact number, modelled by \<^typ>\<open>int\<close> in a fixed unit.
  Names are compared by bytes, the lexicographic order of strings.
\<close>

type_synonym resource_list = "(string, int) gomap"

section \<open>Operations\<close>

definition Equals :: "resource_list \<Rightarrow> resource_list \<Rightarrow> bool" where
  "Equals a b =
     (if length a \<noteq> length b then False
      else list_all (\<lambda>(key, value1). case map_of b key of
                       None \<Rightarrow> False
                     | Some value2 \<Rightarrow> value1 = value2) a)"

fun exceeding :: "resource_list \<Rightarrow> resource_list \<Rightarrow> string list" where
  "exceeding a [] = []"
| "exceeding a ((key, value) # b) =
     (case map_of a key of
        Some other \<Rightarrow> (if other > value then key # exceeding a b else exceeding a b)
      | None \<Rightarrow> exceeding a b)"

definition LessThanOrEqual :: "resource_list \<Rightarrow> resource_list \<Rightarrow> bool \<times> string list" where
  "LessThanOrEqual a b = (let names = exceeding a b in (names = [], names))"

text \<open>
  The loops of \<^verbatim>\<open>Max\<close>, \<^verbatim>\<open>Add\<close>, \<^verbatim>\<open>Subtract\<close> and \<^verbatim>\<open>SubtractWithNonNegativeResult\<close>: the first combines each
  entry of \<open>a\<close> with the entry of \<open>b\<close>, the second adds what only \<open>b\<close> has.
\<close>

fun merge_first :: "(int \<Rightarrow> int option \<Rightarrow> int) \<Rightarrow> resource_list \<Rightarrow> resource_list \<Rightarrow> resource_list \<Rightarrow> resource_list" where
  "merge_first f b [] acc = acc"
| "merge_first f b ((key, value) # a) acc =
     merge_first f b a (AList.update key (f value (map_of b key)) acc)"

fun merge_second :: "(int \<Rightarrow> int) \<Rightarrow> resource_list \<Rightarrow> resource_list \<Rightarrow> resource_list" where
  "merge_second g [] acc = acc"
| "merge_second g ((key, value) # b) acc =
     merge_second g b (if map_of acc key = None then AList.update key (g value) acc else acc)"

definition merge_lists ::
  "(int \<Rightarrow> int option \<Rightarrow> int) \<Rightarrow> (int \<Rightarrow> int) \<Rightarrow> resource_list \<Rightarrow> resource_list \<Rightarrow> resource_list" where
  "merge_lists f g a b = merge_second g b (merge_first f b a [])"

definition quota_Max :: "resource_list \<Rightarrow> resource_list \<Rightarrow> resource_list" where
  "quota_Max = merge_lists
     (\<lambda>value other. case other of Some x \<Rightarrow> (if value \<le> x then x else value) | None \<Rightarrow> value) (\<lambda>value. value)"

definition quota_Add :: "resource_list \<Rightarrow> resource_list \<Rightarrow> resource_list" where
  "quota_Add = merge_lists
     (\<lambda>value other. case other of Some x \<Rightarrow> value + x | None \<Rightarrow> value) (\<lambda>value. value)"

definition quota_Subtract :: "resource_list \<Rightarrow> resource_list \<Rightarrow> resource_list" where
  "quota_Subtract = merge_lists
     (\<lambda>value other. case other of Some x \<Rightarrow> value - x | None \<Rightarrow> value) (\<lambda>value. - value)"

definition SubtractWithNonNegativeResult :: "resource_list \<Rightarrow> resource_list \<Rightarrow> resource_list" where
  "SubtractWithNonNegativeResult = merge_lists
     (\<lambda>value other. let q = (case other of Some x \<Rightarrow> value - x | None \<Rightarrow> value) in if q > 0 then q else 0)
     (\<lambda>value. 0)"

definition Mask :: "resource_list \<Rightarrow> string list \<Rightarrow> resource_list" where
  "Mask resources names = filter (\<lambda>(key, _). key \<in> set names) resources"

definition ResourceNames_of :: "resource_list \<Rightarrow> string list" where
  "ResourceNames_of resources = map fst resources"

definition ContainsName :: "string list \<Rightarrow> string \<Rightarrow> bool" where
  "ContainsName items item = list_ex (\<lambda>i. i = item) items"

definition ContainsPrefix :: "string list \<Rightarrow> string \<Rightarrow> bool" where
  "ContainsPrefix prefixSet item = list_ex (\<lambda>p. HasPrefix item p) prefixSet"

fun intersect_loop :: "string list \<Rightarrow> string list \<Rightarrow> string list \<Rightarrow> string list" where
  "intersect_loop b [] result = result"
| "intersect_loop b (item # a) result =
     (if ContainsName result item then intersect_loop b a result
      else if \<not> ContainsName b item then intersect_loop b a result
      else intersect_loop b a (result @ [item]))"

definition Intersection :: "string list \<Rightarrow> string list \<Rightarrow> string list" where
  "Intersection a b = sort (intersect_loop b a [])"

fun difference_loop :: "string list \<Rightarrow> string list \<Rightarrow> string list \<Rightarrow> string list" where
  "difference_loop b [] result = result"
| "difference_loop b (item # a) result =
     (if ContainsName b item \<or> ContainsName result item then difference_loop b a result
      else difference_loop b a (result @ [item]))"

definition Difference :: "string list \<Rightarrow> string list \<Rightarrow> string list" where
  "Difference a b = sort (difference_loop b a [])"

definition IsZero :: "resource_list \<Rightarrow> bool" where
  "IsZero a = list_all (\<lambda>(_, v). v = 0) a"

definition IsNegative :: "resource_list \<Rightarrow> string list" where
  "IsNegative a = map fst (filter (\<lambda>(_, v). v < 0) a)"

text \<open>An evaluator as \<^verbatim>\<open>CalculateUsage\<close> uses it: the resources it matches and the observed usage.\<close>

record usage_evaluator =
  ue_MatchingResources :: "string list \<Rightarrow> string list"
  ue_UsageStats :: "string list \<Rightarrow> (string, resource_list) result"

fun usage_loop ::
  "usage_evaluator list \<Rightarrow> string list \<Rightarrow> resource_list \<Rightarrow> string list \<Rightarrow> resource_list \<times> string list \<times> string list" where
  "usage_loop [] matched newUsage errors = (newUsage, matched, errors)"
| "usage_loop (e # es) matched newUsage errors =
     (let inter = ue_MatchingResources e matched in
      if length inter = 0 then usage_loop es matched newUsage errors
      else
        (case ue_UsageStats e inter of
           Inl err \<Rightarrow> usage_loop es (Difference matched inter) newUsage (errors @ [err])
         | Inr used \<Rightarrow> usage_loop es matched (quota_Add newUsage used) errors))"

definition CalculateUsage :: "usage_evaluator list \<Rightarrow> resource_list \<Rightarrow> resource_list \<times> string list" where
  "CalculateUsage evaluators hardLimits =
     (let hardResources = ResourceNames_of hardLimits;
          potential = concat (map (\<lambda>e. ue_MatchingResources e hardResources) evaluators);
          matched = Intersection hardResources potential;
          (newUsage, matched', errors) = usage_loop evaluators matched [] []
      in (Mask newUsage matched', errors))"

section \<open>Laws\<close>

named_theorems quota_lookup \<open>what a resource list computed by the library contains\<close>

lemma wf_merge_first [simp]: "wf_map acc \<Longrightarrow> wf_map (merge_first f b a acc)"
  by (induction f b a acc rule: merge_first.induct) auto

lemma wf_merge_second [simp]: "wf_map acc \<Longrightarrow> wf_map (merge_second g b acc)"
  by (induction g b acc rule: merge_second.induct) auto

lemma merge_first_lookup:
  "wf_map a \<Longrightarrow> map_of (merge_first f b a acc) k =
     (case map_of a k of Some v \<Rightarrow> Some (f v (map_of b k)) | None \<Rightarrow> map_of acc k)"
proof (induction a arbitrary: acc)
  case (Cons x a)
  obtain key v where x: "x = (key, v)" by (cases x)
  have "map_of a key = None" "wf_map a"
    using Cons.prems by (auto simp: wf_map_def x map_of_eq_None_iff)
  with Cons.IH show ?case by (auto simp: x split: option.splits)
qed simp

lemma merge_second_lookup:
  "map_of (merge_second g b acc) k =
     (case map_of acc k of Some v \<Rightarrow> Some v | None \<Rightarrow> map_option g (map_of b k))"
proof (induction g b acc rule: merge_second.induct)
  case (2 g key v b acc)
  then show ?case by (cases "k = key") (auto split: option.splits)
qed (simp split: option.splits)

lemma merge_lists_lookup:
  "wf_map a \<Longrightarrow> map_of (merge_lists f g a b) k =
     (case map_of a k of Some v \<Rightarrow> Some (f v (map_of b k)) | None \<Rightarrow> map_option g (map_of b k))"
  by (auto simp: merge_lists_def merge_second_lookup merge_first_lookup split: option.splits)

lemma wf_merge_lists [simp]: "wf_map (merge_lists f g a b)"
  by (simp add: merge_lists_def)

text \<open>Quantities of a list, with zero for a resource it does not name.\<close>

definition qty :: "resource_list \<Rightarrow> string \<Rightarrow> int" where
  "qty a k = map_get 0 a k"

lemma qty_Add [quota_lookup]: "wf_map a \<Longrightarrow> qty (quota_Add a b) k = qty a k + qty b k"
  by (auto simp: qty_def map_get_def quota_Add_def merge_lists_lookup split: option.splits)

lemma qty_Subtract [quota_lookup]: "wf_map a \<Longrightarrow> qty (quota_Subtract a b) k = qty a k - qty b k"
  by (auto simp: qty_def map_get_def quota_Subtract_def merge_lists_lookup split: option.splits)

lemma qty_SubtractNonNegative [quota_lookup]:
  "wf_map a \<Longrightarrow> map_of a k \<noteq> None \<Longrightarrow> qty (SubtractWithNonNegativeResult a b) k = max 0 (qty a k - qty b k)"
  by (auto simp: qty_def map_get_def SubtractWithNonNegativeResult_def merge_lists_lookup Let_def
      split: option.splits)

lemma wf_Mask [simp]: "wf_map a \<Longrightarrow> wf_map (Mask a names)"
  by (auto simp: wf_map_def Mask_def distinct_map_filter)

lemma map_of_Mask [quota_lookup]: "map_of (Mask a names) k = (if k \<in> set names then map_of a k else None)"
  by (induction a) (auto simp: Mask_def)

lemma wf_results [simp]:
  "wf_map (quota_Add a b)" "wf_map (quota_Subtract a b)" "wf_map (SubtractWithNonNegativeResult a b)"
  "wf_map (quota_Max a b)"
  by (simp_all add: quota_Add_def quota_Subtract_def SubtractWithNonNegativeResult_def quota_Max_def)

lemma map_of_Add [quota_lookup]:
  "wf_map a \<Longrightarrow> map_of (quota_Add a b) k =
     (if map_of a k = None \<and> map_of b k = None then None else Some (qty a k + qty b k))"
  by (auto simp: qty_def map_get_def quota_Add_def merge_lists_lookup split: option.splits)

lemma exceeding_iff:
  "wf_map b \<Longrightarrow> k \<in> set (exceeding a b) \<longleftrightarrow> (\<exists>x v. map_of a k = Some x \<and> map_of b k = Some v \<and> x > v)"
proof (induction a b rule: exceeding.induct)
  case (2 a key v b)
  have "map_of b key = None" "wf_map b"
    using 2(4) by (auto simp: wf_map_def map_of_eq_None_iff)
  with 2 show ?case by (auto split: option.splits if_splits)
qed simp

lemma Equals_iff:
  assumes "wf_map a" "wf_map b"
  shows "Equals a b \<longleftrightarrow> map_of a = map_of b"
proof -
  have d: "finite (dom (map_of m))" "card (dom (map_of m)) = length m" if "wf_map m" for m :: resource_list
    using distinct_card [of "map fst m"] that
    by (simp_all add: finite_dom_map_of wf_map_def dom_map_of_conv_image_fst)
  have all: "list_all (\<lambda>(key, v1). case map_of b key of None \<Rightarrow> False | Some v2 \<Rightarrow> v1 = v2) a \<longleftrightarrow>
      (\<forall>k v. (k, v) \<in> set a \<longrightarrow> map_of b k = Some v)"
    by (auto simp: list_all_iff split: option.split_asm option.split)
  have sub: "list_all (\<lambda>(key, v1). case map_of b key of None \<Rightarrow> False | Some v2 \<Rightarrow> v1 = v2) a \<longleftrightarrow>
      map_of a \<subseteq>\<^sub>m map_of b"
    unfolding all wf_map_map_of [OF assms(1)] map_le_def by (auto simp: dom_def)
  show ?thesis
  proof
    assume eq: "Equals a b"
    then have le: "map_of a \<subseteq>\<^sub>m map_of b" and len: "length a = length b"
      using sub by (auto simp: Equals_def split: if_splits)
    have "dom (map_of a) = dom (map_of b)"
      by (rule card_subset_eq [OF d(1) [OF assms(2)] map_le_implies_dom_le [OF le]])
         (simp add: d(2) assms len)
    with le have "map_of b \<subseteq>\<^sub>m map_of a" by (simp add: map_le_def)
    with le show "map_of a = map_of b" by (rule map_le_antisym)
  next
    assume eq: "map_of a = map_of b"
    then have "length a = length b" using d(2) [OF assms(1)] d(2) [OF assms(2)] by simp
    with eq sub show "Equals a b" by (simp add: Equals_def)
  qed
qed


lemma ContainsName_iff [simp]: "ContainsName xs x \<longleftrightarrow> x \<in> set xs"
  by (auto simp: ContainsName_def list_ex_iff)

lemma intersect_loop_spec:
  "distinct result \<Longrightarrow> distinct (intersect_loop b a result) \<and>
     set (intersect_loop b a result) = set result \<union> (set a \<inter> set b)"
  by (induction b a result rule: intersect_loop.induct) auto

lemma difference_loop_spec:
  "distinct result \<Longrightarrow> distinct (difference_loop b a result) \<and>
     set (difference_loop b a result) = set result \<union> (set a - set b)"
  by (induction b a result rule: difference_loop.induct) auto

lemma Difference_spec: "distinct (Difference a b) \<and> set (Difference a b) = set a - set b"
  using difference_loop_spec [of "[]" b a] by (simp add: Difference_def)

lemma Intersection_spec: "distinct (Intersection a b) \<and> set (Intersection a b) = set a \<inter> set b"
  using intersect_loop_spec [of "[]" b a] by (simp add: Intersection_def)

text \<open>
  The intersection and the difference of two lists of resource names, computed by scanning with
  duplicate checks and sorting, are the sorted, duplicate-free lists of the set intersection and the
  set difference.
\<close>

theorem Intersection_Difference_canonical:
  "Intersection a b = sorted_list_of_set (set a \<inter> set b) \<and>
   Difference a b = sorted_list_of_set (set a - set b)"
proof -
  have "xs = sorted_list_of_set (set xs)" if "sorted xs" "distinct xs" for xs :: "string list"
    using that sorted_list_of_set.idem_if_sorted_distinct by metis
  moreover have "sorted (Intersection a b)" "sorted (Difference a b)"
    by (simp_all add: Intersection_def Difference_def)
  ultimately show ?thesis using Intersection_spec [of a b] Difference_spec [of a b] by metis
qed

text \<open>
  Adding and subtracting resource lists is pointwise, with zero for a resource a list does not
  name, so subtracting what was added restores every quantity; two lists compare equal exactly when they
  name the same resources with the same quantities.
\<close>

theorem resource_list_arithmetic:
  assumes "wf_map a" "wf_map b"
  shows "qty (quota_Add a b) k = qty a k + qty b k \<and>
    qty (quota_Subtract a b) k = qty a k - qty b k \<and>
    qty (quota_Subtract (quota_Add a b) b) k = qty a k \<and>
    (Equals a b \<longleftrightarrow> map_of a = map_of b)"
  using assms by (simp add: quota_lookup Equals_iff)

theorem resource_list_arithmetic_witness:
  "qty (quota_Subtract (quota_Add [(''cpu'', 2)] [(''cpu'', 3), (''pods'', 1)]) [(''cpu'', 3), (''pods'', 1)]) ''cpu'' = 2"
  using resource_list_arithmetic [of "[(''cpu'', 2)]" "[(''cpu'', 3), (''pods'', 1)]" "''cpu''"]
  by (simp add: wf_map_def qty_def map_get_def)

end
