(* ===== verification/Quota_Admission.thy ===== *)
theory Quota_Admission
  imports Quota_Resources
begin

text \<open>
  The quota admission controller (\<^verbatim>\<open>kube/plugin/pkg/admission/resourcequota/controller.go\<close>): checking one
  request against the quotas of its namespace, checking a batch of waiting requests and persisting the
  usage, with retries.

  The evaluator of a kind of object, which measures usage and matches quotas, is a record of functions;
  objects are an arbitrary type. The quota accessor, which reads quotas and updates their status, is a
  record of functions on an abstract server state.
\<close>

section \<open>Data\<close>

record scope_requirement =
  sr_ScopeName :: string
  sr_Operator :: string
  sr_Values :: "string list"

text \<open>A quota with its metadata: the owner is the identifier of the controller that owns it.\<close>

record resource_quota =
  rq_APIVersion :: string
  rq_Name :: string
  rq_Namespace :: string
  rq_ResourceVersion :: nat
  rq_UID :: string
  rq_Labels :: "(string, string) gomap"
  rq_Owner :: "string option"
  rq_Scopes :: "string list"
  rq_ScopeSelector :: "scope_requirement list option"
  rq_Hard :: resource_list
  rq_Used :: resource_list

record limited_resource =
  lr_APIGroup :: string
  lr_Resource :: string
  lr_MatchContains :: "string list"
  lr_MatchScopes :: "scope_requirement list"

datatype operation = Create | Update | Delete | Connect

record 'o admission_attributes =
  ad_GroupResource :: "string \<times> string"
  ad_Namespace :: string
  ad_Operation :: operation
  ad_Object :: 'o
  ad_OldObject :: "'o option"
  ad_DryRun :: bool

text \<open>
  The interface of an evaluator, and of \<^verbatim>\<open>meta.Accessor\<close>: the resource version of an object when it has
  metadata, and the object with its namespace set when it has none.
\<close>

record 'o evaluator =
  ev_Handles :: "'o admission_attributes \<Rightarrow> bool"
  ev_MatchingScopes :: "'o \<Rightarrow> scope_requirement list \<Rightarrow> (string, scope_requirement list) result"
  ev_Matches :: "resource_quota \<Rightarrow> 'o \<Rightarrow> (string, bool) result"
  ev_MatchingResources :: "string list \<Rightarrow> string list"
  ev_Constraints :: "string list \<Rightarrow> 'o \<Rightarrow> string option"
  ev_Usage :: "'o \<Rightarrow> (string, resource_list) result"
  ev_UncoveredQuotaScopes ::
    "scope_requirement list \<Rightarrow> scope_requirement list \<Rightarrow> (string, scope_requirement list) result"
  ev_ResourceVersion :: "'o \<Rightarrow> string option"
  ev_DefaultNamespace :: "string \<Rightarrow> 'o \<Rightarrow> 'o"

datatype quota_error =
    DefaultDeny
  | EvaluatorError string
  | ScopesOfQuota string string
  | FailedQuota string string
  | StatusUnknown string "string list"
  | NegativeUsage "string list"
  | NoPriorObject
  | InsufficientQuota "string list"
  | UncoveredScopes "scope_requirement list"
  | ExceededQuota string resource_list resource_list resource_list
  | AccessorError string

section \<open>Checking one request\<close>

definition filterLimitedResourcesByGroupResource ::
  "limited_resource list \<Rightarrow> string \<times> string \<Rightarrow> limited_resource list" where
  "filterLimitedResourcesByGroupResource input groupResource =
     filter (\<lambda>l. (lr_APIGroup l, lr_Resource l) = groupResource) input"

definition limitedByDefault :: "resource_list \<Rightarrow> limited_resource list \<Rightarrow> string list" where
  "limitedByDefault usage limitedResources =
     concat (map (\<lambda>l. map fst (filter (\<lambda>(k, v). v > 0 \<and> list_ex (\<lambda>c. Contains k c) (lr_MatchContains l)) usage))
       limitedResources)"

fun getMatchedLimitedScopes ::
  "'o evaluator \<Rightarrow> 'o \<Rightarrow> limited_resource list \<Rightarrow> (string, scope_requirement list) result" where
  "getMatchedLimitedScopes ev obj [] = Inr []"
| "getMatchedLimitedScopes ev obj (l # ls) =
     (case ev_MatchingScopes ev obj (lr_MatchScopes l) of
        Inl e \<Rightarrow> Inl e
      | Inr matched \<Rightarrow>
          (case getMatchedLimitedScopes ev obj ls of Inl e \<Rightarrow> Inl e | Inr rest \<Rightarrow> Inr (matched @ rest)))"

definition getScopeSelectorsFromQuota :: "resource_quota \<Rightarrow> scope_requirement list" where
  "getScopeSelectorsFromQuota q =
     map (\<lambda>s. \<lparr>sr_ScopeName = s, sr_Operator = ''Exists'', sr_Values = []\<rparr>) (rq_Scopes q) @
     (case rq_ScopeSelector q of None \<Rightarrow> [] | Some es \<Rightarrow> es)"

definition hasUsageStats :: "resource_quota \<Rightarrow> string list \<Rightarrow> bool" where
  "hasUsageStats q interesting =
     list_all (\<lambda>(r, _). r \<in> set interesting \<longrightarrow> map_of (rq_Used q) r \<noteq> None) (rq_Hard q)"

text \<open>
  The loop over the quotas: it collects the indexes of those that match the object, the resources they
  restrict and the scopes they cover, and rejects on a failing constraint or unknown usage.
\<close>

fun match_quotas ::
  "'o evaluator \<Rightarrow> 'o \<Rightarrow> nat \<Rightarrow> resource_quota list \<Rightarrow>
   (quota_error, nat list \<times> string list \<times> scope_requirement list) result" where
  "match_quotas ev obj i [] = Inr ([], [], [])"
| "match_quotas ev obj i (q # qs) =
     (case ev_MatchingScopes ev obj (getScopeSelectorsFromQuota q) of
        Inl e \<Rightarrow> Inl (ScopesOfQuota (rq_Name q) e)
      | Inr scopes \<Rightarrow>
          (case ev_Matches ev q obj of
             Inl e \<Rightarrow> Inl (EvaluatorError e)
           | Inr False \<Rightarrow>
               bind_result (match_quotas ev obj (Suc i) qs) (\<lambda>(idx, res, scs). Inr (idx, res, scopes @ scs))
           | Inr True \<Rightarrow>
               (let restricted = ev_MatchingResources ev (ResourceNames_of (rq_Hard q)) in
                case ev_Constraints ev restricted obj of
                  Some e \<Rightarrow> Inl (FailedQuota (rq_Name q) e)
                | None \<Rightarrow>
                    (if \<not> hasUsageStats q restricted then Inl (StatusUnknown (rq_Name q) restricted)
                     else
                       bind_result (match_quotas ev obj (Suc i) qs) (\<lambda>(idx, res, scs).
                         Inr (i # idx, restricted @ res, scopes @ scs))))))"

text \<open>The usage to charge: what the object uses, less what its previous version used.\<close>

definition delta_usage ::
  "'o evaluator \<Rightarrow> 'o admission_attributes \<Rightarrow> 'o \<Rightarrow> (quota_error, resource_list) result" where
  "delta_usage ev a obj =
     (case ev_Usage ev obj of
        Inl e \<Rightarrow> Inl (EvaluatorError e)
      | Inr usage \<Rightarrow>
          (if length (IsNegative usage) > 0 then Inl (NegativeUsage (IsNegative usage))
           else if ad_Operation a = Update then
             (case ad_OldObject a of
                None \<Rightarrow> Inl NoPriorObject
              | Some prev \<Rightarrow>
                  (case ev_ResourceVersion ev prev of
                     None \<Rightarrow> Inr usage
                   | Some v \<Rightarrow>
                       (if length v > 0 then
                          (case ev_Usage ev prev of
                             Inl e \<Rightarrow> Inl (EvaluatorError e)
                           | Inr prevUsage \<Rightarrow> Inr (SubtractWithNonNegativeResult usage prevUsage))
                        else Inr usage)))
           else Inr usage))"

definition charge_quota :: "resource_list \<Rightarrow> resource_quota \<Rightarrow> (quota_error, resource_quota) result" where
  "charge_quota deltaUsage q =
     (let requestedUsage = Mask deltaUsage (ResourceNames_of (rq_Hard q));
          newUsage = quota_Add (rq_Used q) requestedUsage;
          maskedNewUsage = Mask newUsage (ResourceNames_of requestedUsage);
          (allowed, exceeded) = LessThanOrEqual maskedNewUsage (rq_Hard q)
      in if \<not> allowed
         then Inl (ExceededQuota (rq_Name q) (Mask requestedUsage exceeded) (Mask (rq_Used q) exceeded)
                     (Mask (rq_Hard q) exceeded))
         else Inr (q\<lparr>rq_Used := newUsage\<rparr>))"

fun charge_quotas ::
  "resource_list \<Rightarrow> nat list \<Rightarrow> resource_quota list \<Rightarrow> (quota_error, resource_quota list) result" where
  "charge_quotas delta [] qs = Inr qs"
| "charge_quotas delta (i # idx) qs =
     (case charge_quota delta (qs ! i) of
        Inl e \<Rightarrow> Inl e
      | Inr q \<Rightarrow> charge_quotas delta idx (qs[i := q]))"

definition limited_names ::
  "'o evaluator \<Rightarrow> limited_resource list \<Rightarrow> 'o admission_attributes \<Rightarrow> (quota_error, string list) result" where
  "limited_names ev limited a =
     (let limitedResources = filterLimitedResourcesByGroupResource limited (ad_GroupResource a) in
      if length limitedResources > 0
      then (case ev_Usage ev (ad_Object a) of
              Inl e \<Rightarrow> Inl (EvaluatorError e)
            | Inr usage \<Rightarrow> Inr (limitedByDefault usage limitedResources))
      else Inr [])"

definition CheckRequest ::
  "resource_quota list \<Rightarrow> 'o admission_attributes \<Rightarrow> 'o evaluator \<Rightarrow> limited_resource list \<Rightarrow>
   (quota_error, resource_quota list) result" where
  "CheckRequest quotas a ev limited =
     (if \<not> ev_Handles ev a then Inr quotas
      else
        (case getMatchedLimitedScopes ev (ad_Object a) limited of
           Inl _ \<Rightarrow> Inr quotas
         | Inr limitedScopes \<Rightarrow>
             bind_result (limited_names ev limited a) (\<lambda>limitedNames.
             bind_result (match_quotas ev (ad_Object a) 0 quotas) (\<lambda>(indexes, restricted, restrictedScopes).
             let obj = (if ad_Namespace a \<noteq> [] then ev_DefaultNamespace ev (ad_Namespace a) (ad_Object a)
                        else ad_Object a) in
             bind_result (delta_usage ev a obj) (\<lambda>delta.
             if IsZero delta then Inr quotas
             else if Difference limitedNames restricted \<noteq> []
             then Inl (InsufficientQuota (Difference limitedNames restricted))
             else
               (case ev_UncoveredQuotaScopes ev limitedScopes restrictedScopes of
                  Inl e \<Rightarrow> Inl (EvaluatorError e)
                | Inr uncovered \<Rightarrow>
                    (if length uncovered > 0 then Inl (UncoveredScopes uncovered)
                     else if length indexes = 0 then Inr quotas
                     else charge_quotas delta indexes quotas)))))))"

text \<open>The registry of evaluators: a resource without one is not limited.\<close>

type_synonym 'o registry = "string \<times> string \<Rightarrow> 'o evaluator option"

definition checkRequest ::
  "'o registry \<Rightarrow> limited_resource list \<Rightarrow> resource_quota list \<Rightarrow> 'o admission_attributes \<Rightarrow>
   (quota_error, resource_quota list) result" where
  "checkRequest registry limited quotas a =
     (case registry (ad_GroupResource a) of
        None \<Rightarrow> Inr quotas
      | Some ev \<Rightarrow> CheckRequest quotas a ev limited)"

section \<open>Checking a batch\<close>

text \<open>A waiter carries a request and its result; nil is \<^const>\<open>None\<close>.\<close>

record 'o waiter =
  wt_attributes :: "'o admission_attributes"
  wt_result :: "quota_error option"

text \<open>
  The accessor, and the function that locks quotas before they are checked, if there is one: it may reorder them
  in place and returns how they are unlocked.
\<close>

record 's quota_accessor =
  qa_lockAcquisition :: "(resource_quota list \<Rightarrow> 's \<Rightarrow> (resource_quota list \<times> ('s \<Rightarrow> 's)) \<times> 's) option"
  qa_GetQuotas :: "string \<Rightarrow> 's \<Rightarrow> (string, resource_quota list) result \<times> 's"
  qa_UpdateQuotaStatus :: "resource_quota \<Rightarrow> 's \<Rightarrow> string option \<times> 's"

definition any_changed :: "resource_quota list \<Rightarrow> resource_quota list \<Rightarrow> bool" where
  "any_changed qs ns = list_ex (\<lambda>j. \<not> Equals (rq_Used (qs ! j)) (rq_Used (ns ! j))) [0..<length ns]"

text \<open>The first loop: the running quotas, the waiters with their results, and whether anything changed.\<close>

fun check_waiters ::
  "'o registry \<Rightarrow> limited_resource list \<Rightarrow> resource_quota list \<Rightarrow> 'o waiter list \<Rightarrow>
   resource_quota list \<times> 'o waiter list \<times> bool" where
  "check_waiters registry limited quotas [] = (quotas, [], False)"
| "check_waiters registry limited quotas (w # ws) =
     (case checkRequest registry limited quotas (wt_attributes w) of
        Inl e \<Rightarrow>
          (let (qs, ws', c) = check_waiters registry limited quotas ws in (qs, w\<lparr>wt_result := Some e\<rparr> # ws', c))
      | Inr newQuotas \<Rightarrow>
          (if ad_DryRun (wt_attributes w)
           then (let (qs, ws', c) = check_waiters registry limited quotas ws in (qs, w\<lparr>wt_result := None\<rparr> # ws', c))
           else
             (let changed = any_changed quotas newQuotas;
                  w' = (if changed then w else w\<lparr>wt_result := None\<rparr>);
                  (qs, ws', c) = check_waiters registry limited newQuotas ws
              in (qs, w' # ws', changed \<or> c))))"

text \<open>The second loop: persist the quotas that changed, and collect those whose update failed.\<close>

fun update_quotas ::
  "'s quota_accessor \<Rightarrow> resource_quota list \<Rightarrow> resource_quota list \<Rightarrow> 's \<Rightarrow>
   (resource_quota list \<times> string option) \<times> 's" where
  "update_quotas acc (orig # origs) (q # qs) s =
     (if Equals (rq_Used orig) (rq_Used q) then update_quotas acc origs qs s
      else
        (case qa_UpdateQuotaStatus acc q s of
           (None, s') \<Rightarrow> update_quotas acc origs qs s'
         | (Some e, s') \<Rightarrow>
             (let ((failed, lastErr), s'') = update_quotas acc origs qs s' in
              ((q # failed, case lastErr of None \<Rightarrow> Some e | Some e' \<Rightarrow> Some e'), s''))))"
| "update_quotas acc _ _ s = (([], None), s)"

definition resolve_default :: "quota_error option \<Rightarrow> 'o waiter list \<Rightarrow> 'o waiter list" where
  "resolve_default r ws = map (\<lambda>w. if wt_result w = Some DefaultDeny then w\<lparr>wt_result := r\<rparr> else w) ws"

fun checkQuotas ::
  "'o registry \<Rightarrow> limited_resource list \<Rightarrow> 's quota_accessor \<Rightarrow> nat \<Rightarrow> resource_quota list \<Rightarrow> 'o waiter list \<Rightarrow> 's \<Rightarrow>
   'o waiter list \<times> 's" where
  "checkQuotas registry limited acc retries quotas waiters s =
     (let (running, ws, changed) = check_waiters registry limited quotas waiters in
      if \<not> changed then (ws, s)
      else
        (let ((failed, lastErr), s1) = update_quotas acc quotas running s;
             giveUp = resolve_default (map_option AccessorError lastErr) ws
         in if length failed = 0 then (resolve_default None ws, s1)
            else
              (case retries of
                 0 \<Rightarrow> (giveUp, s1)
               | Suc r \<Rightarrow>
                   (case qa_GetQuotas acc (rq_Namespace (hd running)) s1 of
                      (Inl e, s2) \<Rightarrow> (giveUp, s2)
                    | (Inr newQuotas, s2) \<Rightarrow>
                        checkQuotas registry limited acc r
                          (filter (\<lambda>n. list_ex (\<lambda>f. rq_Name n = rq_Name f) failed) newQuotas) ws s2))))"

declare checkQuotas.simps [simp del]

definition checkAttributes ::
  "'o registry \<Rightarrow> limited_resource list \<Rightarrow> 's quota_accessor \<Rightarrow> string \<Rightarrow> 'o waiter list \<Rightarrow> 's \<Rightarrow>
   'o waiter list \<times> 's" where
  "checkAttributes registry limited acc ns waiters s =
     (case qa_GetQuotas acc ns s of
        (Inl e, s1) \<Rightarrow> (map (\<lambda>w. w\<lparr>wt_result := Some (AccessorError e)\<rparr>) waiters, s1)
      | (Inr quotas, s1) \<Rightarrow>
          (if length quotas = 0 \<and> length limited = 0
           then (map (\<lambda>w. w\<lparr>wt_result := None\<rparr>) waiters, s1)
           else
             (case (case qa_lockAcquisition acc of None \<Rightarrow> ((quotas, id), s1) | Some lock \<Rightarrow> lock quotas s1) of
                ((locked, releaseLocks), s2) \<Rightarrow>
                  (case checkQuotas registry limited acc 3 locked waiters s2 of (ws, s3) \<Rightarrow> (ws, releaseLocks s3)))))"

section \<open>Quotas are respected\<close>

definition wf_quota :: "resource_quota \<Rightarrow> bool" where
  "wf_quota q = (wf_map (rq_Hard q) \<and> wf_map (rq_Used q))"

text \<open>
  Nothing of a quota but its usage has changed, which has only grown, and whatever has grown is limited by the
  quota and still within its hard limit.
\<close>

definition within :: "resource_quota \<Rightarrow> resource_quota \<Rightarrow> bool" where
  "within q q' \<longleftrightarrow>
     wf_quota q' \<and> q'\<lparr>rq_Used := []\<rparr> = q\<lparr>rq_Used := []\<rparr> \<and>
     (\<forall>r. qty (rq_Used q) r \<le> qty (rq_Used q') r \<and>
          (qty (rq_Used q') r = qty (rq_Used q) r \<or>
           (\<exists>h. map_of (rq_Hard q) r = Some h \<and> qty (rq_Used q') r \<le> h)))"

lemma within_meta:
  assumes "within q q'"
  shows "rq_Name q' = rq_Name q" "rq_Hard q' = rq_Hard q" "rq_APIVersion q' = rq_APIVersion q"
    "rq_Namespace q' = rq_Namespace q" "rq_ResourceVersion q' = rq_ResourceVersion q" "rq_UID q' = rq_UID q"
    "rq_Labels q' = rq_Labels q" "rq_Owner q' = rq_Owner q"
  using assms by (cases q; cases q'; simp add: within_def)+

lemma within_refl: "wf_quota q \<Longrightarrow> within q q"
  by (simp add: within_def)

lemma within_trans:
  assumes "within q1 q2" and "within q2 q3"
  shows "within q1 q3"
proof -
  have "qty (rq_Used q1) r \<le> qty (rq_Used q3) r \<and>
      (qty (rq_Used q3) r = qty (rq_Used q1) r \<or> (\<exists>h. map_of (rq_Hard q1) r = Some h \<and> qty (rq_Used q3) r \<le> h))" for r
    using assms within_meta(2) [OF assms(1)] unfolding within_def by (metis order_trans)
  then show ?thesis using assms by (simp add: within_def)
qed

lemma qty_in: "map_of a k = Some v \<Longrightarrow> qty a k = v"
  by (simp add: qty_def map_get_def)

lemma charge_quota_within:
  assumes wf: "wf_quota q" and delta: "wf_map delta" "\<And>k v. map_of delta k = Some v \<Longrightarrow> 0 \<le> v"
    and ok: "charge_quota delta q = Inr q'"
  shows "within q q'"
proof -
  let ?req = "Mask delta (ResourceNames_of (rq_Hard q))"
  let ?new = "quota_Add (rq_Used q) ?req"
  have names: "set (ResourceNames_of m) = dom (map_of m)" for m :: resource_list
    by (simp add: ResourceNames_of_def dom_map_of_conv_image_fst)
  have hard: "wf_map (rq_Hard q)" and used: "wf_map (rq_Used q)" using wf by (simp_all add: wf_quota_def)
  have q': "q' = q\<lparr>rq_Used := ?new\<rparr>"
    and none: "exceeding (Mask ?new (ResourceNames_of ?req)) (rq_Hard q) = []"
    using ok by (auto simp: charge_quota_def Let_def LessThanOrEqual_def split: if_splits)
  have new: "qty ?new r = qty (rq_Used q) r + qty ?req r" for r using qty_Add [OF used] .
  have "0 \<le> qty ?req r \<and> (qty ?req r = 0 \<or> (\<exists>h. map_of (rq_Hard q) r = Some h \<and> qty ?new r \<le> h))" for r
  proof (cases "map_of ?req r")
    case None
    then show ?thesis by (simp add: qty_def map_get_def)
  next
    case (Some v)
    then obtain h where h: "map_of (rq_Hard q) r = Some h" and v: "map_of delta r = Some v"
      by (auto simp: map_of_Mask names split: if_splits)
    have "map_of (Mask ?new (ResourceNames_of ?req)) r = Some (qty ?new r)"
      using Some by (simp add: map_of_Mask names map_of_Add [OF used] new [symmetric] dom_def)
    with none h exceeding_iff [OF hard, of r] have "qty ?new r \<le> h" by (metis empty_iff list.set(1) not_le)
    with h delta(2) [OF v] Some show ?thesis by (simp add: qty_in)
  qed
  with new q' wf show ?thesis by (simp add: within_def wf_quota_def)
qed

lemma charge_quotas_within:
  assumes "list_all wf_quota qs" "wf_map delta" "\<And>k v. map_of delta k = Some v \<Longrightarrow> 0 \<le> v"
    and "\<forall>i \<in> set idx. i < length qs" "charge_quotas delta idx qs = Inr out"
  shows "list_all2 within qs out"
  using assms
proof (induction idx arbitrary: qs)
  case Nil
  then show ?case by (auto simp: list_all_iff list_all2_conv_all_nth within_refl)
next
  case (Cons i idx)
  then obtain q where q: "charge_quota delta (qs ! i) = Inr q" "charge_quotas delta idx (qs[i := q]) = Inr out"
    by (auto split: sum.splits)
  have i: "i < length qs" "wf_quota (qs ! i)" using Cons.prems by (auto simp: list_all_length)
  have w: "within (qs ! i) q" by (rule charge_quota_within [OF i(2) Cons.prems(2,3) q(1)])
  then have "wf_quota q" by (simp add: within_def)
  then have wf: "list_all wf_quota (qs[i := q])"
    using Cons.prems(1) set_update_subset_insert [of qs i q] by (auto simp: list_all_iff)
  have "list_all2 within (qs[i := q]) out"
    by (rule Cons.IH [OF wf Cons.prems(2,3) _ q(2)]) (use Cons.prems(4) in auto)
  then show ?case
    using w i Cons.prems(1)
    by (auto simp: list_all2_conv_all_nth nth_list_update list_all_length split: if_splits
        intro: within_trans)
qed

lemma match_quotas_indexes:
  "match_quotas ev obj i qs = Inr (idx, res, scs) \<Longrightarrow> \<forall>j \<in> set idx. i \<le> j \<and> j < i + length qs"
proof (induction ev obj i qs arbitrary: idx res scs rule: match_quotas.induct)
  case (2 ev obj i q qs)
  then show ?case
    by (fastforce simp: bind_result_Inr_iff Let_def split: sum.splits option.splits if_splits bool.splits)
qed simp

text \<open>The usage an evaluator reports is a map, and the usage charged is never negative.\<close>

definition wf_evaluator :: "'o evaluator \<Rightarrow> bool" where
  "wf_evaluator ev \<longleftrightarrow> (\<forall>obj u. ev_Usage ev obj = Inr u \<longrightarrow> wf_map u)"

lemma delta_usage_nonneg:
  assumes ev: "wf_evaluator ev" and d: "delta_usage ev a obj = Inr delta"
  shows "wf_map delta \<and> (\<forall>k v. map_of delta k = Some v \<longrightarrow> 0 \<le> v)"
proof -
  from d obtain usage where u: "ev_Usage ev obj = Inr usage" and pos: "IsNegative usage = []"
    by (auto simp: delta_usage_def split: sum.splits if_splits)
  have nn: "0 \<le> v" if "map_of usage k = Some v" for k v
    using pos map_of_SomeD [OF that] by (force simp: IsNegative_def filter_empty_conv)
  have wf: "wf_map usage" using ev u by (simp add: wf_evaluator_def)
  from d consider "delta = usage" | prev where "delta = SubtractWithNonNegativeResult usage prev"
    by (auto simp: delta_usage_def u split: sum.splits if_splits option.splits)
  then show ?thesis
  proof cases
    case 1
    with wf nn show ?thesis by blast
  next
    case 2
    with wf show ?thesis
      by (auto simp: SubtractWithNonNegativeResult_def merge_lists_lookup Let_def split: option.splits if_splits)
  qed
qed

lemma CheckRequest_within:
  assumes wf: "list_all wf_quota quotas" "wf_evaluator ev" and ok: "CheckRequest quotas a ev limited = Inr out"
  shows "list_all2 within quotas out"
proof -
  have refl: "list_all2 within quotas quotas"
    using wf(1) by (auto simp: list_all_length list_all2_conv_all_nth within_refl)
  from ok consider "out = quotas"
  | obj delta indexes res scs where "delta_usage ev a obj = Inr delta"
      "match_quotas ev (ad_Object a) 0 quotas = Inr (indexes, res, scs)"
      "charge_quotas delta indexes quotas = Inr out"
    by (auto simp: CheckRequest_def Let_def bind_result_Inr_iff split: if_splits sum.splits)
  then show ?thesis
  proof cases
    case 2
    note d = delta_usage_nonneg [OF wf(2) 2(1)]
    show ?thesis
      by (rule charge_quotas_within [OF wf(1) _ _ _ 2(3)]) (use d match_quotas_indexes [OF 2(2)] in auto)
  qed (simp add: refl)
qed

definition wf_registry :: "'o registry \<Rightarrow> bool" where
  "wf_registry registry \<longleftrightarrow> (\<forall>gr ev. registry gr = Some ev \<longrightarrow> wf_evaluator ev)"

lemma checkRequest_within:
  assumes "list_all wf_quota quotas" "wf_registry registry" "checkRequest registry limited quotas a = Inr out"
  shows "list_all2 within quotas out"
proof (cases "registry (ad_GroupResource a)")
  case None
  with assms show ?thesis
    by (auto simp: checkRequest_def list_all_length list_all2_conv_all_nth within_refl)
next
  case (Some ev)
  then have "wf_evaluator ev" using assms(2) by (simp add: wf_registry_def del: split_paired_All)
  from CheckRequest_within [OF assms(1) this] Some assms(3) show ?thesis by (simp add: checkRequest_def)
qed

lemma within_list_wf: "list_all2 within qs qs' \<Longrightarrow> list_all wf_quota qs'"
  by (auto simp: list_all2_conv_all_nth list_all_length within_def)

lemma within_list_trans: "list_all2 within a b \<Longrightarrow> list_all2 within b c \<Longrightarrow> list_all2 within a c"
  by (rule list_all2_trans [OF within_trans])

lemma check_waiters_within:
  assumes "wf_registry registry"
  shows "list_all wf_quota quotas \<Longrightarrow> check_waiters registry limited quotas ws = (running, ws', c) \<Longrightarrow>
    list_all2 within quotas running"
proof (induction ws arbitrary: quotas running ws' c)
  case Nil
  then show ?case by (auto simp: list_all_length list_all2_conv_all_nth within_refl)
next
  case (Cons w ws)
  show ?case
  proof (cases "checkRequest registry limited quotas (wt_attributes w)")
    case (Inl e)
    with Cons show ?thesis by (auto split: prod.splits)
  next
    case (Inr new)
    note step = checkRequest_within [OF Cons.prems(1) assms Inr]
    show ?thesis
    proof (cases "ad_DryRun (wt_attributes w)")
      case True
      with Inr Cons show ?thesis by (auto split: prod.splits)
    next
      case False
      with Inr Cons.prems(2) obtain ws'' c' where
        "check_waiters registry limited new ws = (running, ws'', c')"
        by (auto simp: Let_def split: prod.splits)
      from within_list_trans [OF step Cons.IH [OF within_list_wf [OF step] this]] show ?thesis .
    qed
  qed
qed

text \<open>
  A request that passes the check leaves every quota's usage the same or grown, and every resource whose
  usage has grown is limited by that quota and stays within its hard limit.
\<close>

theorem CheckRequest_respects_quotas:
  assumes "list_all wf_quota quotas" "wf_evaluator ev" "CheckRequest quotas a ev limited = Inr out"
    and "i < length quotas" "qty (rq_Used (out ! i)) r \<noteq> qty (rq_Used (quotas ! i)) r"
  shows "length out = length quotas \<and> rq_Hard (out ! i) = rq_Hard (quotas ! i) \<and>
    qty (rq_Used (quotas ! i)) r < qty (rq_Used (out ! i)) r \<and>
    (\<exists>h. map_of (rq_Hard (quotas ! i)) r = Some h \<and> qty (rq_Used (out ! i)) r \<le> h)"
proof -
  note w = CheckRequest_within [OF assms(1-3)]
  then have "within (quotas ! i) (out ! i)" using assms(4) by (rule list_all2_nthD)
  with assms(5) have "qty (rq_Used (quotas ! i)) r < qty (rq_Used (out ! i)) r"
    unfolding within_def by (metis order_le_neq_trans)
  moreover have "\<exists>h. map_of (rq_Hard (quotas ! i)) r = Some h \<and> qty (rq_Used (out ! i)) r \<le> h"
    using \<open>within (quotas ! i) (out ! i)\<close> assms(5) unfolding within_def by blast
  ultimately show ?thesis
    using list_all2_lengthD [OF w] within_meta(2) [OF \<open>within (quotas ! i) (out ! i)\<close>] by simp
qed

section \<open>Every waiter is decided\<close>

lemma match_quotas_not_default: "match_quotas ev obj i qs \<noteq> Inl DefaultDeny"
  by (induction ev obj i qs rule: match_quotas.induct)
     (auto simp: bind_result_Inl_iff Let_def split: sum.splits option.splits bool.splits)

lemma charge_quotas_not_default: "charge_quotas delta idx qs \<noteq> Inl DefaultDeny"
  by (induction delta idx qs rule: charge_quotas.induct)
     (auto simp: charge_quota_def Let_def split: sum.splits prod.splits)

lemma delta_usage_not_default: "delta_usage ev a obj \<noteq> Inl DefaultDeny"
  by (simp add: delta_usage_def split: sum.splits option.splits)

lemma limited_names_not_default: "limited_names ev limited a \<noteq> Inl DefaultDeny"
  by (simp add: limited_names_def Let_def split: sum.splits)

lemmas not_default =
  match_quotas_not_default charge_quotas_not_default delta_usage_not_default limited_names_not_default

lemma CheckRequest_not_default: "CheckRequest quotas a ev limited \<noteq> Inl DefaultDeny"
  by (simp add: CheckRequest_def bind_result_Inl_iff Let_def not_default split: sum.splits prod.splits)

lemma checkRequest_not_default: "checkRequest registry limited quotas a \<noteq> Inl DefaultDeny"
  by (simp add: checkRequest_def CheckRequest_not_default split: option.splits)

lemma check_waiters_decided:
  "check_waiters registry limited quotas ws = (running, ws', c) \<Longrightarrow>
   map wt_attributes ws' = map wt_attributes ws \<and>
   (\<not> c \<longrightarrow> list_all (\<lambda>w. wt_result w \<noteq> Some DefaultDeny) ws')"
proof (induction ws arbitrary: quotas running ws' c)
  case (Cons w ws)
  then show ?case
    using checkRequest_not_default [of registry limited quotas "wt_attributes w"]
    by (fastforce simp: Let_def split: sum.splits if_splits prod.splits)
qed simp

lemma resolve_default_decided:
  "r \<noteq> Some DefaultDeny \<Longrightarrow> list_all (\<lambda>w. wt_result w \<noteq> Some DefaultDeny) (resolve_default r ws)"
  "map wt_attributes (resolve_default r ws) = map wt_attributes ws"
  by (auto simp: resolve_default_def list_all_iff)

lemma checkQuotas_decided:
  "map wt_attributes (fst (checkQuotas registry limited acc retries quotas ws s)) = map wt_attributes ws \<and>
   list_all (\<lambda>w. wt_result w \<noteq> Some DefaultDeny) (fst (checkQuotas registry limited acc retries quotas ws s))"
proof (induction retries arbitrary: quotas ws s)
  case 0
  obtain running ws' c where w: "check_waiters registry limited quotas ws = (running, ws', c)"
    by (metis prod_cases3)
  from check_waiters_decided [OF w] show ?case
    by (subst (1 2) checkQuotas.simps)
       (auto simp: w Let_def resolve_default_decided split: prod.splits)
next
  case (Suc retries)
  obtain running ws' c where w: "check_waiters registry limited quotas ws = (running, ws', c)"
    by (metis prod_cases3)
  from check_waiters_decided [OF w] Suc.IH show ?case
    by (subst (1 2) checkQuotas.simps)
       (auto simp: w Let_def resolve_default_decided split: prod.splits sum.splits)
qed

lemma checkAttributes_decided:
  "map wt_attributes (fst (checkAttributes registry limited acc ns waiters s)) = map wt_attributes waiters \<and>
   list_all (\<lambda>w. wt_result w \<noteq> Some DefaultDeny) (fst (checkAttributes registry limited acc ns waiters s))"
  using checkQuotas_decided [of registry limited acc 3]
  by (auto simp: checkAttributes_def case_prod_beta list_all_iff split: sum.splits)

section \<open>What a batch adds up to\<close>

text \<open>
  What a request asks of a quota, from the request and the specification of the quota alone: the usage to charge, for the resources
  the quota limits, when the evaluator of its resource handles the request and the quota matches the object.
\<close>

definition demand :: "'o registry \<Rightarrow> limited_resource list \<Rightarrow> resource_quota \<Rightarrow> string \<Rightarrow> 'o admission_attributes \<Rightarrow> int" where
  "demand registry limited q r a =
     (case registry (ad_GroupResource a) of
        None \<Rightarrow> 0
      | Some ev \<Rightarrow>
          (if ev_Handles ev a \<and> \<not> isl (getMatchedLimitedScopes ev (ad_Object a) limited) \<and>
              ev_Matches ev q (ad_Object a) = Inr True \<and> map_of (rq_Hard q) r \<noteq> None
           then (case delta_usage ev a (if ad_Namespace a \<noteq> [] then ev_DefaultNamespace ev (ad_Namespace a) (ad_Object a)
                                        else ad_Object a) of
                   Inl _ \<Rightarrow> 0
                 | Inr delta \<Rightarrow> qty delta r)
           else 0))"

text \<open>Whether a quota matches an object depends on its specification, not on its usage.\<close>

definition reads_spec :: "'o registry \<Rightarrow> bool" where
  "reads_spec registry \<longleftrightarrow>
     (\<forall>gr ev q u obj. registry gr = Some ev \<longrightarrow> ev_Matches ev (q\<lparr>rq_Used := u\<rparr>) obj = ev_Matches ev q obj)"

text \<open>A waiter of a batch that is admitted and booked: neither denied nor a dry run.\<close>

definition booked :: "'o waiter \<Rightarrow> bool" where
  "booked w \<longleftrightarrow> (wt_result w = None \<or> wt_result w = Some DefaultDeny) \<and> \<not> ad_DryRun (wt_attributes w)"

lemma charge_quota_usage:
  assumes "wf_quota q" "charge_quota delta q = Inr q'"
  shows "qty (rq_Used q') r = qty (rq_Used q) r + (if map_of (rq_Hard q) r \<noteq> None then qty delta r else 0)"
proof -
  let ?req = "Mask delta (ResourceNames_of (rq_Hard q))"
  have "q' = q\<lparr>rq_Used := quota_Add (rq_Used q) ?req\<rparr>"
    using assms(2) by (auto simp: charge_quota_def Let_def LessThanOrEqual_def split: if_splits)
  moreover have "qty ?req r = (if map_of (rq_Hard q) r \<noteq> None then qty delta r else 0)"
    by (simp add: qty_def map_get_def map_of_Mask ResourceNames_of_def dom_map_of_conv_image_fst [symmetric] domIff)
  ultimately show ?thesis using qty_Add [of "rq_Used q" ?req r] assms(1) by (simp add: wf_quota_def)
qed

lemma charge_quotas_usage:
  assumes "list_all wf_quota qs" "wf_map delta" "\<And>k v. map_of delta k = Some v \<Longrightarrow> 0 \<le> v"
    and "\<forall>i \<in> set idx. i < length qs" "distinct idx" "charge_quotas delta idx qs = Inr out" "j < length qs"
  shows "qty (rq_Used (out ! j)) r =
    qty (rq_Used (qs ! j)) r + (if j \<in> set idx \<and> map_of (rq_Hard (qs ! j)) r \<noteq> None then qty delta r else 0)"
  using assms
proof (induction idx arbitrary: qs)
  case (Cons i idx)
  then obtain q where q: "charge_quota delta (qs ! i) = Inr q" "charge_quotas delta idx (qs[i := q]) = Inr out"
    by (auto split: sum.splits)
  have i: "i < length qs" "wf_quota (qs ! i)" using Cons.prems by (auto simp: list_all_length)
  have w: "within (qs ! i) q" by (rule charge_quota_within [OF i(2) Cons.prems(2,3) q(1)])
  then have "wf_quota q" by (simp add: within_def)
  then have wf: "list_all wf_quota (qs[i := q])"
    using Cons.prems(1) set_update_subset_insert [of qs i q] by (auto simp: list_all_iff)
  have "qty (rq_Used (out ! j)) r = qty (rq_Used (qs[i := q] ! j)) r +
      (if j \<in> set idx \<and> map_of (rq_Hard (qs[i := q] ! j)) r \<noteq> None then qty delta r else 0)"
    by (rule Cons.IH [OF wf Cons.prems(2,3) _ _ q(2)]) (use Cons.prems(4,5,7) in auto)
  then show ?case
    using charge_quota_usage [OF i(2) q(1), of r] within_meta(2) [OF w] Cons.prems(5) i(1)
    by (cases "j = i") (auto simp del: not_None_eq)
qed simp

lemma match_quotas_matching:
  "match_quotas ev obj i qs = Inr (idx, res, scs) \<Longrightarrow>
   distinct idx \<and> (\<forall>j < length qs. i + j \<in> set idx \<longleftrightarrow> ev_Matches ev (qs ! j) obj = Inr True)"
proof (induction qs arbitrary: i idx res scs)
  case (Cons q qs)
  obtain b idx' res' scs' where m: "ev_Matches ev q obj = Inr b" "match_quotas ev obj (Suc i) qs = Inr (idx', res', scs')"
    and idx: "idx = (if b then i # idx' else idx')"
    using Cons.prems by (fastforce simp: bind_result_Inr_iff Let_def split: sum.splits option.splits if_splits bool.splits)
  have IH: "distinct idx' \<and> (\<forall>j < length qs. Suc i + j \<in> set idx' \<longleftrightarrow> ev_Matches ev (qs ! j) obj = Inr True)"
    by (rule Cons.IH [OF m(2)])
  have "i \<notin> set idx'" using match_quotas_indexes [OF m(2)] by auto
  have "i + j \<in> set idx \<longleftrightarrow> ev_Matches ev ((q # qs) ! j) obj = Inr True" if "j < length (q # qs)" for j
  proof (cases j)
    case 0
    then show ?thesis using \<open>i \<notin> set idx'\<close> m(1) idx by simp
  next
    case (Suc k)
    then show ?thesis using IH that idx by auto
  qed
  then show ?case using IH \<open>i \<notin> set idx'\<close> idx by simp
qed simp

lemma IsZero_qty: "IsZero delta \<Longrightarrow> qty delta r = 0"
  by (auto simp: IsZero_def qty_def map_get_def list_all_iff dest!: map_of_SomeD split: option.splits)

lemma checkRequest_usage:
  assumes "list_all wf_quota quotas" "wf_registry registry" "checkRequest registry limited quotas a = Inr out" "j < length quotas"
  shows "qty (rq_Used (out ! j)) r = qty (rq_Used (quotas ! j)) r + demand registry limited (quotas ! j) r a"
proof (cases "registry (ad_GroupResource a)")
  case None
  then show ?thesis using assms(3) by (simp add: checkRequest_def demand_def)
next
  case (Some ev)
  then have ev: "wf_evaluator ev" using assms(2) by (simp add: wf_registry_def del: split_paired_All)
  have check: "CheckRequest quotas a ev limited = Inr out" using assms(3) Some by (simp add: checkRequest_def)
  let ?obj = "if ad_Namespace a \<noteq> [] then ev_DefaultNamespace ev (ad_Namespace a) (ad_Object a) else ad_Object a"
  show ?thesis
  proof (cases "ev_Handles ev a \<and> \<not> isl (getMatchedLimitedScopes ev (ad_Object a) limited)")
    case False
    then show ?thesis using check Some by (auto simp: CheckRequest_def demand_def split: if_splits sum.splits)
  next
    case True
    then obtain idx res scs delta where m: "match_quotas ev (ad_Object a) 0 quotas = Inr (idx, res, scs)"
      and d: "delta_usage ev a ?obj = Inr delta"
      and out: "IsZero delta \<and> out = quotas \<or> idx = [] \<and> out = quotas \<or> charge_quotas delta idx quotas = Inr out"
      using check by (auto simp: CheckRequest_def Let_def bind_result_Inr_iff split: if_splits sum.splits)
    have matches: "j \<in> set idx \<longleftrightarrow> ev_Matches ev (quotas ! j) (ad_Object a) = Inr True" "distinct idx"
      using match_quotas_matching [OF m] assms(4) by auto
    have demand: "demand registry limited (quotas ! j) r a =
        (if j \<in> set idx \<and> map_of (rq_Hard (quotas ! j)) r \<noteq> None then qty delta r else 0)"
      using True by (simp add: demand_def Some d matches(1) del: not_None_eq)
    note nonneg = delta_usage_nonneg [OF ev d]
    have "qty (rq_Used (out ! j)) r = qty (rq_Used (quotas ! j)) r +
        (if j \<in> set idx \<and> map_of (rq_Hard (quotas ! j)) r \<noteq> None then qty delta r else 0)"
      if "charge_quotas delta idx quotas = Inr out"
      by (rule charge_quotas_usage [OF assms(1) _ _ _ matches(2) that assms(4)]) (use nonneg match_quotas_indexes [OF m] in auto)
    then show ?thesis using out IsZero_qty [of delta r] unfolding demand by (auto simp del: not_None_eq)
  qed
qed

lemma demand_within: "reads_spec registry \<Longrightarrow> within q q' \<Longrightarrow> demand registry limited q' r a = demand registry limited q r a"
proof -
  assume spec: "reads_spec registry" and w: "within q q'"
  have "ev_Matches ev q' obj = ev_Matches ev q obj" if "registry gr = Some ev" for gr ev obj
  proof -
    have "ev_Matches ev q' obj = ev_Matches ev (q'\<lparr>rq_Used := []\<rparr>) obj" using spec that unfolding reads_spec_def by metis
    also have "\<dots> = ev_Matches ev (q\<lparr>rq_Used := []\<rparr>) obj" using w by (simp add: within_def)
    also have "\<dots> = ev_Matches ev q obj" using spec that unfolding reads_spec_def by metis
    finally show ?thesis .
  qed
  then show ?thesis using within_meta(2) [OF w] by (auto simp: demand_def split: option.splits)
qed

lemma check_waiters_usage:
  assumes "wf_registry registry" "reads_spec registry"
  shows "list_all wf_quota quotas \<Longrightarrow> check_waiters registry limited quotas ws = (running, ws', c) \<Longrightarrow>
    \<forall>w \<in> set ws. wt_result w = Some DefaultDeny \<Longrightarrow> i < length quotas \<Longrightarrow>
    qty (rq_Used (running ! i)) r =
      qty (rq_Used (quotas ! i)) r + sum_list (map (\<lambda>w. demand registry limited (quotas ! i) r (wt_attributes w)) (filter booked ws'))"
proof (induction ws arbitrary: quotas running ws' c)
  case (Cons w ws)
  have w: "wt_result w = Some DefaultDeny" and ws: "\<forall>w \<in> set ws. wt_result w = Some DefaultDeny" using Cons.prems(3) by simp_all
  show ?case
  proof (cases "checkRequest registry limited quotas (wt_attributes w)")
    case (Inl e)
    then obtain ws'' where rest: "check_waiters registry limited quotas ws = (running, ws'', c)" "ws' = w\<lparr>wt_result := Some e\<rparr> # ws''"
      using Cons.prems(2) by (auto split: prod.splits)
    have "\<not> booked (w\<lparr>wt_result := Some e\<rparr>)" using checkRequest_not_default Inl by (auto simp: booked_def)
    then show ?thesis using Cons.IH [OF Cons.prems(1) rest(1) ws Cons.prems(4)] rest(2) by simp
  next
    case (Inr new)
    show ?thesis
    proof (cases "ad_DryRun (wt_attributes w)")
      case True
      then obtain ws'' where rest: "check_waiters registry limited quotas ws = (running, ws'', c)" "ws' = w\<lparr>wt_result := None\<rparr> # ws''"
        using Cons.prems(2) Inr by (auto split: prod.splits)
      have "\<not> booked (w\<lparr>wt_result := None\<rparr>)" using True by (simp add: booked_def)
      then show ?thesis using Cons.IH [OF Cons.prems(1) rest(1) ws Cons.prems(4)] rest(2) by simp
    next
      case False
      then obtain ws'' c' w' where rest: "check_waiters registry limited new ws = (running, ws'', c')" "ws' = w' # ws''"
          "w' = (if any_changed quotas new then w else w\<lparr>wt_result := None\<rparr>)"
        using Cons.prems(2) Inr by (auto simp: Let_def split: prod.splits)
      have "booked w'" and same: "wt_attributes w' = wt_attributes w" using False w rest(3) by (auto simp: booked_def)
      note step = checkRequest_within [OF Cons.prems(1) assms(1) Inr]
      have i: "i < length new" using list_all2_lengthD [OF step] Cons.prems(4) by simp
      have kept: "demand registry limited (new ! i) r = demand registry limited (quotas ! i) r"
        using demand_within [OF assms(2) list_all2_nthD [OF step Cons.prems(4)]] by blast
      have "qty (rq_Used (running ! i)) r = qty (rq_Used (new ! i)) r +
          sum_list (map (\<lambda>w. demand registry limited (new ! i) r (wt_attributes w)) (filter booked ws''))"
        by (rule Cons.IH [OF within_list_wf [OF step] rest(1) ws i])
      then show ?thesis
        using checkRequest_usage [OF Cons.prems(1) assms(1) Inr Cons.prems(4), of r] \<open>booked w'\<close> same rest(2) by (simp add: kept)
    qed
  qed
qed simp

text \<open>
  C22: Checking a batch of waiting requests one after the other never takes a quota over its limit: what all the requests
  that are admitted and booked ask of a quota, added up over the whole batch on top of what was used before, is what the running
  quota has and, if it is anything, is within the hard limit. The waiters are as they are created, usage and limits are maps, and an
  evaluator matches quotas by their specification.
\<close>

theorem batch_respects_quotas:
  assumes "wf_registry registry" "reads_spec registry" "list_all wf_quota quotas"
    and "\<forall>w \<in> set ws. wt_result w = Some DefaultDeny"
    and "check_waiters registry limited quotas ws = (running, ws', changed)" and "i < length quotas"
    and "asked = sum_list (map (\<lambda>w. demand registry limited (quotas ! i) r (wt_attributes w)) (filter booked ws'))"
  shows "qty (rq_Used (running ! i)) r = qty (rq_Used (quotas ! i)) r + asked \<and> 0 \<le> asked \<and>
    (asked = 0 \<or> (\<exists>h. map_of (rq_Hard (quotas ! i)) r = Some h \<and> qty (rq_Used (quotas ! i)) r + asked \<le> h))"
proof -
  have "within (quotas ! i) (running ! i)"
    using list_all2_nthD [OF check_waiters_within [OF assms(1,3,5)] assms(6)] .
  moreover have "qty (rq_Used (running ! i)) r = qty (rq_Used (quotas ! i)) r + asked"
    using check_waiters_usage [OF assms(1-3,5,4,6), of r] assms(7) by simp
  ultimately show ?thesis unfolding within_def by (smt (verit))
qed

section \<open>How often the quotas are read\<close>

text \<open>An accessor that counts beside its state how often it is asked for the quotas.\<close>

definition counting :: "'s quota_accessor \<Rightarrow> ('s \<times> nat) quota_accessor" where
  "counting acc =
     \<lparr>qa_lockAcquisition = map_option (\<lambda>lock qs (s, n).
        (case lock qs s of ((locked, release), s') \<Rightarrow> ((locked, \<lambda>(t, k). (release t, k)), (s', n)))) (qa_lockAcquisition acc),
      qa_GetQuotas = (\<lambda>ns (s, n). (case qa_GetQuotas acc ns s of (r, s') \<Rightarrow> (r, (s', Suc n)))),
      qa_UpdateQuotaStatus = (\<lambda>q (s, n). (case qa_UpdateQuotaStatus acc q s of (r, s') \<Rightarrow> (r, (s', n))))\<rparr>"

lemma counting_simps [simp]:
  "qa_GetQuotas (counting acc) ns (s, n) = (case qa_GetQuotas acc ns s of (r, s') \<Rightarrow> (r, (s', Suc n)))"
  "qa_UpdateQuotaStatus (counting acc) q (s, n) = (case qa_UpdateQuotaStatus acc q s of (r, s') \<Rightarrow> (r, (s', n)))"
  by (simp_all add: counting_def)

lemma update_quotas_counting:
  "update_quotas (counting acc) origs qs (s, n) = (case update_quotas acc origs qs s of (r, s') \<Rightarrow> (r, (s', n)))"
  by (induction acc origs qs s rule: update_quotas.induct) (auto split: prod.splits option.splits)

lemma checkQuotas_counting:
  "\<exists>k \<le> retries. checkQuotas registry limited (counting acc) retries quotas ws (s, n) =
     (case checkQuotas registry limited acc retries quotas ws s of (ws', s') \<Rightarrow> (ws', (s', n + k)))"
proof (induction retries arbitrary: quotas ws s n)
  case 0
  then show ?case
    by (subst (1 2) checkQuotas.simps) (simp add: update_quotas_counting Let_def split: prod.splits)
next
  case (Suc retries)
  obtain running ws1 c where w: "check_waiters registry limited quotas ws = (running, ws1, c)" by (metis prod_cases3)
  obtain failed lastErr s1 where u: "update_quotas acc quotas running s = ((failed, lastErr), s1)" by (metis prod.exhaust)
  obtain got s2 where g: "qa_GetQuotas acc (rq_Namespace (hd running)) s1 = (got, s2)" by (metis prod.exhaust)
  show ?case
  proof (cases "c \<and> failed \<noteq> [] \<and> \<not> isl got")
    case True
    then obtain newQuotas where got: "got = Inr newQuotas" by (cases got) auto
    obtain k where "k \<le> retries" "checkQuotas registry limited (counting acc) retries
        (filter (\<lambda>n. list_ex (\<lambda>f. rq_Name n = rq_Name f) failed) newQuotas) ws1 (s2, Suc n) =
        (case checkQuotas registry limited acc retries
          (filter (\<lambda>n. list_ex (\<lambda>f. rq_Name n = rq_Name f) failed) newQuotas) ws1 s2 of (ws', s') \<Rightarrow> (ws', (s', Suc n + k)))"
      using Suc.IH by blast
    then show ?thesis using True
      by (intro exI [of _ "Suc k"], subst (1 2) checkQuotas.simps) (simp add: w u g got update_quotas_counting)
  next
    case False
    then show ?thesis
      by (intro exI [of _ "if c \<and> failed \<noteq> [] then 1 else 0"], subst (1 2) checkQuotas.simps)
         (auto simp: w u g update_quotas_counting split: sum.splits)
  qed
qed

text \<open>
  C35: Checking a batch reads the quotas at most four times, once and for up to three retries, whatever the
  accessor answers, and then every waiter comes back in order with its request and a decision: none keeps the provisional denial it was
  created with.
\<close>

theorem checkAttributes_decides_all:
  "\<exists>ws s' reads. checkAttributes registry limited (counting acc) ns waiters (s, 0) = (ws, (s', reads)) \<and>
     checkAttributes registry limited acc ns waiters s = (ws, s') \<and> 1 \<le> reads \<and> reads \<le> 4 \<and>
     map wt_attributes ws = map wt_attributes waiters \<and> list_all (\<lambda>w. wt_result w \<noteq> Some DefaultDeny) ws"
proof -
  have "\<exists>reads. 1 \<le> reads \<and> reads \<le> 4 \<and> checkAttributes registry limited (counting acc) ns waiters (s, 0) =
      (case checkAttributes registry limited acc ns waiters s of (ws, s') \<Rightarrow> (ws, (s', reads)))"
  proof -
    obtain got s1 where g: "qa_GetQuotas acc ns s = (got, s1)" by (metis prod.exhaust)
    show ?thesis
    proof (cases "(\<exists>quotas. got = Inr quotas \<and> \<not> (quotas = [] \<and> limited = []))")
      case False
      then show ?thesis by (intro exI [of _ 1]) (auto simp: checkAttributes_def g split: sum.splits)
    next
      case True
      then obtain quotas where got: "got = Inr quotas" "\<not> (quotas = [] \<and> limited = [])" by blast
      obtain locked release s2 where l: "(case qa_lockAcquisition acc of None \<Rightarrow> ((quotas, id), s1) | Some lock \<Rightarrow> lock quotas s1) =
          ((locked, release), s2)" by (metis prod.exhaust)
      obtain k where "k \<le> 3" and k: "checkQuotas registry limited (counting acc) 3 locked waiters (s2, 1) =
          (case checkQuotas registry limited acc 3 locked waiters s2 of (ws', s') \<Rightarrow> (ws', (s', 1 + k)))"
        using checkQuotas_counting [of 3 registry limited acc locked waiters s2 1] by blast
      then show ?thesis using got l
        by (intro exI [of _ "1 + k"])
           (auto simp: checkAttributes_def g counting_def [THEN arg_cong, of qa_lockAcquisition] split: option.splits prod.splits)
    qed
  qed
  then show ?thesis
    using checkAttributes_decided [of registry limited acc ns waiters s] by (fastforce split: prod.splits)
qed

section \<open>A rejected request is admitted by a retry\<close>

text \<open>
  Two quotas and two waiting requests, each an object that uses one pod and matches the quota of its own name:
  quota A is full, quota B is not. The accessor refuses the first status update, as on a conflict.
\<close>

definition demo_evaluator :: "string evaluator" where
  "demo_evaluator =
     \<lparr>ev_Handles = (\<lambda>a. True), ev_MatchingScopes = (\<lambda>obj s. Inr []), ev_Matches = (\<lambda>q obj. Inr (rq_Name q = obj)),
      ev_MatchingResources = (\<lambda>r. r), ev_Constraints = (\<lambda>r obj. None), ev_Usage = (\<lambda>obj. Inr [(''pods'', 1)]),
      ev_UncoveredQuotaScopes = (\<lambda>a b. Inr []), ev_ResourceVersion = (\<lambda>obj. None), ev_DefaultNamespace = (\<lambda>n obj. obj)\<rparr>"

definition demo_registry :: "string registry" where
  "demo_registry gr = Some demo_evaluator"

definition demo_quota :: "string \<Rightarrow> int \<Rightarrow> int \<Rightarrow> resource_quota" where
  "demo_quota n hard used =
     \<lparr>rq_APIVersion = ''v1'', rq_Name = n, rq_Namespace = ''ns'', rq_ResourceVersion = 1, rq_UID = n, rq_Labels = [],
      rq_Owner = None, rq_Scopes = [], rq_ScopeSelector = None,
      rq_Hard = [(''pods'', hard)], rq_Used = [(''pods'', used)]\<rparr>"

definition demo_quotas :: "resource_quota list" where
  "demo_quotas = [demo_quota ''A'' 1 1, demo_quota ''B'' 5 0]"

definition demo_accessor :: "nat quota_accessor" where
  "demo_accessor =
     \<lparr>qa_lockAcquisition = None, qa_GetQuotas = (\<lambda>ns s. (Inr demo_quotas, s)),
      qa_UpdateQuotaStatus = (\<lambda>q s. (if s = 0 then Some ''conflict'' else None, Suc s))\<rparr>"

definition demo_waiter :: "string \<Rightarrow> string waiter" where
  "demo_waiter n =
     \<lparr>wt_attributes = \<lparr>ad_GroupResource = ([], ''pods''), ad_Namespace = ''ns'', ad_Operation = Create,
        ad_Object = n, ad_OldObject = None, ad_DryRun = False\<rparr>, wt_result = Some DefaultDeny\<rparr>"

lemmas demo_check_defs =
  checkRequest_def CheckRequest_def demo_registry_def demo_evaluator_def demo_waiter_def demo_quota_def
  limited_names_def filterLimitedResourcesByGroupResource_def getScopeSelectorsFromQuota_def hasUsageStats_def
  ResourceNames_of_def delta_usage_def IsNegative_def IsZero_def charge_quota_def Mask_def quota_Add_def
  merge_lists_def LessThanOrEqual_def Difference_def Let_def

lemma demo_check_full:
  "checkRequest demo_registry [] [demo_quota ''A'' 1 1, demo_quota ''B'' h u] (wt_attributes (demo_waiter ''A'')) =
     Inl (ExceededQuota ''A'' [(''pods'', 1)] [(''pods'', 1)] [(''pods'', 1)])"
  by (simp add: demo_check_defs)

lemma demo_check_B:
  "checkRequest demo_registry [] [demo_quota ''A'' 1 1, demo_quota ''B'' 5 0] (wt_attributes (demo_waiter ''B'')) =
     Inr [demo_quota ''A'' 1 1, demo_quota ''B'' 5 1]"
  "checkRequest demo_registry [] [demo_quota ''B'' 5 0] (wt_attributes (demo_waiter ''B'')) =
     Inr [demo_quota ''B'' 5 1]"
  "checkRequest demo_registry [] [demo_quota ''B'' 5 1] (wt_attributes (demo_waiter ''A'')) =
     Inr [demo_quota ''B'' 5 1]"
  by (simp_all add: demo_check_defs)

lemma demo_wf:
  "wf_quota (demo_quota n h u)" "wf_evaluator demo_evaluator" "wf_registry demo_registry"
  by (auto simp: wf_quota_def demo_quota_def wf_evaluator_def demo_evaluator_def wf_registry_def demo_registry_def
      wf_map_def)

lemma demo_check_waiters:
  "check_waiters demo_registry [] demo_quotas [demo_waiter ''B'', demo_waiter ''A''] =
     ([demo_quota ''A'' 1 1, demo_quota ''B'' 5 1],
      [demo_waiter ''B'',
       (demo_waiter ''A'')\<lparr>wt_result := Some (ExceededQuota ''A'' [(''pods'', 1)] [(''pods'', 1)] [(''pods'', 1)])\<rparr>],
      True)"
  by (simp add: demo_quotas_def demo_check_full demo_check_B any_changed_def Equals_def)
     (simp add: demo_quota_def demo_waiter_def)

theorem CheckRequest_respects_quotas_witness:
  "\<exists>(quotas :: resource_quota list) out. CheckRequest quotas (wt_attributes (demo_waiter ''B'')) demo_evaluator [] = Inr out \<and>
     qty (rq_Used (quotas ! 0)) ''pods'' < qty (rq_Used (out ! 0)) ''pods''"
proof -
  have ok: "CheckRequest [demo_quota ''B'' 5 0] (wt_attributes (demo_waiter ''B'')) demo_evaluator [] =
      Inr [demo_quota ''B'' 5 1]"
    using demo_check_B(2) by (simp add: checkRequest_def demo_registry_def)
  have "qty (rq_Used ([demo_quota ''B'' 5 1] ! 0)) ''pods'' \<noteq> qty (rq_Used ([demo_quota ''B'' 5 0] ! 0)) ''pods''"
    by (simp add: demo_quota_def qty_def map_get_def)
  from CheckRequest_respects_quotas [OF _ demo_wf(2) ok _ this] demo_wf(1) ok show ?thesis by force
qed

theorem batch_respects_quotas_witness:
  "\<exists>running ws c. check_waiters demo_registry [] demo_quotas [demo_waiter ''B'', demo_waiter ''A''] = (running, ws, c) \<and>
     filter booked ws = [demo_waiter ''B''] \<and>
     qty (rq_Used (running ! 1)) ''pods'' = qty (rq_Used (demo_quotas ! 1)) ''pods'' + 1 \<and>
     (\<exists>h. map_of (rq_Hard (demo_quotas ! 1)) ''pods'' = Some h \<and> qty (rq_Used (demo_quotas ! 1)) ''pods'' + 1 \<le> h)"
proof -
  have wf: "list_all wf_quota demo_quotas" by (simp add: demo_quotas_def demo_wf)
  have spec: "reads_spec demo_registry" by (simp add: reads_spec_def demo_registry_def demo_evaluator_def)
  have new: "\<forall>w \<in> set [demo_waiter ''B'', demo_waiter ''A'']. wt_result w = Some DefaultDeny" by (simp add: demo_waiter_def)
  let ?ws = "[demo_waiter ''B'',
    (demo_waiter ''A'')\<lparr>wt_result := Some (ExceededQuota ''A'' [(''pods'', 1)] [(''pods'', 1)] [(''pods'', 1)])\<rparr>]"
  have booked: "filter booked ?ws = [demo_waiter ''B'']" by (simp add: booked_def demo_waiter_def)
  have "demand demo_registry [] (demo_quotas ! 1) ''pods'' (wt_attributes (demo_waiter ''B'')) = 1"
    by (simp add: demand_def demo_quotas_def demo_check_defs qty_def map_get_def)
  then have asked: "1 = sum_list (map (\<lambda>w. demand demo_registry [] (demo_quotas ! 1) ''pods'' (wt_attributes w)) (filter booked ?ws))"
    unfolding booked by simp
  have "1 < length demo_quotas" by (simp add: demo_quotas_def)
  note batch = batch_respects_quotas [OF demo_wf(3) spec wf new demo_check_waiters this asked]
  show ?thesis
    by (rule exI, rule exI, rule exI, intro conjI, rule demo_check_waiters, rule booked) (use batch in auto)
qed

text \<open>
  When the status update of one quota conflicts, the retry checks every waiter of the batch against the
  quotas that failed only, so a request that another, full quota of the namespace rejects comes out
  admitted; without the conflict the same batch rejects it.
\<close>

theorem retry_admits_rejected_request:
  "checkRequest demo_registry [] demo_quotas (wt_attributes (demo_waiter ''A'')) =
     Inl (ExceededQuota ''A'' [(''pods'', 1)] [(''pods'', 1)] [(''pods'', 1)]) \<and>
   map wt_result (fst (checkAttributes demo_registry [] demo_accessor ''ns'' [demo_waiter ''B'', demo_waiter ''A''] 1)) =
     [None, Some (ExceededQuota ''A'' [(''pods'', 1)] [(''pods'', 1)] [(''pods'', 1)])] \<and>
   map wt_result (fst (checkAttributes demo_registry [] demo_accessor ''ns'' [demo_waiter ''B'', demo_waiter ''A''] 0)) =
     [None, None]"
proof -
  have upd: "update_quotas demo_accessor demo_quotas [demo_quota ''A'' 1 1, demo_quota ''B'' 5 1] 0 =
      (([demo_quota ''B'' 5 1], Some ''conflict''), 1)"
    "update_quotas demo_accessor demo_quotas [demo_quota ''A'' 1 1, demo_quota ''B'' 5 1] 1 = (([], None), 2)"
    "update_quotas demo_accessor [demo_quota ''B'' 5 0] [demo_quota ''B'' 5 1] 1 = (([], None), 2)"
    by (simp_all add: demo_quotas_def demo_quota_def demo_accessor_def Equals_def)
  have get: "qa_GetQuotas demo_accessor ns s = (Inr demo_quotas, s)" for ns s by (simp add: demo_accessor_def)
  let ?ws = "[demo_waiter ''B'',
    (demo_waiter ''A'')\<lparr>wt_result := Some (ExceededQuota ''A'' [(''pods'', 1)] [(''pods'', 1)] [(''pods'', 1)])\<rparr>]"
  have again: "check_waiters demo_registry [] [demo_quota ''B'' 5 0] ?ws =
      ([demo_quota ''B'' 5 1], [demo_waiter ''B'', (demo_waiter ''A'')\<lparr>wt_result := None\<rparr>], True)"
    using demo_check_B by (simp add: any_changed_def Equals_def) (simp add: demo_quota_def demo_waiter_def)
  have names: "rq_Name (demo_quota n h u) = n" "rq_Namespace (demo_quota n h u) = ''ns''"
      "wt_result (demo_waiter n) = Some DefaultDeny" for n h u
    by (simp_all add: demo_quota_def demo_waiter_def)
  have retry: "map wt_result (fst (checkQuotas demo_registry [] demo_accessor 2 [demo_quota ''B'' 5 0] ?ws 1)) =
      [None, None]"
    by (subst checkQuotas.simps) (simp add: again upd resolve_default_def names del: check_waiters.simps update_quotas.simps One_nat_def)
  have filt: "filter (\<lambda>n. rq_Name n = ''B'') demo_quotas = [demo_quota ''B'' 5 0]"
    by (simp add: demo_quotas_def names)
  have "map wt_result (fst (checkQuotas demo_registry [] demo_accessor 3 demo_quotas [demo_waiter ''B'', demo_waiter ''A''] 0)) =
      [None, None]"
    using retry by (subst checkQuotas.simps) (simp add: demo_check_waiters upd get names filt numeral_3_eq_3 numeral_2_eq_2
        del: check_waiters.simps update_quotas.simps One_nat_def)
  moreover have "map wt_result (fst (checkQuotas demo_registry [] demo_accessor 3 demo_quotas [demo_waiter ''B'', demo_waiter ''A''] 1)) =
      [None, Some (ExceededQuota ''A'' [(''pods'', 1)] [(''pods'', 1)] [(''pods'', 1)])]"
    by (subst checkQuotas.simps) (simp add: demo_check_waiters upd resolve_default_def names
        del: check_waiters.simps update_quotas.simps One_nat_def)
  moreover have "demo_quotas \<noteq> []" by (simp add: demo_quotas_def)
  ultimately show ?thesis
    by (simp add: checkAttributes_def get demo_check_full demo_quotas_def [symmetric] demo_accessor_def [THEN arg_cong, of qa_lockAcquisition]
        case_prod_beta)
       (simp add: demo_quotas_def demo_check_full)
qed

end
