(* ===== verification/Quota_Queue.thy ===== *)
theory Quota_Queue
  imports Quota_Admission
begin

text \<open>
  The quota evaluator as a concurrent system: requests are bucketed by namespace and a pool of workers
  takes the buckets from a work queue (\<^verbatim>\<open>kube/plugin/pkg/admission/resourcequota/controller.go\<close>:
  \<^verbatim>\<open>addWork\<close>, \<^verbatim>\<open>getWork\<close>, \<^verbatim>\<open>completeWork\<close>, \<^verbatim>\<open>doWork\<close>, \<^verbatim>\<open>Evaluate\<close>; the queue itself is
  \<^verbatim>\<open>workqueue.Type\<close> of client-go).

  What runs under \<^verbatim>\<open>workLock\<close> is one step. A worker gets a namespace from the queue before it takes
  the lock, so these are two steps, and any step of another worker or of a request may come in between.
\<close>

section \<open>The work queue\<close>

record work_queue =
  wq_queue :: "string list"
  wq_dirty :: "string set"
  wq_processing :: "string set"
  wq_shuttingDown :: bool

definition wq_Add :: "string \<Rightarrow> work_queue \<Rightarrow> work_queue" where
  "wq_Add item q =
     (if wq_shuttingDown q then q
      else if item \<in> wq_dirty q then q
      else
        (let q' = q\<lparr>wq_dirty := insert item (wq_dirty q)\<rparr> in
         if item \<in> wq_processing q' then q' else q'\<lparr>wq_queue := wq_queue q' @ [item]\<rparr>))"

text \<open>
  \<^verbatim>\<open>Get\<close> blocks on an empty queue until it is shut down: the result is \<^const>\<open>None\<close> while it blocks,
  \<^term>\<open>Some (None, q)\<close> when the caller is told to stop.
\<close>

definition wq_Get :: "work_queue \<Rightarrow> (string option \<times> work_queue) option" where
  "wq_Get q =
     (case wq_queue q of
        [] \<Rightarrow> (if wq_shuttingDown q then Some (None, q) else None)
      | item # rest \<Rightarrow>
          Some (Some item,
            q\<lparr>wq_queue := rest, wq_processing := insert item (wq_processing q),
              wq_dirty := wq_dirty q - {item}\<rparr>))"

definition wq_Done :: "string \<Rightarrow> work_queue \<Rightarrow> work_queue" where
  "wq_Done item q =
     (let q' = q\<lparr>wq_processing := wq_processing q - {item}\<rparr> in
      if item \<in> wq_dirty q' then q'\<lparr>wq_queue := wq_queue q' @ [item]\<rparr> else q')"

definition wq_ShutDown :: "work_queue \<Rightarrow> work_queue" where
  "wq_ShutDown q = q\<lparr>wq_shuttingDown := True\<rparr>"

definition wq_new :: work_queue where
  "wq_new = \<lparr>wq_queue = [], wq_dirty = {}, wq_processing = {}, wq_shuttingDown = False\<rparr>"

section \<open>The buckets of the evaluator\<close>

record 'o quota_evaluator =
  qe_queue :: work_queue
  qe_work :: "string \<Rightarrow> 'o waiter list"
  qe_dirtyWork :: "string \<Rightarrow> 'o waiter list"
  qe_inProgress :: "string set"

definition NewQuotaEvaluator :: "'o quota_evaluator" where
  "NewQuotaEvaluator =
     \<lparr>qe_queue = wq_new, qe_work = (\<lambda>_. []), qe_dirtyWork = (\<lambda>_. []), qe_inProgress = {}\<rparr>"

definition newAdmissionWaiter :: "'o admission_attributes \<Rightarrow> 'o waiter" where
  "newAdmissionWaiter a = \<lparr>wt_attributes = a, wt_result = Some DefaultDeny\<rparr>"

definition addWork :: "'o waiter \<Rightarrow> 'o quota_evaluator \<Rightarrow> 'o quota_evaluator" where
  "addWork a e =
     (let ns = ad_Namespace (wt_attributes a);
          e' = e\<lparr>qe_queue := wq_Add ns (qe_queue e)\<rparr>
      in if ns \<in> qe_inProgress e'
         then e'\<lparr>qe_dirtyWork := (qe_dirtyWork e')(ns := qe_dirtyWork e' ns @ [a])\<rparr>
         else e'\<lparr>qe_work := (qe_work e')(ns := qe_work e' ns @ [a])\<rparr>)"

definition completeWork :: "string \<Rightarrow> 'o quota_evaluator \<Rightarrow> 'o quota_evaluator" where
  "completeWork ns e =
     e\<lparr>qe_queue := wq_Done ns (qe_queue e),
       qe_work := (qe_work e)(ns := qe_dirtyWork e ns),
       qe_dirtyWork := (qe_dirtyWork e)(ns := []),
       qe_inProgress := qe_inProgress e - {ns}\<rparr>"

text \<open>\<^verbatim>\<open>getWork\<close> after its call of \<^verbatim>\<open>queue.Get\<close>, which returned \<open>ns\<close>.\<close>

definition getWork :: "string \<Rightarrow> 'o quota_evaluator \<Rightarrow> 'o waiter list \<times> 'o quota_evaluator" where
  "getWork ns e =
     (qe_work e ns,
      e\<lparr>qe_work := (qe_work e)(ns := []),
        qe_dirtyWork := (qe_dirtyWork e)(ns := []),
        qe_inProgress := insert ns (qe_inProgress e)\<rparr>)"

text \<open>
  \<^verbatim>\<open>Evaluate\<close> up to the point where it waits: the registry, with an object count evaluator added for a
  kind that had none, and the waiter to enqueue unless the request is let through at once.
\<close>

definition Evaluate ::
  "(string \<times> string) set \<Rightarrow> (string \<times> string \<Rightarrow> 'o evaluator) \<Rightarrow> 'o registry \<Rightarrow> 'o admission_attributes \<Rightarrow>
   'o registry \<times> 'o waiter option" where
  "Evaluate ignoredResources newObjectCountEvaluator registry a =
     (let gr = ad_GroupResource a in
      if gr \<in> ignoredResources then (registry, None)
      else
        (let (registry', ev) =
           (case registry gr of
              None \<Rightarrow> (registry(gr := Some (newObjectCountEvaluator gr)), newObjectCountEvaluator gr)
            | Some ev \<Rightarrow> (registry, ev))
         in if \<not> ev_Handles ev a then (registry', None) else (registry', Some (newAdmissionWaiter a))))"

section \<open>Workers\<close>

text \<open>
  The local state of a worker in \<^verbatim>\<open>doWork\<close>: waiting in \<^verbatim>\<open>queue.Get\<close>, holding a namespace it got but
  not yet under the lock, checking a batch, or about to run the deferred \<^verbatim>\<open>completeWork\<close>.
\<close>

datatype 'o worker = Idle | Popped string | Working string "'o waiter list" | Completing string

text \<open>
  The system: the evaluator, its workers, and two histories, the requests submitted and the waiters
  answered (with the results they were notified of), each in order.
\<close>

record 'o quota_system =
  sys_evaluator :: "'o quota_evaluator"
  sys_workers :: "nat \<Rightarrow> 'o worker"
  sys_submitted :: "'o admission_attributes list"
  sys_answered :: "'o waiter list"

definition quota_init :: "'o quota_system" where
  "quota_init =
     \<lparr>sys_evaluator = NewQuotaEvaluator, sys_workers = (\<lambda>_. Idle), sys_submitted = [], sys_answered = []\<rparr>"

text \<open>
  A step of worker \<open>i\<close>. While a batch is checked, the registry may have grown and the accessor sees
  whatever other clients wrote: the check step is one call of \<^const>\<open>checkAttributes\<close> with an arbitrary
  accessor, whose state counts its calls.
\<close>

inductive worker_step :: "nat \<Rightarrow> 'o quota_system \<Rightarrow> 'o quota_system \<Rightarrow> bool" for i where
  get: "sys_workers s i = Idle \<Longrightarrow> wq_Get (qe_queue (sys_evaluator s)) = Some (Some ns, q) \<Longrightarrow>
    worker_step i s
      (s\<lparr>sys_evaluator := (sys_evaluator s)\<lparr>qe_queue := q\<rparr>, sys_workers := (sys_workers s)(i := Popped ns)\<rparr>)"
| take: "sys_workers s i = Popped ns \<Longrightarrow> getWork ns (sys_evaluator s) = (batch, e) \<Longrightarrow>
    worker_step i s (s\<lparr>sys_evaluator := e, sys_workers := (sys_workers s)(i := Working ns batch)\<rparr>)"
| skip: "sys_workers s i = Working ns [] \<Longrightarrow>
    worker_step i s (s\<lparr>sys_workers := (sys_workers s)(i := Completing ns)\<rparr>)"
| check: "sys_workers s i = Working ns batch \<Longrightarrow> batch \<noteq> [] \<Longrightarrow>
    checkAttributes registry limited (acc :: nat quota_accessor) ns batch 0 = (answers, calls) \<Longrightarrow>
    worker_step i s
      (s\<lparr>sys_workers := (sys_workers s)(i := Completing ns), sys_answered := sys_answered s @ answers\<rparr>)"
| complete: "sys_workers s i = Completing ns \<Longrightarrow>
    worker_step i s
      (s\<lparr>sys_evaluator := completeWork ns (sys_evaluator s), sys_workers := (sys_workers s)(i := Idle)\<rparr>)"

text \<open>The system with \<open>N\<close> workers: a request is submitted, a worker steps, or the queue is shut down.\<close>

inductive quota_step :: "nat \<Rightarrow> 'o quota_system \<Rightarrow> 'o quota_system \<Rightarrow> bool" for N where
  submit: "quota_step N s
    (s\<lparr>sys_evaluator := addWork (newAdmissionWaiter a) (sys_evaluator s),
       sys_submitted := sys_submitted s @ [a]\<rparr>)"
| worker: "i < N \<Longrightarrow> worker_step i s s' \<Longrightarrow> quota_step N s s'"
| shutdown: "quota_step N s
    (s\<lparr>sys_evaluator := (sys_evaluator s)\<lparr>qe_queue := wq_ShutDown (qe_queue (sys_evaluator s))\<rparr>\<rparr>)"

inductive quota_reachable :: "nat \<Rightarrow> 'o quota_system \<Rightarrow> bool" for N where
  init: "quota_reachable N quota_init"
| step: "quota_reachable N s \<Longrightarrow> quota_step N s s' \<Longrightarrow> quota_reachable N s'"

inductive_cases worker_stepE: "worker_step i s s'"
inductive_cases quota_stepE: "quota_step N s s'"

section \<open>The invariant\<close>

text \<open>The namespace a worker holds, the one it has marked in progress, and what it is checking of a namespace.\<close>

fun held :: "'o worker \<Rightarrow> string option" where
  "held Idle = None"
| "held (Popped ns) = Some ns"
| "held (Working ns b) = Some ns"
| "held (Completing ns) = Some ns"

fun busy :: "'o worker \<Rightarrow> string option" where
  "busy (Working ns b) = Some ns"
| "busy (Completing ns) = Some ns"
| "busy _ = None"

fun part :: "string \<Rightarrow> 'o worker \<Rightarrow> 'o waiter list" where
  "part ns (Working n b) = (if n = ns then b else [])"
| "part ns _ = []"

definition holders :: "(nat \<Rightarrow> 'o worker) \<Rightarrow> string set" where
  "holders w = {ns. \<exists>i. held (w i) = Some ns}"

definition busies :: "(nat \<Rightarrow> 'o worker) \<Rightarrow> string set" where
  "busies w = {ns. \<exists>i. busy (w i) = Some ns}"

definition exclusive :: "(nat \<Rightarrow> 'o worker) \<Rightarrow> bool" where
  "exclusive w \<longleftrightarrow> (\<forall>i j ns. held (w i) = Some ns \<longrightarrow> held (w j) = Some ns \<longrightarrow> i = j)"

lemma busy_held: "busy x = Some ns \<Longrightarrow> held x = Some ns"
  by (cases x) auto

lemma part_busy: "part ns x \<noteq> [] \<Longrightarrow> busy x = Some ns"
  by (cases x) (auto split: if_splits)

lemma holders_upd:
  "exclusive w \<Longrightarrow> holders (w(i := x)) = (holders w - set_option (held (w i))) \<union> set_option (held x)"
  by (fastforce simp: holders_def exclusive_def split: if_splits)

lemma busies_upd:
  "exclusive w \<Longrightarrow> busies (w(i := x)) = (busies w - set_option (busy (w i))) \<union> set_option (busy x)"
  by (fastforce simp: busies_def exclusive_def dest: busy_held split: if_splits)

lemma exclusive_upd:
  "exclusive w \<Longrightarrow> \<forall>n. held x = Some n \<longrightarrow> held (w i) = Some n \<or> n \<notin> holders w \<Longrightarrow> exclusive (w(i := x))"
  by (auto simp: exclusive_def holders_def)

lemma holdersI: "held (w i) = Some ns \<Longrightarrow> ns \<in> holders w"
  by (auto simp: holders_def)

lemma busiesI: "busy (w i) = Some ns \<Longrightarrow> ns \<in> busies w"
  by (auto simp: busies_def)

lemma busies_holders: "ns \<in> busies w \<Longrightarrow> ns \<in> holders w"
  by (auto simp: busies_def holders_def dest: busy_held)

lemma popped_not_busy:
  assumes "exclusive w" "w i = Popped ns"
  shows "ns \<notin> busies w"
proof
  assume "ns \<in> busies w"
  then obtain j where j: "busy (w j) = Some ns" by (auto simp: busies_def)
  with assms have "j = i" using busy_held [OF j] unfolding exclusive_def by (metis held.simps(2))
  with j assms show False by simp
qed

text \<open>What is being checked of a namespace: at most one of the parts is not empty.\<close>

definition checked_by :: "nat \<Rightarrow> (nat \<Rightarrow> 'o worker) \<Rightarrow> string \<Rightarrow> 'o waiter list" where
  "checked_by N w ns = concat (map (\<lambda>i. part ns (w i)) [0..<N])"

lemma concat_one: "i < n \<Longrightarrow> \<forall>j<n. j \<noteq> i \<longrightarrow> f j = [] \<Longrightarrow> concat (map f [0..<n]) = f i"
proof (induction n)
  case (Suc n)
  then show ?case by (cases "i = n") auto
qed simp

lemma checked_by_held:
  assumes "exclusive w" "i < N" "held (w i) = Some ns"
  shows "checked_by N w ns = part ns (w i)"
proof -
  have "part ns (w j) = []" if "j \<noteq> i" for j
    using assms that part_busy [of ns "w j"] busy_held [of "w j" ns] by (auto simp: exclusive_def)
  with assms(2) show ?thesis unfolding checked_by_def by (intro concat_one) auto
qed

lemma checked_by_free: "ns \<notin> busies w \<Longrightarrow> checked_by N w ns = []"
  using part_busy by (fastforce simp: checked_by_def busies_def)

lemma checked_by_cong: "\<forall>i<N. part ns (w i) = part ns (w' i) \<Longrightarrow> checked_by N w ns = checked_by N w' ns"
  unfolding checked_by_def by (intro arg_cong [where f = concat] map_cong) auto

text \<open>The queue and the workers.\<close>

definition queue_inv :: "'o quota_system \<Rightarrow> bool" where
  "queue_inv s \<longleftrightarrow>
     (let q = qe_queue (sys_evaluator s) in
      distinct (wq_queue q) \<and> finite (wq_dirty q) \<and>
      set (wq_queue q) = wq_dirty q - wq_processing q \<and>
      wq_processing q = holders (sys_workers s) \<and>
      qe_inProgress (sys_evaluator s) = busies (sys_workers s) \<and>
      exclusive (sys_workers s))"

text \<open>Waiting requests are always reached: their namespace is queued, or a worker has it and will come back to it.\<close>

definition bucket_inv :: "'o quota_system \<Rightarrow> bool" where
  "bucket_inv s \<longleftrightarrow>
     (let e = sys_evaluator s; q = qe_queue e in
      (\<forall>ns. qe_dirtyWork e ns \<noteq> [] \<longrightarrow> ns \<in> qe_inProgress e \<and> (wq_shuttingDown q \<or> ns \<in> wq_dirty q)) \<and>
      (\<forall>ns. qe_work e ns \<noteq> [] \<longrightarrow>
         ns \<notin> qe_inProgress e \<and> (wq_shuttingDown q \<or> ns \<in> wq_dirty q \<or> ns \<in> wq_processing q)))"

text \<open>Every request is in exactly one place, in the order of submission.\<close>

definition in_namespace :: "string \<Rightarrow> 'o waiter \<Rightarrow> bool" where
  "in_namespace ns w \<longleftrightarrow> ad_Namespace (wt_attributes w) = ns"

definition history_inv :: "nat \<Rightarrow> 'o quota_system \<Rightarrow> bool" where
  "history_inv N s \<longleftrightarrow>
     (let e = sys_evaluator s in
      (\<forall>ns. filter (\<lambda>a. ad_Namespace a = ns) (sys_submitted s) =
         map wt_attributes (filter (in_namespace ns) (sys_answered s) @ checked_by N (sys_workers s) ns @
           qe_work e ns @ qe_dirtyWork e ns)) \<and>
      (\<forall>ns. list_all (in_namespace ns) (checked_by N (sys_workers s) ns @ qe_work e ns @ qe_dirtyWork e ns)) \<and>
      list_all (\<lambda>w. wt_result w \<noteq> Some DefaultDeny) (sys_answered s))"

lemmas inv_defs = queue_inv_def bucket_inv_def Let_def

lemma wq_Get_SomeE:
  assumes "wq_Get q = Some (Some ns, q')"
  obtains rest where "wq_queue q = ns # rest"
    "q' = q\<lparr>wq_queue := rest, wq_processing := insert ns (wq_processing q), wq_dirty := wq_dirty q - {ns}\<rparr>"
  using assms by (auto simp: wq_Get_def split: list.splits if_splits)

lemma queue_inv_init: "queue_inv quota_init"
  by (simp add: inv_defs quota_init_def NewQuotaEvaluator_def wq_new_def holders_def busies_def exclusive_def)

lemma bucket_inv_init: "bucket_inv quota_init"
  by (simp add: inv_defs quota_init_def NewQuotaEvaluator_def)

lemma history_inv_init: "history_inv N quota_init"
  by (simp add: history_inv_def quota_init_def NewQuotaEvaluator_def checked_by_free busies_def)

lemma worker_step_queue_inv: "worker_step i s s' \<Longrightarrow> queue_inv s \<Longrightarrow> queue_inv s'"
proof (induction rule: worker_step.induct)
  case (get s ns q)
  then obtain rest where q: "wq_queue (qe_queue (sys_evaluator s)) = ns # rest" and
    "q = (qe_queue (sys_evaluator s))\<lparr>wq_queue := rest,
       wq_processing := insert ns (wq_processing (qe_queue (sys_evaluator s))),
       wq_dirty := wq_dirty (qe_queue (sys_evaluator s)) - {ns}\<rparr>"
    by (elim wq_Get_SomeE)
  moreover from q get(3) have "ns \<notin> holders (sys_workers s)" by (auto simp: inv_defs)
  ultimately show ?case
    using get(1,3) by (auto simp: inv_defs holders_upd busies_upd intro!: exclusive_upd)
next
  case (complete s ns)
  then show ?case
    using holdersI [of "sys_workers s" i ns]
    by (auto simp: inv_defs completeWork_def wq_Done_def holders_upd busies_upd intro!: exclusive_upd)
qed (auto simp: inv_defs getWork_def holders_upd busies_upd intro!: exclusive_upd
    intro: holdersI [where i = i] busiesI [where i = i])

lemma quota_step_queue_inv: "quota_step N s s' \<Longrightarrow> queue_inv s \<Longrightarrow> queue_inv s'"
proof (induction rule: quota_step.induct)
  case (submit s a)
  then show ?case by (auto simp: inv_defs addWork_def wq_Add_def)
next
  case (worker i s s')
  then show ?case by (blast intro: worker_step_queue_inv)
next
  case (shutdown s)
  then show ?case by (simp add: inv_defs wq_ShutDown_def)
qed

lemma worker_step_bucket_inv: "worker_step i s s' \<Longrightarrow> queue_inv s \<Longrightarrow> bucket_inv s \<Longrightarrow> bucket_inv s'"
proof (induction rule: worker_step.induct)
  case (get s ns q)
  then show ?case using busies_holders [of ns "sys_workers s"] by (elim wq_Get_SomeE) (auto simp: inv_defs)
next
  case (complete s ns)
  then show ?case by (auto simp: inv_defs completeWork_def wq_Done_def)
qed (auto simp: inv_defs getWork_def)

lemma quota_step_bucket_inv: "quota_step N s s' \<Longrightarrow> queue_inv s \<Longrightarrow> bucket_inv s \<Longrightarrow> bucket_inv s'"
proof (induction rule: quota_step.induct)
  case (submit s a)
  then show ?case by (auto simp: inv_defs addWork_def wq_Add_def)
next
  case (worker i s s')
  then show ?case by (blast intro: worker_step_bucket_inv)
next
  case (shutdown s)
  then show ?case by (auto simp: inv_defs wq_ShutDown_def)
qed

text \<open>A step of worker \<open>i\<close> moves requests between the places of the one namespace it holds.\<close>

lemma checked_by_other: "part ns x = part ns (w i) \<Longrightarrow> checked_by N (w(i := x)) ns = checked_by N w ns"
  by (rule checked_by_cong) auto

lemma checked_by_same:
  "exclusive w \<Longrightarrow> i < N \<Longrightarrow> held (w i) = Some ns \<Longrightarrow> checked_by N (w(i := x)) ns = part ns x"
  using part_busy busy_held unfolding checked_by_def exclusive_def
  by (subst concat_one [where i = i]) fastforce+

lemma checkAttributes_answers:
  assumes "checkAttributes registry limited acc ns batch n = (answers, m)"
  shows "map wt_attributes answers = map wt_attributes batch"
    "list_all (\<lambda>w. wt_result w \<noteq> Some DefaultDeny) answers"
    "list_all (in_namespace n') batch \<Longrightarrow> filter (in_namespace n') answers = answers"
    "list_all (in_namespace n') batch \<Longrightarrow> n'' \<noteq> n' \<Longrightarrow> filter (in_namespace n'') answers = []"
proof -
  show 1: "map wt_attributes answers = map wt_attributes batch"
    and "list_all (\<lambda>w. wt_result w \<noteq> Some DefaultDeny) answers"
    using checkAttributes_decided [of registry limited acc ns batch n] by (simp_all add: assms)
  have ns: "list_all (in_namespace k) ws = list_all (\<lambda>a. ad_Namespace a = k) (map wt_attributes ws)"
    for k and ws :: "'a waiter list"
    by (simp add: list_all_iff in_namespace_def)
  assume "list_all (in_namespace n') batch"
  then have "list_all (in_namespace n') answers" by (simp add: ns 1)
  then show "filter (in_namespace n') answers = answers"
    "n'' \<noteq> n' \<Longrightarrow> filter (in_namespace n'') answers = []"
    by (auto simp: list_all_iff in_namespace_def filter_id_conv filter_empty_conv)
qed

lemma worker_step_history_inv:
  assumes "worker_step i s s'" "i < N" "queue_inv s" "bucket_inv s" "history_inv N s"
  shows "history_inv N s'"
  using assms
proof (induction rule: worker_step.induct)
  case (get s ns q)
  then show ?case by (auto simp: history_inv_def Let_def checked_by_other)
next
  case (take s ns batch e)
  have ex: "exclusive (sys_workers s)" using take by (simp add: inv_defs)
  then have "ns \<notin> busies (sys_workers s)" using take(1) by (rule popped_not_busy)
  with take have "qe_dirtyWork (sys_evaluator s) ns = []" by (auto simp: inv_defs)
  moreover have "checked_by N ((sys_workers s)(i := Working ns batch)) n =
      (if n = ns then batch else checked_by N (sys_workers s) n)" for n
    using take(1,3) ex by (auto simp: checked_by_same checked_by_other)
  moreover have "checked_by N (sys_workers s) ns = []" by (rule checked_by_free) fact
  ultimately show ?case
    using take(2,6) by (auto simp: history_inv_def Let_def getWork_def)
next
  case (skip s ns)
  then show ?case by (auto simp: history_inv_def Let_def checked_by_other)
next
  case (check s ns batch registry limited acc answers calls)
  have ex: "exclusive (sys_workers s)" using check by (simp add: inv_defs)
  have old: "checked_by N (sys_workers s) ns = batch"
    using checked_by_held [OF ex check(4), of ns] check(1) by simp
  have new: "checked_by N ((sys_workers s)(i := Completing ns)) n =
      (if n = ns then [] else checked_by N (sys_workers s) n)" for n
    using check(1,4) ex by (auto simp: checked_by_same checked_by_other)
  have "list_all (in_namespace ns) batch" using check(7) old by (auto simp: history_inv_def Let_def)
  note answers = checkAttributes_answers [OF check(3)] checkAttributes_answers(3,4) [OF check(3) this]
  show ?case
    using check(7) old new answers by (auto simp: history_inv_def Let_def)
next
  case (complete s ns)
  have ex: "exclusive (sys_workers s)" using complete by (simp add: inv_defs)
  have "ns \<in> busies (sys_workers s)" by (rule busiesI [of _ i]) (simp add: complete)
  then have "qe_work (sys_evaluator s) ns = []" using complete by (auto simp: inv_defs)
  with complete show ?case
    by (auto simp: history_inv_def Let_def completeWork_def checked_by_other)
qed

lemma quota_step_history_inv:
  "quota_step N s s' \<Longrightarrow> queue_inv s \<Longrightarrow> bucket_inv s \<Longrightarrow> history_inv N s \<Longrightarrow> history_inv N s'"
proof (induction rule: quota_step.induct)
  case (submit s a)
  then have "ad_Namespace a \<notin> qe_inProgress (sys_evaluator s) \<Longrightarrow> qe_dirtyWork (sys_evaluator s) (ad_Namespace a) = []"
    by (auto simp: bucket_inv_def Let_def)
  with submit(3) show ?case
    by (auto simp: history_inv_def Let_def addWork_def newAdmissionWaiter_def in_namespace_def)
next
  case (worker i s s')
  then show ?case by (blast intro: worker_step_history_inv)
next
  case (shutdown s)
  then show ?case by (simp add: history_inv_def Let_def)
qed

definition idle_beyond :: "nat \<Rightarrow> 'o quota_system \<Rightarrow> bool" where
  "idle_beyond N s \<longleftrightarrow> (\<forall>i\<ge>N. sys_workers s i = Idle)"

lemma quota_step_idle_beyond: "quota_step N s s' \<Longrightarrow> idle_beyond N s \<Longrightarrow> idle_beyond N s'"
  by (auto simp: idle_beyond_def elim!: quota_stepE worker_stepE)

definition system_inv :: "nat \<Rightarrow> 'o quota_system \<Rightarrow> bool" where
  "system_inv N s \<longleftrightarrow> queue_inv s \<and> bucket_inv s \<and> history_inv N s \<and> idle_beyond N s"

lemma system_inv_step: "quota_step N s s' \<Longrightarrow> system_inv N s \<Longrightarrow> system_inv N s'"
  by (auto simp: system_inv_def intro: quota_step_queue_inv quota_step_bucket_inv quota_step_history_inv
      quota_step_idle_beyond)

lemma reachable_system_inv: "quota_reachable N s \<Longrightarrow> system_inv N s"
proof (induction rule: quota_reachable.induct)
  case init
  have "idle_beyond N quota_init" by (simp add: idle_beyond_def quota_init_def)
  then show ?case by (simp add: system_inv_def queue_inv_init bucket_inv_init history_inv_init)
qed (blast intro: system_inv_step)

text \<open>
  C15: However requests arrive and workers interleave, no request is lost, answered twice or overtaken: the
  requests of a namespace, in the order of their submission, are those answered, then those being
  checked, then those waiting; and every answer is a decision.
\<close>

theorem requests_conserved:
  assumes "quota_reachable N s"
  shows "filter (\<lambda>a. ad_Namespace a = ns) (sys_submitted s) =
      map wt_attributes (filter (\<lambda>w. ad_Namespace (wt_attributes w) = ns) (sys_answered s) @
        checked_by N (sys_workers s) ns @ qe_work (sys_evaluator s) ns @ qe_dirtyWork (sys_evaluator s) ns) \<and>
    list_all (\<lambda>w. wt_result w \<noteq> Some DefaultDeny) (sys_answered s)"
  using reachable_system_inv [OF assms]
  by (simp add: system_inv_def history_inv_def Let_def in_namespace_def [abs_def])

section \<open>Every request is answered\<close>

definition worker_run :: "nat \<Rightarrow> 'o quota_system \<Rightarrow> 'o quota_system \<Rightarrow> bool" where
  "worker_run N s s' \<longleftrightarrow> (\<exists>i<N. worker_step i s s')"

fun stage :: "'o worker \<Rightarrow> nat" where
  "stage Idle = 0"
| "stage (Completing ns) = 1"
| "stage (Working ns b) = 2"
| "stage (Popped ns) = 3"

text \<open>What is left to do: four steps for a namespace that is marked dirty, fewer for one that a worker has.\<close>

definition load :: "nat \<Rightarrow> 'o quota_system \<Rightarrow> nat" where
  "load N s = 4 * card (wq_dirty (qe_queue (sys_evaluator s))) + (\<Sum>i<N. stage (sys_workers s i))"

lemma sum_upd:
  "i < (N :: nat) \<Longrightarrow> (\<Sum>j<N. stage ((w(i := x)) j)) + stage (w i) = (\<Sum>j<N. stage (w j)) + stage x"
proof -
  assume "i < N"
  moreover have "(\<Sum>j\<in>{..<N} - {i}. stage ((w(i := x)) j)) = (\<Sum>j\<in>{..<N} - {i}. stage (w j))"
    by (rule sum.cong) auto
  ultimately show ?thesis
    using sum.remove [of "{..<N}" i "\<lambda>j. stage (w j)"] sum.remove [of "{..<N}" i "\<lambda>j. stage ((w(i := x)) j)"]
    by simp
qed

lemma worker_step_load:
  assumes "worker_step i s s'" "i < N" "queue_inv s"
  shows "load N s' < load N s"
  using assms
proof (induction rule: worker_step.induct)
  case (get s ns q)
  from get(2) obtain rest where q: "wq_queue (qe_queue (sys_evaluator s)) = ns # rest"
    "wq_dirty q = wq_dirty (qe_queue (sys_evaluator s)) - {ns}"
    by (elim wq_Get_SomeE) simp
  with get(4) have "ns \<in> wq_dirty (qe_queue (sys_evaluator s))" "finite (wq_dirty (qe_queue (sys_evaluator s)))"
    by (auto simp: queue_inv_def Let_def)
  then have "card (wq_dirty (qe_queue (sys_evaluator s))) = Suc (card (wq_dirty q))"
    unfolding q(2) by (metis card_Suc_Diff1)
  with get(1) sum_upd [OF get(3), of "sys_workers s" "Popped ns"] show ?case by (simp add: load_def)
next
  case (take s ns batch e)
  with sum_upd [OF take(3), of "sys_workers s" "Working ns batch"] show ?case
    by (auto simp: load_def getWork_def)
next
  case (skip s ns)
  with sum_upd [OF skip(2), of "sys_workers s" "Completing ns"] show ?case by (simp add: load_def)
next
  case (check s ns batch registry limited acc answers calls)
  with sum_upd [OF check(4), of "sys_workers s" "Completing ns"] show ?case by (simp add: load_def)
next
  case (complete s ns)
  with sum_upd [OF complete(2), of "sys_workers s" Idle] show ?case
    by (simp add: load_def completeWork_def wq_Done_def Let_def)
qed

text \<open>A worker is stuck only in \<^verbatim>\<open>queue.Get\<close> on an empty queue.\<close>

lemma stuck_worker:
  assumes "\<not> (\<exists>s'. worker_step i s s')"
  shows "sys_workers s i = Idle \<and> wq_queue (qe_queue (sys_evaluator s)) = []"
proof (cases "sys_workers s i")
  case Idle
  then show ?thesis using assms worker_step.get [OF Idle] by (cases "wq_queue (qe_queue (sys_evaluator s))") (auto simp: wq_Get_def)
next
  case (Popped ns)
  then show ?thesis using assms worker_step.take [OF Popped] by (auto simp: getWork_def)
next
  case (Working ns batch)
  show ?thesis
  proof (cases "batch = []")
    case True
    with assms Working worker_step.skip [of s i ns] show ?thesis by auto
  next
    case False
    with assms worker_step.check [OF Working False] show ?thesis by (metis surj_pair)
  qed
next
  case (Completing ns)
  then show ?thesis using assms worker_step.complete [OF Completing] by auto
qed

lemma worker_run_reachable:
  "(worker_run N)\<^sup>*\<^sup>* s s' \<Longrightarrow> quota_reachable N s \<Longrightarrow>
   quota_reachable N s' \<and> sys_submitted s' = sys_submitted s \<and>
   wq_shuttingDown (qe_queue (sys_evaluator s')) = wq_shuttingDown (qe_queue (sys_evaluator s))"
proof (induction rule: rtranclp_induct)
  case (step s' s'')
  then obtain i where i: "i < N" "worker_step i s' s''" by (auto simp: worker_run_def)
  then have "sys_submitted s'' = sys_submitted s' \<and>
      wq_shuttingDown (qe_queue (sys_evaluator s'')) = wq_shuttingDown (qe_queue (sys_evaluator s'))"
    by (elim worker_stepE) (auto simp: getWork_def completeWork_def wq_Done_def Let_def elim!: wq_Get_SomeE)
  with step i show ?case by (auto intro: quota_reachable.step quota_step.worker)
qed simp

lemma worker_run_bounded:
  "(worker_run N ^^ n) s s' \<Longrightarrow> quota_reachable N s \<Longrightarrow> n + load N s' \<le> load N s"
proof (induction n arbitrary: s')
  case (Suc n)
  then obtain s1 where s1: "(worker_run N ^^ n) s s1" "worker_run N s1 s'" by auto
  then have "quota_reachable N s1" using Suc.prems worker_run_reachable by (metis relpowp_imp_rtranclp)
  then have "load N s' < load N s1"
    using s1(2) worker_step_load reachable_system_inv [of N s1] unfolding worker_run_def system_inv_def by blast
  with Suc.IH [OF s1(1) Suc.prems(2)] show ?case by simp
qed simp

lemma drained:
  assumes "system_inv N s" "0 < N" "\<not> wq_shuttingDown (qe_queue (sys_evaluator s))" "\<not> (\<exists>s'. worker_run N s s')"
  shows "filter (\<lambda>a. ad_Namespace a = ns) (sys_submitted s) =
    map wt_attributes (filter (in_namespace ns) (sys_answered s))"
proof -
  have stuck: "sys_workers s i = Idle \<and> wq_queue (qe_queue (sys_evaluator s)) = []" if "i < N" for i
    by (rule stuck_worker) (use assms(4) that in \<open>auto simp: worker_run_def\<close>)
  then have idle: "sys_workers s i = Idle" for i
    using assms(1) by (cases "i < N") (auto simp: system_inv_def idle_beyond_def)
  then have none: "holders (sys_workers s) = {}" "busies (sys_workers s) = {}"
    by (simp_all add: holders_def busies_def)
  then have "wq_dirty (qe_queue (sys_evaluator s)) = {}"
    using stuck [OF assms(2)] assms(1) by (auto simp: system_inv_def queue_inv_def Let_def)
  then have "qe_work (sys_evaluator s) ns = []" "qe_dirtyWork (sys_evaluator s) ns = []"
    using assms(1,3) none by (auto simp: system_inv_def bucket_inv_def queue_inv_def Let_def)
  moreover have "checked_by N (sys_workers s) ns = []" by (rule checked_by_free) (simp add: none)
  ultimately show ?thesis using assms(1) by (simp add: system_inv_def history_inv_def Let_def)
qed

text \<open>
  C17: Every request is answered unless the queue is shut down: with at least one worker, the workers alone
  take at most \<^const>\<open>load\<close> steps, and when none of them can go on, the answers are exactly the requests
  submitted, namespace by namespace and in order.
\<close>

theorem requests_answered:
  assumes "quota_reachable N s" "0 < N" "\<not> wq_shuttingDown (qe_queue (sys_evaluator s))"
  shows "(\<forall>n s'. (worker_run N ^^ n) s s' \<longrightarrow> n \<le> load N s) \<and>
    (\<forall>s'. (worker_run N)\<^sup>*\<^sup>* s s' \<and> \<not> (\<exists>s''. worker_run N s' s'') \<longrightarrow>
      (\<forall>ns. filter (\<lambda>a. ad_Namespace a = ns) (sys_submitted s) =
        map wt_attributes (filter (\<lambda>w. ad_Namespace (wt_attributes w) = ns) (sys_answered s'))))"
proof (intro conjI allI impI)
  fix n s'
  assume "(worker_run N ^^ n) s s'"
  from worker_run_bounded [OF this assms(1)] show "n \<le> load N s" by simp
next
  fix s' ns
  assume run: "(worker_run N)\<^sup>*\<^sup>* s s' \<and> \<not> (\<exists>s''. worker_run N s' s'')"
  then have "quota_reachable N s'" "sys_submitted s' = sys_submitted s"
    "\<not> wq_shuttingDown (qe_queue (sys_evaluator s'))"
    using worker_run_reachable [of N s s'] assms by auto
  with drained [OF reachable_system_inv assms(2), of s' ns] run
  show "filter (\<lambda>a. ad_Namespace a = ns) (sys_submitted s) =
      map wt_attributes (filter (\<lambda>w. ad_Namespace (wt_attributes w) = ns) (sys_answered s'))"
    by (simp add: in_namespace_def [abs_def])
qed

section \<open>Refinement of a batching service\<close>

text \<open>
  What the evaluator promises, without queue, buckets or workers: requests of a namespace wait in
  line; when none of the namespace is being checked, the whole line is taken as one batch; a batch is
  answered at once, with a decision for each of its requests.
\<close>

record 'o batching =
  bt_waiting :: "string \<Rightarrow> 'o admission_attributes list"
  bt_batch :: "string \<Rightarrow> 'o admission_attributes list"
  bt_answered :: "'o waiter list"

inductive batch_step :: "'o batching \<Rightarrow> 'o batching \<Rightarrow> bool" where
  arrive: "batch_step b (b\<lparr>bt_waiting := (bt_waiting b)(ad_Namespace a := bt_waiting b (ad_Namespace a) @ [a])\<rparr>)"
| start: "bt_batch b ns = [] \<Longrightarrow>
    batch_step b (b\<lparr>bt_waiting := (bt_waiting b)(ns := []), bt_batch := (bt_batch b)(ns := bt_waiting b ns)\<rparr>)"
| answer: "bt_batch b ns = map wt_attributes answers \<Longrightarrow> answers \<noteq> [] \<Longrightarrow>
    list_all (\<lambda>w. wt_result w \<noteq> Some DefaultDeny) answers \<Longrightarrow>
    batch_step b (b\<lparr>bt_batch := (bt_batch b)(ns := []), bt_answered := bt_answered b @ answers\<rparr>)"

definition batching_of :: "nat \<Rightarrow> 'o quota_system \<Rightarrow> 'o batching" where
  "batching_of N s =
     \<lparr>bt_waiting = (\<lambda>ns. map wt_attributes (qe_work (sys_evaluator s) ns @ qe_dirtyWork (sys_evaluator s) ns)),
      bt_batch = (\<lambda>ns. map wt_attributes (checked_by N (sys_workers s) ns)),
      bt_answered = sys_answered s\<rparr>"

lemma submit_refines:
  assumes "bucket_inv s"
  shows "batch_step (batching_of N s)
    (batching_of N (s\<lparr>sys_evaluator := addWork (newAdmissionWaiter a) (sys_evaluator s),
       sys_submitted := sys_submitted s @ [a]\<rparr>))"
proof -
  have "ad_Namespace a \<notin> qe_inProgress (sys_evaluator s) \<Longrightarrow> qe_dirtyWork (sys_evaluator s) (ad_Namespace a) = []"
    using assms by (auto simp: bucket_inv_def Let_def)
  then have "batching_of N (s\<lparr>sys_evaluator := addWork (newAdmissionWaiter a) (sys_evaluator s),
       sys_submitted := sys_submitted s @ [a]\<rparr>) =
      (batching_of N s)\<lparr>bt_waiting := (bt_waiting (batching_of N s))
         (ad_Namespace a := bt_waiting (batching_of N s) (ad_Namespace a) @ [a])\<rparr>"
    by (auto simp: batching_of_def addWork_def Let_def newAdmissionWaiter_def)
  then show ?thesis by (simp only: batch_step.arrive)
qed

lemma worker_step_refines:
  assumes "worker_step i s s'" "i < N" "queue_inv s" "bucket_inv s"
  shows "batch_step (batching_of N s) (batching_of N s') \<or> batching_of N s' = batching_of N s"
  using assms
proof (induction rule: worker_step.induct)
  case (get s ns q)
  then show ?case by (simp add: batching_of_def checked_by_other)
next
  case (take s ns batch e)
  have ex: "exclusive (sys_workers s)" using take by (simp add: inv_defs)
  then have nb: "ns \<notin> busies (sys_workers s)" using take(1) by (rule popped_not_busy)
  with take have d: "qe_dirtyWork (sys_evaluator s) ns = []" by (auto simp: inv_defs)
  have c: "checked_by N (sys_workers s) ns = []" by (rule checked_by_free [OF nb])
  have "checked_by N ((sys_workers s)(i := Working ns batch)) n =
      (if n = ns then batch else checked_by N (sys_workers s) n)" for n
    using take(1,3) ex by (auto simp: checked_by_same checked_by_other)
  then have "batching_of N (s\<lparr>sys_evaluator := e, sys_workers := (sys_workers s)(i := Working ns batch)\<rparr>) =
      (batching_of N s)\<lparr>bt_waiting := (bt_waiting (batching_of N s))(ns := []),
        bt_batch := (bt_batch (batching_of N s))(ns := bt_waiting (batching_of N s) ns)\<rparr>"
    using take(2) d by (auto simp: batching_of_def getWork_def)
  moreover have "bt_batch (batching_of N s) ns = []" using c by (simp add: batching_of_def)
  ultimately show ?case using batch_step.start by metis
next
  case (skip s ns)
  then show ?case by (simp add: batching_of_def checked_by_other)
next
  case (check s ns batch registry limited acc answers calls)
  have ex: "exclusive (sys_workers s)" using check by (simp add: inv_defs)
  have old: "checked_by N (sys_workers s) ns = batch"
    using checked_by_held [OF ex check(4), of ns] check(1) by simp
  have "checked_by N ((sys_workers s)(i := Completing ns)) n =
      (if n = ns then [] else checked_by N (sys_workers s) n)" for n
    using check(1,4) ex by (auto simp: checked_by_same checked_by_other)
  then have "batching_of N (s\<lparr>sys_workers := (sys_workers s)(i := Completing ns), sys_answered := sys_answered s @ answers\<rparr>) =
      (batching_of N s)\<lparr>bt_batch := (bt_batch (batching_of N s))(ns := []),
        bt_answered := bt_answered (batching_of N s) @ answers\<rparr>"
    by (auto simp: batching_of_def)
  moreover note answers = checkAttributes_answers(1,2) [OF check(3)]
  moreover have "bt_batch (batching_of N s) ns = map wt_attributes answers"
    using old answers(1) by (simp add: batching_of_def)
  moreover have "answers \<noteq> []" using answers(1) check(2) by auto
  ultimately show ?case using batch_step.answer by metis
next
  case (complete s ns)
  have "ns \<in> busies (sys_workers s)" by (rule busiesI [of _ i]) (simp add: complete)
  then have "qe_work (sys_evaluator s) ns = []" using complete by (auto simp: inv_defs)
  then have "batching_of N (s\<lparr>sys_evaluator := completeWork ns (sys_evaluator s), sys_workers := (sys_workers s)(i := Idle)\<rparr>) =
      batching_of N s"
    using complete(1) by (auto simp: batching_of_def completeWork_def checked_by_other)
  then show ?case ..
qed

text \<open>
  C16: The concurrent evaluator refines the batching service: it starts as the service with nothing to do, and
  every step of it from a reachable state is a step of the service or leaves the service's state as it
  is; in particular two batches of a namespace are never checked at the same time and a batch is always
  the whole line.
\<close>

theorem evaluator_refines_batching:
  assumes "quota_reachable N s" "quota_step N s s'"
  shows "batching_of N quota_init = \<lparr>bt_waiting = \<lambda>_. [], bt_batch = \<lambda>_. [], bt_answered = []\<rparr> \<and>
    (batch_step (batching_of N s) (batching_of N s') \<or> batching_of N s' = batching_of N s)"
proof
  show "batching_of N quota_init = \<lparr>bt_waiting = \<lambda>_. [], bt_batch = \<lambda>_. [], bt_answered = []\<rparr>"
    by (simp add: batching_of_def quota_init_def NewQuotaEvaluator_def checked_by_free busies_def)
  have inv: "queue_inv s" "bucket_inv s"
    using reachable_system_inv [OF assms(1)] by (simp_all add: system_inv_def)
  from assms(2) inv show "batch_step (batching_of N s) (batching_of N s') \<or> batching_of N s' = batching_of N s"
  proof (induction rule: quota_step.induct)
    case (submit s a)
    then show ?case by (blast intro: submit_refines)
  next
    case (worker i s s')
    show ?case by (rule worker_step_refines [OF worker(2,1,3,4)])
  next
    case (shutdown s)
    then show ?case by (simp add: batching_of_def)
  qed
qed

section \<open>Witnesses\<close>

definition demo_submitted :: "string quota_system" where
  "demo_submitted =
     quota_init\<lparr>sys_evaluator := addWork (newAdmissionWaiter (wt_attributes (demo_waiter ''A''))) (sys_evaluator quota_init),
       sys_submitted := sys_submitted quota_init @ [wt_attributes (demo_waiter ''A'')]\<rparr>"

lemma demo_step: "quota_step N quota_init demo_submitted"
  unfolding demo_submitted_def by (rule quota_step.submit)

lemma demo_reachable: "quota_reachable N demo_submitted"
  by (rule quota_reachable.step [OF quota_reachable.init demo_step])

lemma demo_live: "\<not> wq_shuttingDown (qe_queue (sys_evaluator demo_submitted))"
  by (simp add: demo_submitted_def quota_init_def NewQuotaEvaluator_def addWork_def wq_new_def wq_Add_def Let_def)

theorem requests_conserved_witness:
  "\<exists>N s. quota_reachable N s \<and> sys_submitted s = [wt_attributes (demo_waiter ''A'')] \<and>
     map wt_attributes (qe_work (sys_evaluator s) ''ns'') = sys_submitted s"
proof -
  have "map wt_attributes (qe_work (sys_evaluator demo_submitted) ''ns'') = sys_submitted demo_submitted"
    using requests_conserved [OF demo_reachable [of 1], of "''ns''"]
    by (simp add: demo_submitted_def quota_init_def NewQuotaEvaluator_def addWork_def wq_new_def wq_Add_def Let_def
        demo_waiter_def newAdmissionWaiter_def)
  moreover have "sys_submitted demo_submitted = [wt_attributes (demo_waiter ''A'')]"
    by (simp add: demo_submitted_def quota_init_def)
  ultimately show ?thesis using demo_reachable by blast
qed

theorem requests_answered_witness:
  "\<exists>s. quota_reachable 1 s \<and> sys_submitted s = [wt_attributes (demo_waiter ''A'')] \<and>
     (\<forall>n s'. (worker_run 1 ^^ n) s s' \<longrightarrow> n \<le> load 1 s)"
proof -
  have "sys_submitted demo_submitted = [wt_attributes (demo_waiter ''A'')]"
    by (simp add: demo_submitted_def quota_init_def)
  with requests_answered [OF demo_reachable [of 1] _ demo_live] demo_reachable [of 1] show ?thesis by auto
qed

theorem evaluator_refines_batching_witness:
  "\<exists>s s' :: string quota_system. quota_step 1 s s' \<and> batching_of 1 s' \<noteq> batching_of 1 s \<and>
     batch_step (batching_of 1 s) (batching_of 1 s')"
proof -
  have "bt_waiting (batching_of 1 demo_submitted) ''ns'' \<noteq> bt_waiting (batching_of 1 quota_init) ''ns''"
    by (simp add: batching_of_def demo_submitted_def quota_init_def NewQuotaEvaluator_def addWork_def wq_new_def
        wq_Add_def Let_def demo_waiter_def newAdmissionWaiter_def)
  then have "batching_of 1 demo_submitted \<noteq> batching_of 1 quota_init" by metis
  with evaluator_refines_batching [OF quota_reachable.init demo_step [of 1]] demo_step show ?thesis by blast
qed

end
