(* ===== verification/Workspace_Quota.thy ===== *)
theory Workspace_Quota
  imports Quota_Admission
begin

text \<open>
  Quotas of workspaces (\<^verbatim>\<open>pkg/controller/quota\<close>): a workspace quota limits the sum of what several namespaces use. The
  accessor gives the admission controller the totals of the quotas of a namespace and writes new totals back; the controller
  recomputes the usage of every namespace; locks keep two workers from checking one quota at the same time.
  The Kubernetes client is a record of functions on a state; resource versions are numbers, as the versioner of etcd reads
  them. The look-aside cache is the list of its entries, most recently used first.
\<close>

section \<open>Workspace quotas\<close>

record ns_status =
  nss_Namespace :: string
  nss_Hard :: resource_list
  nss_Used :: resource_list

record ws_quota =
  wsq_Name :: string
  wsq_ResourceVersion :: nat
  wsq_UID :: string
  wsq_Labels :: "(string, string) gomap"
  wsq_Owner :: "string option"
  wsq_Selector :: "(string, string) gomap"
  wsq_Scopes :: "string list"
  wsq_ScopeSelector :: "scope_requirement list option"
  wsq_Hard :: resource_list
  wsq_TotalHard :: resource_list
  wsq_TotalUsed :: resource_list
  wsq_Namespaces :: "ns_status list"

definition quota_APIVersion :: string where
  "quota_APIVersion = ''quota.kubesphere.io/v1alpha2''"

fun getResourceQuotasStatusByNamespace :: "ns_status list \<Rightarrow> string \<Rightarrow> ns_status \<times> bool" where
  "getResourceQuotasStatusByNamespace [] namespace = (\<lparr>nss_Namespace = [], nss_Hard = [], nss_Used = []\<rparr>, False)"
| "getResourceQuotasStatusByNamespace (cur # rest) namespace =
     (if nss_Namespace cur = namespace then (cur, True) else getResourceQuotasStatusByNamespace rest namespace)"

definition removeResourceQuotasStatusByNamespace :: "ns_status list \<Rightarrow> string \<Rightarrow> ns_status list" where
  "removeResourceQuotasStatusByNamespace statuses namespace = filter (\<lambda>cur. nss_Namespace cur \<noteq> namespace) statuses"

definition insertResourceQuotasStatus :: "ns_status list \<Rightarrow> ns_status \<Rightarrow> ns_status list" where
  "insertResourceQuotasStatus statuses newStatus =
     (let new = map (\<lambda>cur. if nss_Namespace cur = nss_Namespace newStatus then newStatus else cur) statuses;
          found = list_ex (\<lambda>cur. nss_Namespace cur = nss_Namespace newStatus) statuses
      in if \<not> found then new @ [newStatus] else new)"

section \<open>The client and the cache\<close>

datatype client_error = QuotaNotFound string | QuotaFailed string

fun error_text :: "client_error \<Rightarrow> string" where
  "error_text (QuotaNotFound e) = e"
| "error_text (QuotaFailed e) = e"

type_synonym ('a, 's) quota_call = "'s \<Rightarrow> (client_error, 'a) result \<times> 's"

text \<open>An update answers with the object as it was stored.\<close>

record 's quota_client =
  qc_GetNamespace :: "string \<Rightarrow> ((string, string) gomap, 's) quota_call"
  qc_ListNamespaces :: "(string, string) gomap \<Rightarrow> (string list, 's) quota_call"
  qc_GetQuota :: "string \<Rightarrow> (ws_quota, 's) quota_call"
  qc_ListQuotas :: "(ws_quota list, 's) quota_call"
  qc_ListNamespacedQuotas :: "string \<Rightarrow> (resource_quota list, 's) quota_call"
  qc_Update :: "ws_quota \<Rightarrow> (ws_quota, 's) quota_call"
  qc_UpdateStatus :: "ws_quota \<Rightarrow> (ws_quota, 's) quota_call"
  qc_GetWorkspace :: "string \<Rightarrow> (string, 's) quota_call"
  qc_SetControllerReference :: "string \<Rightarrow> client_error option"
  qc_CalculateUsage :: "string \<Rightarrow> ws_quota \<Rightarrow> (resource_list, 's) quota_call"
  qc_tries :: nat

type_synonym lru = "(string \<times> ws_quota) list"

definition lru_Remove :: "string \<Rightarrow> lru \<Rightarrow> lru" where
  "lru_Remove key c = filter (\<lambda>e. fst e \<noteq> key) c"

definition lru_Get :: "string \<Rightarrow> lru \<Rightarrow> ws_quota option \<times> lru" where
  "lru_Get key c = (case map_of c key of None \<Rightarrow> (None, c) | Some v \<Rightarrow> (Some v, (key, v) # lru_Remove key c))"

definition lru_Add :: "nat \<Rightarrow> string \<Rightarrow> ws_quota \<Rightarrow> lru \<Rightarrow> lru" where
  "lru_Add n key v c =
     (if map_of c key \<noteq> None then (key, v) # lru_Remove key c
      else (let c' = (key, v) # c in if length c' > n then butlast c' else c'))"

record 's accessor_state =
  as_lru :: lru
  as_client :: 's

definition on_client :: "('a, 's) quota_call \<Rightarrow> ('a, 's accessor_state) quota_call" where
  "on_client f s = (case f (as_client s) of (r, c) \<Rightarrow> (r, s\<lparr>as_client := c\<rparr>))"

section \<open>The quotas of a namespace\<close>

text \<open>A selector made from a set of labels: every label of the set with its value, so the empty set selects everything.\<close>

definition SelectorFromSet_Matches :: "(string, string) gomap \<Rightarrow> (string, string) gomap \<Rightarrow> bool" where
  "SelectorFromSet_Matches sel labels = list_all (\<lambda>(k, v). map_of labels k = Some v) sel"

definition resourceQuotaNamesFor :: "'s quota_client \<Rightarrow> string \<Rightarrow> (string list, 's) quota_call" where
  "resourceQuotaNamesFor client namespaceName s =
     (case qc_GetNamespace client namespaceName s of
        (Inl e, s1) \<Rightarrow> (Inl e, s1)
      | (Inr labels, s1) \<Rightarrow>
          (if length labels = 0 then (Inr [], s1)
           else
             (case qc_ListQuotas client s1 of
                (Inl e, s2) \<Rightarrow> (Inl e, s2)
              | (Inr quotas, s2) \<Rightarrow>
                  (Inr (map wsq_Name (filter (\<lambda>q. length (wsq_Selector q) > 0 \<and> SelectorFromSet_Matches (wsq_Selector q) labels) quotas)), s2))))"

text \<open>Polling: a round gives an error, nothing yet, or a result; \<open>n\<close> rounds fit into the time limit.\<close>

fun poll :: "nat \<Rightarrow> ('a option, 's) quota_call \<Rightarrow> ('a, 's) quota_call" where
  "poll 0 f s = (Inl (QuotaFailed ''timed out waiting for the condition''), s)"
| "poll (Suc n) f s =
     (case f s of
        (Inl e, s1) \<Rightarrow> (Inl e, s1)
      | (Inr None, s1) \<Rightarrow> poll n f s1
      | (Inr (Some x), s1) \<Rightarrow> (Inr x, s1))"

definition names_round :: "'s quota_client \<Rightarrow> string \<Rightarrow> (string list option, 's) quota_call" where
  "names_round client namespaceName s =
     (case resourceQuotaNamesFor client namespaceName s of
        (Inl (QuotaNotFound e), s1) \<Rightarrow> (Inr None, s1)
      | (Inl (QuotaFailed e), s1) \<Rightarrow> (Inl (QuotaFailed e), s1)
      | (Inr names, s1) \<Rightarrow> (Inr (Some names), s1))"

definition waitForReadyResourceQuotaNames :: "'s quota_client \<Rightarrow> string \<Rightarrow> (string list, 's) quota_call" where
  "waitForReadyResourceQuotaNames client namespaceName = poll (Suc (qc_tries client)) (names_round client namespaceName)"

definition namespaced_round :: "'s quota_client \<Rightarrow> string \<Rightarrow> (resource_quota list option, 's) quota_call" where
  "namespaced_round client namespaceName s =
     (case qc_ListNamespacedQuotas client namespaceName s of
        (Inl e, s1) \<Rightarrow> (Inl e, s1)
      | (Inr items, s1) \<Rightarrow> (Inr (Some items), s1))"

definition waitForReadyNamespacedResourceQuotas :: "'s quota_client \<Rightarrow> string \<Rightarrow> (resource_quota list, 's) quota_call" where
  "waitForReadyNamespacedResourceQuotas client namespaceName =
     poll (Suc (qc_tries client)) (namespaced_round client namespaceName)"

definition checkCache :: "ws_quota \<Rightarrow> 's accessor_state \<Rightarrow> ws_quota \<times> 's accessor_state" where
  "checkCache q s =
     (case lru_Get (wsq_Name q) (as_lru s) of
        (None, c) \<Rightarrow> (q, s\<lparr>as_lru := c\<rparr>)
      | (Some cachedQuota, c) \<Rightarrow>
          (if wsq_ResourceVersion q \<ge> wsq_ResourceVersion cachedQuota
           then (q, s\<lparr>as_lru := lru_Remove (wsq_Name q) c\<rparr>)
           else (cachedQuota, s\<lparr>as_lru := c\<rparr>)))"

text \<open>Reading a quota: from the client, or newer from the cache.\<close>

definition read_quota :: "'s quota_client \<Rightarrow> string \<Rightarrow> (ws_quota, 's accessor_state) quota_call" where
  "read_quota client name s =
     (case on_client (qc_GetQuota client name) s of
        (Inl e, s1) \<Rightarrow> (Inl e, s1)
      | (Inr q, s1) \<Rightarrow> (case checkCache q s1 of (q', s2) \<Rightarrow> (Inr q', s2)))"

definition convert_quota :: "string \<Rightarrow> ws_quota \<Rightarrow> resource_quota" where
  "convert_quota namespaceName q =
     \<lparr>rq_APIVersion = quota_APIVersion, rq_Name = wsq_Name q, rq_Namespace = namespaceName,
      rq_ResourceVersion = wsq_ResourceVersion q, rq_UID = wsq_UID q, rq_Labels = wsq_Labels q, rq_Owner = wsq_Owner q,
      rq_Scopes = wsq_Scopes q, rq_ScopeSelector = wsq_ScopeSelector q, rq_Hard = wsq_TotalHard q, rq_Used = wsq_TotalUsed q\<rparr>"

fun read_quotas :: "'s quota_client \<Rightarrow> string \<Rightarrow> string list \<Rightarrow> (resource_quota list, 's accessor_state) quota_call" where
  "read_quotas client namespaceName [] s = (Inr [], s)"
| "read_quotas client namespaceName (n # ns) s =
     (case read_quota client n s of
        (Inl e, s1) \<Rightarrow> (Inl e, s1)
      | (Inr q, s1) \<Rightarrow>
          (case read_quotas client namespaceName ns s1 of
             (Inl e, s2) \<Rightarrow> (Inl e, s2)
           | (Inr qs, s2) \<Rightarrow> (Inr (convert_quota namespaceName q # qs), s2)))"

definition GetQuotas :: "'s quota_client \<Rightarrow> string \<Rightarrow> (resource_quota list, 's accessor_state) quota_call" where
  "GetQuotas client namespaceName s =
     (case on_client (waitForReadyResourceQuotaNames client namespaceName) s of
        (Inl e, s1) \<Rightarrow> (Inl e, s1)
      | (Inr names, s1) \<Rightarrow>
          (case read_quotas client namespaceName names s1 of
             (Inl e, s2) \<Rightarrow> (Inl e, s2)
           | (Inr result, s2) \<Rightarrow>
               (case on_client (waitForReadyNamespacedResourceQuotas client namespaceName) s2 of
                  (Inl e, s3) \<Rightarrow> (Inl e, s3)
                | (Inr namespaced, s3) \<Rightarrow> (Inr (result @ map (\<lambda>q. q\<lparr>rq_APIVersion := ''v1''\<rparr>) namespaced), s3))))"

section \<open>Writing totals back\<close>

text \<open>The status for a new total: what changed is booked on the namespace of the request.\<close>

definition with_usage :: "resource_quota \<Rightarrow> ws_quota \<Rightarrow> ws_quota" where
  "with_usage newQuota base =
     (let updated = base\<lparr>wsq_Name := rq_Name newQuota, wsq_ResourceVersion := rq_ResourceVersion newQuota,
            wsq_UID := rq_UID newQuota, wsq_Labels := rq_Labels newQuota, wsq_Owner := rq_Owner newQuota\<rparr>;
          usageDiff = quota_Subtract (rq_Used newQuota) (wsq_TotalUsed updated);
          (old, _) = getResourceQuotasStatusByNamespace (wsq_Namespaces updated) (rq_Namespace newQuota);
          newTotals = old\<lparr>nss_Namespace := rq_Namespace newQuota, nss_Used := quota_Add (nss_Used old) usageDiff\<rparr>
      in updated\<lparr>wsq_TotalUsed := rq_Used newQuota,
           wsq_Namespaces := insertResourceQuotasStatus (wsq_Namespaces updated) newTotals\<rparr>)"

definition lru_size :: nat where "lru_size = 100"

definition UpdateQuotaStatus :: "'s quota_client \<Rightarrow> resource_quota \<Rightarrow> 's accessor_state \<Rightarrow> client_error option \<times> 's accessor_state" where
  "UpdateQuotaStatus client newQuota s =
     (if rq_APIVersion newQuota \<noteq> quota_APIVersion then (None, s)
      else
        (case read_quota client (rq_Name newQuota) s of
           (Inl e, s1) \<Rightarrow> (Some e, s1)
         | (Inr base, s1) \<Rightarrow>
             (case on_client (qc_UpdateStatus client (with_usage newQuota base)) s1 of
                (Inl e, s2) \<Rightarrow> (Some e, s2)
              | (Inr updated, s2) \<Rightarrow> (None, s2\<lparr>as_lru := lru_Add lru_size (wsq_Name base) updated (as_lru s2)\<rparr>))))"

section \<open>The controller\<close>

text \<open>
  The loop over the namespaces that match: the old usage of each goes out of the total and the measured usage into it. The
  second loop drops namespaces that do not match any more.
\<close>

definition recalculated :: "string \<Rightarrow> resource_list \<Rightarrow> ws_quota \<Rightarrow> ws_quota" where
  "recalculated namespaceName actualUsage q =
     (let (old, _) = getResourceQuotasStatusByNamespace (wsq_Namespaces q) namespaceName
      in q\<lparr>wsq_TotalUsed := quota_Add (quota_Subtract (wsq_TotalUsed q) (nss_Used old)) actualUsage,
           wsq_Namespaces := insertResourceQuotasStatus (wsq_Namespaces q)
             \<lparr>nss_Namespace = namespaceName, nss_Hard = wsq_Hard q, nss_Used = actualUsage\<rparr>\<rparr>)"

fun recalculate_loop :: "'s quota_client \<Rightarrow> string list \<Rightarrow> ws_quota \<Rightarrow> (ws_quota, 's) quota_call" where
  "recalculate_loop client [] q s = (Inr q, s)"
| "recalculate_loop client (n # ns) q s =
     (case qc_CalculateUsage client n q s of
        (Inl e, s1) \<Rightarrow> (Inl e, s1)
      | (Inr actualUsage, s1) \<Rightarrow> recalculate_loop client ns (recalculated n actualUsage q) s1)"

fun remove_loop :: "string list \<Rightarrow> ns_status list \<Rightarrow> ws_quota \<Rightarrow> ws_quota" where
  "remove_loop matching [] q = q"
| "remove_loop matching (t # ts) q =
     remove_loop matching ts
       (if nss_Namespace t \<notin> set matching
        then q\<lparr>wsq_TotalUsed := quota_Subtract (wsq_TotalUsed q) (nss_Used t),
               wsq_Namespaces := removeResourceQuotasStatusByNamespace (wsq_Namespaces q) (nss_Namespace t)\<rparr>
        else q)"

text \<open>Nothing to write: the status says the same; the rest of the quota was not changed.\<close>

definition same_ns_status :: "ns_status \<Rightarrow> ns_status \<Rightarrow> bool" where
  "same_ns_status a b \<longleftrightarrow> nss_Namespace a = nss_Namespace b \<and> Equals (nss_Hard a) (nss_Hard b) \<and> Equals (nss_Used a) (nss_Used b)"

definition same_status :: "ws_quota \<Rightarrow> ws_quota \<Rightarrow> bool" where
  "same_status a b \<longleftrightarrow> Equals (wsq_TotalHard a) (wsq_TotalHard b) \<and> Equals (wsq_TotalUsed a) (wsq_TotalUsed b)
     \<and> list_all2 same_ns_status (wsq_Namespaces a) (wsq_Namespaces b)"

definition synced_status :: "string list \<Rightarrow> ws_quota \<Rightarrow> ws_quota" where
  "synced_status matching q = (remove_loop matching (wsq_Namespaces q) q)\<lparr>wsq_TotalHard := wsq_Hard q\<rparr>"

definition syncQuotaForNamespaces :: "'s quota_client \<Rightarrow> ws_quota \<Rightarrow> 's \<Rightarrow> client_error option \<times> 's" where
  "syncQuotaForNamespaces client originalQuota s =
     (case qc_ListNamespaces client (wsq_Selector originalQuota) s of
        (Inl e, s1) \<Rightarrow> (Some e, s1)
      | (Inr matching, s1) \<Rightarrow>
          (case recalculate_loop client matching originalQuota s1 of
             (Inl e, s2) \<Rightarrow> (Some e, s2)
           | (Inr q, s2) \<Rightarrow>
               (let quota = synced_status matching q in
                if same_status quota originalQuota then (None, s2)
                else
                  (case qc_UpdateStatus client quota s2 of
                     (Inl e, s3) \<Rightarrow> (Some e, s3)
                   | (Inr _, s3) \<Rightarrow> (None, s3)))))"

definition ignore_not_found :: "client_error \<Rightarrow> client_error option" where
  "ignore_not_found e = (case e of QuotaNotFound _ \<Rightarrow> None | QuotaFailed _ \<Rightarrow> Some e)"

definition quota_WorkspaceLabel :: string where
  "quota_WorkspaceLabel = ''kubesphere.io/workspace''"

definition bindWorkspace :: "'s quota_client \<Rightarrow> ws_quota \<Rightarrow> 's \<Rightarrow> (client_error option \<times> ws_quota) \<times> 's" where
  "bindWorkspace client q s =
     (let workspaceName = map_get [] (wsq_Labels q) quota_WorkspaceLabel in
      if workspaceName = [] then ((None, q), s)
      else
        (case qc_GetWorkspace client workspaceName s of
           (Inl e, s1) \<Rightarrow> ((ignore_not_found e, q), s1)
         | (Inr uid, s1) \<Rightarrow>
             (if wsq_Owner q \<noteq> Some uid
              then
                (case qc_SetControllerReference client uid of
                   Some e \<Rightarrow> ((Some e, q\<lparr>wsq_Owner := None\<rparr>), s1)
                 | None \<Rightarrow>
                     (case qc_Update client (q\<lparr>wsq_Owner := Some uid\<rparr>) s1 of
                        (Inl e, s2) \<Rightarrow> ((Some e, q\<lparr>wsq_Owner := Some uid\<rparr>), s2)
                      | (Inr q', s2) \<Rightarrow> ((None, q'), s2)))
              else ((None, q), s1))))"

text \<open>The result: an error, or whether the quota is to be looked at again after the resync period.\<close>

definition quota_Reconcile :: "'s quota_client \<Rightarrow> string \<Rightarrow> 's \<Rightarrow> (client_error option \<times> bool) \<times> 's" where
  "quota_Reconcile client name s =
     (case qc_GetQuota client name s of
        (Inl e, s1) \<Rightarrow> ((ignore_not_found e, False), s1)
      | (Inr q, s1) \<Rightarrow>
          (case bindWorkspace client q s1 of
             ((Some e, _), s2) \<Rightarrow> ((Some e, False), s2)
           | ((None, q'), s2) \<Rightarrow>
               (case syncQuotaForNamespaces client q' s2 of
                  (Some e, s3) \<Rightarrow> ((Some e, False), s3)
                | (None, s3) \<Rightarrow> ((None, True), s3))))"

text \<open>The quotas to look at after an object of a namespace changed.\<close>

fun mapper_loop :: "'s quota_client \<Rightarrow> (string list \<Rightarrow> string list) list \<Rightarrow> string list \<Rightarrow> 's \<Rightarrow> string list \<times> 's" where
  "mapper_loop client evaluators [] s = ([], s)"
| "mapper_loop client evaluators (n # ns) s =
     (case qc_GetQuota client n s of
        (Inl e, s1) \<Rightarrow> ([], s1)
      | (Inr q, s1) \<Rightarrow>
          (let hit = list_ex (\<lambda>matching. length (matching (ResourceNames_of (wsq_TotalHard q))) > 0) evaluators;
               (rest, s2) = mapper_loop client evaluators ns s1
           in (if hit then n # rest else rest, s2)))"

definition quota_mapper :: "'s quota_client \<Rightarrow> (string list \<Rightarrow> string list) list \<Rightarrow> string \<Rightarrow> 's \<Rightarrow> string list \<times> 's" where
  "quota_mapper client evaluators namespace s =
     (case resourceQuotaNamesFor client namespace s of
        (Inl e, s1) \<Rightarrow> ([], s1)
      | (Inr names, s1) \<Rightarrow> mapper_loop client evaluators names s1)"

section \<open>Totals and namespaces agree\<close>

text \<open>How far the total of a resource is from the sum over the namespaces.\<close>

definition ns_sum :: "ns_status list \<Rightarrow> string \<Rightarrow> int" where
  "ns_sum statuses r = sum_list (map (\<lambda>t. qty (nss_Used t) r) statuses)"

definition drift :: "ws_quota \<Rightarrow> string \<Rightarrow> int" where
  "drift q r = qty (wsq_TotalUsed q) r - ns_sum (wsq_Namespaces q) r"

definition wf_statuses :: "ns_status list \<Rightarrow> bool" where
  "wf_statuses statuses \<longleftrightarrow> distinct (map nss_Namespace statuses) \<and> (\<forall>t \<in> set statuses. wf_map (nss_Used t))"

definition wf_ws_quota :: "ws_quota \<Rightarrow> bool" where
  "wf_ws_quota q \<longleftrightarrow> wf_map (wsq_TotalUsed q) \<and> wf_map (wsq_TotalHard q) \<and> wf_map (wsq_Hard q) \<and> wf_statuses (wsq_Namespaces q)"

lemma ns_sum_simps [simp]: "ns_sum [] r = 0" "ns_sum (t # ts) r = qty (nss_Used t) r + ns_sum ts r"
  "ns_sum (ts @ us) r = ns_sum ts r + ns_sum us r"
  by (simp_all add: ns_sum_def)

abbreviation used_in :: "ns_status list \<Rightarrow> string \<Rightarrow> resource_list" where
  "used_in statuses ns \<equiv> nss_Used (fst (getResourceQuotasStatusByNamespace statuses ns))"

lemma qty_Nil [simp]: "qty [] r = 0" by (simp add: qty_def map_get_def)

lemma getResourceQuotasStatusByNamespace_absent:
  "ns \<notin> nss_Namespace ` set ts \<Longrightarrow> getResourceQuotasStatusByNamespace ts ns = (\<lparr>nss_Namespace = [], nss_Hard = [], nss_Used = []\<rparr>, False)"
  by (induction ts) auto

lemma replace_absent:
  "n \<notin> nss_Namespace ` set ts \<Longrightarrow> map (\<lambda>u. if nss_Namespace u = n then t else u) ts = ts"
  by (induction ts) auto

lemma insert_absent:
  "nss_Namespace t \<notin> nss_Namespace ` set ts \<Longrightarrow> insertResourceQuotasStatus ts t = ts @ [t]"
  by (simp add: insertResourceQuotasStatus_def Let_def list_ex_iff replace_absent) (metis imageI)

lemma insert_present:
  "nss_Namespace t \<in> nss_Namespace ` set ts \<Longrightarrow>
   insertResourceQuotasStatus ts t = map (\<lambda>u. if nss_Namespace u = nss_Namespace t then t else u) ts"
  by (auto simp: insertResourceQuotasStatus_def Let_def list_ex_iff)

lemma ns_sum_replace:
  "wf_statuses ts \<Longrightarrow> nss_Namespace t \<in> nss_Namespace ` set ts \<Longrightarrow>
   ns_sum (map (\<lambda>u. if nss_Namespace u = nss_Namespace t then t else u) ts) r
     = ns_sum ts r - qty (used_in ts (nss_Namespace t)) r + qty (nss_Used t) r"
proof (induction ts)
  case (Cons u ts)
  show ?case
  proof (cases "nss_Namespace u = nss_Namespace t")
    case True
    then have "nss_Namespace t \<notin> nss_Namespace ` set ts" using Cons.prems(1) by (auto simp: wf_statuses_def)
    then have "map (\<lambda>u. if nss_Namespace u = nss_Namespace t then t else u) ts = ts" by (rule replace_absent)
    with True show ?thesis by simp
  qed (use Cons in \<open>auto simp: wf_statuses_def\<close>)
qed simp

lemma ns_sum_insert:
  assumes "wf_statuses ts"
  shows "ns_sum (insertResourceQuotasStatus ts t) r = ns_sum ts r - qty (used_in ts (nss_Namespace t)) r + qty (nss_Used t) r"
  using assms by (cases "nss_Namespace t \<in> nss_Namespace ` set ts")
    (simp_all add: insert_absent insert_present ns_sum_replace getResourceQuotasStatusByNamespace_absent)

lemma names_insert:
  "map nss_Namespace (insertResourceQuotasStatus ts t) =
     (if nss_Namespace t \<in> nss_Namespace ` set ts then map nss_Namespace ts else map nss_Namespace ts @ [nss_Namespace t])"
  by (cases "nss_Namespace t \<in> nss_Namespace ` set ts") (auto simp: insert_absent insert_present)

lemma set_insert: "set (insertResourceQuotasStatus ts t) \<subseteq> insert t (set ts)"
  by (auto simp: insertResourceQuotasStatus_def Let_def)

lemma wf_insert [simp]: "wf_statuses ts \<Longrightarrow> wf_map (nss_Used t) \<Longrightarrow> wf_statuses (insertResourceQuotasStatus ts t)"
  using set_insert [of ts t] by (auto simp: wf_statuses_def names_insert)

lemma wf_used_in [simp]: "wf_statuses ts \<Longrightarrow> wf_map (used_in ts ns)"
  by (induction ts) (auto simp: wf_statuses_def wf_map_def)

lemma wf_remove [simp]: "wf_statuses ts \<Longrightarrow> wf_statuses (removeResourceQuotasStatusByNamespace ts ns)"
  by (auto simp: wf_statuses_def removeResourceQuotasStatusByNamespace_def distinct_map_filter)

lemma ns_sum_remove:
  "wf_statuses ts \<Longrightarrow> ns_sum (removeResourceQuotasStatusByNamespace ts ns) r = ns_sum ts r - qty (used_in ts ns) r"
proof (induction ts)
  case (Cons u ts)
  have ts: "wf_statuses ts" using Cons.prems by (simp add: wf_statuses_def)
  show ?case
  proof (cases "nss_Namespace u = ns")
    case True
    then have "ns \<notin> nss_Namespace ` set ts" using Cons.prems by (auto simp: wf_statuses_def)
    then have "filter (\<lambda>t. nss_Namespace t \<noteq> ns) ts = ts" by (auto intro: filter_True)
    with True show ?thesis by (simp add: removeResourceQuotasStatusByNamespace_def)
  qed (use Cons.IH [OF ts] in \<open>simp add: removeResourceQuotasStatusByNamespace_def\<close>)
qed (simp add: removeResourceQuotasStatusByNamespace_def)

lemma used_in_member: "wf_statuses ts \<Longrightarrow> t \<in> set ts \<Longrightarrow> used_in ts (nss_Namespace t) = nss_Used t"
  by (induction ts) (auto simp: wf_statuses_def)

lemma used_in_remove: "ns' \<noteq> ns \<Longrightarrow> used_in (removeResourceQuotasStatusByNamespace ts ns) ns' = used_in ts ns'"
  by (induction ts) (auto simp: removeResourceQuotasStatusByNamespace_def)

lemma with_usage_Name: "wsq_Name (with_usage new q) = rq_Name new" "wsq_ResourceVersion (with_usage new q) = rq_ResourceVersion new"
  "wsq_TotalHard (with_usage new q) = wsq_TotalHard q" "wsq_TotalUsed (with_usage new q) = rq_Used new"
  by (simp_all add: with_usage_def Let_def case_prod_beta)

text \<open>Booking a new total and measuring the usage of a namespace keep the drift.\<close>

lemma with_usage_drift:
  assumes "wf_ws_quota q" and "wf_map (rq_Used new)"
  shows "drift (with_usage new q) r = drift q r" and "wf_ws_quota (with_usage new q)"
  using assms by (auto simp: with_usage_def Let_def drift_def wf_ws_quota_def ns_sum_insert quota_lookup case_prod_beta)

lemma recalculated_drift:
  assumes "wf_ws_quota q" and "wf_map usage"
  shows "drift (recalculated ns usage q) r = drift q r" and "wf_ws_quota (recalculated ns usage q)"
  using assms by (auto simp: recalculated_def Let_def drift_def wf_ws_quota_def ns_sum_insert quota_lookup case_prod_beta)

lemma remove_loop_spec:
  assumes "wf_ws_quota q" and "distinct (map nss_Namespace ts)"
    and "\<And>t. t \<in> set ts \<Longrightarrow> used_in (wsq_Namespaces q) (nss_Namespace t) = nss_Used t"
  shows "wf_ws_quota (remove_loop matching ts q) \<and> drift (remove_loop matching ts q) r = drift q r
    \<and> wsq_Namespaces (remove_loop matching ts q) =
        filter (\<lambda>u. nss_Namespace u \<in> set matching \<or> nss_Namespace u \<notin> nss_Namespace ` set ts) (wsq_Namespaces q)"
  using assms
proof (induction ts arbitrary: q)
  case (Cons t ts)
  show ?case
  proof (cases "nss_Namespace t \<in> set matching")
    case True
    have "filter (\<lambda>u. nss_Namespace u \<in> set matching \<or> nss_Namespace u \<notin> nss_Namespace ` set (t # ts)) (wsq_Namespaces q)
        = filter (\<lambda>u. nss_Namespace u \<in> set matching \<or> nss_Namespace u \<notin> nss_Namespace ` set ts) (wsq_Namespaces q)"
      by (rule filter_cong) (use True in auto)
    with True show ?thesis using Cons.IH [of q] Cons.prems by simp
  next
    case False
    define q' where "q' = q\<lparr>wsq_TotalUsed := quota_Subtract (wsq_TotalUsed q) (nss_Used t),
               wsq_Namespaces := removeResourceQuotasStatusByNamespace (wsq_Namespaces q) (nss_Namespace t)\<rparr>"
    have "wf_ws_quota q'" "drift q' r = drift q r"
      using Cons.prems(1) Cons.prems(3) [of t] by (simp_all add: q'_def wf_ws_quota_def drift_def ns_sum_remove quota_lookup)
    moreover have "used_in (wsq_Namespaces q') (nss_Namespace u) = nss_Used u" if "u \<in> set ts" for u
    proof -
      have "nss_Namespace t \<notin> nss_Namespace ` set ts" using Cons.prems(2) by simp
      then have "nss_Namespace u \<noteq> nss_Namespace t" using that by (metis imageI)
      then show ?thesis using Cons.prems(3) [of u] that by (simp add: q'_def used_in_remove)
    qed
    moreover have "filter (\<lambda>u. nss_Namespace u \<in> set matching \<or> nss_Namespace u \<notin> nss_Namespace ` set ts) (wsq_Namespaces q')
        = filter (\<lambda>u. nss_Namespace u \<in> set matching \<or> nss_Namespace u \<notin> nss_Namespace ` set (t # ts)) (wsq_Namespaces q)"
      using False by (auto simp: q'_def removeResourceQuotasStatusByNamespace_def intro!: filter_cong)
    ultimately show ?thesis using Cons.IH [of q'] Cons.prems(2) False by (simp add: q'_def)
  qed
qed simp

lemma synced_status_spec:
  assumes "wf_ws_quota q"
  shows "wf_ws_quota (synced_status matching q)" and "drift (synced_status matching q) r = drift q r"
    and "wsq_Namespaces (synced_status matching q) = filter (\<lambda>u. nss_Namespace u \<in> set matching) (wsq_Namespaces q)"
proof -
  note loop = remove_loop_spec [OF assms, of "wsq_Namespaces q" matching]
  have pre: "distinct (map nss_Namespace (wsq_Namespaces q))"
    "\<And>t. t \<in> set (wsq_Namespaces q) \<Longrightarrow> used_in (wsq_Namespaces q) (nss_Namespace t) = nss_Used t"
    using assms used_in_member by (auto simp: wf_ws_quota_def wf_statuses_def [of "wsq_Namespaces q"])
  have "wf_ws_quota (remove_loop matching (wsq_Namespaces q) q)" using loop [OF pre] by blast
  then show "wf_ws_quota (synced_status matching q)" using assms by (simp add: synced_status_def wf_ws_quota_def)
  show "drift (synced_status matching q) r = drift q r"
    using conjunct1 [OF conjunct2 [OF loop [OF pre, of r]]] by (simp add: synced_status_def drift_def)
  have "filter (\<lambda>u. nss_Namespace u \<in> set matching \<or> nss_Namespace u \<notin> nss_Namespace ` set (wsq_Namespaces q)) (wsq_Namespaces q)
      = filter (\<lambda>u. nss_Namespace u \<in> set matching) (wsq_Namespaces q)"
    by (rule filter_cong) auto
  then show "wsq_Namespaces (synced_status matching q) = filter (\<lambda>u. nss_Namespace u \<in> set matching) (wsq_Namespaces q)"
    using loop [OF pre] by (simp add: synced_status_def)
qed

lemma recalculated_Hard [simp]: "wsq_Hard (recalculated ns usage q) = wsq_Hard q"
  by (simp add: recalculated_def Let_def case_prod_beta)

lemma recalculated_Namespaces [simp]:
  "wsq_Namespaces (recalculated ns usage q) =
     insertResourceQuotasStatus (wsq_Namespaces q) \<lparr>nss_Namespace = ns, nss_Hard = wsq_Hard q, nss_Used = usage\<rparr>"
  by (simp add: recalculated_def Let_def case_prod_beta)

lemma used_in_replace:
  "nss_Namespace t = n \<Longrightarrow> n \<in> nss_Namespace ` set ts \<Longrightarrow>
   used_in (map (\<lambda>u. if nss_Namespace u = n then t else u) ts) ns = (if ns = n then nss_Used t else used_in ts ns)"
proof (induction ts)
  case (Cons u ts)
  show ?case
  proof (cases "nss_Namespace u = n")
    case True
    then show ?thesis using Cons.prems(1) Cons.IH replace_absent [of n ts t] by (cases "n \<in> nss_Namespace ` set ts") auto
  next
    case False
    then show ?thesis using Cons by auto
  qed
qed simp

lemma used_in_append:
  "n \<notin> nss_Namespace ` set ts \<Longrightarrow> nss_Namespace t = n \<Longrightarrow>
   used_in (ts @ [t]) ns = (if ns = n then nss_Used t else used_in ts ns)"
  by (induction ts) auto

lemma used_in_insert:
  "used_in (insertResourceQuotasStatus ts t) ns = (if ns = nss_Namespace t then nss_Used t else used_in ts ns)"
  by (cases "nss_Namespace t \<in> nss_Namespace ` set ts")
    (simp_all add: insert_present insert_absent used_in_replace [OF refl] used_in_append [OF _ refl])

text \<open>The recomputed usage when the evaluators measure \<open>usage\<close>.\<close>

lemma recalculate_loop_spec:
  assumes "\<And>n q s. qc_CalculateUsage client n q s = (Inr (usage n), s)" and "\<And>n. wf_map (usage n)" and "wf_ws_quota q"
  shows "\<exists>q'. recalculate_loop client ns q s = (Inr q', s) \<and> wf_ws_quota q' \<and> drift q' r = drift q r \<and> wsq_Hard q' = wsq_Hard q
    \<and> (\<forall>n. used_in (wsq_Namespaces q') n = (if n \<in> set ns then usage n else used_in (wsq_Namespaces q) n))
    \<and> nss_Namespace ` set (wsq_Namespaces q') = nss_Namespace ` set (wsq_Namespaces q) \<union> set ns"
  using assms(3)
proof (induction ns arbitrary: q)
  case (Cons n ns)
  have names: "nss_Namespace ` set (insertResourceQuotasStatus ts t) = insert (nss_Namespace t) (nss_Namespace ` set ts)" for ts t
    using arg_cong [OF names_insert [of ts t], of set] by (auto split: if_splits)
  from Cons.IH [of "recalculated n (usage n) q"] recalculated_drift [OF Cons.prems assms(2)] show ?case
    by (auto simp: assms(1) used_in_insert names)
qed auto

lemma ns_sum_by_name:
  "wf_statuses ts \<Longrightarrow> ns_sum ts r = (\<Sum>n \<in> nss_Namespace ` set ts. qty (used_in ts n) r)"
proof (induction ts)
  case (Cons t ts)
  have ts: "wf_statuses ts" and t: "nss_Namespace t \<notin> nss_Namespace ` set ts"
    using Cons.prems by (auto simp: wf_statuses_def)
  have "(\<Sum>n \<in> nss_Namespace ` set ts. qty (used_in (t # ts) n) r) = (\<Sum>n \<in> nss_Namespace ` set ts. qty (used_in ts n) r)"
    by (rule sum.cong) (use t in auto)
  with Cons.IH [OF ts] t show ?case by simp
qed simp

text \<open>
  A run of the controller on a balanced quota computes, and writes back unless the status says so already, a status
  that lists exactly the matching namespaces with the usage measured there, the limits of the specification, and as total
  the sum over these namespaces.
\<close>

theorem quota_sync_measures:
  assumes "qc_ListNamespaces client (wsq_Selector q) s = (Inr matching, s1)"
    and usage: "\<And>n q s. qc_CalculateUsage client n q s = (Inr (usage n), s)" "\<And>n. wf_map (usage n)"
    and q: "wf_ws_quota q" "\<And>r. drift q r = 0"
  shows "\<exists>q'. syncQuotaForNamespaces client q s =
        (if same_status q' q then (None, s1)
         else case qc_UpdateStatus client q' s1 of (Inl e, s2) \<Rightarrow> (Some e, s2) | (Inr _, s2) \<Rightarrow> (None, s2))
    \<and> nss_Namespace ` set (wsq_Namespaces q') = set matching \<and> wsq_TotalHard q' = wsq_Hard q
    \<and> (\<forall>n \<in> set matching. used_in (wsq_Namespaces q') n = usage n)
    \<and> (\<forall>r. qty (wsq_TotalUsed q') r = (\<Sum>n \<in> set matching. qty (usage n) r))"
proof -
  obtain q1 where loop: "recalculate_loop client matching q s1 = (Inr q1, s1)" by (metis recalculate_loop_spec [OF usage q(1)])
  have q1: "wf_ws_quota q1" "wsq_Hard q1 = wsq_Hard q" "\<And>r. drift q1 r = 0"
    and used: "\<And>n. used_in (wsq_Namespaces q1) n = (if n \<in> set matching then usage n else used_in (wsq_Namespaces q) n)"
    and names: "nss_Namespace ` set (wsq_Namespaces q1) = nss_Namespace ` set (wsq_Namespaces q) \<union> set matching"
    using recalculate_loop_spec [OF usage q(1), of matching s1] loop q(2) by auto
  define q' where "q' = synced_status matching q1"
  note spec = synced_status_spec [OF q1(1), of matching]
  have n': "wsq_Namespaces q' = filter (\<lambda>u. nss_Namespace u \<in> set matching) (wsq_Namespaces q1)" by (simp add: q'_def spec)
  have set': "nss_Namespace ` set (wsq_Namespaces q') = set matching"
  proof
    show "nss_Namespace ` set (wsq_Namespaces q') \<subseteq> set matching" unfolding n' by auto
    show "set matching \<subseteq> nss_Namespace ` set (wsq_Namespaces q')"
    proof
      fix n assume n: "n \<in> set matching"
      then have "n \<in> nss_Namespace ` set (wsq_Namespaces q1)" unfolding names by simp
      then obtain t where "t \<in> set (wsq_Namespaces q1)" "n = nss_Namespace t" by (rule imageE)
      with n show "n \<in> nss_Namespace ` set (wsq_Namespaces q')" by (intro image_eqI [of _ _ t]) (simp_all add: n')
    qed
  qed
  have used': "used_in (wsq_Namespaces q') n = usage n" if "n \<in> set matching" for n
  proof -
    have "used_in (filter (\<lambda>u. nss_Namespace u \<in> set matching) ts) n = used_in ts n" for ts
      using that by (induction ts) auto
    with used [of n] that show ?thesis by (simp add: n')
  qed
  have "wf_ws_quota q'" "\<And>r. drift q' r = 0" using spec(1,2) q1(3) by (simp_all add: q'_def)
  then have "qty (wsq_TotalUsed q') r = (\<Sum>n \<in> set matching. qty (usage n) r)" for r
    using ns_sum_by_name [of "wsq_Namespaces q'" r] set' used' by (simp add: drift_def wf_ws_quota_def)
  moreover have "wsq_TotalHard q' = wsq_Hard q" by (simp add: q'_def synced_status_def q1)
  ultimately show ?thesis using set' used'
    by (intro exI [of _ q']) (simp add: syncQuotaForNamespaces_def assms(1) loop q'_def Let_def)
qed

end
