(* ===== verification/Workspace_Admission.thy ===== *)
theory Workspace_Admission
  imports Workspace_Quota
begin

text \<open>
  Admission with workspace quotas: the contract between the admission controller of \<^verbatim>\<open>Quota_Admission\<close> and its accessor,
  what the accessor and the controller of \<^verbatim>\<open>Workspace_Quota\<close> ask of the Kubernetes client, and what follows for every run:
  totals and namespaces keep agreeing, and under optimistic concurrency no status update of admission takes a total over its limit.
\<close>

section \<open>What admission asks of the accessor\<close>

text \<open>
  The contract between the admission controller and an accessor: an invariant of the state, and for every quota that was
  handed out the right to write it back with a usage that has grown within its limits.
\<close>

locale accessor_contract =
  fixes acc :: "'s quota_accessor" and J :: "'s \<Rightarrow> bool" and issued :: "'s \<Rightarrow> resource_quota \<Rightarrow> bool"
  assumes GetQuotas_inv: "J s \<Longrightarrow> qa_GetQuotas acc ns s = (r, s') \<Longrightarrow> J s'"
    and GetQuotas_issued: "J s \<Longrightarrow> qa_GetQuotas acc ns s = (Inr qs, s') \<Longrightarrow> list_all (issued s') qs"
    and lock_inv: "J s \<Longrightarrow> qa_lockAcquisition acc = Some lock \<Longrightarrow> lock qs s = ((qs', release), s') \<Longrightarrow> J s'"
    and lock_issued: "J s \<Longrightarrow> qa_lockAcquisition acc = Some lock \<Longrightarrow> lock qs s = ((qs', release), s') \<Longrightarrow>
      list_all (issued s) qs \<Longrightarrow> list_all (issued s') qs'"
    and release_inv: "J s \<Longrightarrow> qa_lockAcquisition acc = Some lock \<Longrightarrow> lock qs s0 = ((qs', release), s') \<Longrightarrow> J (release s)"
    and Update_inv: "J s \<Longrightarrow> issued s q \<Longrightarrow> within q q' \<Longrightarrow> qa_UpdateQuotaStatus acc q' s = (e, s') \<Longrightarrow> J s'"
    and Update_keeps: "J s \<Longrightarrow> issued s q \<Longrightarrow> within q q' \<Longrightarrow> qa_UpdateQuotaStatus acc q' s = (e, s') \<Longrightarrow> issued s p \<Longrightarrow> issued s' p"
    and issued_wf: "J s \<Longrightarrow> issued s q \<Longrightarrow> wf_quota q"
begin

lemma update_quotas_inv:
  "J s \<Longrightarrow> list_all2 within origs qs \<Longrightarrow> list_all (issued s) origs \<Longrightarrow> J (snd (update_quotas acc origs qs s))"
proof (induction origs arbitrary: qs s)
  case (Cons orig origs)
  then obtain q qs' where qs: "qs = q # qs'" and w: "within orig q" "list_all2 within origs qs'" by (auto simp: list_all2_Cons1)
  show ?case
  proof (cases "Equals (rq_Used orig) (rq_Used q)")
    case True
    with Cons w show ?thesis by (simp add: qs)
  next
    case False
    obtain e s' where upd: "qa_UpdateQuotaStatus acc q s = (e, s')" by fastforce
    have i: "issued s orig" and rest: "list_all (issued s) origs" using Cons.prems(3) by simp_all
    have "J s'" by (rule Update_inv [OF Cons.prems(1) i w(1) upd])
    moreover have "list_all (issued s') origs"
      using rest Update_keeps [OF Cons.prems(1) i w(1) upd] by (auto simp: list_all_iff)
    ultimately have "J (snd (update_quotas acc origs qs' s'))" using Cons.IH w(2) by blast
    with False upd show ?thesis by (cases e) (simp_all add: qs Let_def case_prod_beta)
  qed
qed simp

lemma checkQuotas_inv:
  "wf_registry registry \<Longrightarrow> J s \<Longrightarrow> list_all (issued s) quotas \<Longrightarrow>
   J (snd (checkQuotas registry limited acc retries quotas waiters s))"
proof (induction retries arbitrary: quotas waiters s)
  case 0
  obtain running ws changed where w: "check_waiters registry limited quotas waiters = (running, ws, changed)" by (metis prod_cases3)
  have "list_all wf_quota quotas" using 0 issued_wf by (auto simp: list_all_iff)
  note step = update_quotas_inv [OF 0(2) check_waiters_within [OF 0(1) this w] 0(3)]
  show ?case using step 0(2) by (subst checkQuotas.simps) (auto simp: w Let_def case_prod_beta)
next
  case (Suc retries)
  obtain running ws changed where w: "check_waiters registry limited quotas waiters = (running, ws, changed)" by (metis prod_cases3)
  have "list_all wf_quota quotas" using Suc.prems issued_wf by (auto simp: list_all_iff)
  note step = update_quotas_inv [OF Suc.prems(2) check_waiters_within [OF Suc.prems(1) this w] Suc.prems(3)]
  obtain failed lastErr s1 where upd: "update_quotas acc quotas running s = ((failed, lastErr), s1)" by (metis prod.collapse)
  obtain r s2 where get: "qa_GetQuotas acc (rq_Namespace (hd running)) s1 = (r, s2)" by fastforce
  have s1: "J s1" using step upd by simp
  have s2: "J s2" by (rule GetQuotas_inv [OF s1 get])
  have "J (snd (checkQuotas registry limited acc retries (filter P newQuotas) ws s2))" if "r = Inr newQuotas" for newQuotas P
    by (rule Suc.IH [OF Suc.prems(1) s2]) (use GetQuotas_issued [OF s1] get that in \<open>auto simp: list_all_iff\<close>)
  then show ?case using Suc.prems(2) s1 s2
    by (subst checkQuotas.simps) (auto simp: w upd get Let_def split: sum.splits)
qed

lemma checkAttributes_inv:
  assumes "wf_registry registry" and "J s"
  shows "J (snd (checkAttributes registry limited acc ns waiters s))"
proof -
  obtain r s1 where get: "qa_GetQuotas acc ns s = (r, s1)" by fastforce
  have s1: "J s1" by (rule GetQuotas_inv [OF assms(2) get])
  have "J (snd (case (case qa_lockAcquisition acc of None \<Rightarrow> ((quotas, id), s1) | Some lock \<Rightarrow> lock quotas s1) of
      ((locked, releaseLocks), s2) \<Rightarrow>
        case checkQuotas registry limited acc 3 locked waiters s2 of (ws, s3) \<Rightarrow> (ws, releaseLocks s3)))"
    if "r = Inr quotas" for quotas
  proof (cases "qa_lockAcquisition acc")
    case None
    with checkQuotas_inv [OF assms(1) s1 GetQuotas_issued [OF assms(2)]] get that show ?thesis by (simp add: case_prod_beta)
  next
    case (Some lock)
    obtain qs' release s2 where l: "lock quotas s1 = ((qs', release), s2)" by (metis prod.collapse)
    have i: "list_all (issued s1) quotas" using GetQuotas_issued [OF assms(2)] get that by simp
    have "J (snd (checkQuotas registry limited acc 3 qs' waiters s2))"
      by (rule checkQuotas_inv [OF assms(1) lock_inv [OF s1 Some l] lock_issued [OF s1 Some l i]])
    from release_inv [OF this Some l] show ?thesis by (simp add: Some l case_prod_beta)
  qed
  then show ?thesis using s1 by (auto simp: checkAttributes_def get split: sum.splits)
qed

end

text \<open>The accessor of workspace quotas as the admission controller uses it; the lock function sorts the quotas.\<close>

definition workspace_accessor :: "'s quota_client \<Rightarrow> (resource_quota list \<Rightarrow> resource_quota list) \<Rightarrow> 's accessor_state quota_accessor" where
  "workspace_accessor client order =
     \<lparr>qa_lockAcquisition = Some (\<lambda>qs s. ((order qs, id), s)),
      qa_GetQuotas = (\<lambda>ns s. case GetQuotas client ns s of (Inl e, s1) \<Rightarrow> (Inl (error_text e), s1) | (Inr qs, s1) \<Rightarrow> (Inr qs, s1)),
      qa_UpdateQuotaStatus = (\<lambda>q s. case UpdateQuotaStatus client q s of (r, s1) \<Rightarrow> (map_option error_text r, s1))\<rparr>"

section \<open>Laws of the cache\<close>

lemma lru_Remove_set: "set (lru_Remove k c) = {e \<in> set c. fst e \<noteq> k}"
  by (auto simp: lru_Remove_def)

lemma lru_Remove_distinct [simp]: "distinct (map fst c) \<Longrightarrow> distinct (map fst (lru_Remove k c))"
  by (simp add: lru_Remove_def distinct_map_filter)

lemma map_of_lru_Remove: "map_of (lru_Remove k c) m = (if m = k then None else map_of c m)"
  by (induction c) (auto simp: lru_Remove_def)

lemma lru_Get_fst: "fst (lru_Get k c) = map_of c k"
  by (simp add: lru_Get_def split: option.splits)

lemma lru_front_distinct: "distinct (map fst c) \<Longrightarrow> distinct (map fst ((k, v) # lru_Remove k c))"
  by (auto simp: lru_Remove_set)

lemma lru_Get_distinct: "distinct (map fst c) \<Longrightarrow> distinct (map fst (snd (lru_Get k c)))"
  using lru_front_distinct [of c k] by (simp add: lru_Get_def split: option.splits)

lemma lru_Get_set:
  assumes "distinct (map fst c)"
  shows "set (snd (lru_Get k c)) = set c"
proof (cases "map_of c k")
  case (Some v)
  have "e = (k, v)" if "e \<in> set c" "fst e = k" for e
    using map_of_is_SomeI [OF assms, of k "snd e"] that Some by (cases e) auto
  then have "insert (k, v) {e \<in> set c. fst e \<noteq> k} = set c" using map_of_SomeD [OF Some] by blast
  with Some show ?thesis by (simp add: lru_Get_def lru_Remove_set)
qed (simp add: lru_Get_def)

lemma lru_Add_distinct: "distinct (map fst c) \<Longrightarrow> distinct (map fst (lru_Add n k v c))"
  using lru_front_distinct [of c k v]
  by (auto simp: lru_Add_def Let_def map_of_eq_None_iff map_butlast intro: distinct_butlast dest: in_set_butlastD)

lemma lru_Add_set: "set (lru_Add n k v c) \<subseteq> insert (k, v) (set c)"
  by (auto simp: lru_Add_def Let_def lru_Remove_set dest: in_set_butlastD)

section \<open>What the controller and the accessor ask of the client\<close>

text \<open>
  A server whose workspace quotas are all good, in some sense that its other clients keep too: what is read is good, and
  writing a good quota keeps the invariant.
\<close>

locale quota_server =
  fixes client :: "'s quota_client" and good :: "ws_quota \<Rightarrow> bool" and inv :: "'s \<Rightarrow> bool"
  assumes GetNamespace_inv: "inv s \<Longrightarrow> inv (snd (qc_GetNamespace client n s))"
    and ListNamespaces_inv: "inv s \<Longrightarrow> inv (snd (qc_ListNamespaces client sel s))"
    and ListQuotas_inv: "inv s \<Longrightarrow> inv (snd (qc_ListQuotas client s))"
    and ListNamespacedQuotas_inv: "inv s \<Longrightarrow> inv (snd (qc_ListNamespacedQuotas client n s))"
    and ListNamespacedQuotas_wf: "inv s \<Longrightarrow> qc_ListNamespacedQuotas client n s = (Inr qs, s') \<Longrightarrow> list_all wf_quota qs"
    and GetWorkspace_inv: "inv s \<Longrightarrow> inv (snd (qc_GetWorkspace client n s))"
    and CalculateUsage_inv: "inv s \<Longrightarrow> inv (snd (qc_CalculateUsage client n q s))"
    and CalculateUsage_wf: "inv s \<Longrightarrow> qc_CalculateUsage client n q s = (Inr u, s') \<Longrightarrow> wf_map u"
    and GetQuota_inv: "inv s \<Longrightarrow> inv (snd (qc_GetQuota client n s))"
    and GetQuota_good: "inv s \<Longrightarrow> qc_GetQuota client n s = (Inr q, s') \<Longrightarrow> good q \<and> wsq_Name q = n"
    and Update_inv: "inv s \<Longrightarrow> good q \<Longrightarrow> inv (snd (qc_Update client q s))"
    and Update_good: "inv s \<Longrightarrow> good q \<Longrightarrow> qc_Update client q s = (Inr q', s') \<Longrightarrow> good q'"
    and UpdateStatus_fails: "inv s \<Longrightarrow> qc_UpdateStatus client q s = (Inl e, s') \<Longrightarrow> inv s'"
    and UpdateStatus_inv: "inv s \<Longrightarrow> good q \<Longrightarrow> qc_UpdateStatus client q s = (Inr q', s') \<Longrightarrow> inv s'"
    and UpdateStatus_good: "inv s \<Longrightarrow> good q \<Longrightarrow> qc_UpdateStatus client q s = (Inr q', s') \<Longrightarrow> good q' \<and> wsq_Name q' = wsq_Name q"
    and good_wf: "good q \<Longrightarrow> wf_ws_quota q"
begin

lemma names_inv: "inv s \<Longrightarrow> inv (snd (resourceQuotaNamesFor client n s))"
proof -
  assume s: "inv s"
  obtain r1 s1 where 1: "qc_GetNamespace client n s = (r1, s1)" by fastforce
  obtain r2 s2 where 2: "qc_ListQuotas client s1 = (r2, s2)" by fastforce
  have "inv s1" using GetNamespace_inv [OF s, of n] 1 by simp
  moreover from ListQuotas_inv [OF this] have "inv s2" using 2 by simp
  ultimately show ?thesis by (auto simp: resourceQuotaNamesFor_def 1 2 split: sum.splits)
qed

lemma poll_inv: "(\<And>s. inv s \<Longrightarrow> inv (snd (f s))) \<Longrightarrow> inv s \<Longrightarrow> inv (snd (poll n f s))"
proof (induction n f s rule: poll.induct)
  case (2 n f s)
  obtain r s1 where f: "f s = (r, s1)" by fastforce
  then have "inv s1" using 2(2,3) by (metis snd_conv)
  with 2 f show ?case by (auto split: sum.splits option.splits)
qed simp

lemma poll_result:
  "poll n f s = (Inr x, s') \<Longrightarrow> (\<And>s. inv s \<Longrightarrow> inv (snd (f s))) \<Longrightarrow> inv s \<Longrightarrow> \<exists>s0. inv s0 \<and> f s0 = (Inr (Some x), s')"
proof (induction n f s rule: poll.induct)
  case (2 n f s)
  obtain r s1 where f: "f s = (r, s1)" by fastforce
  then have "inv s1" using 2(3,4) by (metis snd_conv)
  with 2 f show ?case by (auto split: sum.splits option.splits)
qed simp

lemma names_round_inv: "inv s \<Longrightarrow> inv (snd (names_round client n s))"
  using names_inv [of s n] by (auto simp: names_round_def split: prod.splits sum.splits client_error.splits)

lemma namespaced_round_inv: "inv s \<Longrightarrow> inv (snd (namespaced_round client n s))"
  using ListNamespacedQuotas_inv [of s n] by (auto simp: namespaced_round_def split: prod.splits sum.splits)

lemma wait_inv:
  "inv s \<Longrightarrow> inv (snd (waitForReadyResourceQuotaNames client n s))"
  "inv s \<Longrightarrow> inv (snd (waitForReadyNamespacedResourceQuotas client n s))"
  unfolding waitForReadyResourceQuotaNames_def waitForReadyNamespacedResourceQuotas_def
  by (rule poll_inv [OF names_round_inv], assumption+, rule poll_inv [OF namespaced_round_inv], assumption+)

lemma namespaced_wf:
  assumes "inv s" and "waitForReadyNamespacedResourceQuotas client n s = (Inr qs, s')"
  shows "list_all wf_quota qs"
proof -
  obtain s0 where "inv s0" "namespaced_round client n s0 = (Inr (Some qs), s')"
    using poll_result [OF assms(2) [unfolded waitForReadyNamespacedResourceQuotas_def]] namespaced_round_inv assms(1) by blast
  then show ?thesis using ListNamespacedQuotas_wf by (auto simp: namespaced_round_def split: prod.splits sum.splits)
qed

text \<open>The state of an accessor: the cache holds good quotas under their names.\<close>

definition acc_inv :: "'s accessor_state \<Rightarrow> bool" where
  "acc_inv s \<longleftrightarrow> inv (as_client s) \<and> distinct (map fst (as_lru s)) \<and> (\<forall>(k, q) \<in> set (as_lru s). good q \<and> wsq_Name q = k)"

lemma acc_inv_client: "acc_inv s \<Longrightarrow> inv c \<Longrightarrow> acc_inv (s\<lparr>as_client := c\<rparr>)"
  by (simp add: acc_inv_def)

lemma acc_inv_lru:
  assumes "acc_inv s" and "distinct (map fst c)" and "set c \<subseteq> set (as_lru s) \<union> {(k, q) | k q. good q \<and> wsq_Name q = k}"
  shows "acc_inv (s\<lparr>as_lru := c\<rparr>)"
  using assms by (auto simp: acc_inv_def)

lemma checkCache_good:
  assumes "acc_inv s" and "good q"
  shows "acc_inv (snd (checkCache q s)) \<and> good (fst (checkCache q s)) \<and> wsq_Name (fst (checkCache q s)) = wsq_Name q"
proof -
  have d: "distinct (map fst (as_lru s))" using assms(1) by (simp add: acc_inv_def)
  note keep = acc_inv_lru [OF assms(1) lru_Get_distinct [OF d]] acc_inv_lru [OF assms(1) lru_Remove_distinct [OF lru_Get_distinct [OF d]]]
  show ?thesis
  proof (cases "map_of (as_lru s) (wsq_Name q)")
    case None
    with assms show ?thesis by (simp add: checkCache_def lru_Get_def)
  next
    case (Some cached)
    then have "good cached \<and> wsq_Name cached = wsq_Name q" using assms(1) map_of_SomeD by (fastforce simp: acc_inv_def)
    with assms(2) Some keep [of "wsq_Name q"] lru_Get_set [OF d] lru_Remove_set show ?thesis
      by (auto simp: checkCache_def lru_Get_fst case_prod_beta)
  qed
qed

lemma read_quota_good:
  assumes "acc_inv s" and "read_quota client n s = (r, s')"
  shows "acc_inv s' \<and> (\<forall>q. r = Inr q \<longrightarrow> good q \<and> wsq_Name q = n)"
proof -
  obtain r1 c where get: "qc_GetQuota client n (as_client s) = (r1, c)" by fastforce
  have "inv (as_client s)" using assms(1) by (simp add: acc_inv_def)
  note c = acc_inv_client [OF assms(1) GetQuota_inv [OF this, of n]] GetQuota_good [OF this, of n]
  show ?thesis
  proof (cases r1)
    case (Inl e)
    with assms(2) get c(1) show ?thesis by (auto simp: read_quota_def on_client_def)
  next
    case (Inr q)
    with c get have "acc_inv (s\<lparr>as_client := c\<rparr>)" "good q" "wsq_Name q = n" by auto
    with checkCache_good [OF this(1,2)] assms(2) get Inr show ?thesis
      by (auto simp: read_quota_def on_client_def split: prod.splits)
  qed
qed

lemma convert_wf: "good q \<Longrightarrow> wf_quota (convert_quota ns q)"
  using good_wf [of q] by (simp add: convert_quota_def wf_quota_def wf_ws_quota_def)

lemma read_quotas_inv:
  "acc_inv s \<Longrightarrow> read_quotas client ns names s = (r, s') \<Longrightarrow> acc_inv s' \<and> (\<forall>qs. r = Inr qs \<longrightarrow> list_all wf_quota qs)"
proof (induction names arbitrary: s r s')
  case (Cons n names)
  obtain r1 s1 where read: "read_quota client n s = (r1, s1)" by fastforce
  note 1 = read_quota_good [OF Cons.prems(1) read]
  show ?case
  proof (cases r1)
    case (Inl e)
    with Cons.prems(2) read 1 show ?thesis by auto
  next
    case (Inr q)
    obtain r2 s2 where rest: "read_quotas client ns names s1 = (r2, s2)" by fastforce
    with Cons.IH [OF _ rest] Cons.prems(2) read 1 Inr show ?thesis by (auto simp: convert_wf split: sum.splits)
  qed
qed auto

lemma GetQuotas_inv:
  assumes "acc_inv s" and "GetQuotas client ns s = (r, s')"
  shows "acc_inv s' \<and> (\<forall>qs. r = Inr qs \<longrightarrow> list_all wf_quota qs)"
proof -
  obtain r1 s1 where 1: "on_client (waitForReadyResourceQuotaNames client ns) s = (r1, s1)" by fastforce
  have s1: "acc_inv s1"
    using 1 acc_inv_client [OF assms(1)] wait_inv(1) assms(1)
    by (auto simp: on_client_def acc_inv_def split: prod.splits) (metis snd_conv)
  show ?thesis
  proof (cases r1)
    case (Inl e)
    with assms(2) 1 s1 show ?thesis by (auto simp: GetQuotas_def)
  next
    case (Inr names)
    obtain r2 s2 where 2: "read_quotas client ns names s1 = (r2, s2)" by fastforce
    note s2 = read_quotas_inv [OF s1 2]
    obtain r3 c3 where 3: "waitForReadyNamespacedResourceQuotas client ns (as_client s2) = (r3, c3)" by fastforce
    have i2: "inv (as_client s2)" using s2 by (simp add: acc_inv_def)
    have s3: "acc_inv (s2\<lparr>as_client := c3\<rparr>)" using acc_inv_client wait_inv(2) [OF i2, of ns] 3 s2 by simp
    have "list_all wf_quota qs" if "r3 = Inr qs" for qs using namespaced_wf [OF i2] 3 that by simp
    then show ?thesis using assms(2) 1 2 3 s2 s3 Inr
      by (auto simp: GetQuotas_def on_client_def list_all_iff wf_quota_def split: sum.splits)
  qed
qed

end

locale balanced_server = quota_server +
  assumes with_usage_good: "good q \<Longrightarrow> wf_map (rq_Used new) \<Longrightarrow> good (with_usage new q)"
    and recalculated_good: "good q \<Longrightarrow> wf_map u \<Longrightarrow> good (recalculated n u q)"
    and synced_status_good: "good q \<Longrightarrow> good (synced_status matching q)"
    and owner_good: "good q \<Longrightarrow> good (q\<lparr>wsq_Owner := uid\<rparr>)"
begin

lemma UpdateQuotaStatus_inv:
  assumes "acc_inv s" and "wf_map (rq_Used q)"
  shows "acc_inv (snd (UpdateQuotaStatus client q s))"
proof -
  obtain r1 s1 where 1: "read_quota client (rq_Name q) s = (r1, s1)" by fastforce
  note s1 = read_quota_good [OF assms(1) 1]
  show ?thesis
  proof (cases r1)
    case (Inl e)
    with assms 1 s1 show ?thesis by (simp add: UpdateQuotaStatus_def)
  next
    case (Inr base)
    with s1 have base: "good base" "wsq_Name base = rq_Name q" and i1: "inv (as_client s1)" by (auto simp: acc_inv_def)
    note g = with_usage_good [OF base(1) assms(2)]
    obtain r2 c2 where 2: "qc_UpdateStatus client (with_usage q base) (as_client s1) = (r2, c2)" by fastforce
    show ?thesis
    proof (cases r2)
      case (Inl e)
      with 2 UpdateStatus_fails [OF i1] have "inv c2" by simp
      with assms 1 2 \<open>r1 = Inr base\<close> Inl s1 show ?thesis by (simp add: UpdateQuotaStatus_def on_client_def acc_inv_client)
    next
      case (Inr updated)
      with 2 have up: "qc_UpdateStatus client (with_usage q base) (as_client s1) = (Inr updated, c2)" by simp
      have u: "inv c2" "good updated" "wsq_Name updated = rq_Name q"
        using UpdateStatus_inv [OF i1 g up] UpdateStatus_good [OF i1 g up] by (simp_all add: with_usage_Name)
      with s1 have s2: "acc_inv (s1\<lparr>as_client := c2\<rparr>)" by (simp add: acc_inv_client)
      then have d: "distinct (map fst (as_lru s1))" by (simp add: acc_inv_def)
      have "acc_inv (s1\<lparr>as_client := c2, as_lru := lru_Add lru_size (rq_Name q) updated (as_lru s1)\<rparr>)"
        using acc_inv_lru [OF s2 lru_Add_distinct [OF d]] lru_Add_set [of lru_size "rq_Name q" updated "as_lru s1"] u by fastforce
      with assms 1 2 \<open>r1 = Inr base\<close> Inr base show ?thesis by (simp add: UpdateQuotaStatus_def on_client_def)
    qed
  qed
qed

lemma recalculate_loop_inv:
  "inv s \<Longrightarrow> good q \<Longrightarrow> recalculate_loop client ns q s = (r, s') \<Longrightarrow> inv s' \<and> (\<forall>q'. r = Inr q' \<longrightarrow> good q')"
proof (induction ns arbitrary: q s)
  case (Cons n ns)
  obtain r1 s1 where 1: "qc_CalculateUsage client n q s = (r1, s1)" by fastforce
  have i1: "inv s1" using CalculateUsage_inv [OF Cons.prems(1), of n q] 1 by simp
  show ?case
  proof (cases r1)
    case (Inl e)
    with Cons.prems(3) 1 i1 show ?thesis by auto
  next
    case (Inr u)
    with 1 have "wf_map u" using CalculateUsage_wf [OF Cons.prems(1)] by blast
    from Cons.IH [OF i1 recalculated_good [OF Cons.prems(2) this]] Cons.prems(3) 1 Inr show ?thesis by auto
  qed
qed auto

lemma sync_inv:
  assumes "inv s" and "good q"
  shows "inv (snd (syncQuotaForNamespaces client q s))"
proof -
  obtain r1 s1 where 1: "qc_ListNamespaces client (wsq_Selector q) s = (r1, s1)" by fastforce
  have i1: "inv s1" using ListNamespaces_inv [OF assms(1), of "wsq_Selector q"] 1 by simp
  show ?thesis
  proof (cases r1)
    case (Inl e)
    with 1 i1 show ?thesis by (simp add: syncQuotaForNamespaces_def)
  next
    case (Inr matching)
    obtain r2 s2 where 2: "recalculate_loop client matching q s1 = (r2, s2)" by fastforce
    note i2 = recalculate_loop_inv [OF i1 assms(2) 2]
    show ?thesis
    proof (cases r2)
      case (Inl e)
      with 1 2 i2 Inr show ?thesis by (simp add: syncQuotaForNamespaces_def)
    next
      case (Inr q')
      with i2 have g: "good (synced_status matching q')" and i: "inv s2" by (simp_all add: synced_status_good)
      obtain r3 s3 where 3: "qc_UpdateStatus client (synced_status matching q') s2 = (r3, s3)" by fastforce
      have "inv s3" using 3 UpdateStatus_fails [OF i] UpdateStatus_inv [OF i g] by (cases r3) auto
      with 1 2 3 i Inr \<open>r1 = Inr matching\<close> show ?thesis by (auto simp: syncQuotaForNamespaces_def Let_def split: sum.splits)
    qed
  qed
qed

lemma bind_inv:
  assumes "inv s" and "good q" and "bindWorkspace client q s = ((e, q'), s')"
  shows "inv s' \<and> (e = None \<longrightarrow> good q')"
proof -
  let ?w = "map_get [] (wsq_Labels q) quota_WorkspaceLabel"
  obtain r1 s1 where 1: "qc_GetWorkspace client ?w s = (r1, s1)" by fastforce
  have i1: "inv s1" using GetWorkspace_inv [OF assms(1), of ?w] 1 by simp
  show ?thesis
  proof (cases "?w = []")
    case True
    with assms show ?thesis by (auto simp: bindWorkspace_def)
  next
    case False
    show ?thesis
    proof (cases r1)
      case (Inl e1)
      with False assms 1 i1 show ?thesis by (auto simp: bindWorkspace_def)
    next
      case (Inr uid)
      obtain r2 s2 where 2: "qc_Update client (q\<lparr>wsq_Owner := Some uid\<rparr>) s1 = (r2, s2)" by fastforce
      note g = owner_good [OF assms(2), of "Some uid"]
      have "inv s2" using Update_inv [OF i1 g] 2 by simp
      moreover have "good q2" if "r2 = Inr q2" for q2 using Update_good [OF i1 g] 2 that by simp
      ultimately show ?thesis using False assms 1 2 i1 Inr
        by (auto simp: bindWorkspace_def Let_def split: if_splits option.splits sum.splits)
    qed
  qed
qed

lemma Reconcile_inv:
  assumes "inv s"
  shows "inv (snd (quota_Reconcile client n s))"
proof -
  obtain r1 s1 where 1: "qc_GetQuota client n s = (r1, s1)" by fastforce
  have i1: "inv s1" using GetQuota_inv [OF assms, of n] 1 by simp
  show ?thesis
  proof (cases r1)
    case (Inl e)
    with 1 i1 show ?thesis by (simp add: quota_Reconcile_def)
  next
    case (Inr q)
    with 1 have g: "good q" using GetQuota_good [OF assms] by blast
    obtain e q' s2 where 2: "bindWorkspace client q s1 = ((e, q'), s2)" by (metis prod.collapse)
    note b = bind_inv [OF i1 g 2]
    show ?thesis
      using b sync_inv [of s2 q'] 1 2 Inr by (cases e) (auto simp: quota_Reconcile_def split: prod.splits option.splits)
  qed
qed

end

text \<open>A run of the system: batches of requests are checked, and quotas are reconciled.\<close>

inductive quota_run :: "'s quota_client \<Rightarrow> (resource_quota list \<Rightarrow> resource_quota list) \<Rightarrow> 'o registry \<Rightarrow> bool \<Rightarrow>
    's accessor_state \<Rightarrow> 's accessor_state \<Rightarrow> bool"
  for client order registry controller where
  start: "quota_run client order registry controller s s"
| batch: "quota_run client order registry controller s s1 \<Longrightarrow>
    quota_run client order registry controller s (snd (checkAttributes registry limited (workspace_accessor client order) ns waiters s1))"
| reconcile: "quota_run client order registry controller s s1 \<Longrightarrow> controller \<Longrightarrow>
    quota_run client order registry controller s (s1\<lparr>as_client := snd (quota_Reconcile client n (as_client s1))\<rparr>)"

locale balanced_admission = balanced_server +
  fixes order :: "resource_quota list \<Rightarrow> resource_quota list"
  assumes order_set: "set (order qs) = set qs"

sublocale balanced_admission \<subseteq> contract: accessor_contract "workspace_accessor client order" acc_inv "\<lambda>s q. wf_quota q"
proof
  fix s ns r s'
  assume "acc_inv s" and "qa_GetQuotas (workspace_accessor client order) ns s = (r, s')"
  then show "acc_inv s'"
    using GetQuotas_inv [of s ns] by (auto simp: workspace_accessor_def split: prod.splits sum.splits)
next
  fix s ns qs s'
  assume "acc_inv s" and "qa_GetQuotas (workspace_accessor client order) ns s = (Inr qs, s')"
  then show "list_all wf_quota qs"
    using GetQuotas_inv [of s ns] by (auto simp: workspace_accessor_def split: prod.splits sum.splits)
next
  fix s q q' e s'
  assume "acc_inv s" and "wf_quota q" and "within q q'" and "qa_UpdateQuotaStatus (workspace_accessor client order) q' s = (e, s')"
  then show "acc_inv s'"
    using UpdateQuotaStatus_inv [of s q'] by (auto simp: workspace_accessor_def within_def wf_quota_def split: prod.splits)
qed (auto simp: workspace_accessor_def order_set list_all_iff)

context balanced_admission
begin

lemma run_inv:
  assumes "wf_registry registry" and "acc_inv s" and "quota_run client order registry controller s s'"
  shows "acc_inv s'"
  using assms(3,2)
proof induction
  case (batch s s1 limited ns waiters)
  then show ?case by (intro contract.checkAttributes_inv [OF assms(1)])
next
  case (reconcile s s1 n)
  then show ?case using Reconcile_inv by (simp add: acc_inv_def)
qed simp

end

section \<open>Limits under optimistic concurrency\<close>

text \<open>
  A server with resource versions: the versions it has had of each quota, and a log of the status updates it has accepted from
  this client, each with the version it replaced. What is read is some version, not necessarily the newest; a status is accepted
  only on top of the version that it names; and others may write whenever a call is made.
\<close>

locale logged_server = quota_server client wf_ws_quota inv
  for client :: "'s quota_client" and inv :: "'s \<Rightarrow> bool" +
  fixes versions :: "'s \<Rightarrow> ws_quota set" and log :: "'s \<Rightarrow> (ws_quota \<times> ws_quota) list"
    and order :: "resource_quota list \<Rightarrow> resource_quota list"
  assumes order_set: "set (order qs) = set qs"
    and GetNamespace_later: "inv s \<Longrightarrow> qc_GetNamespace client n s = (r, s') \<Longrightarrow> versions s \<subseteq> versions s' \<and> log s' = log s"
    and ListQuotas_later: "inv s \<Longrightarrow> qc_ListQuotas client s = (rs, s') \<Longrightarrow> versions s \<subseteq> versions s' \<and> log s' = log s"
    and ListNamespacedQuotas_later:
      "inv s \<Longrightarrow> qc_ListNamespacedQuotas client n s = (rn, s') \<Longrightarrow> versions s \<subseteq> versions s' \<and> log s' = log s"
    and GetQuota_later: "inv s \<Longrightarrow> qc_GetQuota client n s = (rq, s') \<Longrightarrow> versions s \<subseteq> versions s' \<and> log s' = log s"
    and GetQuota_version: "inv s \<Longrightarrow> qc_GetQuota client n s = (Inr q, s') \<Longrightarrow> q \<in> versions s'"
    and version_ident: "inv s \<Longrightarrow> p \<in> versions s \<Longrightarrow> q \<in> versions s \<Longrightarrow> wsq_Name p = wsq_Name q \<Longrightarrow>
      wsq_ResourceVersion p = wsq_ResourceVersion q \<Longrightarrow> p = q"
    and UpdateStatus_refused: "inv s \<Longrightarrow> qc_UpdateStatus client q s = (Inl e, s') \<Longrightarrow> versions s \<subseteq> versions s' \<and> log s' = log s"
    and UpdateStatus_accepted: "inv s \<Longrightarrow> wf_ws_quota q \<Longrightarrow> qc_UpdateStatus client q s = (Inr q', s') \<Longrightarrow>
      versions s \<subseteq> versions s' \<and> q' \<in> versions s' \<and> wsq_TotalUsed q' = wsq_TotalUsed q \<and>
      (\<exists>old \<in> versions s'. wsq_Name old = wsq_Name q \<and> wsq_ResourceVersion old = wsq_ResourceVersion q \<and> log s' = log s @ [(old, q')])"
begin

definition later :: "'s \<Rightarrow> 's \<Rightarrow> bool" where
  "later s s' \<longleftrightarrow> versions s \<subseteq> versions s' \<and> log s' = log s"

lemma later_refl [simp]: "later s s" by (simp add: later_def)

lemma later_trans: "later s s' \<Longrightarrow> later s' s'' \<Longrightarrow> later s s''"
  by (auto simp: later_def)

lemma names_later:
  assumes "inv s"
  shows "later s (snd (resourceQuotaNamesFor client n s))"
proof -
  obtain r1 s1 where 1: "qc_GetNamespace client n s = (r1, s1)" by fastforce
  obtain r2 s2 where 2: "qc_ListQuotas client s1 = (r2, s2)" by fastforce
  have "inv s1" using GetNamespace_inv [OF assms, of n] 1 by simp
  have "later s s1" using GetNamespace_later [OF assms 1] by (simp add: later_def)
  moreover have "later s1 s2" using ListQuotas_later [OF \<open>inv s1\<close> 2] by (simp add: later_def)
  ultimately show ?thesis using later_trans by (auto simp: resourceQuotaNamesFor_def 1 2 split: sum.splits)
qed

lemma poll_later:
  "(\<And>s. inv s \<Longrightarrow> inv (snd (f s)) \<and> later s (snd (f s))) \<Longrightarrow> inv s \<Longrightarrow> later s (snd (poll n f s))"
proof (induction n f s rule: poll.induct)
  case (2 n f s)
  obtain r s1 where f: "f s = (r, s1)" by fastforce
  then have s1: "inv s1" "later s s1" using 2(2) [OF 2(3)] by simp_all
  show ?case
  proof (cases r)
    case (Inr x)
    show ?thesis
    proof (cases x)
      case None
      from 2(1) [OF f [symmetric] Inr None 2(2) s1(1)] later_trans [OF s1(2)] f Inr None show ?thesis by simp
    qed (use f Inr s1 in simp)
  qed (use f s1 in simp)
qed simp

lemma wait_later:
  assumes "inv s"
  shows "later s (snd (waitForReadyResourceQuotaNames client n s))" and "later s (snd (waitForReadyNamespacedResourceQuotas client n s))"
proof -
  have "inv (snd (names_round client n s)) \<and> later s (snd (names_round client n s))" if "inv s" for s
    using names_round_inv [OF that] names_later [OF that, of n]
    by (auto simp: names_round_def split: prod.splits sum.splits client_error.splits)
  from poll_later [OF this assms] show "later s (snd (waitForReadyResourceQuotaNames client n s))"
    by (simp add: waitForReadyResourceQuotaNames_def del: poll.simps)
  have "inv (snd (namespaced_round client n s)) \<and> later s (snd (namespaced_round client n s))" if "inv s" for s
    using namespaced_round_inv [OF that] ListNamespacedQuotas_later [OF that, of n]
    by (auto simp: namespaced_round_def later_def split: prod.splits sum.splits)
  from poll_later [OF this assms] show "later s (snd (waitForReadyNamespacedResourceQuotas client n s))"
    by (simp add: waitForReadyNamespacedResourceQuotas_def del: poll.simps)
qed

text \<open>The usage that an accepted status update may book on top of the version it replaces.\<close>

definition booked_within :: "ws_quota \<Rightarrow> ws_quota \<Rightarrow> bool" where
  "booked_within old new \<longleftrightarrow>
     (\<forall>r. qty (wsq_TotalUsed old) r \<le> qty (wsq_TotalUsed new) r \<and>
        (qty (wsq_TotalUsed new) r = qty (wsq_TotalUsed old) r \<or>
         (\<exists>h. map_of (wsq_TotalHard old) r = Some h \<and> qty (wsq_TotalUsed new) r \<le> h)))"

definition log_inv :: "'s accessor_state \<Rightarrow> bool" where
  "log_inv s \<longleftrightarrow> acc_inv s \<and> (\<forall>(k, q) \<in> set (as_lru s). q \<in> versions (as_client s)) \<and>
     (\<forall>(old, new) \<in> set (log (as_client s)). booked_within old new)"

lemma log_inv_client: "log_inv s \<Longrightarrow> inv c \<Longrightarrow> later (as_client s) c \<Longrightarrow> log_inv (s\<lparr>as_client := c\<rparr>)"
  by (fastforce simp: log_inv_def acc_inv_client later_def)

text \<open>What the cache gives is what was read, or a version that was written before.\<close>

lemma checkCache_version:
  assumes inv: "log_inv s" and q: "wf_ws_quota q" "q \<in> versions (as_client s)" and c: "checkCache q s = (q', s')"
  shows "log_inv s' \<and> as_client s' = as_client s \<and> q' \<in> versions (as_client s') \<and> wf_ws_quota q' \<and> wsq_Name q' = wsq_Name q"
proof -
  have a: "acc_inv s" and d: "distinct (map fst (as_lru s))" using inv by (simp_all add: log_inv_def acc_inv_def)
  note g = checkCache_good [OF a q(1)]
  have client: "as_client s' = as_client s" using c by (auto simp: checkCache_def split: prod.splits option.splits if_splits)
  have "set (as_lru s') \<subseteq> set (as_lru s) \<and> (q' = q \<or> (wsq_Name q, q') \<in> set (as_lru s))"
    using c lru_Get_set [OF d, of "wsq_Name q"] lru_Remove_set [of "wsq_Name q"]
    by (auto simp: checkCache_def lru_Get_def dest: map_of_SomeD split: option.splits if_splits)
  then show ?thesis using inv g q(2) c client by (auto simp: log_inv_def)
qed

lemma read_quota_version:
  assumes inv: "log_inv s" and read: "read_quota client n s = (r, s')"
  shows "log_inv s' \<and> later (as_client s) (as_client s') \<and>
    (\<forall>q. r = Inr q \<longrightarrow> q \<in> versions (as_client s') \<and> wf_ws_quota q \<and> wsq_Name q = n)"
proof -
  obtain r1 c where get: "qc_GetQuota client n (as_client s) = (r1, c)" by fastforce
  have i: "inv (as_client s)" using inv by (simp add: log_inv_def acc_inv_def)
  have c: "inv c" "later (as_client s) c" using GetQuota_inv [OF i, of n] GetQuota_later [OF i get] get by (simp_all add: later_def)
  note s1 = log_inv_client [OF inv c]
  show ?thesis
  proof (cases r1)
    case (Inl e)
    with read get s1 c show ?thesis by (auto simp: read_quota_def on_client_def)
  next
    case (Inr q)
    with get have get': "qc_GetQuota client n (as_client s) = (Inr q, c)" by simp
    note q = GetQuota_good [OF i get'] GetQuota_version [OF i get']
    obtain q' s2 where cc: "checkCache q (s\<lparr>as_client := c\<rparr>) = (q', s2)" by fastforce
    have p: "wf_ws_quota q" "q \<in> versions (as_client (s\<lparr>as_client := c\<rparr>))" using q by simp_all
    have "r = Inr q' \<and> s' = s2" using read get' cc by (simp add: read_quota_def on_client_def)
    then show ?thesis using checkCache_version [OF s1 p cc] q c(2) by auto
  qed
qed

text \<open>The quotas handed out: a version of a workspace quota, or a quota of the namespace.\<close>

definition issued :: "'s accessor_state \<Rightarrow> resource_quota \<Rightarrow> bool" where
  "issued s rq \<longleftrightarrow> wf_quota rq \<and> (rq_APIVersion rq = quota_APIVersion \<longrightarrow> (\<exists>q ns. q \<in> versions (as_client s) \<and> rq = convert_quota ns q))"

lemma issued_later: "versions (as_client s) \<subseteq> versions (as_client s') \<Longrightarrow> issued s q \<Longrightarrow> issued s' q"
  unfolding issued_def by blast

lemma read_quotas_version:
  "log_inv s \<Longrightarrow> read_quotas client ns nms s = (r, s') \<Longrightarrow>
   log_inv s' \<and> later (as_client s) (as_client s') \<and> (\<forall>qs. r = Inr qs \<longrightarrow> list_all (issued s') qs)"
proof (induction nms arbitrary: s r s')
  case (Cons n nms)
  obtain r1 s1 where read: "read_quota client n s = (r1, s1)" by fastforce
  note 1 = read_quota_version [OF Cons.prems(1) read]
  show ?case
  proof (cases r1)
    case (Inl e)
    with Cons.prems(2) read 1 show ?thesis by auto
  next
    case (Inr q)
    then have q: "issued s1 (convert_quota ns q)" using 1 convert_wf by (auto simp: issued_def)
    obtain r2 s2 where rest: "read_quotas client ns nms s1 = (r2, s2)" by fastforce
    note 2 = Cons.IH [OF _ rest]
    have "r = (case r2 of Inl e \<Rightarrow> Inl e | Inr qs \<Rightarrow> Inr (convert_quota ns q # qs))" "s' = s2"
      using Cons.prems(2) read Inr rest by (auto split: sum.splits)
    moreover have "issued s2 (convert_quota ns q)" using 1 2 issued_later [OF _ q, of s2] by (simp add: later_def)
    ultimately show ?thesis using 1 2 later_trans by (auto split: sum.splits)
  qed
qed auto

lemma GetQuotas_version:
  assumes "log_inv s" and "GetQuotas client ns s = (r, s')"
  shows "log_inv s' \<and> (\<forall>qs. r = Inr qs \<longrightarrow> list_all (issued s') qs)"
proof -
  have i: "inv (as_client s)" using assms(1) by (simp add: log_inv_def acc_inv_def)
  obtain r1 c1 where 1: "waitForReadyResourceQuotaNames client ns (as_client s) = (r1, c1)" by fastforce
  define s1 where "s1 = s\<lparr>as_client := c1\<rparr>"
  have s1: "log_inv s1"
    using log_inv_client [OF assms(1), of c1] wait_inv(1) [OF i, of ns] wait_later(1) [OF i, of ns] 1 by (simp add: s1_def)
  show ?thesis
  proof (cases r1)
    case (Inl e)
    with assms(2) 1 s1 show ?thesis by (auto simp: GetQuotas_def on_client_def s1_def)
  next
    case (Inr nms)
    obtain r2 s2 where 2: "read_quotas client ns nms s1 = (r2, s2)" by fastforce
    note s2 = read_quotas_version [OF s1 2]
    then have i2: "inv (as_client s2)" by (simp add: log_inv_def acc_inv_def)
    obtain r3 c3 where 3: "waitForReadyNamespacedResourceQuotas client ns (as_client s2) = (r3, c3)" by fastforce
    define s3 where "s3 = s2\<lparr>as_client := c3\<rparr>"
    have l3: "later (as_client s2) c3" using wait_later(2) [OF i2, of ns] 3 by simp
    have s3: "log_inv s3" using log_inv_client [of s2 c3] wait_inv(2) [OF i2, of ns] l3 3 s2 by (simp add: s3_def)
    have "list_all (issued s3) (map (\<lambda>q. q\<lparr>rq_APIVersion := ''v1''\<rparr>) qs)" if "r3 = Inr qs" for qs
      using namespaced_wf [OF i2] 3 that by (auto simp: list_all_iff issued_def wf_quota_def quota_APIVersion_def)
    moreover have "list_all (issued s3) qs" if "r2 = Inr qs" for qs
      using s2 that issued_later [of s2 s3] l3 by (auto simp: list_all_iff s3_def later_def)
    ultimately show ?thesis using assms(2) 1 2 3 Inr s2 s3
      by (auto simp: GetQuotas_def on_client_def s1_def [symmetric] s3_def [symmetric] split: sum.splits)
  qed
qed

text \<open>
  A status that was accepted replaced the version that the usage was computed from: the update carries the resource version of
  the quota that was handed out, whatever version is read again in between.
\<close>

lemma UpdateQuotaStatus_logged:
  assumes inv: "log_inv s" and orig: "issued s orig" and w: "within orig new"
  shows "log_inv (snd (UpdateQuotaStatus client new s)) \<and>
    versions (as_client s) \<subseteq> versions (as_client (snd (UpdateQuotaStatus client new s)))"
proof (cases "rq_APIVersion new = quota_APIVersion")
  case False
  with inv show ?thesis by (simp add: UpdateQuotaStatus_def)
next
  case True
  then have "rq_APIVersion orig = quota_APIVersion" using within_meta(3) [OF w] by simp
  then obtain q0 ns where q0: "q0 \<in> versions (as_client s)" "orig = convert_quota ns q0"
    using orig unfolding issued_def by blast
  have new: "rq_Name new = wsq_Name q0" "rq_ResourceVersion new = wsq_ResourceVersion q0"
    using within_meta [OF w] q0(2) by (simp_all add: convert_quota_def)
  obtain r1 s1 where 1: "read_quota client (rq_Name new) s = (r1, s1)" by fastforce
  note s1 = read_quota_version [OF inv 1]
  then have i1: "inv (as_client s1)" by (simp add: log_inv_def acc_inv_def)
  show ?thesis
  proof (cases r1)
    case (Inl e)
    with True 1 s1 show ?thesis by (simp add: UpdateQuotaStatus_def later_def)
  next
    case (Inr base)
    with s1 have base: "wf_ws_quota base" "wsq_Name base = rq_Name new" by auto
    have wf: "wf_ws_quota (with_usage new base)"
      by (rule with_usage_drift(2) [OF base(1)]) (use w in \<open>simp add: within_def wf_quota_def\<close>)
    obtain r2 c2 where 2: "qc_UpdateStatus client (with_usage new base) (as_client s1) = (r2, c2)" by fastforce
    show ?thesis
    proof (cases r2)
      case (Inl e)
      with 2 have "inv c2" "later (as_client s1) c2"
        using UpdateStatus_fails [OF i1] UpdateStatus_refused [OF i1] by (simp_all add: later_def)
      from log_inv_client [OF conjunct1 [OF s1] this] this True 1 2 s1 \<open>r1 = Inr base\<close> Inl show ?thesis
        by (auto simp: UpdateQuotaStatus_def on_client_def later_def)
    next
      case (Inr updated)
      with 2 have up: "qc_UpdateStatus client (with_usage new base) (as_client s1) = (Inr updated, c2)" by simp
      have i2: "inv c2" and u: "wf_ws_quota updated" "wsq_Name updated = rq_Name new"
        using UpdateStatus_inv [OF i1 wf up] UpdateStatus_good [OF i1 wf up] by (simp_all add: with_usage_Name)
      obtain old where k: "versions (as_client s1) \<subseteq> versions c2" "updated \<in> versions c2" "wsq_TotalUsed updated = rq_Used new"
          "old \<in> versions c2" "wsq_Name old = rq_Name new" "wsq_ResourceVersion old = rq_ResourceVersion new"
          "log c2 = log (as_client s1) @ [(old, updated)]"
        using UpdateStatus_accepted [OF i1 wf up] by (auto simp: with_usage_Name)
      have "q0 \<in> versions c2" using q0(1) s1 k(1) by (auto simp: later_def)
      then have "old = q0" using version_ident [OF i2 k(4)] k(5,6) new by simp
      then have "booked_within old updated" using w k(3) q0(2) by (simp add: booked_within_def within_def convert_quota_def)
      define s3 where "s3 = s1\<lparr>as_client := c2, as_lru := lru_Add lru_size (wsq_Name base) updated (as_lru s1)\<rparr>"
      have d: "distinct (map fst (as_lru s1))" and a: "acc_inv (s1\<lparr>as_client := c2\<rparr>)"
        using s1 acc_inv_client [of s1 c2] i2 by (simp_all add: log_inv_def acc_inv_def)
      note sub = lru_Add_set [of lru_size "wsq_Name base" updated "as_lru s1"]
      have "acc_inv s3"
        using acc_inv_lru [OF a lru_Add_distinct [OF d], of lru_size "wsq_Name base" updated] sub u base(2) by (fastforce simp: s3_def)
      moreover have "\<forall>(k, q) \<in> set (as_lru s3). q \<in> versions c2"
        using s1 sub k(1,2) by (fastforce simp: s3_def log_inv_def)
      ultimately have "log_inv s3" using s1 k(7) \<open>booked_within old updated\<close> by (auto simp: log_inv_def s3_def)
      moreover have "snd (UpdateQuotaStatus client new s) = s3"
        using True 1 up \<open>r1 = Inr base\<close> by (simp add: UpdateQuotaStatus_def on_client_def s3_def)
      ultimately show ?thesis using s1 k(1) by (auto simp: s3_def later_def)
    qed
  qed
qed

end

sublocale logged_server \<subseteq> contract: accessor_contract "workspace_accessor client order" log_inv issued
proof
  fix s ns r s'
  assume "log_inv s" and "qa_GetQuotas (workspace_accessor client order) ns s = (r, s')"
  then show "log_inv s'"
    using GetQuotas_version [of s ns] by (auto simp: workspace_accessor_def split: prod.splits sum.splits)
next
  fix s ns qs s'
  assume "log_inv s" and "qa_GetQuotas (workspace_accessor client order) ns s = (Inr qs, s')"
  then show "list_all (issued s') qs"
    using GetQuotas_version [of s ns] by (auto simp: workspace_accessor_def split: prod.splits sum.splits)
next
  fix s q q' e s'
  assume a: "log_inv s" "issued s q" "within q q'" "qa_UpdateQuotaStatus (workspace_accessor client order) q' s = (e, s')"
  then have s': "s' = snd (UpdateQuotaStatus client q' s)" by (auto simp: workspace_accessor_def split: prod.splits)
  with UpdateQuotaStatus_logged [OF a(1-3)] show "log_inv s'" by simp
  show "issued s p \<Longrightarrow> issued s' p" for p using UpdateQuotaStatus_logged [OF a(1-3)] issued_later [of s s' p] s' by simp
next
  show "log_inv s \<Longrightarrow> issued s q \<Longrightarrow> wf_quota q" for s q by (simp add: issued_def)
qed (auto simp: workspace_accessor_def order_set list_all_iff)

text \<open>
  A run of admission: batches of requests are checked one after the other, and between them anybody else, the controller and
  other replicas among them, changes the server, where versions are only added and nothing is logged as written by this client.
\<close>

inductive admission_run :: "'s quota_client \<Rightarrow> (resource_quota list \<Rightarrow> resource_quota list) \<Rightarrow> 'o registry \<Rightarrow> ('s \<Rightarrow> bool) \<Rightarrow>
    ('s \<Rightarrow> ws_quota set) \<Rightarrow> ('s \<Rightarrow> (ws_quota \<times> ws_quota) list) \<Rightarrow> 's accessor_state \<Rightarrow> 's accessor_state \<Rightarrow> bool"
  for client order registry inv versions log s where
  start: "admission_run client order registry inv versions log s s"
| batch: "admission_run client order registry inv versions log s s1 \<Longrightarrow>
    admission_run client order registry inv versions log s
      (snd (checkAttributes registry limited (workspace_accessor client order) ns waiters s1))"
| elsewhere: "admission_run client order registry inv versions log s s1 \<Longrightarrow> inv c \<Longrightarrow> versions (as_client s1) \<subseteq> versions c \<Longrightarrow>
    log c = log (as_client s1) \<Longrightarrow> admission_run client order registry inv versions log s (s1\<lparr>as_client := c\<rparr>)"

context logged_server
begin

lemma run_inv:
  assumes "wf_registry registry" and "log_inv s" and "admission_run client order registry inv versions log s s'"
  shows "log_inv s'"
  using assms(3)
proof induction
  case (batch s1 limited ns waiters)
  then show ?case by (intro contract.checkAttributes_inv [OF assms(1)])
next
  case (elsewhere s1 c)
  then show ?case using log_inv_client [of s1 c] by (simp add: later_def)
qed (rule assms(2))

lemma run_respects:
  assumes "wf_registry registry" and "admission_run client order registry inv versions log s s'"
    and "inv (as_client s)" "as_lru s = []" "log (as_client s) = []" and "(old, new) \<in> set (log (as_client s'))"
  shows "booked_within old new"
proof -
  have "log_inv s" using assms(3-5) by (simp add: log_inv_def acc_inv_def)
  from run_inv [OF assms(1) this assms(2)] assms(6) show ?thesis by (auto simp: log_inv_def)
qed

end

end
