(* ===== verification/Quota_Server.thy ===== *)
theory Quota_Server
  imports Workspace_Admission
begin

text \<open>
  A Kubernetes server for workspace quotas, to interpret the laws of \<^verbatim>\<open>Workspace_Admission\<close> on: it keeps all versions of
  every quota, answers reads from a copy that may lag behind, writes a status only on top of the newest version, and lets
  other replicas write in between. That totals agree is stated for it; what admission writes is stated for every server with the laws.
\<close>

section \<open>The server\<close>

text \<open>
  \<open>mq_versions\<close> holds all versions, newest first; \<open>mq_fresh\<close> says for the next reads whether they see the newest version;
  \<open>mq_others\<close> are the status writes that other replicas are about to make, and \<open>mq_log\<close> the accepted ones of this client, each
  with the version it replaced.
\<close>

record mem_quotas =
  mq_versions :: "ws_quota list"
  mq_next :: nat
  mq_seen :: "string \<Rightarrow> nat"
  mq_fresh :: "bool list"
  mq_others :: "ws_quota list"
  mq_log :: "(ws_quota \<times> ws_quota) list"
  mq_namespaces :: "(string \<times> (string, string) gomap) list"
  mq_namespaced :: "string \<Rightarrow> resource_quota list"
  mq_usage :: "string \<Rightarrow> resource_list"
  mq_workspaces :: "(string, string) gomap"

definition newest :: "mem_quotas \<Rightarrow> string \<Rightarrow> ws_quota option" where
  "newest s n = find (\<lambda>q. wsq_Name q = n) (mq_versions s)"

definition with_status :: "ws_quota \<Rightarrow> ws_quota \<Rightarrow> ws_quota" where
  "with_status q c = c\<lparr>wsq_TotalHard := wsq_TotalHard q, wsq_TotalUsed := wsq_TotalUsed q, wsq_Namespaces := wsq_Namespaces q\<rparr>"

definition store :: "(ws_quota \<Rightarrow> ws_quota) \<Rightarrow> ws_quota \<Rightarrow> (ws_quota, mem_quotas) quota_call" where
  "store f q s =
     (case newest s (wsq_Name q) of
        None \<Rightarrow> (Inl (QuotaNotFound ''not found''), s)
      | Some c \<Rightarrow>
          (if wsq_ResourceVersion c = wsq_ResourceVersion q
           then (let q' = (f c)\<lparr>wsq_ResourceVersion := mq_next s\<rparr>
                 in (Inr q', s\<lparr>mq_versions := q' # mq_versions s, mq_next := Suc (mq_next s)\<rparr>))
           else (Inl (QuotaFailed ''conflict''), s)))"

definition others_write :: "mem_quotas \<Rightarrow> mem_quotas" where
  "others_write s = (case mq_others s of [] \<Rightarrow> s | q # qs \<Rightarrow> snd (store (with_status q) q (s\<lparr>mq_others := qs\<rparr>)))"

definition mem_UpdateStatus :: "ws_quota \<Rightarrow> (ws_quota, mem_quotas) quota_call" where
  "mem_UpdateStatus q s =
     (case store (with_status q) q (others_write s) of
        (Inl e, s') \<Rightarrow> (Inl e, s')
      | (Inr q', s') \<Rightarrow> (Inr q', s'\<lparr>mq_log := mq_log s' @ [(the (newest (others_write s) (wsq_Name q)), q')]\<rparr>))"

text \<open>An update of the rest of a quota keeps name and status.\<close>

definition mem_Update :: "ws_quota \<Rightarrow> (ws_quota, mem_quotas) quota_call" where
  "mem_Update q s = store (\<lambda>c. with_status c q) q (others_write s)"

definition pick :: "string \<Rightarrow> mem_quotas \<Rightarrow> ws_quota option" where
  "pick n s =
     (if mq_fresh s \<noteq> [] \<and> hd (mq_fresh s) then newest s n
      else (case find (\<lambda>q. wsq_Name q = n \<and> wsq_ResourceVersion q = mq_seen s n) (mq_versions s) of
              None \<Rightarrow> newest s n
            | Some q \<Rightarrow> Some q))"

definition mem_GetQuota :: "string \<Rightarrow> (ws_quota, mem_quotas) quota_call" where
  "mem_GetQuota n s0 =
     (let s = others_write s0 in
      case pick n s of
        None \<Rightarrow> (Inl (QuotaNotFound ''not found''), s\<lparr>mq_fresh := tl (mq_fresh s)\<rparr>)
      | Some q \<Rightarrow> (Inr q, s\<lparr>mq_fresh := tl (mq_fresh s), mq_seen := (mq_seen s)(n := wsq_ResourceVersion q)\<rparr>))"

definition mem_ListQuotas :: "(ws_quota list, mem_quotas) quota_call" where
  "mem_ListQuotas s = (Inr (map (\<lambda>n. the (newest s n)) (remdups (map wsq_Name (mq_versions s)))), s)"

definition mem_lookup :: "(string, 'v) gomap \<Rightarrow> string \<Rightarrow> (client_error, 'v) result" where
  "mem_lookup m n = (case map_of m n of None \<Rightarrow> Inl (QuotaNotFound ''not found'') | Some v \<Rightarrow> Inr v)"

definition mem_quota_client :: "mem_quotas quota_client" where
  "mem_quota_client =
     \<lparr>qc_GetNamespace = (\<lambda>n s. (mem_lookup (mq_namespaces s) n, s)),
      qc_ListNamespaces = (\<lambda>sel s. (Inr (map fst (filter (\<lambda>(n, ls). SelectorFromSet_Matches sel ls) (mq_namespaces s))), s)),
      qc_GetQuota = mem_GetQuota, qc_ListQuotas = mem_ListQuotas,
      qc_ListNamespacedQuotas = (\<lambda>n s. (Inr (mq_namespaced s n), s)),
      qc_Update = mem_Update, qc_UpdateStatus = mem_UpdateStatus,
      qc_GetWorkspace = (\<lambda>n s. (mem_lookup (mq_workspaces s) n, s)), qc_SetControllerReference = (\<lambda>uid. None),
      qc_CalculateUsage = (\<lambda>n q s. (Inr (mq_usage s n), s)), qc_tries = 80\<rparr>"

definition by_name :: "resource_quota list \<Rightarrow> resource_quota list" where
  "by_name quotas = sort_key rq_Name quotas"

section \<open>Its laws\<close>

definition mem_inv :: "(ws_quota \<Rightarrow> bool) \<Rightarrow> mem_quotas \<Rightarrow> bool" where
  "mem_inv good s \<longleftrightarrow>
     sorted_wrt (\<lambda>a b. wsq_ResourceVersion a > wsq_ResourceVersion b) (mq_versions s)
     \<and> (\<forall>q \<in> set (mq_versions s). good q \<and> wsq_ResourceVersion q < mq_next s)
     \<and> (\<forall>n q. newest s n = Some q \<longrightarrow> mq_seen s n \<le> wsq_ResourceVersion q)
     \<and> (\<forall>q \<in> set (mq_others s). good q)
     \<and> (\<forall>n. list_all wf_quota (mq_namespaced s n)) \<and> (\<forall>n. wf_map (mq_usage s n))"

text \<open>A sense of good that only looks at the status, except for the limits in the specification being a map.\<close>

definition status_closed :: "(ws_quota \<Rightarrow> bool) \<Rightarrow> bool" where
  "status_closed good \<longleftrightarrow> (\<forall>q c v. good q \<longrightarrow> good c \<longrightarrow> good ((with_status q c)\<lparr>wsq_ResourceVersion := v\<rparr>))"

lemma newest_Some: "newest s n = Some q \<Longrightarrow> q \<in> set (mq_versions s) \<and> wsq_Name q = n"
  by (auto simp: newest_def find_Some_iff)

lemma find_sorted:
  "sorted_wrt (\<lambda>a b. f a > f b) xs \<Longrightarrow> find P xs = Some c \<Longrightarrow> p \<in> set xs \<Longrightarrow> P p \<Longrightarrow> f p \<le> (f c :: nat)"
  by (induction xs) (auto split: if_splits)

lemma newest_max:
  assumes "mem_inv good s" and "newest s n = Some c" and "p \<in> set (mq_versions s)" and "wsq_Name p = n"
  shows "wsq_ResourceVersion p \<le> wsq_ResourceVersion c"
  using find_sorted [of wsq_ResourceVersion "mq_versions s" "\<lambda>q. wsq_Name q = n" c p] assms
  by (simp add: mem_inv_def newest_def)

lemma version_unique:
  assumes "mem_inv good s" and "p \<in> set (mq_versions s)" and "q \<in> set (mq_versions s)"
    and "wsq_ResourceVersion p = wsq_ResourceVersion q"
  shows "p = q"
proof -
  have "sorted_wrt (\<lambda>a b. wsq_ResourceVersion a > wsq_ResourceVersion b) xs \<Longrightarrow> p \<in> set xs \<Longrightarrow> q \<in> set xs \<Longrightarrow> p = q" for xs
    using assms(4) by (induction xs) auto
  from this [of "mq_versions s"] show ?thesis using assms by (simp add: mem_inv_def)
qed

definition same_rest :: "mem_quotas \<Rightarrow> mem_quotas \<Rightarrow> bool" where
  "same_rest s s' \<longleftrightarrow> set (mq_versions s) \<subseteq> set (mq_versions s') \<and> (\<forall>n. mq_seen s n \<le> mq_seen s' n)
     \<and> wsq_Name ` set (mq_versions s') = wsq_Name ` set (mq_versions s)"

lemma same_rest_refl [simp]: "same_rest s s" by (simp add: same_rest_def)

lemma same_rest_trans: "same_rest s s' \<Longrightarrow> same_rest s' s'' \<Longrightarrow> same_rest s s''"
  by (auto simp: same_rest_def) (meson order_trans)

lemma store_law:
  assumes inv: "mem_inv good s" and st: "store f q s = (r, s')"
    and f: "\<And>c. newest s (wsq_Name q) = Some c \<Longrightarrow> good ((f c)\<lparr>wsq_ResourceVersion := mq_next s\<rparr>) \<and> wsq_Name (f c) = wsq_Name q"
  shows "mem_inv good s' \<and> same_rest s s' \<and> mq_others s' = mq_others s
    \<and> (\<forall>q'. r = Inr q' \<longrightarrow> good q' \<and> wsq_Name q' = wsq_Name q \<and> q' \<in> set (mq_versions s') \<and> wsq_ResourceVersion q < wsq_ResourceVersion q'
         \<and> (\<forall>p \<in> set (mq_versions s). wsq_Name p = wsq_Name q \<longrightarrow> wsq_ResourceVersion p \<le> wsq_ResourceVersion q))"
proof (cases "newest s (wsq_Name q)")
  case None
  with st inv show ?thesis by (auto simp: store_def)
next
  case (Some c)
  show ?thesis
  proof (cases "wsq_ResourceVersion c = wsq_ResourceVersion q")
    case False
    with Some st inv show ?thesis by (auto simp: store_def)
  next
    case True
    define q' where "q' = (f c)\<lparr>wsq_ResourceVersion := mq_next s\<rparr>"
    have r: "r = Inr q'" and s': "s' = s\<lparr>mq_versions := q' # mq_versions s, mq_next := Suc (mq_next s)\<rparr>"
      using st Some True by (simp_all add: store_def Let_def q'_def)
    have q': "good q'" "wsq_Name q' = wsq_Name q" "wsq_ResourceVersion q' = mq_next s" using f [OF Some] by (simp_all add: q'_def)
    have lt: "wsq_ResourceVersion p < mq_next s" if "p \<in> set (mq_versions s)" for p using inv that by (simp add: mem_inv_def)
    have c: "c \<in> set (mq_versions s)" "wsq_Name c = wsq_Name q" using newest_Some [OF Some] by simp_all
    have seen: "mq_seen s n \<le> wsq_ResourceVersion p" if "newest s' n = Some p" for n p
    proof (cases "n = wsq_Name q")
      case True
      then have "p = q'" using that q' by (simp add: newest_def s')
      moreover have "mq_seen s n \<le> wsq_ResourceVersion c" using inv Some True by (simp add: mem_inv_def)
      ultimately show ?thesis using q'(3) lt [OF c(1)] by simp
    next
      case False
      then have "newest s n = Some p" using that q' by (simp add: newest_def s')
      then show ?thesis using inv by (simp add: mem_inv_def)
    qed
    have "mem_inv good s'"
      using inv q' lt seen unfolding mem_inv_def by (auto simp: s' less_Suc_eq)
    moreover have "same_rest s s'" using c q'(2) by (auto simp: same_rest_def s' image_iff) (metis)
    ultimately show ?thesis using r q' s' lt [OF c(1)] True newest_max [OF inv Some] by auto
  qed
qed

lemma with_status_Name [simp]: "wsq_Name (with_status q c) = wsq_Name c" by (simp add: with_status_def)

lemma others_write_law:
  assumes "status_closed good" and "mem_inv good s"
  shows "mem_inv good (others_write s) \<and> same_rest s (others_write s)"
proof (cases "mq_others s")
  case Nil
  with assms show ?thesis by (simp add: others_write_def)
next
  case (Cons q qs)
  let ?s = "s\<lparr>mq_others := qs\<rparr>"
  have i: "mem_inv good ?s" and q: "good q" using assms(2) Cons by (auto simp: mem_inv_def newest_def)
  obtain r s' where st: "store (with_status q) q ?s = (r, s')" by fastforce
  have "good ((with_status q c)\<lparr>wsq_ResourceVersion := mq_next ?s\<rparr>) \<and> wsq_Name (with_status q c) = wsq_Name q"
    if "newest ?s (wsq_Name q) = Some c" for c
    using newest_Some [OF that] i q assms(1) by (auto simp: status_closed_def mem_inv_def)
  from store_law [OF i st this] have "mem_inv good s'" "same_rest ?s s'" by blast+
  moreover have "same_rest s ?s" by (simp add: same_rest_def)
  ultimately show ?thesis using st Cons by (auto simp: others_write_def intro: same_rest_trans)
qed

text \<open>Neither the laws nor the newest version depend on the log.\<close>

lemma log_irrelevant [simp]:
  "mem_inv good (s\<lparr>mq_log := l\<rparr>) = mem_inv good s" "same_rest s0 (s\<lparr>mq_log := l\<rparr>) = same_rest s0 s"
  by (simp_all add: mem_inv_def newest_def same_rest_def)

lemma UpdateStatus_law:
  assumes closed: "status_closed good" and inv: "mem_inv good s" and upd: "mem_UpdateStatus q s = (r, s')" and q: "good q \<or> r = Inl e"
  shows "mem_inv good s' \<and> same_rest s s' \<and> (\<forall>q'. r = Inr q' \<longrightarrow> good q' \<and> wsq_Name q' = wsq_Name q)"
proof -
  let ?s = "others_write s"
  note o = others_write_law [OF closed inv]
  obtain r1 s1 where st: "store (with_status q) q ?s = (r1, s1)" by fastforce
  have r: "r1 = r" and s': "\<exists>l. s' = s1\<lparr>mq_log := l\<rparr>"
    using upd st by (auto simp: mem_UpdateStatus_def split: sum.splits intro: exI [of _ "mq_log s1"])
  have "mem_inv good s1 \<and> same_rest s s1 \<and> (\<forall>q'. r = Inr q' \<longrightarrow> good q' \<and> wsq_Name q' = wsq_Name q)"
  proof (cases "good q")
    case True
    have "good ((with_status q c)\<lparr>wsq_ResourceVersion := mq_next ?s\<rparr>) \<and> wsq_Name (with_status q c) = wsq_Name q"
      if "newest ?s (wsq_Name q) = Some c" for c
      using newest_Some [OF that] o True closed by (auto simp: status_closed_def mem_inv_def)
    note law = store_law [OF conjunct1 [OF o] st this]
    have "same_rest s s1" using same_rest_trans o law by blast
    then show ?thesis using law r by blast
  next
    case False
    with q r have "r1 = Inl e" by simp
    then have "s1 = ?s" using st by (auto simp: store_def Let_def split: option.splits if_splits)
    with o \<open>r1 = Inl e\<close> r show ?thesis by blast
  qed
  moreover obtain l where "s' = s1\<lparr>mq_log := l\<rparr>" using s' by blast
  ultimately show ?thesis by (simp only: log_irrelevant) blast
qed

lemma Update_law:
  assumes closed: "status_closed good" and inv: "mem_inv good s" and upd: "mem_Update q s = (r, s')" and q: "good q"
  shows "mem_inv good s' \<and> same_rest s s' \<and> (\<forall>q'. r = Inr q' \<longrightarrow> good q')"
proof -
  let ?s = "others_write s"
  note o = others_write_law [OF closed inv]
  have st: "store (\<lambda>c. with_status c q) q ?s = (r, s')" using upd by (simp add: mem_Update_def)
  have "good ((with_status c q)\<lparr>wsq_ResourceVersion := mq_next ?s\<rparr>) \<and> wsq_Name (with_status c q) = wsq_Name q"
    if "newest ?s (wsq_Name q) = Some c" for c
    using newest_Some [OF that] o q closed by (auto simp: status_closed_def mem_inv_def)
  from store_law [OF conjunct1 [OF o] st this] o same_rest_trans show ?thesis by blast
qed

lemma pick_law:
  assumes "mem_inv good s" and "pick n s = Some q"
  shows "q \<in> set (mq_versions s) \<and> wsq_Name q = n \<and> mq_seen s n \<le> wsq_ResourceVersion q"
  using assms newest_Some [of s n q]
  by (auto simp: pick_def mem_inv_def find_Some_iff split: if_splits option.splits)

lemma GetQuota_law:
  assumes closed: "status_closed good" and inv: "mem_inv good s" and get: "mem_GetQuota n s = (r, s')"
  shows "mem_inv good s' \<and> same_rest s s' \<and> (\<forall>q. r = Inr q \<longrightarrow> good q \<and> wsq_Name q = n \<and> q \<in> set (mq_versions s')
    \<and> mq_seen s n \<le> wsq_ResourceVersion q \<and> wsq_ResourceVersion q \<le> mq_seen s' n)"
proof -
  let ?s = "others_write s"
  note o = others_write_law [OF closed inv]
  show ?thesis
  proof (cases "pick n ?s")
    case None
    with get o show ?thesis by (auto simp: mem_GetQuota_def Let_def mem_inv_def newest_def same_rest_def)
  next
    case (Some q)
    note p = pick_law [OF conjunct1 [OF o] Some]
    have s': "s' = ?s\<lparr>mq_fresh := tl (mq_fresh ?s), mq_seen := (mq_seen ?s)(n := wsq_ResourceVersion q)\<rparr>" "r = Inr q"
      using get Some by (simp_all add: mem_GetQuota_def Let_def)
    have new: "newest s' m = newest ?s m" for m by (simp add: newest_def s')
    have "wsq_ResourceVersion q \<le> wsq_ResourceVersion c" if "newest ?s n = Some c" for c
      using newest_max [OF conjunct1 [OF o] that] p by blast
    then have "mem_inv good s'" using o new by (auto simp: mem_inv_def s'(1))
    moreover have "same_rest s s'"
    proof -
      have "mq_seen s m \<le> mq_seen s' m" for m
        using o p order_trans [of "mq_seen s n" "mq_seen ?s n"] by (simp add: s' same_rest_def)
      then show ?thesis using o by (simp add: same_rest_def s')
    qed
    moreover have "mq_seen s n \<le> wsq_ResourceVersion q" 
      using conjunct2 [OF o] conjunct2 [OF conjunct2 [OF p]] order_trans [of "mq_seen s n" "mq_seen ?s n"] by (simp add: same_rest_def)
    moreover have "good q" using p o by (simp add: mem_inv_def)
    ultimately show ?thesis using p s' by simp
  qed
qed

section \<open>The server meets the laws\<close>

lemma mem_client_calls:
  "qc_GetNamespace mem_quota_client n s = (mem_lookup (mq_namespaces s) n, s)"
  "snd (qc_ListNamespaces mem_quota_client sel s) = s"
  "snd (qc_ListQuotas mem_quota_client s) = s"
  "qc_ListNamespacedQuotas mem_quota_client n s = (Inr (mq_namespaced s n), s)"
  "snd (qc_GetWorkspace mem_quota_client n s) = s"
  "qc_CalculateUsage mem_quota_client n q s = (Inr (mq_usage s n), s)"
  "qc_GetQuota mem_quota_client = mem_GetQuota" "qc_Update mem_quota_client = mem_Update"
  "qc_UpdateStatus mem_quota_client = mem_UpdateStatus"
  by (simp_all add: mem_quota_client_def mem_ListQuotas_def)


definition balanced :: "ws_quota \<Rightarrow> bool" where
  "balanced q \<longleftrightarrow> wf_ws_quota q \<and> (\<forall>r. drift q r = 0)"

lemma balanced_closed: "status_closed balanced"
  by (simp add: status_closed_def balanced_def with_status_def wf_ws_quota_def drift_def)

lemma wf_closed: "status_closed wf_ws_quota"
  by (simp add: status_closed_def with_status_def wf_ws_quota_def)

lemma mem_quota_server:
  assumes closed: "status_closed good" and wf: "\<And>q. good q \<Longrightarrow> wf_ws_quota q"
  shows "quota_server mem_quota_client good (mem_inv good)"
proof (unfold_locales, simp_all only: mem_client_calls snd_conv)
  fix s
  assume s: "mem_inv good s"
  show "mem_inv good (snd (mem_GetQuota n s))" for n
    using GetQuota_law [OF closed s] by (metis prod.collapse)
  show "mem_GetQuota n s = (Inr q, s') \<Longrightarrow> good q \<and> wsq_Name q = n" for n q s'
    using GetQuota_law [OF closed s] by blast
  show "(Inr (mq_namespaced s n), s) = (Inr qs, s') \<Longrightarrow> list_all wf_quota qs" for n qs s'
    using s by (auto simp: mem_inv_def)
  show "(Inr (mq_usage s n), s) = (Inr u, s') \<Longrightarrow> wf_map u" for n u s' using s by (auto simp: mem_inv_def)
  show "mem_UpdateStatus q s = (Inl e, s') \<Longrightarrow> mem_inv good s'" for q e s'
    using UpdateStatus_law [OF closed s] by blast
  show "good q \<Longrightarrow> mem_inv good (snd (mem_Update q s))" for q
    using Update_law [OF closed s] by (metis prod.collapse)
  show "good q \<Longrightarrow> mem_Update q s = (Inr q', s') \<Longrightarrow> good q'" for q q' s'
    using Update_law [OF closed s] by blast
  show "good q \<Longrightarrow> mem_UpdateStatus q s = (Inr q', s') \<Longrightarrow> mem_inv good s'" for q q' s'
    using UpdateStatus_law [OF closed s] by blast
  show "good q \<Longrightarrow> mem_UpdateStatus q s = (Inr q', s') \<Longrightarrow> good q' \<and> wsq_Name q' = wsq_Name q" for q q' s'
    using UpdateStatus_law [OF closed s] by blast
qed (use wf in simp_all)

lemma wf_by_name: "set (by_name qs) = set qs" by (simp add: by_name_def)

interpretation mem_balanced: balanced_admission mem_quota_client balanced "mem_inv balanced" by_name
proof (intro balanced_admission.intro balanced_server.intro mem_quota_server balanced_closed)
  show "balanced q \<Longrightarrow> wf_ws_quota q" for q by (simp add: balanced_def)
  show "balanced_server_axioms balanced"
    by unfold_locales (simp_all add: balanced_def with_usage_drift recalculated_drift synced_status_spec, simp add: wf_ws_quota_def drift_def)
  show "balanced_admission_axioms by_name" by unfold_locales (rule wf_by_name)
qed

lemma store_log: "mq_log (snd (store f q s)) = mq_log s"
  by (auto simp: store_def Let_def split: option.splits)

lemma others_write_log: "mq_log (others_write s) = mq_log s"
  by (simp add: others_write_def store_log split: list.splits)

lemma UpdateStatus_logged:
  assumes inv: "mem_inv wf_ws_quota s" and wf: "wf_ws_quota q" and upd: "mem_UpdateStatus q s = (Inr q', s')"
  shows "set (mq_versions s) \<subseteq> set (mq_versions s') \<and> q' \<in> set (mq_versions s') \<and> wsq_TotalUsed q' = wsq_TotalUsed q \<and>
    (\<exists>old \<in> set (mq_versions s'). wsq_Name old = wsq_Name q \<and> wsq_ResourceVersion old = wsq_ResourceVersion q \<and>
       mq_log s' = mq_log s @ [(old, q')])"
proof -
  let ?s = "others_write s"
  have sub: "set (mq_versions s) \<subseteq> set (mq_versions ?s)" using others_write_law [OF wf_closed inv] by (simp add: same_rest_def)
  obtain c where c: "newest ?s (wsq_Name q) = Some c" "wsq_ResourceVersion c = wsq_ResourceVersion q"
      "q' = (with_status q c)\<lparr>wsq_ResourceVersion := mq_next ?s\<rparr>"
      "s' = ?s\<lparr>mq_versions := q' # mq_versions ?s, mq_next := Suc (mq_next ?s), mq_log := mq_log ?s @ [(c, q')]\<rparr>"
    using upd by (auto simp: mem_UpdateStatus_def store_def Let_def split: option.splits if_splits)
  show ?thesis using newest_Some [OF c(1)] c sub others_write_log [of s] by (auto simp: with_status_def)
qed

interpretation mem_logged: logged_server mem_quota_client "mem_inv wf_ws_quota" "\<lambda>s. set (mq_versions s)" mq_log by_name
proof (intro logged_server.intro mem_quota_server wf_closed)
  note get = GetQuota_law [OF wf_closed]
  show "logged_server_axioms mem_quota_client (mem_inv wf_ws_quota) (\<lambda>s. set (mq_versions s)) mq_log by_name"
  proof (unfold_locales, simp_all only: mem_client_calls)
    show "set (by_name qs) = set qs" for qs by (rule wf_by_name)
    show "mem_inv wf_ws_quota s \<Longrightarrow> mem_GetQuota n s = (rq, s') \<Longrightarrow>
        set (mq_versions s) \<subseteq> set (mq_versions s') \<and> mq_log s' = mq_log s" for s n rq s'
      using get [of s n rq s'] others_write_log [of s] by (auto simp: same_rest_def mem_GetQuota_def Let_def split: option.splits)
    show "mem_inv wf_ws_quota s \<Longrightarrow> mem_GetQuota n s = (Inr q, s') \<Longrightarrow> q \<in> set (mq_versions s')" for s n q s'
      using get by blast
    show "mem_inv wf_ws_quota s \<Longrightarrow> p \<in> set (mq_versions s) \<Longrightarrow> q \<in> set (mq_versions s) \<Longrightarrow> wsq_Name p = wsq_Name q \<Longrightarrow>
        wsq_ResourceVersion p = wsq_ResourceVersion q \<Longrightarrow> p = q" for s p q
      using version_unique by blast
    show "mem_inv wf_ws_quota s \<Longrightarrow> mem_UpdateStatus q s = (Inl e, s') \<Longrightarrow>
        set (mq_versions s) \<subseteq> set (mq_versions s') \<and> mq_log s' = mq_log s" for s q e s'
      using UpdateStatus_law [OF wf_closed, of s q "Inl e" s' e] others_write_log [of s] store_log [of "with_status q" q "others_write s"]
      by (auto simp: same_rest_def mem_UpdateStatus_def split: prod.splits sum.splits)
    show "mem_inv wf_ws_quota s \<Longrightarrow> wf_ws_quota q \<Longrightarrow> mem_UpdateStatus q s = (Inr q', s') \<Longrightarrow>
        set (mq_versions s) \<subseteq> set (mq_versions s') \<and> q' \<in> set (mq_versions s') \<and> wsq_TotalUsed q' = wsq_TotalUsed q \<and>
        (\<exists>old \<in> set (mq_versions s'). wsq_Name old = wsq_Name q \<and> wsq_ResourceVersion old = wsq_ResourceVersion q \<and>
           mq_log s' = mq_log s @ [(old, q')])" for s q q' s'
      by (rule UpdateStatus_logged)
  qed (auto simp: mem_quota_client_def mem_ListQuotas_def)
qed simp

section \<open>Properties of the quota system\<close>

text \<open>
  C21: In every run of the quota system, over any batches of requests and any runs of the controller, with stale reads and the
  writes of other replicas in between, the total of every workspace quota stays the sum of what it books on its namespaces.
\<close>

theorem quota_totals_agree:
  assumes "wf_registry registry" and "quota_run mem_quota_client by_name registry True s s'"
    and "mem_inv balanced (as_client s)" and "as_lru s = []" and "q \<in> set (mq_versions (as_client s'))"
  shows "qty (wsq_TotalUsed q) r = ns_sum (wsq_Namespaces q) r"
proof -
  have "mem_balanced.acc_inv s" using assms(3,4) by (simp add: mem_balanced.acc_inv_def)
  then have "mem_balanced.acc_inv s'" by (rule mem_balanced.run_inv [OF assms(1) _ assms(2)])
  then have "balanced q" using assms(5) by (simp add: mem_balanced.acc_inv_def mem_inv_def)
  then show ?thesis by (simp add: balanced_def drift_def)
qed

text \<open>
  C20: Admission never takes the total of a workspace quota over a limit: every status update of admission that the server
  accepts books on every resource of the quota at least what the version it replaces booked, and either just that or no more than
  that version's limit. This holds over any batches of requests, for any number of quotas, although quotas are read from a copy
  that may be stale, and whatever other writers, such as the controller, other replicas and users, write at any time; what is relied
  on is that the server accepts a status only on top of the version it names, and that all quotas are maps with distinct keys.
\<close>

theorem workspace_limits_respected:
  assumes "logged_server client sound versions accepted order" and "wf_registry registry"
    and "admission_run client order registry sound versions accepted s s'"
    and "sound (as_client s)" "as_lru s = []" "accepted (as_client s) = []"
    and "(old, new) \<in> set (accepted (as_client s'))"
  shows "qty (wsq_TotalUsed old) r \<le> qty (wsq_TotalUsed new) r \<and>
    (qty (wsq_TotalUsed new) r = qty (wsq_TotalUsed old) r \<or>
     (\<exists>h. map_of (wsq_TotalHard old) r = Some h \<and> qty (wsq_TotalUsed new) r \<le> h))"
  using logged_server.run_respects [OF assms] unfolding logged_server.booked_within_def [OF assms(1)] by blast

section \<open>A concrete server\<close>

definition pods_quota :: "nat \<Rightarrow> int \<Rightarrow> ws_quota" where
  "pods_quota version used =
     \<lparr>wsq_Name = ''q'', wsq_ResourceVersion = version, wsq_UID = ''uid'', wsq_Labels = [], wsq_Owner = None, wsq_Selector = [(''ws'', ''a'')],
      wsq_Scopes = [], wsq_ScopeSelector = None, wsq_Hard = [(''pods'', 2)], wsq_TotalHard = [(''pods'', 2)], wsq_TotalUsed = [(''pods'', used)],
      wsq_Namespaces = [\<lparr>nss_Namespace = ''ns'', nss_Hard = [], nss_Used = [(''pods'', used)]\<rparr>]\<rparr>"

definition pods_server :: "mem_quotas accessor_state" where
  "pods_server = \<lparr>as_lru = [], as_client =
     \<lparr>mq_versions = [pods_quota 1 1], mq_next = 2, mq_seen = (\<lambda>_. 0), mq_fresh = [], mq_others = [], mq_log = [],
      mq_namespaces = [(''ns'', [(''ws'', ''a'')])], mq_namespaced = (\<lambda>_. []), mq_usage = (\<lambda>_. [(''pods'', 1)]), mq_workspaces = []\<rparr>\<rparr>"

definition pods_after :: "mem_quotas accessor_state" where
  "pods_after = snd (checkAttributes demo_registry [] (workspace_accessor mem_quota_client by_name) ''ns'' [demo_waiter ''q''] pods_server)"

lemma pods_after_versions: "mq_versions (as_client pods_after) = [pods_quota 2 2, pods_quota 1 1]"
  by code_simp

lemma pods_run: "quota_run mem_quota_client by_name demo_registry controller pods_server pods_after"
  unfolding pods_after_def by (intro quota_run.batch quota_run.start)

lemma pods_after_log: "mq_log (as_client pods_after) = [(pods_quota 1 1, pods_quota 2 2)]"
  by code_simp

lemma pods_admission:
  "admission_run mem_quota_client by_name demo_registry (mem_inv wf_ws_quota) (\<lambda>s. set (mq_versions s)) mq_log pods_server pods_after"
  unfolding pods_after_def by (intro admission_run.batch admission_run.start)

lemma pods_quota_good:
  "balanced (pods_quota v u)" "wf_ws_quota (pods_quota v u)"
  by (auto simp: balanced_def pods_quota_def wf_ws_quota_def wf_statuses_def wf_map_def drift_def qty_def map_get_def
      split: if_splits)

lemma pods_server_inv: "mem_inv balanced (as_client pods_server)" "mem_inv wf_ws_quota (as_client pods_server)"
  using pods_quota_good [of 1 1]
  by (auto simp: mem_inv_def pods_server_def wf_map_def newest_def pods_quota_def split: if_splits)

theorem quota_totals_agree_witness:
  "pods_quota 2 2 \<in> set (mq_versions (as_client pods_after)) \<and>
   qty (wsq_TotalUsed (pods_quota 2 2)) ''pods'' = ns_sum (wsq_Namespaces (pods_quota 2 2)) ''pods''"
  using quota_totals_agree [OF demo_wf(3) pods_run pods_server_inv(1), of "pods_quota 2 2" "''pods''"]
  by (simp add: pods_after_versions pods_server_def)

theorem workspace_limits_respected_witness:
  "(pods_quota 1 1, pods_quota 2 2) \<in> set (mq_log (as_client pods_after)) \<and> qty (wsq_TotalUsed (pods_quota 2 2)) ''pods'' \<le> 2"
proof -
  have logged: "(pods_quota 1 1, pods_quota 2 2) \<in> set (mq_log (as_client pods_after))" by (simp add: pods_after_log)
  have "as_lru pods_server = []" "mq_log (as_client pods_server) = []" by (simp_all add: pods_server_def)
  from workspace_limits_respected [OF mem_logged.logged_server_axioms demo_wf(3) pods_admission pods_server_inv(2) this logged, of "''pods''"]
  have "qty (wsq_TotalUsed (pods_quota 2 2)) ''pods'' \<le> 2" by (auto simp: pods_quota_def qty_def map_get_def)
  with logged show ?thesis by simp
qed

text \<open>The controller measures one pod in the namespace, as the status says.\<close>

theorem quota_sync_measures_witness:
  "\<exists>q'. syncQuotaForNamespaces (mem_quota_client\<lparr>qc_CalculateUsage := \<lambda>n q s. (Inr [(''pods'', 1)], s)\<rparr>) (pods_quota 1 2) (as_client pods_server) =
      (case mem_UpdateStatus q' (as_client pods_server) of (Inl e, s2) \<Rightarrow> (Some e, s2) | (Inr _, s2) \<Rightarrow> (None, s2))
    \<and> qty (wsq_TotalUsed q') ''pods'' = 1"
proof -
  let ?client = "mem_quota_client\<lparr>qc_CalculateUsage := \<lambda>n q s. (Inr [(''pods'', 1)], s)\<rparr>"
  have list: "qc_ListNamespaces ?client (wsq_Selector (pods_quota 1 2)) (as_client pods_server) = (Inr [''ns''], as_client pods_server)"
    by (simp add: mem_quota_client_def pods_server_def pods_quota_def SelectorFromSet_Matches_def)
  have q: "wf_ws_quota (pods_quota 1 2)" "\<And>r. drift (pods_quota 1 2) r = 0" using pods_quota_good(1) [of 1 2] by (simp_all add: balanced_def)
  obtain q' where q': "syncQuotaForNamespaces ?client (pods_quota 1 2) (as_client pods_server) =
        (if same_status q' (pods_quota 1 2) then (None, as_client pods_server)
         else case qc_UpdateStatus ?client q' (as_client pods_server) of (Inl e, s2) \<Rightarrow> (Some e, s2) | (Inr _, s2) \<Rightarrow> (None, s2))"
      "\<forall>r. qty (wsq_TotalUsed q') r = (\<Sum>n \<in> set [''ns'']. qty [(''pods'', 1)] r)"
    using quota_sync_measures [OF list, of "\<lambda>n. [(''pods'', 1)]"] q by (auto simp: wf_map_def)
  have "qty (wsq_TotalUsed q') ''pods'' = 1" using q'(2) by (simp add: qty_def map_get_def)
  moreover have "\<not> same_status q' (pods_quota 1 2)"
  proof
    assume "same_status q' (pods_quota 1 2)"
    then have "Equals (wsq_TotalUsed q') [(''pods'', 2)]" by (simp add: same_status_def pods_quota_def)
    then have "wsq_TotalUsed q' = [(''pods'', 2)]" by (cases "wsq_TotalUsed q'") (auto simp: Equals_def split: if_splits)
    with \<open>qty (wsq_TotalUsed q') ''pods'' = 1\<close> show False by (simp add: qty_def map_get_def)
  qed
  ultimately show ?thesis using q'(1) by (intro exI [of _ q']) (simp add: mem_client_calls)
qed

end
