(* ===== verification/Quota_Locks.thy ===== *)
theory Quota_Locks
  imports Quota_Server
begin

text \<open>
  The admission webhook for quotas (\<^verbatim>\<open>pkg/controller/quota/resourcequota_webhook.go\<close>) and its locks
  (\<^verbatim>\<open>lockfactory.go\<close>): every worker locks the quotas of its namespace in the order of their names before it checks them.
\<close>

section \<open>The webhook\<close>

text \<open>Raw objects are texts, empty when absent; the decoder is a parameter, and so is the nil object.\<close>

record admission_request =
  arq_SubResource :: string
  arq_Namespace :: string
  arq_Resource :: "string \<times> string"
  arq_Operation :: operation
  arq_Object :: string
  arq_OldObject :: string
  arq_Options :: string
  arq_DryRun :: "bool option"

datatype admission_response = Allowed | Denied quota_error | Errored int string

definition decode_raw :: "(string \<Rightarrow> (string, 'o) result) \<Rightarrow> string \<Rightarrow> (string, 'o option) result" where
  "decode_raw decode raw = (if length raw > 0 then map_sum id Some (decode raw) else Inr None)"

text \<open>The flag for dry runs is read through its pointer without a check: \<^const>\<open>None\<close> is the panic.\<close>

definition convertToAdmissionAttributes ::
  "(string \<Rightarrow> (string, 'o) result) \<Rightarrow> 'o \<Rightarrow> admission_request \<Rightarrow> (string, 'o admission_attributes) result option" where
  "convertToAdmissionAttributes decode nilObject req =
     (case decode_raw decode (arq_Object req) of
        Inl e \<Rightarrow> Some (Inl e)
      | Inr object \<Rightarrow>
          (case decode_raw decode (arq_OldObject req) of
             Inl e \<Rightarrow> Some (Inl e)
           | Inr oldObject \<Rightarrow>
               (case decode_raw decode (arq_Options req) of
                  Inl e \<Rightarrow> Some (Inl e)
                | Inr options \<Rightarrow>
                    (case arq_DryRun req of
                       None \<Rightarrow> None
                     | Some dryRun \<Rightarrow>
                         Some (Inr \<lparr>ad_GroupResource = arq_Resource req, ad_Namespace = arq_Namespace req,
                           ad_Operation = arq_Operation req, ad_Object = (case object of None \<Rightarrow> nilObject | Some x \<Rightarrow> x),
                           ad_OldObject = oldObject, ad_DryRun = dryRun\<rparr>)))))"

text \<open>The errors that the check makes with \<^verbatim>\<open>NewForbidden\<close>; an error of the client may be of that kind too.\<close>

fun IsForbidden :: "(string \<Rightarrow> bool) \<Rightarrow> quota_error \<Rightarrow> bool" where
  "IsForbidden forbidden (FailedQuota q e) = True"
| "IsForbidden forbidden (StatusUnknown q rs) = True"
| "IsForbidden forbidden (NegativeUsage rs) = True"
| "IsForbidden forbidden NoPriorObject = True"
| "IsForbidden forbidden (InsufficientQuota rs) = True"
| "IsForbidden forbidden (ExceededQuota q a b c) = True"
| "IsForbidden forbidden (AccessorError e) = forbidden e"
| "IsForbidden forbidden (EvaluatorError e) = forbidden e"
| "IsForbidden forbidden _ = False"

definition quota_Handle ::
  "(string \<Rightarrow> (string, 'o) result) \<Rightarrow> 'o \<Rightarrow> (string \<Rightarrow> bool) \<Rightarrow> (quota_error \<Rightarrow> string) \<Rightarrow>
   ('o admission_attributes \<Rightarrow> quota_error option) \<Rightarrow> admission_request \<Rightarrow> admission_response option" where
  "quota_Handle decode nilObject forbidden text evaluate req =
     (if length (arq_SubResource req) \<noteq> 0 then Some Allowed
      else if length (arq_Namespace req) = 0 then Some Allowed
      else
        (case convertToAdmissionAttributes decode nilObject req of
           None \<Rightarrow> None
         | Some (Inl e) \<Rightarrow> Some (Errored 400 e)
         | Some (Inr attributes) \<Rightarrow>
             (case evaluate attributes of
                Some e \<Rightarrow> Some (if IsForbidden forbidden e then Denied e else Errored 500 (text e))
              | None \<Rightarrow> Some Allowed)))"

section \<open>Locks of quotas\<close>

text \<open>A mutex is the number of its creation.\<close>

record lock_factory =
  lf_locks :: "(string, nat) gomap"
  lf_next :: nat

definition NewDefaultLockFactory :: lock_factory where
  "NewDefaultLockFactory = \<lparr>lf_locks = [], lf_next = 0\<rparr>"

definition getExistingLock :: "string \<Rightarrow> lock_factory \<Rightarrow> nat option" where
  "getExistingLock key f = map_of (lf_locks f) key"

definition create_lock :: "string \<Rightarrow> lock_factory \<Rightarrow> nat \<times> lock_factory" where
  "create_lock key f = (lf_next f, \<lparr>lf_locks = AList.update key (lf_next f) (lf_locks f), lf_next = Suc (lf_next f)\<rparr>)"

text \<open>\<^verbatim>\<open>GetLock\<close> holds the lock of the factory twice, with nothing between the two: two steps that others may come between.\<close>

datatype lock_caller = Asking string | Creating string | Having nat

fun GetLock_step :: "lock_caller \<Rightarrow> lock_factory \<Rightarrow> lock_caller \<times> lock_factory" where
  "GetLock_step (Asking key) f =
     (case getExistingLock key f of Some l \<Rightarrow> (Having l, f) | None \<Rightarrow> (Creating key, f))"
| "GetLock_step (Creating key) f = (case create_lock key f of (l, f') \<Rightarrow> (Having l, f'))"
| "GetLock_step (Having l) f = (Having l, f)"

definition GetLock :: "string \<Rightarrow> lock_factory \<Rightarrow> nat \<times> lock_factory" where
  "GetLock key f =
     (case getExistingLock key f of
        Some l \<Rightarrow> (l, f)
      | None \<Rightarrow> create_lock key f)"

lemma GetLock_steps:
  "(case GetLock_step (Asking key) f of (a, f1) \<Rightarrow> GetLock_step a f1) = (case GetLock key f of (l, f') \<Rightarrow> (Having l, f'))"
  by (auto simp: GetLock_def split: option.splits prod.splits)

text \<open>One caller after the other gets the same lock.\<close>

lemma GetLock_again: "GetLock key f = (l, f') \<Longrightarrow> GetLock key f' = (l, f')"
  by (auto simp: GetLock_def getExistingLock_def create_lock_def split: option.splits)

text \<open>
  When two workers ask at the same time for the lock of a quota that has none yet, they get different locks: the second
  look into the map is missing, and both check the quota at the same time.
\<close>

theorem one_quota_two_locks:
  assumes "getExistingLock key f = None"
  shows "\<exists>a b f1 f2 f3 f4 l l'. GetLock_step (Asking key) f = (a, f1) \<and> GetLock_step (Asking key) f1 = (b, f2) \<and>
    GetLock_step a f2 = (Having l, f3) \<and> GetLock_step b f3 = (Having l', f4) \<and> l \<noteq> l'"
  using assms by (simp add: create_lock_def)

theorem one_quota_two_locks_witness:
  "\<exists>a b f1 f2 f3 f4 l l'. GetLock_step (Asking ''uid'') NewDefaultLockFactory = (a, f1) \<and> GetLock_step (Asking ''uid'') f1 = (b, f2) \<and>
    GetLock_step a f2 = (Having l, f3) \<and> GetLock_step b f3 = (Having l', f4) \<and> l \<noteq> l'"
  by (rule one_quota_two_locks) (simp add: NewDefaultLockFactory_def getExistingLock_def)

section \<open>Locking in the order of names\<close>

text \<open>The locks each worker holds and those it still wants, in the order in which it takes them.\<close>

record locking =
  lk_held :: "nat \<Rightarrow> resource_quota list"
  lk_todo :: "nat \<Rightarrow> resource_quota list"

definition lockAquisition :: "(nat \<Rightarrow> resource_quota list) \<Rightarrow> locking" where
  "lockAquisition quotas = \<lparr>lk_held = (\<lambda>_. []), lk_todo = (\<lambda>i. by_name (quotas i))\<rparr>"

text \<open>A mutex can be taken when no worker holds it; a worker that has all of its locks gives them back when it is done.\<close>

definition free :: "nat \<Rightarrow> locking \<Rightarrow> resource_quota \<Rightarrow> bool" where
  "free N s q \<longleftrightarrow> (\<forall>j < N. \<forall>p \<in> set (lk_held s j). rq_UID p \<noteq> rq_UID q)"

inductive lock_step :: "nat \<Rightarrow> locking \<Rightarrow> locking \<Rightarrow> bool" for N where
  take: "i < N \<Longrightarrow> lk_todo s i = q # qs \<Longrightarrow> free N s q \<Longrightarrow>
    lock_step N s (s\<lparr>lk_held := (lk_held s)(i := lk_held s i @ [q]), lk_todo := (lk_todo s)(i := qs)\<rparr>)"
| release: "i < N \<Longrightarrow> lk_todo s i = [] \<Longrightarrow> lk_held s i \<noteq> [] \<Longrightarrow> lock_step N s (s\<lparr>lk_held := (lk_held s)(i := [])\<rparr>)"

inductive lock_reachable :: "nat \<Rightarrow> (nat \<Rightarrow> resource_quota list) \<Rightarrow> locking \<Rightarrow> bool" for N quotas where
  init: "lock_reachable N quotas (lockAquisition quotas)"
| step: "lock_reachable N quotas s \<Longrightarrow> lock_step N s s' \<Longrightarrow> lock_reachable N quotas s'"

text \<open>A worker has taken the first locks of its list, or given all of them back.\<close>

lemma reachable_lists:
  "lock_reachable N quotas s \<Longrightarrow> lk_held s i @ lk_todo s i = by_name (quotas i) \<or> lk_held s i = [] \<and> lk_todo s i = []"
proof (induction rule: lock_reachable.induct)
  case init
  then show ?case by (simp add: lockAquisition_def)
next
  case (step s s')
  from step(2) show ?case
  proof cases
    case (take j q qs)
    with step.IH show ?thesis by (cases "i = j") auto
  next
    case (release j)
    with step.IH show ?thesis by (cases "i = j") auto
  qed
qed

text \<open>The quotas that two workers may want: those of workspaces, which have names of their own.\<close>

definition shared :: "nat \<Rightarrow> (nat \<Rightarrow> resource_quota list) \<Rightarrow> string \<Rightarrow> bool" where
  "shared N quotas u \<longleftrightarrow> (\<exists>i<N. \<exists>j<N. i \<noteq> j \<and> u \<in> rq_UID ` set (quotas i) \<and> u \<in> rq_UID ` set (quotas j))"

definition named_apart :: "nat \<Rightarrow> (nat \<Rightarrow> resource_quota list) \<Rightarrow> bool" where
  "named_apart N quotas \<longleftrightarrow>
     (\<forall>i<N. distinct (map rq_UID (quotas i)))
     \<and> (\<forall>i<N. \<forall>j<N. \<forall>p \<in> set (quotas i). \<forall>q \<in> set (quotas j). rq_UID p = rq_UID q \<longrightarrow> rq_Name p = rq_Name q)
     \<and> (\<forall>i<N. \<forall>p \<in> set (quotas i). \<forall>q \<in> set (quotas i).
          shared N quotas (rq_UID p) \<longrightarrow> shared N quotas (rq_UID q) \<longrightarrow> rq_Name p = rq_Name q \<longrightarrow> rq_UID p = rq_UID q)"

lemma by_name_props: "set (by_name qs) = set qs" "distinct (map rq_UID (by_name qs)) = distinct (map rq_UID qs)"
    "sorted (map rq_Name (by_name qs))"
  by (simp_all add: by_name_def distinct_map)

lemma worker_lists:
  assumes reach: "lock_reachable N quotas s" and apart: "named_apart N quotas"
    and i: "i < N" and busy: "lk_held s i \<noteq> [] \<or> lk_todo s i \<noteq> []"
  shows "set (lk_held s i) \<union> set (lk_todo s i) = set (quotas i)" and "distinct (map rq_UID (lk_held s i @ lk_todo s i))"
    and "\<And>p w. p \<in> set (lk_held s i) \<Longrightarrow> w \<in> set (lk_todo s i) \<Longrightarrow> rq_Name p \<le> rq_Name w"
proof -
  have eq: "lk_held s i @ lk_todo s i = by_name (quotas i)" using reachable_lists [OF reach] busy by auto
  show "set (lk_held s i) \<union> set (lk_todo s i) = set (quotas i)" using arg_cong [OF eq, of set] by (simp add: by_name_props)
  show "distinct (map rq_UID (lk_held s i @ lk_todo s i))" using apart i by (simp only: eq by_name_props named_apart_def)
  show "rq_Name p \<le> rq_Name w" if "p \<in> set (lk_held s i)" "w \<in> set (lk_todo s i)" for p w
    using by_name_props(3) [of "quotas i"] that by (simp add: eq [symmetric] sorted_append)
qed

lemma blocked_by_other:
  assumes reach: "lock_reachable N quotas s" and apart: "named_apart N quotas"
    and i: "i < N" and w: "lk_todo s i = w # ws" and blocked: "\<not> free N s w"
  shows "\<exists>j p. j < N \<and> p \<in> set (lk_held s j) \<and> rq_UID p = rq_UID w \<and> rq_Name p = rq_Name w \<and> shared N quotas (rq_UID w)"
proof -
  obtain j p where j: "j < N" and p: "p \<in> set (lk_held s j)" "rq_UID p = rq_UID w" using blocked by (auto simp: free_def)
  have li: "lk_held s i \<noteq> [] \<or> lk_todo s i \<noteq> []" and lj: "lk_held s j \<noteq> [] \<or> lk_todo s j \<noteq> []" using w p(1) by auto
  have "rq_UID w \<notin> rq_UID ` set (lk_held s i)" using worker_lists(2) [OF reach apart i li] w by auto
  then have "j \<noteq> i" using p by (metis image_eqI)
  have pj: "p \<in> set (quotas j)" using worker_lists(1) [OF reach apart j lj] p(1) by blast
  have wi: "w \<in> set (quotas i)" using worker_lists(1) [OF reach apart i li] w by auto
  have "rq_Name p = rq_Name w" using apart pj wi j i p(2) unfolding named_apart_def by blast
  moreover have "shared N quotas (rq_UID w)" using \<open>j \<noteq> i\<close> pj wi j i p(2) unfolding shared_def by (metis image_eqI)
  ultimately show ?thesis using j p by blast
qed

lemma waits_for_later:
  assumes reach: "lock_reachable N quotas s" and apart: "named_apart N quotas"
    and stuck: "\<And>s'. \<not> lock_step N s s'" and i: "i < N" "lk_todo s i \<noteq> []"
  shows "\<exists>j<N. lk_todo s j \<noteq> [] \<and> rq_Name (hd (lk_todo s i)) < rq_Name (hd (lk_todo s j))"
proof -
  obtain w ws where w: "lk_todo s i = w # ws" using i(2) by (cases "lk_todo s i") auto
  have "\<not> free N s w" using stuck lock_step.take [OF i(1) w] by blast
  then obtain j p where j: "j < N" and p: "p \<in> set (lk_held s j)" "rq_UID p = rq_UID w" "rq_Name p = rq_Name w"
      "shared N quotas (rq_UID w)"
    using blocked_by_other [OF reach apart i(1) w] by blast
  have held: "lk_held s j \<noteq> []" using p(1) by auto
  then have "lk_todo s j \<noteq> []" using stuck lock_step.release [OF j] by blast
  then obtain v vs where v: "lk_todo s j = v # vs" by (cases "lk_todo s j") auto
  have "\<not> free N s v" using stuck lock_step.take [OF j v] by blast
  then have "shared N quotas (rq_UID v)" using blocked_by_other [OF reach apart j v] by blast
  note lists = worker_lists [OF reach apart j disjI1 [OF held]]
  have "rq_UID v \<notin> rq_UID ` set (lk_held s j)" using lists(2) v by auto
  then have "rq_UID p \<noteq> rq_UID v" using p(1) by (metis image_eqI)
  moreover have "p \<in> set (quotas j)" "v \<in> set (quotas j)" using lists(1) p(1) v by auto
  ultimately have "rq_Name p \<noteq> rq_Name v"
    using apart j p(2,4) \<open>shared N quotas (rq_UID v)\<close> unfolding named_apart_def by metis
  moreover have "rq_Name p \<le> rq_Name v" using lists(3) [OF p(1), of v] v by simp
  ultimately show ?thesis using j v w p(3) by (intro exI [of _ j]) simp
qed

text \<open>
  C36: The workers never block one another for good: while one of them wants or holds locks of quotas, one can go on, because all
  of them lock the quotas that several may want in the order of their names. A quota of a namespace is only wanted by the
  worker of that namespace, and workspace quotas have different names.
\<close>

theorem quota_locks_no_deadlock:
  assumes reach: "lock_reachable N quotas s" and apart: "named_apart N quotas"
    and i: "i < N" "lk_todo s i \<noteq> [] \<or> lk_held s i \<noteq> []"
  shows "\<exists>s'. lock_step N s s'"
proof (rule ccontr)
  assume "\<nexists>s'. lock_step N s s'"
  then have stuck: "\<And>s'. \<not> lock_step N s s'" by blast
  let ?A = "{i. i < N \<and> lk_todo s i \<noteq> []}"
  let ?f = "\<lambda>i. rq_Name (hd (lk_todo s i))"
  have "i \<in> ?A" using i stuck lock_step.release [OF i(1)] by blast
  then have "Max (?f ` ?A) \<in> ?f ` ?A" by (intro Max_in) auto
  then obtain k where k: "k < N" "lk_todo s k \<noteq> []" "Max (?f ` ?A) = ?f k" by blast
  obtain j where j: "j < N" "lk_todo s j \<noteq> []" "?f k < ?f j" using waits_for_later [OF reach apart stuck k(1,2)] by blast
  have "?f j \<le> Max (?f ` ?A)" by (rule Max_ge) (use j in auto)
  with j(3) k(3) show False by simp
qed

definition two_workers :: "nat \<Rightarrow> resource_quota list" where
  "two_workers i = [demo_quota ''b'' 2 1, demo_quota ''a'' 2 1]"

theorem quota_locks_no_deadlock_witness:
  "\<exists>s'. lock_step 2 (lockAquisition two_workers) s'"
proof (rule quota_locks_no_deadlock [OF lock_reachable.init, of _ _ 0])
  show "named_apart 2 two_workers" by (auto simp: named_apart_def two_workers_def demo_quota_def)
  show "lk_todo (lockAquisition two_workers) 0 \<noteq> [] \<or> lk_held (lockAquisition two_workers) 0 \<noteq> []"
    by (simp add: lockAquisition_def two_workers_def by_name_def)
qed simp

end
