(* ===== verification/List_Query.thy ===== *)
theory List_Query
  imports Prelude "HOL-Library.Word" "HOL-Library.Multiset" "HOL-Library.List_Lexorder" "HOL-Library.Char_ord"
    "HOL-Library.Product_Lexorder"
begin

text \<open>
  Query parameters of list requests (\<^verbatim>\<open>pkg/apiserver/query\<close>) and the generic listing of objects that
  filters, sorts and pages them (\<^verbatim>\<open>pkg/models/resources/v1alpha3/interface.go\<close>). A Go \<^verbatim>\<open>int\<close> is a
  64-bit word read as signed; strings are ordered by bytes.
\<close>

section \<open>Numbers and flags in parameters\<close>

type_synonym int64 = "64 word"

definition digit_value :: "char \<Rightarrow> nat option" where
  "digit_value c = (let n = of_char c :: nat in if 48 \<le> n \<and> n \<le> 57 then Some (n - 48) else None)"

fun parse_digits :: "nat \<Rightarrow> string \<Rightarrow> nat option" where
  "parse_digits acc [] = Some acc"
| "parse_digits acc (c # s) =
     (case digit_value c of None \<Rightarrow> None | Some d \<Rightarrow> parse_digits (10 * acc + d) s)"

text \<open>\<^verbatim>\<open>strconv.Atoi\<close>: an optional sign, at least one digit, and a value in the range of the type.\<close>

definition Atoi :: "string \<Rightarrow> int64 option" where
  "Atoi s =
     (let (neg, ds) =
        (case s of
           [] \<Rightarrow> (False, [])
         | c # r \<Rightarrow> if c = CHR ''-'' then (True, r) else if c = CHR ''+'' then (False, r) else (False, s))
      in if ds = [] then None
         else
           (case parse_digits 0 ds of
              None \<Rightarrow> None
            | Some n \<Rightarrow>
                (let v = (if neg then - int n else int n) in
                 if - (2 ^ 63) \<le> v \<and> v < 2 ^ 63 then Some (word_of_int v) else None)))"

definition ParseBool :: "string \<Rightarrow> bool option" where
  "ParseBool s =
     (if s \<in> {''1'', ''t'', ''T'', ''true'', ''TRUE'', ''True''} then Some True
      else if s \<in> {''0'', ''f'', ''F'', ''false'', ''FALSE'', ''False''} then Some False
      else None)"

section \<open>Queries\<close>

record pagination =
  pg_Limit :: int64
  pg_Offset :: int64

record query =
  qr_Pagination :: "pagination option"
  qr_SortBy :: string
  qr_Ascending :: bool
  qr_Filters :: "(string, string) gomap"
  qr_LabelSelector :: string

definition newPagination :: "int64 \<Rightarrow> int64 \<Rightarrow> pagination" where
  "newPagination limit offset = \<lparr>pg_Limit = limit, pg_Offset = offset\<rparr>"

definition NoPagination :: pagination where
  "NoPagination = newPagination (- 1) 0"

definition GetValidPagination :: "pagination \<Rightarrow> int64 \<Rightarrow> int64 \<times> int64" where
  "GetValidPagination p total_items =
     (if pg_Limit p = pg_Limit NoPagination then (0, total_items)
      else if sint (pg_Limit p) < 0 \<or> sint (pg_Offset p) < 0 \<or> sint (pg_Offset p) > sint total_items then (0, 0)
      else
        (let startIndex = pg_Offset p;
             endIndex = startIndex + pg_Limit p
         in (startIndex, if sint endIndex > sint total_items then total_items else endIndex)))"

definition defaultString :: "string \<Rightarrow> string \<Rightarrow> string" where
  "defaultString v defaultValue = (if length v = 0 then defaultValue else v)"

text \<open>The query parameters of a request, each with its values; reading one gives its first value.\<close>

type_synonym url_values = "(string, string list) gomap"

definition QueryParameter :: "url_values \<Rightarrow> string \<Rightarrow> string" where
  "QueryParameter ps k = (case map_get [] ps k of [] \<Rightarrow> [] | v # _ \<Rightarrow> v)"

definition set_filters :: "url_values \<Rightarrow> (string, string) gomap" where
  "set_filters ps =
     fold (\<lambda>(k, vs) fs.
       if k \<in> {''page'', ''limit'', ''sortBy'', ''ascending'', ''labelSelector''} then fs
       else fold (\<lambda>v. AList.update k v) vs fs) ps []"

definition ParseQueryParameter :: "url_values \<Rightarrow> query" where
  "ParseQueryParameter ps =
     (let limit = (case Atoi (QueryParameter ps ''limit'') of None \<Rightarrow> - 1 | Some n \<Rightarrow> n);
          page = (case Atoi (QueryParameter ps ''page'') of None \<Rightarrow> 1 | Some n \<Rightarrow> n)
      in \<lparr>qr_Pagination = Some (newPagination limit ((page - 1) * limit)),
          qr_SortBy = defaultString (QueryParameter ps ''sortBy'') ''creationTimestamp'',
          qr_Ascending =
            (case ParseBool (defaultString (QueryParameter ps ''ascending'') ''false'') of
               None \<Rightarrow> False | Some b \<Rightarrow> b),
          qr_Filters = set_filters ps,
          qr_LabelSelector = QueryParameter ps ''labelSelector''\<rparr>)"

section \<open>Listing objects\<close>

record 'a list_result =
  lr_TotalItems :: nat
  lr_Items :: "'a list"

text \<open>
  \<^verbatim>\<open>sort.Slice\<close> is a parameter; its contract is the locale below. A slice expression out of range
  panics: the result is \<^const>\<open>None\<close>.
\<close>

definition filtered_objects ::
  "'a list \<Rightarrow> (string, string) gomap \<Rightarrow> ('a \<Rightarrow> string \<times> string \<Rightarrow> bool) \<Rightarrow> ('a \<Rightarrow> 'a) list \<Rightarrow> 'a list" where
  "filtered_objects objects filters filterFunc transformFuncs =
     map (\<lambda>object. fold (\<lambda>transform. transform) transformFuncs object)
       (filter (\<lambda>object. list_all (\<lambda>fv. filterFunc object fv) filters) objects)"

definition DefaultList ::
  "(('a \<Rightarrow> 'a \<Rightarrow> bool) \<Rightarrow> 'a list \<Rightarrow> 'a list) \<Rightarrow> 'a list \<Rightarrow> query \<Rightarrow> ('a \<Rightarrow> 'a \<Rightarrow> string \<Rightarrow> bool) \<Rightarrow>
   ('a \<Rightarrow> string \<times> string \<Rightarrow> bool) \<Rightarrow> ('a \<Rightarrow> 'a) list \<Rightarrow> 'a list_result option" where
  "DefaultList sortSlice objects q compareFunc filterFunc transformFuncs =
     (let filtered = filtered_objects objects (qr_Filters q) filterFunc transformFuncs;
          less = (\<lambda>x y. if \<not> qr_Ascending q then compareFunc x y (qr_SortBy q) else \<not> compareFunc x y (qr_SortBy q));
          sorted_items = sortSlice less filtered;
          p = (case qr_Pagination q of None \<Rightarrow> NoPagination | Some p \<Rightarrow> p);
          (start, endIndex) = GetValidPagination p (word_of_nat (length sorted_items))
      in map_option (\<lambda>items. \<lparr>lr_TotalItems = length sorted_items, lr_Items = items\<rparr>)
           (Prelude.slice sorted_items (sint start) (sint endIndex)))"

record owner_reference =
  or_UID :: string
  or_Kind :: string

record list_meta =
  lm_Name :: string
  lm_Namespace :: string
  lm_UID :: string
  lm_CreationTimestamp :: int
  lm_OwnerReferences :: "owner_reference list"
  lm_Annotations :: "(string, string) gomap"
  lm_Labels :: "(string, string) gomap"

definition DefaultObjectMetaCompare :: "list_meta \<Rightarrow> list_meta \<Rightarrow> string \<Rightarrow> bool" where
  "DefaultObjectMetaCompare left right sortBy =
     (if sortBy = ''name'' then lm_Name right < lm_Name left
      else if lm_CreationTimestamp left = lm_CreationTimestamp right then lm_Name right < lm_Name left
      else lm_CreationTimestamp right < lm_CreationTimestamp left)"

text \<open>Matching labels against the text of a selector is the label library's, a parameter.\<close>

definition DefaultObjectMetaFilter ::
  "((string, string) gomap \<Rightarrow> string \<Rightarrow> bool) \<Rightarrow> list_meta \<Rightarrow> string \<times> string \<Rightarrow> bool" where
  "DefaultObjectMetaFilter labelMatch item fv =
     (let (field, v) = fv in
      if field = ''names'' then list_ex (\<lambda>name. lm_Name item = name) (SplitChar (CHR '','') v)
      else if field = ''name'' then Contains (lm_Name item) v
      else if field = ''uid'' then lm_UID item = v
      else if field = ''namespace'' then lm_Namespace item = v
      else if field = ''ownerReference'' then list_ex (\<lambda>r. or_UID r = v) (lm_OwnerReferences item)
      else if field = ''ownerKind'' then list_ex (\<lambda>r. or_Kind r = v) (lm_OwnerReferences item)
      else if field = ''annotation'' then labelMatch (lm_Annotations item) v
      else if field = ''label'' then labelMatch (lm_Labels item) v
      else False)"

section \<open>Pages\<close>

lemma sint_range: "- (2 ^ 63) \<le> sint (w :: int64)" "sint (w :: int64) < 2 ^ 63"
  using sint_greater_eq [of w] sint_less [of w] by simp_all

lemma sint_of_int64: "- (2 ^ 63) \<le> k \<Longrightarrow> k < 2 ^ 63 \<Longrightarrow> sint (word_of_int k :: int64) = k"
  by (simp add: sint_sbintrunc' signed_take_bit_int_eq_self)

lemma sint_add_nonneg:
  assumes "0 \<le> sint (a :: int64)" "0 \<le> sint b"
  shows "sint (a + b) = (if sint a + sint b < 2 ^ 63 then sint a + sint b else sint a + sint b - 2 ^ 64)"
proof -
  define k where "k = sint a + sint b"
  have k: "0 \<le> k" "k < 2 ^ 64" using assms sint_range [of a] sint_range [of b] by (simp_all add: k_def)
  have "sint (a + b) = (k + 2 ^ 63) mod 2 ^ 64 - 2 ^ 63"
    by (simp add: sint_word_ariths signed_take_bit_eq_take_bit_shift take_bit_eq_mod k_def)
  moreover have "(k + 2 ^ 63) mod 2 ^ 64 = k + 2 ^ 63" if "k < 2 ^ 63" using that k by simp
  moreover have "(k + 2 ^ 63) mod 2 ^ 64 = k + 2 ^ 63 - 2 ^ 64" if "\<not> k < 2 ^ 63"
  proof -
    have "(k + 2 ^ 63 - 2 ^ 64) mod 2 ^ 64 = (k + 2 ^ 63) mod 2 ^ 64" by (rule minus_mod_self2)
    moreover have "(k + 2 ^ 63 - 2 ^ 64) mod 2 ^ 64 = k + 2 ^ 63 - 2 ^ 64" using that k by simp
    ultimately show ?thesis by simp
  qed
  ultimately show ?thesis by (simp add: k_def)
qed

lemma sint_minus_one: "sint (- 1 :: int64) = - 1"
  by simp

text \<open>The number of items of a slice is a valid \<^verbatim>\<open>int\<close>.\<close>

definition fits :: "'a list \<Rightarrow> bool" where
  "fits xs \<longleftrightarrow> int (length xs) < 2 ^ 63"

lemma sint_length: "fits xs \<Longrightarrow> sint (word_of_nat (length xs) :: int64) = int (length xs)"
  using sint_of_int64 [of "int (length xs)"] by (simp add: fits_def)

definition page_of :: "pagination \<Rightarrow> 'a list \<Rightarrow> 'a list option" where
  "page_of p xs =
     (let (start, endIndex) = GetValidPagination p (word_of_nat (length xs))
      in Prelude.slice xs (sint start) (sint endIndex))"

lemma DefaultList_page:
  "DefaultList sortSlice objects q compareFunc filterFunc transformFuncs =
     (let filtered = filtered_objects objects (qr_Filters q) filterFunc transformFuncs;
          less = (\<lambda>x y. if \<not> qr_Ascending q then compareFunc x y (qr_SortBy q) else \<not> compareFunc x y (qr_SortBy q));
          sorted_items = sortSlice less filtered
      in map_option (\<lambda>items. \<lparr>lr_TotalItems = length sorted_items, lr_Items = items\<rparr>)
           (page_of (case qr_Pagination q of None \<Rightarrow> NoPagination | Some p \<Rightarrow> p) sorted_items))"
  by (simp add: DefaultList_def page_of_def Let_def split: prod.splits)

text \<open>What a page contains, and exactly when cutting it out panics: when the end of the page overflows.\<close>

lemma page_of_spec:
  assumes "fits xs"
  shows "page_of p xs =
    (if pg_Limit p = - 1 then Some xs
     else if sint (pg_Limit p) < 0 \<or> sint (pg_Offset p) < 0 \<or> sint (pg_Offset p) > int (length xs) then Some []
     else if sint (pg_Offset p) + sint (pg_Limit p) \<ge> 2 ^ 63 then None
     else Some (take (nat (sint (pg_Limit p))) (drop (nat (sint (pg_Offset p))) xs)))"
proof -
  let ?l = "sint (pg_Limit p)" and ?o = "sint (pg_Offset p)"
  note len = sint_length [OF assms]
  have slice_empty: "Prelude.slice xs 0 0 = Some []" by (simp add: Prelude.slice_def)
  consider (none) "pg_Limit p = - 1" | (range) "pg_Limit p \<noteq> - 1" "?l < 0 \<or> ?o < 0 \<or> ?o > int (length xs)"
    | (over) "pg_Limit p \<noteq> - 1" "\<not> (?l < 0 \<or> ?o < 0 \<or> ?o > int (length xs))" "?o + ?l \<ge> 2 ^ 63"
    | (ok) "pg_Limit p \<noteq> - 1" "\<not> (?l < 0 \<or> ?o < 0 \<or> ?o > int (length xs))" "?o + ?l < 2 ^ 63"
    by linarith
  then show ?thesis
  proof cases
    case none
    then show ?thesis by (simp add: page_of_def GetValidPagination_def NoPagination_def newPagination_def len)
  next
    case range
    then show ?thesis
      by (auto simp: page_of_def GetValidPagination_def NoPagination_def newPagination_def len slice_empty)
  next
    case over
    then have "sint (pg_Offset p + pg_Limit p) < 0"
      using sint_add_nonneg [of "pg_Offset p" "pg_Limit p"] sint_range [of "pg_Offset p"] sint_range [of "pg_Limit p"]
      by simp
    with over show ?thesis
      by (auto simp: page_of_def GetValidPagination_def NoPagination_def newPagination_def len Prelude.slice_def Let_def)
  next
    case ok
    then have "sint (pg_Offset p + pg_Limit p) = ?o + ?l"
      using sint_add_nonneg [of "pg_Offset p" "pg_Limit p"] by simp
    moreover have "take (nat (?o + ?l) - nat ?o) (drop (nat ?o) xs) = take (nat ?l) (drop (nat ?o) xs)"
      using ok by (simp add: nat_add_distrib)
    moreover have "take (length xs - nat ?o) (drop (nat ?o) xs) = take (nat ?l) (drop (nat ?o) xs)"
      if "int (length xs) < ?o + ?l" using ok that by simp
    ultimately show ?thesis
      using ok by (auto simp: page_of_def GetValidPagination_def NoPagination_def newPagination_def len
          Prelude.slice_def Let_def)
  qed
qed

text \<open>
  What a query asks for of a whole listing, on unbounded integers: everything without a limit, nothing with a negative
  limit or offset or an offset beyond the end, and otherwise the given number of items from the offset on. The end of
  the page may not be computable in 64 bits.
\<close>

definition query_page :: "query \<Rightarrow> pagination" where
  "query_page q = (case qr_Pagination q of None \<Rightarrow> NoPagination | Some p \<Rightarrow> p)"

definition unlimited :: "query \<Rightarrow> bool" where
  "unlimited q \<longleftrightarrow> pg_Limit (query_page q) = - 1"

definition page_overflows :: "query \<Rightarrow> bool" where
  "page_overflows q \<longleftrightarrow> 0 \<le> sint (pg_Limit (query_page q)) \<and> 0 \<le> sint (pg_Offset (query_page q)) \<and>
     2 ^ 63 \<le> sint (pg_Offset (query_page q)) + sint (pg_Limit (query_page q))"

definition page_items :: "query \<Rightarrow> 'a list \<Rightarrow> 'a list" where
  "page_items q xs =
     (let limit = sint (pg_Limit (query_page q)); offset = sint (pg_Offset (query_page q))
      in if unlimited q then xs
         else if limit < 0 \<or> offset < 0 then []
         else take (nat limit) (drop (nat offset) xs))"

lemma page_of_items: "fits xs \<Longrightarrow> \<not> page_overflows q \<Longrightarrow> page_of (query_page q) xs = Some (page_items q xs)"
  by (auto simp: page_of_spec page_overflows_def page_items_def unlimited_def Let_def)

lemma page_items_unlimited: "unlimited q \<Longrightarrow> page_items q xs = xs"
  by (simp add: page_items_def)

lemma page_items_filters [simp]: "page_items (q\<lparr>qr_Filters := fs\<rparr>) xs = page_items q xs"
  "page_overflows (q\<lparr>qr_Filters := fs\<rparr>) = page_overflows q"
  by (simp_all add: page_items_def query_page_def unlimited_def page_overflows_def)

lemma unlimited_fits: "unlimited q \<Longrightarrow> \<not> page_overflows q"
  by (auto simp: unlimited_def page_overflows_def sint_minus_one)

text \<open>A request without a readable limit asks for everything.\<close>

lemma ParseQueryParameter_unlimited:
  "Atoi (QueryParameter request ''limit'') = None \<Longrightarrow> unlimited (ParseQueryParameter request)"
  by (simp add: unlimited_def query_page_def ParseQueryParameter_def Let_def newPagination_def)

text \<open>The page of a request with the parameters \<open>page=k\<close> and \<open>limit=l\<close>.\<close>

definition requested_page :: "nat \<Rightarrow> nat \<Rightarrow> pagination" where
  "requested_page k l = newPagination (word_of_nat l) ((word_of_nat k - 1) * word_of_nat l)"

lemma less_2_63: "n < 2 ^ 63 \<Longrightarrow> int n < 2 ^ 63"
  by simp

lemma requested_page_fields:
  assumes "0 < l" "(j + 1) * l < 2 ^ 63"
  shows "sint (pg_Limit (requested_page (Suc j) l)) = int l"
    "sint (pg_Offset (requested_page (Suc j) l)) = int (j * l)"
    "pg_Limit (requested_page (Suc j) l) \<noteq> - 1"
proof -
  have "l \<le> (j + 1) * l" "j * l \<le> (j + 1) * l" by simp_all
  then have l: "int l < 2 ^ 63" and jl: "int (j * l) < 2 ^ 63"
    using assms(2) less_2_63 [of l] less_2_63 [of "j * l"] by linarith+
  show 1: "sint (pg_Limit (requested_page (Suc j) l)) = int l"
    using sint_of_int64 [of "int l"] l by (simp add: requested_page_def newPagination_def)
  show "pg_Limit (requested_page (Suc j) l) \<noteq> - 1" using 1 by auto
  have "pg_Offset (requested_page (Suc j) l) = word_of_int (int (j * l))"
    by (simp add: requested_page_def newPagination_def)
  moreover have "sint (word_of_int (int (j * l)) :: int64) = int (j * l)"
    by (rule sint_of_int64 [OF _ jl]) (rule order_trans [OF _ of_nat_0_le_iff], simp)
  ultimately show "sint (pg_Offset (requested_page (Suc j) l)) = int (j * l)" by (simp only:)
qed

lemma page_of_requested:
  assumes "fits xs" "0 < l" "(j + 1) * l < 2 ^ 63"
  shows "page_of (requested_page (Suc j) l) xs = Some (take l (drop (j * l) xs))"
proof -
  note f = requested_page_fields [OF assms(2,3)]
  have "int (j * l) + int l < 2 ^ 63"
    using less_2_63 [OF assms(3)] by (simp add: algebra_simps)
  moreover have "take l (drop (j * l) xs) = []" if "int (j * l) > int (length xs)"
  proof -
    have "length xs < j * l" using that by linarith
    then show ?thesis by simp
  qed
  ultimately show ?thesis unfolding page_of_spec [OF assms(1)] f
    by (simp add: f(3) nat_mult_distrib mult_less_0_iff)
qed

lemma requested_pages:
  "fits xs \<Longrightarrow> 0 < l \<Longrightarrow> n * l < 2 ^ 63 \<Longrightarrow>
   concat (map (\<lambda>j. the (page_of (requested_page (Suc j) l) xs)) [0..<n]) = take (n * l) xs"
proof (induction n)
  case (Suc n)
  then have "page_of (requested_page (Suc n) l) xs = Some (take l (drop (n * l) xs))"
    by (intro page_of_requested) auto
  moreover have "take (Suc n * l) xs = take (n * l) xs @ take l (drop (n * l) xs)"
    by (simp add: take_add [symmetric] add.commute)
  ultimately show ?case using Suc by simp
qed simp

section \<open>Sorting\<close>

definition strict_weak :: "('a \<Rightarrow> 'a \<Rightarrow> bool) \<Rightarrow> 'a set \<Rightarrow> bool" where
  "strict_weak lt A \<longleftrightarrow>
     (\<forall>x\<in>A. \<not> lt x x) \<and>
     (\<forall>x\<in>A. \<forall>y\<in>A. \<forall>z\<in>A. lt x y \<longrightarrow> lt y z \<longrightarrow> lt x z) \<and>
     (\<forall>x\<in>A. \<forall>y\<in>A. \<forall>z\<in>A. \<not> lt x y \<longrightarrow> \<not> lt y z \<longrightarrow> \<not> lt x z)"

text \<open>
  The contract of \<^verbatim>\<open>sort.Slice\<close>: it permutes the slice whatever the comparison, and sorts it when the
  comparison is a strict weak order.
\<close>

locale slice_sort =
  fixes sortSlice :: "('a \<Rightarrow> 'a \<Rightarrow> bool) \<Rightarrow> 'a list \<Rightarrow> 'a list"
  assumes permutes: "mset (sortSlice lt xs) = mset xs"
    and sorts: "strict_weak lt (set xs) \<Longrightarrow> sorted_wrt (\<lambda>x y. \<not> lt y x) (sortSlice lt xs)"
begin

lemma length_sort [simp]: "length (sortSlice lt xs) = length xs"
  using permutes by (metis size_mset)

lemma set_sort [simp]: "set (sortSlice lt xs) = set xs"
  using permutes by (metis set_mset_mset)

lemma sort_page:
  assumes "strict_weak lt (set xs)" "fits xs" "page_of p (sortSlice lt xs) = Some items"
  shows "sorted_wrt (\<lambda>x y. \<not> lt y x) items \<and> set items \<subseteq> set xs"
proof -
  have "fits (sortSlice lt xs)" using assms(2) by (simp add: fits_def)
  from page_of_spec [OF this, of p] assms(3)
  have "items = sortSlice lt xs \<or> items = [] \<or>
      items = take (nat (sint (pg_Limit p))) (drop (nat (sint (pg_Offset p))) (sortSlice lt xs))"
    by (auto split: if_splits)
  then show ?thesis
    using sorts [OF assms(1)]
    by (auto simp: sorted_wrt_take sorted_wrt_drop dest!: in_set_takeD in_set_dropD)
qed

end

text \<open>The insertion sort \<^verbatim>\<open>sort.Slice\<close> uses on a short slice: each element sinks to the left while it is less.\<close>

fun sink :: "('a \<Rightarrow> 'a \<Rightarrow> bool) \<Rightarrow> 'a \<Rightarrow> 'a list \<Rightarrow> 'a list" where
  "sink lt x [] = [x]"
| "sink lt x (y # left) = (if lt x y then y # sink lt x left else x # y # left)"

definition insertionSort :: "('a \<Rightarrow> 'a \<Rightarrow> bool) \<Rightarrow> 'a list \<Rightarrow> 'a list" where
  "insertionSort lt xs = rev (fold (sink lt) xs [])"

lemma mset_sink [simp]: "mset (sink lt x left) = add_mset x (mset left)"
  by (induction left) auto

lemma mset_fold_sink: "mset (fold (sink lt) xs acc) = mset xs + mset acc"
  by (induction xs arbitrary: acc) auto

lemma sorted_sink:
  "strict_weak lt A \<Longrightarrow> insert x (set left) \<subseteq> A \<Longrightarrow> sorted_wrt (\<lambda>x y. \<not> lt x y) left \<Longrightarrow>
   sorted_wrt (\<lambda>x y. \<not> lt x y) (sink lt x left)"
proof (induction left)
  case (Cons y left)
  have set: "set (sink lt x left) = insert x (set left)"
    by (metis mset_sink set_mset_add_mset_insert set_mset_mset)
  show ?case
  proof (cases "lt x y")
    case True
    have "x \<in> A" "y \<in> A" using Cons.prems(2) by auto
    with True have "\<not> lt y x" using Cons.prems(1) unfolding strict_weak_def by blast
    with True Cons set show ?thesis by auto
  next
    case False
    have "\<not> lt x z" if "z \<in> set left" for z
    proof -
      have "x \<in> A" "y \<in> A" "z \<in> A" "\<not> lt y z" using Cons.prems(2,3) that by auto
      with False Cons.prems(1) show ?thesis unfolding strict_weak_def by blast
    qed
    with False Cons.prems show ?thesis by auto
  qed
qed simp

lemma sorted_fold_sink:
  "strict_weak lt A \<Longrightarrow> set xs \<union> set acc \<subseteq> A \<Longrightarrow> sorted_wrt (\<lambda>x y. \<not> lt x y) acc \<Longrightarrow>
   sorted_wrt (\<lambda>x y. \<not> lt x y) (fold (sink lt) xs acc)"
proof (induction xs arbitrary: acc)
  case (Cons x xs)
  have "set (sink lt x acc) = insert x (set acc)" by (metis mset_sink set_mset_add_mset_insert set_mset_mset)
  with Cons.prems have "set xs \<union> set (sink lt x acc) \<subseteq> A" by auto
  moreover have "sorted_wrt (\<lambda>x y. \<not> lt x y) (sink lt x acc)" using Cons.prems by (intro sorted_sink) auto
  ultimately show ?case using Cons.IH Cons.prems(1) by simp
qed simp

interpretation insertion: slice_sort insertionSort
proof
  show "mset (insertionSort lt xs) = mset xs" for lt :: "'a \<Rightarrow> 'a \<Rightarrow> bool" and xs
    by (simp add: insertionSort_def mset_fold_sink)
  show "sorted_wrt (\<lambda>x y. \<not> lt y x) (insertionSort lt xs)" if "strict_weak lt (set xs)"
    for lt :: "'a \<Rightarrow> 'a \<Rightarrow> bool" and xs
    using sorted_fold_sink [OF that, of xs "[]"] by (simp add: insertionSort_def sorted_wrt_rev)
qed

lemma strict_weak_subset: "strict_weak lt A \<Longrightarrow> B \<subseteq> A \<Longrightarrow> strict_weak lt B"
  unfolding strict_weak_def by blast

lemma strict_weak_key: "strict_weak (\<lambda>x y. key y < (key x :: 'b :: linorder)) A"
  unfolding strict_weak_def by auto

lemma DefaultObjectMetaCompare_strict:
  "strict_weak (\<lambda>x y. DefaultObjectMetaCompare (meta x) (meta y) field) A"
proof (cases "field = ''name''")
  case True
  then show ?thesis
    using strict_weak_key [of "\<lambda>x. lm_Name (meta x)" A] by (simp add: DefaultObjectMetaCompare_def)
next
  case False
  have "(\<lambda>x y. DefaultObjectMetaCompare (meta x) (meta y) field) =
      (\<lambda>x y. (lm_CreationTimestamp (meta y), lm_Name (meta y)) < (lm_CreationTimestamp (meta x), lm_Name (meta x)))"
    using False by (auto simp: DefaultObjectMetaCompare_def fun_eq_iff)
  then show ?thesis
    using strict_weak_key [of "\<lambda>x. (lm_CreationTimestamp (meta x), lm_Name (meta x))" A] by simp
qed

definition matching :: "(string, string) gomap \<Rightarrow> ('a \<Rightarrow> string \<times> string \<Rightarrow> bool) \<Rightarrow> 'a \<Rightarrow> bool" where
  "matching filters filterFunc object \<longleftrightarrow> (\<forall>fv \<in> set filters. filterFunc object fv)"

lemma filtered_objects_plain: "filtered_objects objects filters filterFunc [] = filter (matching filters filterFunc) objects"
  by (simp add: filtered_objects_def matching_def [abs_def] list_all_iff)

lemma length_filtered_objects:
  "length (filtered_objects objects filters filterFunc ts) = length (filter (matching filters filterFunc) objects)"
  by (simp add: filtered_objects_def matching_def [abs_def] list_all_iff)

lemma fits_filter: "fits objects \<Longrightarrow> fits (filter P objects)"
  unfolding fits_def by (rule le_less_trans [of _ "int (length objects)"]) auto

text \<open>
  C38: Listing objects panics for exactly one kind of request: a limit that is not negative and an offset within
  the matching objects whose sum exceeds the largest integer. No other limit, page, filter or order makes
  the slice expression fail.
\<close>

theorem DefaultList_panics_iff:
  assumes "slice_sort sortSlice" "fits objects"
  shows "DefaultList sortSlice objects q compareFunc filterFunc transformFuncs = None \<longleftrightarrow>
    (\<exists>p. qr_Pagination q = Some p \<and> 0 \<le> sint (pg_Limit p) \<and> 0 \<le> sint (pg_Offset p) \<and>
      sint (pg_Offset p) \<le> int (length (filter (matching (qr_Filters q) filterFunc) objects)) \<and>
      sint (pg_Offset p) + sint (pg_Limit p) \<ge> 2 ^ 63)"
proof -
  let ?items = "sortSlice (\<lambda>x y. if \<not> qr_Ascending q then compareFunc x y (qr_SortBy q) else \<not> compareFunc x y (qr_SortBy q))
    (filtered_objects objects (qr_Filters q) filterFunc transformFuncs)"
  have len: "length ?items = length (filter (matching (qr_Filters q) filterFunc) objects)"
    by (simp add: slice_sort.length_sort [OF assms(1)] length_filtered_objects)
  have fits: "fits ?items" using fits_filter [OF assms(2)] len by (simp add: fits_def)
  have "sint (- 1 :: int64) = - 1" by simp
  then have "pg_Limit p = - 1 \<Longrightarrow> \<not> 0 \<le> sint (pg_Limit p)" for p by (metis neg_0_le_iff_le not_one_le_zero)
  then show ?thesis
    by (auto simp: DefaultList_page Let_def page_of_spec [OF fits] len NoPagination_def newPagination_def
        split: option.splits)
qed

lemma DefaultList_all_pages:
  assumes "slice_sort sortSlice" "fits objects" "0 < l" "n * l < 2 ^ 63" "length objects \<le> n * l"
    and "\<not> qr_Ascending q"
    and strict: "strict_weak (\<lambda>x y. compareFunc x y (qr_SortBy q)) (set objects)"
    and "items = concat (map (\<lambda>k. lr_Items (the (DefaultList sortSlice objects
           (q\<lparr>qr_Pagination := Some (requested_page (Suc k) l)\<rparr>) compareFunc filterFunc []))) [0..<n])"
  shows "mset items = mset (filter (matching (qr_Filters q) filterFunc) objects) \<and>
    sorted_wrt (\<lambda>x y. \<not> compareFunc y x (qr_SortBy q)) items"
proof -
  let ?lt = "\<lambda>x y. compareFunc x y (qr_SortBy q)"
  let ?match = "filter (matching (qr_Filters q) filterFunc) objects"
  let ?all = "sortSlice ?lt ?match"
  have len: "length ?all = length ?match" by (simp add: slice_sort.length_sort [OF assms(1)])
  have fits: "fits ?all" using fits_filter [OF assms(2)] len by (simp add: fits_def)
  have "the (DefaultList sortSlice objects (q\<lparr>qr_Pagination := Some (requested_page (Suc k) l)\<rparr>) compareFunc filterFunc []) =
      \<lparr>lr_TotalItems = length ?all, lr_Items = the (page_of (requested_page (Suc k) l) ?all)\<rparr>" if "k < n" for k
  proof -
    have "Suc k * l \<le> n * l" using that by (intro mult_le_mono1) simp
    then have "(k + 1) * l < 2 ^ 63" using assms(4) by simp
    from page_of_requested [OF fits assms(3) this] show ?thesis
      by (simp add: DefaultList_page Let_def assms(6) filtered_objects_plain)
  qed
  then have "items = concat (map (\<lambda>k. the (page_of (requested_page (Suc k) l) ?all)) [0..<n])"
    unfolding assms(8) by (intro arg_cong [where f = concat] map_cong) auto
  also have "\<dots> = take (n * l) ?all" by (rule requested_pages [OF fits assms(3,4)])
  also have "\<dots> = ?all"
    by (rule take_all) (rule order_trans [OF eq_refl [OF len] order_trans [OF length_filter_le assms(5)]])
  finally have "items = ?all" .
  moreover have "strict_weak ?lt (set ?match)" by (rule strict_weak_subset [OF strict]) auto
  ultimately show ?thesis
    using slice_sort.permutes [OF assms(1)] slice_sort.sorts [OF assms(1)] by simp
qed

lemma DefaultList_requested:
  assumes "slice_sort sortSlice" "fits objects" "0 < l" "(k + 1) * l < 2 ^ 63"
    and "qr_Pagination q = Some (requested_page (Suc k) l)"
  shows "DefaultList sortSlice objects q compareFunc filterFunc transformFuncs \<noteq> None"
proof -
  let ?items = "sortSlice (\<lambda>x y. if \<not> qr_Ascending q then compareFunc x y (qr_SortBy q) else \<not> compareFunc x y (qr_SortBy q))
    (filtered_objects objects (qr_Filters q) filterFunc transformFuncs)"
  have "fits ?items"
    using fits_filter [OF assms(2), of "matching (qr_Filters q) filterFunc"]
    by (simp add: fits_def slice_sort.length_sort [OF assms(1)] length_filtered_objects)
  from page_of_requested [OF this assms(3,4)] show ?thesis by (simp add: DefaultList_page Let_def assms(5))
qed

lemma DefaultList_listed:
  assumes "slice_sort sortSlice" "fits objects" "\<not> page_overflows q"
  shows "\<exists>r all. DefaultList sortSlice objects q compareFunc filterFunc transformFuncs = Some r \<and>
    lr_Items r = page_items q all \<and> lr_TotalItems r = length all \<and>
    mset all = mset (filtered_objects objects (qr_Filters q) filterFunc transformFuncs)"
proof -
  let ?items = "sortSlice (\<lambda>x y. if \<not> qr_Ascending q then compareFunc x y (qr_SortBy q) else \<not> compareFunc x y (qr_SortBy q))
    (filtered_objects objects (qr_Filters q) filterFunc transformFuncs)"
  have "fits ?items"
    using fits_filter [OF assms(2), of "matching (qr_Filters q) filterFunc"]
    by (simp add: fits_def slice_sort.length_sort [OF assms(1)] length_filtered_objects)
  from page_of_items [OF this assms(3)] show ?thesis
    by (auto simp: DefaultList_page Let_def query_page_def intro!: exI [of _ ?items]
        simp: slice_sort.permutes [OF assms(1)])
qed

lemma slice_subset: "Prelude.slice xs i j = Some ys \<Longrightarrow> set ys \<subseteq> set xs"
  by (auto simp: Prelude.slice_def split: if_splits dest!: in_set_takeD in_set_dropD)

lemma DefaultList_items:
  assumes "slice_sort sortSlice" "DefaultList sortSlice objects q compareFunc filterFunc transformFuncs = Some r"
  shows "set (lr_Items r) \<subseteq> set (filtered_objects objects (qr_Filters q) filterFunc transformFuncs)"
proof -
  let ?items = "sortSlice (\<lambda>x y. if \<not> qr_Ascending q then compareFunc x y (qr_SortBy q) else \<not> compareFunc x y (qr_SortBy q))
    (filtered_objects objects (qr_Filters q) filterFunc transformFuncs)"
  obtain i j where "Prelude.slice ?items i j = Some (lr_Items r)"
    using assms(2) by (auto simp: DefaultList_def Let_def split: prod.splits)
  from slice_subset [OF this] show ?thesis by (simp add: slice_sort.set_sort [OF assms(1)])
qed

text \<open>
  Pages taken one after the other are the whole listing: with the default, descending order the pages 1 to
  \<open>n\<close> of a request put together contain every object that matches all filters, as often as it occurs and
  no other, newest first and by name among objects of the same age.
\<close>

theorem DefaultList_pages:
  assumes "slice_sort sortSlice" "fits objects" "0 < l" "n * l < 2 ^ 63" "length objects \<le> n * l"
    and "\<not> qr_Ascending q"
    and "items = concat (map (\<lambda>k. lr_Items (the (DefaultList sortSlice objects
           (q\<lparr>qr_Pagination := Some (requested_page (Suc k) l)\<rparr>)
           (\<lambda>x y. DefaultObjectMetaCompare (meta x) (meta y)) filterFunc []))) [0..<n])"
  shows "mset items = mset (filter (matching (qr_Filters q) filterFunc) objects) \<and>
    sorted_wrt (\<lambda>x y. \<not> DefaultObjectMetaCompare (meta y) (meta x) (qr_SortBy q)) items"
  by (rule DefaultList_all_pages [OF assms(1-6) DefaultObjectMetaCompare_strict assms(7)])

section \<open>Witnesses\<close>

definition demo_request :: url_values where
  "demo_request = [(''page'', [''-1'']), (''limit'', [''9223372036854775807''])]"

lemma demo_request_page:
  "qr_Pagination (ParseQueryParameter demo_request) = Some \<lparr>pg_Limit = 9223372036854775807, pg_Offset = 2\<rparr>"
  by (simp add: ParseQueryParameter_def demo_request_def QueryParameter_def map_get_def Atoi_def digit_value_def
      newPagination_def Let_def)

definition demo_meta :: "string \<Rightarrow> list_meta" where
  "demo_meta n = \<lparr>lm_Name = n, lm_Namespace = ''ns'', lm_UID = n, lm_CreationTimestamp = 0, lm_OwnerReferences = [],
     lm_Annotations = [], lm_Labels = []\<rparr>"

theorem DefaultList_panics_iff_witness:
  "DefaultList insertionSort [demo_meta ''a'', demo_meta ''b''] (ParseQueryParameter demo_request)
     DefaultObjectMetaCompare (DefaultObjectMetaFilter (\<lambda>_ _. True)) [] = None"
proof -
  have filters: "qr_Filters (ParseQueryParameter demo_request) = []"
    by (simp add: ParseQueryParameter_def demo_request_def set_filters_def Let_def)
  have "fits [demo_meta ''a'', demo_meta ''b'']" by (simp add: fits_def)
  from DefaultList_panics_iff [OF insertion.slice_sort_axioms this, of "ParseQueryParameter demo_request"] show ?thesis
    by (simp add: demo_request_page filters matching_def)
qed

theorem DefaultList_pages_witness:
  "\<exists>items. items = concat (map (\<lambda>k. lr_Items (the (DefaultList insertionSort (map demo_meta [''a'', ''b'', ''c''])
       ((ParseQueryParameter [])\<lparr>qr_Pagination := Some (requested_page (Suc k) 2)\<rparr>)
       (\<lambda>x y. DefaultObjectMetaCompare (id x) (id y)) (DefaultObjectMetaFilter (\<lambda>_ _. True)) []))) [0..<2]) \<and>
     mset items = mset (map demo_meta [''a'', ''b'', ''c''])"
proof -
  have q: "qr_Filters (ParseQueryParameter []) = []" "\<not> qr_Ascending (ParseQueryParameter [])"
    by (simp_all add: ParseQueryParameter_def set_filters_def Let_def QueryParameter_def map_get_def defaultString_def
        ParseBool_def)
  show ?thesis
    using DefaultList_pages [OF insertion.slice_sort_axioms, of "map demo_meta [''a'', ''b'', ''c'']" 2 2
        "ParseQueryParameter []" _ id "DefaultObjectMetaFilter (\<lambda>_ _. True)", OF _ _ _ _ q(2) refl]
    by (simp add: fits_def q(1) matching_def)
qed

end
