(* ===== verification/Linstor.thy ===== *)
theory Linstor
  imports List_Query
begin

text \<open>
  VersaTEL's access to a LINSTOR storage cluster (\<^verbatim>\<open>pkg/models/versatel/v1alpha1/linstor\<close>: \<^verbatim>\<open>linstor.go\<close>,
  \<^verbatim>\<open>resource.go\<close>, \<^verbatim>\<open>node.go\<close>, \<^verbatim>\<open>storagepool.go\<close>): sizes, the tables of resources, nodes and storage
  pools that the console shows, and the operations that create and remove them.

  The LINSTOR client library is not part of the repository: its calls are functions on an abstract
  cluster state, a parameter, and its views are records of the fields the code reads.
\<close>

section \<open>Results\<close>

text \<open>
  An \<^verbatim>\<open>ApiCallError\<close> of the code carries a return code and a message; \<open>MissingReplica\<close> is the one whose
  message says, in Chinese, that a node has no replica of a resource.
\<close>

datatype linstor_error = ApiCallError int string | MissingReplica string string | LibraryError string

text \<open>A call returns a value and an error, or the process dies: a panic or \<^verbatim>\<open>log.Fatal\<close>.\<close>

datatype 'a reply = Reply 'a | Refused linstor_error | Crashed

type_synonym ('s, 'a) lin = "'s \<Rightarrow> 'a reply \<times> 's"

definition lin_return :: "'a \<Rightarrow> ('s, 'a) lin" where
  "lin_return a s = (Reply a, s)"

definition lin_error :: "linstor_error \<Rightarrow> ('s, 'a) lin" where
  "lin_error e s = (Refused e, s)"

definition lin_crash :: "('s, 'a) lin" where
  "lin_crash s = (Crashed, s)"

text \<open>\<open>lin_try\<close> looks at the error of a call, \<open>lin_bind\<close> returns it to the caller.\<close>

definition lin_try :: "('s, 'a) lin \<Rightarrow> ('a \<Rightarrow> ('s, 'b) lin) \<Rightarrow> (linstor_error \<Rightarrow> ('s, 'b) lin) \<Rightarrow> ('s, 'b) lin" where
  "lin_try m f g s =
     (case m s of
        (Reply a, s') \<Rightarrow> f a s'
      | (Refused e, s') \<Rightarrow> g e s'
      | (Crashed, s') \<Rightarrow> (Crashed, s'))"

definition lin_bind :: "('s, 'a) lin \<Rightarrow> ('a \<Rightarrow> ('s, 'b) lin) \<Rightarrow> ('s, 'b) lin" where
  "lin_bind m f = lin_try m f lin_error"

section \<open>Sizes\<close>

text \<open>Rounding a quotient to the nearest integer, ties to even.\<close>

definition round_div :: "nat \<Rightarrow> nat \<Rightarrow> nat" where
  "round_div a b =
     (let q = a div b; r = a mod b in
      if 2 * r < b then q else if 2 * r > b then q + 1 else if even q then q else q + 1)"

text \<open>
  The conversion to a 64-bit float keeps 53 significant bits; dividing by a power of two is then
  exact, and \<^verbatim>\<open>%.2f\<close> rounds the exact value to hundredths.
\<close>

fun significant_bits :: "nat \<Rightarrow> nat" where
  "significant_bits n = (if n = 0 then 0 else Suc (significant_bits (n div 2)))"

declare significant_bits.simps [simp del]

definition float64_of_nat :: "nat \<Rightarrow> nat" where
  "float64_of_nat n = (let e = significant_bits n - 53 in round_div n (2 ^ e) * 2 ^ e)"

definition show_fixed2 :: "nat \<Rightarrow> string" where
  "show_fixed2 h =
     show_nat (h div 100) @ ''.'' @ [char_of (48 + h mod 100 div 10), char_of (48 + h mod 10)]"

definition sprintf_2f :: "int64 \<Rightarrow> nat \<Rightarrow> string" where
  "sprintf_2f sz unit =
     (let v = sint sz; h = round_div (float64_of_nat (nat \<bar>v\<bar>) * 100) unit
      in (if v < 0 then ''-'' else []) @ show_fixed2 h)"

definition FormatSize :: "int64 \<Rightarrow> string" where
  "FormatSize sz =
     (if sz = 9223372036854775807 then []
      else if sint sz > 1024 * 1024 * 1024 then sprintf_2f sz (1024 * 1024 * 1024) @ '' TiB''
      else if sint sz > 1024 * 1024 then sprintf_2f sz (1024 * 1024) @ '' GiB''
      else if sint sz > 1024 then sprintf_2f sz 1024 @ '' MiB''
      else sprintf_2f sz 1 @ '' KiB'')"

definition upper_char :: "char \<Rightarrow> char" where
  "upper_char c = (let n = of_char c :: nat in if 97 \<le> n \<and> n \<le> 122 then char_of (n - 32) else c)"

definition ToUpper :: "string \<Rightarrow> string" where
  "ToUpper s = map upper_char s"

text \<open>\<^verbatim>\<open>strconv.ParseUint\<close> in base 10: the value together with an error, as the code uses both.\<close>

definition ParseUint :: "string \<Rightarrow> 64 word \<times> string option" where
  "ParseUint s =
     (if s = [] then (0, Some ''invalid syntax'')
      else
        (case parse_digits 0 s of
           None \<Rightarrow> (0, Some ''invalid syntax'')
         | Some n \<Rightarrow> if n < 2 ^ 64 then (word_of_nat n, None) else (- 1, Some ''value out of range'')))"

text \<open>The match of the pattern for sizes: the run of digits and dots, then a unit and an optional suffix.\<close>

definition number_char :: "char \<Rightarrow> bool" where
  "number_char c \<longleftrightarrow> digit_value c \<noteq> None \<or> c = CHR ''.''"

definition match_size :: "string \<Rightarrow> (string \<times> char) option" where
  "match_size s =
     (let num = takeWhile number_char s in
      if num = [] then None
      else
        (case dropWhile number_char s of
           [] \<Rightarrow> None
         | u # rest \<Rightarrow>
             (if u \<in> set ''KMGT'' \<and> rest \<in> {[], ''B'', ''IB''} then Some (num, u) else None)))"

definition ParseSize :: "string \<Rightarrow> 64 word \<times> string option" where
  "ParseSize sz =
     (case match_size (ToUpper sz) of
        None \<Rightarrow> ParseUint sz
      | Some (num, u) \<Rightarrow>
          (let (finalSize, err) = ParseUint num in
           (if u = CHR ''K'' then finalSize
            else if u = CHR ''M'' then finalSize * 1024
            else if u = CHR ''G'' then finalSize * 1024 * 1024
            else finalSize * 1024 * 1024 * 1024,
            err)))"

section \<open>Tables\<close>

type_synonym row = "(string, string) gomap"

abbreviation cell :: "row \<Rightarrow> string \<Rightarrow> string" where
  "cell r k \<equiv> map_get [] r k"

record linstor_getter =
  lg_Code :: nat
  lg_Count :: int64
  lg_Data :: "row list"

definition getter_filter :: "(string, string) gomap \<Rightarrow> linstor_getter \<Rightarrow> linstor_getter" where
  "getter_filter filters d =
     fold (\<lambda>(k, v) d.
       let newListData = filter (\<lambda>mapData. Contains (cell mapData k) v) (lg_Data d)
       in d\<lparr>lg_Data := newListData, lg_Count := word_of_nat (length newListData)\<rparr>) filters d"

text \<open>A nil pagination or a slice expression out of range panics.\<close>

definition getter_List :: "query \<Rightarrow> linstor_getter \<Rightarrow> linstor_getter option" where
  "getter_List q d =
     (let d' = getter_filter (qr_Filters q) d in
      case qr_Pagination q of
        None \<Rightarrow> None
      | Some p \<Rightarrow>
          (let (startIndex, endIndex) = GetValidPagination p (lg_Count d')
           in map_option (\<lambda>data. d'\<lparr>lg_Data := data\<rparr>)
                (Prelude.slice (lg_Data d') (sint startIndex) (sint endIndex))))"

text \<open>The handlers wrap the rows of a table and list them.\<close>

definition list_rows :: "query \<Rightarrow> row list \<Rightarrow> linstor_getter option" where
  "list_rows q data = getter_List q \<lparr>lg_Code = 0, lg_Count = word_of_nat (length data), lg_Data = data\<rparr>"

section \<open>Views of the cluster\<close>

record drbd_connection =
  dc_Connected :: bool
  dc_Message :: string

record linstor_volume =
  lv_AllocatedSizeKib :: int64
  lv_DevicePath :: string
  lv_DiskState :: string
  lv_StoragePoolName :: string

text \<open>
  The state of a resource is a pointer, and so is its usage flag: \<^term>\<open>Some None\<close> is a state without
  the flag.
\<close>

record resource_view =
  rv_Name :: string
  rv_NodeName :: string
  rv_Flags :: "string list"
  rv_InUse :: "bool option option"
  rv_CreateTimestamp :: "string option"
  rv_Connections :: "(string, drbd_connection) gomap"
  rv_Volumes :: "linstor_volume list"

definition connFail :: "resource_view \<Rightarrow> (string, string list) gomap" where
  "connFail res =
     fold (\<lambda>(k, v) m. if \<not> dc_Connected v then AList.update (dc_Message v) (map_get [] m (dc_Message v) @ [k]) m else m)
       (rv_Connections res) []"

text \<open>
  One volume of \<^verbatim>\<open>GetResources\<close>: the table and the counts after it, and whether the loop over the volumes
  goes on.
\<close>

type_synonym resource_table = "(string, row) gomap"

definition resource_info :: "resource_view \<Rightarrow> linstor_volume \<Rightarrow> int \<Rightarrow> row" where
  "resource_info res vol way =
     (let r = [(''name'', rv_Name res), (''size'', FormatSize (lv_AllocatedSizeKib vol)),
               (''deviceName'', lv_DevicePath vol), (''mirrorWay'', show_int way), (''assignedNode'', [])]
      in case rv_CreateTimestamp res of None \<Rightarrow> r | Some t \<Rightarrow> AList.update ''createTime'' t r)"

definition resource_volume ::
  "resource_view \<Rightarrow> linstor_volume \<Rightarrow> resource_table \<times> (string, int) gomap \<Rightarrow>
   (resource_table \<times> (string, int) gomap) \<times> bool" where
  "resource_volume res vol acc =
     (let (resMap, mirrorWay) = acc;
          resName = rv_Name res;
          resInfo = resource_info res vol (map_get 0 mirrorWay resName);
          volState = lv_DiskState (hd (rv_Volumes res))
      in if volState = ''Diskless'' then ((resMap, AList.update resName (map_get 0 mirrorWay resName - 1) mirrorWay), False)
         else if volState = ''UpToDate'' \<and> length (connFail res) \<noteq> 0 then
           ((AList.update resName (AList.update ''status'' ''Unhealthy'' resInfo) resMap, mirrorWay), True)
         else if volState = ''UpToDate'' \<and> length (connFail res) = 0 then
           ((AList.update resName (AList.update ''status'' ''Healthy'' resInfo) resMap, mirrorWay), True)
         else if volState = [] then
           ((AList.update resName (AList.update ''status'' ''Unhealthy'' resInfo) resMap, mirrorWay), True)
         else if Contains (lv_DiskState vol) ''SyncTarget'' then
           (case map_of resMap resName of
              Some old \<Rightarrow>
                (if cell old ''State'' = ''Unhealthy''
                 then ((AList.update resName (AList.update ''MirrorWay'' (show_int (map_get 0 mirrorWay resName)) old) resMap,
                        mirrorWay), True)
                 else ((AList.update resName (AList.update ''status'' ''Synching'' resInfo) resMap, mirrorWay), True))
            | None \<Rightarrow> ((AList.update resName (AList.update ''status'' ''Synching'' resInfo) resMap, mirrorWay), True))
         else ((resMap, mirrorWay), True))"

fun resource_volumes ::
  "resource_view \<Rightarrow> linstor_volume list \<Rightarrow> resource_table \<times> (string, int) gomap \<Rightarrow>
   resource_table \<times> (string, int) gomap" where
  "resource_volumes res [] acc = acc"
| "resource_volumes res (vol # vols) acc =
     (let (acc', go_on) = resource_volume res vol acc in if go_on then resource_volumes res vols acc' else acc')"

definition resource_row :: "resource_view \<Rightarrow> resource_table \<times> (string, int) gomap \<Rightarrow> resource_table \<times> (string, int) gomap" where
  "resource_row res acc =
     (let (resMap, mirrorWay) = acc;
          mirrorWay' = AList.update (rv_Name res) (map_get 0 mirrorWay (rv_Name res) + 1) mirrorWay
      in resource_volumes res (rv_Volumes res) (resMap, mirrorWay'))"

text \<open>
  \<^verbatim>\<open>sort.SliceStable\<close> with a comparison is the stable insertion of each element behind those that are
  not greater; the order in which one run visits the table is the argument \<open>visit\<close>.
\<close>

fun stable_insert :: "('a \<Rightarrow> 'a \<Rightarrow> bool) \<Rightarrow> 'a \<Rightarrow> 'a list \<Rightarrow> 'a list" where
  "stable_insert lt x [] = [x]"
| "stable_insert lt x (y # ys) = (if lt y x then y # stable_insert lt x ys else x # y # ys)"

definition SliceStable :: "('a \<Rightarrow> 'a \<Rightarrow> bool) \<Rightarrow> 'a list \<Rightarrow> 'a list" where
  "SliceStable lt xs = foldr (stable_insert lt) xs []"

definition GetResources :: "(row list \<Rightarrow> row list) \<Rightarrow> resource_view list \<Rightarrow> row list" where
  "GetResources visit resources =
     (let (resMap, _) = fold resource_row resources ([], [])
      in SliceStable (\<lambda>a b. cell b ''createTime'' < cell a ''createTime'') (visit (map snd resMap)))"

definition assigned_row :: "resource_view \<Rightarrow> resource_table \<Rightarrow> resource_table" where
  "assigned_row res resMap =
     fold (\<lambda>vol m. if lv_DiskState vol = ''Diskless''
        then AList.update (rv_Name res) [(''name'', rv_Name res), (''assignedNode'', rv_NodeName res)] m else m)
       (rv_Volumes res) resMap"

definition GetassignedNode :: "(row list \<Rightarrow> row list) \<Rightarrow> resource_view list \<Rightarrow> row list" where
  "GetassignedNode visit resources = visit (map snd (fold assigned_row resources []))"

text \<open>The text for the failed connections, in the order of the table.\<close>

definition conn_text :: "resource_view \<Rightarrow> string" where
  "conn_text res =
     (if length (connFail res) \<noteq> 0
      then Join (map (\<lambda>(k, v). k @ ''('' @ Join v '','' @ '')'') (connFail res)) '',''
      else ''OK'')"

fun diskful_row :: "resource_view \<Rightarrow> linstor_volume list \<Rightarrow> row \<Rightarrow> row option" where
  "diskful_row res [] resInfo = None"
| "diskful_row res (vol # vols) resInfo =
     (if lv_DiskState vol \<noteq> ''Diskless'' then
        (let resInfo' =
           (if ''DELETE'' \<in> set (rv_Flags res) then AList.update ''status'' ''DELETING'' resInfo
            else if ''INACTIVE'' \<in> set (rv_Flags res) then AList.update ''status'' ''INACTIVE'' resInfo
            else if lv_DiskState vol \<noteq> [] then AList.update ''status'' (lv_DiskState vol) resInfo
            else resInfo)
         in Some (AList.update ''storagepool'' (lv_StoragePoolName vol)
                   (AList.update ''node'' (rv_NodeName res) (AList.update ''name'' (rv_Name res) resInfo'))))
      else diskful_row res vols resInfo)"

text \<open>Reading a usage flag that is not there dereferences nil.\<close>

fun GetResourcesDiskful :: "resource_view list \<Rightarrow> row list option" where
  "GetResourcesDiskful [] = Some []"
| "GetResourcesDiskful (res # rs) =
     (case (case rv_InUse res of
              None \<Rightarrow> Some ''Unknown''
            | Some None \<Rightarrow> None
            | Some (Some u) \<Rightarrow> Some (if u then ''InUse'' else ''Unused'')) of
        None \<Rightarrow> None
      | Some usage \<Rightarrow>
          (case GetResourcesDiskful rs of
             None \<Rightarrow> None
           | Some rows \<Rightarrow>
               (case diskful_row res (rv_Volumes res)
                   [(''usage'', usage), (''conn'', conn_text res), (''status'', ''Unknow'')] of
                  None \<Rightarrow> Some rows
                | Some r \<Rightarrow> Some (r # rows))))"

fun GetResourceDiskless :: "resource_view list \<Rightarrow> row list option" where
  "GetResourceDiskless [] = Some []"
| "GetResourceDiskless (res # rs) =
     (case (case rv_InUse res of
              None \<Rightarrow> Some ''Unused''
            | Some None \<Rightarrow> None
            | Some (Some u) \<Rightarrow> Some (if u then ''InUse'' else ''Unused'')) of
        None \<Rightarrow> None
      | Some usage \<Rightarrow>
          (case GetResourceDiskless rs of
             None \<Rightarrow> None
           | Some rows \<Rightarrow>
               (case find (\<lambda>vol. lv_DiskState vol = ''Diskless'') (rv_Volumes res) of
                  None \<Rightarrow> Some rows
                | Some vol \<Rightarrow>
                    Some ([(''usage'', usage), (''conn'', conn_text res), (''status'', ''Diskless''),
                      (''name'', rv_Name res), (''node'', rv_NodeName res), (''storagepool'', lv_StoragePoolName vol)] # rows))))"

section \<open>The LINSTOR client\<close>

record net_interface =
  ni_Name :: string
  ni_Address :: string
  ni_SatellitePort :: int
  ni_SatelliteEncryptionType :: string

record linstor_node =
  ln_Name :: string
  ln_Type :: string
  ln_NetInterfaces :: "net_interface list"
  ln_ConnectionStatus :: string

record storage_pool =
  sp_StoragePoolName :: string
  sp_NodeName :: string
  sp_ProviderKind :: string
  sp_Props :: "(string, string) gomap"
  sp_FreeCapacity :: int64
  sp_TotalCapacity :: int64
  sp_SupportsSnapshots :: bool
  sp_Reports :: "string list"

type_synonym ('s, 'a) call = "'s \<Rightarrow> (linstor_error, 'a) result \<times> 's"

record 's linstor_api =
  la_GetResourceView :: "('s, resource_view list) call"
  la_NodesGetAll :: "('s, linstor_node list) call"
  la_NodesGet :: "string \<Rightarrow> ('s, unit) call"
  la_NodesCreate :: "linstor_node \<Rightarrow> ('s, unit) call"
  la_NodesDelete :: "string \<Rightarrow> ('s, unit) call"
  la_GetStoragePools :: "string \<Rightarrow> ('s, storage_pool list) call"
  la_GetStoragePoolView :: "('s, storage_pool list) call"
  la_CreateStoragePool :: "string \<Rightarrow> storage_pool \<Rightarrow> ('s, unit) call"
  la_DeleteStoragePool :: "string \<Rightarrow> string \<Rightarrow> ('s, unit) call"
  la_DefinitionGet :: "string \<Rightarrow> ('s, unit) call"
  la_DefinitionCreate :: "string \<Rightarrow> ('s, unit) call"
  la_DefinitionDelete :: "string \<Rightarrow> ('s, unit) call"
  la_CreateVolumeDefinition :: "string \<Rightarrow> 64 word \<Rightarrow> ('s, unit) call"
  la_ResourcesCreate :: "string \<Rightarrow> string \<Rightarrow> (string, string) gomap \<Rightarrow> ('s, unit) call"
  la_ResourcesGetAll :: "string \<Rightarrow> ('s, string list) call"
  la_ResourcesDelete :: "string \<Rightarrow> string \<Rightarrow> ('s, unit) call"

definition lin_call :: "('s, 'a) call \<Rightarrow> ('s, 'a) lin" where
  "lin_call c s = (case c s of (Inl e, s') \<Rightarrow> (Refused e, s') | (Inr a, s') \<Rightarrow> (Reply a, s'))"

text \<open>A call whose error is dropped: its value is then the zero value.\<close>

definition lin_ignore :: "'a \<Rightarrow> ('s, 'a) call \<Rightarrow> ('s, 'a) lin" where
  "lin_ignore z c = lin_try (lin_call c) lin_return (\<lambda>_. lin_return z)"

text \<open>A call whose error is fatal.\<close>

definition lin_fatal :: "('s, 'a) call \<Rightarrow> ('s, 'a) lin" where
  "lin_fatal c = lin_try (lin_call c) lin_return (\<lambda>_. lin_crash)"

section \<open>Resources\<close>

fun create_replicas :: "'s linstor_api \<Rightarrow> string \<Rightarrow> string list list \<Rightarrow> ('s, unit) lin" where
  "create_replicas api resName [] = lin_return ()"
| "create_replicas api resName (spAndNode # sps) =
     (case spAndNode of
        spName # nodeName # _ \<Rightarrow>
          lin_try (lin_call (la_ResourcesCreate api resName nodeName [(''StorPoolName'', spName)]))
            (\<lambda>_. create_replicas api resName sps)
            (\<lambda>e. lin_bind (lin_ignore () (la_DefinitionDelete api resName)) (\<lambda>_. lin_error e))
      | _ \<Rightarrow> lin_crash)"

definition CreateResource :: "'s linstor_api \<Rightarrow> string \<Rightarrow> string list list \<Rightarrow> string \<Rightarrow> ('s, unit) lin" where
  "CreateResource api resName sps Size =
     (let (sz, errSize) = ParseSize Size;
          rollback = (\<lambda>e. lin_bind (lin_ignore () (la_DefinitionDelete api resName)) (\<lambda>_. lin_error e))
      in if errSize \<noteq> None then lin_error (ApiCallError (- 2) ''Error Size'')
         else
           lin_try (lin_call (la_DefinitionGet api resName))
             (\<lambda>_. lin_error (ApiCallError (- 1) (''resource definition : '' @ resName @ '' already exists'')))
             (\<lambda>_. lin_try (lin_call (la_DefinitionCreate api resName))
                (\<lambda>_. lin_try (lin_call (la_CreateVolumeDefinition api resName sz))
                   (\<lambda>_. create_replicas api resName sps) rollback)
                rollback))"

definition DescribeResource :: "'s linstor_api \<Rightarrow> string \<Rightarrow> ('s, unit) lin" where
  "DescribeResource api resname = lin_call (la_DefinitionGet api resname)"

definition DeleteResource :: "'s linstor_api \<Rightarrow> string \<Rightarrow> ('s, unit) lin" where
  "DeleteResource api resName = lin_call (la_DefinitionDelete api resName)"

definition CreateDisklessResource :: "'s linstor_api \<Rightarrow> string \<Rightarrow> string \<Rightarrow> ('s, unit) lin" where
  "CreateDisklessResource api resName nodeName =
     lin_call (la_ResourcesCreate api resName nodeName [(''StorPoolName'', ''DfltDisklessStorPool'')])"

text \<open>Adding replicas reads a pool for every node and panics when one is missing.\<close>

fun add_replicas :: "'s linstor_api \<Rightarrow> string \<Rightarrow> string list \<Rightarrow> string list \<Rightarrow> ('s, unit) lin" where
  "add_replicas api resName [] pools = lin_return ()"
| "add_replicas api resName (n # ns) [] = lin_crash"
| "add_replicas api resName (n # ns) (spName # pools) =
     lin_bind (lin_call (la_ResourcesCreate api resName n [(''StorPoolName'', spName)]))
       (\<lambda>_. add_replicas api resName ns pools)"

fun remove_replicas :: "'s linstor_api \<Rightarrow> string \<Rightarrow> string list \<Rightarrow> ('s, unit) lin" where
  "remove_replicas api resName [] = lin_return ()"
| "remove_replicas api resName (nName # ns) =
     lin_bind (lin_call (la_ResourcesGetAll api resName)) (\<lambda>nodeNames.
       if nName \<notin> set nodeNames then lin_error (MissingReplica nName resName)
       else
         lin_bind (lin_call (la_ResourcesDelete api resName nName)) (\<lambda>_.
         lin_bind (lin_call (la_ResourcesDelete api resName nName)) (\<lambda>_.
         remove_replicas api resName ns)))"

definition UpdateDiskfulResource ::
  "'s linstor_api \<Rightarrow> string \<Rightarrow> string list \<Rightarrow> string list \<Rightarrow> int64 \<Rightarrow> int64 \<Rightarrow> ('s, unit) lin" where
  "UpdateDiskfulResource api resName nodeName storagePoolName targetReplicas currentReplicas =
     (let delta = currentReplicas - targetReplicas in
      if sint delta > 0 then add_replicas api resName nodeName storagePoolName
      else if sint delta < 0 then remove_replicas api resName nodeName
      else lin_return ())"

section \<open>Nodes and storage pools\<close>

text \<open>The row of a node; a node without network interface panics.\<close>

definition node_row :: "resource_view list \<Rightarrow> linstor_node \<Rightarrow> storage_pool list \<Rightarrow> row option" where
  "node_row resources node sps =
     (case ln_NetInterfaces node of
        [] \<Rightarrow> None
      | ni # _ \<Rightarrow>
          Some [(''name'', ln_Name node), (''nodeType'', ln_Type node),
            (''resourceNum'', show_nat (length (filter (\<lambda>res. rv_NodeName res = ln_Name node) resources))),
            (''storagePoolNum'', show_nat (length sps)),
            (''addr'', ni_Address ni @ '':'' @ show_int (ni_SatellitePort ni) @ '' ('' @ ni_SatelliteEncryptionType ni @ '')''),
            (''status'', ln_ConnectionStatus node)])"

fun node_rows :: "'s linstor_api \<Rightarrow> resource_view list \<Rightarrow> linstor_node list \<Rightarrow> ('s, row list) lin" where
  "node_rows api resources [] = lin_return []"
| "node_rows api resources (node # nodes) =
     lin_bind (lin_fatal (la_GetStoragePools api (ln_Name node))) (\<lambda>sps.
       case node_row resources node sps of
         None \<Rightarrow> lin_crash
       | Some r \<Rightarrow> lin_bind (node_rows api resources nodes) (\<lambda>rows. lin_return (r # rows)))"

definition GetNodeData :: "'s linstor_api \<Rightarrow> ('s, row list) lin" where
  "GetNodeData api =
     lin_bind (lin_ignore [] (la_NodesGetAll api)) (\<lambda>nodes.
     lin_bind (lin_fatal (la_GetResourceView api)) (\<lambda>resources.
     node_rows api resources nodes))"

definition DescribeNode :: "'s linstor_api \<Rightarrow> string \<Rightarrow> ('s, unit) lin" where
  "DescribeNode api nodename = lin_call (la_NodesGet api nodename)"

text \<open>The address given for a new node is not used.\<close>

definition CreateNode :: "'s linstor_api \<Rightarrow> string \<Rightarrow> string \<Rightarrow> string \<Rightarrow> ('s, unit) lin" where
  "CreateNode api name ip nodeType =
     lin_call (la_NodesCreate api
       \<lparr>ln_Name = name, ln_Type = nodeType,
        ln_NetInterfaces = [\<lparr>ni_Name = ''default'', ni_Address = [], ni_SatellitePort = 3366, ni_SatelliteEncryptionType = ''Plain''\<rparr>],
        ln_ConnectionStatus = []\<rparr>)"

definition DeleteNode :: "'s linstor_api \<Rightarrow> string \<Rightarrow> ('s, unit) lin" where
  "DeleteNode api nodename = lin_call (la_NodesDelete api nodename)"

definition pool_volumes :: "resource_view list \<Rightarrow> storage_pool \<Rightarrow> nat" where
  "pool_volumes resources sp =
     sum_list (map (\<lambda>res. if rv_NodeName res = sp_NodeName sp
       then length (filter (\<lambda>v. lv_StoragePoolName v = sp_StoragePoolName sp) (rv_Volumes res)) else 0) resources)"

definition pool_row :: "resource_view list \<Rightarrow> storage_pool \<Rightarrow> row" where
  "pool_row resources sp =
     [(''name'', sp_StoragePoolName sp), (''node'', sp_NodeName sp), (''resNum'', show_nat (pool_volumes resources sp)),
      (''driver'', sp_ProviderKind sp), (''poolName'', map_get [] (sp_Props sp) ''StorDriver/StorPoolName''),
      (''freeCapacity'', FormatSize (sp_FreeCapacity sp)), (''totalCapacity'', FormatSize (sp_TotalCapacity sp)),
      (''supportsSnapshots'', if sp_SupportsSnapshots sp then ''true'' else ''false'')] @
     (if length (sp_Reports sp) = 0 then [(''status'', ''OK'')] else [])"

definition GetSPData :: "'s linstor_api \<Rightarrow> ('s, row list) lin" where
  "GetSPData api =
     lin_bind (lin_fatal (la_GetResourceView api)) (\<lambda>resources.
     lin_bind (lin_ignore [] (la_GetStoragePoolView api)) (\<lambda>sps.
     lin_return (map (pool_row resources) (filter (\<lambda>sp. sp_StoragePoolName sp \<noteq> ''DfltDisklessStorPool'') sps))))"

definition DescribeStoragePool :: "'s linstor_api \<Rightarrow> string \<Rightarrow> ('s, bool) lin" where
  "DescribeStoragePool api spname =
     lin_bind (lin_ignore [] (la_GetStoragePoolView api)) (\<lambda>sps.
     lin_return (list_ex (\<lambda>sp. spname = sp_StoragePoolName sp) sps))"

definition GetStoragePoolProps :: "string \<Rightarrow> string \<Rightarrow> string \<Rightarrow> (string, string) gomap" where
  "GetStoragePoolProps kind vg lv =
     (if kind = ''LVM'' then [(''StorDriver/LvmVg'', vg)]
      else if kind = ''LVM_THIN'' then [(''StorDriver/LvmVg'', vg), (''StorDriver/ThinPool'', lv)]
      else [])"

text \<open>The volume of a thin pool is \<open>group/pool\<close>; without a slash the second part is read out of range.\<close>

definition drive_pool :: "string \<Rightarrow> string \<Rightarrow> (string \<times> string \<times> string) option" where
  "drive_pool kind volume =
     (if kind = ''LVM'' \<or> kind = ''lvm'' then Some (''LVM'', volume, [])
      else if kind = ''LVM THIN'' \<or> kind = ''lvm thin'' then
        (case SplitChar (CHR ''/'') volume of vg # lv # _ \<Rightarrow> Some (''LVM_THIN'', vg, lv) | _ \<Rightarrow> None)
      else Some ([], [], []))"

definition CreateSP :: "'s linstor_api \<Rightarrow> string \<Rightarrow> string \<Rightarrow> string \<Rightarrow> string \<Rightarrow> ('s, unit) lin" where
  "CreateSP api spName nodeName kind volume =
     (case drive_pool kind volume of
        None \<Rightarrow> lin_crash
      | Some (k, vg, lv) \<Rightarrow>
          lin_call (la_CreateStoragePool api nodeName
            \<lparr>sp_StoragePoolName = spName, sp_NodeName = [], sp_ProviderKind = k, sp_Props = GetStoragePoolProps k vg lv,
             sp_FreeCapacity = 0, sp_TotalCapacity = 0, sp_SupportsSnapshots = False, sp_Reports = []\<rparr>))"

definition DeleteSP :: "'s linstor_api \<Rightarrow> string \<Rightarrow> string \<Rightarrow> ('s, unit) lin" where
  "DeleteSP api spName nodeName = lin_call (la_DeleteStoragePool api nodeName spName)"

section \<open>Sizes wrap around\<close>

lemma parse_digits_digits: "parse_digits acc s = Some n \<Longrightarrow> c \<in> set s \<Longrightarrow> digit_value c \<noteq> None"
  by (induction acc s rule: parse_digits.induct) (auto split: option.splits)

lemma upper_digit: "digit_value c \<noteq> None \<Longrightarrow> upper_char c = c"
  by (auto simp: digit_value_def upper_char_def Let_def split: if_splits)

lemma upper_units [simp]:
  "upper_char CHR ''K'' = CHR ''K''" "upper_char CHR ''M'' = CHR ''M''"
  "upper_char CHR ''G'' = CHR ''G''" "upper_char CHR ''T'' = CHR ''T''"
  "upper_char CHR ''k'' = CHR ''K''" "upper_char CHR ''m'' = CHR ''M''"
  "upper_char CHR ''g'' = CHR ''G''" "upper_char CHR ''t'' = CHR ''T''"
  by code_simp+

text \<open>The exponent of a unit, in powers of 1024 above the kibibyte.\<close>

definition unit_exponent :: "char \<Rightarrow> nat" where
  "unit_exponent u =
     (if u \<in> set ''Kk'' then 0 else if u \<in> set ''Mm'' then 1 else if u \<in> set ''Gg'' then 2 else 3)"

lemma match_size_unit:
  assumes "parse_digits 0 num = Some n" "num \<noteq> []" "u \<in> set ''KMGT''" "rest \<in> {[], ''B'', ''IB''}"
  shows "match_size (num @ u # rest) = Some (num, u)"
proof -
  have "number_char c" if "c \<in> set num" for c
    using parse_digits_digits [OF assms(1) that] by (simp add: number_char_def)
  moreover have "\<not> number_char u" using assms(3) by (auto simp: number_char_def digit_value_def)
  ultimately have "takeWhile number_char (num @ u # rest) = num" "dropWhile number_char (num @ u # rest) = u # rest"
    by (simp_all add: takeWhile_append dropWhile_append)
  with assms show ?thesis by (simp add: match_size_def Let_def)
qed

lemma ParseSize_unit:
  assumes "parse_digits 0 num = Some n" "num \<noteq> []" "n < 2 ^ 64"
    and "u \<in> set ''KMGTkmgt''" "ToUpper rest \<in> {[], ''B'', ''IB''}"
  shows "ParseSize (num @ u # rest) = (word_of_nat (n * 1024 ^ unit_exponent u), None)"
proof -
  have "map upper_char num = num"
    using parse_digits_digits [OF assms(1)] upper_digit by (intro map_idI) blast
  then have up: "ToUpper (num @ u # rest) = num @ upper_char u # ToUpper rest" by (simp add: ToUpper_def)
  have cases: "u \<in> {CHR ''K'', CHR ''k''} \<or> u \<in> {CHR ''M'', CHR ''m''} \<or> u \<in> {CHR ''G'', CHR ''g''} \<or> u \<in> {CHR ''T'', CHR ''t''}"
    using assms(4) by auto
  then have "upper_char u \<in> set ''KMGT''" by auto
  then have m: "match_size (ToUpper (num @ u # rest)) = Some (num, upper_char u)"
    unfolding up by (rule match_size_unit [OF assms(1,2) _ assms(5)])
  have p: "ParseUint num = (word_of_nat n, None)" using assms(1-3) by (simp add: ParseUint_def)
  show ?thesis
    unfolding ParseSize_def m using cases
    by (elim disjE insertE emptyE) (simp_all add: p unit_exponent_def)
qed

text \<open>
  A size with a unit, in either case and with or without \<open>B\<close> or \<open>iB\<close>, is the number times the unit modulo
  2 to the 64: a product that does not fit is accepted without an error and gives a smaller size.
\<close>

theorem ParseSize_wraps:
  assumes "parse_digits 0 num = Some n" "num \<noteq> []" "n < 2 ^ 64"
    and "u \<in> set ''KMGTkmgt''" "ToUpper rest \<in> {[], ''B'', ''IB''}"
  shows "unat (fst (ParseSize (num @ u # rest))) = n * 1024 ^ unit_exponent u mod 2 ^ 64 \<and>
    snd (ParseSize (num @ u # rest)) = None"
proof -
  have "unat (word_of_nat k :: 64 word) = k mod 2 ^ 64" for k by (simp add: unat_of_nat)
  with ParseSize_unit [OF assms] show ?thesis by (simp only: fst_conv snd_conv)
qed

theorem ParseSize_wraps_witness:
  "unat (fst (ParseSize ''17179869185T'')) = 1024 * 1024 * 1024 \<and> snd (ParseSize ''17179869185T'') = None"
proof -
  have "parse_digits 0 ''17179869185'' = Some 17179869185" by (simp add: digit_value_def)
  from ParseSize_wraps [OF this, of "CHR ''T''" "[]"] show ?thesis by (simp add: ToUpper_def unit_exponent_def)
qed

section \<open>Listing rows\<close>

definition row_matches :: "(string, string) gomap \<Rightarrow> row \<Rightarrow> bool" where
  "row_matches filters r \<longleftrightarrow> (\<forall>(k, v) \<in> set filters. Contains (cell r k) v)"

lemma getter_filter_spec:
  "lg_Count d = word_of_nat (length (lg_Data d)) \<Longrightarrow>
   lg_Data (getter_filter filters d) = filter (row_matches filters) (lg_Data d) \<and>
   lg_Count (getter_filter filters d) = word_of_nat (length (lg_Data (getter_filter filters d))) \<and>
   lg_Code (getter_filter filters d) = lg_Code d"
proof (induction filters arbitrary: d)
  case Nil
  then show ?case by (simp add: getter_filter_def row_matches_def)
next
  case (Cons kv filters)
  obtain k v where kv: "kv = (k, v)" by force
  let ?new = "filter (\<lambda>r. Contains (cell r k) v) (lg_Data d)"
  let ?d = "d\<lparr>lg_Data := ?new, lg_Count := word_of_nat (length ?new)\<rparr>"
  have "getter_filter (kv # filters) d = getter_filter filters ?d" by (simp add: getter_filter_def kv Let_def)
  moreover have "filter (row_matches filters) ?new = filter (row_matches (kv # filters)) (lg_Data d)"
    by (simp add: row_matches_def [abs_def] kv conj_commute)
  ultimately show ?case using Cons.IH [of ?d] by simp
qed

lemma list_rows_spec:
  assumes "fits data"
  shows "list_rows q data =
    (case qr_Pagination q of
       None \<Rightarrow> None
     | Some p \<Rightarrow>
         map_option (\<lambda>page. \<lparr>lg_Code = 0, lg_Count = word_of_nat (length (filter (row_matches (qr_Filters q)) data)), lg_Data = page\<rparr>)
           (page_of p (filter (row_matches (qr_Filters q)) data)))"
proof -
  let ?d = "getter_filter (qr_Filters q) \<lparr>lg_Code = 0, lg_Count = word_of_nat (length data), lg_Data = data\<rparr>"
  note d = getter_filter_spec [of "\<lparr>lg_Code = 0, lg_Count = word_of_nat (length data), lg_Data = data\<rparr>" "qr_Filters q", simplified]
  then have "?d = \<lparr>lg_Code = 0, lg_Count = word_of_nat (length (filter (row_matches (qr_Filters q)) data)),
      lg_Data = filter (row_matches (qr_Filters q)) data\<rparr>"
    by (intro linstor_getter.equality) simp_all
  then show ?thesis
    by (simp add: list_rows_def getter_List_def page_of_def Let_def split: option.splits prod.splits)
qed

section \<open>The table of resources\<close>

text \<open>What a replica with one volume says about its resource: nothing, or a status.\<close>

definition diskless :: "resource_view \<Rightarrow> bool" where
  "diskless res \<longleftrightarrow> lv_DiskState (hd (rv_Volumes res)) = ''Diskless''"

definition replica_status :: "resource_view \<Rightarrow> string option" where
  "replica_status res =
     (let st = lv_DiskState (hd (rv_Volumes res)) in
      if st = ''Diskless'' then None
      else if st = ''UpToDate'' then Some (if connFail res = [] then ''Healthy'' else ''Unhealthy'')
      else if st = [] then Some ''Unhealthy''
      else if Contains st ''SyncTarget'' then Some ''Synching''
      else None)"

definition single_volume :: "resource_view \<Rightarrow> bool" where
  "single_volume res \<longleftrightarrow> length (rv_Volumes res) = 1"

definition replica_row :: "resource_view \<Rightarrow> int \<Rightarrow> string \<Rightarrow> row" where
  "replica_row res way st = AList.update ''status'' st (resource_info res (hd (rv_Volumes res)) way)"

lemma replica_row_cells:
  "cell (replica_row res way st) ''State'' = []" "cell (replica_row res way st) ''name'' = rv_Name res"
  "cell (replica_row res way st) ''status'' = st" "cell (replica_row res way st) ''mirrorWay'' = show_int way"
  by (simp_all add: replica_row_def resource_info_def map_get_def Let_def split: option.splits)

definition replicas :: "string \<Rightarrow> resource_view list \<Rightarrow> nat" where
  "replicas n rs = length (filter (\<lambda>r. rv_Name r = n \<and> \<not> diskless r) rs)"

definition table_inv :: "resource_view list \<Rightarrow> resource_table \<times> (string, int) gomap \<Rightarrow> bool" where
  "table_inv rs acc \<longleftrightarrow>
     (let (m, w) = acc in
      wf_map m \<and> (\<forall>n. map_get 0 w n = int (replicas n rs)) \<and>
      (\<forall>n r. map_of m n = Some r \<longrightarrow> cell r ''State'' = [] \<and> cell r ''name'' = n))"

lemma resource_row_single:
  assumes "single_volume r" "table_inv rs (m, w)"
  shows "\<exists>w'. resource_row r (m, w) =
    ((case replica_status r of
        None \<Rightarrow> m
      | Some st \<Rightarrow> AList.update (rv_Name r) (replica_row r (int (replicas (rv_Name r) (rs @ [r]))) st) m), w') \<and>
    (\<forall>n. map_get 0 w' n = int (replicas n (rs @ [r])))"
proof -
  obtain vol where vol: "rv_Volumes r = [vol]"
    using assms(1) by (auto simp: single_volume_def length_Suc_conv)
  have w: "map_get 0 w n = int (replicas n rs)" for n using assms(2) by (simp add: table_inv_def)
  have old: "map_of m (rv_Name r) = Some old \<Longrightarrow> cell old ''State'' = []" for old
    using assms(2) by (simp add: table_inv_def)
  have count: "replicas n (rs @ [r]) = replicas n rs + (if rv_Name r = n \<and> \<not> diskless r then 1 else 0)" for n
    by (simp add: replicas_def)
  have info: "resource_info r vol (map_get 0 (AList.update (rv_Name r) (map_get 0 w (rv_Name r) + 1) w) (rv_Name r)) =
      resource_info r vol (1 + int (replicas (rv_Name r) rs))"
    by (simp add: map_get_update w add.commute)
  show ?thesis
    unfolding resource_row_def resource_volumes.simps resource_volume_def Let_def vol split list.sel info
    by (auto simp: replica_status_def replica_row_def vol count diskless_def w map_get_update dest: old
        simp del: Contains.simps split: option.splits if_splits)
qed

lemma table_inv_step:
  assumes "single_volume r" "table_inv rs (m, w)"
  shows "table_inv (rs @ [r]) (resource_row r (m, w))"
proof -
  obtain w' where "resource_row r (m, w) =
      ((case replica_status r of
          None \<Rightarrow> m
        | Some st \<Rightarrow> AList.update (rv_Name r) (replica_row r (int (replicas (rv_Name r) (rs @ [r]))) st) m), w')"
    "\<forall>n. map_get 0 w' n = int (replicas n (rs @ [r]))"
    using resource_row_single [OF assms] by blast
  then show ?thesis
    using assms(2) by (auto simp: table_inv_def replica_row_cells split: option.splits if_splits)
qed

lemma table_inv_fold: "list_all single_volume rs \<Longrightarrow> table_inv rs (fold resource_row rs ([], []))"
proof (induction rs rule: rev_induct)
  case Nil
  then show ?case by (simp add: table_inv_def replicas_def map_get_def)
next
  case (snoc r rs)
  then show ?case using table_inv_step [of r rs] by (cases "fold resource_row rs ([], [])") simp
qed

lemma table_last:
  assumes "list_all single_volume (before @ r # after)" "replica_status r = Some st"
    and "\<forall>r' \<in> set after. rv_Name r' = rv_Name r \<longrightarrow> replica_status r' = None"
  shows "map_of (fst (fold resource_row (before @ r # after) ([], []))) (rv_Name r) =
    Some (replica_row r (int (replicas (rv_Name r) (before @ [r]))) st)"
  using assms(1,3)
proof (induction after rule: rev_induct)
  case Nil
  then have inv: "table_inv before (fold resource_row before ([], []))" by (intro table_inv_fold) simp
  obtain m w where mw: "fold resource_row before ([], []) = (m, w)" by force
  from resource_row_single [of r before m w] inv Nil.prems assms(2) mw show ?case by auto
next
  case (snoc r' after)
  let ?rs = "before @ r # after"
  have inv: "table_inv ?rs (fold resource_row ?rs ([], []))" using snoc.prems by (intro table_inv_fold) simp
  obtain m w where mw: "fold resource_row ?rs ([], []) = (m, w)" by force
  have IH: "map_of m (rv_Name r) = Some (replica_row r (int (replicas (rv_Name r) (before @ [r]))) st)"
    using snoc mw by simp
  obtain w' where step: "resource_row r' (m, w) =
      ((case replica_status r' of
          None \<Rightarrow> m
        | Some st \<Rightarrow> AList.update (rv_Name r') (replica_row r' (int (replicas (rv_Name r') (?rs @ [r']))) st) m), w')"
    using resource_row_single [of r' ?rs m w] inv snoc.prems mw by auto
  have "fold resource_row (before @ r # after @ [r']) ([], []) = resource_row r' (m, w)" using mw by simp
  then show ?case using step IH snoc.prems(2) by (auto split: option.splits)
qed

lemma mset_stable_insert: "mset (stable_insert lt x ys) = add_mset x (mset ys)"
  by (induction lt x ys rule: stable_insert.induct) auto

lemma set_SliceStable: "set (SliceStable lt xs) = set xs"
proof -
  have "mset (SliceStable lt xs) = mset xs" by (induction xs) (auto simp: SliceStable_def mset_stable_insert)
  then show ?thesis by (metis set_mset_mset)
qed

text \<open>
  The table shows of every resource what its last replica with a known state says: one row, with that
  replica's status and the number of replicas with a disk up to it. In particular an unhealthy replica
  is not seen when a healthy or synchronizing one comes later, although the code has a branch meant to
  keep the unhealthy status.
\<close>

theorem GetResources_shows_last_replica:
  assumes "list_all single_volume (before @ r # after)" "replica_status r = Some st"
    and "\<forall>r' \<in> set after. rv_Name r' = rv_Name r \<longrightarrow> replica_status r' = None"
    and "\<forall>rows. mset (visit rows) = mset rows"
  shows "\<exists>row \<in> set (GetResources visit (before @ r # after)).
    cell row ''name'' = rv_Name r \<and> cell row ''status'' = st \<and>
    cell row ''mirrorWay'' = show_int (int (replicas (rv_Name r) (before @ [r]))) \<and>
    (\<forall>row' \<in> set (GetResources visit (before @ r # after)). cell row' ''name'' = rv_Name r \<longrightarrow> row' = row)"
proof -
  let ?rs = "before @ r # after"
  obtain m w where mw: "fold resource_row ?rs ([], []) = (m, w)" by force
  have inv: "table_inv ?rs (m, w)" using table_inv_fold [OF assms(1)] mw by simp
  let ?row = "replica_row r (int (replicas (rv_Name r) (before @ [r]))) st"
  have last: "map_of m (rv_Name r) = Some ?row" using table_last [OF assms(1-3)] mw by simp
  have visit: "set (visit rows) = set rows" for rows using assms(4) by (metis set_mset_mset)
  have rows: "set (GetResources visit ?rs) = snd ` set m"
    unfolding GetResources_def mw by (simp add: visit set_SliceStable)
  have member: "?row \<in> snd ` set m" using map_of_SomeD [OF last] by force
  have unique: "row' = ?row" if "row' \<in> snd ` set m" "cell row' ''name'' = rv_Name r" for row'
  proof -
    from that(1) obtain n where "(n, row') \<in> set m" by auto
    then have n: "map_of m n = Some row'" using inv by (simp add: table_inv_def wf_map_map_of)
    then have "n = rv_Name r" using inv that(2) by (auto simp: table_inv_def)
    with n last show ?thesis by simp
  qed
  show ?thesis
    unfolding rows by (rule bexI [OF _ member]) (use unique in \<open>blast intro: replica_row_cells\<close>)
qed

definition demo_replica :: "string \<Rightarrow> string \<Rightarrow> bool \<Rightarrow> resource_view" where
  "demo_replica node state connected =
     \<lparr>rv_Name = ''res'', rv_NodeName = node, rv_Flags = [], rv_InUse = None, rv_CreateTimestamp = None,
      rv_Connections = [(''peer'', \<lparr>dc_Connected = connected, dc_Message = ''Connecting''\<rparr>)],
      rv_Volumes = [\<lparr>lv_AllocatedSizeKib = 1, lv_DevicePath = ''/dev/drbd1000'', lv_DiskState = state, lv_StoragePoolName = ''p''\<rparr>]\<rparr>"

theorem GetResources_shows_last_replica_witness:
  "replica_status (demo_replica ''n1'' ''UpToDate'' False) = Some ''Unhealthy'' \<and>
   (\<exists>row \<in> set (GetResources id [demo_replica ''n1'' ''UpToDate'' False, demo_replica ''n2'' ''SyncTarget'' True]).
      cell row ''name'' = ''res'' \<and> cell row ''status'' = ''Synching'')"
proof -
  have "replica_status (demo_replica ''n2'' ''SyncTarget'' True) = Some ''Synching''"
    by (simp add: replica_status_def demo_replica_def HasPrefix_def)
  from GetResources_shows_last_replica
    [of "[demo_replica ''n1'' ''UpToDate'' False]" "demo_replica ''n2'' ''SyncTarget'' True" "[]", OF _ this, of id]
  show ?thesis
    by (simp add: single_volume_def) (auto simp: demo_replica_def replica_status_def connFail_def)
qed

section \<open>Creating a resource\<close>

definition undo :: "'s linstor_api \<Rightarrow> string \<Rightarrow> linstor_error \<Rightarrow> ('s, unit) lin" where
  "undo api n e = lin_bind (lin_ignore () (la_DefinitionDelete api n)) (\<lambda>_. lin_error e)"

lemma undo_run: "undo api n e s = (Refused e, snd (la_DefinitionDelete api n s))"
  by (simp add: undo_def lin_bind_def lin_ignore_def lin_try_def lin_call_def lin_return_def lin_error_def
      split: prod.splits sum.splits)

lemma CreateResource_run:
  assumes "ParseSize Size = (sz, None)" "la_DefinitionGet api n s = (r1, s1)"
    and "la_DefinitionCreate api n s1 = (r2, s2)" "la_CreateVolumeDefinition api n sz s2 = (r3, s3)"
  shows "CreateResource api n sps Size s =
    (case r1 of
       Inr _ \<Rightarrow> (Refused (ApiCallError (- 1) (''resource definition : '' @ n @ '' already exists'')), s1)
     | Inl _ \<Rightarrow>
         (case r2 of
            Inl e \<Rightarrow> undo api n e s2
          | Inr _ \<Rightarrow> (case r3 of Inl e \<Rightarrow> undo api n e s3 | Inr _ \<Rightarrow> create_replicas api n sps s3)))"
  using assms by (simp add: CreateResource_def lin_try_def lin_call_def lin_error_def undo_def [abs_def] Let_def split: sum.splits)

text \<open>
  What the code relies on of the LINSTOR controller, in terms of the resource definitions it has and the
  nodes that hold a replica of a resource: reading changes nothing, a definition is there once it has
  been created and not there once it has been deleted, a replica is there once it has been created, and
  creating something removes nothing.
\<close>

locale linstor_controller =
  fixes api :: "'s linstor_api" and defined :: "'s \<Rightarrow> string set" and placed :: "'s \<Rightarrow> string \<Rightarrow> string set"
  assumes get: "la_DefinitionGet api n s = (r, s') \<Longrightarrow> defined s' = defined s"
    and create: "la_DefinitionCreate api n s = (Inr (), s') \<Longrightarrow> n \<in> defined s'"
    and remove: "la_DefinitionDelete api n s = (Inr (), s') \<Longrightarrow> n \<notin> defined s'"
    and volume: "la_CreateVolumeDefinition api n sz s = (Inr (), s') \<Longrightarrow> defined s \<subseteq> defined s'"
    and place: "la_ResourcesCreate api n node props s = (Inr (), s') \<Longrightarrow>
      node \<in> placed s' n \<and> placed s n \<subseteq> placed s' n \<and> defined s \<subseteq> defined s'"
begin

text \<open>The last call was the one that deletes the definition; when it succeeded the definition is gone.\<close>

definition deleted_last :: "string \<Rightarrow> 's \<Rightarrow> bool" where
  "deleted_last n s' \<longleftrightarrow> (\<exists>before d. la_DefinitionDelete api n before = (d, s') \<and> (d = Inr () \<longrightarrow> n \<notin> defined s'))"

lemma rollback: "undo api n e s = (r, s') \<Longrightarrow> deleted_last n s'"
  unfolding deleted_last_def using remove [of n s s'] by (cases "la_DefinitionDelete api n s") (auto simp: undo_run)

lemma create_replicas_failed:
  "create_replicas api n sps s = (Refused e, s') \<Longrightarrow> deleted_last n s'"
proof (induction sps arbitrary: s)
  case (Cons spn sps)
  then obtain sp node rest where spn: "spn = sp # node # rest"
    by (auto simp: lin_crash_def split: list.splits)
  show ?case
  proof (cases "la_ResourcesCreate api n node [(''StorPoolName'', sp)] s")
    case (Pair r s1)
    with Cons rollback [of n _ s1] show ?thesis
      by (cases r) (auto simp: spn lin_try_def lin_call_def undo_def)
  qed
qed (simp add: lin_return_def)

lemma create_replicas_crashed:
  "create_replicas api n sps s = (Crashed, s') \<Longrightarrow> \<exists>spn \<in> set sps. length spn < 2"
proof (induction sps arbitrary: s)
  case (Cons spn sps)
  show ?case
  proof (cases "\<exists>sp node rest. spn = sp # node # rest")
    case True
    then obtain sp node rest where spn: "spn = sp # node # rest" by blast
    obtain r s1 where r: "la_ResourcesCreate api n node [(''StorPoolName'', sp)] s = (r, s1)" by force
    show ?thesis
    proof (cases r)
      case (Inl e)
      then show ?thesis using Cons.prems r undo_run [of api n e s1] by (simp add: spn lin_try_def lin_call_def undo_def)
    next
      case (Inr u)
      then show ?thesis using Cons r by (simp add: spn lin_try_def lin_call_def)
    qed
  next
    case False
    then have "length spn < 2" by (cases spn; cases "tl spn") auto
    then show ?thesis by simp
  qed
qed (simp add: lin_return_def)

lemma create_replicas_done:
  "create_replicas api n sps s = (Reply (), s') \<Longrightarrow>
   defined s \<subseteq> defined s' \<and> placed s n \<subseteq> placed s' n \<and> (\<forall>spn \<in> set sps. 2 \<le> length spn \<and> spn ! 1 \<in> placed s' n)"
proof (induction sps arbitrary: s)
  case (Cons spn sps)
  then obtain sp node rest where spn: "spn = sp # node # rest"
    by (auto simp: lin_crash_def split: list.splits)
  show ?case
  proof (cases "la_ResourcesCreate api n node [(''StorPoolName'', sp)] s")
    case (Pair r s1)
    show ?thesis
    proof (cases r)
      case (Inl e)
      with Pair Cons.prems show ?thesis
        by (auto simp: spn lin_try_def lin_call_def lin_bind_def lin_ignore_def lin_return_def lin_error_def
            split: prod.splits sum.splits)
    next
      case (Inr u)
      with Pair Cons.prems have "create_replicas api n sps s1 = (Reply (), s')"
        by (simp add: spn lin_try_def lin_call_def)
      from Cons.IH [OF this] place [of n node _ s s1] Pair Inr show ?thesis
        by (auto simp: spn) blast+
    qed
  qed
qed (simp add: lin_return_def)

lemma CreateResource_failed:
  assumes "CreateResource api n sps Size s = (Refused e, s')"
  shows "snd (ParseSize Size) \<noteq> None \<and> s' = s \<or>
    (\<exists>found. la_DefinitionGet api n s = (Inr found, s') \<and> defined s' = defined s) \<or>
    deleted_last n s'"
proof (cases "snd (ParseSize Size) = None")
  case False
  with assms show ?thesis by (auto simp: CreateResource_def lin_error_def split: prod.splits)
next
  case True
  then obtain sz where sz: "ParseSize Size = (sz, None)" by (cases "ParseSize Size") auto
  obtain r1 s1 where g: "la_DefinitionGet api n s = (r1, s1)" by force
  obtain r2 s2 where c: "la_DefinitionCreate api n s1 = (r2, s2)" by force
  obtain r3 s3 where v: "la_CreateVolumeDefinition api n sz s2 = (r3, s3)" by force
  note run = assms [unfolded CreateResource_run [OF sz g c v]]
  consider found where "r1 = Inr found" "s' = s1" | e where "undo api n e s2 = (Refused e, s')"
    | e where "undo api n e s3 = (Refused e, s')" | "create_replicas api n sps s3 = (Refused e, s')"
    using run by (auto simp: undo_run split: sum.splits)
  then show ?thesis
  proof cases
    case 1
    then show ?thesis using g get [OF g] by auto
  qed (auto intro: rollback create_replicas_failed)
qed

lemma CreateResource_crashed:
  assumes "CreateResource api n sps Size s = (Crashed, s')"
  shows "\<exists>spn \<in> set sps. length spn < 2"
proof -
  obtain sz where sz: "ParseSize Size = (sz, None)"
    using assms by (cases "ParseSize Size") (auto simp: CreateResource_def lin_error_def Let_def split: if_splits)
  obtain r1 s1 where g: "la_DefinitionGet api n s = (r1, s1)" by force
  obtain r2 s2 where c: "la_DefinitionCreate api n s1 = (r2, s2)" by force
  obtain r3 s3 where v: "la_CreateVolumeDefinition api n sz s2 = (r3, s3)" by force
  have "create_replicas api n sps s3 = (Crashed, s')"
    using assms [unfolded CreateResource_run [OF sz g c v]] by (auto simp: undo_run split: sum.splits)
  then show ?thesis by (rule create_replicas_crashed)
qed

lemma CreateResource_done:
  assumes "CreateResource api n sps Size s = (Reply (), s')"
  shows "n \<in> defined s' \<and> (\<forall>spn \<in> set sps. 2 \<le> length spn \<and> spn ! 1 \<in> placed s' n)"
proof -
  obtain sz where sz: "ParseSize Size = (sz, None)"
    using assms by (cases "ParseSize Size") (auto simp: CreateResource_def lin_error_def Let_def split: if_splits)
  obtain r1 s1 where g: "la_DefinitionGet api n s = (r1, s1)" by force
  obtain r2 s2 where c: "la_DefinitionCreate api n s1 = (r2, s2)" by force
  obtain r3 s3 where v: "la_CreateVolumeDefinition api n sz s2 = (r3, s3)" by force
  note run = assms [unfolded CreateResource_run [OF sz g c v]]
  from run have ok: "r2 = Inr ()" "r3 = Inr ()" "create_replicas api n sps s3 = (Reply (), s')"
    by (auto simp: undo_run split: sum.splits)
  from create_replicas_done [OF ok(3)] create [of n s1 s2] volume [of n _ s2 s3] c v ok show ?thesis by blast
qed

end

text \<open>
  C32: Creating a resource reports success only when the definition is there with a replica on every node asked for. When it
  reports an error, the size could not be read and nothing was done; or the name was taken and no definition was created
  or removed; or the last thing it did was to ask the controller to delete the definition, which is gone if the controller
  did so. It panics only when a pool is given without a node.
\<close>

theorem CreateResource_all_or_nothing:
  assumes "linstor_controller api defined placed" "CreateResource api n sps Size s = (r, s')"
  shows "(r = Reply () \<longrightarrow> n \<in> defined s' \<and> (\<forall>spn \<in> set sps. 2 \<le> length spn \<and> spn ! 1 \<in> placed s' n)) \<and>
    (\<forall>e. r = Refused e \<longrightarrow>
       snd (ParseSize Size) \<noteq> None \<and> s' = s \<or>
       (\<exists>found. la_DefinitionGet api n s = (Inr found, s') \<and> defined s' = defined s) \<or>
       (\<exists>before d. la_DefinitionDelete api n before = (d, s') \<and> (d = Inr () \<longrightarrow> n \<notin> defined s'))) \<and>
    (r = Crashed \<longrightarrow> (\<exists>spn \<in> set sps. length spn < 2))"
  using linstor_controller.CreateResource_failed [OF assms(1), of n sps Size s]
    linstor_controller.CreateResource_done [OF assms(1), of n sps Size s]
    linstor_controller.CreateResource_crashed [OF assms(1), of n sps Size s] assms(2)
  unfolding linstor_controller.deleted_last_def [OF assms(1)] by blast

text \<open>
  Creating a resource can destroy an existing one: when the question whether the definition exists fails
  for another reason, such as a time-out, the code tries to create it, and when that is refused because
  it exists, deletes it before it reports the error.
\<close>

theorem CreateResource_destroys_existing:
  assumes "linstor_controller api defined placed" "snd (ParseSize Size) = None"
    and "n \<in> defined s" "la_DefinitionGet api n s = (Inl timeout, s1)"
    and "la_DefinitionCreate api n s1 = (Inl already_exists, s2)" "la_DefinitionDelete api n s2 = (Inr (), s3)"
  shows "CreateResource api n sps Size s = (Refused already_exists, s3) \<and> n \<notin> defined s3"
proof
  obtain sz where sz: "ParseSize Size = (sz, None)" using assms(2) by (cases "ParseSize Size") auto
  obtain r3 t3 where v: "la_CreateVolumeDefinition api n sz s2 = (r3, t3)" by force
  show "CreateResource api n sps Size s = (Refused already_exists, s3)"
    by (simp add: CreateResource_run [OF sz assms(4,5) v] undo_run assms(6))
  show "n \<notin> defined s3" by (rule linstor_controller.remove [OF assms(1,6)])
qed

section \<open>A controller in memory\<close>

text \<open>
  A controller that satisfies the contract: definitions with the nodes of their replicas, and a number of
  requests that will time out.
\<close>

record mem_cluster =
  mc_definitions :: "(string, string list) gomap"
  mc_timeouts :: nat

definition mem_defined :: "mem_cluster \<Rightarrow> string set" where
  "mem_defined s = set (map fst (mc_definitions s))"

definition mem_placed :: "mem_cluster \<Rightarrow> string \<Rightarrow> string set" where
  "mem_placed s n = set (map_get [] (mc_definitions s) n)"

definition mem_when :: "bool \<Rightarrow> string \<Rightarrow> mem_cluster \<Rightarrow> mem_cluster \<Rightarrow> (linstor_error, unit) result \<times> mem_cluster" where
  "mem_when ok msg s' s = (if ok then (Inr (), s') else (Inl (LibraryError msg), s))"

definition mem_linstor :: "mem_cluster linstor_api" where
  "mem_linstor =
     \<lparr>la_GetResourceView = (\<lambda>s. (Inr [], s)), la_NodesGetAll = (\<lambda>s. (Inr [], s)),
      la_NodesGet = (\<lambda>n s. (Inr (), s)), la_NodesCreate = (\<lambda>n s. (Inr (), s)), la_NodesDelete = (\<lambda>n s. (Inr (), s)),
      la_GetStoragePools = (\<lambda>n s. (Inr [], s)), la_GetStoragePoolView = (\<lambda>s. (Inr [], s)),
      la_CreateStoragePool = (\<lambda>n sp s. (Inr (), s)), la_DeleteStoragePool = (\<lambda>n sp s. (Inr (), s)),
      la_DefinitionGet = (\<lambda>n s.
        if mc_timeouts s > 0 then (Inl (LibraryError ''timeout''), s\<lparr>mc_timeouts := mc_timeouts s - 1\<rparr>)
        else mem_when (n \<in> mem_defined s) ''not found'' s s),
      la_DefinitionCreate = (\<lambda>n s.
        mem_when (n \<notin> mem_defined s) ''already exists'' (s\<lparr>mc_definitions := AList.update n [] (mc_definitions s)\<rparr>) s),
      la_DefinitionDelete = (\<lambda>n s. (Inr (), s\<lparr>mc_definitions := AList.delete n (mc_definitions s)\<rparr>)),
      la_CreateVolumeDefinition = (\<lambda>n sz s. mem_when (n \<in> mem_defined s) ''not found'' s s),
      la_ResourcesCreate = (\<lambda>n node props s.
        mem_when (n \<in> mem_defined s) ''not found''
          (s\<lparr>mc_definitions := AList.update n (map_get [] (mc_definitions s) n @ [node]) (mc_definitions s)\<rparr>) s),
      la_ResourcesGetAll = (\<lambda>n s. (Inr (map_get [] (mc_definitions s) n), s)),
      la_ResourcesDelete = (\<lambda>n node s.
        (Inr (), s\<lparr>mc_definitions := AList.update n (filter (\<lambda>m. m \<noteq> node) (map_get [] (mc_definitions s) n)) (mc_definitions s)\<rparr>))\<rparr>"

lemma mem_defined_dom: "mem_defined s = dom (map_of (mc_definitions s))"
  by (simp add: mem_defined_def dom_map_of_conv_image_fst)

interpretation mem_controller: linstor_controller mem_linstor mem_defined mem_placed
  by unfold_locales
    (auto simp: mem_linstor_def mem_when_def mem_defined_dom mem_placed_def map_get_update split: if_splits)

definition demo_cluster :: mem_cluster where
  "demo_cluster = \<lparr>mc_definitions = [(''res'', [''n1'', ''n2''])], mc_timeouts = 1\<rparr>"

lemma demo_size: "snd (ParseSize ''10G'') = None"
proof -
  have "parse_digits 0 ''10'' = Some 10" by (simp add: digit_value_def)
  from ParseSize_unit [OF this, of "CHR ''G''" "[]"] show ?thesis by (simp add: ToUpper_def)
qed

theorem CreateResource_all_or_nothing_witness:
  "\<exists>s'. CreateResource mem_linstor ''new'' [[''p'', ''n1'']] ''10G'' (demo_cluster\<lparr>mc_timeouts := 0\<rparr>) = (Reply (), s') \<and>
     ''new'' \<in> mem_defined s' \<and> ''n1'' \<in> mem_placed s' ''new''"
proof -
  obtain r s' where run: "CreateResource mem_linstor ''new'' [[''p'', ''n1'']] ''10G'' (demo_cluster\<lparr>mc_timeouts := 0\<rparr>) = (r, s')"
    by force
  obtain sz where size: "ParseSize ''10G'' = (sz, None)" using demo_size by (cases "ParseSize ''10G''") auto
  have r: "r = Reply ()"
    using run by (simp add: CreateResource_def size lin_try_def lin_call_def lin_return_def mem_linstor_def mem_when_def
        mem_defined_def demo_cluster_def Let_def)
  from CreateResource_all_or_nothing [OF mem_controller.linstor_controller_axioms run] r run show ?thesis by auto
qed

theorem CreateResource_destroys_existing_witness:
  "\<exists>s'. ''res'' \<in> mem_defined demo_cluster \<and> mem_placed demo_cluster ''res'' = {''n1'', ''n2''} \<and>
     CreateResource mem_linstor ''res'' [[''p'', ''n3'']] ''10G'' demo_cluster = (Refused (LibraryError ''already exists''), s') \<and>
     ''res'' \<notin> mem_defined s'"
proof -
  note size = demo_size
  have "la_DefinitionGet mem_linstor ''res'' demo_cluster = (Inl (LibraryError ''timeout''), demo_cluster\<lparr>mc_timeouts := 0\<rparr>)"
    and "la_DefinitionCreate mem_linstor ''res'' (demo_cluster\<lparr>mc_timeouts := 0\<rparr>) =
      (Inl (LibraryError ''already exists''), demo_cluster\<lparr>mc_timeouts := 0\<rparr>)"
    and "la_DefinitionDelete mem_linstor ''res'' (demo_cluster\<lparr>mc_timeouts := 0\<rparr>) =
      (Inr (), \<lparr>mc_definitions = [], mc_timeouts = 0\<rparr>)"
    and "''res'' \<in> mem_defined demo_cluster" and "mem_placed demo_cluster ''res'' = {''n1'', ''n2''}"
    by (simp_all add: mem_linstor_def mem_when_def mem_defined_def mem_placed_def map_get_def demo_cluster_def)
  with CreateResource_destroys_existing [OF mem_controller.linstor_controller_axioms size] show ?thesis by blast
qed

end
