(* ===== verification/Linstor_Lvm.thy ===== *)
theory Linstor_Lvm
  imports Linstor
begin

text \<open>
  LVM administration over SSH (\<^verbatim>\<open>pkg/models/versatel/v1alpha1/linstor/versassh.go\<close>): a process-wide list
  of connections, one per node of the cluster, dropped after a failed command; commands that create and
  remove volumes on a node; and the tables made from the output of \<^verbatim>\<open>pvs\<close>, \<^verbatim>\<open>vgs\<close> and \<^verbatim>\<open>lvs\<close>.

  The SSH library is a parameter: dialling, opening a session and running a command are functions on
  its state.
\<close>

section \<open>Connections\<close>

record ('c, 't) ssh_library =
  ssh_Dial :: "string \<Rightarrow> 't \<Rightarrow> (string, 'c) result \<times> 't"
  ssh_NewSession :: "'c \<Rightarrow> 't \<Rightarrow> string option \<times> 't"
  ssh_CombinedOutput :: "'c \<Rightarrow> string \<Rightarrow> 't \<Rightarrow> (string \<times> string option) \<times> 't"

text \<open>
  The world of the package: the cluster, the SSH library, the variable \<^verbatim>\<open>sshlist.Connects\<close> (nil is the
  empty list) and the history of commands run, each with the host of its connection.
\<close>

record ('s, 'c, 't) lvm_world =
  lw_cluster :: 's
  lw_ssh :: 't
  lw_Connects :: "(string \<times> 'c) list"
  lw_history :: "(string \<times> string) list"

definition on_cluster :: "('s, 'a) lin \<Rightarrow> (('s, 'c, 't) lvm_world, 'a) lin" where
  "on_cluster m w = (let (r, s) = m (lw_cluster w) in (r, w\<lparr>lw_cluster := s\<rparr>))"

text \<open>The first dotted quadruple of numbers in a text.\<close>

definition is_digit :: "char \<Rightarrow> bool" where
  "is_digit c \<longleftrightarrow> digit_value c \<noteq> None"

fun match_quad :: "nat \<Rightarrow> string \<Rightarrow> string option" where
  "match_quad 0 s = (let d = takeWhile is_digit s in if d = [] then None else Some d)"
| "match_quad (Suc n) s =
     (let d = takeWhile is_digit s in
      if d = [] then None
      else
        (case dropWhile is_digit s of
           c # rest \<Rightarrow>
             (if c = CHR ''.'' then map_option (\<lambda>m. d @ ''.'' @ m) (match_quad n rest) else None)
         | [] \<Rightarrow> None))"

fun find_address :: "string \<Rightarrow> string option" where
  "find_address [] = None"
| "find_address (c # s) = (case match_quad 3 (c # s) of Some m \<Rightarrow> Some m | None \<Rightarrow> find_address s)"

text \<open>
  Connecting to the nodes: a row without an address panics, a refused connection ends the process, and
  the controller's own address is left out.
\<close>

fun connect_nodes :: "('c, 't) ssh_library \<Rightarrow> row list \<Rightarrow> (('s, 'c, 't) lvm_world, unit) lin" where
  "connect_nodes ssh [] w = (Reply (), w)"
| "connect_nodes ssh (node # nodes) w =
     (case find_address (cell node ''addr'') of
        None \<Rightarrow> (Crashed, w)
      | Some ip \<Rightarrow>
          (if ip \<noteq> ''10.203.1.240'' then
             (case ssh_Dial ssh ip (lw_ssh w) of
                (Inl e, t) \<Rightarrow> (Crashed, w\<lparr>lw_ssh := t, lw_Connects := []\<rparr>)
              | (Inr conn, t) \<Rightarrow>
                  connect_nodes ssh nodes
                    (w\<lparr>lw_ssh := t, lw_Connects := lw_Connects w @ [(cell node ''name'', conn)]\<rparr>))
           else connect_nodes ssh nodes w))"

definition GetNodesIP :: "'s linstor_api \<Rightarrow> ('s, row list) lin" where
  "GetNodesIP api =
     lin_bind (GetNodeData api) (\<lambda>data.
     lin_return (map (\<lambda>node. [(''name'', cell node ''name''), (''addr'', cell node ''addr'')]) data))"

definition DoSshs :: "'s linstor_api \<Rightarrow> ('c, 't) ssh_library \<Rightarrow> (('s, 'c, 't) lvm_world, unit) lin" where
  "DoSshs api ssh = lin_bind (on_cluster (GetNodesIP api)) (connect_nodes ssh)"

definition GetSshList :: "'s linstor_api \<Rightarrow> ('c, 't) ssh_library \<Rightarrow> (('s, 'c, 't) lvm_world, unit) lin" where
  "GetSshList api ssh w = (if lw_Connects w = [] then DoSshs api ssh w else (Reply (), w))"

text \<open>
  When no session can be opened the code goes on with a nil session, which panics; a command that fails
  drops all connections.
\<close>

definition SshCmd ::
  "('c, 't) ssh_library \<Rightarrow> string \<times> 'c \<Rightarrow> string \<Rightarrow> (('s, 'c, 't) lvm_world, string \<times> string option) lin" where
  "SshCmd ssh cli cmd w =
     (case ssh_NewSession ssh (snd cli) (lw_ssh w) of
        (Some e, t) \<Rightarrow> (Crashed, w\<lparr>lw_ssh := t, lw_Connects := []\<rparr>)
      | (None, t) \<Rightarrow>
          (let ((combo, err), t') = ssh_CombinedOutput ssh (snd cli) cmd t;
               w' = w\<lparr>lw_ssh := t', lw_history := lw_history w @ [(fst cli, cmd)]\<rparr>
           in (Reply (combo, err), if err \<noteq> None then w'\<lparr>lw_Connects := []\<rparr> else w')))"

section \<open>Commands\<close>

text \<open>The first connection to the node runs the command; the result is its error, or that there is no such node.\<close>

definition run_on_node ::
  "'s linstor_api \<Rightarrow> ('c, 't) ssh_library \<Rightarrow> string \<Rightarrow> string \<Rightarrow> (('s, 'c, 't) lvm_world, unit) lin" where
  "run_on_node api ssh nodeName cmd =
     lin_bind (GetSshList api ssh) (\<lambda>_ w.
       case find (\<lambda>cli. nodeName = fst cli) (lw_Connects w) of
         None \<Rightarrow> lin_error (LibraryError (''Can not find the node: '' @ nodeName)) w
       | Some cli \<Rightarrow>
           lin_bind (SshCmd ssh cli cmd) (\<lambda>(_, err).
             case err of None \<Rightarrow> lin_return () | Some e \<Rightarrow> lin_error (LibraryError e)) w)"

definition CreatePV :: "'s linstor_api \<Rightarrow> ('c, 't) ssh_library \<Rightarrow> string \<Rightarrow> string \<Rightarrow> (('s, 'c, 't) lvm_world, unit) lin" where
  "CreatePV api ssh devName nodeName = run_on_node api ssh nodeName (''pvcreate '' @ devName)"

definition CreateVG ::
  "'s linstor_api \<Rightarrow> ('c, 't) ssh_library \<Rightarrow> string \<Rightarrow> string \<Rightarrow> string \<Rightarrow> (('s, 'c, 't) lvm_world, unit) lin" where
  "CreateVG api ssh pvName vgName nodeName = run_on_node api ssh nodeName (''vgcreate '' @ vgName @ '' '' @ pvName)"

definition CreateThinPool ::
  "'s linstor_api \<Rightarrow> ('c, 't) ssh_library \<Rightarrow> string \<Rightarrow> string \<Rightarrow> string \<Rightarrow> string \<Rightarrow> (('s, 'c, 't) lvm_world, unit) lin" where
  "CreateThinPool api ssh sz thinPoolName vgName nodeName =
     run_on_node api ssh nodeName (''lvcreate -L '' @ sz @ '' --thinpool '' @ thinPoolName @ '' '' @ vgName)"

definition CreateLV ::
  "'s linstor_api \<Rightarrow> ('c, 't) ssh_library \<Rightarrow> string \<Rightarrow> string \<Rightarrow> string \<Rightarrow> string \<Rightarrow> string \<Rightarrow>
   (('s, 'c, 't) lvm_world, unit) lin" where
  "CreateLV api ssh sz lvName thinPoolName vgName nodeName =
     run_on_node api ssh nodeName
       (''lvcreate -V '' @ sz @ '' --thin -n '' @ lvName @ '' '' @ vgName @ ''/'' @ thinPoolName)"

definition DeletePV :: "'s linstor_api \<Rightarrow> ('c, 't) ssh_library \<Rightarrow> string \<Rightarrow> string \<Rightarrow> (('s, 'c, 't) lvm_world, unit) lin" where
  "DeletePV api ssh devName nodeName = run_on_node api ssh nodeName (''pvremove -y'' @ devName)"

definition DeleteVG :: "'s linstor_api \<Rightarrow> ('c, 't) ssh_library \<Rightarrow> string \<Rightarrow> string \<Rightarrow> (('s, 'c, 't) lvm_world, unit) lin" where
  "DeleteVG api ssh vgName nodeName = run_on_node api ssh nodeName (''vgremove -y'' @ vgName)"

definition DeleteThinPool :: "'s linstor_api \<Rightarrow> ('c, 't) ssh_library \<Rightarrow> string \<Rightarrow> string \<Rightarrow> (('s, 'c, 't) lvm_world, unit) lin" where
  "DeleteThinPool api ssh thinPoolName nodeName = run_on_node api ssh nodeName (''lvremove -y '' @ thinPoolName)"

definition DeleteLV :: "'s linstor_api \<Rightarrow> ('c, 't) ssh_library \<Rightarrow> string \<Rightarrow> string \<Rightarrow> (('s, 'c, 't) lvm_world, unit) lin" where
  "DeleteLV api ssh lvName nodeName = run_on_node api ssh nodeName (''lvremove -y '' @ lvName)"

section \<open>Tables from command output\<close>

definition is_space :: "char \<Rightarrow> bool" where
  "is_space c \<longleftrightarrow> of_char c \<in> {9 :: nat, 10, 12, 13, 32}"

definition word_char :: "char \<Rightarrow> bool" where
  "word_char c \<longleftrightarrow>
     (let n = of_char c :: nat in 48 \<le> n \<and> n \<le> 57 \<or> 65 \<le> n \<and> n \<le> 90 \<or> 97 \<le> n \<and> n \<le> 122 \<or> n = 95)"

text \<open>The maximal runs of characters that satisfy a predicate: lines and fields of an output.\<close>

function runs :: "(char \<Rightarrow> bool) \<Rightarrow> string \<Rightarrow> string list" where
  "runs P [] = []"
| "runs P (c # s) =
     (if P c then (c # takeWhile P s) # runs P (dropWhile P s) else runs P s)"
  by pat_completeness auto
termination
  by (relation "measure (length \<circ> snd)") (auto simp: length_dropWhile_le le_imp_less_Suc)

definition output_lines :: "string \<Rightarrow> string list" where
  "output_lines = runs (\<lambda>c. c \<noteq> CHR 0x0A)"

definition fields :: "string \<Rightarrow> string list" where
  "fields = runs (\<lambda>c. \<not> is_space c)"

text \<open>
  The patterns with a look-behind: the text that \<open>m\<close> matches at the first position that comes after a
  space and any characters that are not digits. The first argument says whether such a space has been
  passed.
\<close>

fun after_space :: "bool \<Rightarrow> (string \<Rightarrow> string option) \<Rightarrow> string \<Rightarrow> string option" where
  "after_space seen m [] = None"
| "after_space seen m (c # s) =
     (case (if seen then m (c # s) else None) of
        Some x \<Rightarrow> Some x
      | None \<Rightarrow> after_space (if is_space c then True else if is_digit c then False else seen) m s)"

definition match_number_unit :: "string \<Rightarrow> string option" where
  "match_number_unit s =
     (let d = takeWhile is_digit s in
      if d = [] then None
      else
        (case dropWhile is_digit s of
           c # rest \<Rightarrow>
             (if c = CHR ''.'' \<and> takeWhile word_char rest \<noteq> [] then Some (d @ ''.'' @ takeWhile word_char rest) else None)
         | [] \<Rightarrow> None))"

definition match_word :: "string \<Rightarrow> string option" where
  "match_word s = (let d = takeWhile (\<lambda>c. \<not> is_space c) s in if d = [] then None else Some d)"

definition vg_row :: "string \<Rightarrow> string \<Rightarrow> row option" where
  "vg_row host line =
     (case after_space False match_number_unit line of
        None \<Rightarrow> None
      | Some sz \<Rightarrow>
          Some [(''node'', host), (''vg'', case fields line of [] \<Rightarrow> [] | f # _ \<Rightarrow> f), (''size'', sz)])"

text \<open>A line of \<^verbatim>\<open>lvs\<close> with fewer than five fields is skipped; the fifth is the pool unless the third is a number.\<close>

definition lv_row :: "string \<Rightarrow> string \<Rightarrow> row option" where
  "lv_row host line =
     (let info = fields line in
      if length info < 5 then None
      else
        Some [(''node'', host), (''name'', info ! 0), (''vg'', info ! 1), (''size'', info ! 3),
          (''pool'', if \<not> Contains (info ! 2) ''.'' then info ! 4 else [])])"

fun all_rows :: "('a \<Rightarrow> 'b option) \<Rightarrow> 'a list \<Rightarrow> 'b list option" where
  "all_rows f [] = Some []"
| "all_rows f (x # xs) =
     (case f x of None \<Rightarrow> None | Some y \<Rightarrow> map_option ((#) y) (all_rows f xs))"

text \<open>The rows of one node; an output without a header line is cut out of range.\<close>

definition vg_rows :: "string \<Rightarrow> string \<Rightarrow> row list option" where
  "vg_rows host out = (case output_lines out of [] \<Rightarrow> None | _ # ls \<Rightarrow> all_rows (vg_row host) ls)"

definition lv_rows :: "string \<Rightarrow> string \<Rightarrow> row list option" where
  "lv_rows host out = (case output_lines out of [] \<Rightarrow> None | _ # ls \<Rightarrow> Some (List.map_filter (lv_row host) ls))"

text \<open>
  Disks other than the first in an output: the text from \<^verbatim>\<open>/dev/sd\<close> and a letter that is not \<open>a\<close> to the
  end of the line.
\<close>

definition match_device :: "string \<Rightarrow> (string \<times> string) option" where
  "match_device s =
     (if HasPrefix s ''/dev/sd'' then
        (case drop 7 s of
           [] \<Rightarrow> None
         | x # t \<Rightarrow>
             (if x \<noteq> CHR ''a'' \<and> takeWhile (\<lambda>c. c \<noteq> CHR 0x0A) t \<noteq> []
              then Some (''/dev/sd'' @ x # takeWhile (\<lambda>c. c \<noteq> CHR 0x0A) t, dropWhile (\<lambda>c. c \<noteq> CHR 0x0A) t)
              else None))
      else None)"

lemma match_device_shorter: "match_device s = Some (m, rest) \<Longrightarrow> length rest < length s"
proof -
  assume "match_device s = Some (m, rest)"
  then obtain x t where "drop 7 s = x # t" "rest = dropWhile (\<lambda>c. c \<noteq> CHR 0x0A) t"
    by (auto simp: match_device_def split: if_splits list.splits)
  then have "length rest \<le> length t" "Suc (length t) \<le> length s"
    using length_drop [of 7 s] by (auto simp: length_dropWhile_le)
  then show ?thesis by simp
qed

function device_texts :: "string \<Rightarrow> string list" where
  "device_texts [] = []"
| "device_texts (c # s) =
     (case match_device (c # s) of
        Some (m, rest) \<Rightarrow> m # device_texts rest
      | None \<Rightarrow> device_texts s)"
  by pat_completeness auto
termination
  by (relation "measure length") (auto dest: match_device_shorter)

text \<open>A line without a word after a space, or without a size, dereferences nil.\<close>

definition pv_row :: "string \<Rightarrow> string \<Rightarrow> row option" where
  "pv_row host text =
     (case (after_space False match_word text, after_space False match_number_unit text) of
        (Some vg, Some sz) \<Rightarrow>
          Some [(''node'', host), (''name'', take 8 text @ takeWhile (\<lambda>c. \<not> is_space c) (drop 8 text)),
            (''vg'', vg), (''size'', sz)]
      | _ \<Rightarrow> None)"

definition pv_rows :: "string \<Rightarrow> string \<Rightarrow> row list option" where
  "pv_rows host out = all_rows (pv_row host) (device_texts out)"

text \<open>The loop over the connections: the error of the command is dropped.\<close>

fun collect_rows ::
  "('c, 't) ssh_library \<Rightarrow> string \<Rightarrow> (string \<Rightarrow> string \<Rightarrow> row list option) \<Rightarrow> (string \<times> 'c) list \<Rightarrow>
   (('s, 'c, 't) lvm_world, row list) lin" where
  "collect_rows ssh cmd rows_of [] = lin_return []"
| "collect_rows ssh cmd rows_of (cli # clis) =
     lin_bind (SshCmd ssh cli cmd) (\<lambda>(replay, _).
       case rows_of (fst cli) replay of
         None \<Rightarrow> lin_crash
       | Some rs \<Rightarrow> lin_bind (collect_rows ssh cmd rows_of clis) (\<lambda>rest. lin_return (rs @ rest)))"

definition GetLvmPVs :: "'s linstor_api \<Rightarrow> ('c, 't) ssh_library \<Rightarrow> (('s, 'c, 't) lvm_world, row list) lin" where
  "GetLvmPVs api ssh =
     lin_bind (GetSshList api ssh) (\<lambda>_ w. collect_rows ssh ''pvs'' pv_rows (lw_Connects w) w)"

definition GetLvmVGs :: "'s linstor_api \<Rightarrow> ('c, 't) ssh_library \<Rightarrow> (('s, 'c, 't) lvm_world, row list) lin" where
  "GetLvmVGs api ssh =
     lin_bind (GetSshList api ssh) (\<lambda>_ w. collect_rows ssh ''vgs'' vg_rows (lw_Connects w) w)"

definition GetLvmLVs :: "'s linstor_api \<Rightarrow> ('c, 't) ssh_library \<Rightarrow> (('s, 'c, 't) lvm_world, row list) lin" where
  "GetLvmLVs api ssh =
     lin_bind (GetSshList api ssh) (\<lambda>_ w. collect_rows ssh ''lvs'' lv_rows (lw_Connects w) w)"

section \<open>What runs where\<close>

lemma on_cluster_frame: "on_cluster m w = (r, w') \<Longrightarrow> lw_history w' = lw_history w \<and> lw_Connects w' = lw_Connects w"
  by (auto simp: on_cluster_def Let_def split: prod.splits)

lemma connect_nodes_history: "connect_nodes ssh nodes w = (r, w') \<Longrightarrow> lw_history w' = lw_history w"
  by (induction ssh nodes w rule: connect_nodes.induct)
     (auto split: option.splits if_splits prod.splits sum.splits)

lemma GetSshList_history: "GetSshList api ssh w = (r, w') \<Longrightarrow> lw_history w' = lw_history w"
  by (auto simp: GetSshList_def DoSshs_def lin_bind_def lin_try_def lin_error_def
      dest!: on_cluster_frame connect_nodes_history split: if_splits prod.splits reply.splits)

lemma GetSshList_connected: "lw_Connects w \<noteq> [] \<Longrightarrow> GetSshList api ssh w = (Reply (), w)"
  by (simp add: GetSshList_def)

text \<open>Connecting never refuses: it succeeds, or the process is gone.\<close>

definition never_refuses :: "('s, 'a) lin \<Rightarrow> bool" where
  "never_refuses m \<longleftrightarrow> (\<forall>s e. fst (m s) \<noteq> Refused e)"

lemma never_refuses_bind [intro]:
  "never_refuses m \<Longrightarrow> (\<And>a. never_refuses (f a)) \<Longrightarrow> never_refuses (lin_bind m f)"
  unfolding never_refuses_def lin_bind_def lin_try_def
  by (auto split: prod.splits reply.splits) (metis fst_conv)

lemma never_refuses_leaf [intro]:
  "never_refuses (lin_return a)" "never_refuses lin_crash"
  "never_refuses (lin_ignore z c)" "never_refuses (lin_fatal c)"
  by (auto simp: never_refuses_def lin_return_def lin_crash_def lin_ignore_def lin_fatal_def lin_try_def lin_call_def
      split: prod.splits sum.splits)

lemma never_refuses_connect [intro]: "never_refuses (connect_nodes ssh nodes)"
  unfolding never_refuses_def
proof (intro allI)
  show "fst (connect_nodes ssh nodes w) \<noteq> Refused e" for w e
    by (induction ssh nodes w rule: connect_nodes.induct) (auto split: option.splits prod.splits sum.splits)
qed

lemma never_refuses_node_rows [intro]: "never_refuses (node_rows api resources nodes)"
proof (induction nodes)
  case (Cons node nodes)
  then show ?case unfolding node_rows.simps by (intro never_refuses_bind) (auto split: option.splits)
qed auto

lemma never_refuses_on_cluster [intro]: "never_refuses m \<Longrightarrow> never_refuses (on_cluster m)"
  unfolding never_refuses_def on_cluster_def Let_def by (auto split: prod.splits) (metis fst_conv)

lemma GetSshList_not_refused: "fst (GetSshList api ssh w) \<noteq> Refused e"
proof -
  have "never_refuses (DoSshs api ssh)"
    unfolding DoSshs_def GetNodesIP_def GetNodeData_def by blast
  then show ?thesis by (simp add: GetSshList_def never_refuses_def)
qed

lemma SshCmd_run:
  "SshCmd ssh cli cmd w = (r, w') \<Longrightarrow>
   (case r of
      Crashed \<Rightarrow> lw_history w' = lw_history w
    | Reply (out, err) \<Rightarrow>
        lw_history w' = lw_history w @ [(fst cli, cmd)] \<and>
        lw_Connects w' = (case err of None \<Rightarrow> lw_Connects w | Some _ \<Rightarrow> [])
    | Refused e \<Rightarrow> False)"
  by (auto simp: SshCmd_def Let_def split: prod.splits option.splits)

lemma run_on_node_run:
  assumes "run_on_node api ssh nodeName cmd w = (r, w')"
  shows "(r = Crashed \<and> lw_history w' = lw_history w) \<or>
    (r = Reply () \<and> lw_history w' = lw_history w @ [(nodeName, cmd)]) \<or>
    (\<exists>e. r = Refused (LibraryError e) \<and> lw_history w' = lw_history w @ [(nodeName, cmd)] \<and> lw_Connects w' = []) \<or>
    (r = Refused (LibraryError (''Can not find the node: '' @ nodeName)) \<and> lw_history w' = lw_history w)"
proof -
  obtain r1 w1 where g: "GetSshList api ssh w = (r1, w1)" by force
  note h = GetSshList_history [OF g]
  consider "r1 = Crashed" | "r1 = Reply ()"
    using GetSshList_not_refused [of api ssh w] g by (cases r1) auto
  then show ?thesis
  proof cases
    case 1
    with assms g h show ?thesis by (simp add: run_on_node_def lin_bind_def lin_try_def)
  next
    case 2
    show ?thesis
    proof (cases "find (\<lambda>cli. nodeName = fst cli) (lw_Connects w1)")
      case None
      with assms g h 2 show ?thesis by (simp add: run_on_node_def lin_bind_def lin_try_def lin_error_def)
    next
      case (Some cli)
      then have host: "fst cli = nodeName" by (auto simp: find_Some_iff)
      obtain r2 w2 where c: "SshCmd ssh cli cmd w1 = (r2, w2)" by force
      from SshCmd_run [OF c] assms g h 2 Some host c show ?thesis
        by (auto simp: run_on_node_def lin_bind_def lin_try_def lin_error_def lin_return_def
            split: reply.splits option.splits prod.splits)
    qed
  qed
qed

text \<open>
  An LVM operation runs its command at most once and on no other node than the one it names: when it
  reports success the command has run there, when it reports an error of the command all connections
  are dropped, and otherwise nothing has run.
\<close>

theorem lvm_command_runs_once:
  "case run_on_node api ssh nodeName cmd w of
     (Reply _, w') \<Rightarrow> lw_history w' = lw_history w @ [(nodeName, cmd)]
   | (Crashed, w') \<Rightarrow> lw_history w' = lw_history w
   | (Refused e, w') \<Rightarrow>
       lw_history w' = lw_history w @ [(nodeName, cmd)] \<and> lw_Connects w' = [] \<or>
       lw_history w' = lw_history w \<and> e = LibraryError (''Can not find the node: '' @ nodeName)"
  using run_on_node_run [of api ssh nodeName cmd w] by (auto split: prod.splits reply.splits)

lemma collect_rows_history:
  "collect_rows ssh cmd rows_of clis w = (r, w') \<Longrightarrow> \<exists>hs. set hs \<subseteq> set clis \<and> lw_history w' = lw_history w @ map (\<lambda>cli. (fst cli, cmd)) hs"
proof (induction clis arbitrary: w r w')
  case Nil
  then show ?case by (auto simp: lin_return_def)
next
  case (Cons cli clis)
  obtain r1 w1 where c: "SshCmd ssh cli cmd w = (r1, w1)" by force
  obtain r2 w2 where rest: "collect_rows ssh cmd rows_of clis w1 = (r2, w2)" by force
  from Cons.IH [OF rest] obtain hs where hs: "set hs \<subseteq> set clis" "lw_history w2 = lw_history w1 @ map (\<lambda>cli. (fst cli, cmd)) hs"
    by blast
  note run = SshCmd_run [OF c]
  have "w' = w1 \<or> w' = w2"
    using Cons.prems c rest
    by (auto simp: lin_bind_def lin_try_def lin_error_def lin_return_def lin_crash_def
        split: reply.splits option.splits prod.splits)
  moreover have "lw_history w1 = lw_history w \<or> lw_history w1 = lw_history w @ [(fst cli, cmd)]"
    using run by (auto split: reply.splits)
  ultimately show ?case
  proof (elim disjE)
    assume "w' = w1" "lw_history w1 = lw_history w"
    then show ?thesis by (intro exI [of _ "[]"]) simp
  next
    assume "w' = w1" "lw_history w1 = lw_history w @ [(fst cli, cmd)]"
    then show ?thesis by (intro exI [of _ "[cli]"]) simp
  next
    assume "w' = w2" "lw_history w1 = lw_history w"
    with hs show ?thesis by (intro exI [of _ hs]) auto
  next
    assume "w' = w2" "lw_history w1 = lw_history w @ [(fst cli, cmd)]"
    with hs show ?thesis by (intro exI [of _ "cli # hs"]) auto
  qed
qed

lemma table_commands:
  assumes "lin_bind (GetSshList api ssh) (\<lambda>_ w. collect_rows ssh cmd rows_of (lw_Connects w) w) w = (r, w')"
  shows "\<exists>hosts. lw_history w' = lw_history w @ map (\<lambda>h. (h, cmd)) hosts"
proof -
  obtain r1 w1 where g: "GetSshList api ssh w = (r1, w1)" by force
  note h = GetSshList_history [OF g]
  obtain r2 w2 where c: "collect_rows ssh cmd rows_of (lw_Connects w1) w1 = (r2, w2)" by force
  from assms g c have "w' = w1 \<or> w' = w2"
    by (auto simp: lin_bind_def lin_try_def lin_error_def split: reply.splits)
  then show ?thesis
  proof
    assume "w' = w1"
    with h show ?thesis by (intro exI [of _ "[]"]) simp
  next
    assume "w' = w2"
    moreover obtain hs where "set hs \<subseteq> set (lw_Connects w1)" "lw_history w2 = lw_history w1 @ map (\<lambda>cli. (fst cli, cmd)) hs"
      using collect_rows_history [OF c] by blast
    ultimately show ?thesis using h by (intro exI [of _ "map fst hs"]) simp
  qed
qed

end
