(* ===== verification/Versatel_Api.thy ===== *)
theory Versatel_Api
  imports Linstor_Lvm
begin

text \<open>
  The handlers of the \<^verbatim>\<open>versatel.kubesphere.io\<close> API group (\<^verbatim>\<open>pkg/kapis/versatel/v1alpha1/handler.go\<close>). A
  handler reads the request and writes documents to the response. Decoding a request body is the web
  framework's; the body a handler works on is an argument, \<^const>\<open>None\<close> when it could not be decoded.
\<close>

section \<open>Responses\<close>

datatype document =
    BadRequest
  | ErrorDoc linstor_error
  | Exists bool
  | Listing linstor_getter
  | RowDoc row
  | TextDoc string
  | NoError

type_synonym 's handler = "('s, document list) lin"

text \<open>The error of an operation as the only document of the response.\<close>

definition write_error :: "('s, 'a) lin \<Rightarrow> 's handler" where
  "write_error m = lin_try m (\<lambda>_. lin_return []) (\<lambda>e. lin_return [ErrorDoc e])"

definition write_exists :: "('s, 'a) lin \<Rightarrow> 's handler" where
  "write_exists m = lin_try m (\<lambda>_. lin_return [Exists True]) (\<lambda>_. lin_return [Exists False])"

definition write_list :: "query \<Rightarrow> row list \<Rightarrow> 's handler" where
  "write_list q data = (case list_rows q data of None \<Rightarrow> lin_crash | Some d \<Rightarrow> lin_return [Listing d])"

definition or_crash :: "'a option \<Rightarrow> ('s, 'a) lin" where
  "or_crash x = (case x of None \<Rightarrow> lin_crash | Some a \<Rightarrow> lin_return a)"

text \<open>
  The name in the metadata of a body: an untyped value that is read as a string and panics when it is
  missing or something else.
\<close>

type_synonym metadata_name = "string option"

section \<open>Nodes\<close>

definition handleListNodes :: "'s linstor_api \<Rightarrow> url_values \<Rightarrow> 's handler" where
  "handleListNodes api req =
     lin_bind (GetNodeData api) (\<lambda>data. write_list (ParseQueryParameter req) data)"

definition handle_DescribeNode :: "'s linstor_api \<Rightarrow> string \<Rightarrow> 's handler" where
  "handle_DescribeNode api nodename = write_exists (DescribeNode api nodename)"

definition handle_CreateNode :: "'s linstor_api \<Rightarrow> (metadata_name \<times> string \<times> string) option \<Rightarrow> 's handler" where
  "handle_CreateNode api body =
     (case body of
        None \<Rightarrow> lin_return [BadRequest]
      | Some (name, ip, nodeType) \<Rightarrow>
          lin_bind (or_crash name) (\<lambda>Name. write_error (CreateNode api Name ip nodeType)))"

definition handle_DeleteNode :: "'s linstor_api \<Rightarrow> string \<Rightarrow> 's handler" where
  "handle_DeleteNode api nodename = write_error (DeleteNode api nodename)"

section \<open>Storage pools\<close>

definition handleListStorgePools :: "'s linstor_api \<Rightarrow> url_values \<Rightarrow> 's handler" where
  "handleListStorgePools api req =
     lin_bind (GetSPData api) (\<lambda>data. write_list (ParseQueryParameter req) data)"

definition handle_DescribeStoragePool :: "'s linstor_api \<Rightarrow> string \<Rightarrow> 's handler" where
  "handle_DescribeStoragePool api spname =
     lin_bind (DescribeStoragePool api spname) (\<lambda>b. lin_return [Exists b])"

text \<open>The tables are read before the body is looked at; a pool is taken when a diskful resource names it, on any node.\<close>

definition available_pools :: "string \<Rightarrow> row list \<Rightarrow> row list \<Rightarrow> row list" where
  "available_pools nodeName allSPs diskfulResources =
     filter (\<lambda>sp. cell sp ''node'' = nodeName \<and>
       \<not> list_ex (\<lambda>res. cell res ''storagepool'' = cell sp ''name'') diskfulResources) allSPs"

definition GetAvailableStoragePools :: "'s linstor_api \<Rightarrow> string option \<Rightarrow> 's handler" where
  "GetAvailableStoragePools api body =
     lin_bind (GetSPData api) (\<lambda>allSPs.
     lin_bind (lin_ignore [] (la_GetResourceView api)) (\<lambda>resources.
     lin_bind (or_crash (GetResourcesDiskful resources)) (\<lambda>diskfulResources.
     case body of
       None \<Rightarrow> lin_return [BadRequest]
     | Some nodeName \<Rightarrow> lin_return (map RowDoc (available_pools nodeName allSPs diskfulResources)))))"

definition handle_CreateStoragePool ::
  "'s linstor_api \<Rightarrow> (metadata_name \<times> string \<times> string \<times> string) option \<Rightarrow> 's handler" where
  "handle_CreateStoragePool api body =
     (case body of
        None \<Rightarrow> lin_return [BadRequest]
      | Some (name, nodeName, kind, volume) \<Rightarrow>
          lin_bind (or_crash name) (\<lambda>Name. write_error (CreateSP api Name nodeName kind volume)))"

definition handle_DeleteStoragePool :: "'s linstor_api \<Rightarrow> string \<Rightarrow> string \<Rightarrow> 's handler" where
  "handle_DeleteStoragePool api nodeName spName = write_error (DeleteSP api spName nodeName)"

section \<open>Resources\<close>

text \<open>The assigned node of a resource is filled in from the first row of the second table with its name.\<close>

definition assign_nodes :: "row list \<Rightarrow> row list \<Rightarrow> row list" where
  "assign_nodes data data2 =
     map (\<lambda>r. case find (\<lambda>r2. cell r ''name'' = cell r2 ''name'') data2 of
         None \<Rightarrow> r
       | Some r2 \<Rightarrow> AList.update ''assignedNode'' (cell r2 ''assignedNode'') r) data"

definition handleListResources :: "(row list \<Rightarrow> row list) \<Rightarrow> 's linstor_api \<Rightarrow> url_values \<Rightarrow> 's handler" where
  "handleListResources visit api req =
     lin_bind (lin_ignore [] (la_GetResourceView api)) (\<lambda>resources.
     lin_bind (lin_ignore [] (la_GetResourceView api)) (\<lambda>resources2.
     write_list (ParseQueryParameter req)
       (assign_nodes (GetResources visit resources) (GetassignedNode visit resources2))))"

definition handleListResourcesDiskful :: "'s linstor_api \<Rightarrow> url_values \<Rightarrow> 's handler" where
  "handleListResourcesDiskful api req =
     lin_bind (lin_ignore [] (la_GetResourceView api)) (\<lambda>resources.
     lin_bind (or_crash (GetResourcesDiskful resources)) (\<lambda>data. write_list (ParseQueryParameter req) data))"

definition handleListResourcesDiskless :: "'s linstor_api \<Rightarrow> url_values \<Rightarrow> 's handler" where
  "handleListResourcesDiskless api req =
     lin_bind (lin_ignore [] (la_GetResourceView api)) (\<lambda>resources.
     lin_bind (or_crash (GetResourceDiskless resources)) (\<lambda>data. write_list (ParseQueryParameter req) data))"

definition handle_DescribeResource :: "'s linstor_api \<Rightarrow> string \<Rightarrow> 's handler" where
  "handle_DescribeResource api resname = write_exists (DescribeResource api resname)"

definition handle_CreateResource ::
  "'s linstor_api \<Rightarrow> (metadata_name \<times> string list list \<times> string) option \<Rightarrow> 's handler" where
  "handle_CreateResource api body =
     (case body of
        None \<Rightarrow> lin_return [BadRequest]
      | Some (name, storagePool, sz) \<Rightarrow>
          lin_bind (or_crash name) (\<lambda>Name.
          lin_try (CreateResource api Name storagePool sz)
            (\<lambda>_. lin_return [NoError]) (\<lambda>e. lin_return [ErrorDoc e])))"

text \<open>Every node gets a document of its own, an error or its name.\<close>

fun create_diskless :: "'s linstor_api \<Rightarrow> string \<Rightarrow> string list \<Rightarrow> 's handler" where
  "create_diskless api Name [] = lin_return []"
| "create_diskless api Name (node # nodes) =
     lin_bind (lin_try (CreateDisklessResource api Name node)
         (\<lambda>_. lin_return (TextDoc node)) (\<lambda>e. lin_return (ErrorDoc e))) (\<lambda>d.
     lin_bind (create_diskless api Name nodes) (\<lambda>ds. lin_return (d # ds)))"

definition CreateDiskless :: "'s linstor_api \<Rightarrow> (metadata_name \<times> string list) option \<Rightarrow> 's handler" where
  "CreateDiskless api body =
     (case body of
        None \<Rightarrow> lin_return [BadRequest]
      | Some (name, nodes) \<Rightarrow> lin_bind (or_crash name) (\<lambda>Name. create_diskless api Name nodes))"

text \<open>
  The body of a change of replicas: its field \<^verbatim>\<open>originalnum\<close> is passed as the target number and \<^verbatim>\<open>newnum\<close>
  as the current one.
\<close>

record replica_res =
  rr_ResName :: string
  rr_NodeName :: "string list"
  rr_PoolName :: "string list"
  rr_originalnum :: int64
  rr_newnum :: int64

definition IncreaseReplicas :: "'s linstor_api \<Rightarrow> replica_res option \<Rightarrow> 's handler" where
  "IncreaseReplicas api body =
     (case body of
        None \<Rightarrow> lin_return [BadRequest]
      | Some res \<Rightarrow>
          write_error (UpdateDiskfulResource api (rr_ResName res) (rr_NodeName res) (rr_PoolName res)
            (rr_originalnum res) (rr_newnum res)))"

definition handle_DeleteResource :: "'s linstor_api \<Rightarrow> string \<Rightarrow> 's handler" where
  "handle_DeleteResource api resName = write_error (DeleteResource api resName)"

section \<open>LVM\<close>

definition handleListLvmPVs ::
  "'s linstor_api \<Rightarrow> ('c, 't) ssh_library \<Rightarrow> url_values \<Rightarrow> ('s, 'c, 't) lvm_world handler" where
  "handleListLvmPVs api ssh req =
     lin_bind (GetLvmPVs api ssh) (\<lambda>data. write_list (ParseQueryParameter req) data)"

definition handleListLvmVGs ::
  "'s linstor_api \<Rightarrow> ('c, 't) ssh_library \<Rightarrow> url_values \<Rightarrow> ('s, 'c, 't) lvm_world handler" where
  "handleListLvmVGs api ssh req =
     lin_bind (GetLvmVGs api ssh) (\<lambda>data. write_list (ParseQueryParameter req) data)"

text \<open>Listing the logical volumes also creates a physical volume.\<close>

definition handleListLvmLVs ::
  "'s linstor_api \<Rightarrow> ('c, 't) ssh_library \<Rightarrow> url_values \<Rightarrow> ('s, 'c, 't) lvm_world handler" where
  "handleListLvmLVs api ssh req =
     lin_bind (GetLvmLVs api ssh) (\<lambda>data.
     lin_try (CreatePV api ssh ''/dev/sdh'' ''ben2'')
       (\<lambda>_. write_list (ParseQueryParameter req) data)
       (\<lambda>_. write_list (ParseQueryParameter req) data))"

definition CreateResourceLvmPV ::
  "'s linstor_api \<Rightarrow> ('c, 't) ssh_library \<Rightarrow> (string \<times> string) option \<Rightarrow> ('s, 'c, 't) lvm_world handler" where
  "CreateResourceLvmPV api ssh body =
     (case body of
        None \<Rightarrow> lin_return [BadRequest]
      | Some (name, node) \<Rightarrow> write_error (CreatePV api ssh name node))"

definition CreateResourceLvmVG ::
  "'s linstor_api \<Rightarrow> ('c, 't) ssh_library \<Rightarrow> (string \<times> string \<times> string) option \<Rightarrow> ('s, 'c, 't) lvm_world handler" where
  "CreateResourceLvmVG api ssh body =
     (case body of
        None \<Rightarrow> lin_return [BadRequest]
      | Some (name, node, pv) \<Rightarrow> write_error (CreateVG api ssh pv name node))"

definition CreateResourceLvmThinPool ::
  "'s linstor_api \<Rightarrow> ('c, 't) ssh_library \<Rightarrow> (string \<times> string \<times> string \<times> string) option \<Rightarrow>
   ('s, 'c, 't) lvm_world handler" where
  "CreateResourceLvmThinPool api ssh body =
     (case body of
        None \<Rightarrow> lin_return [BadRequest]
      | Some (name, node, vg, sz) \<Rightarrow> write_error (CreateThinPool api ssh sz name vg node))"

definition CreateResourceLvmLV ::
  "'s linstor_api \<Rightarrow> ('c, 't) ssh_library \<Rightarrow> (string \<times> string \<times> string \<times> string \<times> string) option \<Rightarrow>
   ('s, 'c, 't) lvm_world handler" where
  "CreateResourceLvmLV api ssh body =
     (case body of
        None \<Rightarrow> lin_return [BadRequest]
      | Some (name, node, vg, sz, thinPool) \<Rightarrow> write_error (CreateLV api ssh sz name thinPool vg node))"

section \<open>Listings\<close>

lemma write_list_frame: "write_list q data w = (r, w') \<Longrightarrow> w' = w"
  by (auto simp: write_list_def lin_crash_def lin_return_def split: option.splits)

lemma lin_bind_write_list:
  "lin_bind m (\<lambda>data. write_list q data) w = (r, w') \<Longrightarrow> \<exists>r1. m w = (r1, w')"
  by (auto simp: lin_bind_def lin_try_def lin_error_def split: prod.splits reply.splits dest: write_list_frame)

text \<open>
  Listing the physical volumes or the volume groups of the cluster only reads: whatever the nodes answer,
  the commands run on them are \<^verbatim>\<open>pvs\<close> or \<^verbatim>\<open>vgs\<close> and nothing else.
\<close>

theorem volume_listings_read_only:
  "(\<exists>hosts. lw_history (snd (handleListLvmPVs api ssh req w)) = lw_history w @ map (\<lambda>h. (h, ''pvs'')) hosts) \<and>
   (\<exists>hosts. lw_history (snd (handleListLvmVGs api ssh req w)) = lw_history w @ map (\<lambda>h. (h, ''vgs'')) hosts)"
proof
  obtain r w' where "handleListLvmPVs api ssh req w = (r, w')" by force
  moreover from this obtain r1 where "GetLvmPVs api ssh w = (r1, w')"
    unfolding handleListLvmPVs_def by (blast dest: lin_bind_write_list)
  ultimately show "\<exists>hosts. lw_history (snd (handleListLvmPVs api ssh req w)) = lw_history w @ map (\<lambda>h. (h, ''pvs'')) hosts"
    unfolding GetLvmPVs_def using table_commands by fastforce
next
  obtain r w' where "handleListLvmVGs api ssh req w = (r, w')" by force
  moreover from this obtain r1 where "GetLvmVGs api ssh w = (r1, w')"
    unfolding handleListLvmVGs_def by (blast dest: lin_bind_write_list)
  ultimately show "\<exists>hosts. lw_history (snd (handleListLvmVGs api ssh req w)) = lw_history w @ map (\<lambda>h. (h, ''vgs'')) hosts"
    unfolding GetLvmVGs_def using table_commands by fastforce
qed

text \<open>An SSH library on which every command succeeds keeps the connections.\<close>

definition commands_succeed :: "('c, 't) ssh_library \<Rightarrow> bool" where
  "commands_succeed ssh \<longleftrightarrow> (\<forall>c cmd t. snd (fst (ssh_CombinedOutput ssh c cmd t)) = None)"

lemma SshCmd_keeps:
  assumes "commands_succeed ssh" "SshCmd ssh cli cmd w = (Reply a, w')"
  shows "snd a = None \<and> lw_Connects w' = lw_Connects w \<and> lw_history w' = lw_history w @ [(fst cli, cmd)]"
proof -
  obtain e t where t: "ssh_NewSession ssh (snd cli) (lw_ssh w) = (e, t)" by force
  obtain out err t' where o: "ssh_CombinedOutput ssh (snd cli) cmd t = ((out, err), t')" by (metis surj_pair)
  have "err = None" using assms(1) o unfolding commands_succeed_def by (metis fst_conv snd_conv)
  with assms(2) t o show ?thesis by (cases e) (auto simp: SshCmd_def)
qed

lemma collect_rows_keeps:
  "commands_succeed ssh \<Longrightarrow> collect_rows ssh cmd rows_of clis w = (Reply rows, w') \<Longrightarrow> lw_Connects w' = lw_Connects w"
proof (induction clis arbitrary: w rows w')
  case (Cons cli clis)
  from Cons.prems(2) obtain a w1 where c: "SshCmd ssh cli cmd w = (Reply a, w1)"
    by (auto simp: lin_bind_def lin_try_def lin_error_def split: prod.splits reply.splits)
  with Cons.prems(2) obtain rest where "collect_rows ssh cmd rows_of clis w1 = (Reply rest, w')"
    by (auto simp: lin_bind_def lin_try_def lin_error_def lin_return_def lin_crash_def
        split: prod.splits reply.splits option.splits)
  from Cons.IH [OF Cons.prems(1) this] SshCmd_keeps [OF Cons.prems(1) c] show ?case by simp
qed (simp add: lin_return_def)

text \<open>
  Listing the logical volumes writes to a disk: when the server is connected to a node named \<open>ben2\<close>, every
  such request that is answered has run \<^verbatim>\<open>pvcreate /dev/sdh\<close> there.
\<close>

theorem list_LVs_creates_PV:
  assumes "commands_succeed ssh" "''ben2'' \<in> fst ` set (lw_Connects w)"
    and "handleListLvmLVs api ssh req w = (Reply docs, w')"
  shows "last (lw_history w') = (''ben2'', ''pvcreate /dev/sdh'')"
proof -
  have conn: "lw_Connects w \<noteq> []" using assms(2) by auto
  obtain r1 w1 where g: "GetLvmLVs api ssh w = (r1, w1)" by force
  with assms(3) obtain data where data: "r1 = Reply data"
    by (cases r1) (auto simp: handleListLvmLVs_def lin_bind_def lin_try_def lin_error_def)
  have keep: "lw_Connects w1 = lw_Connects w"
    using g data collect_rows_keeps [OF assms(1)]
    by (simp add: GetLvmLVs_def lin_bind_def lin_try_def GetSshList_connected [OF conn])
  obtain r2 w2 where c: "CreatePV api ssh ''/dev/sdh'' ''ben2'' w1 = (r2, w2)" by force
  have "w' = w2" "r2 \<noteq> Crashed"
    using assms(3) g data c
    by (auto simp: handleListLvmLVs_def lin_bind_def lin_try_def dest!: write_list_frame split: reply.splits)
  moreover obtain cli where cli: "find (\<lambda>cli. ''ben2'' = fst cli) (lw_Connects w1) = Some cli"
    using assms(2) keep by (cases "find (\<lambda>cli. ''ben2'' = fst cli) (lw_Connects w1)") (auto simp: find_None_iff)
  then have "fst cli = ''ben2''" by (auto simp: find_Some_iff)
  moreover obtain a w3 where "SshCmd ssh cli ''pvcreate /dev/sdh'' w1 = (a, w3)" by force
  ultimately show ?thesis
    using c cli keep conn SshCmd_run [of ssh cli "''pvcreate /dev/sdh''" w1 a w3]
    by (auto simp: CreatePV_def run_on_node_def lin_bind_def lin_try_def GetSshList_connected lin_return_def lin_error_def
        split: reply.splits option.splits prod.splits)
qed

definition demo_ssh :: "(nat, nat) ssh_library" where
  "demo_ssh =
     \<lparr>ssh_Dial = (\<lambda>ip t. (Inr 0, t)), ssh_NewSession = (\<lambda>c t. (None, t)),
      ssh_CombinedOutput = (\<lambda>c cmd t. ((''  LV VG'', None), Suc t))\<rparr>"

definition demo_world :: "(mem_cluster, nat, nat) lvm_world" where
  "demo_world = \<lparr>lw_cluster = demo_cluster, lw_ssh = 0, lw_Connects = [(''ben2'', 0)], lw_history = []\<rparr>"

theorem list_LVs_creates_PV_witness:
  "\<exists>docs w'. handleListLvmLVs mem_linstor demo_ssh [] demo_world = (Reply docs, w') \<and>
     last (lw_history w') = (''ben2'', ''pvcreate /dev/sdh'')"
proof -
  obtain r w' where run: "handleListLvmLVs mem_linstor demo_ssh [] demo_world = (r, w')" by force
  have ok: "commands_succeed demo_ssh" "''ben2'' \<in> fst ` set (lw_Connects demo_world)"
    by (simp_all add: commands_succeed_def demo_ssh_def demo_world_def)
  have q: "qr_Pagination (ParseQueryParameter []) = Some NoPagination" "qr_Filters (ParseQueryParameter []) = []"
    by (simp_all add: ParseQueryParameter_def set_filters_def Let_def QueryParameter_def map_get_def Atoi_def NoPagination_def)
  have list: "list_rows (ParseQueryParameter []) [] = Some \<lparr>lg_Code = 0, lg_Count = 0, lg_Data = []\<rparr>"
    by (simp add: list_rows_spec fits_def q page_of_spec NoPagination_def newPagination_def)
  have rows: "lv_rows ''ben2'' ''  LV VG'' = Some []" by (simp add: lv_rows_def output_lines_def List.map_filter_def)
  have "\<exists>docs. r = Reply docs"
    using run by (auto simp: handleListLvmLVs_def GetLvmLVs_def CreatePV_def run_on_node_def lin_bind_def lin_try_def
        GetSshList_def SshCmd_def demo_ssh_def demo_world_def rows lin_return_def write_list_def list)
  with list_LVs_creates_PV [OF ok] run show ?thesis by blast
qed

end
