(* ===== verification/User_Controller.thy ===== *)
theory User_Controller
  imports Authentication List_Query
begin

text \<open>
  The controllers behind accounts: the user controller (\<^verbatim>\<open>pkg/controller/user/user_controller.go\<close>), which
  encrypts passwords, keeps the state of accounts and blocks those with too many failed logins, and the
  login record controller (\<^verbatim>\<open>pkg/controller/loginrecord/loginrecord_controller.go\<close>), which keeps the history
  of logins short.
  The Kubernetes API, LDAP, DevOps and kubeconfig clients are operations on an abstract state, \<^const>\<open>None\<close>
  where the controller has no such client. The polls of the code call their client once: every outcome of
  the polled functions ends the poll. Times and durations are in nanoseconds.
\<close>

section \<open>The environment of the user controller\<close>

record 'e ldap_client =
  ldap_Get :: "string \<Rightarrow> ('e, unit) auth"
  ldap_Create :: "ks_user \<Rightarrow> ('e, unit) auth"
  ldap_Update :: "ks_user \<Rightarrow> ('e, unit) auth"
  ldap_Delete :: "string \<Rightarrow> ('e, unit) auth"

record 'e devops_client =
  dv_AssignGlobalRole :: "string \<Rightarrow> ('e, unit) auth"
  dv_UnAssignGlobalRole :: "string \<Rightarrow> ('e, unit) auth"

text \<open>The template of a federated user: labels, specification and status of a user.\<close>

record federated_user =
  fu_Name :: string
  fu_Template :: ks_user

record 'e user_api =
  ua_Get :: "string \<Rightarrow> 'e \<Rightarrow> (auth_error, ks_user) result"
  ua_Update :: "ks_user \<Rightarrow> ('e, unit) auth"
  ua_LoginRecords :: "string \<Rightarrow> ('e, login_record list) auth"
  ua_DeleteAllOf :: "string \<Rightarrow> string \<Rightarrow> ('e, unit) auth"
  ua_RoleBindings :: "string \<Rightarrow> ('e, string list) auth"
  ua_DeleteRoleBinding :: "string \<Rightarrow> ('e, unit) auth"
  ua_GetFederated :: "string \<Rightarrow> ('e, federated_user) auth"
  ua_CreateFederated :: "federated_user \<Rightarrow> ('e, unit) auth"
  ua_UpdateFederated :: "federated_user \<Rightarrow> ('e, unit) auth"
  ua_Event :: "bool \<Rightarrow> 'e \<Rightarrow> 'e"
  ua_Now :: "'e \<Rightarrow> int \<times> 'e"
  ua_ldap :: "'e ldap_client option"
  ua_devops :: "'e devops_client option"
  ua_CreateKubeConfig :: "(ks_user \<Rightarrow> ('e, unit) auth) option"
  ua_FormatTime :: "int \<Rightarrow> string"
  ua_bcryptCost :: "string \<Rightarrow> int"
  ua_bcryptGenerate :: "string \<Rightarrow> (string, string) result"
  ua_MultiClusterEnabled :: bool
  ua_RateLimiterMaxTries :: int
  ua_RateLimiterDuration :: duration
  ua_DurationText :: string

definition with_now :: "'e user_api \<Rightarrow> (int \<Rightarrow> ('e, 'a) auth) \<Rightarrow> ('e, 'a) auth" where
  "with_now api f s = (case ua_Now api s of (now, s') \<Rightarrow> f now s')"

definition finalizer :: string where "finalizer = ''finalizers.kubesphere.io/users''"
definition KubefedManagedLabel :: string where "KubefedManagedLabel = ''kubefed.io/managed''"
definition LastPasswordChangeTimeAnnotation :: string where
  "LastPasswordChangeTimeAnnotation = ''iam.kubesphere.io/last-password-change-time''"
definition LastAppliedConfigAnnotation :: string where
  "LastAppliedConfigAnnotation = ''kubectl.kubernetes.io/last-applied-configuration''"

section \<open>Passwords and states\<close>

definition isEncrypted :: "'e user_api \<Rightarrow> string \<Rightarrow> bool" where
  "isEncrypted api password = (ua_bcryptCost api password > 0)"

definition update_user :: "'e user_api \<Rightarrow> ks_user \<Rightarrow> ('e, ks_user) auth" where
  "update_user api user = auth_bind (ua_Update api user) (\<lambda>_. auth_return user)"

definition encryptPassword :: "'e user_api \<Rightarrow> ks_user \<Rightarrow> ('e, ks_user) auth" where
  "encryptPassword api user =
     (if ku_EncryptedPassword user \<noteq> [] \<and> \<not> isEncrypted api (ku_EncryptedPassword user)
      then (case ua_bcryptGenerate api (ku_EncryptedPassword user) of
              Inl e \<Rightarrow> auth_fail (LibError e)
            | Inr password \<Rightarrow>
                with_now api (\<lambda>now.
                  update_user api
                    (user\<lparr>ku_EncryptedPassword := password,
                       ku_Annotations := AList.delete LastAppliedConfigAnnotation
                         (AList.update LastPasswordChangeTimeAnnotation (ua_FormatTime api now) (ku_Annotations user))\<rparr>)))
      else auth_return user)"

text \<open>A new status forgets the reason and the last login.\<close>

definition set_state :: "'e user_api \<Rightarrow> string \<Rightarrow> string \<Rightarrow> ks_user \<Rightarrow> ('e, ks_user) auth" where
  "set_state api state reason user =
     with_now api (\<lambda>now. update_user api
       (user\<lparr>ku_Status := \<lparr>us_State = state, us_Reason = reason, us_LastTransitionTime = Some now, us_LastLoginTime = None\<rparr>\<rparr>))"

definition counts_as_failed :: "'e user_api \<Rightarrow> ks_user \<Rightarrow> int \<Rightarrow> login_record \<Rightarrow> bool" where
  "counts_as_failed api user now r \<longleftrightarrow>
     \<not> lr_Success r \<and>
     (case us_LastTransitionTime (ku_Status user) of None \<Rightarrow> True | Some t \<Rightarrow> t < lr_CreationTimestamp r) \<and>
     now < lr_CreationTimestamp r + ua_RateLimiterDuration api"

definition count_failed :: "'e user_api \<Rightarrow> ks_user \<Rightarrow> ('e, ks_user) auth" where
  "count_failed api user =
     auth_bind (ua_LoginRecords api (ku_Name user)) (\<lambda>records.
       with_now api (\<lambda>now.
         let failedLoginAttempts = int (length (filter (counts_as_failed api user now) records)) in
         if failedLoginAttempts \<ge> ua_RateLimiterMaxTries api
         then set_state api UserAuthLimitExceeded
                (''Failed login attempts exceed '' @ show_int failedLoginAttempts @ '' in last '' @ ua_DurationText api) user
         else auth_return user))"

definition check_blocked :: "'e user_api \<Rightarrow> ks_user \<Rightarrow> ('e, ks_user) auth" where
  "check_blocked api user =
     (case us_LastTransitionTime (ku_Status user) of
        Some t \<Rightarrow>
          if ku_State user = UserAuthLimitExceeded
          then with_now api (\<lambda>now.
                 if t + ua_RateLimiterDuration api < now then set_state api UserActive [] user
                 else count_failed api user)
          else count_failed api user
      | None \<Rightarrow> count_failed api user)"

definition syncUserStatus :: "'e user_api \<Rightarrow> ks_user \<Rightarrow> ('e, ks_user) auth" where
  "syncUserStatus api user =
     (if ku_State user = UserDisabled then auth_return user
      else if ku_EncryptedPassword user = []
      then (if map_get [] (ku_Labels user) IdentifyProviderLabel \<noteq> []
            then (if ku_State user \<noteq> UserActive then set_state api UserActive [] user else auth_return user)
            else set_state api UserDisabled [] user)
      else auth_bind
             (if ku_State user = [] \<and> isEncrypted api (ku_EncryptedPassword user)
              then set_state api UserActive [] user else auth_return user)
             (check_blocked api))"

section \<open>Reconciling a user\<close>

definition ensureNotControlledByKubefed :: "'e user_api \<Rightarrow> ks_user \<Rightarrow> ('e, ks_user) auth" where
  "ensureNotControlledByKubefed api user =
     (if map_get [] (ku_Labels user) KubefedManagedLabel \<noteq> ''false''
      then update_user api (user\<lparr>ku_Labels := AList.update KubefedManagedLabel ''false'' (ku_Labels user)\<rparr>)
      else auth_return user)"

definition createFederatedUser :: "'e user_api \<Rightarrow> ks_user \<Rightarrow> ('e, unit) auth" where
  "createFederatedUser api user =
     auth_case (ua_CreateFederated api \<lparr>fu_Name = ku_Name user, fu_Template = user\<rparr>)
       (\<lambda>e. case e of ApiAlreadyExists _ \<Rightarrow> auth_return () | _ \<Rightarrow> auth_fail e)
       auth_return"

text \<open>Equality of what a template holds of a user.\<close>

definition same_template :: "ks_user \<Rightarrow> ks_user \<Rightarrow> bool" where
  "same_template a b \<longleftrightarrow>
     ku_Email a = ku_Email b \<and> ku_Lang a = ku_Lang b \<and> ku_Description a = ku_Description b \<and>
     ku_DisplayName a = ku_DisplayName b \<and> ku_Groups a = ku_Groups b \<and>
     ku_EncryptedPassword a = ku_EncryptedPassword b \<and> ku_Status a = ku_Status b \<and>
     map_of (ku_Labels a) = map_of (ku_Labels b)"

definition multiClusterSync :: "'e user_api \<Rightarrow> ks_user \<Rightarrow> ('e, ks_user) auth" where
  "multiClusterSync api user0 =
     auth_bind (ensureNotControlledByKubefed api user0) (\<lambda>user.
       auth_case (ua_GetFederated api (ku_Name user))
         (\<lambda>e. if IsNotFound e then auth_bind (createFederatedUser api user) (\<lambda>_. auth_return user) else auth_fail e)
         (\<lambda>federatedUser.
            if \<not> same_template (fu_Template federatedUser) user
            then auth_bind (ua_UpdateFederated api (federatedUser\<lparr>fu_Template := user\<rparr>)) (\<lambda>_. auth_return user)
            else auth_return user))"

definition waitForSyncToLDAP :: "'e user_api \<Rightarrow> 'e ldap_client \<Rightarrow> ks_user \<Rightarrow> ('e, unit) auth" where
  "waitForSyncToLDAP api ldap user =
     (if isEncrypted api (ku_EncryptedPassword user) then auth_return ()
      else auth_case (ldap_Get ldap (ku_Name user))
             (\<lambda>e. if e = LdapUserNotExists then ldap_Create ldap user else auth_fail e)
             (\<lambda>_. ldap_Update ldap user))"

definition waitForDeleteFromLDAP :: "'e ldap_client \<Rightarrow> string \<Rightarrow> ('e, unit) auth" where
  "waitForDeleteFromLDAP ldap username =
     auth_case (ldap_Delete ldap username)
       (\<lambda>e. if e \<noteq> LdapUserNotExists then auth_fail e else auth_return ()) auth_return"

fun delete_role_bindings :: "'e user_api \<Rightarrow> string list \<Rightarrow> ('e, unit) auth" where
  "delete_role_bindings api [] = auth_return ()"
| "delete_role_bindings api (b # bs) =
     auth_bind (ua_DeleteRoleBinding api b) (\<lambda>_. delete_role_bindings api bs)"

definition deleteRoleBindings :: "'e user_api \<Rightarrow> ks_user \<Rightarrow> ('e, unit) auth" where
  "deleteRoleBindings api user =
     (if length (ku_Name user) > 63 then auth_return ()
      else auth_bind (ua_DeleteAllOf api ''GlobalRoleBinding'' (ku_Name user)) (\<lambda>_.
           auth_bind (ua_DeleteAllOf api ''WorkspaceRoleBinding'' (ku_Name user)) (\<lambda>_.
           auth_bind (ua_DeleteAllOf api ''ClusterRoleBinding'' (ku_Name user)) (\<lambda>_.
           auth_bind (ua_RoleBindings api (ku_Name user)) (delete_role_bindings api)))))"

definition deleteGroupBindings :: "'e user_api \<Rightarrow> ks_user \<Rightarrow> ('e, unit) auth" where
  "deleteGroupBindings api user = ua_DeleteAllOf api ''GroupBinding'' (ku_Name user)"

definition deleteLoginRecords :: "'e user_api \<Rightarrow> ks_user \<Rightarrow> ('e, unit) auth" where
  "deleteLoginRecords api user = ua_DeleteAllOf api ''LoginRecord'' (ku_Name user)"

text \<open>A failure is recorded as a warning event; it is then either passed on or ignored.\<close>

definition warn :: "'e user_api \<Rightarrow> ('e, 'a) auth \<Rightarrow> ('e, 'a) auth" where
  "warn api m s = (case m s of (Inl e, s') \<Rightarrow> (Inl e, ua_Event api True s') | r \<Rightarrow> r)"

definition warn_only :: "'e user_api \<Rightarrow> ('e, unit) auth \<Rightarrow> ('e, unit) auth" where
  "warn_only api m s = (case m s of (Inl e, s') \<Rightarrow> (Inr (), ua_Event api True s') | r \<Rightarrow> r)"

definition finalize_user :: "'e user_api \<Rightarrow> ks_user \<Rightarrow> ('e, unit) auth" where
  "finalize_user api user =
     auth_bind (case ua_ldap api of
                  None \<Rightarrow> auth_return ()
                | Some ldap \<Rightarrow> warn_only api (waitForDeleteFromLDAP ldap (ku_Name user))) (\<lambda>_.
     auth_bind (warn api (deleteRoleBindings api user)) (\<lambda>_.
     auth_bind (warn api (deleteGroupBindings api user)) (\<lambda>_.
     auth_bind (case ua_devops api of
                  None \<Rightarrow> auth_return ()
                | Some devops \<Rightarrow> warn_only api (dv_UnAssignGlobalRole devops (ku_Name user))) (\<lambda>_.
     auth_bind (warn api (deleteLoginRecords api user)) (\<lambda>_.
       warn api (ua_Update api (user\<lparr>ku_Finalizers := filter (\<lambda>item. item \<noteq> finalizer) (ku_Finalizers user)\<rparr>)))))))"

definition sync_user :: "'e user_api \<Rightarrow> ks_user \<Rightarrow> ('e, duration option) auth" where
  "sync_user api user0 =
     auth_bind (if ua_MultiClusterEnabled api then warn api (multiClusterSync api user0) else auth_return user0) (\<lambda>user1.
     auth_bind (case ua_ldap api of
                  None \<Rightarrow> auth_return ()
                | Some ldap \<Rightarrow> warn_only api (waitForSyncToLDAP api ldap user1)) (\<lambda>_.
     auth_bind (if map_get [] (ku_Labels user1) KubefedManagedLabel = ''true'' then auth_return user1
                else auth_bind (warn api (encryptPassword api user1)) (\<lambda>user2. warn api (syncUserStatus api user2))) (\<lambda>user3.
     auth_bind (case ua_CreateKubeConfig api of None \<Rightarrow> auth_return () | Some create \<Rightarrow> warn api (create user3)) (\<lambda>_.
     auth_bind (case ua_devops api of
                  None \<Rightarrow> auth_return ()
                | Some devops \<Rightarrow> warn_only api (dv_AssignGlobalRole devops (ku_Name user3))) (\<lambda>_ s.
       (Inr (if ku_State user3 = UserAuthLimitExceeded then Some (ua_RateLimiterDuration api) else None),
        ua_Event api False s))))))"

text \<open>The result is the time after which the user is to be reconciled again, where there is one.\<close>

definition user_Reconcile :: "'e user_api \<Rightarrow> string \<Rightarrow> ('e, duration option) auth" where
  "user_Reconcile api name s =
     (case ua_Get api name s of
        Inl e \<Rightarrow> if IsNotFound e then (Inr None, s) else (Inl e, s)
      | Inr user \<Rightarrow>
          if \<not> ku_Deleting user
          then auth_bind
                 (if finalizer \<notin> set (ku_Finalizers user)
                  then update_user api (user\<lparr>ku_Finalizers := ku_Finalizers user @ [finalizer]\<rparr>)
                  else auth_return user)
                 (sync_user api) s
          else if finalizer \<in> set (ku_Finalizers user)
          then auth_bind (finalize_user api user) (\<lambda>_. auth_return None) s
          else (Inr None, s))"

section \<open>Login records\<close>

record 'e record_api =
  ra_Get :: "string \<Rightarrow> 'e \<Rightarrow> (auth_error, login_record) result"
  ra_List :: "string \<Rightarrow> 'e \<Rightarrow> (auth_error, login_record list) result"
  ra_Delete :: "string \<Rightarrow> ('e, unit) auth"
  ra_UserGet :: "string \<Rightarrow> 'e \<Rightarrow> (auth_error, ks_user) result"
  ra_UserUpdate :: "ks_user \<Rightarrow> ('e, unit) auth"
  ra_Now :: "'e \<Rightarrow> int \<times> 'e"
  ra_AddAfter :: "string \<Rightarrow> duration \<Rightarrow> 'e \<Rightarrow> 'e"
  ra_Event :: "'e \<Rightarrow> 'e"
  ra_RetentionPeriod :: duration
  ra_MaximumEntries :: nat

definition userForLoginRecord :: "'e record_api \<Rightarrow> login_record \<Rightarrow> 'e \<Rightarrow> (auth_error, ks_user) result" where
  "userForLoginRecord api r s =
     (case map_of (lr_Labels r) UserReferenceLabel of
        None \<Rightarrow> Inl (ApiNotFound [])
      | Some username \<Rightarrow> if length username = 0 then Inl (ApiNotFound username) else ra_UserGet api username s)"

definition updateUserLastLoginTime :: "'e record_api \<Rightarrow> ks_user \<Rightarrow> login_record \<Rightarrow> ('e, unit) auth" where
  "updateUserLastLoginTime api user r =
     (if \<not> ku_Deleting user \<and>
         (case us_LastLoginTime (ku_Status user) of None \<Rightarrow> True | Some t \<Rightarrow> t < lr_CreationTimestamp r)
      then ra_UserUpdate api (user\<lparr>ku_Status := (ku_Status user)\<lparr>us_LastLoginTime := Some (lr_CreationTimestamp r)\<rparr>\<rparr>)
      else auth_return ())"

fun delete_entries :: "'e record_api \<Rightarrow> login_record list \<Rightarrow> ('e, unit) auth" where
  "delete_entries api [] = auth_return ()"
| "delete_entries api (r # rs) = auth_bind (ra_Delete api (lr_Name r)) (\<lambda>_. delete_entries api rs)"

definition older :: "login_record \<Rightarrow> login_record \<Rightarrow> bool" where
  "older x y \<longleftrightarrow> lr_CreationTimestamp x < lr_CreationTimestamp y"

text \<open>Sorting with \<^verbatim>\<open>sort.Slice\<close> is the parameter \<open>sortSlice\<close> of theory \<open>List_Query\<close>.\<close>

definition old_entries :: "((login_record \<Rightarrow> login_record \<Rightarrow> bool) \<Rightarrow> login_record list \<Rightarrow> login_record list) \<Rightarrow> nat \<Rightarrow> login_record list \<Rightarrow> login_record list" where
  "old_entries sortSlice maxEntries rs =
     (if length rs \<le> maxEntries then [] else take (length rs - maxEntries) (sortSlice older rs))"

definition shrinkEntriesFor :: "((login_record \<Rightarrow> login_record \<Rightarrow> bool) \<Rightarrow> login_record list \<Rightarrow> login_record list) \<Rightarrow> 'e record_api \<Rightarrow> ks_user \<Rightarrow> ('e, unit) auth" where
  "shrinkEntriesFor sortSlice api user s =
     (case ra_List api (ku_Name user) s of
        Inl e \<Rightarrow> (Inl e, s)
      | Inr loginRecords \<Rightarrow> delete_entries api (old_entries sortSlice (ra_MaximumEntries api) loginRecords) s)"

definition expire_record :: "'e record_api \<Rightarrow> string \<Rightarrow> login_record \<Rightarrow> ('e, unit) auth" where
  "expire_record api key r s =
     (case ra_Now api s of (now, s') \<Rightarrow>
        let expiry = lr_CreationTimestamp r + ra_RetentionPeriod api in
        if expiry < now then ra_Delete api (lr_Name r) s'
        else (Inr (), ra_AddAfter api key (expiry - now) s'))"

definition record_reconcile :: "((login_record \<Rightarrow> login_record \<Rightarrow> bool) \<Rightarrow> login_record list \<Rightarrow> login_record list) \<Rightarrow> 'e record_api \<Rightarrow> string \<Rightarrow> ('e, unit) auth" where
  "record_reconcile sortSlice api key s =
     (case ra_Get api key s of
        Inl e \<Rightarrow> if IsNotFound e then (Inr (), s) else (Inl e, s)
      | Inr loginRecord \<Rightarrow>
          if lr_Deleting loginRecord then (Inr (), s)
          else (case userForLoginRecord api loginRecord s of
                  Inl e \<Rightarrow> if IsNotFound e then ra_Delete api (lr_Name loginRecord) s else (Inl e, s)
                | Inr user \<Rightarrow>
                    auth_bind (updateUserLastLoginTime api user loginRecord) (\<lambda>_.
                    auth_bind (shrinkEntriesFor sortSlice api user) (\<lambda>_.
                    auth_bind (expire_record api key loginRecord) (\<lambda>_ s'. (Inr (), ra_Event api s')))) s))"

section \<open>The state of an account\<close>

lemma with_now_iff [result_iff]:
  "with_now api f s = (r, s') \<longleftrightarrow> (\<exists>now s1. ua_Now api s = (now, s1) \<and> f now s1 = (r, s'))"
  by (auto simp: with_now_def split: prod.splits)

lemma update_user_iff [result_iff]:
  "update_user api user s = (Inr user', s') \<longleftrightarrow> user' = user \<and> ua_Update api user s = (Inr (), s')"
  by (auto simp: update_user_def auth_bind_Inr_iff)

text \<open>What can happen to the state of an account between two points in time at which the controller acts.\<close>

inductive account_step :: "'e user_api \<Rightarrow> ks_user \<Rightarrow> ks_user \<Rightarrow> bool" for api where
  stays: "account_step api user user"
| activated: "ku_State user = [] \<Longrightarrow> isEncrypted api (ku_EncryptedPassword user) \<Longrightarrow>
    account_step api user (user\<lparr>ku_Status := \<lparr>us_State = UserActive, us_Reason = [], us_LastTransitionTime = Some now, us_LastLoginTime = None\<rparr>\<rparr>)"
| linked: "ku_State user \<noteq> UserDisabled \<Longrightarrow> ku_EncryptedPassword user = [] \<Longrightarrow> map_get [] (ku_Labels user) IdentifyProviderLabel \<noteq> [] \<Longrightarrow>
    account_step api user (user\<lparr>ku_Status := \<lparr>us_State = UserActive, us_Reason = [], us_LastTransitionTime = Some now, us_LastLoginTime = None\<rparr>\<rparr>)"
| disabled: "ku_State user \<noteq> UserDisabled \<Longrightarrow> ku_EncryptedPassword user = [] \<Longrightarrow> map_get [] (ku_Labels user) IdentifyProviderLabel = [] \<Longrightarrow>
    account_step api user (user\<lparr>ku_Status := \<lparr>us_State = UserDisabled, us_Reason = [], us_LastTransitionTime = Some now, us_LastLoginTime = None\<rparr>\<rparr>)"
| blocked: "ku_State user \<noteq> UserDisabled \<Longrightarrow> ku_EncryptedPassword user \<noteq> [] \<Longrightarrow>
    ua_RateLimiterMaxTries api \<le> int (length (filter (counts_as_failed api user now) records)) \<Longrightarrow>
    account_step api user (user\<lparr>ku_Status := \<lparr>us_State = UserAuthLimitExceeded, us_Reason = reason, us_LastTransitionTime = Some later, us_LastLoginTime = None\<rparr>\<rparr>)"
| released: "ku_State user = UserAuthLimitExceeded \<Longrightarrow> us_LastTransitionTime (ku_Status user) = Some t \<Longrightarrow>
    t + ua_RateLimiterDuration api < now \<Longrightarrow>
    account_step api user (user\<lparr>ku_Status := \<lparr>us_State = UserActive, us_Reason = [], us_LastTransitionTime = Some later, us_LastLoginTime = None\<rparr>\<rparr>)"

inductive_cases account_step_cases: "account_step api user user'"

lemma set_state_iff [result_iff]:
  "set_state api state reason user s = (Inr user', s') \<longleftrightarrow>
     (\<exists>now s1. ua_Now api s = (now, s1) \<and>
        user' = user\<lparr>ku_Status := \<lparr>us_State = state, us_Reason = reason, us_LastTransitionTime = Some now, us_LastLoginTime = None\<rparr>\<rparr> \<and>
        ua_Update api user' s1 = (Inr (), s'))"
  by (auto simp: set_state_def with_now_iff update_user_iff)

lemma count_failed_step:
  assumes "count_failed api user s = (Inr user', s')" "ku_State user \<noteq> UserDisabled" "ku_EncryptedPassword user \<noteq> []"
  shows "account_step api user user'"
  using assms by (auto simp: count_failed_def result_iff Let_def split: if_splits intro: account_step.intros)

lemma check_blocked_step:
  assumes "check_blocked api user s = (Inr user', s')" "ku_State user \<noteq> UserDisabled" "ku_EncryptedPassword user \<noteq> []"
  shows "account_step api user user'"
  using assms(1)
  by (auto simp: check_blocked_def result_iff split: if_splits option.splits
      intro: account_step.intros count_failed_step [OF _ assms(2,3)])

text \<open>One run of the controller takes an account through at most two steps.\<close>

lemma syncUserStatus_steps:
  assumes "syncUserStatus api user s = (Inr user', s')"
  shows "(account_step api OO account_step api) user user'"
proof -
  have "account_step api user user' \<or>
      (\<exists>u s1. account_step api user u \<and> ku_State u \<noteq> UserDisabled \<and> ku_EncryptedPassword u \<noteq> [] \<and>
         check_blocked api u s1 = (Inr user', s'))"
  proof (cases "ku_State user = UserDisabled \<or> ku_EncryptedPassword user = []")
    case True
    then show ?thesis
      using assms by (auto simp: syncUserStatus_def set_state_iff split: if_splits intro: account_step.intros)
  next
    case False
    then obtain u s1 where u: "check_blocked api u s1 = (Inr user', s')"
      and first: "(if ku_State user = [] \<and> isEncrypted api (ku_EncryptedPassword user)
                   then set_state api UserActive [] user else auth_return user) s = (Inr u, s1)"
      using assms by (auto simp: syncUserStatus_def auth_bind_Inr_iff)
    then have "account_step api user u \<and> ku_State u \<noteq> UserDisabled \<and> ku_EncryptedPassword u \<noteq> []"
      using False by (auto simp: set_state_iff split: if_splits intro: account_step.intros)
    then show ?thesis using u by blast
  qed
  then show ?thesis
  proof (elim disjE exE conjE)
    assume "account_step api user user'"
    then show ?thesis by (rule relcomppI) (rule account_step.stays)
  next
    fix u s1
    assume "account_step api user u" and u: "ku_State u \<noteq> UserDisabled" "ku_EncryptedPassword u \<noteq> []"
      "check_blocked api u s1 = (Inr user', s')"
    then show ?thesis by (blast intro: relcomppI check_blocked_step [OF u(3,1,2)])
  qed
qed

text \<open>Any number of runs, whatever happens to the server in between.\<close>

inductive account_runs :: "'e user_api \<Rightarrow> ks_user \<Rightarrow> ks_user \<Rightarrow> bool" for api u where
  no_run: "account_runs api u u"
| next_run: "account_runs api u v \<Longrightarrow> syncUserStatus api v s = (Inr w, s') \<Longrightarrow> account_runs api u w"

lemma account_runs_steps: "account_runs api u v \<Longrightarrow> (account_step api)\<^sup>*\<^sup>* u v"
proof (induction rule: account_runs.induct)
  case (next_run v s w s')
  then show ?case using syncUserStatus_steps [OF next_run.hyps(2)] by auto
qed simp

lemma account_step_disabled: "account_step api u v \<Longrightarrow> ku_State u = UserDisabled \<Longrightarrow> v = u"
  by (erule account_step_cases) (auto simp: user_states)

text \<open>
  over any number of runs an account moves only along its life cycle: it becomes active when its password is
  encrypted, or when it has none and belongs to an identity provider, disabled when it has neither, blocked
  when enough failed logins count, and active again once it was blocked long enough. A disabled account
  stays as it is.
\<close>
theorem account_life_cycle:
  assumes "account_runs api u v"
  shows "(account_step api)\<^sup>*\<^sup>* u v \<and> (ku_State u = UserDisabled \<longrightarrow> v = u)"
proof -
  have steps: "(account_step api)\<^sup>*\<^sup>* u v" by (rule account_runs_steps [OF assms])
  moreover have "v = u" if "ku_State u = UserDisabled"
    using steps that by (induction rule: rtranclp_induct) (auto dest: account_step_disabled)
  ultimately show ?thesis by blast
qed

section \<open>How long an account is blocked\<close>

text \<open>
  A clock that the runs of the controller read: a reading is the time when it is taken, and no call to the server takes the
  time back.
\<close>

locale account_clock =
  fixes api :: "'e user_api" and clock :: "'e \<Rightarrow> int"
  assumes reads: "ua_Now api s = (now, s') \<Longrightarrow> now = clock s' \<and> clock s \<le> clock s'"
    and update_ticks: "ua_Update api u s = (r, s') \<Longrightarrow> clock s \<le> clock s'"
    and records_tick: "ua_LoginRecords api name s = (r', s') \<Longrightarrow> clock s \<le> clock s'"
begin

definition ticks :: "('e, 'a) auth \<Rightarrow> bool" where
  "ticks f \<longleftrightarrow> (\<forall>s. clock s \<le> clock (snd (f s)))"

lemma ticks_basic [simp]: "ticks (auth_return x)" "ticks (auth_fail e)"
  by (simp_all add: ticks_def auth_return_def auth_fail_def)

lemma ticks_bind: "ticks m \<Longrightarrow> (\<And>x. ticks (f x)) \<Longrightarrow> ticks (auth_bind m f)"
  unfolding ticks_def
proof
  fix s
  assume m: "\<forall>s. clock s \<le> clock (snd (m s))" and f: "\<And>x. \<forall>s. clock s \<le> clock (snd (f x s))"
  show "clock s \<le> clock (snd (auth_bind m f s))"
    using m [rule_format, of s] f by (cases "m s"; cases "fst (m s)")
      (auto simp: auth_bind_def auth_case_def auth_fail_def intro: order_trans)
qed

lemma ticks_with_now: "(\<And>now. ticks (f now)) \<Longrightarrow> ticks (with_now api f)"
  unfolding ticks_def
proof
  fix s
  assume f: "\<And>now. \<forall>s. clock s \<le> clock (snd (f now s))"
  obtain now s1 where now: "ua_Now api s = (now, s1)" by (cases "ua_Now api s")
  have "clock s \<le> clock s1" using reads [OF now] by simp
  also have "\<dots> \<le> clock (snd (f now s1))" using f by blast
  finally show "clock s \<le> clock (snd (with_now api f s))" by (simp add: with_now_def now)
qed

lemma ticks_calls [simp]: "ticks (ua_Update api u)" "ticks (ua_LoginRecords api name)"
  unfolding ticks_def using update_ticks records_tick by (metis prod.collapse)+

lemma ticks_set_state: "ticks (set_state api state reason user)"
  unfolding set_state_def update_user_def by (intro ticks_with_now ticks_bind) simp_all

lemma ticks_count_failed: "ticks (count_failed api user)"
  unfolding count_failed_def Let_def by (intro ticks_bind ticks_with_now) (simp_all add: ticks_set_state)

lemma ticks_check_blocked: "ticks (check_blocked api user)"
  unfolding check_blocked_def
  by (cases "us_LastTransitionTime (ku_Status user)") (auto simp: ticks_set_state ticks_count_failed intro!: ticks_with_now)

lemma ticks_sync: "ticks (syncUserStatus api user)"
  unfolding syncUserStatus_def by (auto simp: ticks_set_state ticks_check_blocked intro!: ticks_bind)

lemma sync_time: "syncUserStatus api user s = (r, s') \<Longrightarrow> clock s \<le> clock s'"
  using ticks_sync by (metis ticks_def snd_conv)

text \<open>A blocked account, since when at least, at a time.\<close>

definition blocked_since :: "int \<Rightarrow> ks_user \<Rightarrow> bool" where
  "blocked_since t u \<longleftrightarrow> ku_State u = UserAuthLimitExceeded \<and> ku_EncryptedPassword u \<noteq> [] \<and>
     (\<exists>t'. us_LastTransitionTime (ku_Status u) = Some t' \<and> t \<le> t')"

lemma count_failed_blocked:
  assumes "count_failed api u s = (Inr v, s')" "blocked_since t u" "t \<le> clock s"
  shows "blocked_since t v"
proof -
  obtain records s1 now s2 where calls: "ua_LoginRecords api (ku_Name u) s = (Inr records, s1)" "ua_Now api s1 = (now, s2)"
    and rest: "(if ua_RateLimiterMaxTries api \<le> int (length (filter (counts_as_failed api u now) records))
      then set_state api UserAuthLimitExceeded (''Failed login attempts exceed '' @
        show_int (int (length (filter (counts_as_failed api u now) records))) @ '' in last '' @ ua_DurationText api) u
      else auth_return u) s2 = (Inr v, s')"
    using assms(1) by (auto simp: count_failed_def result_iff Let_def)
  have "t \<le> clock s2" using records_tick [OF calls(1)] reads [OF calls(2)] assms(3) by linarith
  with rest show ?thesis
    using assms(2) reads by (fastforce simp: set_state_iff blocked_since_def split: if_splits)
qed

lemma sync_blocked:
  assumes "syncUserStatus api u s = (Inr v, s')" "blocked_since t u" "t \<le> clock s" "clock s' \<le> t + ua_RateLimiterDuration api"
  shows "blocked_since t v"
proof -
  obtain t' where t': "us_LastTransitionTime (ku_Status u) = Some t'" "t \<le> t'" and state: "ku_State u = UserAuthLimitExceeded"
    and "ku_EncryptedPassword u \<noteq> []"
    using assms(2) by (auto simp: blocked_since_def)
  then have "check_blocked api u s = (Inr v, s')"
    using assms(1) by (simp add: syncUserStatus_def auth_simps user_states)
  then obtain now s1 where now: "ua_Now api s = (now, s1)"
    and rest: "(if t' + ua_RateLimiterDuration api < now then set_state api UserActive [] u else count_failed api u) s1 = (Inr v, s')"
    using t'(1) state by (auto simp: check_blocked_def with_now_iff)
  have "ticks (if b then set_state api UserActive [] u else count_failed api u)" for b
    by (simp add: ticks_set_state ticks_count_failed)
  then have "clock s1 \<le> clock s'" using rest unfolding ticks_def by (metis snd_conv)
  then have "\<not> t' + ua_RateLimiterDuration api < now" "t \<le> clock s1"
    using reads [OF now] t'(2) assms(3,4) by auto
  then show ?thesis using rest count_failed_blocked [OF _ assms(2)] by simp
qed

end

text \<open>
  Runs of the controller on an account, one after the other, with time passing in between. A run that fails leaves the account
  as the server has it.
\<close>

inductive timed_runs :: "'e user_api \<Rightarrow> ('e \<Rightarrow> int) \<Rightarrow> ks_user \<Rightarrow> 'e \<Rightarrow> ks_user \<Rightarrow> 'e \<Rightarrow> bool" for api clock u s where
  no_run: "timed_runs api clock u s u s"
| time_passes: "timed_runs api clock u s v s1 \<Longrightarrow> clock s1 \<le> clock s2 \<Longrightarrow> timed_runs api clock u s v s2"
| next_run: "timed_runs api clock u s v s1 \<Longrightarrow> syncUserStatus api v s1 = (Inr w, s2) \<Longrightarrow> timed_runs api clock u s w s2"
| failed_run: "timed_runs api clock u s v s1 \<Longrightarrow> syncUserStatus api v s1 = (Inl e, s2) \<Longrightarrow> timed_runs api clock u s v s2"

context account_clock
begin

lemma timed_runs_blocked:
  assumes "timed_runs api clock u s v s'" "blocked_since t u" "t \<le> clock s"
  shows "clock s \<le> clock s' \<and> (clock s' \<le> t + ua_RateLimiterDuration api \<longrightarrow> blocked_since t v)"
  using assms(1)
proof (induction rule: timed_runs.induct)
  case (next_run v s1 w s2)
  note time = sync_time [OF next_run.hyps(2)]
  show ?case
  proof (intro conjI impI)
    show "clock s \<le> clock s2" using time next_run.IH by simp
    assume early: "clock s2 \<le> t + ua_RateLimiterDuration api"
    then have "blocked_since t v" "t \<le> clock s1" using time next_run.IH assms(3) by auto
    then show "blocked_since t w" using sync_blocked [OF next_run.hyps(2)] early by blast
  qed
next
  case (failed_run v s1 e s2)
  then show ?case using sync_time [OF failed_run.hyps(2)] by auto
qed (use assms in auto)

end

text \<open>A server that keeps users and records in memory.\<close>

record account_memory =
  acm_users :: "ks_user list"
  acm_records :: "login_record list"
  acm_now :: int

definition store_user :: "ks_user \<Rightarrow> ks_user list \<Rightarrow> ks_user list" where
  "store_user u users = u # filter (\<lambda>v. ku_Name v \<noteq> ku_Name u) users"

definition named_result :: "string \<Rightarrow> 'a option \<Rightarrow> (auth_error, 'a) result" where
  "named_result name r = (case r of Some a \<Rightarrow> Inr a | None \<Rightarrow> Inl (ApiNotFound name))"

definition memory_get :: "string \<Rightarrow> account_memory \<Rightarrow> (auth_error, ks_user) result" where
  "memory_get name s = named_result name (find (\<lambda>u. ku_Name u = name) (acm_users s))"

definition memory_update :: "ks_user \<Rightarrow> (account_memory, unit) auth" where
  "memory_update u s = (Inr (), s\<lparr>acm_users := store_user u (acm_users s)\<rparr>)"

definition memory_user_api :: "int \<Rightarrow> account_memory user_api" where
  "memory_user_api tries =
     \<lparr>ua_Get = memory_get, ua_Update = memory_update,
      ua_LoginRecords = (\<lambda>name s. (Inr (filter (\<lambda>r. map_of (lr_Labels r) UserReferenceLabel = Some name) (acm_records s)), s)),
      ua_DeleteAllOf = (\<lambda>kind name. auth_return ()), ua_RoleBindings = (\<lambda>name. auth_return []),
      ua_DeleteRoleBinding = (\<lambda>b. auth_return ()), ua_GetFederated = (\<lambda>name. auth_fail (ApiNotFound name)),
      ua_CreateFederated = (\<lambda>f. auth_return ()), ua_UpdateFederated = (\<lambda>f. auth_return ()), ua_Event = (\<lambda>b s. s),
      ua_Now = (\<lambda>s. (acm_now s, s)), ua_ldap = None, ua_devops = None, ua_CreateKubeConfig = None,
      ua_FormatTime = show_int, ua_bcryptCost = (\<lambda>p. if HasPrefix p ''$2a$'' then 10 else 0),
      ua_bcryptGenerate = (\<lambda>p. Inr (''$2a$'' @ p)), ua_MultiClusterEnabled = False, ua_RateLimiterMaxTries = tries,
      ua_RateLimiterDuration = 1800, ua_DurationText = ''30m0s''\<rparr>"



interpretation memory_clock: account_clock "memory_user_api tries" acm_now
  by unfold_locales (auto simp: memory_user_api_def memory_update_def)




definition failed_record :: "string \<Rightarrow> int \<Rightarrow> login_record" where
  "failed_record name t = \<lparr>lr_Name = name @ show_int t, lr_GenerateName = [], lr_Labels = [(UserReferenceLabel, name)], lr_CreationTimestamp = t,
     lr_Deleting = False, lr_Type = ''Token'', lr_Provider = [], lr_SourceIP = [], lr_UserAgent = [], lr_Success = False,
     lr_Reason = ''incorrect password''\<rparr>"

definition attacked :: account_memory where
  "attacked = \<lparr>acm_users = [sample_account UserActive], acm_records = [failed_record ''bob'' 900, failed_record ''bob'' 950], acm_now = 1000\<rparr>"

definition blocked_account :: ks_user where
  "blocked_account = (sample_account UserActive)\<lparr>ku_Status := \<lparr>us_State = UserAuthLimitExceeded,
     us_Reason = ''Failed login attempts exceed 2 in last 30m0s'', us_LastTransitionTime = Some 1000, us_LastLoginTime = None\<rparr>\<rparr>"

lemma attacked_sync:
  "syncUserStatus (memory_user_api 2) (sample_account UserActive) attacked =
     (Inr blocked_account, attacked\<lparr>acm_users := [blocked_account]\<rparr>)"
  by code_simp




lemma attacked_run: "account_runs (memory_user_api 2) (sample_account UserActive) blocked_account"
  by (rule account_runs.next_run [OF account_runs.no_run attacked_sync])

theorem account_life_cycle_witness:
  "(account_step (memory_user_api 2))\<^sup>*\<^sup>* (sample_account UserActive) blocked_account"
  using account_life_cycle [OF attacked_run] by (rule conjunct1)

lemma blocked_account_released:
  assumes updates: "\<And>u s. \<exists>s'. ua_Update api u s = (Inr (), s')"
    and "ku_State user = UserAuthLimitExceeded" "ku_EncryptedPassword user \<noteq> []"
    and "us_LastTransitionTime (ku_Status user) = Some t" and now: "ua_Now api s = (now, s1)"
    and "t + ua_RateLimiterDuration api < now"
  shows "\<exists>user' s'. syncUserStatus api user s = (Inr user', s') \<and> ku_State user' = UserActive"
proof -
  obtain later s2 where later: "ua_Now api s1 = (later, s2)" by (cases "ua_Now api s1")
  let ?user' = "user\<lparr>ku_Status := \<lparr>us_State = UserActive, us_Reason = [], us_LastTransitionTime = Some later, us_LastLoginTime = None\<rparr>\<rparr>"
  obtain s3 where "ua_Update api ?user' s2 = (Inr (), s3)" using updates by blast
  then have "set_state api UserActive [] user s1 = (Inr ?user', s3)" using later by (simp add: set_state_iff)
  then have "check_blocked api user s = (Inr ?user', s3)"
    using assms(2,4,6) now by (simp add: check_blocked_def with_now_def)
  then have "syncUserStatus api user s = (Inr ?user', s3)"
    using assms(2,3) by (simp add: syncUserStatus_def auth_bind_def auth_case_def auth_simps user_states)
  then show ?thesis by auto
qed

text \<open>
  C39: an account that was blocked at a time is still blocked, since then or since a later blocking, after any number of runs of
  the controller that end within the time limit, successful or not; and a blocked account is active again after a run
  that starts later than the time limit after its last blocking, if the server accepts updates. The clock the runs read
  does not go back, and nobody but the controller changes the account.
\<close>
theorem account_blocked_for_limit:
  assumes "account_clock api clock" and updates: "\<And>u s. \<exists>s'. ua_Update api u s = (Inr (), s')"
    and blocked: "ku_State user = UserAuthLimitExceeded" "ku_EncryptedPassword user \<noteq> []"
      "us_LastTransitionTime (ku_Status user) = Some t" "t \<le> clock s"
  shows "(\<forall>user' s'. timed_runs api clock user s user' s' \<and> clock s' \<le> t + ua_RateLimiterDuration api \<longrightarrow>
       ku_State user' = UserAuthLimitExceeded \<and> (\<exists>t'. us_LastTransitionTime (ku_Status user') = Some t' \<and> t \<le> t')) \<and>
    (\<forall>now s1. ua_Now api s = (now, s1) \<and> t + ua_RateLimiterDuration api < now \<longrightarrow>
       (\<exists>user' s'. syncUserStatus api user s = (Inr user', s') \<and> ku_State user' = UserActive))"
proof -
  have since: "account_clock.blocked_since t user"
    using blocked by (simp add: account_clock.blocked_since_def [OF assms(1)])
  have "ku_State user' = UserAuthLimitExceeded \<and> (\<exists>t'. us_LastTransitionTime (ku_Status user') = Some t' \<and> t \<le> t')"
    if "timed_runs api clock user s user' s'" "clock s' \<le> t + ua_RateLimiterDuration api" for user' s'
    using account_clock.timed_runs_blocked [OF assms(1) that(1) since blocked(4)] that(2)
    by (simp add: account_clock.blocked_since_def [OF assms(1)])
  then show ?thesis using blocked_account_released [OF updates blocked(1-3)] by blast
qed

lemma attacked_late:
  "\<exists>s'. syncUserStatus (memory_user_api 2) blocked_account (attacked\<lparr>acm_now := 2000\<rparr>) = (Inr blocked_account, s') \<and> acm_now s' = 2000"
  by (rule exI [of _ "attacked\<lparr>acm_now := 2000\<rparr>"]) code_simp

theorem account_blocked_for_limit_witness:
  "(\<exists>s'. timed_runs (memory_user_api 2) acm_now blocked_account attacked blocked_account s' \<and> acm_now s' = 2000) \<and>
   ku_State blocked_account = UserAuthLimitExceeded \<and>
   (\<exists>user' s'. syncUserStatus (memory_user_api 2) blocked_account (attacked\<lparr>acm_now := 3000\<rparr>) = (Inr user', s') \<and> ku_State user' = UserActive)"
proof -
  have runs: "\<exists>s'. timed_runs (memory_user_api 2) acm_now blocked_account attacked blocked_account s' \<and> acm_now s' = 2000"
    using attacked_late timed_runs.next_run [OF timed_runs.time_passes [OF timed_runs.no_run, of acm_now attacked "attacked\<lparr>acm_now := 2000\<rparr>"]]
    by (fastforce simp: attacked_def)
  have updates: "\<exists>s'. ua_Update (memory_user_api 2) u s = (Inr (), s')" for u s by (simp add: memory_user_api_def memory_update_def)
  have "us_LastTransitionTime (ku_Status blocked_account) = Some 1000" "ku_State blocked_account = UserAuthLimitExceeded"
      "ku_EncryptedPassword blocked_account \<noteq> []"
    by (simp_all add: blocked_account_def sample_account_def)
  note limit = account_blocked_for_limit [OF memory_clock.account_clock_axioms updates this(2,3,1)]
  have duration: "ua_RateLimiterDuration (memory_user_api 2) = 1800" by (simp add: memory_user_api_def)
  have "1000 \<le> acm_now attacked" by (simp add: attacked_def)
  note early = limit [OF this, unfolded duration, THEN conjunct1]
  have "1000 \<le> acm_now (attacked\<lparr>acm_now := 3000\<rparr>)" by simp
  note late = limit [OF this, unfolded duration, THEN conjunct2]
  have "ua_Now (memory_user_api 2) (attacked\<lparr>acm_now := 3000\<rparr>) = (3000, attacked\<lparr>acm_now := 3000\<rparr>)" by (simp add: memory_user_api_def)
  then have "\<exists>user' s'. syncUserStatus (memory_user_api 2) blocked_account (attacked\<lparr>acm_now := 3000\<rparr>) = (Inr user', s') \<and> ku_State user' = UserActive"
    using late by simp
  moreover have "ku_State blocked_account = UserAuthLimitExceeded" using runs early by fastforce
  ultimately show ?thesis using runs by blast
qed

text \<open>
  No password stays in clear: after the controller has dealt with the password of a user it is empty or
  encrypted, and when it was encrypted the annotation that might repeat the old object is gone.
\<close>
theorem encryptPassword_leaves_no_plain_text:
  assumes bcrypt: "\<And>p h. ua_bcryptGenerate api p = Inr h \<Longrightarrow> isEncrypted api h"
    and "encryptPassword api user s = (Inr user', s')"
  shows "(ku_EncryptedPassword user' = [] \<or> isEncrypted api (ku_EncryptedPassword user')) \<and>
    (ku_EncryptedPassword user' \<noteq> ku_EncryptedPassword user \<longrightarrow>
       map_of (ku_Annotations user') LastAppliedConfigAnnotation = None \<and> ua_Update api user' (snd (ua_Now api s)) = (Inr (), s'))"
  using assms(2) bcrypt
  by (auto simp: encryptPassword_def with_now_iff update_user_iff split: if_splits sum.splits)

theorem encryptPassword_leaves_no_plain_text_witness:
  "\<exists>user' s'. encryptPassword (memory_user_api 2) ((sample_account UserActive)\<lparr>ku_EncryptedPassword := ''Secret1''\<rparr>) attacked = (Inr user', s') \<and>
     (ku_EncryptedPassword user' = [] \<or> isEncrypted (memory_user_api 2) (ku_EncryptedPassword user'))"
proof -
  let ?api = "memory_user_api 2" and ?u = "(sample_account UserActive)\<lparr>ku_EncryptedPassword := ''Secret1''\<rparr>"
  have bcrypt: "\<And>p h. ua_bcryptGenerate ?api p = Inr h \<Longrightarrow> isEncrypted ?api h"
    by (auto simp: memory_user_api_def isEncrypted_def HasPrefix_def)
  have "\<exists>user' s'. encryptPassword ?api ?u attacked = (Inr user', s')"
    by (simp add: encryptPassword_def memory_user_api_def isEncrypted_def HasPrefix_def with_now_def update_user_def memory_update_def
        auth_bind_def auth_case_def auth_simps)
  then obtain user' s' where e: "encryptPassword ?api ?u attacked = (Inr user', s')" by blast
  have "ku_EncryptedPassword user' = [] \<or> isEncrypted ?api (ku_EncryptedPassword user')"
    by (rule conjunct1, rule encryptPassword_leaves_no_plain_text [OF _ e], rule bcrypt)
  then show ?thesis using e by blast
qed

text \<open>
  the history of a user's logins is cut to the configured number of entries: what is left is not more than
  that, and no entry that is deleted is newer than one that is kept.
\<close>
theorem old_entries_are_oldest:
  assumes sort: "slice_sort sortSlice" and del: "del = old_entries sortSlice n rs"
  shows "mset del \<subseteq># mset rs \<and> size (mset rs - mset del) = min n (length rs) \<and>
     (\<forall>d k. d \<in># mset del \<longrightarrow> k \<in># mset rs - mset del \<longrightarrow> lr_CreationTimestamp d \<le> lr_CreationTimestamp k)"
proof (cases "length rs \<le> n")
  case True
  then show ?thesis by (simp add: del old_entries_def)
next
  case False
  let ?xs = "sortSlice older rs" and ?m = "length rs - n"
  have perm: "mset rs = mset (take ?m ?xs) + mset (drop ?m ?xs)"
    using slice_sort.permutes [OF sort, of older rs] by (metis append_take_drop_id mset_append)
  have sorted: "sorted_wrt (\<lambda>x y. \<not> older y x) (take ?m ?xs @ drop ?m ?xs)"
    using slice_sort.sorts [OF sort, of older rs] by (simp add: older_def strict_weak_def)
  have len: "length ?xs = length rs" by (simp add: slice_sort.length_sort [OF sort])
  have del': "del = take ?m ?xs" using False by (simp add: del old_entries_def)
  have rest: "mset rs - mset del = mset (drop ?m ?xs)" using perm del' by simp
  have "lr_CreationTimestamp d \<le> lr_CreationTimestamp k" if "d \<in> set (take ?m ?xs)" "k \<in> set (drop ?m ?xs)" for d k
    using sorted that unfolding sorted_wrt_append by (auto simp: older_def not_less)
  then show ?thesis using False perm len unfolding rest by (auto simp: del')
qed

theorem old_entries_are_oldest_witness:
  "\<exists>del. del = old_entries insertionSort 1 [failed_record ''bob'' 950, failed_record ''bob'' 900] \<and>
     mset del \<subseteq># mset [failed_record ''bob'' 950, failed_record ''bob'' 900]"
  using old_entries_are_oldest [OF insertion.slice_sort_axioms refl, of 1 "[failed_record ''bob'' 950, failed_record ''bob'' 900]"]
  by blast

end
