(* ===== verification/Oauth_Handlers.thy ===== *)
theory Oauth_Handlers
  imports Authentication
begin

text \<open>
  The OAuth endpoints (\<^verbatim>\<open>pkg/kapis/oauth/handler.go\<close>) and their options
  (\<^verbatim>\<open>pkg/apiserver/authentication/oauth/options.go\<close>, \<^verbatim>\<open>oidc.go\<close>): authorization, the token grants, the callback
  of identity providers, logout and token review.
  A handler reads a request and writes replies, of which only the first takes effect on the wire; all are
  kept, as the code may write more than one. URL parsing, encoding of replies and the identity
  management interface are parameters; a URL is kept as its text.
\<close>

section \<open>Clients\<close>

record oauth_client =
  oc_Name :: string
  oc_Secret :: string
  oc_RedirectURIs :: "string list"

fun OAuthClient :: "oauth_client list \<Rightarrow> string \<Rightarrow> (auth_error, oauth_client) result" where
  "OAuthClient [] name = Inl ErrorClientNotFound"
| "OAuthClient (found # rest) name = (if oc_Name found = name then Inr found else OAuthClient rest name)"

text \<open>\<open>url_Parse\<close> gives an error or nothing.\<close>

definition anyRedirectAbleURI :: "(string \<Rightarrow> string option) \<Rightarrow> oauth_client \<Rightarrow> string list" where
  "anyRedirectAbleURI url_Parse c = filter (\<lambda>uri. url_Parse uri = None) (oc_RedirectURIs c)"

definition parse_url :: "(string \<Rightarrow> string option) \<Rightarrow> string \<Rightarrow> (auth_error, string) result" where
  "parse_url url_Parse u = (case url_Parse u of None \<Rightarrow> Inr u | Some e \<Rightarrow> Inl (LibError e))"

definition ResolveRedirectURL :: "(string \<Rightarrow> string option) \<Rightarrow> oauth_client \<Rightarrow> string \<Rightarrow> (auth_error, string) result" where
  "ResolveRedirectURL url_Parse c expectURL =
     (if length (oc_RedirectURIs c) = 0 then Inl ErrorRedirectURLNotAllowed
      else
        (let allowAllRedirectURI = ''*'' \<in> set (oc_RedirectURIs c);
             redirectAbleURIs = anyRedirectAbleURI url_Parse c
         in if expectURL = []
            then (if length redirectAbleURIs > 0 then parse_url url_Parse (redirectAbleURIs ! 0)
                  else Inl ErrorRedirectURLNotAllowed)
            else if allowAllRedirectURI \<or> expectURL \<in> set redirectAbleURIs then parse_url url_Parse expectURL
            else Inl ErrorRedirectURLNotAllowed))"

definition IsValidResponseTypes :: "string list \<Rightarrow> bool" where
  "IsValidResponseTypes responseTypes = list_all (\<lambda>r. r \<in> set [''code'', ''id_token'', ''token'']) responseTypes"

definition IsValidScopes :: "string list \<Rightarrow> bool" where
  "IsValidScopes scopes = list_all (\<lambda>s. s \<in> set [''openid'', ''email'', ''profile'']) scopes"

section \<open>Requests and replies\<close>

record oauth_request =
  or_Method :: string
  or_Query :: "(string, string) gomap"
  or_Body :: "(auth_error, (string, string) gomap) result"
  or_Login :: "(auth_error, string \<times> string) result"
  or_Provider :: string
  or_http :: http_request
  or_User :: "auth_user option"
  or_Info :: request_info

definition QueryParameter :: "oauth_request \<Rightarrow> string \<Rightarrow> string" where
  "QueryParameter req name = map_get [] (or_Query req) name"

definition BodyParameter :: "oauth_request \<Rightarrow> string \<Rightarrow> (auth_error, string) result" where
  "BodyParameter req name = bind_result (or_Body req) (\<lambda>m. Inr (map_get [] m name))"

definition body_or_empty :: "oauth_request \<Rightarrow> string \<Rightarrow> string" where
  "body_or_empty req name = (case BodyParameter req name of Inl _ \<Rightarrow> [] | Inr v \<Rightarrow> v)"

text \<open>An OAuth error: its type and the error it describes.\<close>

type_synonym oauth_error = "string \<times> auth_error option"

definition NewInvalidRequest :: "auth_error \<Rightarrow> oauth_error" where "NewInvalidRequest e = (''invalid_request'', Some e)"
definition NewInvalidClient :: "auth_error \<Rightarrow> oauth_error" where "NewInvalidClient e = (''invalid_client'', Some e)"
definition NewInvalidGrant :: "auth_error \<Rightarrow> oauth_error" where "NewInvalidGrant e = (''invalid_grant'', Some e)"
definition NewServerError :: "auth_error \<Rightarrow> oauth_error" where "NewServerError e = (''server_error'', Some e)"
definition ErrorUnsupportedGrantType :: oauth_error where "ErrorUnsupportedGrantType = (''unsupported_grant_type'', None)"
definition ErrorUnsupportedResponseType :: oauth_error where "ErrorUnsupportedResponseType = (''unsupported_response_type'', None)"
definition ErrorLoginRequired :: oauth_error where "ErrorLoginRequired = (''login_required'', None)"

record oauth_token =
  tk_AccessToken :: string
  tk_TokenType :: string
  tk_RefreshToken :: string
  tk_IDToken :: string
  tk_ExpiresIn :: int

text \<open>
  Redirections name the URL and what is put into it: an error and the client's state as the query, a code
  added to the query, or a token as the fragment.
\<close>

datatype oauth_reply =
    ErrorReply nat oauth_error
  | TokenReply oauth_token
  | ClaimsReply claims
  | ReviewReply string
  | ErrorRedirect string oauth_error string
  | CodeRedirect string string
  | TokenRedirect string oauth_token
  | LogoutRedirect string string
  | BadRequestReply auth_error
  | UnauthorizedReply auth_error
  | InternalErrorReply auth_error
  | EmptyReply

type_synonym 'e oauth_handler = "'e \<Rightarrow> oauth_reply list \<times> 'e"

definition reply :: "oauth_reply \<Rightarrow> 'e oauth_handler" where
  "reply r s = ([r], s)"

text \<open>The result of a call, or a reply that reports its error.\<close>

definition or_reply :: "('e, 'a) auth \<Rightarrow> (auth_error \<Rightarrow> oauth_reply) \<Rightarrow> ('a \<Rightarrow> 'e oauth_handler) \<Rightarrow> 'e oauth_handler" where
  "or_reply m err ok s = (case m s of (Inl e, s') \<Rightarrow> ([err e], s') | (Inr a, s') \<Rightarrow> ok a s')"

definition lift_result :: "(auth_error, 'a) result \<Rightarrow> ('e, 'a) auth" where
  "lift_result r s = (r, s)"

record 'e oauth_server =
  os_auth :: "'e auth_server"
  os_Clients :: "oauth_client list"
  os_InactivityTimeout :: duration
  os_urlParse :: "string \<Rightarrow> string option"
  os_DescribeUser :: "string \<Rightarrow> ('e, ks_user) auth"
  os_ListUsers :: "(string, string) gomap \<Rightarrow> ('e, ks_user list) auth"

abbreviation os_tokens :: "'e oauth_server \<Rightarrow> 'e token_env" where
  "os_tokens h \<equiv> le_tokens (as_env (os_auth h))"

abbreviation os_operator :: "'e oauth_server \<Rightarrow> token_operator" where
  "os_operator h \<equiv> as_operator (os_auth h)"

section \<open>Issuing tokens\<close>

definition token_request :: "auth_user \<Rightarrow> string \<Rightarrow> duration \<Rightarrow> issue_request" where
  "token_request user type d = \<lparr>ir_User = user, ir_ExpiresIn = d, ir_Claims = no_claims\<lparr>cl_TokenType := type\<rparr>\<rparr>"

definition issueTokenTo :: "'e oauth_server \<Rightarrow> auth_user \<Rightarrow> ('e, oauth_token) auth" where
  "issueTokenTo h user =
     (let maxAge = to_AccessTokenMaxAge (os_operator h) in
      auth_bind (IssueTo (os_tokens h) (os_operator h) (token_request user AccessToken maxAge)) (\<lambda>accessToken.
      auth_bind (IssueTo (os_tokens h) (os_operator h) (token_request user RefreshToken (maxAge + os_InactivityTimeout h))) (\<lambda>refreshToken.
        auth_return \<lparr>tk_AccessToken = accessToken, tk_TokenType = ''Bearer'', tk_RefreshToken = refreshToken, tk_IDToken = [],
                     tk_ExpiresIn = Seconds maxAge\<rparr>)))"

section \<open>Authorization\<close>

definition code_request :: "auth_user \<Rightarrow> string \<Rightarrow> string \<Rightarrow> string list \<Rightarrow> issue_request" where
  "code_request user clientID nonce scopes =
     \<lparr>ir_User = user, ir_ExpiresIn = 600000000000,
      ir_Claims = no_claims\<lparr>cl_Audience := [clientID], cl_TokenType := AuthorizationCode, cl_Nonce := nonce, cl_Scopes := scopes\<rparr>\<rparr>"

definition split_words :: "string \<Rightarrow> string list" where
  "split_words s = (if s \<noteq> [] then SplitChar CHR '' '' s else [])"

text \<open>The end of the endpoint, reached for the code flow as well: it has no return of its own.\<close>

definition implicit_flow :: "'e oauth_server \<Rightarrow> auth_user \<Rightarrow> string \<Rightarrow> string \<Rightarrow> string \<Rightarrow> 'e oauth_handler" where
  "implicit_flow h user redirectURL responseType st =
     (if responseType \<noteq> ''token'' then reply (ErrorRedirect redirectURL ErrorUnsupportedResponseType st)
      else or_reply (issueTokenTo h user) (\<lambda>e. ErrorReply 500 (NewServerError e))
             (\<lambda>result. reply (TokenRedirect redirectURL result)))"

definition code_flow :: "'e oauth_server \<Rightarrow> auth_user \<Rightarrow> string \<Rightarrow> string \<Rightarrow> string \<Rightarrow> string \<Rightarrow> string list \<Rightarrow> string \<Rightarrow> 'e oauth_handler" where
  "code_flow h user redirectURL responseType clientID nonce scopes st =
     (if responseType = ''code''
      then or_reply (IssueTo (os_tokens h) (os_operator h) (code_request user clientID nonce scopes))
             (\<lambda>e. ErrorReply 500 (NewServerError e))
             (\<lambda>code s. case implicit_flow h user redirectURL responseType st s of
                         (rest, s') \<Rightarrow> (CodeRedirect redirectURL code # rest, s'))
      else implicit_flow h user redirectURL responseType st)"

definition authorize :: "'e oauth_server \<Rightarrow> oauth_request \<Rightarrow> 'e oauth_handler" where
  "authorize h req =
     (let param = (if or_Method req = ''POST'' then body_or_empty req else QueryParameter req);
          clientID = param ''client_id''; responseType = param ''response_type''; st = param ''state''
      in or_reply (lift_result (OAuthClient (os_Clients h) clientID)) (\<lambda>e. ErrorReply 400 (NewInvalidClient e)) (\<lambda>oauthClient.
         or_reply (lift_result (ResolveRedirectURL (os_urlParse h) oauthClient (param ''redirect_uri'')))
           (\<lambda>e. ErrorReply 400 (NewInvalidRequest e)) (\<lambda>redirectURL.
           case or_User req of
             None \<Rightarrow> reply (ErrorReply 401 ErrorLoginRequired)
           | Some authenticated \<Rightarrow>
               if u_Name authenticated = Anonymous then reply (ErrorReply 401 ErrorLoginRequired)
               else if \<not> IsValidResponseTypes (split_words responseType)
               then reply (ErrorRedirect redirectURL (NewInvalidRequest (LibError ''Some requested response types were invalid'')) st)
               else code_flow h authenticated redirectURL responseType clientID (param ''nonce'') (split_words (param ''scope'')) st)))"

section \<open>Grants\<close>

text \<open>The record of a login is best effort: its error is only logged.\<close>

definition record_login :: "'e oauth_server \<Rightarrow> oauth_request \<Rightarrow> string \<Rightarrow> string \<Rightarrow> string option \<Rightarrow> 'e \<Rightarrow> 'e" where
  "record_login h req username provider err s =
     snd (RecordLogin (as_env (os_auth h)) username ''Token'' provider (ri_SourceIP (or_Info req)) (ri_UserAgent (or_Info req)) err s)"

definition passwordGrant :: "'e oauth_server \<Rightarrow> string \<Rightarrow> string \<Rightarrow> oauth_request \<Rightarrow> 'e oauth_handler" where
  "passwordGrant h username password req s =
     (let srv = os_auth h; env = as_env srv in
      case password_Authenticate env (as_providers srv) (as_IdentityProviders srv) username password s of
        ((Inl e, provider), s1) \<Rightarrow>
          (let s2 = le_SetLoginUserName env username True s1 in
           if e = AccountIsNotActiveError then ([ErrorReply 400 (NewInvalidGrant e)], s2)
           else if e = IncorrectPasswordError
           then ([ErrorReply 400 (NewInvalidGrant e)], record_login h req username provider (Some ''incorrect password'') s2)
           else if e = RateLimitExceededError then ([ErrorReply 429 (NewInvalidGrant e)], s2)
           else ([ErrorReply 500 (NewServerError e)], s2))
      | ((Inr authenticated, provider), s1) \<Rightarrow>
          (case issueTokenTo h authenticated s1 of
             (Inl e, s2) \<Rightarrow> ([ErrorReply 500 (NewServerError e)], le_SetLoginUserName env username True s2)
           | (Inr result, s2) \<Rightarrow>
               ([TokenReply result],
                le_SetLoginUserName env username False (record_login h req (u_Name authenticated) provider None s2))))"

definition registered_user :: "'e oauth_server \<Rightarrow> auth_user \<Rightarrow> (auth_user \<Rightarrow> 'e oauth_handler) \<Rightarrow> 'e oauth_handler" where
  "registered_user h user k =
     (let idps = map_get [] (u_Extra user) ''idp''; uids = map_get [] (u_Extra user) ''uid'' in
      if u_Name user = PreRegistrationUser \<and> length idps > 0 \<and> length uids > 0
      then or_reply (os_ListUsers h [(IdentifyProviderLabel, idps ! 0), (OriginUIDLabel, uids ! 0)])
             (\<lambda>e. ErrorReply 500 (NewServerError e))
             (\<lambda>items. case items of
                [item] \<Rightarrow> k (named_user (ku_Name item))
              | _ \<Rightarrow> reply (ErrorReply 400 (NewInvalidGrant (LibError ''authenticated user does not exist''))))
      else k user)"

definition invalid_type :: "string \<Rightarrow> string \<Rightarrow> auth_error" where
  "invalid_type got want = LibError (''ivalid token type '' @ got @ '' want '' @ want)"

definition refreshTokenGrant :: "'e oauth_server \<Rightarrow> oauth_request \<Rightarrow> 'e oauth_handler" where
  "refreshTokenGrant h req =
     or_reply (lift_result (BodyParameter req ''refresh_token'')) (\<lambda>e. ErrorReply 400 (NewInvalidRequest e)) (\<lambda>refreshToken.
     or_reply (Verify (os_tokens h) (os_operator h) refreshToken) (\<lambda>e. ErrorReply 400 (NewInvalidGrant e)) (\<lambda>verified.
       if cl_TokenType (vr_Claims verified) \<noteq> RefreshToken
       then reply (ErrorReply 400 (NewInvalidGrant (invalid_type (cl_TokenType (vr_Claims verified)) RefreshToken)))
       else registered_user h (vr_User verified) (\<lambda>authenticated.
         or_reply (issueTokenTo h authenticated) (\<lambda>e. ErrorReply 500 (NewServerError e)) (\<lambda>result. reply (TokenReply result)))))"

definition id_token_request :: "'e oauth_server \<Rightarrow> verified_response \<Rightarrow> ks_user \<Rightarrow> issue_request" where
  "id_token_request h ctx authenticated =
     (let scopes = cl_Scopes (vr_Claims ctx);
          c = no_claims\<lparr>cl_Audience := cl_Audience (vr_Claims ctx), cl_Nonce := cl_Nonce (vr_Claims ctx), cl_TokenType := IDToken,
                cl_Name := u_Name (vr_User ctx)\<rparr>;
          c' = (if ''profile'' \<in> set scopes
                then c\<lparr>cl_PreferredUsername := ku_Name authenticated, cl_Locale := ku_Lang authenticated\<rparr> else c);
          c'' = (if ''email'' \<in> set scopes then c'\<lparr>cl_Email := ku_Email authenticated\<rparr> else c')
      in \<lparr>ir_User = vr_User ctx, ir_ExpiresIn = to_AccessTokenMaxAge (os_operator h) + os_InactivityTimeout h, ir_Claims = c''\<rparr>)"

definition code_result :: "'e oauth_server \<Rightarrow> verified_response \<Rightarrow> 'e oauth_handler" where
  "code_result h ctx =
     or_reply (issueTokenTo h (vr_User ctx)) (\<lambda>e. ErrorReply 500 (NewServerError e)) (\<lambda>result.
       if ''openid'' \<notin> set (cl_Scopes (vr_Claims ctx)) then reply (TokenReply result)
       else or_reply (os_DescribeUser h (u_Name (vr_User ctx))) (\<lambda>e. ErrorReply 500 (NewServerError e)) (\<lambda>authenticated.
            or_reply (IssueTo (os_tokens h) (os_operator h) (id_token_request h ctx authenticated))
              (\<lambda>e. ErrorReply 500 (NewServerError e)) (\<lambda>idToken. reply (TokenReply (result\<lparr>tk_IDToken := idToken\<rparr>)))))"

text \<open>Whatever the outcome, the code is revoked at the end; a failure to do so is only logged.\<close>

definition codeGrant :: "'e oauth_server \<Rightarrow> oauth_request \<Rightarrow> 'e oauth_handler" where
  "codeGrant h req =
     or_reply (lift_result (BodyParameter req ''code'')) (\<lambda>e. ErrorReply 400 (NewInvalidRequest e)) (\<lambda>code.
     or_reply (Verify (os_tokens h) (os_operator h) code) (\<lambda>e. ErrorReply 400 (NewInvalidGrant e)) (\<lambda>ctx.
       if cl_TokenType (vr_Claims ctx) \<noteq> AuthorizationCode
       then reply (ErrorReply 400 (NewInvalidGrant (invalid_type (cl_TokenType (vr_Claims ctx)) AuthorizationCode)))
       else (\<lambda>s. case code_result h ctx s of (replies, s') \<Rightarrow> (replies, snd (Revoke (os_tokens h) code s')))))"

definition oauth_token_endpoint :: "'e oauth_server \<Rightarrow> oauth_request \<Rightarrow> 'e oauth_handler" where
  "oauth_token_endpoint h req =
     or_reply (lift_result (BodyParameter req ''client_id'')) (\<lambda>e. ErrorReply 401 (NewInvalidClient e)) (\<lambda>clientID.
     or_reply (lift_result (BodyParameter req ''client_secret'')) (\<lambda>e. ErrorReply 401 (NewInvalidClient e)) (\<lambda>clientSecret.
     or_reply (lift_result (OAuthClient (os_Clients h) clientID)) (\<lambda>e. ErrorReply 401 (NewInvalidClient e)) (\<lambda>client.
       if oc_Secret client \<noteq> clientSecret
       then reply (ErrorReply 401 (NewInvalidClient (LibError ''invalid client credential'')))
       else or_reply (lift_result (BodyParameter req ''grant_type'')) (\<lambda>e. ErrorReply 400 (NewInvalidRequest e)) (\<lambda>grantType.
         if grantType = ''password'' then passwordGrant h (body_or_empty req ''username'') (body_or_empty req ''password'') req
         else if grantType = ''refresh_token'' then refreshTokenGrant h req
         else if grantType = ''code'' then codeGrant h req
         else reply (ErrorReply 400 ErrorUnsupportedGrantType)))))"

section \<open>The other endpoints\<close>

definition login :: "'e oauth_server \<Rightarrow> oauth_request \<Rightarrow> 'e oauth_handler" where
  "login h req =
     or_reply (lift_result (or_Login req)) BadRequestReply (\<lambda>(username, password). passwordGrant h username password req)"

definition oauthCallback :: "'e oauth_server \<Rightarrow> oauth_request \<Rightarrow> 'e oauth_handler" where
  "oauthCallback h req s =
     (let srv = os_auth h in
      case oauth_Authenticate (as_env srv) (as_providers srv) (as_IdentityProviders srv) (or_Provider req) (or_http req) s of
        ((Inl e, provider), s1) \<Rightarrow> ([UnauthorizedReply e], s1)
      | ((Inr authenticated, provider), s1) \<Rightarrow>
          or_reply (issueTokenTo h authenticated) (\<lambda>e. ErrorReply 500 (NewServerError e))
            (\<lambda>result s2. ([TokenReply result], record_login h req (u_Name authenticated) provider None s2)) s1)"

definition logout :: "'e oauth_server \<Rightarrow> oauth_request \<Rightarrow> 'e oauth_handler" where
  "logout h req =
     or_reply (case or_User req of
                 None \<Rightarrow> auth_return ()
               | Some authenticated \<Rightarrow> RevokeAllUserTokens (os_tokens h) (u_Name authenticated)) InternalErrorReply (\<lambda>_.
       let uri = QueryParameter req ''post_logout_redirect_uri'' in
       if uri = [] then reply EmptyReply
       else (case os_urlParse h uri of
               Some e \<Rightarrow> reply (BadRequestReply (LibError (''invalid logout redirect URI: '' @ e)))
             | None \<Rightarrow> reply (LogoutRedirect uri (QueryParameter req ''state''))))"

definition userinfo :: "'e oauth_server \<Rightarrow> oauth_request \<Rightarrow> 'e oauth_handler" where
  "userinfo h req =
     (case or_User req of
        None \<Rightarrow> reply (ErrorReply 401 ErrorLoginRequired)
      | Some authenticated \<Rightarrow>
          if u_Name authenticated = Anonymous then reply (ErrorReply 401 ErrorLoginRequired)
          else or_reply (os_DescribeUser h (u_Name authenticated)) (\<lambda>e. ErrorReply 500 (NewServerError e)) (\<lambda>detail.
            reply (ClaimsReply (no_claims\<lparr>cl_Subject := ku_Name detail, cl_Name := ku_Name detail, cl_Email := ku_Email detail,
                     cl_Locale := ku_Lang detail, cl_PreferredUsername := ku_Name detail\<rparr>))))"

text \<open>The body of a token review is the token, or an error when it cannot be read; the token may be missing.\<close>

definition tokenReview :: "'e oauth_server \<Rightarrow> (auth_error, string) result \<Rightarrow> 'e oauth_handler" where
  "tokenReview h body =
     or_reply (lift_result body) BadRequestReply (\<lambda>token.
       if token = [] then reply (BadRequestReply (LibError ''token must not be null''))
       else or_reply (Verify (os_tokens h) (os_operator h) token) BadRequestReply (\<lambda>verified.
              reply (ReviewReply (u_Name (vr_User verified)))))"

section \<open>Redirections\<close>

lemma or_reply_Inl: "m s = (Inl e, s') \<Longrightarrow> or_reply m err ok s = ([err e], s')"
  by (simp add: or_reply_def)

lemma or_reply_Inr: "m s = (Inr a, s') \<Longrightarrow> or_reply m err ok s = ok a s'"
  by (simp add: or_reply_def)

lemma or_reply_in:
  "r \<in> set (fst (or_reply m err ok s)) \<longleftrightarrow>
     (\<exists>e s'. m s = (Inl e, s') \<and> r = err e) \<or> (\<exists>a s'. m s = (Inr a, s') \<and> r \<in> set (fst (ok a s')))"
  by (auto simp: or_reply_def split: prod.splits sum.splits)

lemma reply_in [simp]: "r \<in> set (fst (reply q s)) \<longleftrightarrow> r = q"
  by (simp add: reply_def)

lemma lift_result_iff [simp]: "lift_result r s = (r', s') \<longleftrightarrow> r' = r \<and> s' = s"
  by (auto simp: lift_result_def)

lemma or_reply_lift:
  "or_reply (lift_result r) err ok s = (case r of Inl e \<Rightarrow> ([err e], s) | Inr a \<Rightarrow> ok a s)"
  by (simp add: or_reply_def lift_result_def split: sum.splits)

lemma fst_case_Cons [simp]: "fst (case p of (rest, s') \<Rightarrow> (x # rest, s')) = x # fst p"
  by (cases p) simp

lemma OAuthClient_Inr: "OAuthClient clients name = Inr c \<Longrightarrow> c \<in> set clients \<and> oc_Name c = name"
  by (induction clients) (auto split: if_splits)

fun redirect_target :: "oauth_reply \<Rightarrow> string option" where
  "redirect_target (ErrorRedirect url e st) = Some url"
| "redirect_target (CodeRedirect url code) = Some url"
| "redirect_target (TokenRedirect url tok) = Some url"
| "redirect_target _ = None"

text \<open>A URL a client may be sent to: one it has registered, or the requested one where it has registered a star.\<close>

definition allowed_redirect :: "(string \<Rightarrow> string option) \<Rightarrow> oauth_client \<Rightarrow> string \<Rightarrow> string \<Rightarrow> bool" where
  "allowed_redirect url_Parse c requested url \<longleftrightarrow>
     url_Parse url = None \<and>
     (url \<in> set (oc_RedirectURIs c) \<and> (requested = [] \<or> requested = url) \<or>
      ''*'' \<in> set (oc_RedirectURIs c) \<and> url = requested \<and> requested \<noteq> [])"

lemma ResolveRedirectURL_Inr:
  assumes "ResolveRedirectURL url_Parse c requested = Inr url"
  shows "allowed_redirect url_Parse c requested url"
proof -
  have nth: "\<And>xs. 0 < length xs \<Longrightarrow> xs ! 0 \<in> set xs" by (rule nth_mem)
  show ?thesis
    using assms nth [of "anyRedirectAbleURI url_Parse c"]
    by (auto simp: ResolveRedirectURL_def allowed_redirect_def parse_url_def anyRedirectAbleURI_def Let_def
        split: if_splits option.splits)
qed

lemma code_flow_target:
  assumes "r \<in> set (fst (code_flow h user redirectURL responseType clientID nonce scopes st s))" "redirect_target r = Some url"
  shows "url = redirectURL"
proof -
  have implicit: "url = redirectURL" if "r \<in> set (fst (implicit_flow h user redirectURL responseType st s'))" for s'
    using that assms(2) by (auto simp: implicit_flow_def or_reply_in split: if_splits)
  show ?thesis
  proof (cases "responseType = ''code''")
    case True
    then show ?thesis using assms implicit by (auto simp: code_flow_def or_reply_in)
  next
    case False
    then show ?thesis using assms(1) implicit [of s] by (simp add: code_flow_def)
  qed
qed

text \<open>
  C26: the authorization endpoint sends a browser only to a URL the named client may be sent to, and only when
  the user has logged in.
\<close>
theorem authorize_redirects_to_client:
  assumes "r \<in> set (fst (authorize h req s))" and "redirect_target r = Some url"
    and "param = (if or_Method req = ''POST'' then body_or_empty req else QueryParameter req)"
  shows "\<exists>c \<in> set (os_Clients h). oc_Name c = param ''client_id'' \<and>
           allowed_redirect (os_urlParse h) c (param ''redirect_uri'') url \<and>
           (\<exists>user. or_User req = Some user \<and> u_Name user \<noteq> Anonymous)"
proof -
  obtain c where c: "OAuthClient (os_Clients h) (param ''client_id'') = Inr c"
    using assms(1,2) unfolding authorize_def Let_def assms(3) [symmetric] or_reply_lift by (auto split: sum.splits)
  obtain redirectURL where url: "ResolveRedirectURL (os_urlParse h) c (param ''redirect_uri'') = Inr redirectURL"
    using assms(1,2) c unfolding authorize_def Let_def assms(3) [symmetric] or_reply_lift by (auto split: sum.splits)
  obtain user where user: "or_User req = Some user" "u_Name user \<noteq> Anonymous"
    using assms(1,2) c url unfolding authorize_def Let_def assms(3) [symmetric] or_reply_lift
    by (auto split: option.splits if_splits)
  have "url = redirectURL"
    using assms(1,2) c url user unfolding authorize_def Let_def assms(3) [symmetric] or_reply_lift
    by (auto split: if_splits dest: code_flow_target)
  then show ?thesis
    using OAuthClient_Inr [OF c] ResolveRedirectURL_Inr [OF url] user by auto
qed

text \<open>
  the token endpoint gives tokens only to requests with the name and the secret of a registered client.
\<close>
theorem token_requires_client_secret:
  assumes "TokenReply tok \<in> set (fst (oauth_token_endpoint h req s))"
  shows "\<exists>c \<in> set (os_Clients h). BodyParameter req ''client_id'' = Inr (oc_Name c) \<and>
           BodyParameter req ''client_secret'' = Inr (oc_Secret c)"
proof -
  obtain clientID where id: "BodyParameter req ''client_id'' = Inr clientID"
    using assms unfolding oauth_token_endpoint_def or_reply_lift by (auto split: sum.splits)
  obtain secret where secret: "BodyParameter req ''client_secret'' = Inr secret"
    using assms id unfolding oauth_token_endpoint_def or_reply_lift by (auto split: sum.splits)
  obtain c where c: "OAuthClient (os_Clients h) clientID = Inr c"
    using assms id secret unfolding oauth_token_endpoint_def or_reply_lift by (auto split: sum.splits)
  have "oc_Secret c = secret"
    using assms id secret c unfolding oauth_token_endpoint_def or_reply_lift by (auto split: if_splits)
  then show ?thesis using OAuthClient_Inr [OF c] id secret by auto
qed

section \<open>Authorization codes\<close>

text \<open>What a token says does not depend on when it is read.\<close>

lemma issuer_Verify_unique:
  "issuer_Verify lib iss tok now = Inr r \<Longrightarrow> issuer_Verify lib iss tok now' = Inr r' \<Longrightarrow> r' = r"
  by (auto simp: issuer_Verify_def result_iff split: if_splits)

lemma check_token_issuer:
  "check_token env t tok s = (Inr r, s') \<Longrightarrow> \<exists>now. issuer_Verify (to_lib t) (to_issuer t) tok now = Inr r"
  by (auto simp: check_token_def Let_def split: prod.splits)

lemma Verify_check_token: "Verify env t tok s = (Inr r, s') \<Longrightarrow> \<exists>s1. check_token env t tok s = (Inr r, s1)"
  by (auto simp: Verify_def auth_bind_Inr_iff split: if_splits)

lemma Verify_unique:
  assumes "Verify env t tok s = (Inr r, s1)" "Verify env t tok s' = (Inr r', s1')"
  shows "r' = r"
  using Verify_check_token [OF assms(1)] Verify_check_token [OF assms(2)] check_token_issuer issuer_Verify_unique by metis

lemma codeGrant_exchange:
  assumes "BodyParameter req ''code'' = Inr code" "Verify (os_tokens h) (os_operator h) code s = (Inr ctx, s0)"
    and "cl_TokenType (vr_Claims ctx) = AuthorizationCode"
  shows "codeGrant h req s = (fst (code_result h ctx s0), snd (Revoke (os_tokens h) code (snd (code_result h ctx s0))))"
  using assms by (simp add: codeGrant_def or_reply_Inr [of _ _ _ s] lift_result_def or_reply_Inr split: prod.splits)

lemma codeGrant_refused:
  assumes "BodyParameter req ''code'' = Inr code" "Verify (os_tokens h) (os_operator h) code s = (Inl e, s')"
  shows "codeGrant h req s = ([ErrorReply 400 (NewInvalidGrant e)], s')"
  using assms by (simp add: codeGrant_def or_reply_def lift_result_def)

text \<open>
  C13: a client cannot use an authorization code more than once: with a cache that finds a token across users,
  such as Redis, and tokens of limited age, a code that was accepted is refused from then on, unless it is
  issued anew.
\<close>
theorem code_used_once:
  assumes cache: "code_cache (os_tokens h) idle live"
    and available: "\<And>s. fst (Revoke (os_tokens h) code s) = Inr ()"
    and code: "BodyParameter req ''code'' = Inr code"
    and first: "Verify (os_tokens h) (os_operator h) code s = (Inr ctx, s0)" "cl_TokenType (vr_Claims ctx) = AuthorizationCode"
    and grant: "codeGrant h req s = (replies, s1)"
    and later: "session (os_tokens h) (os_operator h) idle s1 evs s2"
      "\<forall>v w. Issued v w \<in> set evs \<longrightarrow> token_key v w \<noteq> token_key (u_Name (vr_User ctx)) code"
    and "to_AccessTokenMaxAge (os_operator h) \<noteq> 0" "plain (u_Name (vr_User ctx))" "plain code"
    and again: "BodyParameter req' ''code'' = Inr code"
  shows "\<exists>e s3. codeGrant h req' s2 = ([ErrorReply 400 (NewInvalidGrant e)], s3)"
proof -
  let ?key = "token_key (u_Name (vr_User ctx)) code" and ?env = "os_tokens h"
  have session: "session_cache ?env idle live" using cache by (rule code_cache.axioms(1))
  obtain s' where "Revoke ?env code s' = (Inr (), s1)"
    using codeGrant_exchange [OF code first] grant available by (metis prod.collapse snd_conv)
  then have "\<not> live s1 ?key"
    using code_cache.Revoke_removes [OF cache] assms(10,11) by blast
  then have dead: "\<not> live s2 ?key"
    using session_cache.session_dead [OF session later(1) later(2)] by blast
  obtain r s3 where v: "Verify ?env (os_operator h) code s2 = (r, s3)" by (cases "Verify ?env (os_operator h) code s2")
  show ?thesis
  proof (cases r)
    case (Inl e)
    then have "Verify ?env (os_operator h) code s2 = (Inl e, s3)" using v by simp
    from codeGrant_refused [OF again this] show ?thesis by blast
  next
    case (Inr ctx')
    then have "ctx' = ctx" using Verify_unique first(1) v by metis
    then have "live s2 ?key"
      using session_cache.Verify_live [OF session] v Inr assms(9) first(2) by (auto simp: token_types)
    then show ?thesis using dead by blast
  qed
qed

text \<open>With the in-memory cache verifying depends on the clock and on the key being stored, and changes nothing.\<close>

lemma simple_Verify_Inr:
  "Verify (simple_env other) t tok s = (Inr r, s') \<longleftrightarrow>
     s' = s \<and> issuer_Verify (to_lib t) (to_issuer t) tok (sm_clock s) = Inr r \<and>
     (to_AccessTokenMaxAge t = 0 \<or> cl_TokenType (vr_Claims r) = StaticToken \<or> stored s (token_key (u_Name (vr_User r)) tok))"
proof -
  have check: "check_token (simple_env other) t tok s = (Inr r, s1) \<longleftrightarrow>
      s1 = s \<and> issuer_Verify (to_lib t) (to_issuer t) tok (sm_clock s) = Inr r" for r s1
    by (auto simp: check_token_def simple_env_def Let_def split: sum.splits auth_error.splits)
  have cached: "tokenCacheValidate (simple_env other) u tok s = (Inr (), s1) \<longleftrightarrow> s1 = s \<and> stored s (token_key u tok)" for u s1
    by (auto simp: tokenCacheValidate_def auth_bind_Inr_iff simple_env_def simple_Exists_def stored_def split: if_splits)
  show ?thesis by (auto simp: Verify_def auth_bind_Inr_iff check cached split: if_splits)
qed

definition keeps_stored :: "(server_memory \<Rightarrow> 'a \<times> server_memory) \<Rightarrow> bool" where
  "keeps_stored m \<longleftrightarrow> (\<forall>s. sm_clock (snd (m s)) = sm_clock s \<and> (\<forall>k. stored s k \<longrightarrow> stored (snd (m s)) k))"

lemma keeps_storedD:
  "keeps_stored m \<Longrightarrow> sm_clock (snd (m s)) = sm_clock s" "keeps_stored m \<Longrightarrow> stored s k \<Longrightarrow> stored (snd (m s)) k"
  by (simp_all add: keeps_stored_def)

lemma keeps_stored_bind:
  assumes "keeps_stored m" "\<And>a. keeps_stored (f a)"
  shows "keeps_stored (auth_bind m f)"
  unfolding keeps_stored_def
proof
  fix s
  obtain r s1 where m: "m s = (r, s1)" by (cases "m s")
  have "snd (auth_bind m f s) = s1 \<or> (\<exists>a. snd (auth_bind m f s) = snd (f a s1))"
    using m by (cases r) (auto simp: auth_bind_def auth_case_def auth_simps)
  then show "sm_clock (snd (auth_bind m f s)) = sm_clock s \<and> (\<forall>k. stored s k \<longrightarrow> stored (snd (auth_bind m f s)) k)"
    using keeps_storedD [OF assms(1), where s = s] keeps_storedD [OF assms(2), where s = s1] m by auto
qed

lemma keeps_stored_or_reply:
  assumes "keeps_stored m" "\<And>a. keeps_stored (f a)"
  shows "keeps_stored (or_reply m err f)"
  unfolding keeps_stored_def
proof
  fix s
  obtain r s1 where m: "m s = (r, s1)" by (cases "m s")
  have "snd (or_reply m err f s) = s1 \<or> (\<exists>a. snd (or_reply m err f s) = snd (f a s1))"
    using m by (cases r) (auto simp: or_reply_def)
  then show "sm_clock (snd (or_reply m err f s)) = sm_clock s \<and> (\<forall>k. stored s k \<longrightarrow> stored (snd (or_reply m err f s)) k)"
    using keeps_storedD [OF assms(1), where s = s] keeps_storedD [OF assms(2), where s = s1] m by auto
qed

lemma keeps_stored_return: "keeps_stored (auth_return a)" "keeps_stored (reply r)"
  by (simp_all add: keeps_stored_def auth_return_def reply_def)

lemma keeps_stored_IssueTo: "keeps_stored (IssueTo (simple_env other) t req)"
proof -
  have "keeps_stored (issue (simple_env other) t req)"
    by (simp add: keeps_stored_def issue_def simple_env_def)
  moreover have "keeps_stored (cacheToken (simple_env other) u tok d)" for u tok d
    by (simp add: keeps_stored_def cacheToken_def simple_env_def simple_Set_def stored_def)
  ultimately show ?thesis
    unfolding IssueTo_def by (auto intro!: keeps_stored_bind simp: keeps_stored_return)
qed

lemma keeps_stored_code_result:
  assumes "os_tokens h = simple_env other" "\<And>name. keeps_stored (os_DescribeUser h name)"
  shows "keeps_stored (code_result h ctx)"
  unfolding code_result_def issueTokenTo_def Let_def assms(1)
  by (auto intro!: keeps_stored_or_reply keeps_stored_bind keeps_stored_IssueTo assms(2) simp: keeps_stored_return)

lemma simple_Revoke_clock: "Revoke (simple_env other) tok s = (Inr u, s') \<Longrightarrow> sm_clock s' = sm_clock s"
  unfolding Revoke_def delete_matching_def auth_bind_Inr_iff
  by (auto simp: simple_env_def simple_Keys_def simple_Del_def Let_def split: if_splits)

text \<open>
  without Redis a client can use an authorization code again: the in-memory cache does not find the code
  when it is to be revoked, so after it was exchanged for tokens the code still verifies, for every user
  whose name is not a single letter.
\<close>
theorem code_replayed_without_redis:
  assumes tokens: "os_tokens h = simple_env other" and describe: "\<And>name. keeps_stored (os_DescribeUser h name)"
    and code: "BodyParameter req ''code'' = Inr code"
    and first: "Verify (simple_env other) (os_operator h) code s = (Inr ctx, s0)"
    and type: "cl_TokenType (vr_Claims ctx) = AuthorizationCode"
    and texts: "plain code" "CHR '':'' \<notin> set code" "CHR '':'' \<notin> set (u_Name (vr_User ctx))" "length (u_Name (vr_User ctx)) \<noteq> 1"
    and grant: "codeGrant h req s = (replies, s1)"
  shows "Verify (simple_env other) (os_operator h) code s1 = (Inr ctx, s1)"
proof -
  let ?key = "token_key (u_Name (vr_User ctx)) code" and ?s2 = "snd (code_result h ctx s)"
  have s0: "s0 = s" and verified: "issuer_Verify (to_lib (os_operator h)) (to_issuer (os_operator h)) code (sm_clock s) = Inr ctx"
    and cached: "to_AccessTokenMaxAge (os_operator h) = 0 \<or> cl_TokenType (vr_Claims ctx) = StaticToken \<or> stored s ?key"
    using first unfolding simple_Verify_Inr by auto
  have s1: "s1 = snd (Revoke (simple_env other) code ?s2)"
    using codeGrant_exchange [OF code, of h s ctx s0] first grant s0 type unfolding tokens by simp
  obtain s3 where revoke: "Revoke (simple_env other) code ?s2 = (Inr (), s3)" "stored s3 ?key \<longleftrightarrow> stored ?s2 ?key"
    using simple_Revoke_ineffective [OF texts, of other ?s2] by blast
  have "s3 = s1" using s1 revoke(1) by simp
  note keeps = keeps_storedD [OF keeps_stored_code_result [OF tokens describe], where s = s]
  have "sm_clock s1 = sm_clock s" using simple_Revoke_clock [OF revoke(1)] keeps(1) \<open>s3 = s1\<close> by simp
  then show ?thesis
    using verified cached keeps(2) [of ?key] revoke(2) \<open>s3 = s1\<close> by (auto simp: simple_Verify_Inr)
qed

section \<open>A sample server\<close>

definition sample_login_env :: "server_memory token_env \<Rightarrow> server_memory login_env" where
  "sample_login_env env =
     \<lparr>le_tokens = env, users_Get = (\<lambda>name s. Inl (ApiNotFound name)), users_List = (\<lambda>sel s. Inr []),
      users_Create = (\<lambda>u. auth_return u), records_Create = (\<lambda>r. auth_return ()), le_SetLoginUserName = (\<lambda>n b s. s),
      mail_ParseAddress = (\<lambda>n. False), bcrypt_Compare = (\<lambda>h p. False), http_BasicAuth = (\<lambda>h. None)\<rparr>"

definition sample_oauth :: "server_memory token_env \<Rightarrow> server_memory oauth_server" where
  "sample_oauth env =
     \<lparr>os_auth = \<lparr>as_env = sample_login_env env, as_operator = sample_operator AuthorizationCode, as_providers = no_providers,
                 as_IdentityProviders = []\<rparr>,
      os_Clients = [\<lparr>oc_Name = ''ks'', oc_Secret = ''pw'', oc_RedirectURIs = [''https://ks'']\<rparr>], os_InactivityTimeout = 0,
      os_urlParse = (\<lambda>u. None), os_DescribeUser = (\<lambda>name. auth_fail (ApiNotFound name)), os_ListUsers = (\<lambda>sel. auth_return [])\<rparr>"

definition sample_http :: http_request where
  "sample_http = \<lparr>Method = ''POST'', URL_Path = ''/oauth/token'', URL_Query = [], RemoteAddr = [], Header = [], User_Agent = []\<rparr>"

definition code_sample :: oauth_request where
  "code_sample = \<lparr>or_Method = ''POST'', or_Query = [],
     or_Body = Inr [(''client_id'', ''ks''), (''client_secret'', ''pw''), (''grant_type'', ''code''), (''code'', ''a.b.c''),
                    (''response_type'', ''token'')],
     or_Login = Inr ([], []), or_Provider = [], or_http = sample_http, or_User = Some (named_user ''bob''),
     or_Info = initial_info sample_http\<rparr>"

definition code_context :: verified_response where
  "code_context = \<lparr>vr_User = \<lparr>u_Name = ''bob'', u_Groups = [], u_Extra = []\<rparr>,
     vr_Claims = issue_claims sample_issuer 1000 (sample_request AuthorizationCode)\<rparr>"

lemma code_sample_code: "BodyParameter code_sample ''code'' = Inr ''a.b.c''"
  by code_simp

lemma redis_Verify_code:
  "Verify (os_tokens (sample_oauth redis_env)) (os_operator (sample_oauth redis_env)) ''a.b.c'' sample_memory = (Inr code_context, sample_memory)"
  by code_simp

lemma simple_Verify_code:
  "Verify (simple_env no_regexp) (os_operator (sample_oauth (simple_env no_regexp))) ''a.b.c'' sample_memory = (Inr code_context, sample_memory)"
  by code_simp

lemma redis_Revoke_available: "fst (Revoke redis_env tok s) = Inr ()"
  by (simp add: Revoke_def delete_matching_def redis_env_def auth_bind_def auth_case_def auth_simps simple_Del_def)

lemma code_context_simps:
  "cl_TokenType (vr_Claims code_context) = AuthorizationCode" "u_Name (vr_User code_context) = ''bob''"
  by (simp_all add: code_context_def issue_claims_simps sample_request_def)

theorem code_used_once_witness:
  "\<exists>replies s1 e s3. codeGrant (sample_oauth redis_env) code_sample sample_memory = (replies, s1) \<and>
     codeGrant (sample_oauth redis_env) code_sample s1 = ([ErrorReply 400 (NewInvalidGrant e)], s3)"
proof -
  let ?h = "sample_oauth redis_env"
  have env: "os_tokens ?h = redis_env" by (simp add: sample_oauth_def sample_login_env_def)
  have cache: "code_cache (os_tokens ?h) time_passes redis_alive" unfolding env by (rule redis_cache.code_cache_axioms)
  obtain replies s1 where grant: "codeGrant ?h code_sample sample_memory = (replies, s1)"
    by (cases "codeGrant ?h code_sample sample_memory")
  have "\<exists>e s3. codeGrant ?h code_sample s1 = ([ErrorReply 400 (NewInvalidGrant e)], s3)"
    by (rule code_used_once [OF cache _ code_sample_code redis_Verify_code code_context_simps(1) grant session.start _ _ _ _ code_sample_code])
      (simp_all add: env redis_Revoke_available code_context_simps sample_oauth_def sample_login_env_def sample_operator_def plain_def metachar_def)
  then show ?thesis using grant by blast
qed

theorem code_replayed_without_redis_witness:
  "\<exists>replies s1. codeGrant (sample_oauth (simple_env no_regexp)) code_sample sample_memory = (replies, s1) \<and>
     Verify (simple_env no_regexp) (sample_operator AuthorizationCode) ''a.b.c'' s1 = (Inr code_context, s1)"
proof -
  let ?h = "sample_oauth (simple_env no_regexp)"
  have env: "os_tokens ?h = simple_env no_regexp" and op: "os_operator ?h = sample_operator AuthorizationCode"
    by (simp_all add: sample_oauth_def sample_login_env_def)
  have describe: "\<And>name. keeps_stored (os_DescribeUser ?h name)"
    by (simp add: sample_oauth_def keeps_stored_def auth_fail_def)
  obtain replies s1 where grant: "codeGrant ?h code_sample sample_memory = (replies, s1)"
    by (cases "codeGrant ?h code_sample sample_memory")
  have "Verify (simple_env no_regexp) (os_operator ?h) ''a.b.c'' s1 = (Inr code_context, s1)"
    by (rule code_replayed_without_redis [OF env describe code_sample_code simple_Verify_code code_context_simps(1) _ _ _ _ grant])
      (simp_all add: code_context_simps plain_def metachar_def)
  then show ?thesis using grant op by auto
qed

lemma token_sample:
  "fst (oauth_token_endpoint (sample_oauth redis_env) code_sample sample_memory) =
     [TokenReply \<lparr>tk_AccessToken = ''a.b.c'', tk_TokenType = ''Bearer'', tk_RefreshToken = ''a.b.c'', tk_IDToken = [], tk_ExpiresIn = 7200\<rparr>]"
  by code_simp

theorem token_requires_client_secret_witness:
  "\<exists>c \<in> set (os_Clients (sample_oauth redis_env)). BodyParameter code_sample ''client_id'' = Inr (oc_Name c) \<and>
     BodyParameter code_sample ''client_secret'' = Inr (oc_Secret c)"
  by (rule token_requires_client_secret [where s = sample_memory]) (unfold token_sample, rule list.set_intros(1))

lemma authorize_sample:
  "fst (authorize (sample_oauth redis_env) code_sample sample_memory) =
     [TokenRedirect ''https://ks'' \<lparr>tk_AccessToken = ''a.b.c'', tk_TokenType = ''Bearer'', tk_RefreshToken = ''a.b.c'', tk_IDToken = [], tk_ExpiresIn = 7200\<rparr>]"
  by code_simp

theorem authorize_redirects_to_client_witness:
  "\<exists>c \<in> set (os_Clients (sample_oauth redis_env)). oc_Name c = body_or_empty code_sample ''client_id'' \<and>
     allowed_redirect (os_urlParse (sample_oauth redis_env)) c (body_or_empty code_sample ''redirect_uri'') ''https://ks''"
proof -
  have post: "body_or_empty code_sample = (if or_Method code_sample = ''POST'' then body_or_empty code_sample else QueryParameter code_sample)"
    by (simp add: code_sample_def)
  show ?thesis
    using authorize_redirects_to_client [OF _ _ post, of _ "sample_oauth redis_env" sample_memory "''https://ks''"] authorize_sample
    by auto
qed

end
