(* ===== verification/Resource_Objects.thy ===== *)
theory Resource_Objects
  imports List_Query Rbac
begin

text \<open>
  The objects the generic resource API shows and the frame that all its getters share
  (\<^verbatim>\<open>pkg/models/resources/v1alpha3\<close>). Of every object only the fields are kept that a getter reads; a
  \<^verbatim>\<open>runtime.Object\<close> is a value of the union \<open>kobject\<close>, and a type assertion is a partial projection out of it.
  The informers' listers, which are generated code and client library, are a record of functions; so are parsing and
  printing a label selector, decoding a list of names from JSON and sorting a slice.
\<close>

section \<open>Objects\<close>

text \<open>Kinds of which only the metadata is read.\<close>

datatype plain_kind =
  ConfigMap | Secret | ServiceAccount | Ingress | NetworkPolicy | Role | ClusterRole | GlobalRole | WorkspaceRole
| GroupObj | Workspace | WorkspaceTemplate | DevOpsProject | Dashboard | ClusterDashboard | IPPoolObj
| FederatedConfigMap | FederatedIngress | FederatedNamespace | FederatedService | FederatedStatefulSet
| NotificationManager | NotificationConfig | NotificationReceiver | NotificationRouter | NotificationSilence

datatype rolebinding_kind = RoleBindings | ClusterRoleBindings | GlobalRoleBindings | WorkspaceRoleBindings

datatype helm_kind = HelmCategory | HelmRepo | HelmApplication | HelmApplicationVersion | HelmRelease

record deployment_object =
  dpl_Meta :: list_meta
  dpl_Replicas :: int
  dpl_ReadyReplicas :: int
  dpl_UpdateTimes :: "int list" \<comment> \<open>the update times of its conditions\<close>

record job_condition =
  jc_Type :: string
  jc_Status :: string
  jc_LastTransitionTime :: int

record job_object =
  job_Meta :: list_meta
  job_Conditions :: "job_condition list"

record application_object =
  app_Meta :: list_meta
  app_UpdateTimes :: "int list"

record daemonset_object =
  dms_Meta :: list_meta
  dms_DesiredNumberScheduled :: int
  dms_NumberReady :: int

record statefulset_object =
  sts_Meta :: list_meta
  sts_Replicas :: "int option"
  sts_ReadyReplicas :: int

record federated_object =
  fed_Meta :: list_meta
  fed_UpdateTimes :: "string list"

record federated_pvc_object =
  fpv_Meta :: list_meta
  fpv_StorageClassName :: "string option"

record federated_secret_object =
  fsc_Meta :: list_meta
  fsc_Type :: string

record binding_object =
  bnd_Meta :: list_meta
  bnd_RoleRefName :: string
  bnd_Subjects :: "subject list"

record groupbinding_object =
  gbn_Meta :: list_meta
  gbn_Users :: "string list"

record loginrecord_object =
  lgr_Meta :: list_meta
  lgr_Type :: string

record user_object =
  usr_Meta :: list_meta
  usr_Email :: string
  usr_Groups :: "string list"

record namespace_object =
  nsp_Meta :: list_meta
  nsp_Phase :: string

record pv_object =
  pvo_Meta :: list_meta
  pvo_Phase :: string
  pvo_StorageClassName :: string

record pvc_object =
  pvc_Meta :: list_meta
  pvc_Phase :: string
  pvc_StorageClassName :: "string option"

record pod_object =
  pod_Meta :: list_meta
  pod_NodeName :: string
  pod_Claims :: "string option list" \<comment> \<open>for each volume the claim it is from, if any\<close>
  pod_Phase :: string

record service_object =
  svc_Meta :: list_meta
  svc_Selector :: "(string, string) gomap"

record snapshot_object =
  snp_Meta :: list_meta
  snp_DeletionTimestamp :: "int option"
  snp_ReadyToUse :: "bool option option" \<comment> \<open>the status and, within it, the flag may be absent\<close>
  snp_ClassName :: "string option"
  snp_ClaimName :: "string option"

record snapshot_class_object =
  snc_Meta :: list_meta
  snc_DeletionPolicy :: string
  snc_Driver :: string

record snapshot_content_object =
  snt_Meta :: list_meta
  snt_ClassName :: "string option"
  snt_RefName :: string
  snt_RefNamespace :: string
  snt_ReadyToUse :: "bool option option"

record cluster_object =
  clo_Meta :: list_meta
  clo_KubeConfig :: string

record crd_object =
  crd_Meta :: list_meta
  crd_Kind :: string

record helm_object =
  hlm_Meta :: list_meta
  hlm_Name :: string
  hlm_State :: string

text \<open>A quantity of the resource library: its value in thousandths and the format it is printed in.\<close>

datatype quantity_format = NoFormat | DecimalExponent | BinarySI | DecimalSI

record quantity =
  qn_Milli :: int
  qn_Format :: quantity_format

record node_object =
  nod_Meta :: list_meta
  nod_Unschedulable :: bool
  nod_Conditions :: "(string \<times> string) list" \<comment> \<open>type and status\<close>
  nod_AllocatableCpu :: quantity
  nod_AllocatableMemory :: quantity

datatype kobject =
  Plain plain_kind list_meta
| Binding rolebinding_kind binding_object
| Helm helm_kind helm_object
| Deployment deployment_object
| Job job_object
| Application application_object
| DaemonSet daemonset_object
| StatefulSet statefulset_object
| FederatedApplication federated_object
| FederatedDeployment federated_object
| FederatedPVC federated_pvc_object
| FederatedSecret federated_secret_object
| GroupBinding groupbinding_object
| LoginRecord loginrecord_object
| User user_object
| Namespace namespace_object
| PersistentVolume pv_object
| PersistentVolumeClaim pvc_object
| Pod pod_object
| Service service_object
| VolumeSnapshot snapshot_object
| VolumeSnapshotClass snapshot_class_object
| VolumeSnapshotContent snapshot_content_object
| Cluster cluster_object
| CRD crd_object
| Node node_object

section \<open>Type assertions\<close>

definition as_Plain :: "plain_kind \<Rightarrow> kobject \<Rightarrow> list_meta option" where
  "as_Plain k x = (case x of Plain k' o1 \<Rightarrow> if k' = k then Some o1 else None | _ \<Rightarrow> None)"
definition as_Binding :: "rolebinding_kind \<Rightarrow> kobject \<Rightarrow> binding_object option" where
  "as_Binding k x = (case x of Binding k' o1 \<Rightarrow> if k' = k then Some o1 else None | _ \<Rightarrow> None)"
definition as_Helm :: "helm_kind \<Rightarrow> kobject \<Rightarrow> helm_object option" where
  "as_Helm k x = (case x of Helm k' o1 \<Rightarrow> if k' = k then Some o1 else None | _ \<Rightarrow> None)"
definition as_Deployment :: "kobject \<Rightarrow> deployment_object option" where
  "as_Deployment x = (case x of Deployment o1 \<Rightarrow> Some o1 | _ \<Rightarrow> None)"
definition as_Job :: "kobject \<Rightarrow> job_object option" where
  "as_Job x = (case x of Job o1 \<Rightarrow> Some o1 | _ \<Rightarrow> None)"
definition as_Application :: "kobject \<Rightarrow> application_object option" where
  "as_Application x = (case x of Application o1 \<Rightarrow> Some o1 | _ \<Rightarrow> None)"
definition as_DaemonSet :: "kobject \<Rightarrow> daemonset_object option" where
  "as_DaemonSet x = (case x of DaemonSet o1 \<Rightarrow> Some o1 | _ \<Rightarrow> None)"
definition as_StatefulSet :: "kobject \<Rightarrow> statefulset_object option" where
  "as_StatefulSet x = (case x of StatefulSet o1 \<Rightarrow> Some o1 | _ \<Rightarrow> None)"
definition as_FederatedApplication :: "kobject \<Rightarrow> federated_object option" where
  "as_FederatedApplication x = (case x of FederatedApplication o1 \<Rightarrow> Some o1 | _ \<Rightarrow> None)"
definition as_FederatedDeployment :: "kobject \<Rightarrow> federated_object option" where
  "as_FederatedDeployment x = (case x of FederatedDeployment o1 \<Rightarrow> Some o1 | _ \<Rightarrow> None)"
definition as_FederatedPVC :: "kobject \<Rightarrow> federated_pvc_object option" where
  "as_FederatedPVC x = (case x of FederatedPVC o1 \<Rightarrow> Some o1 | _ \<Rightarrow> None)"
definition as_FederatedSecret :: "kobject \<Rightarrow> federated_secret_object option" where
  "as_FederatedSecret x = (case x of FederatedSecret o1 \<Rightarrow> Some o1 | _ \<Rightarrow> None)"
definition as_GroupBinding :: "kobject \<Rightarrow> groupbinding_object option" where
  "as_GroupBinding x = (case x of GroupBinding o1 \<Rightarrow> Some o1 | _ \<Rightarrow> None)"
definition as_LoginRecord :: "kobject \<Rightarrow> loginrecord_object option" where
  "as_LoginRecord x = (case x of LoginRecord o1 \<Rightarrow> Some o1 | _ \<Rightarrow> None)"
definition as_User :: "kobject \<Rightarrow> user_object option" where
  "as_User x = (case x of User o1 \<Rightarrow> Some o1 | _ \<Rightarrow> None)"
definition as_Namespace :: "kobject \<Rightarrow> namespace_object option" where
  "as_Namespace x = (case x of Namespace o1 \<Rightarrow> Some o1 | _ \<Rightarrow> None)"
definition as_PersistentVolume :: "kobject \<Rightarrow> pv_object option" where
  "as_PersistentVolume x = (case x of PersistentVolume o1 \<Rightarrow> Some o1 | _ \<Rightarrow> None)"
definition as_PersistentVolumeClaim :: "kobject \<Rightarrow> pvc_object option" where
  "as_PersistentVolumeClaim x = (case x of PersistentVolumeClaim o1 \<Rightarrow> Some o1 | _ \<Rightarrow> None)"
definition as_Pod :: "kobject \<Rightarrow> pod_object option" where
  "as_Pod x = (case x of Pod o1 \<Rightarrow> Some o1 | _ \<Rightarrow> None)"
definition as_Service :: "kobject \<Rightarrow> service_object option" where
  "as_Service x = (case x of Service o1 \<Rightarrow> Some o1 | _ \<Rightarrow> None)"
definition as_VolumeSnapshot :: "kobject \<Rightarrow> snapshot_object option" where
  "as_VolumeSnapshot x = (case x of VolumeSnapshot o1 \<Rightarrow> Some o1 | _ \<Rightarrow> None)"
definition as_VolumeSnapshotClass :: "kobject \<Rightarrow> snapshot_class_object option" where
  "as_VolumeSnapshotClass x = (case x of VolumeSnapshotClass o1 \<Rightarrow> Some o1 | _ \<Rightarrow> None)"
definition as_VolumeSnapshotContent :: "kobject \<Rightarrow> snapshot_content_object option" where
  "as_VolumeSnapshotContent x = (case x of VolumeSnapshotContent o1 \<Rightarrow> Some o1 | _ \<Rightarrow> None)"
definition as_Cluster :: "kobject \<Rightarrow> cluster_object option" where
  "as_Cluster x = (case x of Cluster o1 \<Rightarrow> Some o1 | _ \<Rightarrow> None)"
definition as_CRD :: "kobject \<Rightarrow> crd_object option" where
  "as_CRD x = (case x of CRD o1 \<Rightarrow> Some o1 | _ \<Rightarrow> None)"
definition as_Node :: "kobject \<Rightarrow> node_object option" where
  "as_Node x = (case x of Node o1 \<Rightarrow> Some o1 | _ \<Rightarrow> None)"

named_theorems as_kind \<open>type assertions, to unfold\<close>

lemmas as_kind_defs [as_kind] =
  as_Plain_def as_Binding_def as_Helm_def as_Deployment_def as_Job_def as_Application_def as_DaemonSet_def
  as_StatefulSet_def as_FederatedApplication_def as_FederatedDeployment_def as_FederatedPVC_def as_FederatedSecret_def
  as_GroupBinding_def as_LoginRecord_def as_User_def as_Namespace_def as_PersistentVolume_def
  as_PersistentVolumeClaim_def as_Pod_def as_Service_def as_VolumeSnapshot_def as_VolumeSnapshotClass_def
  as_VolumeSnapshotContent_def as_Cluster_def as_CRD_def as_Node_def

fun object_meta :: "kobject \<Rightarrow> list_meta" where
  "object_meta (Plain k x) = x"
| "object_meta (Binding k x) = bnd_Meta x"
| "object_meta (Helm k x) = hlm_Meta x"
| "object_meta (Deployment x) = dpl_Meta x"
| "object_meta (Job x) = job_Meta x"
| "object_meta (Application x) = app_Meta x"
| "object_meta (DaemonSet x) = dms_Meta x"
| "object_meta (StatefulSet x) = sts_Meta x"
| "object_meta (FederatedApplication x) = fed_Meta x"
| "object_meta (FederatedDeployment x) = fed_Meta x"
| "object_meta (FederatedPVC x) = fpv_Meta x"
| "object_meta (FederatedSecret x) = fsc_Meta x"
| "object_meta (GroupBinding x) = gbn_Meta x"
| "object_meta (LoginRecord x) = lgr_Meta x"
| "object_meta (User x) = usr_Meta x"
| "object_meta (Namespace x) = nsp_Meta x"
| "object_meta (PersistentVolume x) = pvo_Meta x"
| "object_meta (PersistentVolumeClaim x) = pvc_Meta x"
| "object_meta (Pod x) = pod_Meta x"
| "object_meta (Service x) = svc_Meta x"
| "object_meta (VolumeSnapshot x) = snp_Meta x"
| "object_meta (VolumeSnapshotClass x) = snc_Meta x"
| "object_meta (VolumeSnapshotContent x) = snt_Meta x"
| "object_meta (Cluster x) = clo_Meta x"
| "object_meta (CRD x) = crd_Meta x"
| "object_meta (Node x) = nod_Meta x"

section \<open>What the getters call\<close>

type_synonym selector = "(string, string) gomap \<Rightarrow> bool"

definition Everything :: selector where
  "Everything ls = True"

text \<open>The selector of a set of labels asks for each of them with its value.\<close>

definition SelectorFromSet :: "(string, string) gomap \<Rightarrow> selector" where
  "SelectorFromSet required ls = list_all (\<lambda>(k, v). map_of ls k = Some v) required"

text \<open>A lister reads one kind: an object by namespace and name, and the objects of a namespace that a selector
  chooses. The empty namespace stands for all of them and for objects without one.\<close>

record 'o lister =
  li_Get :: "string \<Rightarrow> string \<Rightarrow> (api_error, 'o) result"
  li_List :: "string \<Rightarrow> selector \<Rightarrow> (api_error, 'o list) result"

text \<open>The lister of an informer that holds given objects.\<close>

definition store_lister :: "('o \<Rightarrow> list_meta) \<Rightarrow> 'o list \<Rightarrow> 'o lister" where
  "store_lister meta store =
     \<lparr>li_Get = (\<lambda>namespace name.
        case find (\<lambda>x. lm_Namespace (meta x) = namespace \<and> lm_Name (meta x) = name) store of
          None \<Rightarrow> Inl NotFound | Some x \<Rightarrow> Inr x),
      li_List = (\<lambda>namespace sel.
        Inr (filter (\<lambda>x. (namespace = [] \<or> lm_Namespace (meta x) = namespace) \<and> sel (lm_Labels (meta x))) store))\<rparr>"

record resource_env =
  env_Parse :: "string \<Rightarrow> selector option"
  env_SelectorString :: "(string, string) gomap \<Rightarrow> string"
  env_TimeString :: "int \<Rightarrow> string"
  env_DecodeNames :: "string \<Rightarrow> string list option"
  env_PodRequestsAndLimits :: "pod_object \<Rightarrow> (string, quantity) gomap \<times> (string, quantity) gomap"
  env_QuantityString :: "quantity \<Rightarrow> string"
  env_Sort :: "(kobject \<Rightarrow> kobject \<Rightarrow> bool) \<Rightarrow> kobject list \<Rightarrow> kobject list"
  inf_Plain :: "plain_kind \<Rightarrow> list_meta lister"
  inf_Bindings :: "rolebinding_kind \<Rightarrow> binding_object lister"
  inf_Helm :: "helm_kind \<Rightarrow> helm_object lister"
  inf_Deployments :: "deployment_object lister"
  inf_Jobs :: "job_object lister"
  inf_Applications :: "application_object lister"
  inf_DaemonSets :: "daemonset_object lister"
  inf_StatefulSets :: "statefulset_object lister"
  inf_FederatedApplications :: "federated_object lister"
  inf_FederatedDeployments :: "federated_object lister"
  inf_FederatedPVCs :: "federated_pvc_object lister"
  inf_FederatedSecrets :: "federated_secret_object lister"
  inf_GroupBindings :: "groupbinding_object lister"
  inf_LoginRecords :: "loginrecord_object lister"
  inf_Users :: "user_object lister"
  inf_Namespaces :: "namespace_object lister"
  inf_PersistentVolumes :: "pv_object lister"
  inf_PersistentVolumeClaims :: "pvc_object lister"
  inf_Pods :: "pod_object lister"
  inf_Services :: "service_object lister"
  inf_VolumeSnapshots :: "snapshot_object lister"
  inf_VolumeSnapshotClasses :: "snapshot_class_object lister"
  inf_VolumeSnapshotContents :: "snapshot_content_object lister"
  inf_Clusters :: "cluster_object lister"
  inf_CRDs :: "crd_object lister"
  inf_Nodes :: "node_object lister"

definition query_Selector :: "resource_env \<Rightarrow> query \<Rightarrow> selector" where
  "query_Selector env q = (case env_Parse env (qr_LabelSelector q) of None \<Rightarrow> Everything | Some s \<Rightarrow> s)"

definition labelMatch :: "resource_env \<Rightarrow> (string, string) gomap \<Rightarrow> string \<Rightarrow> bool" where
  "labelMatch env ls text = (case env_Parse env text of None \<Rightarrow> False | Some s \<Rightarrow> s ls)"

abbreviation meta_filter :: "resource_env \<Rightarrow> list_meta \<Rightarrow> string \<times> string \<Rightarrow> bool" where
  "meta_filter env \<equiv> DefaultObjectMetaFilter (labelMatch env)"

section \<open>The interface of a getter\<close>

text \<open>A listing ends with a result or an error, or it panics.\<close>

datatype list_outcome = Listed "kobject list_result" | ListFailed api_error | ListPanics

record getter =
  gt_Get :: "string \<Rightarrow> string \<Rightarrow> (api_error, kobject) result"
  gt_List :: "string \<Rightarrow> query \<Rightarrow> list_outcome"

text \<open>
  What the getters have in common. Comparing and filtering begin with type assertions that answer false when they
  fail, save that for some kinds an object of the wrong kind on the right makes a comparison true. The result of a
  lister is turned into a list of objects and given to the generic listing.
\<close>

definition compare_as ::
  "(kobject \<Rightarrow> 'o option) \<Rightarrow> bool \<Rightarrow> ('o \<Rightarrow> 'o \<Rightarrow> string \<Rightarrow> bool) \<Rightarrow> kobject \<Rightarrow> kobject \<Rightarrow> string \<Rightarrow> bool" where
  "compare_as view other cmp left right field =
     (case view left of
        None \<Rightarrow> False
      | Some l \<Rightarrow> (case view right of None \<Rightarrow> other | Some r \<Rightarrow> cmp l r field))"

definition filter_as :: "(kobject \<Rightarrow> 'o option) \<Rightarrow> ('o \<Rightarrow> string \<times> string \<Rightarrow> bool) \<Rightarrow> kobject \<Rightarrow> string \<times> string \<Rightarrow> bool" where
  "filter_as view flt object fv = (case view object of None \<Rightarrow> False | Some x \<Rightarrow> flt x fv)"

definition list_objects ::
  "resource_env \<Rightarrow> (api_error, kobject list) result \<Rightarrow> query \<Rightarrow> (kobject \<Rightarrow> kobject \<Rightarrow> string \<Rightarrow> bool) \<Rightarrow>
   (kobject \<Rightarrow> string \<times> string \<Rightarrow> bool) \<Rightarrow> (kobject \<Rightarrow> kobject) list \<Rightarrow> list_outcome" where
  "list_objects env fetched q cmp flt transforms =
     (case fetched of
        Inl e \<Rightarrow> ListFailed e
      | Inr objects \<Rightarrow>
          (case DefaultList (env_Sort env) objects q cmp flt transforms of
             None \<Rightarrow> ListPanics
           | Some r \<Rightarrow> Listed r))"

definition get_object :: "('o \<Rightarrow> kobject) \<Rightarrow> 'o lister \<Rightarrow> string \<Rightarrow> string \<Rightarrow> (api_error, kobject) result" where
  "get_object wrap l namespace name = map_sum id wrap (li_Get l namespace name)"

definition fetch_objects ::
  "resource_env \<Rightarrow> ('o \<Rightarrow> kobject) \<Rightarrow> 'o lister \<Rightarrow> string \<Rightarrow> query \<Rightarrow> (api_error, kobject list) result" where
  "fetch_objects env wrap l namespace q = map_sum id (map wrap) (li_List l namespace (query_Selector env q))"

definition meta_compare :: "('o \<Rightarrow> list_meta) \<Rightarrow> 'o \<Rightarrow> 'o \<Rightarrow> string \<Rightarrow> bool" where
  "meta_compare meta l r field = DefaultObjectMetaCompare (meta l) (meta r) field"

text \<open>Sorting by the time of the last update, which some kinds offer.\<close>

definition update_compare :: "('o \<Rightarrow> 't :: linorder) \<Rightarrow> ('o \<Rightarrow> list_meta) \<Rightarrow> 'o \<Rightarrow> 'o \<Rightarrow> string \<Rightarrow> bool" where
  "update_compare lut meta l r field =
     (if field \<in> {''updateTime'', ''lastUpdateTimestamp''} then lut r < lut l
      else DefaultObjectMetaCompare (meta l) (meta r) field)"

definition latest :: "'t :: linorder \<Rightarrow> 't list \<Rightarrow> 't" where
  "latest created ts = fold (\<lambda>t lut. if lut < t then t else lut) ts created"

section \<open>Listing by kind\<close>

text \<open>
  The contract of a kind: its objects can be told from all others, and they are ordered by whatever field the request
  names. Inside it: all pages of a listing together are the matching objects of the kind, in order.
\<close>

locale resource_kind =
  fixes wrap :: "'o \<Rightarrow> kobject"
    and view :: "kobject \<Rightarrow> 'o option"
    and cmp :: "'o \<Rightarrow> 'o \<Rightarrow> string \<Rightarrow> bool"
  assumes view_wrap: "view (wrap x) = Some x"
    and view_only: "view y = Some x \<Longrightarrow> y = wrap x"
    and strict: "strict_weak (\<lambda>x y. cmp x y field) UNIV"
begin

lemma compare_wrap: "compare_as view other cmp (wrap x) (wrap y) field = cmp x y field"
  by (simp add: compare_as_def view_wrap)

lemma filter_wrap: "filter_as view flt (wrap x) fv = flt x fv"
  by (simp add: filter_as_def view_wrap)

lemma matching_wrap: "matching filters (filter_as view flt) (wrap x) = matching filters flt x"
  by (simp add: matching_def filter_wrap)

lemma filter_matching_wrap:
  "filter (matching filters (filter_as view flt)) (map wrap xs) = map wrap (filter (matching filters flt) xs)"
  by (simp add: filter_map comp_def matching_wrap)

lemma strict_compare_as: "strict_weak (\<lambda>x y. compare_as view other cmp x y field) (wrap ` A)"
  unfolding strict_weak_def
proof (intro conjI ballI impI; elim imageE; simp only: compare_wrap)
  show "\<not> cmp x x field" for x using strict [of field] by (simp add: strict_weak_def)
  show "cmp x z field" if "cmp x y field" "cmp y z field" for x y z
    using strict [of field] that unfolding strict_weak_def by blast
  show "\<not> cmp x z field" if "\<not> cmp x y field" "\<not> cmp y z field" for x y z
    using strict [of field] that unfolding strict_weak_def by blast
qed

lemma listing_pages:
  assumes "slice_sort (env_Sort env)" "fits objects" "0 < l" "n * l < 2 ^ 63" "length objects \<le> n * l"
    and "\<not> qr_Ascending q"
    and "items = concat (map (\<lambda>k. lr_Items (the (DefaultList (env_Sort env) (map wrap objects)
           (q\<lparr>qr_Pagination := Some (requested_page (Suc k) l)\<rparr>) (compare_as view other cmp) (filter_as view flt) []))) [0..<n])"
  shows "\<exists>xs. items = map wrap xs \<and> mset xs = mset (filter (matching (qr_Filters q) flt) objects) \<and>
    sorted_wrt (\<lambda>x y. \<not> cmp y x (qr_SortBy q)) xs"
proof -
  have "fits (map wrap objects)" using assms(2) by (simp add: fits_def)
  then have all: "mset items = mset (filter (matching (qr_Filters q) (filter_as view flt)) (map wrap objects)) \<and>
      sorted_wrt (\<lambda>x y. \<not> compare_as view other cmp y x (qr_SortBy q)) items"
    using DefaultList_all_pages [OF assms(1) _ assms(3,4) _ assms(6) _ assms(7)] assms(5) strict_compare_as by simp
  then have "mset items = image_mset wrap (mset (filter (matching (qr_Filters q) flt) objects))"
    by (simp add: filter_matching_wrap)
  then have img: "mset items = mset (map wrap (filter (matching (qr_Filters q) flt) objects))" by simp
  define xs where "xs = map (the \<circ> view) items"
  have "y \<in> wrap ` set (filter (matching (qr_Filters q) flt) objects)" if "y \<in> set items" for y
    using that mset_eq_setD [OF img] by (metis set_map)
  then have "wrap (the (view y)) = y" if "y \<in> set items" for y
    using that by (metis imageE option.sel view_wrap)
  then have 1: "items = map wrap xs" by (simp add: xs_def map_idI)
  have "mset xs = image_mset (the \<circ> view) (mset (map wrap (filter (matching (qr_Filters q) flt) objects)))"
    by (simp only: xs_def mset_map img)
  then have 2: "mset xs = mset (filter (matching (qr_Filters q) flt) objects)"
    by (simp add: multiset.map_comp comp_def view_wrap)
  note xs = 1 2
  with all show ?thesis by (auto simp: sorted_wrt_map compare_wrap)
qed

end

end
