(* ===== verification/Resource_Getters.thy ===== *)
theory Resource_Getters
  imports Resource_Objects
begin

text \<open>
  The getters of \<^verbatim>\<open>pkg/models/resources/v1alpha3/*\<close>, one per kind: how an object is read by name, and how
  the objects of a kind are listed, with the fields each kind can be sorted and filtered by. Users and roles, whose
  listings follow role bindings, are in theory \<open>Iam_Getters\<close>.
\<close>

section \<open>Kinds of which only the metadata is read\<close>

definition kind_getter ::
  "resource_env \<Rightarrow> ('o \<Rightarrow> kobject) \<Rightarrow> 'o lister \<Rightarrow> bool \<Rightarrow> bool \<Rightarrow> (kobject \<Rightarrow> kobject \<Rightarrow> string \<Rightarrow> bool) \<Rightarrow>
   (kobject \<Rightarrow> string \<times> string \<Rightarrow> bool) \<Rightarrow> getter" where
  "kind_getter env wrap l getNamespaced listNamespaced cmp flt =
     \<lparr>gt_Get = (\<lambda>namespace name. get_object wrap l (if getNamespaced then namespace else []) name),
      gt_List = (\<lambda>namespace q.
        list_objects env (fetch_objects env wrap l (if listNamespaced then namespace else []) q) q cmp flt [])\<rparr>"

definition plain_getter :: "resource_env \<Rightarrow> plain_kind \<Rightarrow> bool \<Rightarrow> bool \<Rightarrow> bool \<Rightarrow> getter" where
  "plain_getter env k getNamespaced listNamespaced other =
     kind_getter env (Plain k) (inf_Plain env k) getNamespaced listNamespaced
       (compare_as (as_Plain k) other (meta_compare id)) (filter_as (as_Plain k) (meta_filter env))"

definition configmapsGetter :: "resource_env \<Rightarrow> getter" where
  "configmapsGetter env = plain_getter env ConfigMap True True False"
definition secretsGetter :: "resource_env \<Rightarrow> getter" where
  "secretsGetter env = plain_getter env Secret True True False"
definition serviceaccountsGetter :: "resource_env \<Rightarrow> getter" where
  "serviceaccountsGetter env = plain_getter env ServiceAccount True True False"
definition ingressGetter :: "resource_env \<Rightarrow> getter" where
  "ingressGetter env = plain_getter env Ingress True True False"
definition networkpolicyGetter :: "resource_env \<Rightarrow> getter" where
  "networkpolicyGetter env = plain_getter env NetworkPolicy True True True"
definition groupGetter :: "resource_env \<Rightarrow> getter" where
  "groupGetter env = plain_getter env GroupObj False False False"
definition workspaceGetter :: "resource_env \<Rightarrow> getter" where
  "workspaceGetter env = plain_getter env Workspace False False False"
definition workspaceTemplateGetter :: "resource_env \<Rightarrow> getter" where
  "workspaceTemplateGetter env = plain_getter env WorkspaceTemplate False False False"
definition devopsGetter :: "resource_env \<Rightarrow> getter" where
  "devopsGetter env = plain_getter env DevOpsProject False False True"
definition dashboardGetter :: "resource_env \<Rightarrow> getter" where
  "dashboardGetter env = plain_getter env Dashboard True True False"
definition clusterdashboardGetter :: "resource_env \<Rightarrow> getter" where
  "clusterdashboardGetter env = plain_getter env ClusterDashboard False False False"
definition fedConfigMapsGetter :: "resource_env \<Rightarrow> getter" where
  "fedConfigMapsGetter env = plain_getter env FederatedConfigMap True True False"
definition fedIngressGetter :: "resource_env \<Rightarrow> getter" where
  "fedIngressGetter env = plain_getter env FederatedIngress True True False"
definition fedServiceGetter :: "resource_env \<Rightarrow> getter" where
  "fedServiceGetter env = plain_getter env FederatedService True True False"
definition fedStatefulSetGetter :: "resource_env \<Rightarrow> getter" where
  "fedStatefulSetGetter env = plain_getter env FederatedStatefulSet True True False"

text \<open>One federated namespace is read from its namespace; the listing takes those of all namespaces.\<close>

definition federatedNamespacesGetter :: "resource_env \<Rightarrow> getter" where
  "federatedNamespacesGetter env = plain_getter env FederatedNamespace True False True"

text \<open>
  Objects of the notification manager are compared by the metadata of whatever kind they are, and filtered by name only;
  every other filter lets all of them pass.
\<close>

definition notification_compare :: "kobject \<Rightarrow> kobject \<Rightarrow> string \<Rightarrow> bool" where
  "notification_compare = meta_compare object_meta"

definition notification_filter :: "kobject \<Rightarrow> string \<times> string \<Rightarrow> bool" where
  "notification_filter object fv =
     (let (field, v) = fv; name = lm_Name (object_meta object) in
      if field = ''names'' then list_ex (\<lambda>n. name = n) (SplitChar (CHR '','') v)
      else if field = ''name'' then Contains name v
      else True)"

definition notification_getter :: "resource_env \<Rightarrow> plain_kind \<Rightarrow> getter" where
  "notification_getter env k =
     kind_getter env (Plain k) (inf_Plain env k) False False notification_compare notification_filter"

definition notificationmanagerGetter :: "resource_env \<Rightarrow> getter" where
  "notificationmanagerGetter env = notification_getter env NotificationManager"
definition notificationconfigGetter :: "resource_env \<Rightarrow> getter" where
  "notificationconfigGetter env = notification_getter env NotificationConfig"
definition receiverGetter :: "resource_env \<Rightarrow> getter" where
  "receiverGetter env = notification_getter env NotificationReceiver"
definition routerGetter :: "resource_env \<Rightarrow> getter" where
  "routerGetter env = notification_getter env NotificationRouter"
definition silenceGetter :: "resource_env \<Rightarrow> getter" where
  "silenceGetter env = notification_getter env NotificationSilence"

section \<open>Workloads\<close>

definition workload_status :: "int \<Rightarrow> int \<Rightarrow> string" where
  "workload_status ready wanted =
     (if ready = 0 \<and> wanted = 0 then ''stopped'' else if ready = wanted then ''running'' else ''updating'')"

definition deploymentStatus :: "deployment_object \<Rightarrow> string" where
  "deploymentStatus d = workload_status (dpl_ReadyReplicas d) (dpl_Replicas d)"

definition deployment_lastUpdateTime :: "deployment_object \<Rightarrow> int" where
  "deployment_lastUpdateTime d = latest (lm_CreationTimestamp (dpl_Meta d)) (dpl_UpdateTimes d)"

definition deployment_compare :: "deployment_object \<Rightarrow> deployment_object \<Rightarrow> string \<Rightarrow> bool" where
  "deployment_compare = update_compare deployment_lastUpdateTime dpl_Meta"

definition deployment_filter :: "resource_env \<Rightarrow> deployment_object \<Rightarrow> string \<times> string \<Rightarrow> bool" where
  "deployment_filter env d fv =
     (if fst fv = ''status'' then deploymentStatus d = snd fv else meta_filter env (dpl_Meta d) fv)"

definition deploymentsGetter :: "resource_env \<Rightarrow> getter" where
  "deploymentsGetter env =
     kind_getter env Deployment (inf_Deployments env) True True
       (compare_as as_Deployment False deployment_compare) (filter_as as_Deployment (deployment_filter env))"

definition daemonset_filter :: "resource_env \<Rightarrow> daemonset_object \<Rightarrow> string \<times> string \<Rightarrow> bool" where
  "daemonset_filter env d fv =
     (if fst fv = ''status'' then workload_status (dms_NumberReady d) (dms_DesiredNumberScheduled d) = snd fv
      else meta_filter env (dms_Meta d) fv)"

definition daemonSetGetter :: "resource_env \<Rightarrow> getter" where
  "daemonSetGetter env =
     kind_getter env DaemonSet (inf_DaemonSets env) True True
       (compare_as as_DaemonSet False (meta_compare dms_Meta)) (filter_as as_DaemonSet (daemonset_filter env))"

definition statefulSetStatus :: "statefulset_object \<Rightarrow> string" where
  "statefulSetStatus s =
     (case sts_Replicas s of Some wanted \<Rightarrow> workload_status (sts_ReadyReplicas s) wanted | None \<Rightarrow> ''stopped'')"

definition statefulset_filter :: "resource_env \<Rightarrow> statefulset_object \<Rightarrow> string \<times> string \<Rightarrow> bool" where
  "statefulset_filter env s fv =
     (if fst fv = ''status'' then statefulSetStatus s = snd fv else meta_filter env (sts_Meta s) fv)"

definition statefulSetGetter :: "resource_env \<Rightarrow> getter" where
  "statefulSetGetter env =
     kind_getter env StatefulSet (inf_StatefulSets env) True True
       (compare_as as_StatefulSet False (meta_compare sts_Meta)) (filter_as as_StatefulSet (statefulset_filter env))"

fun job_status :: "job_condition list \<Rightarrow> string" where
  "job_status [] = ''running''"
| "job_status (c # cs) =
     (if jc_Type c = ''Complete'' \<and> jc_Status c = ''True'' then ''completed''
      else if jc_Type c = ''Failed'' \<and> jc_Status c = ''True'' then ''failed''
      else job_status cs)"

definition job_lastUpdateTime :: "job_object \<Rightarrow> int" where
  "job_lastUpdateTime j = latest (lm_CreationTimestamp (job_Meta j)) (map jc_LastTransitionTime (job_Conditions j))"

definition job_compare :: "job_object \<Rightarrow> job_object \<Rightarrow> string \<Rightarrow> bool" where
  "job_compare l r field =
     (if field = ''status'' then job_status (job_Conditions r) < job_status (job_Conditions l)
      else update_compare job_lastUpdateTime job_Meta l r field)"

definition job_filter :: "resource_env \<Rightarrow> job_object \<Rightarrow> string \<times> string \<Rightarrow> bool" where
  "job_filter env j fv =
     (if fst fv = ''status'' then job_status (job_Conditions j) = snd fv else meta_filter env (job_Meta j) fv)"

definition jobsGetter :: "resource_env \<Rightarrow> getter" where
  "jobsGetter env =
     kind_getter env Job (inf_Jobs env) True True
       (compare_as as_Job False job_compare) (filter_as as_Job (job_filter env))"

definition application_lastUpdateTime :: "application_object \<Rightarrow> int" where
  "application_lastUpdateTime a = latest (lm_CreationTimestamp (app_Meta a)) (app_UpdateTimes a)"

definition applicationsGetter :: "resource_env \<Rightarrow> getter" where
  "applicationsGetter env =
     kind_getter env Application (inf_Applications env) True True
       (compare_as as_Application False (update_compare application_lastUpdateTime app_Meta))
       (filter_as as_Application (\<lambda>a. meta_filter env (app_Meta a)))"

text \<open>Federated workloads keep the update times of their conditions as text, which is compared as such.\<close>

definition federated_lastUpdateTime :: "resource_env \<Rightarrow> federated_object \<Rightarrow> string" where
  "federated_lastUpdateTime env f =
     latest (env_TimeString env (lm_CreationTimestamp (fed_Meta f))) (fed_UpdateTimes f)"

definition fedApplicationsGetter :: "resource_env \<Rightarrow> getter" where
  "fedApplicationsGetter env =
     kind_getter env FederatedApplication (inf_FederatedApplications env) True True
       (compare_as as_FederatedApplication False (update_compare (federated_lastUpdateTime env) fed_Meta))
       (filter_as as_FederatedApplication (\<lambda>f. meta_filter env (fed_Meta f)))"

definition fedDeploymentGetter :: "resource_env \<Rightarrow> getter" where
  "fedDeploymentGetter env =
     kind_getter env FederatedDeployment (inf_FederatedDeployments env) True True
       (compare_as as_FederatedDeployment False (update_compare (federated_lastUpdateTime env) fed_Meta))
       (filter_as as_FederatedDeployment (\<lambda>f. meta_filter env (fed_Meta f)))"

definition fedPVC_filter :: "resource_env \<Rightarrow> federated_pvc_object \<Rightarrow> string \<times> string \<Rightarrow> bool" where
  "fedPVC_filter env p fv =
     (if fst fv = ''storageClassName'' then fpv_StorageClassName p = Some (snd fv)
      else meta_filter env (fpv_Meta p) fv)"

definition fedPersistentVolumeClaimGetter :: "resource_env \<Rightarrow> getter" where
  "fedPersistentVolumeClaimGetter env =
     kind_getter env FederatedPVC (inf_FederatedPVCs env) True True
       (compare_as as_FederatedPVC False (meta_compare fpv_Meta)) (filter_as as_FederatedPVC (fedPVC_filter env))"

definition fedSecret_filter :: "resource_env \<Rightarrow> federated_secret_object \<Rightarrow> string \<times> string \<Rightarrow> bool" where
  "fedSecret_filter env s fv =
     (if fst fv = ''type'' then fsc_Type s = snd fv else meta_filter env (fsc_Meta s) fv)"

definition fedSecretGetter :: "resource_env \<Rightarrow> getter" where
  "fedSecretGetter env =
     kind_getter env FederatedSecret (inf_FederatedSecrets env) True True
       (compare_as as_FederatedSecret False (meta_compare fsc_Meta)) (filter_as as_FederatedSecret (fedSecret_filter env))"

definition servicesGetter :: "resource_env \<Rightarrow> getter" where
  "servicesGetter env =
     kind_getter env Service (inf_Services env) True True
       (compare_as as_Service False (meta_compare svc_Meta)) (filter_as as_Service (\<lambda>s. meta_filter env (svc_Meta s)))"

section \<open>Pods\<close>

definition podBindPVC :: "pod_object \<Rightarrow> string \<Rightarrow> bool" where
  "podBindPVC p pvcName = list_ex (\<lambda>c. c = Some pvcName) (pod_Claims p)"

definition podBelongToService :: "resource_env \<Rightarrow> pod_object \<Rightarrow> string \<Rightarrow> bool" where
  "podBelongToService env p serviceName =
     (case li_Get (inf_Services env) (lm_Namespace (pod_Meta p)) serviceName of
        Inl _ \<Rightarrow> False
      | Inr s \<Rightarrow> svc_Selector s \<noteq> [] \<and> SelectorFromSet (svc_Selector s) (lm_Labels (pod_Meta p)))"

definition pod_filter :: "resource_env \<Rightarrow> pod_object \<Rightarrow> string \<times> string \<Rightarrow> bool" where
  "pod_filter env p fv =
     (let (field, v) = fv in
      if field = ''nodeName'' then pod_NodeName p = v
      else if field = ''pvcName'' then podBindPVC p v
      else if field = ''serviceName'' then podBelongToService env p v
      else if field = ''status'' then pod_Phase p = v
      else meta_filter env (pod_Meta p) fv)"

definition podsGetter :: "resource_env \<Rightarrow> getter" where
  "podsGetter env =
     kind_getter env Pod (inf_Pods env) True True
       (compare_as as_Pod False (meta_compare pod_Meta)) (filter_as as_Pod (pod_filter env))"

section \<open>Volumes and snapshots\<close>

text \<open>\<^verbatim>\<open>strings.EqualFold\<close> on ASCII text.\<close>

definition EqualFold :: "string \<Rightarrow> string \<Rightarrow> bool" where
  "EqualFold s t \<longleftrightarrow> ToLower s = ToLower t"

definition FormatBool :: "bool \<Rightarrow> string" where
  "FormatBool b = (if b then ''true'' else ''false'')"

definition pv_filter :: "resource_env \<Rightarrow> pv_object \<Rightarrow> string \<times> string \<Rightarrow> bool" where
  "pv_filter env p fv =
     (if fst fv = ''status'' then EqualFold (pvo_Phase p) (snd fv)
      else if fst fv = ''storageClassName'' then pvo_StorageClassName p \<noteq> [] \<and> pvo_StorageClassName p = snd fv
      else meta_filter env (pvo_Meta p) fv)"

definition persistentVolumeGetter :: "resource_env \<Rightarrow> getter" where
  "persistentVolumeGetter env =
     kind_getter env PersistentVolume (inf_PersistentVolumes env) False False
       (compare_as as_PersistentVolume False (meta_compare pvo_Meta)) (filter_as as_PersistentVolume (pv_filter env))"

definition countPods :: "resource_env \<Rightarrow> string \<Rightarrow> string \<Rightarrow> bool" where
  "countPods env name namespace =
     (case li_List (inf_Pods env) namespace Everything of
        Inl _ \<Rightarrow> False
      | Inr pods \<Rightarrow> list_ex (\<lambda>p. list_ex (\<lambda>c. c = Some name) (pod_Claims p)) pods)"

definition isSnapshotAllowed :: "resource_env \<Rightarrow> string \<Rightarrow> bool" where
  "isSnapshotAllowed env provisioner =
     (if length provisioner = 0 then False
      else
        (case li_List (inf_VolumeSnapshotClasses env) [] Everything of
           Inl _ \<Rightarrow> False
         | Inr classes \<Rightarrow> list_ex (\<lambda>c. snc_Driver c = provisioner) classes))"

definition annotatePVC :: "resource_env \<Rightarrow> pvc_object \<Rightarrow> pvc_object" where
  "annotatePVC env p =
     (let meta = pvc_Meta p;
          inUse = countPods env (lm_Name meta) (lm_Namespace meta);
          allowed = isSnapshotAllowed env (map_get [] (lm_Annotations meta) ''volume.beta.kubernetes.io/storage-provisioner'')
      in p\<lparr>pvc_Meta := meta\<lparr>lm_Annotations :=
           AList.update ''kubesphere.io/allow-snapshot'' (FormatBool allowed)
             (AList.update ''kubesphere.io/in-use'' (FormatBool inUse) (lm_Annotations meta))\<rparr>\<rparr>)"

definition pvc_filter :: "resource_env \<Rightarrow> pvc_object \<Rightarrow> string \<times> string \<Rightarrow> bool" where
  "pvc_filter env p fv =
     (if fst fv = ''status'' then EqualFold (pvc_Phase p) (snd fv)
      else if fst fv = ''storageClassName'' then pvc_StorageClassName p = Some (snd fv)
      else meta_filter env (pvc_Meta p) fv)"

text \<open>Every claim is annotated before the listing filters and cuts out the page.\<close>

definition persistentVolumeClaimGetter :: "resource_env \<Rightarrow> getter" where
  "persistentVolumeClaimGetter env =
     \<lparr>gt_Get = (\<lambda>namespace name.
        map_sum id (PersistentVolumeClaim \<circ> annotatePVC env) (li_Get (inf_PersistentVolumeClaims env) namespace name)),
      gt_List = (\<lambda>namespace q.
        list_objects env
          (map_sum id (map (PersistentVolumeClaim \<circ> annotatePVC env))
             (li_List (inf_PersistentVolumeClaims env) namespace (query_Selector env q))) q
          (compare_as as_PersistentVolumeClaim False (meta_compare pvc_Meta))
          (filter_as as_PersistentVolumeClaim (pvc_filter env)) [])\<rparr>"

definition snapshotStatus :: "snapshot_object \<Rightarrow> string" where
  "snapshotStatus s =
     (if snp_DeletionTimestamp s \<noteq> None then ''deleting''
      else if snp_ReadyToUse s = Some (Some True) then ''ready''
      else ''creating'')"

definition snapshot_filter :: "resource_env \<Rightarrow> snapshot_object \<Rightarrow> string \<times> string \<Rightarrow> bool" where
  "snapshot_filter env s fv =
     (let (field, v) = fv in
      if field = ''status'' then snapshotStatus s = v
      else if field = ''volumeSnapshotClassName'' then snp_ClassName s = Some v
      else if field = ''persistentVolumeClaimName'' then snp_ClaimName s = Some v
      else meta_filter env (snp_Meta s) fv)"

definition volumeSnapshotGetter :: "resource_env \<Rightarrow> getter" where
  "volumeSnapshotGetter env =
     kind_getter env VolumeSnapshot (inf_VolumeSnapshots env) True True
       (compare_as as_VolumeSnapshot False (meta_compare snp_Meta)) (filter_as as_VolumeSnapshot (snapshot_filter env))"

definition countVolumeSnapshots :: "resource_env \<Rightarrow> string \<Rightarrow> nat" where
  "countVolumeSnapshots env name =
     (case li_List (inf_VolumeSnapshots env) [] Everything of
        Inl _ \<Rightarrow> 0
      | Inr snapshots \<Rightarrow> length (filter (\<lambda>s. snp_ClassName s = Some name) snapshots))"

definition annotateSnapshotClass :: "resource_env \<Rightarrow> snapshot_class_object \<Rightarrow> snapshot_class_object" where
  "annotateSnapshotClass env c =
     (let meta = snc_Meta c
      in c\<lparr>snc_Meta := meta\<lparr>lm_Annotations :=
           AList.update ''kubesphere.io/snapshot-count'' (show_nat (countVolumeSnapshots env (lm_Name meta)))
             (lm_Annotations meta)\<rparr>\<rparr>)"

definition snapshot_class_filter :: "resource_env \<Rightarrow> snapshot_class_object \<Rightarrow> string \<times> string \<Rightarrow> bool" where
  "snapshot_class_filter env c fv =
     (let (field, v) = fv in
      if field = ''deletionPolicy'' then EqualFold (snc_DeletionPolicy c) v
      else if field = ''driver'' then EqualFold (snc_Driver c) v
      else meta_filter env (snc_Meta c) fv)"

text \<open>A class that is listed carries the number of its snapshots; one that is read by name does not.\<close>

definition volumeSnapshotClassGetter :: "resource_env \<Rightarrow> getter" where
  "volumeSnapshotClassGetter env =
     \<lparr>gt_Get = (\<lambda>_ name. get_object VolumeSnapshotClass (inf_VolumeSnapshotClasses env) [] name),
      gt_List = (\<lambda>_ q.
        list_objects env
          (map_sum id (map (VolumeSnapshotClass \<circ> annotateSnapshotClass env))
             (li_List (inf_VolumeSnapshotClasses env) [] (query_Selector env q))) q
          (compare_as as_VolumeSnapshotClass False (meta_compare snc_Meta))
          (filter_as as_VolumeSnapshotClass (snapshot_class_filter env)) [])\<rparr>"

text \<open>
  The filter of snapshot contents follows two pointers without a check; \<^const>\<open>None\<close> is the panic. The filters of
  a request are tried one after the other until one fails.
\<close>

definition snapshot_content_filter :: "resource_env \<Rightarrow> snapshot_content_object \<Rightarrow> string \<times> string \<Rightarrow> bool option" where
  "snapshot_content_filter env c fv =
     (let (field, v) = fv in
      if field = ''volumeSnapshotClassName'' then map_option (\<lambda>n. EqualFold n v) (snt_ClassName c)
      else if field = ''volumeSnapshotName'' then Some (EqualFold (snt_RefName c) v)
      else if field = ''volumeSnapshotNamespace'' then Some (EqualFold (snt_RefNamespace c) v)
      else if field = ''readyToUse'' then
        (case snt_ReadyToUse c of Some (Some b) \<Rightarrow> Some (EqualFold (FormatBool b) v) | _ \<Rightarrow> None)
      else Some (meta_filter env (snt_Meta c) fv))"

fun try_filters :: "('o \<Rightarrow> string \<times> string \<Rightarrow> bool option) \<Rightarrow> 'o \<Rightarrow> (string, string) gomap \<Rightarrow> bool option" where
  "try_filters flt x [] = Some True"
| "try_filters flt x (fv # fvs) =
     (case flt x fv of None \<Rightarrow> None | Some False \<Rightarrow> Some False | Some True \<Rightarrow> try_filters flt x fvs)"

definition snapshot_content_List :: "resource_env \<Rightarrow> query \<Rightarrow> list_outcome" where
  "snapshot_content_List env q =
     (case li_List (inf_VolumeSnapshotContents env) [] (query_Selector env q) of
        Inl e \<Rightarrow> ListFailed e
      | Inr contents \<Rightarrow>
          if list_ex (\<lambda>c. try_filters (snapshot_content_filter env) c (qr_Filters q) = None) contents then ListPanics
          else
            list_objects env (Inr (map VolumeSnapshotContent contents)) q
              (compare_as as_VolumeSnapshotContent False (meta_compare snt_Meta))
              (filter_as as_VolumeSnapshotContent (\<lambda>c fv. snapshot_content_filter env c fv = Some True)) [])"

definition volumesnapshotcontentGetter :: "resource_env \<Rightarrow> getter" where
  "volumesnapshotcontentGetter env =
     \<lparr>gt_Get = (\<lambda>_ name. get_object VolumeSnapshotContent (inf_VolumeSnapshotContents env) [] name),
      gt_List = (\<lambda>_ q. snapshot_content_List env q)\<rparr>"

section \<open>Namespaces, clusters, pools and definitions\<close>

definition namespace_filter :: "resource_env \<Rightarrow> namespace_object \<Rightarrow> string \<times> string \<Rightarrow> bool" where
  "namespace_filter env n fv =
     (if fst fv = ''status'' then nsp_Phase n = snd fv else meta_filter env (nsp_Meta n) fv)"

definition namespacesGetter :: "resource_env \<Rightarrow> getter" where
  "namespacesGetter env =
     kind_getter env Namespace (inf_Namespaces env) False False
       (compare_as as_Namespace True (meta_compare nsp_Meta)) (filter_as as_Namespace (namespace_filter env))"

definition crd_filter :: "resource_env \<Rightarrow> crd_object \<Rightarrow> string \<times> string \<Rightarrow> bool" where
  "crd_filter env c fv =
     (if fst fv = ''name'' then Contains (lm_Name (crd_Meta c)) (snd fv) \<or> Contains (crd_Kind c) (snd fv)
      else meta_filter env (crd_Meta c) fv)"

definition crdGetter :: "resource_env \<Rightarrow> getter" where
  "crdGetter env =
     kind_getter env CRD (inf_CRDs env) False False
       (compare_as as_CRD False (meta_compare crd_Meta)) (filter_as as_CRD (crd_filter env))"

text \<open>A cluster is shown without its kubeconfig. The transformation is only ever given clusters.\<close>

definition cluster_transform :: "kobject \<Rightarrow> kobject" where
  "cluster_transform obj = (case obj of Cluster c \<Rightarrow> Cluster (c\<lparr>clo_KubeConfig := []\<rparr>) | _ \<Rightarrow> obj)"

definition clustersGetter :: "resource_env \<Rightarrow> getter" where
  "clustersGetter env =
     \<lparr>gt_Get = (\<lambda>_ name. map_sum id cluster_transform (get_object Cluster (inf_Clusters env) [] name)),
      gt_List = (\<lambda>_ q.
        list_objects env (fetch_objects env Cluster (inf_Clusters env) [] q) q
          (compare_as as_Cluster False (meta_compare clo_Meta))
          (filter_as as_Cluster (\<lambda>c. meta_filter env (clo_Meta c))) [cluster_transform])\<rparr>"

abbreviation poolDefaultLabel :: string where "poolDefaultLabel \<equiv> ''ippool.network.kubesphere.io/default''"
abbreviation workspaceLabelKey :: string where "workspaceLabelKey \<equiv> ''kubesphere.io/workspace''"

text \<open>
  The pools of a namespace: the default pools, and those of the workspace the namespace belongs to. The selector for
  the latter goes through its text in the query.
\<close>

definition pools_of_namespace :: "resource_env \<Rightarrow> string \<Rightarrow> query \<Rightarrow> (api_error, list_meta list) result" where
  "pools_of_namespace env namespace q =
     (let pools = inf_Plain env IPPoolObj in
      case li_Get (inf_Namespaces env) [] namespace of
        Inl e \<Rightarrow> Inl e
      | Inr ns \<Rightarrow>
          (let workspace = map_get [] (lm_Labels (nsp_Meta ns)) workspaceLabelKey in
           case li_List pools [] (SelectorFromSet [(poolDefaultLabel, [])]) of
             Inl e \<Rightarrow> Inl e
           | Inr ps \<Rightarrow>
               if workspace \<noteq> []
               then
                 (let q' = q\<lparr>qr_LabelSelector := env_SelectorString env [(workspaceLabelKey, workspace)]\<rparr> in
                  case li_List pools [] (query_Selector env q') of
                    Inl e \<Rightarrow> Inl e
                  | Inr ps' \<Rightarrow> Inr (ps @ ps'))
               else Inr ps))"

definition ippool_List :: "resource_env \<Rightarrow> string \<Rightarrow> query \<Rightarrow> list_outcome" where
  "ippool_List env namespace q =
     list_objects env
       (map_sum id (map (Plain IPPoolObj))
          (if namespace \<noteq> [] then pools_of_namespace env namespace q
           else li_List (inf_Plain env IPPoolObj) [] Everything)) q
       (compare_as (as_Plain IPPoolObj) True (meta_compare id)) (filter_as (as_Plain IPPoolObj) (meta_filter env)) []"

definition ippoolGetter :: "resource_env \<Rightarrow> getter" where
  "ippoolGetter env =
     \<lparr>gt_Get = (\<lambda>_ name. get_object (Plain IPPoolObj) (inf_Plain env IPPoolObj) [] name),
      gt_List = ippool_List env\<rparr>"

section \<open>Helm\<close>

text \<open>The kinds of the application store have a name of their own beside that of the object.\<close>

definition helm_compare :: "helm_object \<Rightarrow> helm_object \<Rightarrow> string \<Rightarrow> bool" where
  "helm_compare l r field =
     (if field = ''name'' then hlm_Name r < hlm_Name l else DefaultObjectMetaCompare (hlm_Meta l) (hlm_Meta r) field)"

definition helm_filter :: "resource_env \<Rightarrow> bool \<Rightarrow> helm_object \<Rightarrow> string \<times> string \<Rightarrow> bool" where
  "helm_filter env byState h fv =
     (if fst fv = ''name'' then Contains (hlm_Name h) (snd fv)
      else if byState \<and> fst fv = ''status'' then Contains (hlm_State h) (snd fv)
      else meta_filter env (hlm_Meta h) fv)"

definition helm_getter :: "resource_env \<Rightarrow> helm_kind \<Rightarrow> bool \<Rightarrow> getter" where
  "helm_getter env k byState =
     kind_getter env (Helm k) (inf_Helm env k) False False
       (compare_as (as_Helm k) False helm_compare) (filter_as (as_Helm k) (helm_filter env byState))"

definition helmCategoriesGetter :: "resource_env \<Rightarrow> getter" where
  "helmCategoriesGetter env = helm_getter env HelmCategory False"
definition helmReposGetter :: "resource_env \<Rightarrow> getter" where
  "helmReposGetter env = helm_getter env HelmRepo False"
definition helmApplicationsGetter :: "resource_env \<Rightarrow> getter" where
  "helmApplicationsGetter env = helm_getter env HelmApplication True"
definition applicationVersionsGetter :: "resource_env \<Rightarrow> getter" where
  "applicationVersionsGetter env = helm_getter env HelmApplicationVersion True"
definition helmReleasesGetter :: "resource_env \<Rightarrow> getter" where
  "helmReleasesGetter env = helm_getter env HelmRelease True"

section \<open>Orders\<close>

lemma strict_meta_compare: "strict_weak (\<lambda>x y. meta_compare meta x y field) A"
  unfolding meta_compare_def by (rule DefaultObjectMetaCompare_strict)

lemma strict_update_compare: "strict_weak (\<lambda>x y. update_compare lut meta x y field) A"
  unfolding update_compare_def
  by (cases "field \<in> {''updateTime'', ''lastUpdateTimestamp''}")
    (auto simp: strict_weak_key DefaultObjectMetaCompare_strict)

lemma strict_job_compare: "strict_weak (\<lambda>x y. job_compare x y field) A"
  unfolding job_compare_def by (cases "field = ''status''") (simp_all add: strict_weak_key strict_update_compare)

lemma strict_helm_compare: "strict_weak (\<lambda>x y. helm_compare x y field) A"
  unfolding helm_compare_def by (cases "field = ''name''") (simp_all add: strict_weak_key DefaultObjectMetaCompare_strict)

lemma latest_Max: "latest c ts = Max (insert c (set ts))"
proof (induction ts arbitrary: c)
  case (Cons t ts)
  have "latest c (t # ts) = latest (max c t) ts" by (cases "c < t") (simp_all add: latest_def max_def less_imp_le)
  also have "\<dots> = Max (insert c (insert t (set ts)))"
    unfolding Cons.IH by (cases ts) (simp_all add: max.assoc)
  finally show ?case by simp
qed (simp add: latest_def)

lemmas resource_orders = strict_meta_compare strict_update_compare strict_job_compare strict_helm_compare

interpretation plain_kinds: resource_kind "Plain k" "as_Plain k" "meta_compare id"
  by unfold_locales (auto simp: as_kind strict_meta_compare split: kobject.splits if_splits)
interpretation helm_kinds: resource_kind "Helm k" "as_Helm k" helm_compare
  by unfold_locales (auto simp: as_kind strict_helm_compare split: kobject.splits if_splits)
interpretation deployments: resource_kind Deployment as_Deployment deployment_compare
  by unfold_locales (auto simp: as_kind deployment_compare_def strict_update_compare split: kobject.splits)
interpretation jobs: resource_kind Job as_Job job_compare
  by unfold_locales (auto simp: as_kind strict_job_compare split: kobject.splits)
interpretation applications: resource_kind Application as_Application "update_compare application_lastUpdateTime app_Meta"
  by unfold_locales (auto simp: as_kind strict_update_compare split: kobject.splits)
interpretation pods: resource_kind Pod as_Pod "meta_compare pod_Meta"
  by unfold_locales (auto simp: as_kind strict_meta_compare split: kobject.splits)
interpretation snapshot_contents: resource_kind VolumeSnapshotContent as_VolumeSnapshotContent "meta_compare snt_Meta"
  by unfold_locales (auto simp: as_kind strict_meta_compare split: kobject.splits)
interpretation cluster_kinds: resource_kind Cluster as_Cluster "meta_compare clo_Meta"
  by unfold_locales (auto simp: as_kind strict_meta_compare split: kobject.splits)

section \<open>Listings\<close>

definition listed_items :: "list_outcome \<Rightarrow> kobject list" where
  "listed_items r = (case r of Listed l \<Rightarrow> lr_Items l | _ \<Rightarrow> [])"

lemma list_objects_Listed:
  "list_objects env fetched q cmp flt ts = Listed r \<longleftrightarrow>
     (\<exists>objects. fetched = Inr objects \<and> DefaultList (env_Sort env) objects q cmp flt ts = Some r)"
  by (auto simp: list_objects_def split: sum.splits option.splits)

lemma fetch_objects_page [simp]:
  "fetch_objects env wrap l namespace (q\<lparr>qr_Pagination := p\<rparr>) = fetch_objects env wrap l namespace q"
  by (simp add: fetch_objects_def query_Selector_def)

context resource_kind
begin

lemma getter_pages:
  assumes "slice_sort (env_Sort env)" "fits objects" "0 < l" "n * l < 2 ^ 63" "length objects \<le> n * l"
    and "\<not> qr_Ascending q"
    and fetch: "fetch_objects env wrap lst (if namespaced then namespace else []) q = Inr (map wrap objects)"
    and "items = concat (map (\<lambda>k. listed_items (gt_List
           (kind_getter env wrap lst g namespaced (compare_as view other cmp) (filter_as view flt)) namespace
           (q\<lparr>qr_Pagination := Some (requested_page (Suc k) l)\<rparr>))) [0..<n])"
  shows "\<exists>xs. items = map wrap xs \<and> mset xs = mset (filter (matching (qr_Filters q) flt) objects) \<and>
    sorted_wrt (\<lambda>x y. \<not> cmp y x (qr_SortBy q)) xs"
proof -
  let ?page = "\<lambda>k. DefaultList (env_Sort env) (map wrap objects) (q\<lparr>qr_Pagination := Some (requested_page (Suc k) l)\<rparr>)
    (compare_as view other cmp) (filter_as view flt) []"
  have "?page k \<noteq> None" if "k < n" for k
  proof (rule DefaultList_requested [OF assms(1) _ assms(3)])
    show "fits (map wrap objects)" using assms(2) by (simp add: fits_def)
    have "(k + 1) * l \<le> n * l" using that by (intro mult_le_mono1) simp
    then show "(k + 1) * l < 2 ^ 63" using assms(4) by simp
  qed simp
  then have "listed_items (list_objects env (Inr (map wrap objects)) (q\<lparr>qr_Pagination := Some (requested_page (Suc k) l)\<rparr>)
      (compare_as view other cmp) (filter_as view flt) []) = lr_Items (the (?page k))" if "k < n" for k
    using that by (fastforce simp: list_objects_def listed_items_def)
  then have "items = concat (map (\<lambda>k. lr_Items (the (?page k))) [0..<n])"
    unfolding assms(8) by (intro arg_cong [where f = concat] map_cong) (simp_all add: kind_getter_def fetch)
  then show ?thesis using listing_pages [OF assms(1-6)] by blast
qed

end

text \<open>
  The pages of a listing of deployments put together are all deployments of the namespace that the label selector
  and the filters choose, each exactly once; asked for by update time they come with the last updated first, where a
  deployment counts as updated at the latest of its creation and the changes of its conditions.
\<close>

theorem deployments_pages:
  assumes "slice_sort (env_Sort env)" "fits ds" "0 < l" "n * l < 2 ^ 63" "length ds \<le> n * l" "\<not> qr_Ascending q"
    and "li_List (inf_Deployments env) namespace (query_Selector env q) = Inr ds"
    and "items = concat (map (\<lambda>k. listed_items (gt_List (deploymentsGetter env) namespace
           (q\<lparr>qr_Pagination := Some (requested_page (Suc k) l)\<rparr>))) [0..<n])"
  shows "\<exists>xs. items = map Deployment xs \<and> mset xs = mset (filter (matching (qr_Filters q) (deployment_filter env)) ds) \<and>
    (qr_SortBy q \<in> {''updateTime'', ''lastUpdateTimestamp''} \<longrightarrow>
       sorted_wrt (\<lambda>x y. Max (insert (lm_CreationTimestamp (dpl_Meta y)) (set (dpl_UpdateTimes y))) \<le>
                          Max (insert (lm_CreationTimestamp (dpl_Meta x)) (set (dpl_UpdateTimes x)))) xs)"
proof -
  have fetch: "fetch_objects env Deployment (inf_Deployments env) (if True then namespace else []) q = Inr (map Deployment ds)"
    using assms(7) by (simp add: fetch_objects_def)
  obtain xs where xs: "items = map Deployment xs"
      "mset xs = mset (filter (matching (qr_Filters q) (deployment_filter env)) ds)"
      "sorted_wrt (\<lambda>x y. \<not> deployment_compare y x (qr_SortBy q)) xs"
    using deployments.getter_pages [OF assms(1-6) fetch] assms(8) unfolding deploymentsGetter_def by blast
  then have "sorted_wrt (\<lambda>x y. deployment_lastUpdateTime y \<le> deployment_lastUpdateTime x) xs"
    if "qr_SortBy q \<in> {''updateTime'', ''lastUpdateTimestamp''}"
    using that by (simp only: deployment_compare_def update_compare_def if_True not_less)
  with xs show ?thesis unfolding deployment_lastUpdateTime_def latest_Max by blast
qed

text \<open>
  However clusters are read, by name or in a list with any filters and order, no kubeconfig is shown.
\<close>

theorem clusters_hide_kubeconfig:
  assumes "slice_sort (env_Sort env)"
  shows "(gt_Get (clustersGetter env) namespace name = Inr x \<longrightarrow> (\<exists>c. x = Cluster c \<and> clo_KubeConfig c = [])) \<and>
    (gt_List (clustersGetter env) namespace q = Listed r \<longrightarrow>
       (\<forall>y \<in> set (lr_Items r). \<exists>c. y = Cluster c \<and> clo_KubeConfig c = []))"
proof (intro conjI impI ballI)
  show "\<exists>c. x = Cluster c \<and> clo_KubeConfig c = []" if "gt_Get (clustersGetter env) namespace name = Inr x"
    using that
    by (cases "li_Get (inf_Clusters env) [] name") (auto simp: clustersGetter_def get_object_def cluster_transform_def)
  show "\<exists>c. y = Cluster c \<and> clo_KubeConfig c = []"
    if listed: "gt_List (clustersGetter env) namespace q = Listed r" and y: "y \<in> set (lr_Items r)" for y
  proof -
    let ?cmp = "compare_as as_Cluster False (meta_compare clo_Meta)"
      and ?flt = "filter_as as_Cluster (\<lambda>c. meta_filter env (clo_Meta c))"
    obtain objects where o1: "fetch_objects env Cluster (inf_Clusters env) [] q = Inr objects"
      and d: "DefaultList (env_Sort env) objects q ?cmp ?flt [cluster_transform] = Some r"
      using listed by (auto simp: clustersGetter_def list_objects_Listed)
    obtain cs where "objects = map Cluster cs"
      using o1 by (cases "li_List (inf_Clusters env) [] (query_Selector env q)") (auto simp: fetch_objects_def)
    then show ?thesis
      using DefaultList_items [OF assms d] y by (auto simp: filtered_objects_def cluster_transform_def)
  qed
qed

lemma list_objects_listed:
  assumes "slice_sort (env_Sort env)" "fits objects" "\<not> page_overflows q"
  shows "\<exists>r all. list_objects env (Inr objects) q cmp flt [] = Listed r \<and> lr_Items r = page_items q all \<and>
    lr_TotalItems r = length all \<and> mset all = mset (filter (matching (qr_Filters q) flt) objects)"
  using DefaultList_listed [OF assms, of cmp flt "[]"]
  by (auto simp: list_objects_def filtered_objects_plain)

lemma try_filters_passed:
  "\<forall>b \<in> set before. flt x b = Some True \<Longrightarrow> try_filters flt x (before @ fvs) = try_filters flt x fvs"
  by (induction before) simp_all

lemma try_filters_NoneD:
  "try_filters flt x fvs = None \<Longrightarrow>
   \<exists>before fv after. fvs = before @ fv # after \<and> (\<forall>b \<in> set before. flt x b = Some True) \<and> flt x fv = None"
proof (induction fvs)
  case (Cons a fvs)
  then consider (panic) "flt x a = None" | (pass) "flt x a = Some True" "try_filters flt x fvs = None"
    by (auto split: option.splits bool.splits)
  then show ?case
  proof cases
    case panic
    then have "a # fvs = [] @ a # fvs \<and> (\<forall>b \<in> set []. flt x b = Some True) \<and> flt x a = None" by simp
    then show ?thesis by blast
  next
    case pass
    from Cons.IH [OF pass(2)] obtain before fv after
      where f: "fvs = before @ fv # after" "\<forall>b \<in> set before. flt x b = Some True" "flt x fv = None" by blast
    then have "a # fvs = (a # before) @ fv # after \<and> (\<forall>b \<in> set (a # before). flt x b = Some True) \<and> flt x fv = None"
      using pass(1) by simp
    then show ?thesis by blast
  qed
qed simp

lemma try_filters_None:
  "try_filters flt x fvs = None \<longleftrightarrow>
     (\<exists>before fv after. fvs = before @ fv # after \<and> (\<forall>b \<in> set before. flt x b = Some True) \<and> flt x fv = None)"
proof
  assume "\<exists>before fv after. fvs = before @ fv # after \<and> (\<forall>b \<in> set before. flt x b = Some True) \<and> flt x fv = None"
  then obtain before fv after
    where "fvs = before @ fv # after" "\<forall>b \<in> set before. flt x b = Some True" "flt x fv = None" by blast
  then show "try_filters flt x fvs = None" by (simp add: try_filters_passed)
qed (rule try_filters_NoneD)

lemma snapshot_content_filter_None:
  "snapshot_content_filter env c (field, v) = None \<longleftrightarrow>
     field = ''volumeSnapshotClassName'' \<and> snt_ClassName c = None \<or>
     field = ''readyToUse'' \<and> (snt_ReadyToUse c = None \<or> snt_ReadyToUse c = Some None)"
  by (auto simp: snapshot_content_filter_def split: option.splits)

text \<open>
  Listing snapshot contents, for a page whose end fits an integer, panics exactly when some content passes the filters that come first
  in the order the request's filters are tried, and the next one asks for its class while it has none, or for its
  readiness while the status or the flag in it is missing.
\<close>

theorem snapshot_contents_panic_iff:
  assumes "slice_sort (env_Sort env)" "fits contents" "\<not> page_overflows q"
    and "li_List (inf_VolumeSnapshotContents env) [] (query_Selector env q) = Inr contents"
  shows "gt_List (volumesnapshotcontentGetter env) namespace q = ListPanics \<longleftrightarrow>
    (\<exists>c \<in> set contents. \<exists>before field v after. qr_Filters q = before @ (field, v) # after \<and>
       (\<forall>b \<in> set before. snapshot_content_filter env c b = Some True) \<and>
       (field = ''volumeSnapshotClassName'' \<and> snt_ClassName c = None \<or>
        field = ''readyToUse'' \<and> (snt_ReadyToUse c = None \<or> snt_ReadyToUse c = Some None)))"
proof -
  have "fits (map VolumeSnapshotContent contents)" using assms(2) by (simp add: fits_def)
  from list_objects_listed [OF assms(1) this assms(3)]
  have "list_objects env (Inr (map VolumeSnapshotContent contents)) q cmp flt [] \<noteq> ListPanics" for cmp flt
    by (metis list_outcome.distinct(3))
  then have "gt_List (volumesnapshotcontentGetter env) namespace q = ListPanics \<longleftrightarrow>
      (\<exists>c \<in> set contents. try_filters (snapshot_content_filter env) c (qr_Filters q) = None)"
    by (simp add: volumesnapshotcontentGetter_def snapshot_content_List_def assms(4) list_ex_iff)
  then show ?thesis by (simp add: try_filters_None snapshot_content_filter_None)
qed

text \<open>
  The pools listed for a namespace of a workspace are the default pools and the pools of that workspace that match
  the filters. A default pool that belongs to the workspace is in both and is listed, and counted, twice. The answer is the page
  of these that the query asks for.
\<close>

theorem pools_of_namespace_listed:
  assumes "slice_sort (env_Sort env)" "fits (pools @ pools)" "\<not> page_overflows q" "namespace \<noteq> []"
    and "inf_Plain env IPPoolObj = store_lister id pools"
    and "li_Get (inf_Namespaces env) [] namespace = Inr ns"
    and w: "w = map_get [] (lm_Labels (nsp_Meta ns)) workspaceLabelKey" "w \<noteq> []"
    and "env_Parse env (env_SelectorString env [(workspaceLabelKey, w)]) = Some (SelectorFromSet [(workspaceLabelKey, w)])"
  shows "\<exists>r all. gt_List (ippoolGetter env) namespace q = Listed r \<and> lr_Items r = page_items q all \<and>
    lr_TotalItems r = length all \<and> mset all = mset (map (Plain IPPoolObj) (filter (matching (qr_Filters q) (meta_filter env))
      (filter (\<lambda>p. map_of (lm_Labels p) poolDefaultLabel = Some []) pools @
       filter (\<lambda>p. map_of (lm_Labels p) workspaceLabelKey = Some w) pools)))"
proof -
  let ?default = "filter (\<lambda>p. map_of (lm_Labels p) poolDefaultLabel = Some []) pools"
    and ?own = "filter (\<lambda>p. map_of (lm_Labels p) workspaceLabelKey = Some w) pools"
  have found: "pools_of_namespace env namespace q = Inr (?default @ ?own)"
    by (simp add: pools_of_namespace_def assms(5,6,9) w(1) [symmetric] w(2) Let_def store_lister_def query_Selector_def
        SelectorFromSet_def)
  have "length (?default @ ?own) \<le> length (pools @ pools)" by (simp add: add_mono)
  then have "fits (map (Plain IPPoolObj) (?default @ ?own))"
    using assms(2) unfolding fits_def length_map by linarith
  note listed = list_objects_listed [OF assms(1) this assms(3)]
  have "\<exists>r all. list_objects env (Inr (map (Plain IPPoolObj) (?default @ ?own))) q cmp
      (filter_as (as_Plain IPPoolObj) flt) [] = Listed r \<and> lr_Items r = page_items q all \<and> lr_TotalItems r = length all \<and>
      mset all = mset (map (Plain IPPoolObj) (filter (matching (qr_Filters q) flt) (?default @ ?own)))" for cmp flt
    using listed [of cmp "filter_as (as_Plain IPPoolObj) flt"] unfolding plain_kinds.filter_matching_wrap .
  then show ?thesis by (simp only: ippoolGetter_def ippool_List_def found assms(4) getter.simps map_sum.simps if_True not_False_eq_True)
qed

section \<open>Witnesses\<close>

definition empty_lister :: "'o lister" where
  "empty_lister = \<lparr>li_Get = (\<lambda>_ _. Inl NotFound), li_List = (\<lambda>_ _. Inr [])\<rparr>"

text \<open>An environment whose informers are empty; texts of selectors are not parsed.\<close>

definition empty_env :: resource_env where
  "empty_env =
     \<lparr>env_Parse = (\<lambda>_. None), env_SelectorString = (\<lambda>_. []), env_TimeString = (\<lambda>_. []), env_DecodeNames = (\<lambda>_. None),
      env_PodRequestsAndLimits = (\<lambda>_. ([], [])), env_QuantityString = (\<lambda>_. ''0''), env_Sort = insertionSort,
      inf_Plain = (\<lambda>_. empty_lister), inf_Bindings = (\<lambda>_. empty_lister), inf_Helm = (\<lambda>_. empty_lister),
      inf_Deployments = empty_lister, inf_Jobs = empty_lister, inf_Applications = empty_lister, inf_DaemonSets = empty_lister,
      inf_StatefulSets = empty_lister, inf_FederatedApplications = empty_lister, inf_FederatedDeployments = empty_lister,
      inf_FederatedPVCs = empty_lister, inf_FederatedSecrets = empty_lister, inf_GroupBindings = empty_lister,
      inf_LoginRecords = empty_lister, inf_Users = empty_lister, inf_Namespaces = empty_lister,
      inf_PersistentVolumes = empty_lister, inf_PersistentVolumeClaims = empty_lister, inf_Pods = empty_lister,
      inf_Services = empty_lister, inf_VolumeSnapshots = empty_lister, inf_VolumeSnapshotClasses = empty_lister,
      inf_VolumeSnapshotContents = empty_lister, inf_Clusters = empty_lister, inf_CRDs = empty_lister, inf_Nodes = empty_lister\<rparr>"

definition demo_deployment :: "string \<Rightarrow> int list \<Rightarrow> deployment_object" where
  "demo_deployment n ts = \<lparr>dpl_Meta = demo_meta n, dpl_Replicas = 1, dpl_ReadyReplicas = 1, dpl_UpdateTimes = ts\<rparr>"

definition deployments_env :: resource_env where
  "deployments_env = empty_env\<lparr>inf_Deployments :=
     store_lister dpl_Meta [demo_deployment ''old'' [3], demo_deployment ''new'' [7, 5]]\<rparr>"

definition by_update :: query where
  "by_update = \<lparr>qr_Pagination = None, qr_SortBy = ''updateTime'', qr_Ascending = False, qr_Filters = [], qr_LabelSelector = []\<rparr>"

theorem deployments_pages_witness:
  "\<exists>xs. concat (map (\<lambda>k. listed_items (gt_List (deploymentsGetter deployments_env) ''ns''
       (by_update\<lparr>qr_Pagination := Some (requested_page (Suc k) 1)\<rparr>))) [0..<2]) = map Deployment xs \<and>
     mset xs = {#demo_deployment ''old'' [3], demo_deployment ''new'' [7, 5]#} \<and>
     sorted_wrt (\<lambda>x y. Max (insert (lm_CreationTimestamp (dpl_Meta y)) (set (dpl_UpdateTimes y))) \<le>
                        Max (insert (lm_CreationTimestamp (dpl_Meta x)) (set (dpl_UpdateTimes x)))) xs"
proof -
  let ?ds = "[demo_deployment ''old'' [3], demo_deployment ''new'' [7, 5]]"
  have sorts: "slice_sort (env_Sort deployments_env)"
    using insertion.slice_sort_axioms by (simp add: deployments_env_def empty_env_def)
  have list: "li_List (inf_Deployments deployments_env) ''ns'' (query_Selector deployments_env by_update) = Inr ?ds"
    by (simp add: deployments_env_def empty_env_def store_lister_def query_Selector_def Everything_def demo_deployment_def demo_meta_def)
  show ?thesis
    using deployments_pages [OF sorts _ _ _ _ _ list refl, of 1 2] by (simp add: fits_def by_update_def matching_def)
qed

end
