(* ===== verification/Iam_Getters.thy ===== *)
theory Iam_Getters
  imports Resource_Getters
begin

text \<open>
  The getters of identity and access management (\<^verbatim>\<open>pkg/models/resources/v1alpha3\<close>: bindings, groups, login
  records, roles and users). Roles can be listed as those aggregated into one role, and users as those bound in a
  namespace, a workspace or the cluster or to a global role; both follow references through the listers.
\<close>

section \<open>Bindings, groups and login records\<close>

definition rolebindingsGetter :: "resource_env \<Rightarrow> getter" where
  "rolebindingsGetter env =
     kind_getter env (Binding RoleBindings) (inf_Bindings env RoleBindings) True True
       (compare_as (as_Binding RoleBindings) False (meta_compare bnd_Meta))
       (filter_as (as_Binding RoleBindings) (\<lambda>b. meta_filter env (bnd_Meta b)))"

definition clusterrolebindingsGetter :: "resource_env \<Rightarrow> getter" where
  "clusterrolebindingsGetter env =
     kind_getter env (Binding ClusterRoleBindings) (inf_Bindings env ClusterRoleBindings) False False
       (compare_as (as_Binding ClusterRoleBindings) False (meta_compare bnd_Meta))
       (filter_as (as_Binding ClusterRoleBindings) (\<lambda>b. meta_filter env (bnd_Meta b)))"

definition globalrolebindingsGetter :: "resource_env \<Rightarrow> getter" where
  "globalrolebindingsGetter env =
     kind_getter env (Binding GlobalRoleBindings) (inf_Bindings env GlobalRoleBindings) False False
       (compare_as (as_Binding GlobalRoleBindings) False (meta_compare bnd_Meta))
       (filter_as (as_Binding GlobalRoleBindings) (\<lambda>b. meta_filter env (bnd_Meta b)))"

text \<open>Workspace role bindings are listed as such, but one that is asked for by name is looked up among the global ones.\<close>

definition workspacerolebinding_filter :: "resource_env \<Rightarrow> binding_object \<Rightarrow> string \<times> string \<Rightarrow> bool" where
  "workspacerolebinding_filter env b fv =
     (if fst fv = ''rolename'' then bnd_RoleRefName b = snd fv else meta_filter env (bnd_Meta b) fv)"

definition workspacerolebindingsGetter :: "resource_env \<Rightarrow> getter" where
  "workspacerolebindingsGetter env =
     \<lparr>gt_Get = (\<lambda>_ name. get_object (Binding GlobalRoleBindings) (inf_Bindings env GlobalRoleBindings) [] name),
      gt_List = (\<lambda>_ q.
        list_objects env (fetch_objects env (Binding WorkspaceRoleBindings) (inf_Bindings env WorkspaceRoleBindings) [] q) q
          (compare_as (as_Binding WorkspaceRoleBindings) False (meta_compare bnd_Meta))
          (filter_as (as_Binding WorkspaceRoleBindings) (workspacerolebinding_filter env)) [])\<rparr>"

definition groupbinding_filter :: "resource_env \<Rightarrow> groupbinding_object \<Rightarrow> string \<times> string \<Rightarrow> bool" where
  "groupbinding_filter env g fv =
     (if fst fv = ''user'' then HasString (gbn_Users g) (snd fv) else meta_filter env (gbn_Meta g) fv)"

definition groupBindingGetter :: "resource_env \<Rightarrow> getter" where
  "groupBindingGetter env =
     kind_getter env GroupBinding (inf_GroupBindings env) False False
       (compare_as as_GroupBinding False (meta_compare gbn_Meta)) (filter_as as_GroupBinding (groupbinding_filter env))"

text \<open>A login record that is asked for by name is looked up among the users.\<close>

definition loginrecord_filter :: "resource_env \<Rightarrow> loginrecord_object \<Rightarrow> string \<times> string \<Rightarrow> bool" where
  "loginrecord_filter env r fv = (if fst fv = ''type'' then lgr_Type r = snd fv else meta_filter env (lgr_Meta r) fv)"

definition loginrecordsGetter :: "resource_env \<Rightarrow> getter" where
  "loginrecordsGetter env =
     \<lparr>gt_Get = (\<lambda>_ name. get_object User (inf_Users env) [] name),
      gt_List = (\<lambda>_ q.
        list_objects env (fetch_objects env LoginRecord (inf_LoginRecords env) [] q) q
          (compare_as as_LoginRecord False (meta_compare lgr_Meta)) (filter_as as_LoginRecord (loginrecord_filter env)) [])\<rparr>"

section \<open>Roles\<close>

abbreviation aggregationRoles :: string where "aggregationRoles \<equiv> ''iam.kubesphere.io/aggregation-roles''"

text \<open>The roles with given names; those that are missing are left out.\<close>

fun roles_named :: "(string \<Rightarrow> (api_error, list_meta) result) \<Rightarrow> string list \<Rightarrow> (api_error, list_meta list) result" where
  "roles_named get [] = Inr []"
| "roles_named get (n # ns) =
     (case get n of
        Inl NotFound \<Rightarrow> roles_named get ns
      | Inl e \<Rightarrow> Inl e
      | Inr r \<Rightarrow> map_sum id ((#) r) (roles_named get ns))"

definition fetchAggregationRoles ::
  "resource_env \<Rightarrow> plain_kind \<Rightarrow> string \<Rightarrow> string \<Rightarrow> (api_error, list_meta list) result" where
  "fetchAggregationRoles env k namespace name =
     (let get = li_Get (inf_Plain env k) namespace in
      case get name of
        Inl NotFound \<Rightarrow> Inr []
      | Inl e \<Rightarrow> Inl e
      | Inr role \<Rightarrow>
          (let annotation = map_get [] (lm_Annotations role) aggregationRoles in
           if annotation = [] then Inr []
           else
             (case env_DecodeNames env annotation of
                None \<Rightarrow> Inr []
              | Some names \<Rightarrow> roles_named get names)))"

definition role_List ::
  "resource_env \<Rightarrow> plain_kind \<Rightarrow> string \<Rightarrow> (list_meta \<Rightarrow> string \<times> string \<Rightarrow> bool) \<Rightarrow> query \<Rightarrow> list_outcome" where
  "role_List env k namespace flt q =
     (let aggregateTo = map_get [] (qr_Filters q) ''aggregateTo'';
          cmp = compare_as (as_Plain k) False (meta_compare id)
      in if aggregateTo \<noteq> []
         then
           list_objects env (map_sum id (map (Plain k)) (fetchAggregationRoles env k namespace aggregateTo))
             (q\<lparr>qr_Filters := AList.delete ''aggregateTo'' (qr_Filters q)\<rparr>) cmp (filter_as (as_Plain k) flt) []
         else list_objects env (fetch_objects env (Plain k) (inf_Plain env k) namespace q) q cmp (filter_as (as_Plain k) flt) [])"

definition rolesGetter :: "resource_env \<Rightarrow> getter" where
  "rolesGetter env =
     \<lparr>gt_Get = get_object (Plain Role) (inf_Plain env Role),
      gt_List = (\<lambda>namespace. role_List env Role namespace (meta_filter env))\<rparr>"

definition clusterrolesGetter :: "resource_env \<Rightarrow> getter" where
  "clusterrolesGetter env =
     \<lparr>gt_Get = (\<lambda>_. get_object (Plain ClusterRole) (inf_Plain env ClusterRole) []),
      gt_List = (\<lambda>_. role_List env ClusterRole [] (meta_filter env))\<rparr>"

definition globalrolesGetter :: "resource_env \<Rightarrow> getter" where
  "globalrolesGetter env =
     \<lparr>gt_Get = (\<lambda>_. get_object (Plain GlobalRole) (inf_Plain env GlobalRole) []),
      gt_List = (\<lambda>_. role_List env GlobalRole [] (meta_filter env))\<rparr>"

definition workspacerole_filter :: "resource_env \<Rightarrow> list_meta \<Rightarrow> string \<times> string \<Rightarrow> bool" where
  "workspacerole_filter env r fv =
     (if fst fv = ''workspace'' then map_get [] (lm_Labels r) workspaceLabelKey = snd fv else meta_filter env r fv)"

definition workspacerolesGetter :: "resource_env \<Rightarrow> getter" where
  "workspacerolesGetter env =
     \<lparr>gt_Get = (\<lambda>_. get_object (Plain WorkspaceRole) (inf_Plain env WorkspaceRole) []),
      gt_List = (\<lambda>_. role_List env WorkspaceRole [] (workspacerole_filter env))\<rparr>"

section \<open>Users\<close>

definition user_filter :: "resource_env \<Rightarrow> user_object \<Rightarrow> string \<times> string \<Rightarrow> bool" where
  "user_filter env u fv =
     (let (field, v) = fv in
      if field = ''email'' then usr_Email u = v
      else if field = ''ingroup'' then HasString (usr_Groups u) v
      else if field = ''notingroup'' then \<not> HasString (usr_Groups u) v
      else meta_filter env (usr_Meta u) fv)"

abbreviation user_name :: "user_object \<Rightarrow> string" where
  "user_name u \<equiv> lm_Name (usr_Meta u)"

definition users_contain :: "user_object list \<Rightarrow> string \<Rightarrow> bool" where
  "users_contain users username = list_ex (\<lambda>u. user_name u = username) users"

definition with_annotation :: "string \<Rightarrow> string \<Rightarrow> user_object \<Rightarrow> user_object" where
  "with_annotation k v u = u\<lparr>usr_Meta := (usr_Meta u)\<lparr>lm_Annotations := AList.update k v (lm_Annotations (usr_Meta u))\<rparr>\<rparr>"

text \<open>
  The loop over the subjects of a binding: users that were already found are passed over, missing ones too, and a user
  is annotated with the role of the binding.
\<close>

fun add_subjects ::
  "resource_env \<Rightarrow> string \<Rightarrow> string \<Rightarrow> subject list \<Rightarrow> user_object list \<Rightarrow> (api_error, user_object list) result" where
  "add_subjects env annotation role [] users = Inr users"
| "add_subjects env annotation role (s # ss) users =
     (if s_Kind s = UserKind then
        if users_contain users (s_Name s) then add_subjects env annotation role ss users
        else
          (case li_Get (inf_Users env) [] (s_Name s) of
             Inl NotFound \<Rightarrow> add_subjects env annotation role ss users
           | Inl e \<Rightarrow> Inl e
           | Inr u \<Rightarrow> add_subjects env annotation role ss (users @ [with_annotation annotation role u]))
      else add_subjects env annotation role ss users)"

fun users_bound ::
  "resource_env \<Rightarrow> string \<Rightarrow> (string \<Rightarrow> bool) \<Rightarrow> binding_object list \<Rightarrow> user_object list \<Rightarrow> (api_error, user_object list) result" where
  "users_bound env annotation wanted [] users = Inr users"
| "users_bound env annotation wanted (b # bs) users =
     (if wanted (bnd_RoleRefName b)
      then
        (case add_subjects env annotation (bnd_RoleRefName b) (bnd_Subjects b) users of
           Inl e \<Rightarrow> Inl e
         | Inr users' \<Rightarrow> users_bound env annotation wanted bs users')
      else users_bound env annotation wanted bs users)"

definition users_of ::
  "resource_env \<Rightarrow> string \<Rightarrow> (string \<Rightarrow> bool) \<Rightarrow> (api_error, binding_object list) result \<Rightarrow> (api_error, user_object list) result" where
  "users_of env annotation wanted bindings =
     (case bindings of Inl e \<Rightarrow> Inl e | Inr bs \<Rightarrow> users_bound env annotation wanted bs [])"

definition listAllUsersInWorkspace :: "resource_env \<Rightarrow> string \<Rightarrow> string \<Rightarrow> (api_error, user_object list) result" where
  "listAllUsersInWorkspace env workspace role =
     users_of env ''iam.kubesphere.io/workspacerole'' (\<lambda>r. role = [] \<or> r = role)
       (li_List (inf_Bindings env WorkspaceRoleBindings) [] (SelectorFromSet [(workspaceLabelKey, workspace)]))"

definition listAllUsersInNamespace :: "resource_env \<Rightarrow> string \<Rightarrow> string \<Rightarrow> (api_error, user_object list) result" where
  "listAllUsersInNamespace env namespace role =
     users_of env ''iam.kubesphere.io/role'' (\<lambda>r. role = [] \<or> r = role)
       (li_List (inf_Bindings env RoleBindings) namespace Everything)"

definition listAllUsersByGlobalRole :: "resource_env \<Rightarrow> string \<Rightarrow> (api_error, user_object list) result" where
  "listAllUsersByGlobalRole env globalRole =
     users_of env ''iam.kubesphere.io/globalrole'' (\<lambda>r. r = globalRole)
       (li_List (inf_Bindings env GlobalRoleBindings) [] Everything)"

definition listAllUsersInCluster :: "resource_env \<Rightarrow> string \<Rightarrow> (api_error, user_object list) result" where
  "listAllUsersInCluster env clusterRole =
     users_of env ''iam.kubesphere.io/clusterrole'' (\<lambda>r. clusterRole = [] \<or> r = clusterRole)
       (li_List (inf_Bindings env ClusterRoleBindings) [] Everything)"

text \<open>The filters that choose the scope are used up before the listing filters by the others.\<close>

definition user_List :: "resource_env \<Rightarrow> query \<Rightarrow> list_outcome" where
  "user_List env q =
     (let fs = qr_Filters q;
          value = map_get [] fs;
          (users, used) =
            (if value ''namespace'' \<noteq> []
             then (listAllUsersInNamespace env (value ''namespace'') (value ''role''), [''namespace'', ''role''])
             else if value ''workspace'' \<noteq> []
             then (listAllUsersInWorkspace env (value ''workspace'') (value ''workspacerole''), [''workspace'', ''workspacerole''])
             else if value ''cluster'' = ''true''
             then (listAllUsersInCluster env (value ''clusterrole''), [''cluster'', ''clusterrole''])
             else if value ''globalrole'' \<noteq> []
             then (listAllUsersByGlobalRole env (value ''globalrole''), [''globalrole''])
             else (li_List (inf_Users env) [] (query_Selector env q), []))
      in list_objects env (map_sum id (map User) users) (q\<lparr>qr_Filters := fold AList.delete used fs\<rparr>)
           (compare_as as_User False (meta_compare usr_Meta)) (filter_as as_User (user_filter env)) [])"

definition usersGetter :: "resource_env \<Rightarrow> getter" where
  "usersGetter env =
     \<lparr>gt_Get = (\<lambda>_ name. get_object User (inf_Users env) [] name), gt_List = (\<lambda>_ q. user_List env q)\<rparr>"

interpretation user_kinds: resource_kind User as_User "meta_compare usr_Meta"
  by unfold_locales (auto simp: as_kind strict_meta_compare split: kobject.splits)

section \<open>Who is listed\<close>

text \<open>What the loops rely on: a lister returns an object of the name it was asked for.\<close>

locale named_lister =
  fixes lst :: "'o lister" and meta :: "'o \<Rightarrow> list_meta"
  assumes get_named: "li_Get lst namespace name = Inr x \<Longrightarrow> lm_Name (meta x) = name"

interpretation stored: named_lister "store_lister meta store" meta
  by unfold_locales (auto simp: store_lister_def find_Some_iff split: option.splits)

text \<open>The loops seen as one: names and roles in the order in which the bindings name them.\<close>

definition named_by :: "(string \<Rightarrow> bool) \<Rightarrow> binding_object list \<Rightarrow> (string \<times> string) list" where
  "named_by wanted bs =
     concat (map (\<lambda>b. if wanted (bnd_RoleRefName b)
                      then map (\<lambda>s. (s_Name s, bnd_RoleRefName b)) (filter (\<lambda>s. s_Kind s = UserKind) (bnd_Subjects b))
                      else []) bs)"

fun collect ::
  "resource_env \<Rightarrow> string \<Rightarrow> (string \<times> string) list \<Rightarrow> user_object list \<Rightarrow> (api_error, user_object list) result" where
  "collect env annotation [] users = Inr users"
| "collect env annotation ((n, role) # ps) users =
     (if users_contain users n then collect env annotation ps users
      else
        (case li_Get (inf_Users env) [] n of
           Inl NotFound \<Rightarrow> collect env annotation ps users
         | Inl e \<Rightarrow> Inl e
         | Inr u \<Rightarrow> collect env annotation ps (users @ [with_annotation annotation role u])))"

lemma collect_append:
  "collect env annotation (ps @ ps') users =
     (case collect env annotation ps users of Inl e \<Rightarrow> Inl e | Inr users' \<Rightarrow> collect env annotation ps' users')"
  by (induction ps arbitrary: users) (auto split: sum.splits api_error.splits)

lemma add_subjects_collect:
  "add_subjects env annotation role ss users =
     collect env annotation (map (\<lambda>s. (s_Name s, role)) (filter (\<lambda>s. s_Kind s = UserKind) ss)) users"
  by (induction ss arbitrary: users) (simp_all split: sum.splits api_error.splits)

lemma users_bound_collect: "users_bound env annotation wanted bs users = collect env annotation (named_by wanted bs) users"
  by (induction bs arbitrary: users)
    (simp_all add: named_by_def collect_append add_subjects_collect split: sum.splits)

lemma collect_returns:
  assumes "\<forall>n e. li_Get (inf_Users env) [] n = Inl e \<longrightarrow> e = NotFound"
  shows "\<exists>users'. collect env annotation ps users = Inr users'"
proof (induction ps arbitrary: users)
  case (Cons p ps)
  then show ?case
    using assms [rule_format, of "fst p"] by (cases p; cases "li_Get (inf_Users env) [] (fst p)") auto
qed simp

lemma user_name_annotated [simp]: "user_name (with_annotation k v u) = user_name u"
  by (simp add: with_annotation_def)

lemma users_contain_iff: "users_contain users n \<longleftrightarrow> n \<in> user_name ` set users"
  by (auto simp: users_contain_def list_ex_iff)

lemma collect_users:
  assumes named: "named_lister (inf_Users env) usr_Meta"
    and "collect env annotation ps users = Inr users'" "distinct (map user_name users)"
  shows "distinct (map user_name users') \<and>
    user_name ` set users' = user_name ` set users \<union> {n \<in> fst ` set ps. \<exists>u. li_Get (inf_Users env) [] n = Inr u} \<and>
    (\<forall>u \<in> set users'. u \<in> set users \<or> user_name u \<notin> user_name ` set users \<and>
       (\<exists>u0 role. map_of ps (user_name u) = Some role \<and> u = with_annotation annotation role u0))"
  using assms(2,3)
proof (induction ps arbitrary: users)
  case (Cons p ps)
  obtain n role where p: "p = (n, role)" by (cases p)
  consider (known) "users_contain users n" "collect env annotation ps users = Inr users'"
    | (missing) "\<not> users_contain users n" "li_Get (inf_Users env) [] n = Inl NotFound" "collect env annotation ps users = Inr users'"
    | (found) u where "\<not> users_contain users n" "li_Get (inf_Users env) [] n = Inr u"
        "collect env annotation ps (users @ [with_annotation annotation role u]) = Inr users'"
    using Cons.prems(1) by (auto simp: p split: if_splits sum.splits api_error.splits)
  then show ?case
  proof cases
    case known
    then have "n \<in> user_name ` set users" by (simp add: users_contain_iff)
    with Cons.IH [OF known(2) Cons.prems(2)] show ?thesis by (auto simp: p)
  next
    case missing
    note IH = Cons.IH [OF missing(3) Cons.prems(2)]
    have "user_name u \<noteq> n" if "u \<in> set users'" for u
    proof -
      have "user_name u \<in> user_name ` set users'" using that by simp
      then have "user_name u \<in> user_name ` set users \<or> (\<exists>v. li_Get (inf_Users env) [] (user_name u) = Inr v)"
        using IH by auto
      with missing(1,2) show ?thesis by (auto simp: users_contain_iff)
    qed
    with IH missing(2) show ?thesis by (auto simp: p)
  next
    case found
    have name: "user_name u = n" using named_lister.get_named [OF named found(2)] .
    have "distinct (map user_name (users @ [with_annotation annotation role u]))"
      using Cons.prems(2) found(1) by (simp add: name users_contain_iff)
    from Cons.IH [OF found(3) this] show ?thesis
      using found(1,2) by (auto simp: p name users_contain_iff)
  qed
qed simp

lemma named_by_iff:
  "n \<in> fst ` set (named_by wanted bs) \<longleftrightarrow>
     (\<exists>b \<in> set bs. wanted (bnd_RoleRefName b) \<and> (\<exists>s \<in> set (bnd_Subjects b). s_Kind s = UserKind \<and> s_Name s = n))"
  by (force simp: named_by_def image_iff)

lemma named_by_role:
  "map_of (named_by wanted bs) n = Some role \<Longrightarrow>
   \<exists>b \<in> set bs. bnd_RoleRefName b = role \<and> wanted role \<and> (\<exists>s \<in> set (bnd_Subjects b). s_Kind s = UserKind \<and> s_Name s = n)"
  by (drule map_of_SomeD) (auto simp: named_by_def split: if_splits)

lemma length_named_by: "length (named_by wanted bs) \<le> length (concat (map bnd_Subjects bs))"
proof (induction bs)
  case (Cons b bs)
  have "length (filter (\<lambda>s. s_Kind s = UserKind) (bnd_Subjects b)) \<le> length (bnd_Subjects b)" by (rule length_filter_le)
  with Cons show ?case by (auto simp: named_by_def intro: add_mono)
qed (simp add: named_by_def)

lemma users_of_returns:
  assumes "named_lister (inf_Users env) usr_Meta"
    and "\<forall>n e. li_Get (inf_Users env) [] n = Inl e \<longrightarrow> e = NotFound"
  obtains users where "users_of env annotation wanted (Inr bs) = Inr users" "distinct (map user_name users)"
    "length users \<le> length (concat (map bnd_Subjects bs))"
    "user_name ` set users = {n \<in> fst ` set (named_by wanted bs). \<exists>u. li_Get (inf_Users env) [] n = Inr u}"
    "\<forall>u \<in> set users. \<exists>u0 role. map_of (named_by wanted bs) (user_name u) = Some role \<and> u = with_annotation annotation role u0"
proof -
  obtain users where c: "collect env annotation (named_by wanted bs) [] = Inr users"
    using collect_returns [OF assms(2)] by blast
  note u = collect_users [OF assms(1) c, simplified]
  have "length users = card (user_name ` set users)"
    using u distinct_card [of "map user_name users"] by simp
  also have "\<dots> \<le> card (fst ` set (named_by wanted bs))" using u by (intro card_mono) auto
  also have "\<dots> \<le> length (named_by wanted bs)" by (metis card_length list.set_map length_map)
  also note length_named_by
  finally show ?thesis using that [of users] c u by (simp add: users_of_def users_bound_collect)
qed

text \<open>
  C30: The users listed for a workspace, optionally with a role in it, are exactly the existing users that a binding of
  the workspace to such a role names, each once, as far as they match the other filters; each is annotated with the
  role of a binding of the workspace that names it. The answer carries their number and the page of them that the
  query asks for: all of them when the request gives no limit. It is assumed that looking up a user fails only
  because the user does not exist, that the bindings fit a slice and that the end of the page fits an integer.
\<close>

theorem workspace_users_listed:
  assumes "slice_sort (env_Sort env)" "named_lister (inf_Users env) usr_Meta"
    and "\<forall>n e. li_Get (inf_Users env) [] n = Inl e \<longrightarrow> e = NotFound"
    and "li_List (inf_Bindings env WorkspaceRoleBindings) [] (SelectorFromSet [(workspaceLabelKey, workspace)]) = Inr bs"
    and "fits (concat (map bnd_Subjects bs))" "\<not> page_overflows q"
    and "map_get [] (qr_Filters q) ''namespace'' = []"
    and "workspace = map_get [] (qr_Filters q) ''workspace''" "workspace \<noteq> []"
    and role: "role = map_get [] (qr_Filters q) ''workspacerole''"
  shows "\<exists>r all users. gt_List (usersGetter env) namespace q = Listed r \<and>
    lr_Items r = page_items q all \<and> (unlimited q \<longrightarrow> lr_Items r = all) \<and> lr_TotalItems r = length all \<and>
    mset all =
      mset (map User (filter (matching (AList.delete ''workspacerole'' (AList.delete ''workspace'' (qr_Filters q))) (user_filter env)) users)) \<and>
    distinct (map user_name users) \<and>
    (\<forall>n. n \<in> user_name ` set users \<longleftrightarrow>
       (\<exists>u. li_Get (inf_Users env) [] n = Inr u) \<and>
       (\<exists>b \<in> set bs. (role = [] \<or> bnd_RoleRefName b = role) \<and>
          (\<exists>s \<in> set (bnd_Subjects b). s_Kind s = UserKind \<and> s_Name s = n))) \<and>
    (\<forall>u \<in> set users. \<exists>b \<in> set bs. (role = [] \<or> bnd_RoleRefName b = role) \<and>
       (\<exists>s \<in> set (bnd_Subjects b). s_Kind s = UserKind \<and> s_Name s = user_name u) \<and>
       map_of (lm_Annotations (usr_Meta u)) ''iam.kubesphere.io/workspacerole'' = Some (bnd_RoleRefName b))"
proof -
  let ?wanted = "\<lambda>r. role = [] \<or> r = role" and ?ann = "''iam.kubesphere.io/workspacerole''"
  let ?q = "q\<lparr>qr_Filters := AList.delete ''workspacerole'' (AList.delete ''workspace'' (qr_Filters q))\<rparr>"
  obtain users where u: "users_of env ?ann ?wanted (Inr bs) = Inr users" "distinct (map user_name users)"
      "length users \<le> length (concat (map bnd_Subjects bs))"
      "user_name ` set users = {n \<in> fst ` set (named_by ?wanted bs). \<exists>u. li_Get (inf_Users env) [] n = Inr u}"
      "\<forall>u \<in> set users. \<exists>u0 role. map_of (named_by ?wanted bs) (user_name u) = Some role \<and> u = with_annotation ?ann role u0"
    by (rule users_of_returns [OF assms(2,3), of ?ann ?wanted bs])
  have "int (length users) \<le> int (length (concat (map bnd_Subjects bs)))" using u(3) by (simp only: of_nat_le_iff)
  then have fits: "fits (map User users)" using assms(5) unfolding fits_def length_map by linarith
  have "\<not> page_overflows ?q" using assms(6) by simp
  from list_objects_listed [OF assms(1) fits this]
  obtain r all where r: "list_objects env (Inr (map User users)) ?q (compare_as as_User False (meta_compare usr_Meta))
        (filter_as as_User (user_filter env)) [] = Listed r"
      "mset all = mset (filter (matching (qr_Filters ?q) (filter_as as_User (user_filter env))) (map User users))"
      "lr_Items r = page_items q all" "lr_TotalItems r = length all"
    unfolding page_items_filters by blast
  have "gt_List (usersGetter env) namespace q = Listed r"
    using r(1) u(1) assms(4,9)
    by (simp add: usersGetter_def user_List_def assms(7) assms(8) [symmetric] role [symmetric] listAllUsersInWorkspace_def)
  moreover have "mset all = mset (map User (filter (matching (qr_Filters ?q) (user_filter env)) users))"
    using r(2) by (simp only: user_kinds.filter_matching_wrap)
  moreover have "\<exists>b \<in> set bs. ?wanted (bnd_RoleRefName b) \<and>
      (\<exists>s \<in> set (bnd_Subjects b). s_Kind s = UserKind \<and> s_Name s = user_name v) \<and>
      map_of (lm_Annotations (usr_Meta v)) ?ann = Some (bnd_RoleRefName b)" if listed: "v \<in> set users" for v
  proof -
    obtain u0 role' where v: "map_of (named_by ?wanted bs) (user_name v) = Some role'" "v = with_annotation ?ann role' u0"
      using bspec [OF u(5) listed] by blast
    have ann: "map_of (lm_Annotations (usr_Meta v)) ?ann = Some role'" by (simp add: v(2) with_annotation_def)
    obtain b where b: "b \<in> set bs" "bnd_RoleRefName b = role'" "?wanted role'"
        "\<exists>s \<in> set (bnd_Subjects b). s_Kind s = UserKind \<and> s_Name s = user_name v"
      using named_by_role [OF v(1)] by meson
    show ?thesis by (rule bexI [OF _ b(1)]) (use ann b in simp)
  qed
  moreover have "n \<in> user_name ` set users \<longleftrightarrow> (\<exists>u. li_Get (inf_Users env) [] n = Inr u) \<and>
      (\<exists>b \<in> set bs. ?wanted (bnd_RoleRefName b) \<and> (\<exists>s \<in> set (bnd_Subjects b). s_Kind s = UserKind \<and> s_Name s = n))" for n
    unfolding u(4) mem_Collect_eq named_by_iff by blast
  ultimately show ?thesis
    using u(2) r(3,4) by (intro exI [of _ r] exI [of _ all] exI [of _ users]) (simp add: page_items_unlimited)
qed

section \<open>Witnesses\<close>

definition demo_person :: "string \<Rightarrow> user_object" where
  "demo_person n = \<lparr>usr_Meta = (demo_meta n)\<lparr>lm_Namespace := []\<rparr>, usr_Email = n @ ''@example.com'', usr_Groups = []\<rparr>"

definition demo_subject :: "string \<Rightarrow> subject" where
  "demo_subject n = \<lparr>s_Kind = UserKind, s_Name = n, s_Namespace = []\<rparr>"

definition demo_binding_object :: "string \<Rightarrow> string \<Rightarrow> string list \<Rightarrow> binding_object" where
  "demo_binding_object n role names =
     \<lparr>bnd_Meta = (demo_meta n)\<lparr>lm_Namespace := [], lm_Labels := [(workspaceLabelKey, ''dev'')]\<rparr>, bnd_RoleRefName = role,
      bnd_Subjects = map demo_subject names\<rparr>"

definition users_env :: resource_env where
  "users_env = empty_env\<lparr>
     inf_Users := store_lister usr_Meta [demo_person ''ann'', demo_person ''bob''],
     inf_Bindings := (\<lambda>k. if k = WorkspaceRoleBindings
        then store_lister bnd_Meta [demo_binding_object ''b1'' ''dev-admin'' [''ann'', ''gone''], demo_binding_object ''b2'' ''dev-viewer'' [''bob'', ''ann'']]
        else empty_lister)\<rparr>"

definition in_workspace :: query where
  "in_workspace = ParseQueryParameter [(''workspace'', [''dev''])]"

lemma in_workspace_filters: "qr_Filters in_workspace = [(''workspace'', ''dev'')]"
  by code_simp

lemma in_workspace_unlimited: "unlimited in_workspace"
  unfolding in_workspace_def by (rule ParseQueryParameter_unlimited) code_simp

theorem workspace_users_listed_witness:
  "\<exists>r users. gt_List (usersGetter users_env) [] in_workspace = Listed r \<and> mset (lr_Items r) = mset (map User users) \<and>
     distinct (map user_name users) \<and> user_name ` set users = {''ann'', ''bob''}"
proof -
  let ?bs = "[demo_binding_object ''b1'' ''dev-admin'' [''ann'', ''gone''], demo_binding_object ''b2'' ''dev-viewer'' [''bob'', ''ann'']]"
  have sorts: "slice_sort (env_Sort users_env)"
    using insertion.slice_sort_axioms by (simp add: users_env_def empty_env_def)
  have named: "named_lister (inf_Users users_env) usr_Meta"
    using stored.named_lister_axioms by (simp add: users_env_def)
  have errors: "\<forall>n e. li_Get (inf_Users users_env) [] n = Inl e \<longrightarrow> e = NotFound"
    by (simp add: users_env_def store_lister_def split: option.splits)
  have list: "li_List (inf_Bindings users_env WorkspaceRoleBindings) [] (SelectorFromSet [(workspaceLabelKey, ''dev'')]) = Inr ?bs"
    by (simp add: users_env_def store_lister_def SelectorFromSet_def demo_binding_object_def)
  have people: "(\<exists>u. li_Get (inf_Users users_env) [] n = Inr u) \<longleftrightarrow> n = ''ann'' \<or> n = ''bob''" for n
    by (auto simp: users_env_def store_lister_def demo_person_def demo_meta_def)
  have named_users: "(\<exists>b \<in> set ?bs. \<exists>s \<in> set (bnd_Subjects b). s_Kind s = UserKind \<and> s_Name s = n) \<longleftrightarrow> n \<in> {''ann'', ''gone'', ''bob''}" for n
    by (auto simp: demo_binding_object_def demo_subject_def)
  have filters: "map_get [] (qr_Filters in_workspace) ''namespace'' = []" "map_get [] (qr_Filters in_workspace) ''workspace'' = ''dev''"
      "map_get [] (qr_Filters in_workspace) ''workspacerole'' = []" "\<not> page_overflows in_workspace"
      "AList.delete ''workspacerole'' (AList.delete ''workspace'' (qr_Filters in_workspace)) = []"
    by (simp_all add: in_workspace_filters map_get_def unlimited_fits [OF in_workspace_unlimited])
  have fits: "fits (concat (map bnd_Subjects ?bs))" by (simp add: fits_def demo_binding_object_def)
  obtain r users where "gt_List (usersGetter users_env) [] in_workspace = Listed r" "mset (lr_Items r) = mset (map User users)"
      "distinct (map user_name users)" "\<forall>n. n \<in> user_name ` set users \<longleftrightarrow> (n = ''ann'' \<or> n = ''bob'') \<and> n \<in> {''ann'', ''gone'', ''bob''}"
    using workspace_users_listed [OF sorts named errors list fits filters(4,1) filters(2) [symmetric] _ refl, of "[]"]
    unfolding filters people named_users [symmetric] by (auto simp: matching_def in_workspace_unlimited)
  then show ?thesis by (intro exI [of _ r] exI [of _ users]) (auto intro!: set_eqI)
qed

end
