(* ===== verification/Node_Getter.thy ===== *)
theory Node_Getter
  imports Resource_Getters Complex_Main
begin

text \<open>
  The getter of nodes (\<^verbatim>\<open>pkg/models/resources/v1alpha3/node/nodes.go\<close>). It has a listing of its own, which
  annotates the nodes of the page with what the pods on them request and may use, as amounts and in percent of what the
  node offers. The percentages are computed in floating point: \<open>f64\<close> rounds a rational number to the nearest one with
  53 significant bits, ties to even, as every operation on \<^verbatim>\<open>float64\<close> does on results in its normal range.
\<close>

section \<open>Floating point\<close>

function bits :: "int \<Rightarrow> int" where
  "bits n = (if n \<le> 0 then 0 else 1 + bits (n div 2))"
  by auto
termination
  by (relation "measure nat") auto

declare bits.simps [simp del]

definition pow2 :: "int \<Rightarrow> rat" where
  "pow2 z = (if 0 \<le> z then 2 ^ nat z else 1 / 2 ^ nat (- z))"

definition round_even :: "rat \<Rightarrow> int" where
  "round_even y =
     (let f = \<lfloor>y\<rfloor>; d = y - of_int f in
      if d < 1 / 2 then f else if 1 / 2 < d then f + 1 else if even f then f else f + 1)"

definition f64_pos :: "rat \<Rightarrow> rat" where
  "f64_pos x =
     (let (p, q) = quotient_of x;
          b = bits p - bits q;
          e = (if pow2 b \<le> x then b else b - 1);
          u = pow2 (e - 52)
      in of_int (round_even (x / u)) * u)"

definition f64 :: "rat \<Rightarrow> rat" where
  "f64 x = (if x = 0 then 0 else if 0 < x then f64_pos x else - f64_pos (- x))"

text \<open>Conversion to \<^verbatim>\<open>int\<close> cuts off the fraction.\<close>

definition int_of_f64 :: "rat \<Rightarrow> int" where
  "int_of_f64 x = (if 0 \<le> x then \<lfloor>x\<rfloor> else \<lceil>x\<rceil>)"

section \<open>Status\<close>

abbreviation expectedConditions :: "(string, string) gomap" where
  "expectedConditions \<equiv>
     [(''MemoryPressure'', ''False''), (''DiskPressure'', ''False''), (''PIDPressure'', ''False''),
      (''NetworkUnavailable'', ''False''), (''ConfigOK'', ''True''), (''KubeletReady'', ''True''), (''Ready'', ''True'')]"

definition isUnhealthyStatus :: "string \<times> string \<Rightarrow> bool" where
  "isUnhealthyStatus condition =
     (let expected = map_get [] expectedConditions (fst condition) in expected \<noteq> [] \<and> snd condition \<noteq> expected)"

definition getNodeStatus :: "node_object \<Rightarrow> string" where
  "getNodeStatus n =
     (if nod_Unschedulable n then ''unschedulable''
      else if list_ex isUnhealthyStatus (nod_Conditions n) then ''warning''
      else ''running'')"

definition node_filter :: "resource_env \<Rightarrow> node_object \<Rightarrow> string \<times> string \<Rightarrow> bool" where
  "node_filter env n fv = (if fst fv = ''status'' then getNodeStatus n = snd fv else meta_filter env (nod_Meta n) fv)"

section \<open>Requests and limits\<close>

text \<open>Adding to a zero quantity takes over the format of the other.\<close>

definition add_quantity :: "quantity \<Rightarrow> quantity \<Rightarrow> quantity" where
  "add_quantity a b =
     \<lparr>qn_Milli = qn_Milli a + qn_Milli b, qn_Format = (if qn_Milli a = 0 then qn_Format b else qn_Format a)\<rparr>"

definition zero_quantity :: quantity where
  "zero_quantity = \<lparr>qn_Milli = 0, qn_Format = NoFormat\<rparr>"

definition add_amounts :: "(string, quantity) gomap \<Rightarrow> (string, quantity) gomap \<Rightarrow> (string, quantity) gomap" where
  "add_amounts amounts acc =
     fold (\<lambda>(name, v) t.
       case map_of t name of
         None \<Rightarrow> AList.update name v t
       | Some w \<Rightarrow> AList.update name (add_quantity w v) t) amounts acc"

definition getPodsTotalRequestAndLimits ::
  "resource_env \<Rightarrow> pod_object list \<Rightarrow> (string, quantity) gomap \<times> (string, quantity) gomap" where
  "getPodsTotalRequestAndLimits env pods =
     fold (\<lambda>pod (reqs, limits).
       let (podReqs, podLimits) = env_PodRequestsAndLimits env pod
       in (add_amounts podReqs reqs, add_amounts podLimits limits)) pods ([], [])"

definition MilliValue :: "quantity \<Rightarrow> int" where
  "MilliValue q = qn_Milli q"

text \<open>\<^verbatim>\<open>Value\<close> rounds up to a whole number.\<close>

definition quantity_Value :: "quantity \<Rightarrow> int" where
  "quantity_Value q = - ((- qn_Milli q) div 1000)"

definition percent_of :: "int \<Rightarrow> int \<Rightarrow> int" where
  "percent_of part whole =
     (if whole \<noteq> 0 then int_of_f64 (f64 (f64 (f64 (of_int part) / f64 (of_int whole)) * 100)) else 0)"

definition percent_text :: "int \<Rightarrow> int \<Rightarrow> string" where
  "percent_text part whole = show_int (percent_of part whole) @ ''%''"

definition annotateNode :: "resource_env \<Rightarrow> pod_object list \<Rightarrow> node_object \<Rightarrow> node_object" where
  "annotateNode env pods n =
     (if pods = [] then n
      else
        (let meta = nod_Meta n;
             nodePods = filter (\<lambda>p. pod_NodeName p = lm_Name meta) pods;
             (reqs, limits) = getPodsTotalRequestAndLimits env nodePods;
             cpuReqs = map_get zero_quantity reqs ''cpu'';
             cpuLimits = map_get zero_quantity limits ''cpu'';
             memoryReqs = map_get zero_quantity reqs ''memory'';
             memoryLimits = map_get zero_quantity limits ''memory'';
             cpu = MilliValue (nod_AllocatableCpu n);
             memory = quantity_Value (nod_AllocatableMemory n);
             annotations =
               [(''node.kubesphere.io/cpu-requests'', env_QuantityString env cpuReqs),
                (''node.kubesphere.io/cpu-limits'', env_QuantityString env cpuLimits),
                (''node.kubesphere.io/memory-requests'', env_QuantityString env memoryReqs),
                (''node.kubesphere.io/memory-limits'', env_QuantityString env memoryLimits),
                (''node.kubesphere.io/cpu-requests-fraction'', percent_text (MilliValue cpuReqs) cpu),
                (''node.kubesphere.io/cpu-limits-fraction'', percent_text (MilliValue cpuLimits) cpu),
                (''node.kubesphere.io/memory-requests-fraction'', percent_text (quantity_Value memoryReqs) memory),
                (''node.kubesphere.io/memory-limits-fraction'', percent_text (quantity_Value memoryLimits) memory)]
         in n\<lparr>nod_Meta := meta\<lparr>lm_Annotations :=
              fold (\<lambda>(k, v). AList.update k v) annotations (lm_Annotations meta)\<rparr>\<rparr>))"

section \<open>Reading and listing\<close>

text \<open>An error of the pod lister is ignored: there is nothing to annotate with.\<close>

definition all_pods :: "resource_env \<Rightarrow> pod_object list" where
  "all_pods env = (case li_List (inf_Pods env) [] Everything of Inl _ \<Rightarrow> [] | Inr pods \<Rightarrow> pods)"

definition node_Get :: "resource_env \<Rightarrow> string \<Rightarrow> (api_error, kobject) result" where
  "node_Get env name = map_sum id (Node \<circ> annotateNode env (all_pods env)) (li_Get (inf_Nodes env) [] name)"

definition nonTerminatedPods :: "resource_env \<Rightarrow> pod_object list" where
  "nonTerminatedPods env = filter (\<lambda>p. pod_Phase p \<noteq> ''Succeeded'' \<and> pod_Phase p \<noteq> ''Failed'') (all_pods env)"

abbreviation node_compare :: "kobject \<Rightarrow> kobject \<Rightarrow> string \<Rightarrow> bool" where
  "node_compare \<equiv> compare_as as_Node False (meta_compare nod_Meta)"

definition node_List :: "resource_env \<Rightarrow> query \<Rightarrow> list_outcome" where
  "node_List env q =
     (case li_List (inf_Nodes env) [] (query_Selector env q) of
        Inl e \<Rightarrow> ListFailed e
      | Inr nodes \<Rightarrow>
          (let filtered = filter (\<lambda>n. list_all (filter_as as_Node (node_filter env) n) (qr_Filters q)) (map Node nodes);
               less = (\<lambda>x y. if \<not> qr_Ascending q then node_compare x y (qr_SortBy q) else \<not> node_compare x y (qr_SortBy q));
               sorted_nodes = env_Sort env less filtered;
               totalItems = length sorted_nodes;
               p = (case qr_Pagination q of None \<Rightarrow> NoPagination | Some p \<Rightarrow> p);
               (start, endIndex) = GetValidPagination p (word_of_nat totalItems)
           in case Prelude.slice sorted_nodes (sint start) (sint endIndex) of
                None \<Rightarrow> ListPanics
              | Some selected \<Rightarrow>
                  Listed \<lparr>lr_TotalItems = totalItems,
                    lr_Items = map (\<lambda>x. case x of Node n \<Rightarrow> Node (annotateNode env (nonTerminatedPods env) n) | _ \<Rightarrow> x) selected\<rparr>))"

definition nodesGetter :: "resource_env \<Rightarrow> getter" where
  "nodesGetter env = \<lparr>gt_Get = (\<lambda>_ name. node_Get env name), gt_List = (\<lambda>_ q. node_List env q)\<rparr>"

section \<open>The listing of nodes and the generic one\<close>

text \<open>
  \<^verbatim>\<open>sort.Slice\<close> looks at the elements only through the comparison: renaming them first or afterwards is the same.
\<close>

locale natural_sort = slice_sort sortSlice for sortSlice :: "('a \<Rightarrow> 'a \<Rightarrow> bool) \<Rightarrow> 'a list \<Rightarrow> 'a list" +
  assumes natural: "sortSlice lt (map f xs) = map f (sortSlice (\<lambda>x y. lt (f x) (f y)) xs)"
begin

lemma sort_unchanged:
  assumes "\<And>x y. lt (f x) (f y) = lt x y"
  shows "sortSlice lt (map f xs) = map f (sortSlice lt xs)"
  by (simp add: natural assms)

end

lemma sink_map: "sink lt (f x) (map f left) = map f (sink (\<lambda>x y. lt (f x) (f y)) x left)"
  by (induction left) auto

lemma fold_sink_map: "fold (sink lt) (map f xs) (map f acc) = map f (fold (sink (\<lambda>x y. lt (f x) (f y))) xs acc)"
  by (induction xs arbitrary: acc) (simp_all add: sink_map)

interpretation natural_insertion: natural_sort insertionSort
  by unfold_locales (simp add: insertionSort_def rev_map fold_sink_map [of _ _ _ "[]", simplified])

definition annotated :: "resource_env \<Rightarrow> kobject \<Rightarrow> kobject" where
  "annotated env x = (case x of Node n \<Rightarrow> Node (annotateNode env (nonTerminatedPods env) n) | _ \<Rightarrow> x)"

lemma annotateNode_meta [simp]:
  "lm_Name (nod_Meta (annotateNode env pods n)) = lm_Name (nod_Meta n)"
  "lm_CreationTimestamp (nod_Meta (annotateNode env pods n)) = lm_CreationTimestamp (nod_Meta n)"
  by (simp_all add: annotateNode_def Let_def split: prod.splits)

lemma node_compare_annotated: "node_compare (annotated env x) (annotated env y) field = node_compare x y field"
  by (cases x; cases y)
    (simp_all add: compare_as_def as_Node_def annotated_def meta_compare_def DefaultObjectMetaCompare_def)

lemma slice_map: "Prelude.slice (map f xs) i j = map_option (map f) (Prelude.slice xs i j)"
  by (simp add: Prelude.slice_def take_map drop_map)

text \<open>
  C37: Nodes are listed by a routine of their own that annotates only the nodes of the page. It gives exactly what the
  generic listing gives when every matching node is annotated, before sorting and paging, with the resources of the
  pods that have not terminated: the same items, order, total, errors and panics, for every request.
\<close>

theorem node_List_is_DefaultList:
  assumes "natural_sort (env_Sort env)"
  shows "node_List env q =
    list_objects env (fetch_objects env Node (inf_Nodes env) [] q) q node_compare (filter_as as_Node (node_filter env))
      [annotated env]"
proof (cases "li_List (inf_Nodes env) [] (query_Selector env q)")
  case (Inr nodes)
  let ?less = "\<lambda>x y. if \<not> qr_Ascending q then node_compare x y (qr_SortBy q) else \<not> node_compare x y (qr_SortBy q)"
  let ?matching = "filter (\<lambda>n. list_all (filter_as as_Node (node_filter env) n) (qr_Filters q)) (map Node nodes)"
  have "env_Sort env ?less (map (annotated env) ?matching) = map (annotated env) (env_Sort env ?less ?matching)"
    by (rule natural_sort.sort_unchanged [OF assms]) (simp only: node_compare_annotated)
  moreover have "filtered_objects (map Node nodes) (qr_Filters q) (filter_as as_Node (node_filter env)) [annotated env] =
      map (annotated env) ?matching"
    by (simp add: filtered_objects_def)
  ultimately show ?thesis
    using Inr by (simp add: node_List_def list_objects_def fetch_objects_def DefaultList_def Let_def slice_map annotated_def
        split: prod.splits option.splits)
qed (simp add: node_List_def list_objects_def fetch_objects_def)

lemma node_List_nodes:
  assumes "slice_sort (env_Sort env)" "node_List env q = Listed r" "y \<in> set (lr_Items r)"
  shows "\<exists>n. y = Node n"
proof -
  let ?less = "\<lambda>x y. if \<not> qr_Ascending q then node_compare x y (qr_SortBy q) else \<not> node_compare x y (qr_SortBy q)"
  obtain nodes i j selected where
      s: "Prelude.slice (env_Sort env ?less (filter (\<lambda>n. list_all (filter_as as_Node (node_filter env) n) (qr_Filters q))
        (map Node nodes))) i j = Some selected" and items: "lr_Items r = map (annotated env) selected"
    using assms(2) by (auto simp: node_List_def Let_def annotated_def split: sum.splits prod.splits option.splits)
  obtain x where x: "x \<in> set selected" "y = annotated env x" using assms(3) by (auto simp: items)
  have "x \<in> Node ` set nodes" using slice_subset [OF s] x(1) by (auto simp: slice_sort.set_sort [OF assms(1)])
  with x(2) show ?thesis by (auto simp: annotated_def)
qed

text \<open>Percentages are cut off after rounding in binary: 29 of 100 is shown as 28 percent.\<close>

lemma percent_29: "percent_text 29 100 = ''28%''"
  by code_simp

definition demo_node :: node_object where
  "demo_node = \<lparr>nod_Meta = demo_meta ''n1'', nod_Unschedulable = False, nod_Conditions = [(''Ready'', ''True'')],
     nod_AllocatableCpu = \<lparr>qn_Milli = 100, qn_Format = DecimalSI\<rparr>, nod_AllocatableMemory = \<lparr>qn_Milli = 0, qn_Format = BinarySI\<rparr>\<rparr>"

definition nodes_env :: resource_env where
  "nodes_env = empty_env\<lparr>inf_Nodes := store_lister nod_Meta [demo_node]\<rparr>"

theorem node_List_is_DefaultList_witness:
  "natural_sort (env_Sort nodes_env) \<and>
   node_List nodes_env by_update =
     list_objects nodes_env (fetch_objects nodes_env Node (inf_Nodes nodes_env) [] by_update) by_update node_compare
       (filter_as as_Node (node_filter nodes_env)) [annotated nodes_env]"
proof -
  have "natural_sort (env_Sort nodes_env)"
    using natural_insertion.natural_sort_axioms by (simp add: nodes_env_def empty_env_def)
  with node_List_is_DefaultList [OF this] show ?thesis by blast
qed

end
