(* ===== verification/Resource_Registry.thy ===== *)
theory Resource_Registry
  imports Iam_Getters Node_Getter
begin

text \<open>
  The registry of getters (\<^verbatim>\<open>pkg/models/resources/v1alpha3/resource/resource.go\<close>) and the handlers of the resource
  API that use it (\<^verbatim>\<open>pkg/kapis/resources/v1alpha3/handler.go\<close>). The older resource API they fall back to, the
  component status and the client of image registries are parameters.
\<close>

section \<open>The registry\<close>

record gvr =
  gv_Group :: string
  gv_Version :: string
  gv_Resource :: string

abbreviation gvr_of :: "string \<Rightarrow> string \<Rightarrow> string \<Rightarrow> gvr" where
  "gvr_of g v r \<equiv> \<lparr>gv_Group = g, gv_Version = v, gv_Resource = r\<rparr>"

text \<open>A map is given by its entries in the order in which a loop visits them.\<close>

record resource_getter =
  rg_cluster :: "(gvr, getter) gomap"
  rg_namespaced :: "(gvr, getter) gomap"

definition clusterResourceGetters :: "resource_env \<Rightarrow> (gvr, getter) gomap" where
  "clusterResourceGetters env =
     [(gvr_of '''' ''v1'' ''persistentvolumes'', persistentVolumeGetter env),
      (gvr_of ''snapshot.storage.k8s.io'' ''v1'' ''volumesnapshotclasses'', volumeSnapshotClassGetter env),
      (gvr_of ''snapshot.storage.k8s.io'' ''v1'' ''volumesnapshotcontents'', volumesnapshotcontentGetter env),
      (gvr_of '''' ''v1'' ''nodes'', nodesGetter env),
      (gvr_of '''' ''v1'' ''namespaces'', namespacesGetter env),
      (gvr_of ''apiextensions.k8s.io'' ''v1'' ''customresourcedefinitions'', crdGetter env),
      (gvr_of ''devops.kubesphere.io'' ''v1alpha3'' ''devopsprojects'', devopsGetter env),
      (gvr_of ''tenant.kubesphere.io'' ''v1alpha1'' ''workspaces'', workspaceGetter env),
      (gvr_of ''tenant.kubesphere.io'' ''v1alpha1'' ''workspacetemplates'', workspaceTemplateGetter env),
      (gvr_of ''iam.kubesphere.io'' ''v1alpha2'' ''globalroles'', globalrolesGetter env),
      (gvr_of ''iam.kubesphere.io'' ''v1alpha2'' ''workspaceroles'', workspacerolesGetter env),
      (gvr_of ''iam.kubesphere.io'' ''v1alpha2'' ''users'', usersGetter env),
      (gvr_of ''iam.kubesphere.io'' ''v1alpha2'' ''globalrolebindings'', globalrolebindingsGetter env),
      (gvr_of ''iam.kubesphere.io'' ''v1alpha2'' ''workspacerolebindings'', workspacerolebindingsGetter env),
      (gvr_of ''iam.kubesphere.io'' ''v1alpha2'' ''loginrecords'', loginrecordsGetter env),
      (gvr_of ''iam.kubesphere.io'' ''v1alpha2'' ''groups'', groupGetter env),
      (gvr_of ''iam.kubesphere.io'' ''v1alpha2'' ''groupbindings'', groupBindingGetter env),
      (gvr_of ''rbac.authorization.k8s.io'' ''v1'' ''clusterroles'', clusterrolesGetter env),
      (gvr_of ''rbac.authorization.k8s.io'' ''v1'' ''clusterrolebindings'', clusterrolebindingsGetter env),
      (gvr_of ''cluster.kubesphere.io'' ''v1alpha1'' ''clusters'', clustersGetter env),
      (gvr_of ''notification.kubesphere.io'' ''v2beta2'' ''notificationmanagers'', notificationmanagerGetter env),
      (gvr_of ''notification.kubesphere.io'' ''v2beta2'' ''configs'', notificationconfigGetter env),
      (gvr_of ''notification.kubesphere.io'' ''v2beta2'' ''receivers'', receiverGetter env),
      (gvr_of ''notification.kubesphere.io'' ''v2beta2'' ''routers'', routerGetter env),
      (gvr_of ''notification.kubesphere.io'' ''v2beta2'' ''silences'', silenceGetter env),
      (gvr_of ''monitoring.kubesphere.io'' ''v1alpha2'' ''clusterdashboards'', clusterdashboardGetter env)]"

definition namespacedResourceGetters :: "resource_env \<Rightarrow> (gvr, getter) gomap" where
  "namespacedResourceGetters env =
     [(gvr_of ''apps'' ''v1'' ''deployments'', deploymentsGetter env),
      (gvr_of ''apps'' ''v1'' ''daemonsets'', daemonSetGetter env),
      (gvr_of ''apps'' ''v1'' ''statefulsets'', statefulSetGetter env),
      (gvr_of '''' ''v1'' ''services'', servicesGetter env),
      (gvr_of '''' ''v1'' ''configmaps'', configmapsGetter env),
      (gvr_of '''' ''v1'' ''secrets'', secretsGetter env),
      (gvr_of '''' ''v1'' ''pods'', podsGetter env),
      (gvr_of '''' ''v1'' ''serviceaccounts'', serviceaccountsGetter env),
      (gvr_of ''networking.k8s.io'' ''v1'' ''ingresses'', ingressGetter env),
      (gvr_of ''networking.k8s.io'' ''v1'' ''networkpolicies'', networkpolicyGetter env),
      (gvr_of ''batch'' ''v1'' ''jobs'', jobsGetter env),
      (gvr_of ''app.k8s.io'' ''v1beta1'' ''applications'', applicationsGetter env),
      (gvr_of '''' ''v1'' ''persistentvolumeclaims'', persistentVolumeClaimGetter env),
      (gvr_of ''snapshot.storage.k8s.io'' ''v1'' ''volumesnapshots'', volumeSnapshotGetter env),
      (gvr_of ''rbac.authorization.k8s.io'' ''v1'' ''rolebindings'', rolebindingsGetter env),
      (gvr_of ''rbac.authorization.k8s.io'' ''v1'' ''roles'', rolesGetter env),
      (gvr_of ''network.kubesphere.io'' ''v1alpha1'' ''ippools'', ippoolGetter env),
      (gvr_of ''types.kubefed.io'' ''v1beta1'' ''federatednamespaces'', federatedNamespacesGetter env),
      (gvr_of ''types.kubefed.io'' ''v1beta1'' ''federateddeployments'', fedDeploymentGetter env),
      (gvr_of ''types.kubefed.io'' ''v1beta1'' ''federatedsecrets'', fedSecretGetter env),
      (gvr_of ''types.kubefed.io'' ''v1beta1'' ''federatedconfigmaps'', fedConfigMapsGetter env),
      (gvr_of ''types.kubefed.io'' ''v1beta1'' ''federatedservices'', fedServiceGetter env),
      (gvr_of ''types.kubefed.io'' ''v1beta1'' ''federatedapplications'', fedApplicationsGetter env),
      (gvr_of ''types.kubefed.io'' ''v1beta1'' ''federatedpersistentvolumeclaims'', fedPersistentVolumeClaimGetter env),
      (gvr_of ''types.kubefed.io'' ''v1beta1'' ''federatedstatefulsets'', fedStatefulSetGetter env),
      (gvr_of ''types.kubefed.io'' ''v1beta1'' ''federatedingresses'', fedIngressGetter env),
      (gvr_of ''monitoring.kubesphere.io'' ''v1alpha2'' ''dashboards'', dashboardGetter env)]"

definition NewResourceGetter :: "resource_env \<Rightarrow> resource_getter" where
  "NewResourceGetter env =
     \<lparr>rg_cluster = clusterResourceGetters env, rg_namespaced = namespacedResourceGetters env\<rparr>"

definition getter_for :: "(gvr, getter) gomap \<Rightarrow> string \<Rightarrow> getter option" where
  "getter_for getters resource = map_option snd (find (\<lambda>e. gv_Resource (fst e) = resource) getters)"

definition TryResource :: "resource_getter \<Rightarrow> bool \<Rightarrow> string \<Rightarrow> getter option" where
  "TryResource reg clusterScope resource =
     (case if clusterScope then getter_for (rg_cluster reg) resource else None of
        Some g \<Rightarrow> Some g
      | None \<Rightarrow> getter_for (rg_namespaced reg) resource)"

datatype registry_error = ResourceNotSupported | Failed api_error

definition registry_Get :: "resource_getter \<Rightarrow> string \<Rightarrow> string \<Rightarrow> string \<Rightarrow> (registry_error, kobject) result" where
  "registry_Get reg resource namespace name =
     (case TryResource reg (namespace = []) resource of
        None \<Rightarrow> Inl ResourceNotSupported
      | Some g \<Rightarrow> map_sum Failed id (gt_Get g namespace name))"

datatype registry_listing = NotSupported | Listing list_outcome

definition registry_List :: "resource_getter \<Rightarrow> string \<Rightarrow> string \<Rightarrow> query \<Rightarrow> registry_listing" where
  "registry_List reg resource namespace q =
     (case TryResource reg (namespace = []) resource of
        None \<Rightarrow> NotSupported
      | Some g \<Rightarrow> Listing (gt_List g namespace q))"

section \<open>Handlers\<close>

text \<open>What the older resource API is asked for: conditions to match exactly and in part.\<close>

record conditions =
  cn_Match :: "(string, string) gomap"
  cn_Fuzzy :: "(string, string) gomap"

text \<open>Its errors: the resource is not supported, or an error with the status code the error maps to.\<close>

datatype old_error = OldNotSupported | OldError int

record 'r old_resources =
  old_Get :: "string \<Rightarrow> string \<Rightarrow> string \<Rightarrow> (old_error, 'r) result"
  old_List :: "string \<Rightarrow> string \<Rightarrow> conditions \<Rightarrow> string \<Rightarrow> bool \<Rightarrow> int64 \<Rightarrow> int64 \<Rightarrow> (old_error, 'r list \<times> int) result"

datatype 'r resource_reply =
  Entity kobject | OldEntity 'r | Entities "kobject list_result" | OldEntities "'r list" int | ErrorStatus int | HandlerPanics

definition old_reply :: "('a \<Rightarrow> 'r resource_reply) \<Rightarrow> (old_error, 'a) result \<Rightarrow> 'r resource_reply" where
  "old_reply show_entity r =
     (case r of
        Inl OldNotSupported \<Rightarrow> ErrorStatus 404
      | Inl (OldError code) \<Rightarrow> ErrorStatus code
      | Inr x \<Rightarrow> show_entity x)"

definition handleGetResources ::
  "resource_getter \<Rightarrow> 'r old_resources \<Rightarrow> string \<Rightarrow> string \<Rightarrow> string \<Rightarrow> 'r resource_reply" where
  "handleGetResources reg old namespace resourceType name =
     (case registry_Get reg resourceType namespace name of
        Inr x \<Rightarrow> Entity x
      | Inl (Failed _) \<Rightarrow> ErrorStatus 500
      | Inl ResourceNotSupported \<Rightarrow> old_reply OldEntity (old_Get old namespace resourceType name))"

text \<open>\<^verbatim>\<open>strings.SplitN\<close> at the first colon.\<close>

fun split_colon :: "string \<Rightarrow> string \<times> string option" where
  "split_colon [] = ([], None)"
| "split_colon (c # s) =
     (if c = CHR '':'' then ([], Some s) else (case split_colon s of (a, b) \<Rightarrow> (c # a, b)))"

definition add_condition :: "string \<times> string \<Rightarrow> conditions \<Rightarrow> conditions" where
  "add_condition fv c =
     (let (field, v) = fv;
          match = (\<lambda>k x. c\<lparr>cn_Match := AList.update k x (cn_Match c)\<rparr>)
      in if field = ''name'' then c\<lparr>cn_Fuzzy := AList.update ''name'' v (cn_Fuzzy c)\<rparr>
         else if field = ''names'' then match ''name'' v
         else if field = ''creationTimestamp'' then match ''createTime'' v
         else if field = ''lastUpdateTimestamp'' then match ''updateTime'' v
         else if field = ''label'' then
           (case split_colon v of (k, Some x) \<Rightarrow> match k x | (x, None) \<Rightarrow> match ''label'' x)
         else if field = ''annotation'' then
           (case split_colon v of (_, Some x) \<Rightarrow> match ''Annotation'' x | (x, None) \<Rightarrow> match ''Annotation'' x)
         else if field = ''status'' then match ''status'' v
         else if field = ''ownerReference'' then match ''owner'' v
         else match field v)"

text \<open>\<^verbatim>\<open>fallback\<close>; the query of a request always has a page.\<close>

definition fallback ::
  "'r old_resources \<Rightarrow> string \<Rightarrow> string \<Rightarrow> query \<Rightarrow> (old_error, 'r list \<times> int) result option" where
  "fallback old resourceType namespace q =
     (case qr_Pagination q of
        None \<Rightarrow> None
      | Some p \<Rightarrow>
          Some (old_List old namespace resourceType
            (fold add_condition (qr_Filters q) \<lparr>cn_Match = [], cn_Fuzzy = []\<rparr>)
            (qr_SortBy q) (\<not> qr_Ascending q) (pg_Limit p) (pg_Offset p)))"

definition handleListResourcesV3 ::
  "resource_getter \<Rightarrow> 'r old_resources \<Rightarrow> string \<Rightarrow> string \<Rightarrow> url_values \<Rightarrow> 'r resource_reply" where
  "handleListResourcesV3 reg old namespace resourceType ps =
     (let q = ParseQueryParameter ps in
      case registry_List reg resourceType namespace q of
        Listing (Listed r) \<Rightarrow> Entities r
      | Listing (ListFailed _) \<Rightarrow> ErrorStatus 500
      | Listing ListPanics \<Rightarrow> HandlerPanics
      | NotSupported \<Rightarrow>
          (case fallback old resourceType namespace q of
             None \<Rightarrow> HandlerPanics
           | Some r \<Rightarrow> old_reply (\<lambda>(items, n). OldEntities items n) r))"

subsection \<open>Image registries\<close>

text \<open>
  A handler may write more than one answer: the list of them, in order, and whether it ends in a panic. The registry
  client gets the secret, absent for anonymous access; its errors are texts.
\<close>

record 'c registry_helper =
  rh_Auth :: "list_meta \<Rightarrow> bool"
  rh_Config :: "list_meta option \<Rightarrow> string \<Rightarrow> (string, 'c) result"
  rh_ListTags :: "list_meta option \<Rightarrow> string \<Rightarrow> (string, 'c) result"

datatype 'c image_answer = Refused int | Answer 'c

definition registry_error_status :: "string \<Rightarrow> int" where
  "registry_error_status err =
     (if Contains err ''Unauthorized'' then 401 else if Contains err ''MANIFEST_UNKNOWN'' then 404 else 400)"

definition canonicalizeRegistryError :: "(string, 'c) result \<Rightarrow> 'c image_answer" where
  "canonicalizeRegistryError r = (case r of Inl err \<Rightarrow> Refused (registry_error_status err) | Inr c \<Rightarrow> Answer c)"

text \<open>
  Reading the secret: a missing one is answered with 404 and the handler goes on without it. The lister's error comes
  with a nil secret, which passes the type assertion; that of an unsupported resource comes with no object at all.
\<close>

definition image_secret ::
  "resource_getter \<Rightarrow> string \<Rightarrow> string \<Rightarrow> ('c image_answer list \<times> list_meta option) option" where
  "image_secret reg namespace secretName =
     (if secretName = [] then Some ([], None)
      else
        (case registry_Get reg ''secrets'' namespace secretName of
           Inl ResourceNotSupported \<Rightarrow> None
         | Inl (Failed NotFound) \<Rightarrow> Some ([Refused 404], None)
         | Inl (Failed _) \<Rightarrow> Some ([], None)
         | Inr x \<Rightarrow> (case as_Plain Secret x of None \<Rightarrow> None | Some s \<Rightarrow> Some ([], Some s))))"

definition handleGetImageConfig ::
  "resource_getter \<Rightarrow> 'c registry_helper \<Rightarrow> string \<Rightarrow> string \<Rightarrow> string \<Rightarrow> 'c image_answer list option" where
  "handleGetImageConfig reg rh namespace secretName imageName =
     (case image_secret reg namespace secretName of
        None \<Rightarrow> None
      | Some (answers, secret) \<Rightarrow> Some (answers @ [canonicalizeRegistryError (rh_Config rh secret imageName)]))"

definition handleGetRepositoryTags ::
  "resource_getter \<Rightarrow> 'c registry_helper \<Rightarrow> string \<Rightarrow> string \<Rightarrow> string \<Rightarrow> 'c image_answer list option" where
  "handleGetRepositoryTags reg rh namespace secretName repository =
     (if repository = [] then Some [Refused 400]
      else
        (case image_secret reg namespace secretName of
           None \<Rightarrow> None
         | Some (answers, secret) \<Rightarrow> Some (answers @ [canonicalizeRegistryError (rh_ListTags rh secret repository)])))"

section \<open>Lookup\<close>

lemma find_any_order:
  assumes "distinct (map key xs)" "mset xs = mset ys"
  shows "find (\<lambda>x. key x = k) ys = find (\<lambda>x. key x = k) xs"
proof -
  have d: "distinct (map key ys)" using assms by (metis mset_eq_imp_distinct_iff mset_map)
  have eq: "find (\<lambda>x. key x = k) zs = (if \<exists>x \<in> set zs. key x = k then Some (THE x. x \<in> set zs \<and> key x = k) else None)"
    if "distinct (map key zs)" for zs
    using that
  proof (induction zs)
    case (Cons z zs)
    show ?case
    proof (cases "key z = k")
      case True
      have "x = z" if "x \<in> set (z # zs)" "key x = k" for x
        using True Cons.prems that by (metis distinct.simps(2) image_eqI list.set_map list.simps(9) set_ConsD)
      then have "(THE x. x \<in> set (z # zs) \<and> key x = k) = z" using True by (intro the_equality) auto
      with True show ?thesis by simp
    next
      case False
      then have "x \<in> set (z # zs) \<and> key x = k \<longleftrightarrow> x \<in> set zs \<and> key x = k" for x by auto
      with False Cons show ?thesis by simp
    qed
  qed simp
  show ?thesis using eq [OF assms(1)] eq [OF d] mset_eq_setD [OF assms(2)] by simp
qed

lemma cluster_resources_distinct: "distinct (map (\<lambda>e. gv_Resource (fst e)) (clusterResourceGetters env))"
  by (simp add: clusterResourceGetters_def)

lemma namespaced_resources_distinct: "distinct (map (\<lambda>e. gv_Resource (fst e)) (namespacedResourceGetters env))"
  by (simp add: namespacedResourceGetters_def)

text \<open>
  A getter is found by the name of its resource, whatever its group, by a loop over a map. The result does not depend on
  the order in which the loop visits the entries.
\<close>

theorem TryResource_any_order:
  assumes "mset (rg_cluster reg) = mset (clusterResourceGetters env)"
    and "mset (rg_namespaced reg) = mset (namespacedResourceGetters env)"
  shows "TryResource reg clusterScope resource = TryResource (NewResourceGetter env) clusterScope resource"
  unfolding TryResource_def getter_for_def NewResourceGetter_def resource_getter.simps
    find_any_order [OF cluster_resources_distinct assms(1) [symmetric]]
    find_any_order [OF namespaced_resources_distinct assms(2) [symmetric]] ..

lemma getter_for_member: "getter_for getters resource = Some g \<Longrightarrow> g \<in> snd ` set getters"
  by (auto simp: getter_for_def find_Some_iff) (metis nth_mem image_eqI snd_conv)

lemma TryResource_member:
  "TryResource reg clusterScope resource = Some g \<Longrightarrow> g \<in> snd ` set (rg_cluster reg) \<union> snd ` set (rg_namespaced reg)"
  by (auto simp: TryResource_def split: if_splits option.splits dest!: getter_for_member)

section \<open>No kubeconfig is shown\<close>

definition hides :: "kobject \<Rightarrow> bool" where
  "hides x = (case x of Cluster c \<Rightarrow> clo_KubeConfig c = [] | _ \<Rightarrow> True)"

definition safe_getter :: "getter \<Rightarrow> bool" where
  "safe_getter g \<longleftrightarrow>
     (\<forall>namespace name x. gt_Get g namespace name = Inr x \<longrightarrow> hides x) \<and>
     (\<forall>namespace q r. gt_List g namespace q = Listed r \<longrightarrow> (\<forall>y \<in> set (lr_Items r). hides y))"

lemma list_objects_hides:
  assumes "slice_sort (env_Sort env)" "list_objects env fetched q cmp flt ts = Listed r" "y \<in> set (lr_Items r)"
    and "\<And>objects x. fetched = Inr objects \<Longrightarrow> x \<in> set objects \<Longrightarrow> hides (fold (\<lambda>t. t) ts x)"
  shows "hides y"
proof -
  obtain objects where o1: "fetched = Inr objects" "DefaultList (env_Sort env) objects q cmp flt ts = Some r"
    using assms(2) by (auto simp: list_objects_Listed)
  from DefaultList_items [OF assms(1) o1(2)] assms(3)
  have "y \<in> set (filtered_objects objects (qr_Filters q) flt ts)" by blast
  with assms(4) [OF o1(1)] show ?thesis by (auto simp: filtered_objects_def)
qed

lemma map_sum_Inr: "map_sum e f r = Inr y \<longleftrightarrow> (\<exists>x. r = Inr x \<and> y = f x)"
  by (cases r) auto

lemma list_objects_wrapped:
  assumes "slice_sort (env_Sort env)" "\<And>x. hides (wrap x)"
    and "list_objects env (map_sum id (map wrap) fetched) q cmp flt [] = Listed r" "y \<in> set (lr_Items r)"
  shows "hides y"
  by (rule list_objects_hides [OF assms(1,3,4)]) (use assms(2) in \<open>auto simp: map_sum_Inr\<close>)

lemma kind_getter_safe: "slice_sort (env_Sort env) \<Longrightarrow> (\<And>x. hides (wrap x)) \<Longrightarrow> safe_getter (kind_getter env wrap l g n cmp flt)"
  by (auto simp: safe_getter_def kind_getter_def get_object_def fetch_objects_def map_sum_Inr dest: list_objects_wrapped)

lemma hides_wrapped [simp]:
  "hides (Plain k m)" "hides (Binding bk b)" "hides (Helm hk h)" "hides (Deployment a1)" "hides (Job a2)"
  "hides (Application a3)" "hides (DaemonSet a4)" "hides (StatefulSet a5)" "hides (FederatedApplication a6)"
  "hides (FederatedDeployment a7)" "hides (FederatedPVC a8)" "hides (FederatedSecret a9)" "hides (GroupBinding b1)"
  "hides (LoginRecord b2)" "hides (User b3)" "hides (Namespace b4)" "hides (PersistentVolume b5)"
  "hides (PersistentVolumeClaim b6)" "hides (Pod b7)" "hides (Service b8)" "hides (VolumeSnapshot b9)"
  "hides (VolumeSnapshotClass c1)" "hides (VolumeSnapshotContent c2)" "hides (CRD c3)" "hides (Node c4)"
  by (simp_all add: hides_def)

lemma plain_getters_safe:
  assumes "slice_sort (env_Sort env)"
  shows "safe_getter (plain_getter env k a b c)" "safe_getter (notification_getter env k)"
  using assms by (simp_all add: plain_getter_def notification_getter_def kind_getter_safe)

lemma role_List_hides:
  assumes "slice_sort (env_Sort env)" "role_List env k namespace flt q = Listed r" "y \<in> set (lr_Items r)"
  shows "hides y"
  using assms(2)
proof (cases "map_get [] (qr_Filters q) ''aggregateTo'' = []")
  case True
  with assms(2) show ?thesis
    by (auto simp: role_List_def fetch_objects_def intro: list_objects_wrapped [OF assms(1) _ _ assms(3), where wrap = "Plain k"])
next
  case False
  with assms(2) show ?thesis
    by (auto simp: role_List_def intro: list_objects_wrapped [OF assms(1) _ _ assms(3), where wrap = "Plain k"])
qed

lemma role_getters_safe:
  assumes "slice_sort (env_Sort env)"
  shows "safe_getter (rolesGetter env)" "safe_getter (clusterrolesGetter env)" "safe_getter (globalrolesGetter env)"
    "safe_getter (workspacerolesGetter env)"
  using role_List_hides [OF assms]
  by (auto simp: safe_getter_def rolesGetter_def clusterrolesGetter_def globalrolesGetter_def workspacerolesGetter_def
      get_object_def map_sum_Inr)

lemma user_getter_safe:
  assumes "slice_sort (env_Sort env)"
  shows "safe_getter (usersGetter env)"
  unfolding safe_getter_def
proof (intro conjI allI impI ballI)
  show "hides x" if "gt_Get (usersGetter env) namespace name = Inr x" for namespace name x
    using that by (auto simp: usersGetter_def get_object_def map_sum_Inr)
  show "hides y" if listed: "gt_List (usersGetter env) namespace q = Listed r" "y \<in> set (lr_Items r)" for namespace q r y
  proof -
    obtain users q' cmp flt where "list_objects env (map_sum id (map User) users) q' cmp flt [] = Listed r"
      using listed(1) by (auto simp: usersGetter_def user_List_def Let_def split: prod.splits)
    from list_objects_wrapped [OF assms _ this listed(2)] show ?thesis by simp
  qed
qed

lemma wrapped_getters_safe:
  assumes "slice_sort (env_Sort env)"
  shows "safe_getter (workspacerolebindingsGetter env)" "safe_getter (loginrecordsGetter env)"
    "safe_getter (ippoolGetter env)" "safe_getter (persistentVolumeClaimGetter env)"
    "safe_getter (volumeSnapshotClassGetter env)"
  using list_objects_wrapped [OF assms, where wrap = "Binding WorkspaceRoleBindings"]
    list_objects_wrapped [OF assms, where wrap = LoginRecord] list_objects_wrapped [OF assms, where wrap = "Plain IPPoolObj"]
    list_objects_wrapped [OF assms, where wrap = "PersistentVolumeClaim \<circ> annotatePVC env"]
    list_objects_wrapped [OF assms, where wrap = "VolumeSnapshotClass \<circ> annotateSnapshotClass env"]
  by (auto simp: safe_getter_def workspacerolebindingsGetter_def loginrecordsGetter_def ippoolGetter_def ippool_List_def
      persistentVolumeClaimGetter_def volumeSnapshotClassGetter_def get_object_def fetch_objects_def map_sum_Inr)

lemma snapshot_content_getter_safe:
  assumes "slice_sort (env_Sort env)"
  shows "safe_getter (volumesnapshotcontentGetter env)"
  unfolding safe_getter_def
proof (intro conjI allI impI ballI)
  show "hides x" if "gt_Get (volumesnapshotcontentGetter env) namespace name = Inr x" for namespace name x
    using that by (auto simp: volumesnapshotcontentGetter_def get_object_def map_sum_Inr)
  show "hides y" if listed: "gt_List (volumesnapshotcontentGetter env) namespace q = Listed r" "y \<in> set (lr_Items r)"
    for namespace q r y
  proof -
    obtain contents cmp flt where "list_objects env (Inr (map VolumeSnapshotContent contents)) q cmp flt [] = Listed r"
      using listed(1) by (auto simp: volumesnapshotcontentGetter_def snapshot_content_List_def split: sum.splits if_splits)
    then show ?thesis by (rule list_objects_hides [OF assms _ listed(2)]) auto
  qed
qed

lemma node_getter_safe:
  assumes "slice_sort (env_Sort env)"
  shows "safe_getter (nodesGetter env)"
  unfolding safe_getter_def
proof (intro conjI allI impI ballI)
  show "hides x" if "gt_Get (nodesGetter env) namespace name = Inr x" for namespace name x
    using that by (auto simp: nodesGetter_def node_Get_def map_sum_Inr)
  show "hides y" if listed: "gt_List (nodesGetter env) namespace q = Listed r" "y \<in> set (lr_Items r)" for namespace q r y
  proof -
    have "node_List env q = Listed r" using listed(1) by (simp add: nodesGetter_def)
    from node_List_nodes [OF assms this listed(2)] show ?thesis by auto
  qed
qed

lemma cluster_getter_safe:
  assumes "slice_sort (env_Sort env)"
  shows "safe_getter (clustersGetter env)"
  unfolding safe_getter_def
proof (intro conjI allI impI ballI)
  show "hides x" if "gt_Get (clustersGetter env) namespace name = Inr x" for namespace name x
    using clusters_hide_kubeconfig [OF assms, THEN conjunct1, rule_format, OF that] by (auto simp: hides_def)
  show "hides y" if "gt_List (clustersGetter env) namespace q = Listed r" "y \<in> set (lr_Items r)" for namespace q r y
    using clusters_hide_kubeconfig [OF assms, THEN conjunct2, rule_format, OF that] by (auto simp: hides_def)
qed

lemmas getter_defs =
  configmapsGetter_def secretsGetter_def serviceaccountsGetter_def ingressGetter_def networkpolicyGetter_def groupGetter_def
  workspaceGetter_def workspaceTemplateGetter_def devopsGetter_def dashboardGetter_def clusterdashboardGetter_def
  fedConfigMapsGetter_def fedIngressGetter_def fedServiceGetter_def fedStatefulSetGetter_def federatedNamespacesGetter_def
  notificationmanagerGetter_def notificationconfigGetter_def receiverGetter_def routerGetter_def silenceGetter_def
  deploymentsGetter_def daemonSetGetter_def statefulSetGetter_def jobsGetter_def applicationsGetter_def fedApplicationsGetter_def
  fedDeploymentGetter_def fedPersistentVolumeClaimGetter_def fedSecretGetter_def servicesGetter_def podsGetter_def
  persistentVolumeGetter_def volumeSnapshotGetter_def namespacesGetter_def crdGetter_def rolebindingsGetter_def
  clusterrolebindingsGetter_def globalrolebindingsGetter_def groupBindingGetter_def

lemma registry_safe:
  assumes "slice_sort (env_Sort env)"
  shows "\<forall>e \<in> set (clusterResourceGetters env) \<union> set (namespacedResourceGetters env). safe_getter (snd e)"
  by (simp add: clusterResourceGetters_def namespacedResourceGetters_def cluster_getter_safe [OF assms]
      node_getter_safe [OF assms] user_getter_safe [OF assms] role_getters_safe [OF assms] wrapped_getters_safe [OF assms]
      snapshot_content_getter_safe [OF assms] getter_defs kind_getter_safe [OF assms] plain_getters_safe [OF assms])

lemma TryResource_safe:
  assumes "slice_sort (env_Sort env)" "TryResource (NewResourceGetter env) clusterScope resource = Some g"
  shows "safe_getter g"
  using TryResource_member [OF assms(2)] registry_safe [OF assms(1)] by (auto simp: NewResourceGetter_def)

text \<open>
  C29: Whatever resource, namespace, name and parameters a client asks the resource API for, no answer contains a cluster
  with its kubeconfig: neither one object nor any item of a list.
\<close>

theorem kubeconfig_never_shown:
  assumes "slice_sort (env_Sort env)"
  shows "(handleGetResources (NewResourceGetter env) old namespace resource name = Entity (Cluster c) \<longrightarrow> clo_KubeConfig c = []) \<and>
    (handleListResourcesV3 (NewResourceGetter env) old namespace resource ps = Entities r \<longrightarrow>
       Cluster c \<in> set (lr_Items r) \<longrightarrow> clo_KubeConfig c = [])"
proof (intro conjI impI)
  show "clo_KubeConfig c = []" if got: "handleGetResources (NewResourceGetter env) old namespace resource name = Entity (Cluster c)"
  proof -
    obtain g where "TryResource (NewResourceGetter env) (namespace = []) resource = Some g" "gt_Get g namespace name = Inr (Cluster c)"
      using got by (auto simp: handleGetResources_def registry_Get_def old_reply_def map_sum_Inr
          split: sum.splits registry_error.splits old_error.splits option.splits)
    with TryResource_safe [OF assms] show ?thesis by (fastforce simp: safe_getter_def hides_def)
  qed
  show "clo_KubeConfig c = []"
    if listed: "handleListResourcesV3 (NewResourceGetter env) old namespace resource ps = Entities r" "Cluster c \<in> set (lr_Items r)"
  proof -
    obtain g where "TryResource (NewResourceGetter env) (namespace = []) resource = Some g"
        "gt_List g namespace (ParseQueryParameter ps) = Listed r"
      using listed(1) by (auto simp: handleListResourcesV3_def registry_List_def old_reply_def Let_def
          split: sum.splits registry_listing.splits list_outcome.splits old_error.splits option.splits)
    with TryResource_safe [OF assms] listed(2) show ?thesis by (fastforce simp: safe_getter_def hides_def)
  qed
qed

text \<open>
  A login record asked for by name is looked up among the users, and a workspace role binding among the global role
  bindings: the answer is the user or the global role binding of that name, or an internal error when there is none, even
  if the object asked for exists.
\<close>

theorem wrong_kind_returned:
  "handleGetResources (NewResourceGetter env) old [] ''loginrecords'' name =
     (case li_Get (inf_Users env) [] name of Inl _ \<Rightarrow> ErrorStatus 500 | Inr u \<Rightarrow> Entity (User u)) \<and>
   handleGetResources (NewResourceGetter env) old [] ''workspacerolebindings'' name =
     (case li_Get (inf_Bindings env GlobalRoleBindings) [] name of
        Inl _ \<Rightarrow> ErrorStatus 500 | Inr b \<Rightarrow> Entity (Binding GlobalRoleBindings b))"
proof -
  have "TryResource (NewResourceGetter env) True ''loginrecords'' = Some (loginrecordsGetter env)"
    and "TryResource (NewResourceGetter env) True ''workspacerolebindings'' = Some (workspacerolebindingsGetter env)"
    by (simp_all add: TryResource_def getter_for_def NewResourceGetter_def clusterResourceGetters_def)
  then show ?thesis
    by (simp add: handleGetResources_def registry_Get_def loginrecordsGetter_def workspacerolebindingsGetter_def
        get_object_def split: sum.splits)
qed

text \<open>
  A secret for an image registry that does not exist is answered with 404, and then the handler goes on: it asks the
  registry anonymously and writes a second answer.
\<close>

lemma missing_secret_ignored:
  assumes "secretName \<noteq> []" "registry_Get reg ''secrets'' namespace secretName = Inl (Failed NotFound)"
  shows "handleGetImageConfig reg rh namespace secretName imageName =
    Some [Refused 404, canonicalizeRegistryError (rh_Config rh None imageName)]"
  by (simp add: handleGetImageConfig_def image_secret_def assms)

section \<open>Witnesses\<close>

definition no_old_resources :: "unit old_resources" where
  "no_old_resources = \<lparr>old_Get = (\<lambda>_ _ _. Inl OldNotSupported), old_List = (\<lambda>_ _ _ _ _ _ _. Inl OldNotSupported)\<rparr>"

definition demo_cluster_object :: "string \<Rightarrow> cluster_object" where
  "demo_cluster_object kubeconfig = \<lparr>clo_Meta = (demo_meta ''member'')\<lparr>lm_Namespace := []\<rparr>, clo_KubeConfig = kubeconfig\<rparr>"

definition clusters_env :: resource_env where
  "clusters_env = empty_env\<lparr>inf_Clusters := store_lister clo_Meta [demo_cluster_object ''secret'']\<rparr>"

theorem kubeconfig_never_shown_witness:
  "handleGetResources (NewResourceGetter clusters_env) no_old_resources [] ''clusters'' ''member'' =
     Entity (Cluster (demo_cluster_object [])) \<and> clo_KubeConfig (demo_cluster_object []) = []"
proof -
  have sorts: "slice_sort (env_Sort clusters_env)"
    using insertion.slice_sort_axioms by (simp add: clusters_env_def empty_env_def)
  have "TryResource (NewResourceGetter clusters_env) True ''clusters'' = Some (clustersGetter clusters_env)"
    by (simp add: TryResource_def getter_for_def NewResourceGetter_def clusterResourceGetters_def)
  then have got: "handleGetResources (NewResourceGetter clusters_env) no_old_resources [] ''clusters'' ''member'' =
      Entity (Cluster (demo_cluster_object []))"
    by (simp add: handleGetResources_def registry_Get_def clustersGetter_def get_object_def clusters_env_def store_lister_def
        demo_cluster_object_def demo_meta_def cluster_transform_def)
  with kubeconfig_never_shown [OF sorts, THEN conjunct1, rule_format, OF got] show ?thesis by blast
qed

end
