(* ===== verification/Tenant.thy ===== *)
theory Tenant
  imports Access_Management Resource_Registry
begin

text \<open>
  What a tenant sees (\<^verbatim>\<open>pkg/models/tenant/tenant.go\<close>, \<^verbatim>\<open>devops.go\<close>): listings of workspaces, templates, namespaces,
  DevOps projects and clusters. A user who may list a kind in the scope asked for is shown all of it by the resource
  registry; every other user is shown what the bindings of that user lead to, and clusters by an annotation of the
  account.

  The authorizer and the access management operator are the interfaces of theories \<open>Authorizer\<close> and \<open>Rbac\<close>, the
  resource getters those of theory \<open>Resource_Registry\<close>. Two objects that the getters return are the same pointer
  exactly when they are the same object of the informer; objects are values here, and the objects of one kind differ in
  their names. What the informer holds of a template beyond its metadata is a function of its name.
\<close>

section \<open>State and results\<close>

record placement =
  pl_Clusters :: "string list option"
  pl_ClusterSelector :: "(string, string) gomap option option" \<comment> \<open>the selector, and its labels\<close>

record tenant_operator =
  to_am :: am_interface
  to_authorizer :: authorizer
  to_env :: resource_env
  to_Placement :: "string \<Rightarrow> placement"
  to_Finalizers :: "string \<Rightarrow> string list"

datatype tenant_error = Message string | Registry registry_error

abbreviation tenant_NotFound :: tenant_error where "tenant_NotFound \<equiv> Registry (Failed NotFound)"

datatype tenant_outcome = TenantListed "kobject list_result" | TenantFailed tenant_error | TenantPanics

definition registry_error_text :: "registry_error \<Rightarrow> string" where
  "registry_error_text e = (case e of ResourceNotSupported \<Rightarrow> ''resource is not supported'' | Failed err \<Rightarrow> error_message err)"

definition tenant_Get :: "tenant_operator \<Rightarrow> string \<Rightarrow> string \<Rightarrow> string \<Rightarrow> (registry_error, kobject) result" where
  "tenant_Get t resource namespace name = registry_Get (NewResourceGetter (to_env t)) resource namespace name"

definition tenant_List :: "tenant_operator \<Rightarrow> string \<Rightarrow> query \<Rightarrow> tenant_outcome" where
  "tenant_List t resource q =
     (case registry_List (NewResourceGetter (to_env t)) resource [] q of
        NotSupported \<Rightarrow> TenantFailed (Registry ResourceNotSupported)
      | Listing (Listed r) \<Rightarrow> TenantListed r
      | Listing (ListFailed e) \<Rightarrow> TenantFailed (Registry (Failed e))
      | Listing ListPanics \<Rightarrow> TenantPanics)"

definition New_query :: query where
  "New_query = \<lparr>qr_Pagination = Some NoPagination, qr_SortBy = [], qr_Ascending = False, qr_Filters = [], qr_LabelSelector = []\<rparr>"

text \<open>The attributes of a resource request; what is not given is empty.\<close>

definition request_attributes :: "user_info \<Rightarrow> string \<Rightarrow> string \<Rightarrow> string \<Rightarrow> attributes" where
  "request_attributes user verb resource scope =
     \<lparr>a_User = user, a_Verb = verb, a_Cluster = [], a_Workspace = [], a_Namespace = [], a_DevOps = [], a_APIGroup = [],
      a_APIVersion = [], a_Resource = resource, a_Subresource = [], a_Name = [], a_KubernetesRequest = False,
      a_ResourceRequest = True, a_Path = [], a_ResourceScope = scope\<rparr>"

section \<open>Objects that bindings lead to\<close>

definition contains :: "kobject list \<Rightarrow> kobject \<Rightarrow> bool" where
  "contains objects object = list_ex (\<lambda>item. item = object) objects"

text \<open>What one binding adds: nothing, an object, or the end of the listing.\<close>

datatype fetched = Skip | Fetched kobject | FetchFailed tenant_error | FetchPanics

fun collect_bound :: "(role_binding \<Rightarrow> fetched) \<Rightarrow> role_binding list \<Rightarrow> kobject list \<Rightarrow> (tenant_error option, kobject list) result" where
  "collect_bound fetch [] objects = Inr objects"
| "collect_bound fetch (b # bs) objects =
     (case fetch b of
        Skip \<Rightarrow> collect_bound fetch bs objects
      | FetchFailed e \<Rightarrow> Inl (Some e)
      | FetchPanics \<Rightarrow> Inl None
      | Fetched x \<Rightarrow> collect_bound fetch bs (if contains objects x then objects else objects @ [x]))"

text \<open>Reading the object a binding leads to; an object of another kind fails the type assertion.\<close>

definition fetch_bound ::
  "tenant_operator \<Rightarrow> bool \<Rightarrow> selector \<Rightarrow> (kobject \<Rightarrow> list_meta option) \<Rightarrow> string \<Rightarrow> string \<Rightarrow> string \<Rightarrow> fetched" where
  "fetch_bound t skipMissing sel view resource namespace name =
     (case tenant_Get t resource namespace name of
        Inl e \<Rightarrow> if skipMissing \<and> e = Failed NotFound then Skip else FetchFailed (Registry e)
      | Inr obj \<Rightarrow>
          (case view obj of
             None \<Rightarrow> FetchPanics
           | Some meta \<Rightarrow> if sel (lm_Labels meta) then Fetched obj else Skip))"

definition page_of_objects :: "tenant_operator \<Rightarrow> kobject list \<Rightarrow> query \<Rightarrow> tenant_outcome" where
  "page_of_objects t objects q =
     (case DefaultList (env_Sort (to_env t)) objects q (\<lambda>l r. DefaultObjectMetaCompare (object_meta l) (object_meta r))
             (\<lambda>x. meta_filter (to_env t) (object_meta x)) [] of
        None \<Rightarrow> TenantPanics
      | Some r \<Rightarrow> TenantListed r)"

text \<open>The way every listing goes: all objects when that is allowed, else those of the bindings.\<close>

definition list_allowed_or_bound ::
  "tenant_operator \<Rightarrow> attributes \<Rightarrow> string \<Rightarrow> query \<Rightarrow> (string, role_binding list) result \<Rightarrow> (role_binding \<Rightarrow> fetched) \<Rightarrow>
   tenant_outcome" where
  "list_allowed_or_bound t attrs resource q bindings fetch =
     (case to_authorizer t attrs of
        (_, _, Some err) \<Rightarrow> TenantFailed (Message err)
      | (decision, _, None) \<Rightarrow>
          if decision = DecisionAllow then tenant_List t resource q
          else
            (case bindings of
               Inl err \<Rightarrow> TenantFailed (Message err)
             | Inr bs \<Rightarrow>
                 (case collect_bound fetch bs [] of
                    Inl None \<Rightarrow> TenantPanics
                  | Inl (Some e) \<Rightarrow> TenantFailed e
                  | Inr objects \<Rightarrow> page_of_objects t objects q)))"

section \<open>Workspaces and templates\<close>

definition list_workspaces_attributes :: "user_info \<Rightarrow> attributes" where
  "list_workspaces_attributes user = (request_attributes user ''list'' ''workspaces'' GlobalScope)\<lparr>a_APIGroup := ''*''\<rparr>"

definition workspace_bindings :: "tenant_operator \<Rightarrow> user_info \<Rightarrow> (string, role_binding list) result" where
  "workspace_bindings t user = ListWorkspaceRoleBindings (to_am t) (u_Name user) (u_Groups user) []"

definition namespace_bindings :: "tenant_operator \<Rightarrow> user_info \<Rightarrow> (string, role_binding list) result" where
  "namespace_bindings t user = ListRoleBindings (to_am t) (u_Name user) (u_Groups user) []"

definition ListWorkspaces :: "tenant_operator \<Rightarrow> user_info \<Rightarrow> query \<Rightarrow> tenant_outcome" where
  "ListWorkspaces t user q =
     list_allowed_or_bound t (list_workspaces_attributes user) ''workspaces'' q (workspace_bindings t user)
       (\<lambda>b. fetch_bound t True (query_Selector (to_env t) q) (as_Plain Workspace) ''workspaces'' []
              (map_get [] (b_Labels b) WorkspaceLabel))"

definition ListWorkspaceTemplates :: "tenant_operator \<Rightarrow> user_info \<Rightarrow> query \<Rightarrow> tenant_outcome" where
  "ListWorkspaceTemplates t user q =
     list_allowed_or_bound t (list_workspaces_attributes user) ''workspacetemplates'' q (workspace_bindings t user)
       (\<lambda>b. fetch_bound t True (query_Selector (to_env t) q) (as_Plain WorkspaceTemplate) ''workspacetemplates'' []
              (map_get [] (b_Labels b) WorkspaceLabel))"

text \<open>A value, an error or a panic of a type assertion, the latter as \<^const>\<open>None\<close>.\<close>

definition read_as :: "(kobject \<Rightarrow> 'o option) \<Rightarrow> (registry_error, kobject) result \<Rightarrow> (tenant_error, 'o) result option" where
  "read_as view r =
     (case r of
        Inl e \<Rightarrow> Some (Inl (Registry e))
      | Inr obj \<Rightarrow> map_option Inr (view obj))"

definition GetWorkspace :: "tenant_operator \<Rightarrow> string \<Rightarrow> (tenant_error, list_meta) result option" where
  "GetWorkspace t workspace = read_as (as_Plain Workspace) (tenant_Get t ''workspaces'' [] workspace)"

definition DescribeWorkspaceTemplate :: "tenant_operator \<Rightarrow> string \<Rightarrow> (tenant_error, list_meta) result option" where
  "DescribeWorkspaceTemplate t workspace = read_as (as_Plain WorkspaceTemplate) (tenant_Get t ''workspacetemplates'' [] workspace)"

section \<open>Namespaces and DevOps projects\<close>

definition as_NamespaceMeta :: "kobject \<Rightarrow> list_meta option" where
  "as_NamespaceMeta obj = map_option nsp_Meta (as_Namespace obj)"

text \<open>A listing for a workspace is filtered by its label, whatever label filter the request has.\<close>

definition query_in_workspace :: "string \<Rightarrow> query \<Rightarrow> query" where
  "query_in_workspace workspace q =
     (if workspace = [] then q
      else q\<lparr>qr_Filters := AList.update ''label'' (WorkspaceLabel @ ''='' @ workspace) (qr_Filters q)\<rparr>)"

definition list_in_workspace_attributes :: "user_info \<Rightarrow> string \<Rightarrow> string \<Rightarrow> attributes" where
  "list_in_workspace_attributes user resource workspace =
     (request_attributes user ''list'' resource (if workspace = [] then ClusterScope else WorkspaceScope))\<lparr>a_Workspace := workspace\<rparr>"

definition ListFederatedNamespaces :: "tenant_operator \<Rightarrow> user_info \<Rightarrow> string \<Rightarrow> query \<Rightarrow> tenant_outcome" where
  "ListFederatedNamespaces t user workspace q =
     (let q' = query_in_workspace workspace q
      in list_allowed_or_bound t (list_in_workspace_attributes user ''namespaces'' workspace) ''federatednamespaces'' q'
           (namespace_bindings t user)
           (\<lambda>b. fetch_bound t True (query_Selector (to_env t) q') (as_Plain FederatedNamespace) ''federatednamespaces''
                  (b_Namespace b) (b_Namespace b)))"

definition ListNamespaces :: "tenant_operator \<Rightarrow> user_info \<Rightarrow> string \<Rightarrow> query \<Rightarrow> tenant_outcome" where
  "ListNamespaces t user workspace q =
     (let q' = query_in_workspace workspace q
      in list_allowed_or_bound t (list_in_workspace_attributes user ''namespaces'' workspace) ''namespaces'' q'
           (namespace_bindings t user)
           (\<lambda>b. fetch_bound t False (query_Selector (to_env t) q') as_NamespaceMeta ''namespaces'' [] (b_Namespace b)))"

abbreviation DevOpsProjectLabelKey :: string where "DevOpsProjectLabelKey \<equiv> ''kubesphere.io/devopsproject''"

text \<open>The project that controls the namespace of a binding.\<close>

definition devops_bound :: "tenant_operator \<Rightarrow> role_binding \<Rightarrow> fetched" where
  "devops_bound t b =
     (case tenant_Get t ''namespaces'' [] (b_Namespace b) of
        Inl e \<Rightarrow> FetchFailed (Registry e)
      | Inr obj \<Rightarrow>
          (case as_NamespaceMeta obj of
             None \<Rightarrow> FetchPanics
           | Some meta \<Rightarrow>
               (let controlled = map_get [] (lm_Labels meta) DevOpsProjectLabelKey
                in if controlled = [] then Skip
                   else fetch_bound t True Everything (as_Plain DevOpsProject) ''devopsprojects'' [] controlled)))"

definition ListDevOpsProjects :: "tenant_operator \<Rightarrow> user_info \<Rightarrow> string \<Rightarrow> query \<Rightarrow> tenant_outcome" where
  "ListDevOpsProjects t user workspace q =
     list_allowed_or_bound t (list_in_workspace_attributes user ''devops'' workspace) ''devopsprojects'' (query_in_workspace workspace q)
       (namespace_bindings t user) (devops_bound t)"

section \<open>Clusters\<close>

text \<open>The clusters that are chosen by name, those that do not exist left out.\<close>

fun fetch_clusters :: "tenant_operator \<Rightarrow> string list \<Rightarrow> (registry_error, kobject list) result" where
  "fetch_clusters t [] = Inr []"
| "fetch_clusters t (name # names) =
     (case tenant_Get t ''clusters'' [] name of
        Inl e \<Rightarrow> if e = Failed NotFound then fetch_clusters t names else Inl e
      | Inr obj \<Rightarrow> (case fetch_clusters t names of Inl e \<Rightarrow> Inl e | Inr objs \<Rightarrow> Inr (obj # objs)))"

definition ListWorkspaceClusters :: "tenant_operator \<Rightarrow> string \<Rightarrow> tenant_outcome" where
  "ListWorkspaceClusters t workspaceName =
     (case DescribeWorkspaceTemplate t workspaceName of
        None \<Rightarrow> TenantPanics
      | Some (Inl e) \<Rightarrow> TenantFailed e
      | Some (Inr _) \<Rightarrow>
          (let p = to_Placement t workspaceName
           in case pl_Clusters p of
                Some names \<Rightarrow>
                  (case fetch_clusters t names of
                     Inl e \<Rightarrow> TenantFailed (Registry e)
                   | Inr clusters \<Rightarrow> TenantListed \<lparr>lr_TotalItems = length clusters, lr_Items = clusters\<rparr>)
              | None \<Rightarrow>
                  (case pl_ClusterSelector p of
                     Some None \<Rightarrow> tenant_List t ''clusters'' New_query
                   | Some (Some labels) \<Rightarrow>
                       tenant_List t ''clusters'' (New_query\<lparr>qr_LabelSelector := env_SelectorString (to_env t) labels\<rparr>)
                   | None \<Rightarrow> TenantListed \<lparr>lr_TotalItems = 0, lr_Items = []\<rparr>)))"

abbreviation GrantedClustersAnnotation :: string where "GrantedClustersAnnotation \<equiv> ''iam.kubesphere.io/granted-clusters''"

text \<open>The account of a user, of which the password is blanked.\<close>

definition DescribeUser :: "tenant_operator \<Rightarrow> string \<Rightarrow> (api_error, user_object) result option" where
  "DescribeUser t username =
     (case gt_Get (usersGetter (to_env t)) [] username of
        Inl e \<Rightarrow> Some (Inl e)
      | Inr obj \<Rightarrow> map_option Inr (as_User obj))"

definition grantedClusters :: "user_object \<Rightarrow> string list" where
  "grantedClusters u =
     (let annotation = map_get [] (lm_Annotations (usr_Meta u)) GrantedClustersAnnotation
      in if annotation = [] then [] else sort (remdups (SplitChar (CHR '','') annotation)))"

definition list_clusters_attributes :: "user_info \<Rightarrow> attributes" where
  "list_clusters_attributes user = (request_attributes user ''list'' ''clusters'' GlobalScope)\<lparr>a_APIGroup := ''cluster.kubesphere.io''\<rparr>"

definition ListClusters :: "tenant_operator \<Rightarrow> user_info \<Rightarrow> query \<Rightarrow> tenant_outcome" where
  "ListClusters t user q =
     (case to_authorizer t (list_clusters_attributes user) of
        (_, _, Some err) \<Rightarrow> TenantFailed (Message (''failed to authorize: '' @ err))
      | (decision, _, None) \<Rightarrow>
          if decision = DecisionAllow then tenant_List t ''clusters'' q
          else
            (case DescribeUser t (u_Name user) of
               None \<Rightarrow> TenantPanics
             | Some (Inl e) \<Rightarrow> TenantFailed (Message (''failed to describe user: '' @ error_message e))
             | Some (Inr userDetail) \<Rightarrow>
                 (case fetch_clusters t (grantedClusters userDetail) of
                    Inl e \<Rightarrow> TenantFailed (Message (''failed to fetch cluster: '' @ registry_error_text e))
                  | Inr clusters \<Rightarrow>
                      page_of_objects t clusters
                        (if qr_LabelSelector q = [] then q
                         else q\<lparr>qr_Filters := AList.update ''label'' (qr_LabelSelector q) (qr_Filters q)\<rparr>))))"

section \<open>What the getters of these kinds return\<close>

lemmas tenant_getters =
  namespacesGetter_def workspaceGetter_def workspaceTemplateGetter_def devopsGetter_def federatedNamespacesGetter_def
  plain_getter_def kind_getter_def get_object_def

lemma tenant_Get_namespaces:
  "tenant_Get t ''namespaces'' [] name = map_sum Failed Namespace (li_Get (inf_Namespaces (to_env t)) [] name)"
  by (simp add: tenant_Get_def registry_Get_def TryResource_def NewResourceGetter_def getter_for_def clusterResourceGetters_def
      tenant_getters sum.map_comp comp_def)

lemma tenant_Get_workspaces:
  "tenant_Get t ''workspaces'' [] name = map_sum Failed (Plain Workspace) (li_Get (inf_Plain (to_env t) Workspace) [] name)"
  by (simp add: tenant_Get_def registry_Get_def TryResource_def NewResourceGetter_def getter_for_def clusterResourceGetters_def
      tenant_getters sum.map_comp comp_def)

lemma registry_List_namespaces:
  "registry_List (NewResourceGetter env) ''namespaces'' [] q =
   Listing (list_objects env (fetch_objects env Namespace (inf_Namespaces env) [] q) q
     (compare_as as_Namespace True (meta_compare nsp_Meta)) (filter_as as_Namespace (namespace_filter env)) [])"
  by (simp add: registry_List_def TryResource_def NewResourceGetter_def getter_for_def clusterResourceGetters_def
      tenant_getters)

section \<open>Collecting\<close>

lemma contains_iff [simp]: "contains objects x \<longleftrightarrow> x \<in> set objects"
  by (auto simp: contains_def list_ex_iff)

lemma collect_bound_Inr:
  "collect_bound fetch bs objects = Inr r \<Longrightarrow>
   set r = set objects \<union> {x. \<exists>b \<in> set bs. fetch b = Fetched x} \<and> (distinct objects \<longrightarrow> distinct r)"
proof (induction bs arbitrary: objects)
  case (Cons b bs)
  then show ?case by (cases "fetch b") (auto split: if_splits)
qed simp

lemma collect_bound_total:
  "\<forall>b \<in> set bs. fetch b = Skip \<or> (\<exists>x. fetch b = Fetched x) \<Longrightarrow> \<exists>r. collect_bound fetch bs objects = Inr r"
  by (induction bs arbitrary: objects) (auto split: fetched.splits)

lemma page_of_objects_items:
  assumes "slice_sort (env_Sort (to_env t))" "page_of_objects t objects q = TenantListed r"
  shows "set (lr_Items r) \<subseteq> {x \<in> set objects. matching (qr_Filters q) (\<lambda>x. meta_filter (to_env t) (object_meta x)) x}"
  using assms(2) DefaultList_items [OF assms(1)]
  by (fastforce simp: page_of_objects_def filtered_objects_plain split: option.splits)

lemma list_allowed_or_bound_Listed:
  assumes "list_allowed_or_bound t attrs resource q bindings fetch = TenantListed r"
  shows "(fst (to_authorizer t attrs) = DecisionAllow \<and> tenant_List t resource q = TenantListed r) \<or>
    (\<exists>bs objects. bindings = Inr bs \<and> collect_bound fetch bs [] = Inr objects \<and> page_of_objects t objects q = TenantListed r)"
  using assms unfolding list_allowed_or_bound_def
  by (simp split: prod.splits option.splits if_splits sum.splits)

lemma fetch_bound_Fetched:
  "fetch_bound t skip sel view resource namespace name = Fetched x \<longleftrightarrow>
   tenant_Get t resource namespace name = Inr x \<and> (\<exists>meta. view x = Some meta \<and> sel (lm_Labels meta))"
  by (auto simp: fetch_bound_def split: sum.splits option.splits if_splits)

section \<open>Which namespaces a tenant sees\<close>

lemma update_member: "(k, v) \<in> set (AList.update k v xs)"
  by (induction xs) auto

lemma query_in_workspace_matching:
  assumes "matching (qr_Filters (query_in_workspace workspace q)) flt x" "workspace \<noteq> []"
  shows "flt x (''label'', WorkspaceLabel @ ''='' @ workspace)"
  using assms update_member by (fastforce simp: query_in_workspace_def matching_def)

lemma label_filter_workspace:
  assumes "env_Parse env (WorkspaceLabel @ ''='' @ workspace) = Some (SelectorFromSet [(WorkspaceLabel, workspace)])"
    and "meta_filter env meta (''label'', WorkspaceLabel @ ''='' @ workspace)"
  shows "map_get [] (lm_Labels meta) WorkspaceLabel = workspace"
  using assms by (simp add: DefaultObjectMetaFilter_def labelMatch_def SelectorFromSet_def map_get_def)

lemma listed_namespaces_match:
  assumes "slice_sort (env_Sort (to_env t))" "tenant_List t ''namespaces'' q = TenantListed r" "x \<in> set (lr_Items r)"
  shows "\<exists>n. x = Namespace n \<and> matching (qr_Filters q) (namespace_filter (to_env t)) n"
proof -
  obtain objects where r: "DefaultList (env_Sort (to_env t)) (map Namespace objects) q
      (compare_as as_Namespace True (meta_compare nsp_Meta)) (filter_as as_Namespace (namespace_filter (to_env t))) [] = Some r"
    using assms(2)
    by (auto simp: tenant_List_def registry_List_namespaces list_objects_def fetch_objects_def map_sum_Inr
        split: list_outcome.splits sum.splits option.splits)
  have "x \<in> set (filter (matching (qr_Filters q) (filter_as as_Namespace (namespace_filter (to_env t)))) (map Namespace objects))"
    using DefaultList_items [OF assms(1) r] assms(3) by (simp only: filtered_objects_plain) blast
  then show ?thesis by (auto simp: matching_def filter_as_def as_Namespace_def)
qed

text \<open>
  C8: Every namespace that a listing shows to a user is justified. Either the user is allowed to list the namespaces of the
  scope that was asked for, by the roles the authorizer finds; or a role binding in that very namespace names the user or a
  group of the user. When the listing is for a workspace, the namespace belongs to it in either case, whatever filters
  the request has.
\<close>

theorem tenant_namespaces_justified:
  assumes operator: "to_am t = am_of am" "to_authorizer t = Authorize rego (am_of am)"
    and env: "slice_sort (env_Sort (to_env t))"
      "env_Parse (to_env t) (WorkspaceLabel @ ''='' @ workspace) = Some (SelectorFromSet [(WorkspaceLabel, workspace)])"
      "\<forall>name n. li_Get (inf_Namespaces (to_env t)) [] name = Inr n \<longrightarrow> lm_Name (nsp_Meta n) = name"
    and listed: "ListNamespaces t user workspace q = TenantListed r" "x \<in> set (lr_Items r)"
  shows "\<exists>n. x = Namespace n \<and>
    (workspace \<noteq> [] \<longrightarrow> map_get [] (lm_Labels (nsp_Meta n)) WorkspaceLabel = workspace) \<and>
    (fst (Authorize rego (am_of am) (list_in_workspace_attributes user ''namespaces'' workspace)) = DecisionAllow \<or>
     (\<exists>bs b. roleBindingGetter am [] = Inr bs \<and> b \<in> set bs \<and> b_Namespace b = lm_Name (nsp_Meta n) \<and>
        contains_subject (b_Subjects b) (u_Name user) (u_Groups user)))"
proof -
  let ?q = "query_in_workspace workspace q"
  let ?allowed = "fst (Authorize rego (am_of am) (list_in_workspace_attributes user ''namespaces'' workspace)) = DecisionAllow"
  consider (all) "?allowed" "tenant_List t ''namespaces'' ?q = TenantListed r"
    | (bound) bs objects where "namespace_bindings t user = Inr bs"
        "collect_bound (\<lambda>b. fetch_bound t False (query_Selector (to_env t) ?q) as_NamespaceMeta ''namespaces'' [] (b_Namespace b)) bs [] = Inr objects"
        "page_of_objects t objects ?q = TenantListed r"
    using list_allowed_or_bound_Listed [OF listed(1) [unfolded ListNamespaces_def Let_def]] operator(2) by auto
  then show ?thesis
  proof cases
    case all
    obtain n where n: "x = Namespace n" "matching (qr_Filters ?q) (namespace_filter (to_env t)) n"
      using listed_namespaces_match [OF env(1) all(2) listed(2)] by blast
    have "map_get [] (lm_Labels (nsp_Meta n)) WorkspaceLabel = workspace" if "workspace \<noteq> []"
      using query_in_workspace_matching [OF n(2) that] label_filter_workspace [OF env(2)] by (simp add: namespace_filter_def)
    with n(1) all(1) show ?thesis by blast
  next
    case bound
    have x: "x \<in> set objects" "matching (qr_Filters ?q) (\<lambda>x. meta_filter (to_env t) (object_meta x)) x"
      using page_of_objects_items [OF env(1) bound(3)] listed(2) by blast+
    obtain b n where b: "b \<in> set bs" "li_Get (inf_Namespaces (to_env t)) [] (b_Namespace b) = Inr n" "x = Namespace n"
      using collect_bound_Inr [OF bound(2)] x(1)
      by (auto simp: fetch_bound_Fetched tenant_Get_namespaces map_sum_Inr)
    have "map_get [] (lm_Labels (nsp_Meta n)) WorkspaceLabel = workspace" if "workspace \<noteq> []"
      using query_in_workspace_matching [OF x(2) that] label_filter_workspace [OF env(2)] b(3) by simp
    moreover have "b_Namespace b = lm_Name (nsp_Meta n)" using env(3) b(2) by simp
    moreover have "\<exists>all. roleBindingGetter am [] = Inr all \<and> b \<in> set all \<and>
        contains_subject (b_Subjects b) (u_Name user) (u_Groups user)"
      using bound(1) b(1) by (auto simp: namespace_bindings_def operator(1) am_of_def am_ListRoleBindings_def split: sum.splits)
    ultimately show ?thesis using b(3) by blast
  qed
qed

section \<open>Which workspaces a tenant sees\<close>

lemma collect_bound_length: "collect_bound fetch bs objects = Inr r \<Longrightarrow> length r \<le> length objects + length bs"
proof (induction bs arbitrary: objects)
  case (Cons b bs)
  show ?case
  proof (cases "fetch b")
    case (Fetched x)
    with Cons.prems have "length r \<le> length (if contains objects x then objects else objects @ [x]) + length bs"
      by (intro Cons.IH) simp
    then show ?thesis by (simp split: if_splits)
  qed (use Cons in fastforce)+
qed simp

lemma list_refused:
  assumes "fst (to_authorizer t attrs) \<noteq> DecisionAllow" "snd (snd (to_authorizer t attrs)) = None"
  shows "list_allowed_or_bound t attrs resource q (Inr bs) fetch =
    (case collect_bound fetch bs [] of
       Inl None \<Rightarrow> TenantPanics
     | Inl (Some e) \<Rightarrow> TenantFailed e
     | Inr objects \<Rightarrow> page_of_objects t objects q)"
  using assms by (cases "to_authorizer t attrs") (simp add: list_allowed_or_bound_def)

lemma bound_listing:
  assumes "slice_sort (env_Sort (to_env t))" "fits bs" "\<not> page_overflows q"
    and "fst (to_authorizer t attrs) \<noteq> DecisionAllow" "snd (snd (to_authorizer t attrs)) = None"
    and ok: "\<forall>b \<in> set bs. fetch b = Skip \<or> (\<exists>x. fetch b = Fetched x)"
  shows "\<exists>r all. list_allowed_or_bound t attrs resource q (Inr bs) fetch = TenantListed r \<and>
    lr_Items r = page_items q all \<and> lr_TotalItems r = length all \<and> distinct all \<and>
    set all = {x. (\<exists>b \<in> set bs. fetch b = Fetched x) \<and>
      matching (qr_Filters q) (\<lambda>x. meta_filter (to_env t) (object_meta x)) x}"
proof -
  let ?match = "matching (qr_Filters q) (\<lambda>x. meta_filter (to_env t) (object_meta x))"
  obtain objects where o: "collect_bound fetch bs [] = Inr objects" using collect_bound_total [OF ok] by blast
  have objs: "set objects = {x. \<exists>b \<in> set bs. fetch b = Fetched x}" "distinct objects"
    using collect_bound_Inr [OF o] by simp_all
  have "fits objects" using collect_bound_length [OF o] assms(2) by (simp add: fits_def)
  from DefaultList_listed [OF assms(1) this assms(3), of "\<lambda>l r. DefaultObjectMetaCompare (object_meta l) (object_meta r)"
      "\<lambda>x. meta_filter (to_env t) (object_meta x)" "[]"]
  obtain r all where r: "page_of_objects t objects q = TenantListed r" "mset all = mset (filter ?match objects)"
      "lr_Items r = page_items q all" "lr_TotalItems r = length all"
    by (auto simp: page_of_objects_def filtered_objects_plain)
  have "distinct all" using mset_eq_imp_distinct_iff [OF r(2)] objs(2) by simp
  moreover have "set all = set (filter ?match objects)" using r(2) by (rule mset_eq_setD)
  moreover have "list_allowed_or_bound t attrs resource q (Inr bs) fetch = TenantListed r"
    using list_refused [OF assms(4,5)] o r(1) by simp
  ultimately show ?thesis using objs(1) r(3,4) by (intro exI [of _ r] exI [of _ all]) auto
qed

lemma workspace_fetched:
  "fetch_bound t True sel (as_Plain Workspace) ''workspaces'' [] name = Fetched x \<longleftrightarrow>
   (\<exists>w. li_Get (inf_Plain (to_env t) Workspace) [] name = Inr w \<and> x = Plain Workspace w \<and> sel (lm_Labels w))"
  by (auto simp: fetch_bound_Fetched tenant_Get_workspaces map_sum_Inr as_Plain_def)

text \<open>
  C31: A user who may not list all workspaces is shown exactly those that exist and that a workspace role binding of the user
  or of a group of the user names, restricted by the selector and the filters of the request, each of them once. Bindings to
  workspaces that do not exist do no harm. The answer carries their number and the page of them that the query asks for:
  all of them when the request gives no limit. It is assumed that looking up a workspace fails only because it does not
  exist, that the bindings fit a slice and that the end of the page fits an integer.
\<close>

theorem tenant_workspaces_listed:
  assumes operator: "to_am t = am_of am" "to_authorizer t = Authorize rego (am_of am)"
    and env: "slice_sort (env_Sort (to_env t))"
      "\<forall>name e. li_Get (inf_Plain (to_env t) Workspace) [] name = Inl e \<longrightarrow> e = NotFound"
    and "fst (Authorize rego (am_of am) (list_workspaces_attributes user)) \<noteq> DecisionAllow"
    and bs: "workspaceRoleBindingGetter am [] = Inr bs" "fits bs" and "\<not> page_overflows q"
  shows "\<exists>r all. ListWorkspaces t user q = TenantListed r \<and> lr_Items r = page_items q all \<and>
    (unlimited q \<longrightarrow> lr_Items r = all) \<and> lr_TotalItems r = length all \<and> distinct all \<and>
    set all = {Plain Workspace w | w b. b \<in> set bs \<and>
      contains_subject (b_Subjects b) (u_Name user) (u_Groups user) \<and>
      li_Get (inf_Plain (to_env t) Workspace) [] (map_get [] (b_Labels b) WorkspaceLabel) = Inr w \<and>
      query_Selector (to_env t) q (lm_Labels w) \<and> matching (qr_Filters q) (meta_filter (to_env t)) w}"
proof -
  let ?mine = "filter (\<lambda>b. contains_subject (b_Subjects b) (u_Name user) (u_Groups user)) bs"
  let ?fetch = "\<lambda>b. fetch_bound t True (query_Selector (to_env t) q) (as_Plain Workspace) ''workspaces'' []
    (map_get [] (b_Labels b) WorkspaceLabel)"
  have bindings: "workspace_bindings t user = Inr ?mine"
    using bs by (simp add: workspace_bindings_def operator(1) am_of_def as_message_def am_ListWorkspaceRoleBindings_def)
  have "\<forall>b \<in> set ?mine. ?fetch b = Skip \<or> (\<exists>x. ?fetch b = Fetched x)"
    using env(2) by (auto simp: fetch_bound_def tenant_Get_workspaces as_Plain_def map_sum_def split: sum.splits option.splits kobject.splits)
  moreover have "fits ?mine" by (rule fits_filter [OF bs(2)])
  moreover have "snd (snd (to_authorizer t (list_workspaces_attributes user))) = None" by (simp add: operator(2) Authorize_def Let_def)
  ultimately obtain r all where "ListWorkspaces t user q = TenantListed r" "lr_Items r = page_items q all"
      "lr_TotalItems r = length all" "distinct all"
      "set all = {x. (\<exists>b \<in> set ?mine. ?fetch b = Fetched x) \<and>
        matching (qr_Filters q) (\<lambda>x. meta_filter (to_env t) (object_meta x)) x}"
    using bound_listing [OF env(1), of ?mine q "list_workspaces_attributes user" ?fetch "''workspaces''"] assms(5,8) operator(2)
    unfolding ListWorkspaces_def bindings by auto
  then show ?thesis
    by (intro exI [of _ r] exI [of _ all]) (auto simp: workspace_fetched matching_def page_items_unlimited)
qed

text \<open>One binding left behind in a namespace that is gone makes the whole listing of namespaces fail.\<close>

lemma stale_binding_fails_listing:
  assumes "fst (to_authorizer t (list_in_workspace_attributes user ''namespaces'' workspace)) \<noteq> DecisionAllow"
    and "snd (snd (to_authorizer t (list_in_workspace_attributes user ''namespaces'' workspace))) = None"
    and "namespace_bindings t user = Inr (b # bs)" "li_Get (inf_Namespaces (to_env t)) [] (b_Namespace b) = Inl NotFound"
  shows "ListNamespaces t user workspace q = TenantFailed tenant_NotFound"
  using assms(3,4) by (simp add: ListNamespaces_def Let_def list_refused [OF assms(1,2)] fetch_bound_def tenant_Get_namespaces)

section \<open>Witnesses\<close>

definition dev_meta :: "string \<Rightarrow> list_meta" where
  "dev_meta name = (demo_meta name)\<lparr>lm_Namespace := [], lm_Labels := [(WorkspaceLabel, ''dev'')]\<rparr>"

definition dev_namespace :: namespace_object where
  "dev_namespace = \<lparr>nsp_Meta = dev_meta ''proj'', nsp_Phase = ''Active''\<rparr>"

definition tenant_env :: resource_env where
  "tenant_env = empty_env\<lparr>
     env_Parse := \<lambda>text. case SplitChar (CHR ''='') text of [k, v] \<Rightarrow> Some (SelectorFromSet [(k, v)]) | _ \<Rightarrow> None,
     inf_Namespaces := store_lister nsp_Meta [dev_namespace],
     inf_Plain := \<lambda>_. store_lister id [dev_meta ''dev'', dev_meta ''ops'']\<rparr>"

definition bob_binding :: role_binding where
  "bob_binding = (new_binding ''bob'' ''Role'' ''viewer'' [(WorkspaceLabel, ''dev'')])\<lparr>b_Namespace := ''proj''\<rparr>"

definition tenant_am :: am_operator where
  "tenant_am = sample_operator\<lparr>globalRoleBindingGetter := \<lambda>_. Inr [], clusterRoleBindingGetter := \<lambda>_. Inr [],
     roleBindingGetter := \<lambda>_. Inr [bob_binding], workspaceRoleBindingGetter := \<lambda>_. Inr [bob_binding, bob_binding]\<rparr>"

definition demo_tenant :: tenant_operator where
  "demo_tenant = \<lparr>to_am = am_of tenant_am, to_authorizer = Authorize (\<lambda>_ _. Inr []) (am_of tenant_am), to_env = tenant_env,
     to_Placement = (\<lambda>_. \<lparr>pl_Clusters = None, pl_ClusterSelector = None\<rparr>), to_Finalizers = (\<lambda>_. [])\<rparr>"

abbreviation bob :: user_info where "bob \<equiv> \<lparr>u_Name = ''bob'', u_Groups = []\<rparr>"

lemma bob_namespaces:
  "ListNamespaces demo_tenant bob ''dev'' New_query = TenantListed \<lparr>lr_TotalItems = 1, lr_Items = [Namespace dev_namespace]\<rparr>"
  by code_simp


lemma tenant_env_lister:
  "li_Get (inf_Namespaces tenant_env) [] name = Inr n \<Longrightarrow> lm_Name (nsp_Meta n) = name"
  by (auto simp: tenant_env_def store_lister_def split: if_splits option.splits)

lemma tenant_env_sort: "slice_sort (env_Sort (to_env demo_tenant))"
  using insertion.slice_sort_axioms by (simp add: demo_tenant_def tenant_env_def empty_env_def)

lemma demo_tenant_simps [simp]:
  "to_am demo_tenant = am_of tenant_am" "to_authorizer demo_tenant = Authorize (\<lambda>_ _. Inr []) (am_of tenant_am)"
  "to_env demo_tenant = tenant_env"
  by (simp_all add: demo_tenant_def)

theorem tenant_namespaces_justified_witness:
  "\<exists>n. Namespace dev_namespace = Namespace n \<and> map_get [] (lm_Labels (nsp_Meta n)) WorkspaceLabel = ''dev'' \<and>
    (fst (Authorize (\<lambda>_ _. Inr []) (am_of tenant_am) (list_in_workspace_attributes bob ''namespaces'' ''dev'')) = DecisionAllow \<or>
     (\<exists>bs b. roleBindingGetter tenant_am [] = Inr bs \<and> b \<in> set bs \<and> b_Namespace b = lm_Name (nsp_Meta n) \<and>
        contains_subject (b_Subjects b) ''bob'' []))"
proof -
  have "env_Parse (to_env demo_tenant) (WorkspaceLabel @ ''='' @ ''dev'') = Some (SelectorFromSet [(WorkspaceLabel, ''dev'')])"
    by (simp add: tenant_env_def)
  from tenant_namespaces_justified [OF demo_tenant_simps(1,2) tenant_env_sort this _ bob_namespaces, of "Namespace dev_namespace"]
  show ?thesis using tenant_env_lister by simp
qed

theorem tenant_workspaces_listed_witness:
  "\<exists>r. ListWorkspaces demo_tenant bob (ParseQueryParameter []) = TenantListed r \<and> distinct (lr_Items r) \<and>
    Plain Workspace (dev_meta ''dev'') \<in> set (lr_Items r) \<and> Plain Workspace (dev_meta ''ops'') \<notin> set (lr_Items r)"
proof -
  have "fst (Authorize (\<lambda>_ _. Inr []) (am_of tenant_am) (list_workspaces_attributes bob)) \<noteq> DecisionAllow" by code_simp
  moreover have "\<forall>name e. li_Get (inf_Plain (to_env demo_tenant) Workspace) [] name = Inl e \<longrightarrow> e = NotFound"
    by (auto simp: tenant_env_def store_lister_def split: option.splits)
  moreover have unlimited: "unlimited (ParseQueryParameter [])" by (rule ParseQueryParameter_unlimited) code_simp
  moreover have "qr_Filters (ParseQueryParameter []) = []" "qr_LabelSelector (ParseQueryParameter []) = []" by code_simp+
  ultimately show ?thesis
    using tenant_workspaces_listed [OF demo_tenant_simps(1,2) tenant_env_sort, of bob "[bob_binding, bob_binding]" "ParseQueryParameter []"]
      unlimited unlimited_fits [OF unlimited]
    by (auto simp: tenant_am_def fits_def New_query_def bob_binding_def new_binding_def user_subject_def contains_subject_def
        map_get_def tenant_env_def empty_env_def store_lister_def dev_meta_def demo_meta_def matching_def query_Selector_def Everything_def)
qed

end
