(* ===== verification/Es_Query.thy ===== *)
theory Es_Query
  imports List_Query
begin

text \<open>
  Queries for Elasticsearch: their construction (\<^verbatim>\<open>pkg/simple/client/es/query/builder.go\<close>), the queries for logs, events and
  audit events (\<^verbatim>\<open>pkg/simple/client/{logging,events,auditing}/elasticsearch/elasticsearch.go\<close>) and the clients that send them.

  Elasticsearch itself is a parameter: a client answers a search and the continuations of one. What is relied on is the
  documented meaning of a query, as the locale \<open>document_store\<close>: an answer depends on the documents that match, a boolean
  query matches by its clauses, and what a single clause matches is given by a function.
\<close>

section \<open>Times\<close>

text \<open>A point in time, \<^const>\<open>None\<close> being the zero time that unset fields have. It is before every other.\<close>

type_synonym gotime = "int option"

definition not_before :: "gotime \<Rightarrow> int \<Rightarrow> bool" where
  "not_before t now = (case t of None \<Rightarrow> True | Some since \<Rightarrow> since \<le> now)"

section \<open>Queries\<close>

datatype es_item =
  EsBool "es_item list" "es_item list" "es_item list" nat \<comment> \<open>filter, should, must not, and how many of should\<close>
| MatchPhrase string string
| MatchPhrasePrefix string string
| EsRegexp string string
| EsRange string "(string \<times> gotime) list"
| Wildcard string string
| Terms string "32 word list"
| Exists string string

definition NewBool :: es_item where
  "NewBool = EsBool [] [] [] 0"

fun IsValid :: "es_item \<Rightarrow> bool" where
  "IsValid (EsBool filters shoulds mustNots _) = (\<not> (filters = [] \<and> shoulds = [] \<and> mustNots = []))"
| "IsValid (EsRange _ bounds) = (bounds \<noteq> [])"
| "IsValid _ = True"

text \<open>The methods of a boolean query; an item that is not valid is left out.\<close>

fun AppendFilter :: "es_item \<Rightarrow> es_item \<Rightarrow> es_item" where
  "AppendFilter (EsBool f s m n) item = EsBool (f @ (if IsValid item then [item] else [])) s m n"
| "AppendFilter b item = b"

fun AppendShould :: "es_item \<Rightarrow> es_item \<Rightarrow> es_item" where
  "AppendShould (EsBool f s m n) item = EsBool f (s @ (if IsValid item then [item] else [])) m n"
| "AppendShould b item = b"

fun AppendMultiShould :: "es_item \<Rightarrow> es_item list \<Rightarrow> es_item" where
  "AppendMultiShould (EsBool f s m n) items = EsBool f (s @ filter IsValid items) m n"
| "AppendMultiShould b items = b"

fun AppendMustNot :: "es_item \<Rightarrow> es_item \<Rightarrow> es_item" where
  "AppendMustNot (EsBool f s m n) item = EsBool f s (m @ (if IsValid item then [item] else [])) n"
| "AppendMustNot b item = b"

fun WithMinimumShouldMatch :: "es_item \<Rightarrow> nat \<Rightarrow> es_item" where
  "WithMinimumShouldMatch (EsBool f s m _) n = EsBool f s m n"
| "WithMinimumShouldMatch b n = b"

definition NewMultiMatchPhrase :: "string \<Rightarrow> string list \<Rightarrow> es_item list" where
  "NewMultiMatchPhrase key vals = map (MatchPhrase key) vals"

definition NewMultiMatchPhrasePrefix :: "string \<Rightarrow> string list \<Rightarrow> es_item list" where
  "NewMultiMatchPhrasePrefix key vals = map (MatchPhrasePrefix key) vals"

definition NewRange :: "string \<Rightarrow> es_item" where
  "NewRange key = EsRange key []"

fun withRange :: "string \<Rightarrow> gotime \<Rightarrow> es_item \<Rightarrow> es_item" where
  "withRange operator v (EsRange key bounds) = EsRange key (AList.update operator v bounds)"
| "withRange operator v item = item"

text \<open>The codes are a nil slice when there are none; the query is nil then.\<close>

definition NewTerms :: "string \<Rightarrow> 32 word list \<Rightarrow> es_item option" where
  "NewTerms key vals = (if vals = [] then None else Some (Terms key vals))"

text \<open>A query without clauses is no query: every document matches.\<close>

definition WithBool :: "es_item \<Rightarrow> es_item option" where
  "WithBool b = (if IsValid b then Some b else None)"

datatype es_aggregation = Cardinality string | DateHistogram string string

record es_builder =
  eb_From :: int64
  eb_Size :: int64
  eb_Sort :: "(string \<times> string) option"
  eb_Query :: "es_item option"
  eb_Aggregation :: "es_aggregation option"

definition NewBuilder :: es_builder where
  "NewBuilder = \<lparr>eb_From = 0, eb_Size = 0, eb_Sort = None, eb_Query = None, eb_Aggregation = None\<rparr>"

definition WithSort :: "string \<Rightarrow> string \<Rightarrow> es_builder \<Rightarrow> es_builder" where
  "WithSort key order b = b\<lparr>eb_Sort := Some (key, if order = [] then ''desc'' else order)\<rparr>"

text \<open>Shapes that the queries below use many times: any of some clauses, and documents that contain one of some texts.\<close>

definition any_of :: "es_item list \<Rightarrow> es_item" where
  "any_of items = WithMinimumShouldMatch (AppendMultiShould NewBool items) 1"

text \<open>
  The fuzzy filters make their pattern with \<^verbatim>\<open>fmt.Sprintf("*"+v+"*")\<close>: the value is a format, given no
  arguments. A directive is read as \<^verbatim>\<open>doPrintf\<close> does: flags, an argument index in brackets, a width,
  a precision and a verb, which is taken to be one character. Without arguments every directive but \<^verbatim>\<open>%%\<close>
  leaves a note of what is missing.
\<close>

fun parsenum :: "nat \<Rightarrow> bool \<Rightarrow> string \<Rightarrow> bool \<times> string" where
  "parsenum n isnum [] = (isnum, [])"
| "parsenum n isnum (c # cs) =
     (case digit_value c of
        None \<Rightarrow> (isnum, c # cs)
      | Some d \<Rightarrow> if n > 1000000 then (False, []) else parsenum (n * 10 + d) True cs)"

definition parseArgNumber :: "string \<Rightarrow> bool \<times> string" where
  "parseArgNumber s =
     (let number = takeWhile (\<lambda>c. c \<noteq> CHR '']'') (tl s); rest = drop (length number) (tl s)
      in if length s < 3 \<or> rest = [] then (False, tl s)
         else (parsenum 0 False number = (True, []), tl rest))"

text \<open>Whether an index was read, the rest, and whether no index was out of range, as each is without arguments.\<close>

definition argNumber :: "string \<Rightarrow> bool \<times> string \<times> bool" where
  "argNumber s =
     (if s \<noteq> [] \<and> hd s = CHR ''['' then (let (ok, rest) = parseArgNumber s in (ok, rest, False)) else (False, s, True))"

definition width :: "bool \<Rightarrow> string \<Rightarrow> bool \<Rightarrow> string \<times> bool \<times> string \<times> bool" where
  "width index s good =
     (if s \<noteq> [] \<and> hd s = CHR ''*'' then (''%!(BADWIDTH)'', False, tl s, good)
      else let (wid, rest) = parsenum 0 False s in ([], index, rest, good \<and> \<not> (index \<and> wid)))"

definition precision :: "bool \<Rightarrow> string \<Rightarrow> bool \<Rightarrow> string \<times> bool \<times> string \<times> bool" where
  "precision index s good =
     (if s \<noteq> [] \<and> hd s = CHR ''.'' then
        (let (index', rest, good') = argNumber (tl s); ok = (good \<and> \<not> index \<and> good')
         in if rest \<noteq> [] \<and> hd rest = CHR ''*'' then (''%!(BADPREC)'', False, tl rest, ok)
            else ([], index', snd (parsenum 0 False rest), ok))
      else ([], index, s, good))"

definition directive :: "string \<Rightarrow> string \<times> string" where
  "directive s =
     (let (index1, s1, good1) = argNumber (dropWhile (\<lambda>c. c \<in> set ''#0+- '') s);
          (out2, index2, s2, good2) = width index1 s1 good1;
          (out3, index3, s3, good3) = precision index2 s2 good2;
          (s4, good4) =
            (if index3 then (s3, good3) else let (_, rest, good) = argNumber s3 in (rest, good3 \<and> good))
      in case s4 of
           [] \<Rightarrow> (out2 @ out3 @ ''%!(NOVERB)'', [])
         | verb # rest \<Rightarrow>
             (out2 @ out3 @
              (if verb = CHR ''%'' then ''%''
               else if \<not> good4 then ''%!'' @ [verb] @ ''(BADINDEX)''
               else ''%!'' @ [verb] @ ''(MISSING)''), rest))"

lemma parsenum_shorter: "length (snd (parsenum n isnum s)) \<le> length s"
  by (induction n isnum s rule: parsenum.induct) (auto split: option.splits intro: le_SucI)

lemma argNumber_shorter: "argNumber s = (i, rest, g) \<Longrightarrow> length rest \<le> length s"
  by (auto simp: argNumber_def parseArgNumber_def Let_def split: if_splits)

lemma width_shorter: "width i s g = (out, i', rest, g') \<Longrightarrow> length rest \<le> length s"
  using parsenum_shorter [of 0 False s] by (auto simp: width_def split: if_splits prod.splits)

lemma precision_shorter: "precision i s g = (out, i', rest, g') \<Longrightarrow> length rest \<le> length s"
  using parsenum_shorter [of 0 False "fst (snd (argNumber (tl s)))"] argNumber_shorter [of "tl s"]
  by (fastforce simp: precision_def Let_def split: if_splits prod.splits)

lemma directive_shorter: "length (snd (directive s)) \<le> length s"
proof -
  obtain i1 s1 g1 where 1: "argNumber (dropWhile (\<lambda>c. c \<in> set ''#0+- '') s) = (i1, s1, g1)" by (rule prod_cases3)
  obtain o2 i2 s2 g2 where 2: "width i1 s1 g1 = (o2, i2, s2, g2)" by (rule prod_cases4)
  obtain o3 i3 s3 g3 where 3: "precision i2 s2 g2 = (o3, i3, s3, g3)" by (rule prod_cases4)
  obtain i4 s4 g4 where 4: "argNumber s3 = (i4, s4, g4)" by (rule prod_cases3)
  have "length s1 \<le> length s" using argNumber_shorter [OF 1] length_dropWhile_le order.trans by blast
  then have "length s3 \<le> length s" "length s4 \<le> length s"
    using width_shorter [OF 2] precision_shorter [OF 3] argNumber_shorter [OF 4] by linarith+
  then show ?thesis unfolding directive_def Let_def 1 prod.case 2 3 4 by (cases i3; cases s3; cases s4) simp_all
qed

function Sprintf :: "string \<Rightarrow> string" where
  "Sprintf [] = []"
| "Sprintf (c # cs) =
     (if c = CHR ''%'' then fst (directive cs) @ Sprintf (snd (directive cs)) else c # Sprintf cs)"
  by pat_completeness auto
termination by (relation "measure length") (simp_all add: directive_shorter le_imp_less_Suc)

definition any_wildcard :: "string \<Rightarrow> string list \<Rightarrow> es_item" where
  "any_wildcard key vals =
     fold (\<lambda>v b. AppendShould b (Wildcard key (Sprintf (''*'' @ v @ ''*'')))) vals (WithMinimumShouldMatch NewBool 1)"

text \<open>A text without a percent sign is found as it stands; one that ends in a percent sign is never found.\<close>

lemma Sprintf_plain: "CHR ''%'' \<notin> set s \<Longrightarrow> Sprintf s = s"
  by (induction s) auto

lemma Sprintf_percent: "Sprintf ''*100%*'' = ''*100%!(BADWIDTH)%!(NOVERB)''"
  by code_simp

definition since :: "string \<Rightarrow> string \<Rightarrow> string \<Rightarrow> gotime \<Rightarrow> es_item" where
  "since key v timeKey t = AppendFilter (AppendFilter NewBool (MatchPhrase key v)) (withRange ''gte'' t (NewRange timeKey))"

definition time_range :: "string \<Rightarrow> gotime \<Rightarrow> gotime \<Rightarrow> es_item" where
  "time_range key startTime endTime =
     (let r = (if startTime = None then NewRange key else withRange ''gte'' startTime (NewRange key))
      in if endTime = None then r else withRange ''lte'' endTime r)"

section \<open>The query for logs\<close>

record log_filter =
  sf_NamespaceFilter :: "(string, gotime) gomap"
  sf_WorkloadSearch :: "string list"
  sf_WorkloadFilter :: "string list"
  sf_PodSearch :: "string list"
  sf_PodFilter :: "string list"
  sf_ContainerSearch :: "string list"
  sf_ContainerFilter :: "string list"
  sf_LogSearch :: "string list"
  sf_Starttime :: gotime
  sf_Endtime :: gotime

abbreviation replicaset_letters :: string where "replicaset_letters \<equiv> ''-[bcdfghjklmnpqrstvwxz2456789]{''"

definition podNameRegex :: "string \<Rightarrow> string" where
  "podNameRegex workloadName =
     (if length workloadName \<le> 46 then
        workloadName @ replicaset_letters @ ''1,10}-[a-z0-9]{5}|'' @ workloadName @ ''-[0-9]+|'' @ workloadName @ ''-[a-z0-9]{5}''
      else if length workloadName \<le> 57 then
        workloadName @ replicaset_letters @ show_nat (57 - length workloadName) @ ''}[a-z0-9]{5}|'' @
        workloadName @ ''-[0-9]+|'' @ workloadName @ ''-[a-z0-9]{5}''
      else take 58 workloadName @ ''[a-z0-9]{5}|'' @ workloadName @ ''-[0-9]+'')"

definition log_namespaces_part :: "(string, gotime) gomap \<Rightarrow> es_item" where
  "log_namespaces_part m =
     fold (\<lambda>(ns, t) b. AppendShould b (since ''kubernetes.namespace_name.keyword'' ns ''time'' t)) m (WithMinimumShouldMatch NewBool 1)"

definition log_query_part :: "log_filter \<Rightarrow> es_item option" where
  "log_query_part sf =
     (let b1 = AppendFilter NewBool (log_namespaces_part (sf_NamespaceFilter sf));
          b2 = (if sf_WorkloadFilter sf = [] then b1
                else AppendFilter b1 (fold (\<lambda>wk b. AppendShould b (EsRegexp ''kubernetes.pod_name.keyword'' (podNameRegex wk)))
                       (sf_WorkloadFilter sf) (WithMinimumShouldMatch NewBool 1)));
          b3 = AppendFilter b2 (any_of (NewMultiMatchPhrase ''kubernetes.pod_name.keyword'' (sf_PodFilter sf)));
          b4 = AppendFilter b3 (any_of (NewMultiMatchPhrase ''kubernetes.container_name.keyword'' (sf_ContainerFilter sf)));
          b5 = AppendFilter b4 (any_of (NewMultiMatchPhrasePrefix ''kubernetes.pod_name'' (sf_WorkloadSearch sf)));
          b6 = AppendFilter b5 (any_of (NewMultiMatchPhrasePrefix ''kubernetes.pod_name'' (sf_PodSearch sf)));
          b7 = AppendFilter b6 (any_of (NewMultiMatchPhrasePrefix ''kubernetes.container_name'' (sf_ContainerSearch sf)));
          b8 = AppendFilter b7 (any_of (NewMultiMatchPhrasePrefix ''log'' (sf_LogSearch sf)))
      in WithBool (AppendFilter b8 (time_range ''time'' (sf_Starttime sf) (sf_Endtime sf))))"

section \<open>The query for events\<close>

record events_filter =
  ef_InvolvedObjectNamespaceMap :: "(string, gotime) gomap"
  ef_InvolvedObjectNames :: "string list"
  ef_InvolvedObjectNameFuzzy :: "string list"
  ef_InvolvedObjectkinds :: "string list"
  ef_Reasons :: "string list"
  ef_ReasonFuzzy :: "string list"
  ef_MessageFuzzy :: "string list"
  ef_Type :: string
  ef_StartTime :: gotime
  ef_EndTime :: gotime

definition events_namespaces_part :: "(string, gotime) gomap \<Rightarrow> es_item" where
  "events_namespaces_part m =
     fold (\<lambda>(k, v) b.
       AppendShould b
         (if k = [] then AppendMustNot NewBool (Exists ''field'' ''involvedObject.namespace'')
          else since ''involvedObject.namespace.keyword'' k ''lastTimestamp'' v)) m (WithMinimumShouldMatch NewBool 1)"

definition events_query_part :: "events_filter \<Rightarrow> es_item option" where
  "events_query_part f =
     (let b1 = AppendFilter NewBool (events_namespaces_part (ef_InvolvedObjectNamespaceMap f));
          b2 = AppendFilter b1 (any_of (NewMultiMatchPhrase ''involvedObject.name.keyword'' (ef_InvolvedObjectNames f)));
          b3 = AppendFilter b2 (any_of (NewMultiMatchPhrasePrefix ''involvedObject.name'' (ef_InvolvedObjectNameFuzzy f)));
          b4 = AppendFilter b3 (any_of (NewMultiMatchPhrase ''involvedObject.kind'' (ef_InvolvedObjectkinds f)));
          b5 = AppendFilter b4 (any_of (NewMultiMatchPhrase ''reason'' (ef_Reasons f)));
          b6 = AppendFilter b5 (any_wildcard ''reason.keyword'' (ef_ReasonFuzzy f));
          b7 = AppendFilter b6 (any_of (NewMultiMatchPhrasePrefix ''message'' (ef_MessageFuzzy f)));
          b8 = (if ef_Type f = [] then b7 else AppendFilter b7 (AppendShould NewBool (MatchPhrase ''type'' (ef_Type f))))
      in WithBool (AppendFilter b8 (time_range ''lastTimestamp'' (ef_StartTime f) (ef_EndTime f))))"

section \<open>The query for audit events\<close>

record audit_filter =
  af_ObjectRefNamespaceMap :: "(string, gotime) gomap"
  af_WorkspaceMap :: "(string, gotime) gomap"
  af_ObjectRefNamespaces :: "string list"
  af_ObjectRefNamespaceFuzzy :: "string list"
  af_Workspaces :: "string list"
  af_WorkspaceFuzzy :: "string list"
  af_ObjectRefNames :: "string list"
  af_ObjectRefNameFuzzy :: "string list"
  af_Levels :: "string list"
  af_Verbs :: "string list"
  af_Users :: "string list"
  af_UserFuzzy :: "string list"
  af_GroupFuzzy :: "string list"
  af_SourceIpFuzzy :: "string list"
  af_ObjectRefResources :: "string list"
  af_ObjectRefSubresources :: "string list"
  af_ResponseCodes :: "32 word list"
  af_ResponseStatus :: "string list"
  af_StartTime :: gotime
  af_EndTime :: gotime

definition audit_scope_part :: "(string, gotime) gomap \<Rightarrow> (string, gotime) gomap \<Rightarrow> es_item" where
  "audit_scope_part namespaces workspaces =
     fold (\<lambda>(k, v) b. AppendShould b (since ''Workspace.keyword'' k ''RequestReceivedTimestamp'' v)) workspaces
       (fold (\<lambda>(k, v) b. AppendShould b (since ''ObjectRef.Namespace.keyword'' k ''RequestReceivedTimestamp'' v)) namespaces
         (WithMinimumShouldMatch NewBool 1))"

definition audit_query_part :: "audit_filter \<Rightarrow> es_item option" where
  "audit_query_part f =
     (let b1 = AppendFilter NewBool (audit_scope_part (af_ObjectRefNamespaceMap f) (af_WorkspaceMap f));
          b2 = AppendFilter b1 (any_of (NewMultiMatchPhrase ''ObjectRef.Namespace.keyword'' (af_ObjectRefNamespaces f)));
          b3 = AppendFilter b2 (any_wildcard ''ObjectRef.Namespace.keyword'' (af_ObjectRefNamespaceFuzzy f));
          b4 = AppendFilter b3 (any_of (NewMultiMatchPhrase ''Workspace.keyword'' (af_Workspaces f)));
          b5 = AppendFilter b4 (any_wildcard ''Workspace.keyword'' (af_WorkspaceFuzzy f));
          b6 = AppendFilter b5 (any_of (NewMultiMatchPhrase ''ObjectRef.Name.keyword'' (af_ObjectRefNames f)));
          b7 = AppendFilter b6 (any_wildcard ''ObjectRef.Name.keyword'' (af_ObjectRefNameFuzzy f));
          b8 = AppendFilter b7 (any_of (NewMultiMatchPhrase ''Verb.keyword'' (af_Verbs f)));
          b9 = AppendFilter b8 (any_of (NewMultiMatchPhrase ''Level.keyword'' (af_Levels f)));
          b10 = AppendFilter b9 (any_wildcard ''SourceIPs.keyword'' (af_SourceIpFuzzy f));
          b11 = AppendFilter b10 (any_of (NewMultiMatchPhrase ''User.Username.keyword'' (af_Users f)));
          b12 = AppendFilter b11 (any_wildcard ''User.Username.keyword'' (af_UserFuzzy f));
          b13 = AppendFilter b12 (any_wildcard ''User.Groups.keyword'' (af_GroupFuzzy f));
          b14 = AppendFilter b13 (any_of (NewMultiMatchPhrasePrefix ''ObjectRef.Resource'' (af_ObjectRefResources f)));
          b15 = AppendFilter b14 (any_of (NewMultiMatchPhrasePrefix ''ObjectRef.Subresource'' (af_ObjectRefSubresources f)));
          codes = (case NewTerms ''ResponseStatus.code'' (af_ResponseCodes f) of None \<Rightarrow> NewBool | Some item \<Rightarrow> AppendShould NewBool item);
          b16 = AppendFilter b15 (WithMinimumShouldMatch codes 1);
          b17 = AppendFilter b16 (any_of (NewMultiMatchPhrase ''ResponseStatus.status.keyword'' (af_ResponseStatus f)))
      in WithBool (AppendFilter b17 (time_range ''RequestReceivedTimestamp'' (af_StartTime f) (af_EndTime f))))"

section \<open>The clients\<close>

record 'd es_response =
  er_Total :: int
  er_Value :: int
  er_Buckets :: "(int \<times> int) list"
  er_Hits :: "'d list"
  er_ScrollId :: string

record 'd es_client =
  es_Search :: "es_builder \<Rightarrow> gotime \<Rightarrow> gotime \<Rightarrow> bool \<Rightarrow> (string, 'd es_response) result"
  es_Scroll :: "string \<Rightarrow> (string, 'd es_response) result"

datatype 'd es_answer = Statistics int int | Histogram int "(int \<times> int) list" | Records int "'d list"

definition statistics_of :: "'d es_response \<Rightarrow> 'd es_answer" where
  "statistics_of r = Statistics (er_Value r) (er_Total r)"

definition histogram_of :: "'d es_response \<Rightarrow> 'd es_answer" where
  "histogram_of r = Histogram (er_Total r) (er_Buckets r)"

definition records_of :: "'d es_response \<Rightarrow> 'd es_answer" where
  "records_of r = Records (er_Total r) (er_Hits r)"

definition sorted_page :: "es_item option \<Rightarrow> string \<Rightarrow> string \<Rightarrow> int64 \<Rightarrow> int64 \<Rightarrow> es_builder" where
  "sorted_page q key order from size' = (WithSort key order (NewBuilder\<lparr>eb_Query := q\<rparr>))\<lparr>eb_From := from, eb_Size := size'\<rparr>"

definition aggregated :: "es_item option \<Rightarrow> es_aggregation \<Rightarrow> es_builder" where
  "aggregated q aggregation = NewBuilder\<lparr>eb_Query := q, eb_Aggregation := Some aggregation\<rparr>"

text \<open>Logs.\<close>

definition GetCurrentStats :: "'d es_client \<Rightarrow> log_filter \<Rightarrow> (string, 'd es_answer) result" where
  "GetCurrentStats c sf =
     map_sum id statistics_of
       (es_Search c (aggregated (log_query_part sf) (Cardinality ''kubernetes.docker_id.keyword'')) (sf_Starttime sf) (sf_Endtime sf) False)"

definition CountLogsByInterval :: "'d es_client \<Rightarrow> log_filter \<Rightarrow> string \<Rightarrow> (string, 'd es_answer) result" where
  "CountLogsByInterval c sf interval =
     map_sum id histogram_of
       (es_Search c (aggregated (log_query_part sf) (DateHistogram ''time'' interval)) (sf_Starttime sf) (sf_Endtime sf) False)"

definition SearchLogs :: "'d es_client \<Rightarrow> log_filter \<Rightarrow> int64 \<Rightarrow> int64 \<Rightarrow> string \<Rightarrow> (string, 'd es_answer) result" where
  "SearchLogs c sf from size' order =
     map_sum id records_of
       (es_Search c (sorted_page (log_query_part sf) ''time'' order from size') (sf_Starttime sf) (sf_Endtime sf) False)"

text \<open>
  Exporting writes the texts of the hits, a page at a time and at most a hundred pages. The texts of hits are given by a
  function, which also strips control sequences; the response takes whatever is written. Pages of a search are read under the identifier of the last one.
\<close>

fun export_pages :: "'d es_client \<Rightarrow> ('d \<Rightarrow> string) \<Rightarrow> nat \<Rightarrow> 'd list \<Rightarrow> string \<Rightarrow> string \<Rightarrow> string \<times> string option" where
  "export_pages c text 0 hits sid written = (written, None)"
| "export_pages c text (Suc n) hits sid written =
     (if hits = [] then (written, None)
      else if n = 0 then (written @ concat (map text hits), None)
      else
        (case es_Scroll c sid of
           Inl err \<Rightarrow> (written @ concat (map text hits), Some err)
         | Inr r \<Rightarrow> export_pages c text n (er_Hits r) (er_ScrollId r) (written @ concat (map text hits))))"

definition client_ExportLogs :: "'d es_client \<Rightarrow> ('d \<Rightarrow> string) \<Rightarrow> log_filter \<Rightarrow> string \<times> string option" where
  "client_ExportLogs c text sf =
     (case es_Search c (sorted_page (log_query_part sf) ''time'' ''desc'' 0 1000) (sf_Starttime sf) (sf_Endtime sf) True of
        Inl err \<Rightarrow> ([], Some err)
      | Inr r \<Rightarrow> export_pages c text 100 (er_Hits r) (er_ScrollId r) [])"

text \<open>Events. No hits are answered without a total.\<close>

definition SearchEvents :: "'d es_client \<Rightarrow> events_filter \<Rightarrow> int64 \<Rightarrow> int64 \<Rightarrow> string \<Rightarrow> (string, 'd es_answer) result" where
  "SearchEvents c f from size' order =
     map_sum id (\<lambda>r. if er_Hits r = [] then Records 0 [] else records_of r)
       (es_Search c (sorted_page (events_query_part f) ''lastTimestamp'' order from size') (ef_StartTime f) (ef_EndTime f) False)"

definition events_CountOverTime :: "'d es_client \<Rightarrow> events_filter \<Rightarrow> string \<Rightarrow> (string, 'd es_answer) result" where
  "events_CountOverTime c f interval =
     map_sum id histogram_of
       (es_Search c (aggregated (events_query_part f) (DateHistogram ''lastTimestamp'' (defaultString interval ''15m'')))
         (ef_StartTime f) (ef_EndTime f) False)"

definition events_StatisticsOnResources :: "'d es_client \<Rightarrow> events_filter \<Rightarrow> (string, 'd es_answer) result" where
  "events_StatisticsOnResources c f =
     map_sum id statistics_of
       (es_Search c (aggregated (events_query_part f) (Cardinality ''involvedObject.uid.keyword'')) (ef_StartTime f) (ef_EndTime f) False)"

text \<open>Audit events.\<close>

definition SearchAuditingEvent :: "'d es_client \<Rightarrow> audit_filter \<Rightarrow> int64 \<Rightarrow> int64 \<Rightarrow> string \<Rightarrow> (string, 'd es_answer) result" where
  "SearchAuditingEvent c f from size' order =
     map_sum id records_of
       (es_Search c (sorted_page (audit_query_part f) ''RequestReceivedTimestamp'' order from size') (af_StartTime f) (af_EndTime f) False)"

definition audit_CountOverTime :: "'d es_client \<Rightarrow> audit_filter \<Rightarrow> string \<Rightarrow> (string, 'd es_answer) result" where
  "audit_CountOverTime c f interval =
     map_sum id histogram_of
       (es_Search c (aggregated (audit_query_part f) (DateHistogram ''RequestReceivedTimestamp'' (defaultString interval ''15m'')))
         (af_StartTime f) (af_EndTime f) False)"

definition audit_StatisticsOnResources :: "'d es_client \<Rightarrow> audit_filter \<Rightarrow> (string, 'd es_answer) result" where
  "audit_StatisticsOnResources c f =
     map_sum id statistics_of
       (es_Search c (aggregated (audit_query_part f) (Cardinality ''AuditID.keyword'')) (af_StartTime f) (af_EndTime f) False)"

section \<open>What a query matches\<close>

text \<open>
  A boolean query matches a document that all its filters match, none of the clauses that must not, and enough of those
  that should: the number given, or one when there is no other clause.
\<close>

fun matches :: "(es_item \<Rightarrow> 'd \<Rightarrow> bool) \<Rightarrow> es_item \<Rightarrow> 'd \<Rightarrow> bool" where
  "matches hit (EsBool f s m n) d =
     (list_all (\<lambda>i. matches hit i d) f \<and> list_all (\<lambda>i. \<not> matches hit i d) m \<and>
      (if 0 < n then n else if f = [] \<and> s \<noteq> [] then 1 else 0) \<le> length (filter (\<lambda>i. matches hit i d) s))"
| "matches hit item d = hit item d"

definition matched :: "(es_item \<Rightarrow> 'd \<Rightarrow> bool) \<Rightarrow> es_item option \<Rightarrow> 'd list \<Rightarrow> 'd list" where
  "matched hit q docs = filter (\<lambda>d. case q of None \<Rightarrow> True | Some b \<Rightarrow> matches hit b d) docs"

text \<open>
  The contract of the service over a store of documents: an answer is determined by the documents that match the query,
  and so are the pages that follow under an identifier it opened.
\<close>

locale document_store =
  fixes client :: "'d list \<Rightarrow> 'd es_client"
    and hit :: "es_item \<Rightarrow> 'd \<Rightarrow> bool"
    and opened :: "'d list \<Rightarrow> string \<Rightarrow> es_item option \<Rightarrow> bool"
  assumes search: "matched hit (eb_Query b) docs = matched hit (eb_Query b) docs' \<Longrightarrow>
      es_Search (client docs) b st en scroll = es_Search (client docs') b st en scroll"
    and opens: "es_Search (client docs) b st en True = Inr r \<Longrightarrow> opened docs (er_ScrollId r) (eb_Query b)"
    and scrolls: "opened docs sid q \<Longrightarrow> matched hit q docs = matched hit q docs' \<Longrightarrow>
      es_Scroll (client docs) sid = es_Scroll (client docs') sid"
    and stays_open: "opened docs sid q \<Longrightarrow> es_Scroll (client docs) sid = Inr r \<Longrightarrow> opened docs (er_ScrollId r) q"
begin

lemma same_matched:
  assumes "\<And>b d. q = Some b \<Longrightarrow> matches hit b d \<Longrightarrow> visible d" "q \<noteq> None" "filter visible docs = filter visible docs'"
  shows "matched hit q docs = matched hit q docs'"
proof -
  obtain b where q: "q = Some b" using assms(2) by blast
  have "matched hit q ds = filter (matches hit b) (filter visible ds)" for ds
    unfolding matched_def q using assms(1) [OF q] by (simp add: filter_filter) (metis (mono_tags, lifting) filter_cong)
  then show ?thesis by (simp only: assms(3))
qed

lemma same_search:
  assumes "matched hit q docs = matched hit q docs'"
  shows "es_Search (client docs) (aggregated q a) st en scroll = es_Search (client docs') (aggregated q a) st en scroll"
    "es_Search (client docs) (sorted_page q key order f n) st en scroll = es_Search (client docs') (sorted_page q key order f n) st en scroll"
  by (rule search; simp add: aggregated_def sorted_page_def WithSort_def assms)+

lemma same_export_pages:
  assumes "opened docs sid q" "matched hit q docs = matched hit q docs'"
  shows "export_pages (client docs) text n hits sid written = export_pages (client docs') text n hits sid written"
  using assms(1)
proof (induction n arbitrary: hits sid written)
  case (Suc n)
  have "es_Scroll (client docs) sid = es_Scroll (client docs') sid" by (rule scrolls [OF Suc.prems assms(2)])
  then show ?case using Suc stays_open [OF Suc.prems] by (auto split: sum.splits)
qed simp

lemma same_export:
  assumes "matched hit (log_query_part sf) docs = matched hit (log_query_part sf) docs'"
  shows "client_ExportLogs (client docs) text sf = client_ExportLogs (client docs') text sf"
proof -
  let ?b = "sorted_page (log_query_part sf) ''time'' ''desc'' 0 1000"
  have q: "eb_Query ?b = log_query_part sf" by (simp add: sorted_page_def WithSort_def NewBuilder_def)
  have same: "es_Search (client docs) ?b st en scr = es_Search (client docs') ?b st en scr" for st en scr
    using search [of ?b docs docs'] assms by (simp only: q)
  show ?thesis
  proof (cases "es_Search (client docs) ?b (sf_Starttime sf) (sf_Endtime sf) True")
    case (Inr r)
    have "opened docs (er_ScrollId r) (log_query_part sf)" using opens [OF Inr] by (simp only: q)
    from same_export_pages [OF this assms] Inr same show ?thesis by (simp add: client_ExportLogs_def)
  qed (simp add: client_ExportLogs_def flip: same)
qed

end

section \<open>What the scope parts match\<close>

lemma fold_AppendShould:
  assumes "\<And>k v. IsValid (g k v)"
  shows "fold (\<lambda>(k, v) b. AppendShould b (g k v)) xs (EsBool f s m n) = EsBool f (s @ map (\<lambda>(k, v). g k v) xs) m n"
  by (induction xs arbitrary: s) (auto simp: assms)

lemma since_EsBool: "since key v timeKey t = EsBool [MatchPhrase key v, EsRange timeKey [(''gte'', t)]] [] [] 0"
  by (simp add: since_def NewBool_def NewRange_def)

lemma valid_since [simp]: "IsValid (since key v timeKey t)"
  by (simp add: since_EsBool)

lemma log_namespaces_part_EsBool:
  "log_namespaces_part m = EsBool [] (map (\<lambda>(ns, t). since ''kubernetes.namespace_name.keyword'' ns ''time'' t) m) [] 1"
  unfolding log_namespaces_part_def NewBool_def WithMinimumShouldMatch.simps by (subst fold_AppendShould) simp_all

definition event_scope :: "string \<Rightarrow> gotime \<Rightarrow> es_item" where
  "event_scope k v =
     (if k = [] then EsBool [] [] [Exists ''field'' ''involvedObject.namespace''] 0
      else since ''involvedObject.namespace.keyword'' k ''lastTimestamp'' v)"

lemma events_namespaces_part_EsBool: "events_namespaces_part m = EsBool [] (map (\<lambda>(k, v). event_scope k v) m) [] 1"
proof -
  have "(if k = [] then AppendMustNot (EsBool [] [] [] 0) (Exists ''field'' ''involvedObject.namespace'')
      else since ''involvedObject.namespace.keyword'' k ''lastTimestamp'' v) = event_scope k v" for k v
    by (simp add: event_scope_def)
  then show ?thesis
    unfolding events_namespaces_part_def NewBool_def WithMinimumShouldMatch.simps
    by (simp only:) (subst fold_AppendShould, simp_all add: event_scope_def)
qed

lemma audit_scope_part_EsBool:
  "audit_scope_part ns ws =
   EsBool [] (map (\<lambda>(k, v). since ''ObjectRef.Namespace.keyword'' k ''RequestReceivedTimestamp'' v) ns @
              map (\<lambda>(k, v). since ''Workspace.keyword'' k ''RequestReceivedTimestamp'' v) ws) [] 1"
  unfolding audit_scope_part_def NewBool_def WithMinimumShouldMatch.simps by (subst fold_AppendShould, simp)+ simp

lemma matches_any: "matches hit (EsBool [] s [] 1) d \<longleftrightarrow> (\<exists>i \<in> set s. matches hit i d)"
proof -
  have "1 \<le> length (filter P s) \<longleftrightarrow> (\<exists>i \<in> set s. P i)" for P by (induction s) auto
  then show ?thesis by simp
qed

lemma matches_since [simp]:
  "matches hit (since key v timeKey t) d \<longleftrightarrow> hit (MatchPhrase key v) d \<and> hit (EsRange timeKey [(''gte'', t)]) d"
  by (simp add: since_EsBool)

text \<open>A scope that is not empty is a clause of the query, which therefore only matches within the scope.\<close>

lemma log_query_scoped:
  assumes "sf_NamespaceFilter sf \<noteq> []"
  shows "\<exists>f. log_query_part sf = Some (EsBool (log_namespaces_part (sf_NamespaceFilter sf) # f) [] [] 0)"
proof -
  have "IsValid (log_namespaces_part (sf_NamespaceFilter sf))" using assms by (simp add: log_namespaces_part_EsBool)
  then show ?thesis by (simp add: log_query_part_def Let_def NewBool_def WithBool_def)
qed

lemma events_query_scoped:
  assumes "ef_InvolvedObjectNamespaceMap f \<noteq> []"
  shows "\<exists>fs. events_query_part f = Some (EsBool (events_namespaces_part (ef_InvolvedObjectNamespaceMap f) # fs) [] [] 0)"
proof -
  have "IsValid (events_namespaces_part (ef_InvolvedObjectNamespaceMap f))" using assms by (simp add: events_namespaces_part_EsBool)
  then show ?thesis by (simp add: events_query_part_def Let_def NewBool_def WithBool_def)
qed

lemma audit_query_scoped:
  assumes "af_ObjectRefNamespaceMap f \<noteq> [] \<or> af_WorkspaceMap f \<noteq> []"
  shows "\<exists>fs. audit_query_part f = Some (EsBool (audit_scope_part (af_ObjectRefNamespaceMap f) (af_WorkspaceMap f) # fs) [] [] 0)"
proof -
  have "IsValid (audit_scope_part (af_ObjectRefNamespaceMap f) (af_WorkspaceMap f))" using assms by (auto simp: audit_scope_part_EsBool)
  then show ?thesis by (simp add: audit_query_part_def Let_def NewBool_def WithBool_def)
qed

section \<open>Documents with fields\<close>

text \<open>
  What single clauses match, where the scope parts use them: a phrase on a keyword field its exact value, a lower bound on
  a time the documents not before it, and the test of existence the documents that have a field.
\<close>

locale indexed_store = document_store client hit opened
  for client :: "'d list \<Rightarrow> 'd es_client" and hit :: "es_item \<Rightarrow> 'd \<Rightarrow> bool" and opened :: "'d list \<Rightarrow> string \<Rightarrow> es_item option \<Rightarrow> bool" +
  fixes field :: "'d \<Rightarrow> string \<Rightarrow> string option"
    and time_of :: "'d \<Rightarrow> string \<Rightarrow> int"
  assumes phrase: "hit (MatchPhrase (key @ ''.keyword'') v) d \<longleftrightarrow> field d key = Some v"
    and lower_bound: "hit (EsRange key [(''gte'', t)]) d \<longleftrightarrow> not_before t (time_of d key)"
    and exists_field: "hit (Exists ''field'' key) d \<longleftrightarrow> field d key \<noteq> None"
begin

lemma matches_since_iff:
  "matches hit (since (key @ ''.keyword'') v timeKey t) d \<longleftrightarrow> field d key = Some v \<and> not_before t (time_of d timeKey)"
  by (simp add: phrase lower_bound)

lemma log_query_matches:
  assumes "sf_NamespaceFilter sf \<noteq> []" "log_query_part sf = Some b" "matches hit b d"
  shows "\<exists>ns t. (ns, t) \<in> set (sf_NamespaceFilter sf) \<and> field d ''kubernetes.namespace_name'' = Some ns \<and> not_before t (time_of d ''time'')"
proof -
  have "matches hit (log_namespaces_part (sf_NamespaceFilter sf)) d" using log_query_scoped [OF assms(1)] assms(2,3) by auto
  then show ?thesis
    using matches_since_iff [of "''kubernetes.namespace_name''"]
    by (auto simp only: log_namespaces_part_EsBool matches_any set_map append.simps) fastforce
qed

lemma events_query_matches:
  assumes "ef_InvolvedObjectNamespaceMap f \<noteq> []" "events_query_part f = Some b" "matches hit b d"
  shows "\<exists>k v. (k, v) \<in> set (ef_InvolvedObjectNamespaceMap f) \<and>
    (if k = [] then field d ''involvedObject.namespace'' = None
     else field d ''involvedObject.namespace'' = Some k \<and> not_before v (time_of d ''lastTimestamp''))"
proof -
  have "matches hit (events_namespaces_part (ef_InvolvedObjectNamespaceMap f)) d"
    using events_query_scoped [OF assms(1)] assms(2,3) by auto
  then obtain k v where kv: "(k, v) \<in> set (ef_InvolvedObjectNamespaceMap f)" "matches hit (event_scope k v) d"
    by (auto simp only: events_namespaces_part_EsBool matches_any set_map)
  have "if k = [] then field d ''involvedObject.namespace'' = None
    else field d ''involvedObject.namespace'' = Some k \<and> not_before v (time_of d ''lastTimestamp'')"
    using kv(2) matches_since_iff [of "''involvedObject.namespace''" k "''lastTimestamp''" v d]
      exists_field [of "''involvedObject.namespace''" d]
    by (simp add: event_scope_def split: if_splits)
  with kv(1) show ?thesis by blast
qed

lemma audit_query_matches:
  assumes "af_ObjectRefNamespaceMap f \<noteq> [] \<or> af_WorkspaceMap f \<noteq> []" "audit_query_part f = Some b" "matches hit b d"
  shows "(\<exists>k v. (k, v) \<in> set (af_ObjectRefNamespaceMap f) \<and> field d ''ObjectRef.Namespace'' = Some k \<and> not_before v (time_of d ''RequestReceivedTimestamp'')) \<or>
    (\<exists>k v. (k, v) \<in> set (af_WorkspaceMap f) \<and> field d ''Workspace'' = Some k \<and> not_before v (time_of d ''RequestReceivedTimestamp''))"
proof -
  have "matches hit (audit_scope_part (af_ObjectRefNamespaceMap f) (af_WorkspaceMap f)) d"
    using audit_query_scoped [OF assms(1)] assms(2,3) by auto
  then consider k v where "(k, v) \<in> set (af_ObjectRefNamespaceMap f)" "matches hit (since ''ObjectRef.Namespace.keyword'' k ''RequestReceivedTimestamp'' v) d"
    | k v where "(k, v) \<in> set (af_WorkspaceMap f)" "matches hit (since ''Workspace.keyword'' k ''RequestReceivedTimestamp'' v) d"
    by (auto simp only: audit_scope_part_EsBool matches_any set_append set_map)
  then show ?thesis
  proof cases
    case 1
    then show ?thesis using matches_since_iff [of "''ObjectRef.Namespace''" k "''RequestReceivedTimestamp''" v d] by auto
  next
    case 2
    then show ?thesis using matches_since_iff [of "''Workspace''" k "''RequestReceivedTimestamp''" v d] by auto
  qed
qed

end

section \<open>A store in memory\<close>

record es_doc =
  ed_Fields :: "(string, string) gomap"
  ed_Time :: int

text \<open>Clauses other than those of the scope parts let every document pass.\<close>

fun memory_hit :: "es_item \<Rightarrow> es_doc \<Rightarrow> bool" where
  "memory_hit (MatchPhrase key v) d = (map_of (map (\<lambda>(k, v). (k @ ''.keyword'', v)) (ed_Fields d)) key = Some v)"
| "memory_hit (EsRange _ bounds) d =
     list_all (\<lambda>(op, t). if op = ''gte'' then not_before t (ed_Time d) else case t of None \<Rightarrow> False | Some x \<Rightarrow> ed_Time d \<le> x) bounds"
| "memory_hit (Exists _ key) d = (map_of (ed_Fields d) key \<noteq> None)"
| "memory_hit item d = True"

definition memory_client :: "es_doc list \<Rightarrow> es_doc es_client" where
  "memory_client docs =
     \<lparr>es_Search = (\<lambda>b st en scroll.
        let hits = matched memory_hit (eb_Query b) docs
        in Inr \<lparr>er_Total = int (length hits), er_Value = int (length hits), er_Buckets = [],
             er_Hits = take (unat (eb_Size b)) (drop (unat (eb_From b)) hits), er_ScrollId = []\<rparr>),
      es_Scroll = (\<lambda>_. Inr \<lparr>er_Total = 0, er_Value = 0, er_Buckets = [], er_Hits = [], er_ScrollId = []\<rparr>)\<rparr>"

lemma map_of_keyword: "map_of (map (\<lambda>(k, v). (k @ ''.keyword'', v)) m) (key @ ''.keyword'') = map_of m key"
  by (induction m) auto

interpretation memory: indexed_store memory_client memory_hit "\<lambda>_ _ _. True" "\<lambda>d. map_of (ed_Fields d)" "\<lambda>d _. ed_Time d"
  by unfold_locales (simp_all add: memory_client_def map_of_keyword)

end
