(* ===== verification/Tenant_Search.thy ===== *)
theory Tenant_Search
  imports Tenant Es_Query
begin

text \<open>
  Searching logs, events and audit events (\<^verbatim>\<open>pkg/models/tenant/tenant.go\<close>, \<^verbatim>\<open>pkg/models/{logging,events,auditing}\<close>,
  \<^verbatim>\<open>pkg/api/{logging,events,auditing}\<close>): a request is parsed, restricted to the namespaces and workspaces in which the user is
  allowed to see them, each from the time it was created, and sent to Elasticsearch.
\<close>

section \<open>Parsing requests\<close>

datatype parsed_uint = Parsed nat | SyntaxError | RangeError

fun parse_uint :: "nat \<Rightarrow> string \<Rightarrow> parsed_uint" where
  "parse_uint acc [] = Parsed acc"
| "parse_uint acc (c # s) =
     (case digit_value c of
        None \<Rightarrow> SyntaxError
      | Some d \<Rightarrow> if 2 ^ 64 \<le> 10 * acc + d then RangeError else parse_uint (10 * acc + d) s)"

text \<open>\<^verbatim>\<open>strconv.ParseInt\<close> with base ten and 64 bits: the value, the nearest one when out of range, and whether it is exact.\<close>

definition ParseInt :: "string \<Rightarrow> int64 \<times> bool" where
  "ParseInt s =
     (let (neg, ds) =
        (case s of
           [] \<Rightarrow> (False, [])
         | c # r \<Rightarrow> if c = CHR ''-'' then (True, r) else if c = CHR ''+'' then (False, r) else (False, s));
          limit = (word_of_int (if neg then - (2 ^ 63) else 2 ^ 63 - 1), False)
      in if ds = [] then (0, False)
         else
           (case parse_uint 0 ds of
              SyntaxError \<Rightarrow> (0, False)
            | RangeError \<Rightarrow> limit
            | Parsed n \<Rightarrow> if (if neg then 2 ^ 63 < n else 2 ^ 63 \<le> n) then limit
                          else (word_of_int (if neg then - int n else int n), True)))"

definition parse_time :: "string \<Rightarrow> gotime option" where
  "parse_time text =
     (if text = [] then Some None
      else (case ParseInt text of (sec, ok) \<Rightarrow> if ok then Some (Some (sint sec)) else None))"

definition parse_size :: "string \<Rightarrow> int64" where
  "parse_size text = (case ParseInt text of (n, ok) \<Rightarrow> if ok then n else 10)"

definition parse_order :: "string \<Rightarrow> string" where
  "parse_order text = (if text = ''asc'' then ''asc'' else ''desc'')"

record log_query =
  lq_Operation :: string
  lq_NamespaceFilter :: string
  lq_NamespaceSearch :: string
  lq_WorkloadFilter :: string
  lq_WorkloadSearch :: string
  lq_PodFilter :: string
  lq_PodSearch :: string
  lq_ContainerFilter :: string
  lq_ContainerSearch :: string
  lq_LogSearch :: string
  lq_StartTime :: gotime
  lq_EndTime :: gotime
  lq_Interval :: string
  lq_Sort :: string
  lq_From :: int64
  lq_Size :: int64

definition log_ParseQueryParameter :: "url_values \<Rightarrow> log_query option" where
  "log_ParseQueryParameter ps =
     (let arg = QueryParameter ps;
          operation = defaultString (arg ''operation'') ''query''
      in case (parse_time (arg ''start_time''), parse_time (arg ''end_time'')) of
           (Some startTime, Some endTime) \<Rightarrow>
             Some \<lparr>lq_Operation = operation, lq_NamespaceFilter = arg ''namespaces'', lq_NamespaceSearch = arg ''namespace_query'',
               lq_WorkloadFilter = arg ''workloads'', lq_WorkloadSearch = arg ''workload_query'', lq_PodFilter = arg ''pods'',
               lq_PodSearch = arg ''pod_query'', lq_ContainerFilter = arg ''containers'', lq_ContainerSearch = arg ''container_query'',
               lq_LogSearch = arg ''log_query'', lq_StartTime = startTime, lq_EndTime = endTime,
               lq_Interval = (if operation = ''histogram'' then defaultString (arg ''interval'') ''15m'' else []),
               lq_Sort = (if operation = ''query'' then parse_order (arg ''sort'') else []),
               lq_From = (if operation = ''query'' then fst (ParseInt (arg ''from'')) else 0),
               lq_Size = (if operation = ''query'' then parse_size (arg ''size'') else 0)\<rparr>
         | _ \<Rightarrow> None)"

record events_query =
  eq_Operation :: string
  eq_WorkspaceFilter :: string
  eq_WorkspaceSearch :: string
  eq_InvolvedObjectNamespaceFilter :: string
  eq_InvolvedObjectNamespaceSearch :: string
  eq_InvolvedObjectNameFilter :: string
  eq_InvolvedObjectNameSearch :: string
  eq_InvolvedObjectKindFilter :: string
  eq_ReasonFilter :: string
  eq_ReasonSearch :: string
  eq_MessageSearch :: string
  eq_TypeFilter :: string
  eq_StartTime :: gotime
  eq_EndTime :: gotime
  eq_Interval :: string
  eq_Sort :: string
  eq_From :: int64
  eq_Size :: int64

definition events_ParseQueryParameter :: "url_values \<Rightarrow> events_query option" where
  "events_ParseQueryParameter ps =
     (let arg = QueryParameter ps
      in case (parse_time (arg ''start_time''), parse_time (arg ''end_time'')) of
           (Some startTime, Some endTime) \<Rightarrow>
             Some \<lparr>eq_Operation = arg ''operation'', eq_WorkspaceFilter = arg ''workspace_filter'',
               eq_WorkspaceSearch = arg ''workspace_search'', eq_InvolvedObjectNamespaceFilter = arg ''involved_object_namespace_filter'',
               eq_InvolvedObjectNamespaceSearch = arg ''involved_object_namespace_search'',
               eq_InvolvedObjectNameFilter = arg ''involved_object_name_filter'',
               eq_InvolvedObjectNameSearch = arg ''involved_object_name_search'',
               eq_InvolvedObjectKindFilter = arg ''involved_object_kind_filter'', eq_ReasonFilter = arg ''reason_filter'',
               eq_ReasonSearch = arg ''reason_search'', eq_MessageSearch = arg ''message_search'', eq_TypeFilter = arg ''type_filter'',
               eq_StartTime = startTime, eq_EndTime = endTime, eq_Interval = defaultString (arg ''interval'') ''15m'',
               eq_Sort = parse_order (arg ''sort''), eq_From = fst (ParseInt (arg ''from'')), eq_Size = parse_size (arg ''size'')\<rparr>
         | _ \<Rightarrow> None)"

record audit_query =
  aq_Operation :: string
  aq_WorkspaceFilter :: string
  aq_WorkspaceSearch :: string
  aq_ObjectRefNamespaceFilter :: string
  aq_ObjectRefNamespaceSearch :: string
  aq_ObjectRefNameFilter :: string
  aq_ObjectRefNameSearch :: string
  aq_LevelFilter :: string
  aq_VerbFilter :: string
  aq_UserFilter :: string
  aq_UserSearch :: string
  aq_GroupSearch :: string
  aq_SourceIpSearch :: string
  aq_ObjectRefResourceFilter :: string
  aq_ObjectRefSubresourceFilter :: string
  aq_ResponseCodeFilter :: string
  aq_ResponseStatusFilter :: string
  aq_StartTime :: gotime
  aq_EndTime :: gotime
  aq_Interval :: string
  aq_Sort :: string
  aq_From :: int64
  aq_Size :: int64

definition audit_ParseQueryParameter :: "url_values \<Rightarrow> audit_query option" where
  "audit_ParseQueryParameter ps =
     (let arg = QueryParameter ps
      in case (parse_time (arg ''start_time''), parse_time (arg ''end_time'')) of
           (Some startTime, Some endTime) \<Rightarrow>
             Some \<lparr>aq_Operation = arg ''operation'', aq_WorkspaceFilter = arg ''workspace_filter'',
               aq_WorkspaceSearch = arg ''workspace_search'', aq_ObjectRefNamespaceFilter = arg ''objectref_namespace_filter'',
               aq_ObjectRefNamespaceSearch = arg ''objectref_namespace_search'', aq_ObjectRefNameFilter = arg ''objectref_name_filter'',
               aq_ObjectRefNameSearch = arg ''objectref_name_search'', aq_LevelFilter = arg ''level_filter'',
               aq_VerbFilter = arg ''verb_filter'', aq_UserFilter = arg ''user_filter'', aq_UserSearch = arg ''user_search'',
               aq_GroupSearch = arg ''group_search'', aq_SourceIpSearch = arg ''source_ip_search'',
               aq_ObjectRefResourceFilter = arg ''objectref_resource_filter'',
               aq_ObjectRefSubresourceFilter = arg ''objectref_subresource_filter'',
               aq_ResponseCodeFilter = arg ''response_code_filter'', aq_ResponseStatusFilter = arg ''response_status_filter'',
               aq_StartTime = startTime, aq_EndTime = endTime, aq_Interval = defaultString (arg ''interval'') ''15m'',
               aq_Sort = parse_order (arg ''sort''), aq_From = fst (ParseInt (arg ''from'')), aq_Size = parse_size (arg ''size'')\<rparr>
         | _ \<Rightarrow> None)"

section \<open>Namespaces and workspaces that are asked for\<close>

definition Split_comma :: "string \<Rightarrow> string list" where
  "Split_comma s = (if s = [] then [] else SplitChar (CHR '','') s)"

definition stringContains :: "string \<Rightarrow> string list \<Rightarrow> bool" where
  "stringContains str subStrs = list_ex (\<lambda>sub. Contains str sub) subStrs"

definition namespace_chosen :: "string list \<Rightarrow> string list \<Rightarrow> string list \<Rightarrow> string list \<Rightarrow> namespace_object \<Rightarrow> bool" where
  "namespace_chosen workspaces workspaceSubstrs namespaces namespaceSubstrs ns =
     (let name = lm_Name (nsp_Meta ns); ws = map_get [] (lm_Labels (nsp_Meta ns)) WorkspaceLabel
      in (namespaces = [] \<or> List.member namespaces name) \<and>
         (namespaceSubstrs = [] \<or> stringContains name namespaceSubstrs) \<and>
         (if ws \<noteq> [] then (workspaces = [] \<or> List.member workspaces ws) \<and> (workspaceSubstrs = [] \<or> stringContains ws workspaceSubstrs)
          else workspaces = [] \<and> workspaceSubstrs = []))"

text \<open>A list, an error, or \<^const>\<open>None\<close> for a panic of the listing.\<close>

definition listIntersectedNamespaces ::
  "tenant_operator \<Rightarrow> string list \<Rightarrow> string list \<Rightarrow> string list \<Rightarrow> string list \<Rightarrow> (tenant_error, namespace_object list) result option" where
  "listIntersectedNamespaces t workspaces workspaceSubstrs namespaces namespaceSubstrs =
     (case tenant_List t ''namespaces'' New_query of
        TenantFailed e \<Rightarrow> Some (Inl e)
      | TenantPanics \<Rightarrow> None
      | TenantListed r \<Rightarrow>
          Some (Inr (filter (namespace_chosen workspaces workspaceSubstrs namespaces namespaceSubstrs)
                       (List.map_filter as_Namespace (lr_Items r)))))"

definition listIntersectedWorkspaces ::
  "tenant_operator \<Rightarrow> string list \<Rightarrow> string list \<Rightarrow> (tenant_error, list_meta list) result option" where
  "listIntersectedWorkspaces t workspaces workspaceSubstrs =
     (case tenant_List t ''workspaces'' New_query of
        TenantFailed e \<Rightarrow> Some (Inl e)
      | TenantPanics \<Rightarrow> None
      | TenantListed r \<Rightarrow>
          Some (Inr (filter (\<lambda>ws. (workspaces = [] \<or> List.member workspaces (lm_Name ws)) \<and>
                               (workspaceSubstrs = [] \<or> stringContains (lm_Name ws) workspaceSubstrs))
                       (List.map_filter (as_Plain Workspace) (lr_Items r)))))"

section \<open>Where the user may look\<close>

text \<open>The names of a list that an authorizer allows, with their times; an error of the authorizer ends the loop.\<close>

fun allowed_since ::
  "authorizer \<Rightarrow> (string \<Rightarrow> attributes) \<Rightarrow> (string \<times> gotime) list \<Rightarrow> (string, gotime) gomap \<Rightarrow> (string, (string, gotime) gomap) result" where
  "allowed_since authorizer attrs [] m = Inr m"
| "allowed_since authorizer attrs ((name, created) # rest) m =
     (case authorizer (attrs name) of
        (_, _, Some err) \<Rightarrow> Inl err
      | (decision, _, None) \<Rightarrow>
          allowed_since authorizer attrs rest (if decision = DecisionAllow then AList.update name created m else m))"

definition created_namespaces :: "namespace_object list \<Rightarrow> (string \<times> gotime) list" where
  "created_namespaces nss = map (\<lambda>ns. (lm_Name (nsp_Meta ns), Some (lm_CreationTimestamp (nsp_Meta ns)))) nss"

definition created_workspaces :: "list_meta list \<Rightarrow> (string \<times> gotime) list" where
  "created_workspaces wss = map (\<lambda>ws. (lm_Name ws, Some (lm_CreationTimestamp ws))) wss"

definition list_events :: "user_info \<Rightarrow> string \<Rightarrow> attributes" where
  "list_events user scope = (request_attributes user ''list'' ''events'' scope)\<lparr>a_APIVersion := ''v1''\<rparr>"

abbreviation events_in_namespace :: "user_info \<Rightarrow> string \<Rightarrow> attributes" where
  "events_in_namespace user name \<equiv> (list_events user NamespaceScope)\<lparr>a_Namespace := name\<rparr>"

abbreviation events_in_workspace :: "user_info \<Rightarrow> string \<Rightarrow> attributes" where
  "events_in_workspace user name \<equiv> (list_events user WorkspaceScope)\<lparr>a_Workspace := name\<rparr>"

definition get_pod_logs :: "user_info \<Rightarrow> string \<Rightarrow> attributes" where
  "get_pod_logs user scope = (request_attributes user ''get'' ''pods'' scope)\<lparr>a_APIVersion := ''v1'', a_Subresource := ''log''\<rparr>"

abbreviation logs_in_namespace :: "user_info \<Rightarrow> string \<Rightarrow> attributes" where
  "logs_in_namespace user name \<equiv> (get_pod_logs user NamespaceScope)\<lparr>a_Namespace := name\<rparr>"

text \<open>The outcome of a search: an answer, an empty one without asking, an error or a panic.\<close>

datatype 'd searched = SearchAnswer "'d es_answer" | NoHits | SearchFailed tenant_error | SearchPanics

definition of_client :: "(string, 'd es_answer) result \<Rightarrow> 'd searched" where
  "of_client r = (case r of Inl e \<Rightarrow> SearchFailed (Message e) | Inr a \<Rightarrow> SearchAnswer a)"

section \<open>Events\<close>

text \<open>Without any condition on namespaces and workspaces, a user who may list all events also sees those outside of namespaces.\<close>

definition may_list_all_events :: "authorizer \<Rightarrow> user_info \<Rightarrow> bool \<Rightarrow> (string, bool) result" where
  "may_list_all_events authorizer user unrestricted =
     (if unrestricted
      then (case authorizer (list_events user ClusterScope) of
              (_, _, Some err) \<Rightarrow> Inl err
            | (decision, _, None) \<Rightarrow> Inr (decision = DecisionAllow))
      else Inr False)"

definition events_filter_of :: "events_query \<Rightarrow> (string, gotime) gomap \<Rightarrow> events_filter" where
  "events_filter_of q m =
     \<lparr>ef_InvolvedObjectNamespaceMap = m, ef_InvolvedObjectNames = Split_comma (eq_InvolvedObjectNameFilter q),
      ef_InvolvedObjectNameFuzzy = Split_comma (eq_InvolvedObjectNameSearch q),
      ef_InvolvedObjectkinds = Split_comma (eq_InvolvedObjectKindFilter q), ef_Reasons = Split_comma (eq_ReasonFilter q),
      ef_ReasonFuzzy = Split_comma (eq_ReasonSearch q), ef_MessageFuzzy = Split_comma (eq_MessageSearch q),
      ef_Type = eq_TypeFilter q, ef_StartTime = eq_StartTime q, ef_EndTime = eq_EndTime q\<rparr>"

definition events_Events :: "'d es_client \<Rightarrow> events_query \<Rightarrow> (string, gotime) gomap \<Rightarrow> 'd searched" where
  "events_Events c q m =
     (let f = events_filter_of q m
      in if m = [] then NoHits
         else if eq_Operation q = ''histogram'' then of_client (events_CountOverTime c f (eq_Interval q))
         else if eq_Operation q = ''statistics'' then of_client (events_StatisticsOnResources c f)
         else of_client (SearchEvents c f (eq_From q) (eq_Size q) (eq_Sort q)))"

definition events_scope :: "tenant_operator \<Rightarrow> user_info \<Rightarrow> events_query \<Rightarrow> (tenant_error, (string, gotime) gomap) result option" where
  "events_scope t user q =
     (case listIntersectedNamespaces t (Split_comma (eq_WorkspaceFilter q)) (Split_comma (eq_WorkspaceSearch q))
             (Split_comma (eq_InvolvedObjectNamespaceFilter q)) (Split_comma (eq_InvolvedObjectNamespaceSearch q)) of
        None \<Rightarrow> None
      | Some (Inl e) \<Rightarrow> Some (Inl e)
      | Some (Inr nss) \<Rightarrow>
          (case allowed_since (to_authorizer t) (events_in_namespace user) (created_namespaces nss) [] of
             Inl err \<Rightarrow> Some (Inl (Message err))
           | Inr m \<Rightarrow>
               (case may_list_all_events (to_authorizer t) user
                       (eq_WorkspaceFilter q = [] \<and> eq_InvolvedObjectNamespaceFilter q = [] \<and>
                        eq_WorkspaceSearch q = [] \<and> eq_InvolvedObjectNamespaceSearch q = []) of
                  Inl err \<Rightarrow> Some (Inl (Message err))
                | Inr everything \<Rightarrow> Some (Inr (if everything then AList.update [] None m else m)))))"

definition Events :: "tenant_operator \<Rightarrow> 'd es_client \<Rightarrow> user_info \<Rightarrow> events_query \<Rightarrow> 'd searched" where
  "Events t c user q =
     (case events_scope t user q of
        None \<Rightarrow> SearchPanics
      | Some (Inl e) \<Rightarrow> SearchFailed e
      | Some (Inr m) \<Rightarrow> events_Events c q m)"

section \<open>Logs\<close>

text \<open>Whether the user may see all logs, and the namespaces to search; a user who may see all can still ask for some.\<close>

definition log_scope :: "tenant_operator \<Rightarrow> user_info \<Rightarrow> log_query \<Rightarrow> (tenant_error, bool \<times> (string, gotime) gomap) result option" where
  "log_scope t user q =
     (case listIntersectedNamespaces t [] [] (Split_comma (lq_NamespaceFilter q)) (Split_comma (lq_NamespaceSearch q)) of
        None \<Rightarrow> None
      | Some (Inl e) \<Rightarrow> Some (Inl e)
      | Some (Inr nss) \<Rightarrow>
          (case to_authorizer t (get_pod_logs user ClusterScope) of
             (_, _, Some err) \<Rightarrow> Some (Inl (Message err))
           | (decision, _, None) \<Rightarrow>
               if decision = DecisionAllow
               then Some (Inr (True, if lq_NamespaceFilter q \<noteq> [] \<or> lq_NamespaceSearch q \<noteq> []
                                     then fold (\<lambda>ns. AList.update (lm_Name (nsp_Meta ns)) None) nss [] else []))
               else
                 (case allowed_since (to_authorizer t) (logs_in_namespace user) (created_namespaces nss) [] of
                    Inl err \<Rightarrow> Some (Inl (Message err))
                  | Inr m \<Rightarrow> Some (Inr (False, m)))))"

definition log_filter_of :: "log_query \<Rightarrow> (string, gotime) gomap \<Rightarrow> log_filter" where
  "log_filter_of q m =
     \<lparr>sf_NamespaceFilter = m, sf_WorkloadSearch = Split_comma (lq_WorkloadSearch q), sf_WorkloadFilter = Split_comma (lq_WorkloadFilter q),
      sf_PodSearch = Split_comma (lq_PodSearch q), sf_PodFilter = Split_comma (lq_PodFilter q),
      sf_ContainerSearch = Split_comma (lq_ContainerSearch q), sf_ContainerFilter = Split_comma (lq_ContainerFilter q),
      sf_LogSearch = Split_comma (lq_LogSearch q), sf_Starttime = lq_StartTime q, sf_Endtime = lq_EndTime q\<rparr>"

definition noHit :: "log_query \<Rightarrow> bool \<Rightarrow> (string, gotime) gomap \<Rightarrow> bool" where
  "noHit q isGlobalAdmin m =
     ((\<not> isGlobalAdmin \<and> m = []) \<or> (isGlobalAdmin \<and> m = [] \<and> (lq_NamespaceFilter q \<noteq> [] \<or> lq_NamespaceSearch q \<noteq> [])))"

definition QueryLogs :: "tenant_operator \<Rightarrow> 'd es_client \<Rightarrow> user_info \<Rightarrow> log_query \<Rightarrow> 'd searched" where
  "QueryLogs t c user q =
     (case log_scope t user q of
        None \<Rightarrow> SearchPanics
      | Some (Inl e) \<Rightarrow> SearchFailed e
      | Some (Inr (isGlobalAdmin, m)) \<Rightarrow>
          (let sf = log_filter_of q m
           in if noHit q isGlobalAdmin m then NoHits
              else if lq_Operation q = ''statistics'' then of_client (GetCurrentStats c sf)
              else if lq_Operation q = ''histogram'' then of_client (CountLogsByInterval c sf (lq_Interval q))
              else of_client (SearchLogs c sf (lq_From q) (lq_Size q) (lq_Sort q))))"

text \<open>Exporting writes to the response; what was written stays when an error ends it.\<close>

datatype export_outcome = Exported string "tenant_error option" | ExportPanics

definition ExportLogs :: "tenant_operator \<Rightarrow> 'd es_client \<Rightarrow> ('d \<Rightarrow> string) \<Rightarrow> user_info \<Rightarrow> log_query \<Rightarrow> export_outcome" where
  "ExportLogs t c text user q =
     (case log_scope t user q of
        None \<Rightarrow> ExportPanics
      | Some (Inl e) \<Rightarrow> Exported [] (Some e)
      | Some (Inr (isGlobalAdmin, m)) \<Rightarrow>
          if noHit q isGlobalAdmin m then Exported [] None
          else (case client_ExportLogs c text (log_filter_of q m) of (written, err) \<Rightarrow> Exported written (map_option Message err)))"

section \<open>Audit events\<close>

text \<open>Codes that are no numbers are left out; those beyond 32 bits are cut off.\<close>

definition response_codes :: "string \<Rightarrow> 32 word list" where
  "response_codes text =
     List.map_filter (\<lambda>c. case ParseInt c of (code, ok) \<Rightarrow> if ok then Some (ucast code) else None) (Split_comma text)"

definition audit_filter_of :: "audit_query \<Rightarrow> (string, gotime) gomap \<Rightarrow> (string, gotime) gomap \<Rightarrow> audit_filter" where
  "audit_filter_of q nsm wsm =
     \<lparr>af_ObjectRefNamespaceMap = nsm, af_WorkspaceMap = wsm,
      af_ObjectRefNamespaces = Split_comma (aq_ObjectRefNamespaceFilter q),
      af_ObjectRefNamespaceFuzzy = Split_comma (aq_ObjectRefNamespaceSearch q),
      af_Workspaces = Split_comma (aq_WorkspaceFilter q), af_WorkspaceFuzzy = Split_comma (aq_WorkspaceSearch q),
      af_ObjectRefNames = Split_comma (aq_ObjectRefNameFilter q), af_ObjectRefNameFuzzy = Split_comma (aq_ObjectRefNameSearch q),
      af_Levels = Split_comma (aq_LevelFilter q), af_Verbs = Split_comma (aq_VerbFilter q), af_Users = Split_comma (aq_UserFilter q),
      af_UserFuzzy = Split_comma (aq_UserSearch q), af_GroupFuzzy = Split_comma (aq_GroupSearch q),
      af_SourceIpFuzzy = Split_comma (aq_SourceIpSearch q), af_ObjectRefResources = Split_comma (aq_ObjectRefResourceFilter q),
      af_ObjectRefSubresources = Split_comma (aq_ObjectRefSubresourceFilter q),
      af_ResponseCodes = response_codes (aq_ResponseCodeFilter q), af_ResponseStatus = Split_comma (aq_ResponseStatusFilter q),
      af_StartTime = aq_StartTime q, af_EndTime = aq_EndTime q\<rparr>"

definition auditing_Events ::
  "'d es_client \<Rightarrow> audit_query \<Rightarrow> (string, gotime) gomap \<Rightarrow> (string, gotime) gomap \<Rightarrow> 'd searched" where
  "auditing_Events c q nsm wsm =
     (let f = audit_filter_of q nsm wsm
      in if nsm = [] \<and> wsm = [] then NoHits
         else if aq_Operation q = ''histogram'' then of_client (audit_CountOverTime c f (aq_Interval q))
         else if aq_Operation q = ''statistics'' then of_client (audit_StatisticsOnResources c f)
         else of_client (SearchAuditingEvent c f (aq_From q) (aq_Size q) (aq_Sort q)))"

definition audit_scope ::
  "tenant_operator \<Rightarrow> user_info \<Rightarrow> audit_query \<Rightarrow> (tenant_error, (string, gotime) gomap \<times> (string, gotime) gomap) result option" where
  "audit_scope t user q =
     (case listIntersectedNamespaces t (Split_comma (aq_WorkspaceFilter q)) (Split_comma (aq_WorkspaceSearch q))
             (Split_comma (aq_ObjectRefNamespaceFilter q)) (Split_comma (aq_ObjectRefNamespaceSearch q)) of
        None \<Rightarrow> None
      | Some (Inl e) \<Rightarrow> Some (Inl e)
      | Some (Inr nss) \<Rightarrow>
          (case listIntersectedWorkspaces t (Split_comma (aq_WorkspaceFilter q)) (Split_comma (aq_WorkspaceSearch q)) of
             None \<Rightarrow> None
           | Some (Inl e) \<Rightarrow> Some (Inl e)
           | Some (Inr wss) \<Rightarrow>
               (case bind_result (allowed_since (to_authorizer t) (events_in_namespace user) (created_namespaces nss) []) (\<lambda>nsm.
                       bind_result (allowed_since (to_authorizer t) (events_in_workspace user) (created_workspaces wss) []) (\<lambda>wsm.
                       bind_result (may_list_all_events (to_authorizer t) user
                         (aq_WorkspaceFilter q = [] \<and> aq_ObjectRefNamespaceFilter q = [] \<and>
                          aq_WorkspaceSearch q = [] \<and> aq_ObjectRefNamespaceSearch q = [])) (\<lambda>everything.
                       Inr (if everything then (AList.update [] None nsm, AList.update [] None wsm) else (nsm, wsm))))) of
                  Inl err \<Rightarrow> Some (Inl (Message err))
                | Inr maps \<Rightarrow> Some (Inr maps))))"

definition tenant_Auditing :: "tenant_operator \<Rightarrow> 'd es_client \<Rightarrow> user_info \<Rightarrow> audit_query \<Rightarrow> 'd searched" where
  "tenant_Auditing t c user q =
     (case audit_scope t user q of
        None \<Rightarrow> SearchPanics
      | Some (Inl e) \<Rightarrow> SearchFailed e
      | Some (Inr (nsm, wsm)) \<Rightarrow> auditing_Events c q nsm wsm)"

section \<open>Only what the user may see\<close>

definition existing_namespace :: "tenant_operator \<Rightarrow> namespace_object \<Rightarrow> bool" where
  "existing_namespace t ns \<longleftrightarrow>
     (\<exists>r. tenant_List t ''namespaces'' New_query = TenantListed r \<and> Namespace ns \<in> set (lr_Items r))"

definition existing_workspace :: "tenant_operator \<Rightarrow> list_meta \<Rightarrow> bool" where
  "existing_workspace t ws \<longleftrightarrow>
     (\<exists>r. tenant_List t ''workspaces'' New_query = TenantListed r \<and> Plain Workspace ws \<in> set (lr_Items r))"

definition permits :: "tenant_operator \<Rightarrow> attributes \<Rightarrow> bool" where
  "permits t a \<longleftrightarrow> fst (to_authorizer t a) = DecisionAllow"

lemma set_map_filter: "set (List.map_filter f xs) = {y. \<exists>x \<in> set xs. f x = Some y}"
  by (induction xs) (auto simp: List.map_filter_simps split: option.splits)

lemma intersected_namespaces_exist:
  assumes "listIntersectedNamespaces t ws wss ns nss = Some (Inr found)" "n \<in> set found"
  shows "existing_namespace t n"
proof -
  obtain r where r: "tenant_List t ''namespaces'' New_query = TenantListed r"
      "n \<in> set (List.map_filter as_Namespace (lr_Items r))"
    using assms by (auto simp: listIntersectedNamespaces_def split: tenant_outcome.splits)
  then obtain x where "x \<in> set (lr_Items r)" "as_Namespace x = Some n" by (auto simp: set_map_filter)
  then have "Namespace n \<in> set (lr_Items r)" by (auto simp: as_Namespace_def split: kobject.splits)
  with r(1) show ?thesis by (auto simp: existing_namespace_def)
qed

lemma intersected_workspaces_exist:
  assumes "listIntersectedWorkspaces t ws wss = Some (Inr found)" "w \<in> set found"
  shows "existing_workspace t w"
proof -
  obtain r where r: "tenant_List t ''workspaces'' New_query = TenantListed r"
      "w \<in> set (List.map_filter (as_Plain Workspace) (lr_Items r))"
    using assms by (auto simp: listIntersectedWorkspaces_def split: tenant_outcome.splits)
  then obtain x where "x \<in> set (lr_Items r)" "as_Plain Workspace x = Some w" by (auto simp: set_map_filter)
  then have "Plain Workspace w \<in> set (lr_Items r)" by (auto simp: as_Plain_def split: kobject.splits if_splits)
  with r(1) show ?thesis by (auto simp: existing_workspace_def)
qed

lemma set_update_subset: "set (AList.update k v m) \<subseteq> insert (k, v) (set m)"
  by (induction m) auto

lemma allowed_since_sound:
  "allowed_since (to_authorizer t) attrs xs m = Inr r \<Longrightarrow> set r \<subseteq> set m \<union> {(name, created) \<in> set xs. permits t (attrs name)}"
proof (induction xs arbitrary: m)
  case (Cons x xs)
  obtain name created where x: "x = (name, created)" by (cases x)
  obtain d reason where a: "to_authorizer t (attrs name) = (d, reason, None)"
    using Cons.prems by (auto simp: x split: prod.splits option.splits)
  let ?m = "if d = DecisionAllow then AList.update name created m else m"
  have "set r \<subseteq> set ?m \<union> {(name, created) \<in> set xs. permits t (attrs name)}"
    by (rule Cons.IH) (use Cons.prems a x in simp)
  moreover have "set ?m \<subseteq> set m \<union> {(name, created) \<in> set [x]. permits t (attrs name)}"
    using set_update_subset [of name created m] a by (auto simp: x permits_def)
  ultimately show ?case by auto
qed simp

text \<open>The documents of each kind that a user may see: those of namespaces or workspaces where that is allowed, from their creation on.\<close>

definition in_permitted_namespace ::
  "tenant_operator \<Rightarrow> (string \<Rightarrow> attributes) \<Rightarrow> string option \<Rightarrow> int \<Rightarrow> bool" where
  "in_permitted_namespace t attrs namespace moment \<longleftrightarrow>
     (\<exists>ns. existing_namespace t ns \<and> permits t (attrs (lm_Name (nsp_Meta ns))) \<and> namespace = Some (lm_Name (nsp_Meta ns)) \<and>
        lm_CreationTimestamp (nsp_Meta ns) \<le> moment)"

definition in_permitted_workspace ::
  "tenant_operator \<Rightarrow> (string \<Rightarrow> attributes) \<Rightarrow> string option \<Rightarrow> int \<Rightarrow> bool" where
  "in_permitted_workspace t attrs workspace moment \<longleftrightarrow>
     (\<exists>ws. existing_workspace t ws \<and> permits t (attrs (lm_Name ws)) \<and> workspace = Some (lm_Name ws) \<and> lm_CreationTimestamp ws \<le> moment)"

definition log_visible :: "tenant_operator \<Rightarrow> user_info \<Rightarrow> ('d \<Rightarrow> string \<Rightarrow> string option) \<Rightarrow> ('d \<Rightarrow> string \<Rightarrow> int) \<Rightarrow> 'd \<Rightarrow> bool" where
  "log_visible t user field time_of d \<longleftrightarrow>
     permits t (get_pod_logs user ClusterScope) \<or>
     in_permitted_namespace t (logs_in_namespace user) (field d ''kubernetes.namespace_name'') (time_of d ''time'')"

definition event_visible :: "tenant_operator \<Rightarrow> user_info \<Rightarrow> ('d \<Rightarrow> string \<Rightarrow> string option) \<Rightarrow> ('d \<Rightarrow> string \<Rightarrow> int) \<Rightarrow> 'd \<Rightarrow> bool" where
  "event_visible t user field time_of d \<longleftrightarrow>
     (permits t (list_events user ClusterScope) \<and> field d ''involvedObject.namespace'' = None) \<or>
     in_permitted_namespace t (events_in_namespace user) (field d ''involvedObject.namespace'') (time_of d ''lastTimestamp'')"

definition audit_visible :: "tenant_operator \<Rightarrow> user_info \<Rightarrow> ('d \<Rightarrow> string \<Rightarrow> string option) \<Rightarrow> ('d \<Rightarrow> string \<Rightarrow> int) \<Rightarrow> 'd \<Rightarrow> bool" where
  "audit_visible t user field time_of d \<longleftrightarrow>
     (permits t (list_events user ClusterScope) \<and> (field d ''ObjectRef.Namespace'' = Some [] \<or> field d ''Workspace'' = Some [])) \<or>
     in_permitted_namespace t (events_in_namespace user) (field d ''ObjectRef.Namespace'') (time_of d ''RequestReceivedTimestamp'') \<or>
     in_permitted_workspace t (events_in_workspace user) (field d ''Workspace'') (time_of d ''RequestReceivedTimestamp'')"

lemma allowed_namespaces_permitted:
  assumes "listIntersectedNamespaces t ws wss ns nss = Some (Inr found)"
    and "allowed_since (to_authorizer t) attrs (created_namespaces found) [] = Inr m"
    and "(k, v) \<in> set m" "not_before v moment"
  shows "in_permitted_namespace t attrs (Some k) moment"
proof -
  have "(k, v) \<in> set (created_namespaces found)" "permits t (attrs k)" using allowed_since_sound [OF assms(2)] assms(3) by auto
  then obtain n where "n \<in> set found" "k = lm_Name (nsp_Meta n)" "v = Some (lm_CreationTimestamp (nsp_Meta n))"
    by (auto simp: created_namespaces_def)
  with intersected_namespaces_exist [OF assms(1)] \<open>permits t (attrs k)\<close> assms(4)
  show ?thesis by (auto simp: in_permitted_namespace_def not_before_def)
qed

lemma allowed_workspaces_permitted:
  assumes "listIntersectedWorkspaces t ws wss = Some (Inr found)"
    and "allowed_since (to_authorizer t) attrs (created_workspaces found) [] = Inr m"
    and "(k, v) \<in> set m" "not_before v moment"
  shows "in_permitted_workspace t attrs (Some k) moment"
proof -
  have "(k, v) \<in> set (created_workspaces found)" "permits t (attrs k)" using allowed_since_sound [OF assms(2)] assms(3) by auto
  then obtain w where "w \<in> set found" "k = lm_Name w" "v = Some (lm_CreationTimestamp w)" by (auto simp: created_workspaces_def)
  with intersected_workspaces_exist [OF assms(1)] \<open>permits t (attrs k)\<close> assms(4)
  show ?thesis by (auto simp: in_permitted_workspace_def not_before_def)
qed

lemma may_list_all_events_sound: "may_list_all_events (to_authorizer t) user u = Inr True \<Longrightarrow> permits t (list_events user ClusterScope)"
  by (auto simp: may_list_all_events_def permits_def split: if_splits prod.splits option.splits)

lemma log_scope_sound:
  assumes "log_scope t user q = Some (Inr (isGlobalAdmin, m))"
  shows "if isGlobalAdmin then permits t (get_pod_logs user ClusterScope)
    else (\<forall>(k, v) \<in> set m. \<forall>moment. not_before v moment \<longrightarrow> in_permitted_namespace t (logs_in_namespace user) (Some k) moment)"
proof -
  obtain found where found: "listIntersectedNamespaces t [] [] (Split_comma (lq_NamespaceFilter q)) (Split_comma (lq_NamespaceSearch q)) = Some (Inr found)"
    using assms by (auto simp: log_scope_def split: option.splits sum.splits)
  obtain d reason where a: "to_authorizer t (get_pod_logs user ClusterScope) = (d, reason, None)"
    using assms found by (auto simp: log_scope_def split: option.splits prod.splits)
  show ?thesis
  proof (cases "d = DecisionAllow")
    case True
    then show ?thesis using assms found a by (auto simp: log_scope_def permits_def)
  next
    case False
    then have "\<not> isGlobalAdmin" "allowed_since (to_authorizer t) (logs_in_namespace user) (created_namespaces found) [] = Inr m"
      using assms found a by (auto simp: log_scope_def split: sum.splits)
    then show ?thesis using allowed_namespaces_permitted [OF found] by auto
  qed
qed

lemma events_scope_sound:
  assumes "events_scope t user q = Some (Inr m)" "(k, v) \<in> set m"
  shows "(k = [] \<and> permits t (list_events user ClusterScope)) \<or>
    (\<forall>moment. not_before v moment \<longrightarrow> in_permitted_namespace t (events_in_namespace user) (Some k) moment)"
proof -
  obtain found m' everything where s: "listIntersectedNamespaces t (Split_comma (eq_WorkspaceFilter q)) (Split_comma (eq_WorkspaceSearch q))
      (Split_comma (eq_InvolvedObjectNamespaceFilter q)) (Split_comma (eq_InvolvedObjectNamespaceSearch q)) = Some (Inr found)"
    "allowed_since (to_authorizer t) (events_in_namespace user) (created_namespaces found) [] = Inr m'"
    "\<exists>u. may_list_all_events (to_authorizer t) user u = Inr everything" "m = (if everything then AList.update [] None m' else m')"
    using assms(1) by (auto simp: events_scope_def split: option.splits sum.splits)
  have "(k, v) \<in> set m' \<or> everything \<and> k = []" using assms(2) s(4) set_update_subset [of "[]" None m'] by (auto split: if_splits)
  then show ?thesis
    using allowed_namespaces_permitted [OF s(1,2)] s(3) may_list_all_events_sound by (cases everything) auto
qed

lemma audit_scope_sound:
  assumes "audit_scope t user q = Some (Inr (nsm, wsm))"
  shows "(k, v) \<in> set nsm \<Longrightarrow> (k = [] \<and> permits t (list_events user ClusterScope)) \<or>
      (\<forall>moment. not_before v moment \<longrightarrow> in_permitted_namespace t (events_in_namespace user) (Some k) moment)"
    and "(k, v) \<in> set wsm \<Longrightarrow> (k = [] \<and> permits t (list_events user ClusterScope)) \<or>
      (\<forall>moment. not_before v moment \<longrightarrow> in_permitted_workspace t (events_in_workspace user) (Some k) moment)"
proof -
  obtain nss wss nsm' wsm' everything where s:
    "listIntersectedNamespaces t (Split_comma (aq_WorkspaceFilter q)) (Split_comma (aq_WorkspaceSearch q))
      (Split_comma (aq_ObjectRefNamespaceFilter q)) (Split_comma (aq_ObjectRefNamespaceSearch q)) = Some (Inr nss)"
    "listIntersectedWorkspaces t (Split_comma (aq_WorkspaceFilter q)) (Split_comma (aq_WorkspaceSearch q)) = Some (Inr wss)"
    "allowed_since (to_authorizer t) (events_in_namespace user) (created_namespaces nss) [] = Inr nsm'"
    "allowed_since (to_authorizer t) (events_in_workspace user) (created_workspaces wss) [] = Inr wsm'"
    "\<exists>u. may_list_all_events (to_authorizer t) user u = Inr everything"
    "(if everything then (AList.update [] None nsm', AList.update [] None wsm') else (nsm', wsm')) = (nsm, wsm)"
    using assms by (auto simp: audit_scope_def bind_result_Inr_iff split: option.splits sum.splits simp del: prod.inject) blast
  have all: "permits t (list_events user ClusterScope)" if everything using s(5) that may_list_all_events_sound by auto
  have "(k, v) \<in> set nsm' \<or> everything \<and> k = []" if "(k, v) \<in> set nsm"
    using that s(6) set_update_subset [of "[]" None nsm'] by (auto split: if_splits)
  then show "(k, v) \<in> set nsm \<Longrightarrow> (k = [] \<and> permits t (list_events user ClusterScope)) \<or>
      (\<forall>moment. not_before v moment \<longrightarrow> in_permitted_namespace t (events_in_namespace user) (Some k) moment)"
    using allowed_namespaces_permitted [OF s(1,3)] all by blast
  have "(k, v) \<in> set wsm' \<or> everything \<and> k = []" if "(k, v) \<in> set wsm"
    using that s(6) set_update_subset [of "[]" None wsm'] by (auto split: if_splits)
  then show "(k, v) \<in> set wsm \<Longrightarrow> (k = [] \<and> permits t (list_events user ClusterScope)) \<or>
      (\<forall>moment. not_before v moment \<longrightarrow> in_permitted_workspace t (events_in_workspace user) (Some k) moment)"
    using allowed_workspaces_permitted [OF s(2,4)] all by blast
qed

lemmas log_answers = GetCurrentStats_def CountLogsByInterval_def SearchLogs_def
lemmas event_answers = events_CountOverTime_def events_StatisticsOnResources_def SearchEvents_def
lemmas audit_answers = audit_CountOverTime_def audit_StatisticsOnResources_def SearchAuditingEvent_def

context indexed_store
begin

lemma logs_matched:
  assumes scope: "log_scope t user q = Some (Inr (False, m))" and "m \<noteq> []"
    and agree: "filter (log_visible t user field time_of) docs = filter (log_visible t user field time_of) docs'"
  shows "matched hit (log_query_part (log_filter_of q m)) docs = matched hit (log_query_part (log_filter_of q m)) docs'"
proof (rule same_matched [OF _ _ agree])
  have m: "sf_NamespaceFilter (log_filter_of q m) = m" by (simp add: log_filter_of_def)
  show "log_query_part (log_filter_of q m) \<noteq> None" using log_query_scoped [of "log_filter_of q m"] assms(2) m by auto
  fix b d assume "log_query_part (log_filter_of q m) = Some b" "matches hit b d"
  then obtain k v where "(k, v) \<in> set m" "field d ''kubernetes.namespace_name'' = Some k" "not_before v (time_of d ''time'')"
    using log_query_matches [of "log_filter_of q m" b d] assms(2) m by auto
  then show "log_visible t user field time_of d" using log_scope_sound [OF scope] by (auto simp: log_visible_def)
qed

lemma logs_agree:
  assumes agree: "filter (log_visible t user field time_of) docs = filter (log_visible t user field time_of) docs'"
  shows "QueryLogs t (client docs) user q = QueryLogs t (client docs') user q"
    and "ExportLogs t (client docs) text user q = ExportLogs t (client docs') text user q"
proof -
  consider (none) "\<And>c :: 'd es_client. QueryLogs t c user q = QueryLogs t (client docs) user q"
      "\<And>c :: 'd es_client. ExportLogs t c text user q = ExportLogs t (client docs) text user q"
    | (admin) "docs = docs'"
    | (scoped) m where "log_scope t user q = Some (Inr (False, m))" "m \<noteq> []"
  proof (cases "log_scope t user q")
    case None
    then show ?thesis using none by (simp add: QueryLogs_def ExportLogs_def)
  next
    case (Some r)
    show ?thesis
    proof (cases r)
      case (Inl e)
      then show ?thesis using none Some by (simp add: QueryLogs_def ExportLogs_def)
    next
      case (Inr p)
      obtain a m where p: "p = (a, m)" by (cases p)
      show ?thesis
      proof (cases a)
        case True
        then have "log_visible t user field time_of = (\<lambda>_. True)"
          using log_scope_sound [of t user q a m] Some Inr p by (auto simp: log_visible_def fun_eq_iff)
        then show ?thesis using admin agree by simp
      next
        case False
        then show ?thesis using none scoped Some Inr p by (cases "m = []") (auto simp: QueryLogs_def ExportLogs_def noHit_def)
      qed
    qed
  qed
  then have "QueryLogs t (client docs) user q = QueryLogs t (client docs') user q \<and>
    ExportLogs t (client docs) text user q = ExportLogs t (client docs') text user q"
  proof cases
    case none
    show ?thesis by (rule conjI; rule none [symmetric])
  next
    case scoped
    note same = logs_matched [OF scoped agree]
    show ?thesis
      by (simp add: QueryLogs_def ExportLogs_def scoped(1) Let_def log_answers same_search [OF same] same_export [OF same])
  qed simp
  then show "QueryLogs t (client docs) user q = QueryLogs t (client docs') user q"
    and "ExportLogs t (client docs) text user q = ExportLogs t (client docs') text user q"
    by blast+
qed

lemma events_agree:
  assumes names: "\<forall>ns. existing_namespace t ns \<longrightarrow> lm_Name (nsp_Meta ns) \<noteq> []"
    and agree: "filter (event_visible t user field time_of) docs = filter (event_visible t user field time_of) docs'"
  shows "Events t (client docs) user q = Events t (client docs') user q"
proof (cases "\<exists>m. events_scope t user q = Some (Inr m) \<and> m \<noteq> []")
  case True
  then obtain m where scope: "events_scope t user q = Some (Inr m)" and "m \<noteq> []" by blast
  let ?f = "events_filter_of q m"
  have m: "ef_InvolvedObjectNamespaceMap ?f = m" by (simp add: events_filter_of_def)
  have same: "matched hit (events_query_part ?f) docs = matched hit (events_query_part ?f) docs'"
  proof (rule same_matched [OF _ _ agree])
    show "events_query_part ?f \<noteq> None" using events_query_scoped [of ?f] \<open>m \<noteq> []\<close> m by auto
    fix b d assume "events_query_part ?f = Some b" "matches hit b d"
    then obtain k v where kv: "(k, v) \<in> set m" "if k = [] then field d ''involvedObject.namespace'' = None
        else field d ''involvedObject.namespace'' = Some k \<and> not_before v (time_of d ''lastTimestamp'')"
      using events_query_matches [of ?f b d] \<open>m \<noteq> []\<close> unfolding m by blast
    show "event_visible t user field time_of d"
    proof (cases "k = []")
      case True
      have "\<not> in_permitted_namespace t (events_in_namespace user) (Some []) moment" for moment
        using names unfolding in_permitted_namespace_def by (metis option.inject)
      moreover have "\<exists>moment. not_before v moment" by (cases v) (auto simp: not_before_def)
      ultimately have "permits t (list_events user ClusterScope)" using events_scope_sound [OF scope kv(1)] True by blast
      then show ?thesis using kv(2) True by (simp add: event_visible_def)
    next
      case False
      then show ?thesis using events_scope_sound [OF scope kv(1)] kv(2) by (auto simp: event_visible_def)
    qed
  qed
  show ?thesis by (simp add: Events_def scope events_Events_def Let_def event_answers same_search [OF same])
qed (auto simp: Events_def events_Events_def split: option.splits sum.splits)

lemma audits_agree:
  assumes agree: "filter (audit_visible t user field time_of) docs = filter (audit_visible t user field time_of) docs'"
  shows "tenant_Auditing t (client docs) user q = tenant_Auditing t (client docs') user q"
proof (cases "\<exists>nsm wsm. audit_scope t user q = Some (Inr (nsm, wsm)) \<and> (nsm \<noteq> [] \<or> wsm \<noteq> [])")
  case True
  then obtain nsm wsm where scope: "audit_scope t user q = Some (Inr (nsm, wsm))" and nonempty: "nsm \<noteq> [] \<or> wsm \<noteq> []" by blast
  let ?f = "audit_filter_of q nsm wsm"
  have maps: "af_ObjectRefNamespaceMap ?f = nsm" "af_WorkspaceMap ?f = wsm" by (simp_all add: audit_filter_of_def)
  have same: "matched hit (audit_query_part ?f) docs = matched hit (audit_query_part ?f) docs'"
  proof (rule same_matched [OF _ _ agree])
    show "audit_query_part ?f \<noteq> None" using audit_query_scoped [of ?f] nonempty maps by auto
    fix b d assume "audit_query_part ?f = Some b" "matches hit b d"
    then consider k v where "(k, v) \<in> set nsm" "field d ''ObjectRef.Namespace'' = Some k" "not_before v (time_of d ''RequestReceivedTimestamp'')"
      | k v where "(k, v) \<in> set wsm" "field d ''Workspace'' = Some k" "not_before v (time_of d ''RequestReceivedTimestamp'')"
      using audit_query_matches [of ?f b d] nonempty by (auto simp only: maps)
    then show "audit_visible t user field time_of d"
    proof cases
      case 1
      then show ?thesis using audit_scope_sound(1) [OF scope 1(1)] by (auto simp: audit_visible_def)
    next
      case 2
      then show ?thesis using audit_scope_sound(2) [OF scope 2(1)] by (auto simp: audit_visible_def)
    qed
  qed
  show ?thesis by (simp add: tenant_Auditing_def scope auditing_Events_def Let_def audit_answers same_search [OF same])
qed (auto simp: tenant_Auditing_def auditing_Events_def split: option.splits sum.splits)

end

text \<open>
  C5: What a search or an export of logs answers depends only on the logs that the user may see: all of them when the user may
  read the logs of pods in the whole cluster, else those of existing namespaces in which the user may, from the time the
  namespace was created. Two stores that agree on these give the same answer to every query, whatever else they hold, also
  when the query names namespaces, or none, that the user may not look into.
\<close>

theorem logs_confined:
  assumes "indexed_store client hit opened field time_of"
    and "filter (log_visible t user field time_of) docs = filter (log_visible t user field time_of) docs'"
  shows "QueryLogs t (client docs) user q = QueryLogs t (client docs') user q \<and>
    ExportLogs t (client docs) text user q = ExportLogs t (client docs') text user q"
  using indexed_store.logs_agree [OF assms] by blast

text \<open>
  C6: What a search for events or for audit events answers depends only on those that the user may see: the events of namespaces,
  and the audit events of namespaces and workspaces, in which the user may list events, from their creation on; and those that
  belong to none only when the user may list events in the whole cluster. Two stores that agree on these give the same answer.
\<close>

theorem events_confined:
  assumes "indexed_store client hit opened field time_of"
    and "\<forall>ns. existing_namespace t ns \<longrightarrow> lm_Name (nsp_Meta ns) \<noteq> []"
  shows "(filter (event_visible t user field time_of) docs = filter (event_visible t user field time_of) docs' \<longrightarrow>
      Events t (client docs) user q = Events t (client docs') user q) \<and>
    (filter (audit_visible t user field time_of) docs = filter (audit_visible t user field time_of) docs' \<longrightarrow>
      tenant_Auditing t (client docs) user aq = tenant_Auditing t (client docs') user aq)"
  using indexed_store.events_agree [OF assms] indexed_store.audits_agree [OF assms(1)] by blast

section \<open>Witnesses\<close>

definition demo_log :: "string \<Rightarrow> int \<Rightarrow> es_doc" where
  "demo_log ns moment = \<lparr>ed_Fields = [(''kubernetes.namespace_name'', ns)], ed_Time = moment\<rparr>"

definition all_logs :: log_query where
  "all_logs = the (log_ParseQueryParameter [])"

definition logs_allowed_in :: "string \<Rightarrow> authorizer" where
  "logs_allowed_in ns a = (if a_Namespace a = ns \<and> a_Subresource a = ''log'' then DecisionAllow else DecisionNoOpinion, [], None)"

definition log_tenant :: tenant_operator where
  "log_tenant = demo_tenant\<lparr>to_authorizer := logs_allowed_in ''proj''\<rparr>"

lemma bob_reads_logs:
  "QueryLogs log_tenant (memory_client [demo_log ''proj'' 5, demo_log ''other'' 5]) bob all_logs = SearchAnswer (Records 1 [demo_log ''proj'' 5])"
  by code_simp

theorem logs_confined_witness:
  "QueryLogs log_tenant (memory_client [demo_log ''proj'' 5, demo_log ''other'' 5]) bob all_logs =
     QueryLogs log_tenant (memory_client [demo_log ''proj'' 5, demo_log ''secret'' 7]) bob all_logs"
proof -
  have "field = Some ''proj''" if "in_permitted_namespace log_tenant (logs_in_namespace bob) field moment" for field moment
    using that by (auto simp: in_permitted_namespace_def permits_def log_tenant_def logs_allowed_in_def get_pod_logs_def request_attributes_def split: if_splits)
  moreover have "\<not> permits log_tenant (get_pod_logs bob ClusterScope)"
    by (simp add: permits_def log_tenant_def logs_allowed_in_def get_pod_logs_def request_attributes_def)
  ultimately have hidden: "\<not> log_visible log_tenant bob (\<lambda>d. map_of (ed_Fields d)) (\<lambda>d _. ed_Time d) (demo_log ns moment)" if "ns \<noteq> ''proj''" for ns moment
    using that by (auto simp: log_visible_def demo_log_def)
  show ?thesis
    by (rule conjunct1 [OF logs_confined [OF memory.indexed_store_axioms]]) (simp add: hidden)
qed

theorem events_confined_witness:
  "Events log_tenant (memory_client [demo_log ''proj'' 5]) bob (the (events_ParseQueryParameter [])) =
     Events log_tenant (memory_client []) bob (the (events_ParseQueryParameter [])) \<and>
   tenant_Auditing log_tenant (memory_client [demo_log ''proj'' 5]) bob (the (audit_ParseQueryParameter [])) =
     tenant_Auditing log_tenant (memory_client []) bob (the (audit_ParseQueryParameter []))"
proof -
  have named: "\<forall>ns. existing_namespace log_tenant ns \<longrightarrow> lm_Name (nsp_Meta ns) \<noteq> []"
  proof (intro allI impI)
    fix ns assume "existing_namespace log_tenant ns"
    moreover have "tenant_List log_tenant ''namespaces'' New_query = TenantListed \<lparr>lr_TotalItems = 1, lr_Items = [Namespace dev_namespace]\<rparr>"
      by code_simp
    ultimately have "ns = dev_namespace" by (simp add: existing_namespace_def)
    then show "lm_Name (nsp_Meta ns) \<noteq> []" by (simp add: dev_namespace_def dev_meta_def demo_meta_def)
  qed
  have none: "\<not> permits log_tenant (list_events bob scope)" "\<not> permits log_tenant (events_in_namespace bob name)"
      "\<not> permits log_tenant (events_in_workspace bob name)" for scope name
    by (simp_all add: permits_def log_tenant_def logs_allowed_in_def list_events_def request_attributes_def)
  have hidden: "\<not> event_visible log_tenant bob field time_of d" "\<not> audit_visible log_tenant bob field time_of d" for field time_of and d :: es_doc
    by (simp_all add: event_visible_def audit_visible_def in_permitted_namespace_def in_permitted_workspace_def none)
  note confined = events_confined [OF memory.indexed_store_axioms named]
  show ?thesis
    by (rule conjI, rule conjunct1 [OF confined, THEN mp], simp add: hidden, rule conjunct2 [OF confined, THEN mp], simp add: hidden)
qed

end
