(* ===== verification/Tenant_Api.thy ===== *)
theory Tenant_Api
  imports Tenant_Search
begin

text \<open>
  Changing what belongs to a workspace (\<^verbatim>\<open>pkg/models/tenant/tenant.go\<close>, \<^verbatim>\<open>resourcequota.go\<close>): namespaces, templates and
  quotas; and the handlers of the tenant API (\<^verbatim>\<open>pkg/kapis/tenant/v1alpha2/handler.go\<close>, \<^verbatim>\<open>v1alpha3/handler.go\<close>).

  The Kubernetes API is a client whose calls are functions of an abstract state of the server. Of the objects in requests the
  name and the labels are read and written, the rest is passed on.
\<close>

section \<open>Objects and the client\<close>

record 'r object_body =
  ob_Name :: string
  ob_Labels :: "(string, string) gomap option" \<comment> \<open>\<^const>\<open>None\<close> is the nil map\<close>
  ob_Rest :: 'r

record 'r quota_object =
  qo_Name :: string
  qo_Labels :: "(string, string) gomap option"
  qo_LabelSelector :: "(string, string) gomap"
  qo_Rest :: 'r

record workspace_template =
  wt_Meta :: list_meta
  wt_Finalizers :: "string list"

datatype propagation = Orphan | OtherPolicy string

record delete_options =
  do_PropagationPolicy :: "propagation option"
  do_GracePeriodSeconds :: "int option"

definition NewDeleteOptions :: delete_options where
  "NewDeleteOptions = \<lparr>do_PropagationPolicy = None, do_GracePeriodSeconds = Some 0\<rparr>"

record ('r, 's) tenant_client =
  tc_CreateNamespace :: "'r object_body \<Rightarrow> 's \<Rightarrow> (api_error, 'r object_body) result \<times> 's"
  tc_UpdateNamespace :: "'r object_body \<Rightarrow> 's \<Rightarrow> (api_error, 'r object_body) result \<times> 's"
  tc_PatchNamespace :: "string \<Rightarrow> 'r object_body \<Rightarrow> 's \<Rightarrow> (api_error, 'r object_body) result \<times> 's"
  tc_DeleteNamespace :: "string \<Rightarrow> delete_options \<Rightarrow> 's \<Rightarrow> api_error option \<times> 's"
  tc_CreateTemplate :: "'r object_body \<Rightarrow> 's \<Rightarrow> (api_error, 'r object_body) result \<times> 's"
  tc_UpdateTemplate :: "'r object_body \<Rightarrow> 's \<Rightarrow> (api_error, 'r object_body) result \<times> 's"
  tc_UpdateFinalizers :: "workspace_template \<Rightarrow> 's \<Rightarrow> api_error option \<times> 's"
  tc_PatchTemplate :: "string \<Rightarrow> 'r \<Rightarrow> 's \<Rightarrow> (api_error, 'r object_body) result \<times> 's"
  tc_DeleteTemplate :: "string \<Rightarrow> delete_options \<Rightarrow> 's \<Rightarrow> api_error option \<times> 's"
  tc_GetQuota :: "string \<Rightarrow> 's \<Rightarrow> (api_error, 'r quota_object) result \<times> 's"
  tc_CreateQuota :: "'r quota_object \<Rightarrow> 's \<Rightarrow> (api_error, 'r quota_object) result \<times> 's"
  tc_UpdateQuota :: "'r quota_object \<Rightarrow> 's \<Rightarrow> (api_error, 'r quota_object) result \<times> 's"
  tc_DeleteQuota :: "string \<Rightarrow> delete_options \<Rightarrow> 's \<Rightarrow> api_error option \<times> 's"
  tc_IsBadRequest :: "api_error \<Rightarrow> bool"

abbreviation api_failure :: "api_error \<Rightarrow> tenant_error" where "api_failure e \<equiv> Registry (Failed e)"

text \<open>An operation ends with a value or an error, or it panics, and leaves a state.\<close>

datatype 'a ended = Ended 'a | EndedWith tenant_error | EndedPanic

definition ended_result :: "(api_error, 'a) result \<times> 's \<Rightarrow> 'a ended \<times> 's" where
  "ended_result r = (case r of (Inl e, s) \<Rightarrow> (EndedWith (api_failure e), s) | (Inr x, s) \<Rightarrow> (Ended x, s))"

definition ended_option :: "api_error option \<times> 's \<Rightarrow> unit ended \<times> 's" where
  "ended_option r = (case r of (Some e, s) \<Rightarrow> (EndedWith (api_failure e), s) | (None, s) \<Rightarrow> (Ended (), s))"

section \<open>Namespaces\<close>

definition labelNamespaceWithWorkspaceName :: "'r object_body \<Rightarrow> string \<Rightarrow> 'r object_body" where
  "labelNamespaceWithWorkspaceName namespace workspaceName =
     namespace\<lparr>ob_Labels := Some (AList.update WorkspaceLabel workspaceName (case ob_Labels namespace of None \<Rightarrow> [] | Some ls \<Rightarrow> ls))\<rparr>"

definition CreateNamespace :: "('r, 's) tenant_client \<Rightarrow> string \<Rightarrow> 'r object_body \<Rightarrow> 's \<Rightarrow> 'r object_body ended \<times> 's" where
  "CreateNamespace c workspace namespace s =
     ended_result (tc_CreateNamespace c (labelNamespaceWithWorkspaceName namespace workspace) s)"

definition DescribeNamespace :: "tenant_operator \<Rightarrow> string \<Rightarrow> string \<Rightarrow> namespace_object ended" where
  "DescribeNamespace t workspace namespace =
     (case tenant_Get t ''namespaces'' [] namespace of
        Inl e \<Rightarrow> EndedWith (Registry e)
      | Inr obj \<Rightarrow>
          (case as_Namespace obj of
             None \<Rightarrow> EndedPanic
           | Some ns \<Rightarrow> if map_get [] (lm_Labels (nsp_Meta ns)) WorkspaceLabel \<noteq> workspace then EndedWith tenant_NotFound else Ended ns))"

text \<open>An operation on a namespace of the workspace.\<close>

definition in_described :: "'n ended \<Rightarrow> ('s \<Rightarrow> 'a ended \<times> 's) \<Rightarrow> 's \<Rightarrow> 'a ended \<times> 's" where
  "in_described d f s = (case d of Ended _ \<Rightarrow> f s | EndedWith e \<Rightarrow> (EndedWith e, s) | EndedPanic \<Rightarrow> (EndedPanic, s))"

definition DeleteNamespace :: "tenant_operator \<Rightarrow> ('r, 's) tenant_client \<Rightarrow> string \<Rightarrow> string \<Rightarrow> 's \<Rightarrow> unit ended \<times> 's" where
  "DeleteNamespace t c workspace namespace =
     in_described (DescribeNamespace t workspace namespace) (\<lambda>s. ended_option (tc_DeleteNamespace c namespace NewDeleteOptions s))"

definition UpdateNamespace :: "tenant_operator \<Rightarrow> ('r, 's) tenant_client \<Rightarrow> string \<Rightarrow> 'r object_body \<Rightarrow> 's \<Rightarrow> 'r object_body ended \<times> 's" where
  "UpdateNamespace t c workspace namespace =
     in_described (DescribeNamespace t workspace (ob_Name namespace))
       (\<lambda>s. ended_result (tc_UpdateNamespace c (labelNamespaceWithWorkspaceName namespace workspace) s))"

definition PatchNamespace :: "tenant_operator \<Rightarrow> ('r, 's) tenant_client \<Rightarrow> string \<Rightarrow> 'r object_body \<Rightarrow> 's \<Rightarrow> 'r object_body ended \<times> 's" where
  "PatchNamespace t c workspace namespace =
     in_described (DescribeNamespace t workspace (ob_Name namespace))
       (\<lambda>s. ended_result (tc_PatchNamespace c (ob_Name namespace)
              (namespace\<lparr>ob_Labels := map_option (AList.update WorkspaceLabel workspace) (ob_Labels namespace)\<rparr>) s))"

section \<open>Templates\<close>

definition CreateWorkspaceTemplate :: "('r, 's) tenant_client \<Rightarrow> 'r object_body \<Rightarrow> 's \<Rightarrow> 'r object_body ended \<times> 's" where
  "CreateWorkspaceTemplate c workspace s = ended_result (tc_CreateTemplate c workspace s)"

definition UpdateWorkspaceTemplate :: "('r, 's) tenant_client \<Rightarrow> 'r object_body \<Rightarrow> 's \<Rightarrow> 'r object_body ended \<times> 's" where
  "UpdateWorkspaceTemplate c workspace s = ended_result (tc_UpdateTemplate c workspace s)"

definition PatchWorkspaceTemplate :: "('r, 's) tenant_client \<Rightarrow> string \<Rightarrow> 'r \<Rightarrow> 's \<Rightarrow> 'r object_body ended \<times> 's" where
  "PatchWorkspaceTemplate c workspace data s = ended_result (tc_PatchTemplate c workspace data s)"

abbreviation orphanFinalizer :: string where "orphanFinalizer \<equiv> ''orphan.finalizers.kubesphere.io''"

text \<open>To leave the namespaces of a workspace behind, its template first gets a finalizer that says so.\<close>

definition DeleteWorkspaceTemplate ::
  "tenant_operator \<Rightarrow> ('r, 's) tenant_client \<Rightarrow> string \<Rightarrow> delete_options \<Rightarrow> 's \<Rightarrow> unit ended \<times> 's" where
  "DeleteWorkspaceTemplate t c workspace opts s =
     (if do_PropagationPolicy opts = Some Orphan
      then
        (case DescribeWorkspaceTemplate t workspace of
           None \<Rightarrow> (EndedPanic, s)
         | Some (Inl e) \<Rightarrow> (EndedWith e, s)
         | Some (Inr meta) \<Rightarrow>
             (case tc_UpdateFinalizers c \<lparr>wt_Meta = meta, wt_Finalizers = to_Finalizers t workspace @ [orphanFinalizer]\<rparr> s of
                (Some e, s') \<Rightarrow> (EndedWith (api_failure e), s')
              | (None, s') \<Rightarrow> ended_option (tc_DeleteTemplate c workspace opts s')))
      else ended_option (tc_DeleteTemplate c workspace opts s))"

section \<open>Quotas of a workspace\<close>

definition quota_in_workspace :: "string \<Rightarrow> 'r quota_object \<Rightarrow> 'r quota_object" where
  "quota_in_workspace workspace quota =
     quota\<lparr>qo_Labels := Some (AList.update WorkspaceLabel workspace (case qo_Labels quota of None \<Rightarrow> [] | Some ls \<Rightarrow> ls)),
           qo_LabelSelector := [(WorkspaceLabel, workspace)]\<rparr>"

definition CreateWorkspaceResourceQuota ::
  "('r, 's) tenant_client \<Rightarrow> string \<Rightarrow> 'r quota_object \<Rightarrow> 's \<Rightarrow> 'r quota_object ended \<times> 's" where
  "CreateWorkspaceResourceQuota c workspace quota s = ended_result (tc_CreateQuota c (quota_in_workspace workspace quota) s)"

definition DescribeWorkspaceResourceQuota ::
  "('r, 's) tenant_client \<Rightarrow> string \<Rightarrow> string \<Rightarrow> 's \<Rightarrow> 'r quota_object ended \<times> 's" where
  "DescribeWorkspaceResourceQuota c workspace name s =
     (case tc_GetQuota c name s of
        (Inl e, s') \<Rightarrow> (EndedWith (api_failure e), s')
      | (Inr quota, s') \<Rightarrow>
          (if map_get [] (case qo_Labels quota of None \<Rightarrow> [] | Some ls \<Rightarrow> ls) WorkspaceLabel \<noteq> workspace
           then EndedWith tenant_NotFound else Ended quota, s'))"

definition after_described :: "'n ended \<times> 's \<Rightarrow> ('s \<Rightarrow> 'a ended \<times> 's) \<Rightarrow> 'a ended \<times> 's" where
  "after_described d f = in_described (fst d) f (snd d)"

definition UpdateWorkspaceResourceQuota ::
  "('r, 's) tenant_client \<Rightarrow> string \<Rightarrow> 'r quota_object \<Rightarrow> 's \<Rightarrow> 'r quota_object ended \<times> 's" where
  "UpdateWorkspaceResourceQuota c workspace quota s =
     after_described (DescribeWorkspaceResourceQuota c workspace (qo_Name quota) s)
       (\<lambda>s'. ended_result (tc_UpdateQuota c (quota_in_workspace workspace quota) s'))"

definition DeleteWorkspaceResourceQuota :: "('r, 's) tenant_client \<Rightarrow> string \<Rightarrow> string \<Rightarrow> 's \<Rightarrow> unit ended \<times> 's" where
  "DeleteWorkspaceResourceQuota c workspace name s =
     after_described (DescribeWorkspaceResourceQuota c workspace name s)
       (\<lambda>s'. ended_option (tc_DeleteQuota c name \<lparr>do_PropagationPolicy = None, do_GracePeriodSeconds = None\<rparr> s'))"

section \<open>Handlers\<close>

datatype 'a tenant_reply = Answered 'a | Refusal nat | HandlerPanics

text \<open>How errors are turned into a status.\<close>

definition reply_or_internal :: "'a ended \<Rightarrow> 'a tenant_reply" where
  "reply_or_internal r = (case r of Ended x \<Rightarrow> Answered x | EndedWith _ \<Rightarrow> Refusal 500 | EndedPanic \<Rightarrow> HandlerPanics)"

definition reply_read :: "'a ended \<Rightarrow> 'a tenant_reply" where
  "reply_read r =
     (case r of Ended x \<Rightarrow> Answered x | EndedWith e \<Rightarrow> Refusal (if e = tenant_NotFound then 404 else 500) | EndedPanic \<Rightarrow> HandlerPanics)"

definition reply_create :: "'a ended \<Rightarrow> 'a tenant_reply" where
  "reply_create r =
     (case r of Ended x \<Rightarrow> Answered x | EndedWith e \<Rightarrow> Refusal (if e = tenant_NotFound then 404 else 400) | EndedPanic \<Rightarrow> HandlerPanics)"

definition reply_write :: "('r, 's) tenant_client \<Rightarrow> 'a ended \<Rightarrow> 'a tenant_reply" where
  "reply_write c r =
     (case r of
        Ended x \<Rightarrow> Answered x
      | EndedWith e \<Rightarrow>
          Refusal (if e = tenant_NotFound then 404
                   else case e of Registry (Failed err) \<Rightarrow> if tc_IsBadRequest c err then 400 else 500 | _ \<Rightarrow> 500)
      | EndedPanic \<Rightarrow> HandlerPanics)"

definition ended_listing :: "tenant_outcome \<Rightarrow> kobject list_result ended" where
  "ended_listing r = (case r of TenantListed l \<Rightarrow> Ended l | TenantFailed e \<Rightarrow> EndedWith e | TenantPanics \<Rightarrow> EndedPanic)"

definition ended_read :: "(tenant_error, 'a) result option \<Rightarrow> 'a ended" where
  "ended_read r = (case r of None \<Rightarrow> EndedPanic | Some (Inl e) \<Rightarrow> EndedWith e | Some (Inr x) \<Rightarrow> Ended x)"

definition ended_search :: "'d searched \<Rightarrow> 'd searched ended" where
  "ended_search r = (case r of SearchFailed e \<Rightarrow> EndedWith e | SearchPanics \<Rightarrow> EndedPanic | _ \<Rightarrow> Ended r)"

text \<open>The user of a request is missing when nobody authenticated it.\<close>

definition for_user :: "user_info option \<Rightarrow> (user_info \<Rightarrow> 'a tenant_reply) \<Rightarrow> 'a tenant_reply" where
  "for_user user f = (case user of None \<Rightarrow> Refusal 403 | Some u \<Rightarrow> f u)"

text \<open>Listings. The member of a workspace whose view is asked for can be named in the path; it comes without groups.\<close>

definition workspace_member :: "user_info option \<Rightarrow> string \<Rightarrow> user_info option" where
  "workspace_member user member = (if member = [] then user else Some \<lparr>u_Name = member, u_Groups = []\<rparr>)"

definition handleListWorkspaces :: "tenant_operator \<Rightarrow> user_info option \<Rightarrow> url_values \<Rightarrow> kobject list_result tenant_reply" where
  "handleListWorkspaces t user ps =
     for_user user (\<lambda>u. reply_or_internal (ended_listing (ListWorkspaces t u (ParseQueryParameter ps))))"

definition handleGetWorkspace :: "tenant_operator \<Rightarrow> string \<Rightarrow> list_meta tenant_reply" where
  "handleGetWorkspace t workspace = reply_read (ended_read (GetWorkspace t workspace))"

definition handleListWorkspaceTemplates :: "tenant_operator \<Rightarrow> user_info option \<Rightarrow> url_values \<Rightarrow> kobject list_result tenant_reply" where
  "handleListWorkspaceTemplates t user ps =
     for_user user (\<lambda>u. reply_or_internal (ended_listing (ListWorkspaceTemplates t u (ParseQueryParameter ps))))"

definition handleListFederatedNamespaces ::
  "tenant_operator \<Rightarrow> user_info option \<Rightarrow> string \<Rightarrow> url_values \<Rightarrow> kobject list_result tenant_reply" where
  "handleListFederatedNamespaces t user workspace ps =
     for_user user (\<lambda>u. reply_or_internal (ended_listing (ListFederatedNamespaces t u workspace (ParseQueryParameter ps))))"

definition handleListNamespaces ::
  "tenant_operator \<Rightarrow> user_info option \<Rightarrow> string \<Rightarrow> string \<Rightarrow> url_values \<Rightarrow> kobject list_result tenant_reply" where
  "handleListNamespaces t user workspace member ps =
     for_user (workspace_member user member)
       (\<lambda>u. reply_or_internal (ended_listing (ListNamespaces t u workspace (ParseQueryParameter ps))))"

definition handleListDevOpsProjects ::
  "tenant_operator \<Rightarrow> user_info option \<Rightarrow> string \<Rightarrow> string \<Rightarrow> url_values \<Rightarrow> kobject list_result tenant_reply" where
  "handleListDevOpsProjects t user workspace member ps =
     for_user (workspace_member user member)
       (\<lambda>u. reply_or_internal (ended_listing (ListDevOpsProjects t u workspace (ParseQueryParameter ps))))"

definition handleListWorkspaceClusters :: "tenant_operator \<Rightarrow> string \<Rightarrow> kobject list_result tenant_reply" where
  "handleListWorkspaceClusters t workspace = reply_read (ended_listing (ListWorkspaceClusters t workspace))"

text \<open>Without a user the clusters are answered with an empty array.\<close>

definition handleListClusters :: "tenant_operator \<Rightarrow> user_info option \<Rightarrow> url_values \<Rightarrow> kobject list_result option tenant_reply" where
  "handleListClusters t user ps =
     (case user of
        None \<Rightarrow> Answered None
      | Some u \<Rightarrow>
          (case reply_read (ended_listing (ListClusters t u (ParseQueryParameter ps))) of
             Answered l \<Rightarrow> Answered (Some l) | Refusal n \<Rightarrow> Refusal n | HandlerPanics \<Rightarrow> HandlerPanics))"

text \<open>Searches. A query that cannot be parsed is an internal error; an export writes before it may fail, and
  what was written then stays, with the error after it.\<close>

definition handleEvents :: "tenant_operator \<Rightarrow> 'd es_client \<Rightarrow> user_info option \<Rightarrow> url_values \<Rightarrow> 'd searched tenant_reply" where
  "handleEvents t es user ps =
     for_user user (\<lambda>u.
       case events_ParseQueryParameter ps of
         None \<Rightarrow> Refusal 500 | Some q \<Rightarrow> reply_or_internal (ended_search (Events t es u q)))"

datatype 'd logs_reply = LogsFound "'d searched" | LogsWritten string "tenant_error option"

definition handleQueryLogs ::
  "tenant_operator \<Rightarrow> 'd es_client \<Rightarrow> ('d \<Rightarrow> string) \<Rightarrow> user_info option \<Rightarrow> url_values \<Rightarrow> 'd logs_reply tenant_reply" where
  "handleQueryLogs t es text user ps =
     for_user user (\<lambda>u.
       case log_ParseQueryParameter ps of
         None \<Rightarrow> Refusal 500
       | Some q \<Rightarrow>
           if lq_Operation q = ''export''
           then (case ExportLogs t es text u q of
                   Exported [] (Some _) \<Rightarrow> Refusal 500
                 | Exported written err \<Rightarrow> Answered (LogsWritten written err)
                 | ExportPanics \<Rightarrow> HandlerPanics)
           else (case QueryLogs t es u q of
                   SearchFailed _ \<Rightarrow> Refusal 500 | SearchPanics \<Rightarrow> HandlerPanics | r \<Rightarrow> Answered (LogsFound r)))"

definition handleAuditing :: "tenant_operator \<Rightarrow> 'd es_client \<Rightarrow> user_info option \<Rightarrow> url_values \<Rightarrow> 'd searched tenant_reply" where
  "handleAuditing t es user ps =
     for_user user (\<lambda>u.
       case audit_ParseQueryParameter ps of
         None \<Rightarrow> Refusal 500 | Some q \<Rightarrow> reply_or_internal (ended_search (tenant_Auditing t es u q)))"

text \<open>Changes. A body that cannot be read is \<^const>\<open>None\<close>.\<close>

definition replying :: "('a ended \<Rightarrow> 'b tenant_reply) \<Rightarrow> 'a ended \<times> 's \<Rightarrow> 'b tenant_reply \<times> 's" where
  "replying f r = (f (fst r), snd r)"

definition handleCreateNamespace ::
  "('r, 's) tenant_client \<Rightarrow> string \<Rightarrow> 'r object_body option \<Rightarrow> 's \<Rightarrow> 'r object_body tenant_reply \<times> 's" where
  "handleCreateNamespace c workspace body s =
     (case body of None \<Rightarrow> (Refusal 400, s) | Some ns \<Rightarrow> replying reply_create (CreateNamespace c workspace ns s))"

definition handleDescribeNamespace :: "tenant_operator \<Rightarrow> string \<Rightarrow> string \<Rightarrow> namespace_object tenant_reply" where
  "handleDescribeNamespace t workspace namespace = reply_read (DescribeNamespace t workspace namespace)"

definition handleDeleteNamespace :: "tenant_operator \<Rightarrow> ('r, 's) tenant_client \<Rightarrow> string \<Rightarrow> string \<Rightarrow> 's \<Rightarrow> unit tenant_reply \<times> 's" where
  "handleDeleteNamespace t c workspace namespace s = replying reply_read (DeleteNamespace t c workspace namespace s)"

definition handleUpdateNamespace ::
  "tenant_operator \<Rightarrow> ('r, 's) tenant_client \<Rightarrow> string \<Rightarrow> string \<Rightarrow> 'r object_body option \<Rightarrow> 's \<Rightarrow> 'r object_body tenant_reply \<times> 's" where
  "handleUpdateNamespace t c workspace namespace body s =
     (case body of
        None \<Rightarrow> (Refusal 400, s)
      | Some ns \<Rightarrow> if namespace \<noteq> ob_Name ns then (Refusal 400, s) else replying (reply_write c) (UpdateNamespace t c workspace ns s))"

definition handlePatchNamespace ::
  "tenant_operator \<Rightarrow> ('r, 's) tenant_client \<Rightarrow> string \<Rightarrow> string \<Rightarrow> 'r object_body option \<Rightarrow> 's \<Rightarrow> 'r object_body tenant_reply \<times> 's" where
  "handlePatchNamespace t c workspace namespace body s =
     (case body of
        None \<Rightarrow> (Refusal 400, s)
      | Some ns \<Rightarrow> replying (reply_write c) (PatchNamespace t c workspace (ns\<lparr>ob_Name := namespace\<rparr>) s))"

definition handleCreateWorkspaceTemplate ::
  "('r, 's) tenant_client \<Rightarrow> 'r object_body option \<Rightarrow> 's \<Rightarrow> 'r object_body tenant_reply \<times> 's" where
  "handleCreateWorkspaceTemplate c body s =
     (case body of None \<Rightarrow> (Refusal 400, s) | Some w \<Rightarrow> replying reply_create (CreateWorkspaceTemplate c w s))"

definition handleDescribeWorkspaceTemplate :: "tenant_operator \<Rightarrow> string \<Rightarrow> list_meta tenant_reply" where
  "handleDescribeWorkspaceTemplate t workspace = reply_read (ended_read (DescribeWorkspaceTemplate t workspace))"

definition handleUpdateWorkspaceTemplate ::
  "('r, 's) tenant_client \<Rightarrow> string \<Rightarrow> 'r object_body option \<Rightarrow> 's \<Rightarrow> 'r object_body tenant_reply \<times> 's" where
  "handleUpdateWorkspaceTemplate c workspace body s =
     (case body of
        None \<Rightarrow> (Refusal 400, s)
      | Some w \<Rightarrow> if workspace \<noteq> ob_Name w then (Refusal 400, s) else replying (reply_write c) (UpdateWorkspaceTemplate c w s))"

definition handlePatchWorkspaceTemplate ::
  "('r, 's) tenant_client \<Rightarrow> string \<Rightarrow> 'r option \<Rightarrow> 's \<Rightarrow> 'r object_body tenant_reply \<times> 's" where
  "handlePatchWorkspaceTemplate c workspace body s =
     (case body of None \<Rightarrow> (Refusal 400, s) | Some data \<Rightarrow> replying (reply_write c) (PatchWorkspaceTemplate c workspace data s))"

text \<open>Options that cannot be read are replaced by the default ones.\<close>

definition handleDeleteWorkspaceTemplate ::
  "tenant_operator \<Rightarrow> ('r, 's) tenant_client \<Rightarrow> string \<Rightarrow> delete_options option \<Rightarrow> 's \<Rightarrow> unit tenant_reply \<times> 's" where
  "handleDeleteWorkspaceTemplate t c workspace body s =
     replying reply_create (DeleteWorkspaceTemplate t c workspace (case body of None \<Rightarrow> NewDeleteOptions | Some opts \<Rightarrow> opts) s)"

definition handleCreateWorkspaceResourceQuota ::
  "('r, 's) tenant_client \<Rightarrow> string \<Rightarrow> 'r quota_object option \<Rightarrow> 's \<Rightarrow> 'r quota_object tenant_reply \<times> 's" where
  "handleCreateWorkspaceResourceQuota c workspace body s =
     (case body of None \<Rightarrow> (Refusal 400, s) | Some q \<Rightarrow> replying reply_or_internal (CreateWorkspaceResourceQuota c workspace q s))"

definition handleUpdateWorkspaceResourceQuota ::
  "('r, 's) tenant_client \<Rightarrow> string \<Rightarrow> string \<Rightarrow> 'r quota_object option \<Rightarrow> 's \<Rightarrow> 'r quota_object tenant_reply \<times> 's" where
  "handleUpdateWorkspaceResourceQuota c workspace name body s =
     (case body of
        None \<Rightarrow> (Refusal 400, s)
      | Some q \<Rightarrow> if name \<noteq> qo_Name q then (Refusal 400, s) else replying reply_or_internal (UpdateWorkspaceResourceQuota c workspace q s))"

definition handleDeleteWorkspaceResourceQuota :: "('r, 's) tenant_client \<Rightarrow> string \<Rightarrow> string \<Rightarrow> 's \<Rightarrow> unit tenant_reply \<times> 's" where
  "handleDeleteWorkspaceResourceQuota c workspace name s = replying reply_read (DeleteWorkspaceResourceQuota c workspace name s)"

definition handleDescribeWorkspaceResourceQuota ::
  "('r, 's) tenant_client \<Rightarrow> string \<Rightarrow> string \<Rightarrow> 's \<Rightarrow> 'r quota_object tenant_reply \<times> 's" where
  "handleDescribeWorkspaceResourceQuota c workspace name s = replying reply_read (DescribeWorkspaceResourceQuota c workspace name s)"

text \<open>A quota of another workspace is neither changed nor deleted; an update of it is answered as an internal error.\<close>

lemma foreign_quota_untouched:
  assumes "tc_GetQuota c name s = (Inr quota, s')"
    and "map_get [] (case qo_Labels quota of None \<Rightarrow> [] | Some ls \<Rightarrow> ls) WorkspaceLabel \<noteq> workspace"
  shows "handleDeleteWorkspaceResourceQuota c workspace name s = (Refusal 404, s')"
    and "qo_Name q = name \<Longrightarrow> handleUpdateWorkspaceResourceQuota c workspace name (Some q) s = (Refusal 500, s')"
  using assms
  by (simp_all add: handleDeleteWorkspaceResourceQuota_def DeleteWorkspaceResourceQuota_def handleUpdateWorkspaceResourceQuota_def
      UpdateWorkspaceResourceQuota_def DescribeWorkspaceResourceQuota_def after_described_def in_described_def replying_def
      reply_read_def reply_or_internal_def)

section \<open>Workspaces do not touch each other's namespaces\<close>

text \<open>The requests of a workspace that change namespaces, as the handlers run them.\<close>

datatype 'r namespace_request =
  CreateRequest "'r object_body option"
| UpdateRequest string "'r object_body option"
| PatchRequest string "'r object_body option"
| DeleteRequest string

fun namespace_step ::
  "tenant_operator \<Rightarrow> ('r, 's) tenant_client \<Rightarrow> string \<Rightarrow> 'r namespace_request \<Rightarrow> 's \<Rightarrow> 's" where
  "namespace_step t c workspace (CreateRequest body) s = snd (handleCreateNamespace c workspace body s)"
| "namespace_step t c workspace (UpdateRequest name body) s = snd (handleUpdateNamespace t c workspace name body s)"
| "namespace_step t c workspace (PatchRequest name body) s = snd (handlePatchNamespace t c workspace name body s)"
| "namespace_step t c workspace (DeleteRequest name) s = snd (handleDeleteNamespace t c workspace name s)"

text \<open>
  What happens to a server: a request through the workspace, handled with what the informer of the tenant operator shows at
  that moment, or any change by other clients, among them the requests through other workspaces.
\<close>

datatype ('r, 's) namespace_event = Own tenant_operator "'r namespace_request" | Others 's

fun event_step :: "('r, 's) tenant_client \<Rightarrow> string \<Rightarrow> ('r, 's) namespace_event \<Rightarrow> 's \<Rightarrow> 's" where
  "event_step c workspace (Own t request) s = namespace_step t c workspace request s"
| "event_step c workspace (Others s') s = s'"

definition event_run :: "('r, 's) tenant_client \<Rightarrow> string \<Rightarrow> ('r, 's) namespace_event list \<Rightarrow> 's \<Rightarrow> 's" where
  "event_run c workspace events s = fold (event_step c workspace) events s"

text \<open>The states other clients leave: the initial one and those of their changes, and the last of these.\<close>

fun left_by_others :: "'s \<Rightarrow> ('r, 's) namespace_event list \<Rightarrow> 's list" where
  "left_by_others s [] = [s]"
| "left_by_others s (Own t request # events) = left_by_others s events"
| "left_by_others s (Others s' # events) = s # left_by_others s' events"

definition label_in :: "(string, string) gomap \<Rightarrow> string" where
  "label_in labels = map_get [] labels WorkspaceLabel"

text \<open>
  The informer may lag behind: a namespace that it shows had these labels on the server at that moment or at some earlier one.
\<close>

definition shows_past :: "('s \<Rightarrow> string \<Rightarrow> 'o option) \<Rightarrow> ('o \<Rightarrow> (string, string) gomap) \<Rightarrow> 's list \<Rightarrow> tenant_operator \<Rightarrow> bool" where
  "shows_past stored labels past t \<longleftrightarrow>
     (\<forall>n ns. li_Get (inf_Namespaces (to_env t)) [] n = Inr ns \<longrightarrow>
        (\<exists>s \<in> set past. \<exists>obj. stored s n = Some obj \<and> labels obj = lm_Labels (nsp_Meta ns)))"

fun informed ::
  "('s \<Rightarrow> string \<Rightarrow> 'o option) \<Rightarrow> ('o \<Rightarrow> (string, string) gomap) \<Rightarrow> ('r, 's) tenant_client \<Rightarrow> string \<Rightarrow> 's list \<Rightarrow> 's \<Rightarrow>
   ('r, 's) namespace_event list \<Rightarrow> bool" where
  "informed stored labels c workspace past s [] \<longleftrightarrow> True"
| "informed stored labels c workspace past s (Own t request # events) \<longleftrightarrow>
     shows_past stored labels (s # past) t \<and>
     informed stored labels c workspace (s # past) (namespace_step t c workspace request s) events"
| "informed stored labels c workspace past s (Others s' # events) \<longleftrightarrow> informed stored labels c workspace (s # past) s' events"

text \<open>
  The contract of the server. A state has namespaces, each an object with labels. Creating leaves the namespaces there are;
  updating, patching and deleting concern the one named. Labels are those sent, or with a patch the old ones overridden by
  those sent. Any call may also fail and change nothing.
\<close>

definition merged :: "(string, string) gomap \<Rightarrow> (string, string) gomap \<Rightarrow> (string, string) gomap \<Rightarrow> bool" where
  "merged old sent new \<longleftrightarrow> (\<forall>k. map_of new k = (case map_of sent k of Some v \<Rightarrow> Some v | None \<Rightarrow> map_of old k))"

definition sent_labels :: "'r object_body \<Rightarrow> (string, string) gomap" where
  "sent_labels b = (case ob_Labels b of None \<Rightarrow> [] | Some ls \<Rightarrow> ls)"

locale namespace_server =
  fixes c :: "('r, 's) tenant_client"
    and stored :: "'s \<Rightarrow> string \<Rightarrow> 'o option"
    and labels :: "'o \<Rightarrow> (string, string) gomap"
  assumes creates: "s' = snd (tc_CreateNamespace c b s) \<Longrightarrow>
      stored s' n = stored s n \<or> stored s n = None \<and> (\<exists>new. stored s' n = Some new \<and> labels new = sent_labels b)"
    and updates: "s' = snd (tc_UpdateNamespace c b s) \<Longrightarrow>
      stored s' n = stored s n \<or> n = ob_Name b \<and> (\<exists>new. stored s' n = Some new \<and> labels new = sent_labels b)"
    and patches: "s' = snd (tc_PatchNamespace c name b s) \<Longrightarrow>
      stored s' n = stored s n \<or>
      n = name \<and> (\<exists>old new. stored s n = Some old \<and> stored s' n = Some new \<and> merged (labels old) (sent_labels b) (labels new))"
    and deletes: "s' = snd (tc_DeleteNamespace c name opts s) \<Longrightarrow>
      stored s' n = stored s n \<or> n = name \<and> stored s' n = None"
begin

definition shown :: "tenant_operator \<Rightarrow> string \<Rightarrow> string \<Rightarrow> bool" where
  "shown t workspace n \<longleftrightarrow>
     (\<exists>ns. li_Get (inf_Namespaces (to_env t)) [] n = Inr ns \<and> label_in (lm_Labels (nsp_Meta ns)) = workspace)"

text \<open>A change of a namespace that a request through the workspace may make, when the informer shows \<open>t\<close>.\<close>

definition proper :: "tenant_operator \<Rightarrow> string \<Rightarrow> 's \<Rightarrow> 's \<Rightarrow> bool" where
  "proper t workspace s s' \<longleftrightarrow>
     (\<forall>n. stored s' n = stored s n \<or>
       (stored s n = None \<or> shown t workspace n) \<and>
       (\<forall>new. stored s' n = Some new \<longrightarrow>
          label_in (labels new) = workspace \<or> (\<exists>old. stored s n = Some old \<and> label_in (labels new) = label_in (labels old))))"

lemma proper_refl: "proper t workspace s s"
  by (simp add: proper_def)

lemma described_shown: "DescribeNamespace t workspace n = Ended ns \<Longrightarrow> shown t workspace n"
  by (cases "li_Get (inf_Namespaces (to_env t)) [] n")
     (auto simp: DescribeNamespace_def tenant_Get_namespaces as_Namespace_def shown_def label_in_def split: if_splits)

lemma in_described_state: "snd (in_described d f s) = s \<or> (\<exists>x. d = Ended x) \<and> snd (in_described d f s) = snd (f s)"
  by (cases d) (simp_all add: in_described_def)

lemma snd_ended [simp]: "snd (ended_result r) = snd r" "snd (ended_option r') = snd r'"
  by (auto simp: ended_result_def ended_option_def split: prod.splits sum.splits option.splits)

lemma label_sent [simp]: "label_in (sent_labels (labelNamespaceWithWorkspaceName b workspace)) = workspace"
  by (simp add: label_in_def sent_labels_def labelNamespaceWithWorkspaceName_def map_get_def update_conv')

lemma proper_create: "proper t workspace s (snd (CreateNamespace c workspace b s))"
proof -
  have "stored (snd (CreateNamespace c workspace b s)) n = stored s n \<or> stored s n = None \<and>
      (\<exists>new. stored (snd (CreateNamespace c workspace b s)) n = Some new \<and>
         labels new = sent_labels (labelNamespaceWithWorkspaceName b workspace))" for n
    by (rule creates) (simp add: CreateNamespace_def)
  then show ?thesis unfolding proper_def by (metis label_sent option.inject)
qed

lemma proper_delete: "proper t workspace s (snd (DeleteNamespace t c workspace name s))"
proof -
  let ?d = "DescribeNamespace t workspace name"
  consider "snd (DeleteNamespace t c workspace name s) = s"
    | "shown t workspace name" "snd (DeleteNamespace t c workspace name s) = snd (tc_DeleteNamespace c name NewDeleteOptions s)"
    using in_described_state [of ?d "\<lambda>s. ended_option (tc_DeleteNamespace c name NewDeleteOptions s)" s] described_shown
    by (auto simp: DeleteNamespace_def)
  then show ?thesis
  proof cases
    case 2
    from deletes [OF 2(2)] 2(1) show ?thesis unfolding proper_def by (metis option.distinct(1))
  qed (simp add: proper_refl)
qed

lemma proper_update: "proper t workspace s (snd (UpdateNamespace t c workspace b s))"
proof -
  let ?sent = "labelNamespaceWithWorkspaceName b workspace"
  have name: "ob_Name ?sent = ob_Name b" by (simp add: labelNamespaceWithWorkspaceName_def)
  consider "snd (UpdateNamespace t c workspace b s) = s"
    | "shown t workspace (ob_Name b)" "snd (UpdateNamespace t c workspace b s) = snd (tc_UpdateNamespace c ?sent s)"
    using in_described_state [of "DescribeNamespace t workspace (ob_Name b)" "\<lambda>s. ended_result (tc_UpdateNamespace c ?sent s)" s] described_shown
    by (auto simp: UpdateNamespace_def)
  then show ?thesis
  proof cases
    case 2
    from updates [OF 2(2)] 2(1) label_sent [of b workspace] show ?thesis
      unfolding proper_def name by (metis option.inject)
  qed (simp add: proper_refl)
qed

lemma proper_patch: "proper t workspace s (snd (PatchNamespace t c workspace b s))"
proof -
  let ?sent = "b\<lparr>ob_Labels := map_option (AList.update WorkspaceLabel workspace) (ob_Labels b)\<rparr>"
  consider "snd (PatchNamespace t c workspace b s) = s"
    | "shown t workspace (ob_Name b)" "snd (PatchNamespace t c workspace b s) = snd (tc_PatchNamespace c (ob_Name b) ?sent s)"
    using in_described_state [of "DescribeNamespace t workspace (ob_Name b)" "\<lambda>s. ended_result (tc_PatchNamespace c (ob_Name b) ?sent s)" s] described_shown
    by (auto simp: PatchNamespace_def)
  then show ?thesis
  proof cases
    case 2
    have kept: "label_in new = workspace \<or> label_in new = label_in old" if "merged old (sent_labels ?sent) new" for old new
    proof -
      have "map_of new WorkspaceLabel = (case map_of (sent_labels ?sent) WorkspaceLabel of Some v \<Rightarrow> Some v | None \<Rightarrow> map_of old WorkspaceLabel)"
        using that unfolding merged_def by blast
      moreover have "map_of (sent_labels ?sent) WorkspaceLabel = (if ob_Labels b = None then None else Some workspace)"
        by (cases "ob_Labels b") (simp_all add: sent_labels_def update_conv')
      ultimately show ?thesis by (auto simp: label_in_def map_get_def split: if_splits)
    qed
    from patches [OF 2(2)] 2(1) show ?thesis unfolding proper_def using kept by (metis option.inject)
  qed (simp add: proper_refl)
qed

lemma proper_step: "proper t workspace s (namespace_step t c workspace request s)"
proof (cases request)
  case (CreateRequest body)
  then show ?thesis
    by (cases body) (simp_all add: handleCreateNamespace_def replying_def proper_refl proper_create)
next
  case (UpdateRequest name body)
  then show ?thesis
    by (cases body) (simp_all add: handleUpdateNamespace_def replying_def proper_refl proper_update)
next
  case (PatchRequest name body)
  then show ?thesis
    by (cases body) (simp_all add: handlePatchNamespace_def replying_def proper_refl proper_patch)
next
  case (DeleteRequest name)
  then show ?thesis by (simp add: handleDeleteNamespace_def replying_def proper_delete)
qed

text \<open>A namespace that is there and is not of the workspace.\<close>

definition foreign :: "string \<Rightarrow> string \<Rightarrow> 's \<Rightarrow> bool" where
  "foreign workspace n s \<longleftrightarrow> (\<exists>obj. stored s n = Some obj \<and> label_in (labels obj) \<noteq> workspace)"

lemma foreign_not_shown:
  assumes "shows_past stored labels past t" "\<forall>s \<in> set past. foreign workspace n s"
  shows "\<not> shown t workspace n"
proof
  assume "shown t workspace n"
  then obtain ns where "li_Get (inf_Namespaces (to_env t)) [] n = Inr ns" "label_in (lm_Labels (nsp_Meta ns)) = workspace"
    unfolding shown_def by blast
  with assms(1) obtain s obj where "s \<in> set past" "stored s n = Some obj" "label_in (labels obj) = workspace"
    unfolding shows_past_def by metis
  with assms(2) show False by (force simp: foreign_def)
qed

lemma foreign_step:
  assumes "shows_past stored labels (s # past) t" "\<forall>p \<in> set (s # past). foreign workspace n p"
  shows "stored (namespace_step t c workspace request s) n = stored s n"
  using proper_step [of t workspace s request] foreign_not_shown [OF assms] assms(2)
  by (auto simp: proper_def foreign_def)

lemma foreign_cong: "stored s n = stored s' n \<Longrightarrow> foreign workspace n s = foreign workspace n s'"
  by (simp add: foreign_def)

lemma foreign_run:
  assumes "informed stored labels c workspace past s events"
    and "\<forall>p \<in> set past. foreign workspace n p" "stored s n = stored s0 n"
    and "\<forall>p \<in> set (left_by_others s0 events). foreign workspace n p"
  shows "stored (event_run c workspace events s) n = stored (last (left_by_others s0 events)) n"
  using assms
proof (induction events arbitrary: past s s0)
  case Nil
  then show ?case by (simp add: event_run_def)
next
  case (Cons e events)
  have "s0 \<in> set (left_by_others s0 es)" for es :: "('r, 's) namespace_event list"
    by (induction es rule: left_by_others.induct) auto
  then have here: "\<forall>p \<in> set (s # past). foreign workspace n p"
    using Cons.prems(2,4) foreign_cong [OF Cons.prems(3)] by simp
  show ?case
  proof (cases e)
    case (Own t request)
    have "stored (namespace_step t c workspace request s) n = stored s0 n"
      using foreign_step [OF _ here] Cons.prems(1,3) unfolding Own by simp
    from Cons.IH [OF _ here this] Cons.prems(1,4) show ?thesis unfolding Own by (simp add: event_run_def)
  next
    case (Others s')
    have "left_by_others s' es \<noteq> []" for es :: "('r, 's) namespace_event list"
      by (induction s' es rule: left_by_others.induct) auto
    with Cons.IH [OF _ here refl] Cons.prems(1,4) show ?thesis unfolding Others by (simp add: event_run_def)
  qed
qed

lemma run_keeps_apart:
  assumes "informed stored labels c workspace [] s events"
    and "\<forall>p \<in> set (left_by_others s events). \<exists>obj. stored p n = Some obj \<and> label_in (labels obj) \<noteq> workspace"
  shows "stored (event_run c workspace events s) n = stored (last (left_by_others s events)) n"
  using foreign_run [OF assms(1) _ refl, of n] assms(2) by (simp add: foreign_def)

lemma step_labels:
  "stored (namespace_step t c workspace request s) n = Some new \<Longrightarrow>
   label_in (labels new) = workspace \<or> (\<exists>old. stored s n = Some old \<and> label_in (labels new) = label_in (labels old))"
  using proper_step [of t workspace s request] unfolding proper_def by metis

end

text \<open>A server in memory, whose state is the namespaces, and an informer that shows such a state.\<close>

type_synonym namespace_store = "(string, string object_body) gomap"

definition stored_namespace :: "string \<Rightarrow> (string, string) gomap \<Rightarrow> namespace_object" where
  "stored_namespace n ls = \<lparr>nsp_Meta = (demo_meta n)\<lparr>lm_Namespace := [], lm_Labels := ls\<rparr>, nsp_Phase = ''Active''\<rparr>"

definition operator_on :: "tenant_operator \<Rightarrow> namespace_store \<Rightarrow> tenant_operator" where
  "operator_on t s = t\<lparr>to_env := (to_env t)\<lparr>inf_Namespaces :=
     \<lparr>li_Get = (\<lambda>_ n. case map_of s n of None \<Rightarrow> Inl NotFound | Some b \<Rightarrow> Inr (stored_namespace n (sent_labels b))),
      li_List = (\<lambda>_ sel. Inr (map (\<lambda>(n, b). stored_namespace n (sent_labels b)) (filter (\<lambda>(n, b). sel (sent_labels b)) s)))\<rparr>\<rparr>\<rparr>"

definition refuse :: "'s \<Rightarrow> (api_error, 'a) result \<times> 's" where
  "refuse s = (Inl (OtherError ''not served''), s)"

definition store_client :: "(string, namespace_store) tenant_client" where
  "store_client =
     \<lparr>tc_CreateNamespace = (\<lambda>b s. if map_of s (ob_Name b) = None then (Inr b, AList.update (ob_Name b) b s) else (Inl AlreadyExists, s)),
      tc_UpdateNamespace = (\<lambda>b s. if map_of s (ob_Name b) = None then (Inl NotFound, s) else (Inr b, AList.update (ob_Name b) b s)),
      tc_PatchNamespace = (\<lambda>name b s.
        case map_of s name of
          None \<Rightarrow> (Inl NotFound, s)
        | Some old \<Rightarrow>
            (let new = b\<lparr>ob_Name := name, ob_Labels := Some (AList.merge (sent_labels old) (sent_labels b))\<rparr>
             in (Inr new, AList.update name new s))),
      tc_DeleteNamespace = (\<lambda>name opts s. if map_of s name = None then (Some NotFound, s) else (None, AList.delete name s)),
      tc_CreateTemplate = (\<lambda>b. refuse), tc_UpdateTemplate = (\<lambda>b. refuse), tc_UpdateFinalizers = (\<lambda>w s. (Some NotFound, s)),
      tc_PatchTemplate = (\<lambda>n d. refuse), tc_DeleteTemplate = (\<lambda>n opts s. (Some NotFound, s)), tc_GetQuota = (\<lambda>n. refuse),
      tc_CreateQuota = (\<lambda>q. refuse), tc_UpdateQuota = (\<lambda>q. refuse), tc_DeleteQuota = (\<lambda>n opts s. (Some NotFound, s)),
      tc_IsBadRequest = (\<lambda>_. False)\<rparr>"

lemma merged_merge: "merged old sent (AList.merge old sent)"
  by (auto simp: merged_def merge_conv' map_add_def split: option.splits)

interpretation store: namespace_server store_client map_of sent_labels
proof unfold_locales
  fix s s' :: namespace_store and name n :: string and b :: "string object_body"
  assume "s' = snd (tc_PatchNamespace store_client name b s)"
  then show "map_of s' n = map_of s n \<or>
      n = name \<and> (\<exists>old new. map_of s n = Some old \<and> map_of s' n = Some new \<and> merged (sent_labels old) (sent_labels b) (sent_labels new))"
    using merged_merge by (auto simp: store_client_def update_conv' Let_def sent_labels_def split: option.splits)
qed (auto simp: store_client_def update_conv' delete_conv' split: if_splits)

text \<open>
  C7: Requests made through a workspace, in any number and order, leave a namespace exactly as other clients left it, as long
  as these neither delete it nor put it into the workspace. The informer that the requests consult may lag: what it shows of
  a namespace the server held at some time. And whatever the informer shows, a namespace that a request leaves on the server
  belongs to the workspace of the request or to the one it belonged to before.
\<close>

theorem workspaces_isolated:
  assumes "namespace_server c stored labels"
    and "informed stored labels c workspace [] s events"
    and "\<forall>p \<in> set (left_by_others s events). \<exists>obj. stored p n = Some obj \<and> label_in (labels obj) \<noteq> workspace"
  shows "stored (event_run c workspace events s) n = stored (last (left_by_others s events)) n \<and>
    (\<forall>t request s1 m new. stored (namespace_step t c workspace request s1) m = Some new \<longrightarrow>
       label_in (labels new) = workspace \<or>
       (\<exists>old. stored s1 m = Some old \<and> label_in (labels new) = label_in (labels old)))"
  using namespace_server.run_keeps_apart [OF assms] namespace_server.step_labels [OF assms(1)] by blast

text \<open>
  The check reads the informer and the deletion that follows has no condition on what is deleted: a namespace that has just
  moved to another workspace is deleted through its former one.
\<close>

lemma stale_informer_deletes:
  "namespace_step (operator_on demo_tenant [(''n'', \<lparr>ob_Name = ''n'', ob_Labels = Some [(WorkspaceLabel, ''dev'')], ob_Rest = []\<rparr>)])
     store_client ''dev'' (DeleteRequest ''n'')
     [(''n'', \<lparr>ob_Name = ''n'', ob_Labels = Some [(WorkspaceLabel, ''ops'')], ob_Rest = []\<rparr>)] = []"
  by code_simp

section \<open>Witness\<close>

definition their_namespace :: "string \<Rightarrow> namespace_store" where
  "their_namespace contents = [(''theirs'', \<lparr>ob_Name = ''theirs'', ob_Labels = Some [(WorkspaceLabel, ''ops'')], ob_Rest = contents\<rparr>)]"

text \<open>The workspace tries to take, change and delete a namespace of another, which is changed in between; the informer shows old states.\<close>

definition intruding_requests :: "(string, namespace_store) namespace_event list" where
  "intruding_requests =
     (let old = operator_on demo_tenant (their_namespace ''1'')
      in [Own old (PatchRequest ''theirs'' (Some \<lparr>ob_Name = [], ob_Labels = Some [(WorkspaceLabel, ''dev'')], ob_Rest = []\<rparr>)),
          Own old (CreateRequest (Some \<lparr>ob_Name = ''mine'', ob_Labels = None, ob_Rest = []\<rparr>)),
          Own old (UpdateRequest ''mine'' (Some \<lparr>ob_Name = ''mine'', ob_Labels = Some [(WorkspaceLabel, ''ops'')], ob_Rest = []\<rparr>)),
          Others (their_namespace ''2''),
          Own old (DeleteRequest ''theirs'')])"

lemma past_shown: "s \<in> set past \<Longrightarrow> shows_past map_of sent_labels past (operator_on t s)"
  unfolding shows_past_def by (auto simp: operator_on_def stored_namespace_def split: option.splits intro!: bexI [of _ s])

theorem workspaces_isolated_witness:
  "map_of (event_run store_client ''dev'' intruding_requests (their_namespace ''1'')) ''theirs'' =
     Some \<lparr>ob_Name = ''theirs'', ob_Labels = Some [(WorkspaceLabel, ''ops'')], ob_Rest = ''2''\<rparr>"
proof -
  have "informed map_of sent_labels store_client ''dev'' [] (their_namespace ''1'') intruding_requests"
    by (simp add: intruding_requests_def Let_def past_shown)
  moreover have left: "left_by_others (their_namespace ''1'') intruding_requests = [their_namespace ''1'', their_namespace ''2'']"
    by (simp add: intruding_requests_def Let_def)
  ultimately show ?thesis
    using workspaces_isolated [OF store.namespace_server_axioms, of "''dev''" "their_namespace ''1''" intruding_requests "''theirs''"]
    by (simp add: their_namespace_def label_in_def sent_labels_def map_get_def)
qed

end
