(* ===== verification/Storage_Backup.thy ===== *)
theory Storage_Backup
  imports Linstor
begin

text \<open>
  Backups of storage resources (\<^verbatim>\<open>pkg/models/storsecu/v1alpha1/backup/backup.go\<close>, \<^verbatim>\<open>pkg/kapis/storsecu/v1alpha1/handler.go\<close>):
  snapshots, images, restoring from either and regular backups. Each is a command line that is run by a shell in a pod
  with the backup tool; the outcome is read off what the command prints.

  Listing the pods and running a command in one of them are the calls of the Kubernetes client, functions on an
  abstract state of the cluster; decoding JSON and sorting a slice are parameters too.
\<close>

section \<open>Running a command\<close>

datatype exec_outcome = NoExecutor | StreamError | Output string

record 's backup_api =
  ba_ListPods :: "'s \<Rightarrow> (string, string list) result \<times> 's"
  ba_Exec :: "string \<Rightarrow> string \<Rightarrow> 's \<Rightarrow> exec_outcome \<times> 's"
  ba_Decode :: "string \<Rightarrow> (string, row list) result"
  ba_Sort :: "(row \<Rightarrow> row \<Rightarrow> bool) \<Rightarrow> row list \<Rightarrow> row list"

text \<open>The pods are tried one after the other until one runs the command without an error.\<close>

fun try_pods :: "'s backup_api \<Rightarrow> string \<Rightarrow> string list \<Rightarrow> 's \<Rightarrow> string \<times> 's" where
  "try_pods api command [] s = ([], s)"
| "try_pods api command (pod # pods) s =
     (case ba_Exec api pod command s of
        (Output out, s') \<Rightarrow> (TrimSpace out, s')
      | (_, s') \<Rightarrow> try_pods api command pods s')"

text \<open>
  The errors inside the loop are held by a variable of the loop; the one that is returned is that of listing the pods,
  which is nil by then.
\<close>

definition DoToPod :: "'s backup_api \<Rightarrow> string \<Rightarrow> 's \<Rightarrow> (string, string) result \<times> 's" where
  "DoToPod api command s =
     (case ba_ListPods api s of
        (Inl _, s') \<Rightarrow> (Inl ''find feixibackup pod failded'', s')
      | (Inr pods, s') \<Rightarrow> (case try_pods api command pods s' of (out, s'') \<Rightarrow> (Inr out, s'')))"

section \<open>Commands\<close>

text \<open>An operation returns an error or nil.\<close>

definition expect_Success :: "'s backup_api \<Rightarrow> string \<Rightarrow> string \<Rightarrow> 's \<Rightarrow> string option \<times> 's" where
  "expect_Success api command failure s =
     (case DoToPod api command s of
        (Inl err, s') \<Rightarrow> (Some err, s')
      | (Inr out, s') \<Rightarrow> (if Contains out ''Success'' then None else Some failure, s'))"

definition ToSnapShot :: "'s backup_api \<Rightarrow> string \<Rightarrow> 's \<Rightarrow> string option \<times> 's" where
  "ToSnapShot api name = expect_Success api (''/backup/backup create -r '' @ name) ''Snapshot failded''"

definition ToImage :: "'s backup_api \<Rightarrow> string \<Rightarrow> string \<Rightarrow> 's \<Rightarrow> string option \<times> 's" where
  "ToImage api name snapshot =
     expect_Success api (''/backup/backup dump -r '' @ name @ '' -s '' @ snapshot) ''Dump image failded''"

definition SnapshotRestore :: "'s backup_api \<Rightarrow> string \<Rightarrow> string \<Rightarrow> 's \<Rightarrow> string option \<times> 's" where
  "SnapshotRestore api resname snapshot =
     expect_Success api (''/backup/backup snapshotrestore -r '' @ resname @ '' -s '' @ snapshot) ''SnapshotRestore failded''"

definition ImageRestore :: "'s backup_api \<Rightarrow> string \<Rightarrow> string \<Rightarrow> string \<Rightarrow> 's \<Rightarrow> string option \<times> 's" where
  "ImageRestore api resname imageName vg =
     expect_Success api (''/backup/backup imagerestore -r '' @ resname @ '' -i '' @ imageName @ '' -vg '' @ vg)
       ''ImageRestore failded''"

definition regular_command :: "string \<Rightarrow> string \<Rightarrow> string \<Rightarrow> string" where
  "regular_command resname contab backupType =
     (let kind = (if backupType = ''snapshot'' then ''create'' else ''dump'')
      in ''/backup/schedule -s '' @ [CHR 34] @ contab @ [CHR 34] @ '' -c '' @ [CHR 34] @ ''/backup/backup '' @ kind @
         '' -r '' @ resname @ [CHR 34])"

text \<open>A regular backup counts as set up when nothing is printed.\<close>

definition RegularBackup :: "'s backup_api \<Rightarrow> string \<Rightarrow> string \<Rightarrow> string \<Rightarrow> 's \<Rightarrow> string option \<times> 's" where
  "RegularBackup api resname contab backupType s =
     (case DoToPod api (regular_command resname contab backupType) s of
        (Inl err, s') \<Rightarrow> (Some err, s')
      | (Inr out, s') \<Rightarrow> (if out \<noteq> [] then Some ''RegularBackup failded'' else None, s'))"

section \<open>The list of backups\<close>

text \<open>
  The expression \<^verbatim>\<open>\[{.*}\]\<close> takes, in the first line that has both, what lies between the first opening and the last
  closing bracket pair.
\<close>

fun after_open :: "string \<Rightarrow> string option" where
  "after_open (a # b # s) = (if a = CHR ''['' \<and> b = CHR ''{'' then Some s else after_open (b # s))"
| "after_open _ = None"

fun before_close :: "string \<Rightarrow> string option" where
  "before_close (a # b # s) =
     (case before_close (b # s) of
        Some body \<Rightarrow> Some (a # body)
      | None \<Rightarrow> if a = CHR ''}'' \<and> b = CHR '']'' then Some [] else None)"
| "before_close _ = None"

definition match_line :: "string \<Rightarrow> string option" where
  "match_line line =
     (case after_open line of
        None \<Rightarrow> None
      | Some rest \<Rightarrow> map_option (\<lambda>body. ''[{'' @ body @ ''}]'') (before_close rest))"

fun match_json :: "string list \<Rightarrow> string option" where
  "match_json [] = None"
| "match_json (line # ls) = (case match_line line of Some m \<Rightarrow> Some m | None \<Rightarrow> match_json ls)"

definition GetTinResources :: "'s backup_api \<Rightarrow> string \<Rightarrow> (string, row list) result" where
  "GetTinResources api s =
     (case match_json (SplitChar (CHR 10) s) of
        None \<Rightarrow> Inl ''failed to match JSON data''
      | Some jsonData \<Rightarrow> ba_Decode api (map (\<lambda>c. if c = CHR 39 then CHR 34 else c) jsonData))"

text \<open>Entries with a time come first, by time; the others follow by name.\<close>

definition backup_less :: "row \<Rightarrow> row \<Rightarrow> bool" where
  "backup_less x y =
     (if cell x ''time'' = [] \<and> cell y ''time'' \<noteq> [] then False
      else if cell x ''time'' \<noteq> [] \<and> cell y ''time'' = [] then True
      else if cell x ''time'' = [] \<and> cell y ''time'' = [] then cell x ''name'' < cell y ''name''
      else cell x ''time'' < cell y ''time'')"

definition sortSlices :: "'s backup_api \<Rightarrow> row list \<Rightarrow> row list" where
  "sortSlices api rows = ba_Sort api backup_less rows"

text \<open>The rows, \<^const>\<open>None\<close> being the nil slice, and the error.\<close>

definition GetBackupRes :: "'s backup_api \<Rightarrow> 's \<Rightarrow> (row list option \<times> string option) \<times> 's" where
  "GetBackupRes api s =
     (case DoToPod api ''/backup/backup list'' s of
        (Inl err, s') \<Rightarrow> ((Some [], Some err), s')
      | (Inr out, s') \<Rightarrow>
          (case GetTinResources api out of
             Inl err \<Rightarrow> ((None, Some err), s')
           | Inr rows \<Rightarrow> ((Some (sortSlices api rows), None), s')))"

section \<open>Handlers\<close>

record backup_info =
  bi_Type :: string
  bi_Name :: string
  bi_Snapshot :: string
  bi_Vg :: string
  bi_Image :: string
  bi_BackupType :: string
  bi_Schedule :: string

datatype backup_reply = BadRequest | BackupDone | BackupError string

text \<open>A body that cannot be read is \<^const>\<open>None\<close>. The route of the virus scan has the same handler.\<close>

definition Backup :: "'s backup_api \<Rightarrow> backup_info option \<Rightarrow> 's \<Rightarrow> backup_reply \<times> 's" where
  "Backup api body s =
     (case body of
        None \<Rightarrow> (BadRequest, s)
      | Some info \<Rightarrow>
          (let (err, s') =
             (if bi_Type info = ''snapshot'' then ToSnapShot api (bi_Name info) s
              else if bi_Type info = ''image'' then ToImage api (bi_Name info) (bi_Snapshot info) s
              else if bi_Type info = ''snapshotRestore'' then SnapshotRestore api (bi_Name info) (bi_Snapshot info) s
              else if bi_Type info = ''imageRestore'' then ImageRestore api (bi_Name info) (bi_Image info) (bi_Vg info) s
              else if bi_Type info = ''time'' then RegularBackup api (bi_Name info) (bi_Schedule info) (bi_BackupType info) s
              else (None, s))
           in (case err of Some e \<Rightarrow> BackupError e | None \<Rightarrow> BackupDone, s')))"

text \<open>The list is answered with a page of the rows, with nothing at all when they could not be read, or it panics.\<close>

datatype backup_listing = BackupRows linstor_getter | EmptyAnswer | ListingPanics

definition handleListbackupres :: "'s backup_api \<Rightarrow> url_values \<Rightarrow> 's \<Rightarrow> backup_listing \<times> 's" where
  "handleListbackupres api ps s =
     (case GetBackupRes api s of
        ((None, _), s') \<Rightarrow> (EmptyAnswer, s')
      | ((Some rows, _), s') \<Rightarrow>
          (case list_rows (ParseQueryParameter ps) rows of
             None \<Rightarrow> (ListingPanics, s')
           | Some page \<Rightarrow> (BackupRows page, s')))"

section \<open>What an answer means\<close>

text \<open>The command line of a request, for the kinds that expect a confirmation.\<close>

definition backup_command :: "backup_info \<Rightarrow> string" where
  "backup_command info =
     (if bi_Type info = ''snapshot'' then ''/backup/backup create -r '' @ bi_Name info
      else if bi_Type info = ''image'' then ''/backup/backup dump -r '' @ bi_Name info @ '' -s '' @ bi_Snapshot info
      else if bi_Type info = ''snapshotRestore'' then ''/backup/backup snapshotrestore -r '' @ bi_Name info @ '' -s '' @ bi_Snapshot info
      else ''/backup/backup imagerestore -r '' @ bi_Name info @ '' -i '' @ bi_Image info @ '' -vg '' @ bi_Vg info)"

text \<open>No pod of a list runs a command without an error; the state after trying them.\<close>

fun all_fail :: "'s backup_api \<Rightarrow> string \<Rightarrow> string list \<Rightarrow> 's \<Rightarrow> bool" where
  "all_fail api command [] s = True"
| "all_fail api command (pod # pods) s =
     (case ba_Exec api pod command s of (Output _, _) \<Rightarrow> False | (_, s') \<Rightarrow> all_fail api command pods s')"

definition after_pods :: "'s backup_api \<Rightarrow> string \<Rightarrow> string list \<Rightarrow> 's \<Rightarrow> 's" where
  "after_pods api command pods s = fold (\<lambda>pod s. snd (ba_Exec api pod command s)) pods s"

lemma try_pods_failed: "all_fail api command pods s \<Longrightarrow> try_pods api command pods s = ([], after_pods api command pods s)"
  by (induction pods arbitrary: s) (auto simp: after_pods_def split: prod.splits exec_outcome.splits)

lemma try_pods_ran:
  "\<not> all_fail api command pods s \<Longrightarrow>
   \<exists>before pod after out s'. pods = before @ pod # after \<and> all_fail api command before s \<and>
     ba_Exec api pod command (after_pods api command before s) = (Output out, s') \<and>
     try_pods api command pods s = (TrimSpace out, s')"
proof (induction pods arbitrary: s)
  case (Cons pod pods)
  obtain r s1 where e: "ba_Exec api pod command s = (r, s1)" by (cases "ba_Exec api pod command s")
  show ?case
  proof (cases "\<exists>out. r = Output out")
    case True
    then obtain out where "r = Output out" by blast
    then have "pod # pods = [] @ pod # pods \<and> all_fail api command [] s \<and>
        ba_Exec api pod command (after_pods api command [] s) = (Output out, s1) \<and>
        try_pods api command (pod # pods) s = (TrimSpace out, s1)"
      by (simp add: e after_pods_def)
    then show ?thesis by blast
  next
    case False
    then have skip: "try_pods api command (pod # ps) s = try_pods api command ps s1"
        "all_fail api command (pod # ps) s = all_fail api command ps s1" for ps
      by (cases r; simp add: e)+
    have "\<not> all_fail api command pods s1" using Cons.prems skip(2) by blast
    from Cons.IH [OF this] obtain before pod' after out s' where
        ran: "pods = before @ pod' # after" "all_fail api command before s1"
        "ba_Exec api pod' command (after_pods api command before s1) = (Output out, s')"
        "try_pods api command pods s1 = (TrimSpace out, s')"
      by blast
    have "after_pods api command (pod # before) s = after_pods api command before s1" by (simp add: after_pods_def e)
    with ran skip have "pod # pods = (pod # before) @ pod' # after \<and> all_fail api command (pod # before) s \<and>
        ba_Exec api pod' command (after_pods api command (pod # before) s) = (Output out, s') \<and>
        try_pods api command (pod # pods) s = (TrimSpace out, s')"
      by simp
    then show ?thesis by blast
  qed
qed simp

lemma expect_Success_confirmed:
  assumes "expect_Success api command failure s = (None, s')"
  shows "\<exists>pods s1 before pod after out. ba_ListPods api s = (Inr pods, s1) \<and> pods = before @ pod # after \<and>
    all_fail api command before s1 \<and>
    ba_Exec api pod command (after_pods api command before s1) = (Output out, s') \<and> Contains (TrimSpace out) ''Success''"
proof -
  obtain pods s1 where l: "ba_ListPods api s = (Inr pods, s1)"
    and t: "Contains (fst (try_pods api command pods s1)) ''Success''" "snd (try_pods api command pods s1) = s'"
    using assms by (auto simp: expect_Success_def DoToPod_def split: prod.splits sum.splits if_splits)
  have "\<not> all_fail api command pods s1"
  proof
    assume "all_fail api command pods s1"
    from try_pods_failed [OF this] t(1) show False by simp
  qed
  from try_pods_ran [OF this] obtain before pod after out s2
    where "pods = before @ pod # after" "all_fail api command before s1"
      "ba_Exec api pod command (after_pods api command before s1) = (Output out, s2)"
      "try_pods api command pods s1 = (TrimSpace out, s2)"
    by blast
  with l t show ?thesis by auto
qed

lemma Backup_done:
  "Backup api (Some info) s = (BackupDone, s') \<Longrightarrow>
   bi_Type info \<in> {''snapshot'', ''image'', ''snapshotRestore'', ''imageRestore''} \<Longrightarrow>
   \<exists>failure. expect_Success api (backup_command info) failure s = (None, s')"
  by (auto simp: Backup_def backup_command_def ToSnapShot_def ToImage_def SnapshotRestore_def ImageRestore_def
      split: prod.splits option.splits)

text \<open>
  C33: A snapshot, an image or a restore that is answered with success was confirmed by the backup tool: one of the
  backup pods ran exactly the command line of the request, after no earlier pod could, and printed a text with the word
  \<open>Success\<close>; the state then is the one the command left.
\<close>

theorem backup_done_confirmed:
  assumes "Backup api (Some info) s = (BackupDone, s')"
    and "bi_Type info \<in> {''snapshot'', ''image'', ''snapshotRestore'', ''imageRestore''}"
  shows "\<exists>pods s1 before pod after out. ba_ListPods api s = (Inr pods, s1) \<and> pods = before @ pod # after \<and>
    all_fail api (backup_command info) before s1 \<and>
    ba_Exec api pod (backup_command info) (after_pods api (backup_command info) before s1) = (Output out, s') \<and>
    Contains (TrimSpace out) ''Success''"
proof -
  obtain failure where "expect_Success api (backup_command info) failure s = (None, s')" using Backup_done [OF assms] ..
  then show ?thesis by (rule expect_Success_confirmed)
qed

text \<open>
  Some requests are answered with success although nothing was done. A regular backup is, when there is no backup
  pod or none of them can run the command, since no output is taken for success and the errors are lost; and so is a
  request of an unknown kind.
\<close>

theorem backup_false_success:
  "(ba_ListPods api s = (Inr pods, s1) \<and> bi_Type info = ''time'' \<and>
     all_fail api (regular_command (bi_Name info) (bi_Schedule info) (bi_BackupType info)) pods s1 \<longrightarrow>
       fst (Backup api (Some info) s) = BackupDone) \<and>
   (bi_Type info \<notin> {''snapshot'', ''image'', ''snapshotRestore'', ''imageRestore'', ''time''} \<longrightarrow>
       Backup api (Some info) s = (BackupDone, s))"
  by (auto simp: Backup_def RegularBackup_def DoToPod_def try_pods_failed)

text \<open>The order of the list is a strict weak order, so the list comes out sorted.\<close>

lemma backup_less_strict: "strict_weak backup_less A"
proof -
  define key where "key x = (cell x ''time'' = [], if cell x ''time'' = [] then cell x ''name'' else cell x ''time'')" for x
  have "backup_less x y \<longleftrightarrow> key x < key y" for x y
    by (auto simp: backup_less_def key_def less_prod_def)
  then show ?thesis by (auto simp: strict_weak_def)
qed

lemma backups_sorted:
  assumes "slice_sort (ba_Sort api)"
  shows "mset (sortSlices api rows) = mset rows" "sorted_wrt (\<lambda>x y. \<not> backup_less y x) (sortSlices api rows)"
  using slice_sort.permutes [OF assms] slice_sort.sorts [OF assms backup_less_strict] by (simp_all add: sortSlices_def)

text \<open>Names are put into the command line as they are: what follows a semicolon is a command of its own to the shell.\<close>

lemma command_line_unquoted:
  "backup_command (info\<lparr>bi_Type := ''snapshot'', bi_Name := ''r1; reboot''\<rparr>) = ''/backup/backup create -r r1; reboot''"
  by (simp add: backup_command_def)

section \<open>Witnesses\<close>

definition two_pods :: "unit backup_api" where
  "two_pods = \<lparr>ba_ListPods = (\<lambda>s. (Inr [''p1'', ''p2''], s)),
     ba_Exec = (\<lambda>pod _ s. (if pod = ''p1'' then StreamError else Output ''Success'', s)),
     ba_Decode = (\<lambda>_. Inl []), ba_Sort = insertionSort\<rparr>"

definition no_pods :: "unit backup_api" where
  "no_pods = two_pods\<lparr>ba_ListPods := (\<lambda>s. (Inr [], s))\<rparr>"

definition demo_backup :: "string \<Rightarrow> backup_info" where
  "demo_backup kind = \<lparr>bi_Type = kind, bi_Name = ''r1'', bi_Snapshot = [], bi_Vg = [], bi_Image = [], bi_BackupType = ''snapshot'',
     bi_Schedule = ''0 1 * * *''\<rparr>"

lemma two_pods_done: "Backup two_pods (Some (demo_backup ''snapshot'')) () = (BackupDone, ())"
  by code_simp

theorem backup_done_confirmed_witness:
  "\<exists>pods s1 before pod after out. ba_ListPods two_pods () = (Inr pods, s1) \<and> pods = before @ pod # after \<and>
    all_fail two_pods ''/backup/backup create -r r1'' before s1 \<and>
    ba_Exec two_pods pod ''/backup/backup create -r r1'' (after_pods two_pods ''/backup/backup create -r r1'' before s1) = (Output out, ()) \<and>
    Contains (TrimSpace out) ''Success''"
proof -
  have "backup_command (demo_backup ''snapshot'') = ''/backup/backup create -r r1''"
    by (simp add: backup_command_def demo_backup_def)
  with backup_done_confirmed [OF two_pods_done] show ?thesis by (simp add: demo_backup_def)
qed

theorem backup_false_success_witness:
  "fst (Backup no_pods (Some (demo_backup ''time'')) ()) = BackupDone \<and>
   Backup no_pods (Some (demo_backup ''scan'')) () = (BackupDone, ())"
  using backup_false_success [of no_pods "()" "[]" "()" "demo_backup ''time''"]
    backup_false_success [of no_pods "()" "[]" "()" "demo_backup ''scan''"]
  by (simp add: no_pods_def demo_backup_def)

end
