(* ===== verification/Spec2Isabelle.thy ===== *)
theory Spec2Isabelle
  imports Handler_Chain Auditing Access_Management Ippool_Server Quota_Queue Quota_Locks Versatel_Api User_Controller Oauth_Handlers Tenant_Api Storage_Backup
begin

text \<open>
  VersaTELServer is an API server and a set of controllers for a storage and container platform, a fork of KubeSphere with an API for
  LINSTOR storage added. This development models the parts of its own Go code that decide something: who may do what, which address a pod
  gets, how much a workspace may use, what a storage request does, what a list shows.

  \<^bold>\<open>The program and how its parts interact.\<close> A request to the API server runs through a chain of filters
  (\<^verbatim>\<open>pkg/apiserver/apiserver.go\<close>, \<^verbatim>\<open>filters/\<close>): it is resolved to verb, resource and scope, authenticated by token, password or as
  anonymous, dispatched to another cluster where its path names one, authorized by path or by role, audited, and served by a handler or by the
  Kubernetes API server behind. Users log in through OAuth endpoints; their accounts, login records and tokens are kept by the user
  controllers and a token cache. Admission webhooks and controllers of the second binary guard the objects the platform shares: resource
  quotas of workspaces and pools of network addresses. The VersaTEL handlers create and list storage through the LINSTOR controller and over
  SSH on its nodes.

  \<^bold>\<open>Theories, source files and what the lemmas show.\<close>

  \<^item> \<open>Prelude\<close>: results, errors of the Kubernetes API, Go strings, slices and maps, with the simp rules and collections that the other
    theories use.
  \<^item> \<open>Request_Info\<close> (\<^verbatim>\<open>pkg/apiserver/request/requestinfo.go\<close>): resolving a request. Documented URLs are resolved to
    what they were built from; which requests panic; the scope is never wider than the path.
  \<^item> \<open>Authorizer\<close>, \<open>Rbac\<close>, \<open>Access_Management\<close> (\<^verbatim>\<open>pkg/apiserver/authorization\<close>, \<^verbatim>\<open>pkg/models/iam/am/am.go\<close>): the union and path
    authorizers, the role walk with its visitor as a locale (\<open>rule_visitor\<close>, interpreted by the deciding and by the collecting visitor), and
    the operator behind it. A request is allowed exactly by the applicable roles, scopes are isolated, and the operator returns the bindings
    of the workspace that was asked for.
  \<^item> \<open>Token_Operator\<close>, \<open>Authentication\<close>, \<open>Oauth_Handlers\<close>, \<open>User_Controller\<close> (\<^verbatim>\<open>pkg/apiserver/authentication\<close>,
    \<^verbatim>\<open>pkg/models/auth\<close>, \<^verbatim>\<open>pkg/kapis/oauth\<close>, \<^verbatim>\<open>pkg/controller/user\<close>, \<^verbatim>\<open>pkg/controller/loginrecord\<close>): issuing, verifying and
    revoking tokens, the authenticators, the OAuth grants, and the life cycle of accounts. Issued tokens verify, logout ends sessions, codes are
    used once, failed logins block an account, accounts stay well-formed.
  \<^item> \<open>Handler_Chain\<close> (\<^verbatim>\<open>pkg/apiserver/filters\<close>, \<^verbatim>\<open>pkg/apiserver/dispatch\<close>, \<^verbatim>\<open>pkg/utils/clusterclient\<close>): the composed
    chain, the dispatcher and its cache of clusters. Exactly who reaches a handler, what survives the way through a proxy, when the cache agrees
    with the listed clusters, and when the dispatcher blocks for ever.
  \<^item> \<open>Auditing\<close> (\<^verbatim>\<open>pkg/apiserver/auditing\<close>): events, their channel and batches.
  \<^item> \<open>Net_Address\<close>, \<open>Ip_Pool\<close>, \<open>Ipam_Block\<close>, \<open>Ipam_Handle\<close>, \<open>Ipam_Client\<close>, \<open>Ipam_Safety\<close>, \<open>Memory_Server\<close>
    (\<^verbatim>\<open>staging/.../network/v1alpha1\<close>, \<^verbatim>\<open>pkg/simple/client/network/ippool/ipam\<close>): addresses, pools, blocks and the IPAM client
    over an abstract server. The contract of the server is the locale \<open>versioned_store\<close>, which the memory server satisfies; over it no address
    is given to two handles.
  \<^item> \<open>Ippool_Controller\<close>, \<open>Ippool_Server\<close> (\<^verbatim>\<open>pkg/controller/network/ippool\<close>, \<^verbatim>\<open>pkg/simple/client/network/ippool/provider.go\<close>,
    \<^verbatim>\<open>pkg/controller/network/webhooks\<close>): validation and processing of pools. Pools do not overlap under stated conditions, a pool is deleted
    only with empty blocks, and in how many passes.
  \<^item> \<open>Quota_Resources\<close>, \<open>Quota_Admission\<close>, \<open>Quota_Queue\<close> (\<^verbatim>\<open>kube/\<close>: the arithmetic of resources, the admission controller and
    its work queue): batches are decided completely and respect the quotas; requests are conserved and answered; the evaluator refines an
    abstract batching of requests.
  \<^item> \<open>Workspace_Quota\<close>, \<open>Workspace_Admission\<close>, \<open>Quota_Server\<close>, \<open>Quota_Locks\<close> (\<^verbatim>\<open>pkg/controller/quota\<close>): accessor, controller,
    webhook and locks of workspace quotas. The contract of accessor and server is a family of locales with sublocales, which a memory
    server with versions, stale reads and other writers satisfies; totals agree with what is booked on namespaces, limits hold over whole runs, and
    locks taken in the order of names do not deadlock.
  \<^item> \<open>List_Query\<close> (\<^verbatim>\<open>pkg/apiserver/query\<close>, \<^verbatim>\<open>pkg/models/resources/v1alpha3\<close>): parsing of list queries, filtering, sorting and paging.
    The pages of a listing put together are all matching objects, in the order asked for.
  \<^item> \<open>Resource_Objects\<close>, \<open>Resource_Getters\<close>, \<open>Iam_Getters\<close>, \<open>Node_Getter\<close>, \<open>Resource_Registry\<close>
    (\<^verbatim>\<open>pkg/models/resources/v1alpha3/*\<close>, \<^verbatim>\<open>pkg/kapis/resources/v1alpha3/handler.go\<close>): the objects that the API reads, one getter per
    kind with its order and filter, the registry of getters and the handlers over it. What a kind promises its listing is the locale
    \<open>resource_kind\<close>; the kinds whose objects carry extra data (users with roles, nodes with their usage) have theories of their own. No
    answer shows the kubeconfig of a cluster, a workspace lists exactly the users its bindings name, annotating only a page of nodes
    changes nothing, and two kinds are read from the wrong lister.
  \<^item> \<open>Linstor\<close>, \<open>Linstor_Lvm\<close>, \<open>Versatel_Api\<close> (\<^verbatim>\<open>pkg/models/versatel\<close>, \<^verbatim>\<open>pkg/kapis/versatel\<close>): storage pools, resources and
    their replicas through the LINSTOR client, LVM over SSH, and the handlers of the API.
  \<^item> \<open>Tenant\<close>, \<open>Tenant_Api\<close> (\<^verbatim>\<open>pkg/models/tenant\<close>, \<^verbatim>\<open>pkg/kapis/tenant\<close>): what a tenant sees and changes, on top of the
    authorizer, the access management operator and the resource registry. Namespaces that are shown are justified by a permission or a
    binding, workspaces are listed exactly, and over the contract of a server (locale \<open>namespace_server\<close>) no requests through one
    workspace touch a namespace of another.
  \<^item> \<open>Es_Query\<close>, \<open>Tenant_Search\<close> (\<^verbatim>\<open>pkg/simple/client/{es,logging,events,auditing}\<close>, \<^verbatim>\<open>pkg/models/{events,auditing}\<close>,
    \<^verbatim>\<open>pkg/api/{logging,events,auditing}\<close>): searches of logs, events and audit events, from the parameters of a request to the query that
    Elasticsearch gets. Over the documented meaning of queries (locales \<open>document_store\<close> and \<open>indexed_store\<close>) an answer depends
    only on the documents the user may see.
  \<^item> \<open>Storage_Backup\<close> (\<^verbatim>\<open>pkg/models/storsecu\<close>, \<^verbatim>\<open>pkg/kapis/storsecu\<close>): snapshots, images, restores and regular backups by
    commands run in the backup pods. Success of the first four was confirmed by a pod; success of a regular backup says nothing.

  \<^bold>\<open>How state and effects are modelled.\<close> Structs are records, enumerations datatypes, Go maps association lists with unique keys. An
  operation that talks to a server is a function of an abstract state that the server may change in any way, so that stale reads and other
  clients are covered; it returns a value, an error, or a panic. Machine integers are words where they can overflow (sizes, ordinals,
  pagination), naturals or integers elsewhere. Concurrency is a step relation (work queue, quota locks, lock factory, pools) or a run over a
  list of events.

  \<^bold>\<open>Bounds.\<close> Retry loops carry the bounds of the code: ten attempts of the IPAM client (\<^verbatim>\<open>datastoreRetries\<close>), three
  rounds of quota admission, eighty polls of the quota accessor, a hundred pages of an export of logs, an LRU cache of a hundred entries. No definition needs fuel beyond these:
  the other loops recurse over lists or have a measure, and the work queue is a step relation whose liveness is proved from its load.

  \<^bold>\<open>Parameters.\<close> The Kubernetes API server, the quota evaluators, the LINSTOR client, SSH sessions, JWT signatures, bcrypt, identity
  providers, Redis, Rego policies, Elasticsearch, listers of informers, commands executed in pods, the older resource API, image registries, arithmetic of
  resource quantities, the decoding of bodies, JSON and list options, parsing of URLs, kubeconfigs and CIDR texts, label selectors beyond
  equality and \<^verbatim>\<open>sort.Slice\<close> are arguments; what is relied on is a hypothesis of the theorem, with a witness on a concrete instance.

  \<^bold>\<open>Not modelled.\<close> Vendored libraries except the few functions the models call; generated code (clientsets, informers, listers, deep copies,
  OpenAPI); the other controllers (workspaces, namespaces, roles, clusters, applications, Helm, notification, storage, network policies, Calico
  pools, snapshots), which mainly move fields between Kubernetes objects; DevOps and Jenkins, monitoring, alerting, metering and
  OpenPitrix, which translate requests for outside services; terminals, gateways and registries; start-up of servers and controllers, route
  registration and watches; the older resource API (\<^verbatim>\<open>v1alpha2\<close>), the status of components and the
  client of image registries. Within the modelled parts: posting of audit events, the discovery document of OAuth, the removal of secrets
  from provider options, discovery of LVM devices, and the time-out of a quota evaluation.
\<close>

end
